(* ===== verification/Prelude.thy ===== *)
theory Prelude
  imports Main "HOL-Library.Char_ord" "HOL-Library.List_Lexorder" "HOL-Library.Multiset"
begin

text \<open>
  What every component of the development shares: the string and list operations of
  JavaScript that the broker uses, the comparator interface of \<open>Array.prototype.sort\<close>,
  and the collections of simplification rules the component proofs add.

  A JavaScript string is modelled as a \<open>string\<close> whose characters are the code units below
  256 (ASCII and Latin-1).  A number is an \<open>int\<close> wherever the code only uses integers.
\<close>

named_theorems entry_simps "what an update of a registry entry leaves alone"
named_theorems op_defs "definitions of the broker operations, for unfolding"
named_theorems list_lib "facts on the list operations of the model"

section \<open>Strings\<close>

text \<open>The white space that \<open>String.prototype.trim\<close> and \<open>\s\<close> recognise below 256.\<close>

definition js_space :: "char \<Rightarrow> bool" where
  "js_space c = (c \<in> {CHR 0x09, CHR 0x0A, CHR 0x0B, CHR 0x0C, CHR 0x0D, CHR 0x20, CHR 0xA0})"

definition js_trim_start :: "string \<Rightarrow> string" where
  "js_trim_start s = dropWhile js_space s"

definition js_trim_end :: "string \<Rightarrow> string" where
  "js_trim_end s = rev (dropWhile js_space (rev s))"

definition js_trim :: "string \<Rightarrow> string" where
  "js_trim s = js_trim_end (js_trim_start s)"

definition starts_with :: "string \<Rightarrow> string \<Rightarrow> bool" where
  "starts_with s p = (take (length p) s = p)"

fun str_includes :: "string \<Rightarrow> string \<Rightarrow> bool" where
  "str_includes [] n = (n = [])"
| "str_includes (c # s) n = (starts_with (c # s) n \<or> str_includes s n)"

text \<open>\<open>s.split(sep)\<close> for a separator of one character.\<close>

fun split_on :: "char \<Rightarrow> string \<Rightarrow> string list" where
  "split_on d [] = [[]]"
| "split_on d (c # s) =
     (if c = d then [] # split_on d s
      else (case split_on d s of [] \<Rightarrow> [[c]] | w # ws \<Rightarrow> (c # w) # ws))"

definition is_digit :: "char \<Rightarrow> bool" where
  "is_digit c = (CHR ''0'' \<le> c \<and> c \<le> CHR ''9'')"

definition digit_val :: "char \<Rightarrow> nat" where
  "digit_val c = of_char c - 48"

definition digits_val :: "string \<Rightarrow> nat" where
  "digits_val s = foldl (\<lambda>n c. 10 * n + digit_val c) 0 s"

text \<open>\<open>/^\d+$/.test(s)\<close>\<close>

definition all_digits :: "string \<Rightarrow> bool" where
  "all_digits s = (s \<noteq> [] \<and> list_all is_digit s)"

definition upper_char :: "char \<Rightarrow> char" where
  "upper_char c = (if CHR ''a'' \<le> c \<and> c \<le> CHR ''z'' then char_of (of_char c - 32 :: nat) else c)"

text \<open>The decimal text of a number, as template literals and \<open>String(n)\<close> print it.\<close>

fun nat_text :: "nat \<Rightarrow> string" where
  "nat_text n = (if n < 10 then [char_of (48 + n)] else nat_text (n div 10) @ [char_of (48 + n mod 10)])"

declare nat_text.simps [simp del]

definition int_text :: "int \<Rightarrow> string" where
  "int_text n = (if n < 0 then CHR ''-'' # nat_text (nat (- n)) else nat_text (nat n))"

text \<open>\<open>xs.join(sep)\<close>\<close>

fun join_with :: "string \<Rightarrow> string list \<Rightarrow> string" where
  "join_with sep [] = []"
| "join_with sep [x] = x"
| "join_with sep (x # y # zs) = x @ sep @ join_with sep (y # zs)"

lemma js_trim_empty [simp]: "js_trim [] = []"
  by (simp add: js_trim_def js_trim_end_def js_trim_start_def)

lemma dropWhile_idem: "dropWhile P (dropWhile P xs) = dropWhile P xs"
  by (induction xs) auto

lemma js_trim_end_idem: "js_trim_end (js_trim_end s) = js_trim_end s"
  by (simp add: js_trim_end_def dropWhile_idem)

lemma dropWhile_rev_dropWhile:
  assumes "s = [] \<or> \<not> P (hd s)"
  shows "rev (dropWhile P (rev s)) = [] \<or> \<not> P (hd (rev (dropWhile P (rev s))))"
proof (cases "rev (dropWhile P (rev s)) = []")
  case False
  have "s = rev (dropWhile P (rev s)) @ rev (takeWhile P (rev s))"
    by (metis rev_append rev_rev_ident takeWhile_dropWhile_id)
  then have "hd s = hd (rev (dropWhile P (rev s)))" "s \<noteq> []"
    using False by (metis hd_append2, metis False Nil_is_append_conv)
  with assms show ?thesis by auto
qed simp

lemma dropWhile_fixed: "s = [] \<or> \<not> P (hd s) \<Longrightarrow> dropWhile P s = s"
  by (cases s) auto

lemma dropWhile_start: "dropWhile P s = [] \<or> \<not> P (hd (dropWhile P s))"
  by (induction s) auto

lemma js_trim_idem [simp]: "js_trim (js_trim s) = js_trim s"
proof -
  have "js_trim_start (js_trim s) = js_trim s"
    unfolding js_trim_def js_trim_start_def js_trim_end_def
    by (rule dropWhile_fixed, rule dropWhile_rev_dropWhile, rule dropWhile_start)
  then show ?thesis
    by (simp add: js_trim_def [of "js_trim s"]) (simp add: js_trim_def js_trim_end_idem)
qed

lemma split_on_not_Nil [simp]: "split_on d s \<noteq> []"
  by (induction s) (auto split: list.splits)

lemma split_on_no_sep: "d \<notin> set s \<Longrightarrow> split_on d s = [s]"
  by (induction s) auto

lemma split_on_append: "d \<notin> set s \<Longrightarrow> split_on d (s @ d # t) = s # split_on d t"
  by (induction s) auto

lemma split_on_pieces: "w \<in> set (split_on d s) \<Longrightarrow> d \<notin> set w"
proof (induction s arbitrary: w)
  case Nil
  then show ?case by simp
next
  case (Cons c s)
  obtain v vs where v: "split_on d s = v # vs"
    by (cases "split_on d s") auto
  show ?case
  proof (cases "c = d")
    case True
    with Cons show ?thesis by auto
  next
    case False
    with Cons.prems v have "w = c # v \<or> w \<in> set vs" by auto
    moreover have "d \<notin> set v" "w \<in> set vs \<Longrightarrow> d \<notin> set w"
      using Cons.IH v by auto
    ultimately show ?thesis using False by auto
  qed
qed

lemma digits_val_snoc: "digits_val (s @ [c]) = 10 * digits_val s + digit_val c"
  by (simp add: digits_val_def)

lemma char_digit: "n < 10 \<Longrightarrow> is_digit (char_of (48 + n)) \<and> digit_val (char_of (48 + n)) = n"
  by (auto simp: is_digit_def digit_val_def less_eq_char_def of_char_of take_bit_eq_mod)

lemma nat_text_digits: "all_digits (nat_text n) \<and> digits_val (nat_text n) = n"
proof (induction n rule: nat_text.induct)
  case (1 n)
  show ?case
  proof (cases "n < 10")
    case True
    then show ?thesis
      by (simp add: nat_text.simps [of n] all_digits_def digits_val_def char_digit)
  next
    case False
    with 1 have IH: "all_digits (nat_text (n div 10))" "digits_val (nat_text (n div 10)) = n div 10"
      by auto
    have "n mod 10 < 10" by simp
    with IH False show ?thesis
      by (simp add: nat_text.simps [of n] all_digits_def digits_val_snoc char_digit)
  qed
qed

lemma nat_text_inj: "nat_text m = nat_text n \<Longrightarrow> m = n"
  by (metis nat_text_digits)

section \<open>Lists\<close>

text \<open>\<open>[...new Set(xs)]\<close>: the first occurrence of each element, in order.\<close>

fun uniq :: "'a list \<Rightarrow> 'a list" where
  "uniq [] = []"
| "uniq (x # xs) = x # removeAll x (uniq xs)"

lemma set_uniq [simp]: "set (uniq xs) = set xs"
  by (induction xs) auto

lemma distinct_uniq [simp]: "distinct (uniq xs)"
  by (induction xs) (auto simp: distinct_removeAll)

lemma uniq_distinct: "distinct xs \<Longrightarrow> uniq xs = xs"
  by (induction xs) auto

lemma uniq_idem [simp]: "uniq (uniq xs) = uniq xs"
  by (simp add: uniq_distinct)

lemma uniq_Nil_iff [simp]: "uniq xs = [] \<longleftrightarrow> xs = []"
  by (cases xs) auto

text \<open>\<open>xs.find(p)\<close> is \<open>List.find\<close>; \<open>new Map(pairs).get(k)\<close> takes the last pair of a key.\<close>

definition map_get :: "('k \<times> 'v) list \<Rightarrow> 'k \<Rightarrow> 'v option" where
  "map_get ps k = map_of (rev ps) k"

lemma find_SomeD: "List.find P xs = Some x \<Longrightarrow> x \<in> set xs \<and> P x"
  by (induction xs) (auto split: if_splits)

lemma find_NoneD: "List.find P xs = None \<Longrightarrow> x \<in> set xs \<Longrightarrow> \<not> P x"
  by (induction xs) (auto split: if_splits)

lemma find_distinct_key:
  "distinct (map f xs) \<Longrightarrow> x \<in> set xs \<Longrightarrow> List.find (\<lambda>y. f y = f x) xs = Some x"
  by (induction xs) (auto simp: image_iff)

lemma map_get_SomeD: "map_get ps k = Some v \<Longrightarrow> (k, v) \<in> set ps"
  by (auto simp: map_get_def dest: map_of_SomeD)

lemma map_get_None_iff: "map_get ps k = None \<longleftrightarrow> k \<notin> fst ` set ps"
  by (simp add: map_get_def map_of_eq_None_iff)

lemma map_get_distinct:
  "distinct (map fst ps) \<Longrightarrow> (k, v) \<in> set ps \<Longrightarrow> map_get ps k = Some v"
  by (simp add: map_get_def rev_map [symmetric])

text \<open>\<open>[...map.values()]\<close>: one value per key, at the place of its first insertion.\<close>

definition map_values :: "('k \<times> 'v) list \<Rightarrow> 'v list" where
  "map_values ps = List.map_filter (map_get ps) (uniq (map fst ps))"

lemma map_values_in: "x \<in> set (map_values ps) \<Longrightarrow> \<exists>k. map_get ps k = Some x"
  by (auto simp: map_values_def List.map_filter_def)

lemma map_values_complete: "map_get ps k = Some x \<Longrightarrow> x \<in> set (map_values ps)"
  unfolding map_values_def List.map_filter_def using map_get_SomeD [of ps k x]
  by (auto intro!: image_eqI [of _ _ k] image_eqI [of _ fst "(k, x)"])

lemmas find_simps [list_lib] = find_SomeD find_NoneD
lemmas uniq_simps [list_lib] = set_uniq distinct_uniq uniq_distinct

section \<open>Sorting with a comparator\<close>

text \<open>
  \<open>xs.sort(cmp)\<close> is stable, so for a consistent comparator its result is the one stable sorted
  permutation; insertion from the right computes it.  (For an inconsistent comparator ECMAScript
  leaves the order open.)
\<close>

fun ins_by :: "('a \<Rightarrow> 'a \<Rightarrow> int) \<Rightarrow> 'a \<Rightarrow> 'a list \<Rightarrow> 'a list" where
  "ins_by cmp x [] = [x]"
| "ins_by cmp x (y # ys) = (if cmp x y \<le> 0 then x # y # ys else y # ins_by cmp x ys)"

definition js_sort :: "('a \<Rightarrow> 'a \<Rightarrow> int) \<Rightarrow> 'a list \<Rightarrow> 'a list" where
  "js_sort cmp xs = foldr (ins_by cmp) xs []"

text \<open>The comparators of the code: the difference of two numbers, \<open>localeCompare\<close> and the
  default comparison of strings (code units, which is the lexicographic order here).\<close>

definition cmp_int :: "int \<Rightarrow> int \<Rightarrow> int" where
  "cmp_int a b = a - b"

definition cmp_key :: "('a \<Rightarrow> 'k::linorder) \<Rightarrow> 'a \<Rightarrow> 'a \<Rightarrow> int" where
  "cmp_key f x y = (if f x < f y then -1 else if f x = f y then 0 else 1)"

lemma mset_ins_by [simp]: "mset (ins_by cmp x xs) = add_mset x (mset xs)"
  by (induction xs) auto

lemma mset_js_sort [simp]: "mset (js_sort cmp xs) = mset xs"
  by (induction xs) (auto simp: js_sort_def)

lemma set_js_sort [simp]: "set (js_sort cmp xs) = set xs"
  by (metis mset_js_sort set_mset_mset)

lemma length_js_sort [simp]: "length (js_sort cmp xs) = length xs"
  by (metis mset_js_sort size_mset)

lemma distinct_js_sort [simp]: "distinct (js_sort cmp xs) = distinct xs"
  by (metis mset_eq_imp_distinct_iff mset_js_sort)

lemma js_sort_Nil_iff [simp]: "js_sort cmp xs = [] \<longleftrightarrow> xs = []"
  by (metis length_0_conv length_js_sort)

text \<open>What \<open>sort\<close> asks of its comparator, and what it then gives.\<close>

locale comparator =
  fixes cmp :: "'a \<Rightarrow> 'a \<Rightarrow> int"
  assumes cmp_total: "cmp x y \<le> 0 \<or> cmp y x \<le> 0"
    and cmp_trans: "cmp x y \<le> 0 \<Longrightarrow> cmp y z \<le> 0 \<Longrightarrow> cmp x z \<le> 0"
begin

lemma cmp_refl: "cmp x x \<le> 0"
  using cmp_total [of x x] by simp

lemma sorted_ins_by:
  "sorted_wrt (\<lambda>x y. cmp x y \<le> 0) xs \<Longrightarrow> sorted_wrt (\<lambda>x y. cmp x y \<le> 0) (ins_by cmp x xs)"
proof (induction xs)
  case Nil
  then show ?case by simp
next
  case (Cons y ys)
  show ?case
  proof (cases "cmp x y \<le> 0")
    case True
    with Cons.prems show ?thesis by (auto intro: cmp_trans)
  next
    case False
    then have "cmp y x \<le> 0" using cmp_total by blast
    moreover have "set (ins_by cmp x ys) = insert x (set ys)"
      by (metis mset_ins_by set_mset_add_mset_insert set_mset_mset)
    ultimately show ?thesis using False Cons by auto
  qed
qed

lemma sorted_js_sort: "sorted_wrt (\<lambda>x y. cmp x y \<le> 0) (js_sort cmp xs)"
  unfolding js_sort_def by (induction xs) (auto intro: sorted_ins_by)

lemma hd_js_sort_least: "x \<in> set xs \<Longrightarrow> cmp (hd (js_sort cmp xs)) x \<le> 0"
proof -
  assume x: "x \<in> set xs"
  then obtain y ys where e: "js_sort cmp xs = y # ys"
    by (cases "js_sort cmp xs") auto
  with x have "x = y \<or> x \<in> set ys" by (metis set_ConsD set_js_sort)
  with e sorted_js_sort [of xs] show ?thesis by (auto intro: cmp_refl)
qed

end

interpretation int_cmp: comparator cmp_int
  by unfold_locales (auto simp: cmp_int_def)

interpretation key_cmp: comparator "cmp_key f"
  by unfold_locales (auto simp: cmp_key_def split: if_splits)

text \<open>\<open>xs.sort()\<close> on strings or numbers.\<close>

definition sort_strings :: "string list \<Rightarrow> string list" where
  "sort_strings xs = js_sort (cmp_key id) xs"

lemma set_sort_strings [simp]: "set (sort_strings xs) = set xs"
  by (simp add: sort_strings_def)

lemma js_sort_key: "js_sort (cmp_key f) xs = sort_key f xs"
proof (induction xs)
  case Nil
  then show ?case by (simp add: js_sort_def)
next
  case (Cons x xs)
  have "ins_by (cmp_key f) x ys = insort_key f x ys" for ys
    by (induction ys) (auto simp: cmp_key_def)
  with Cons show ?case by (simp add: js_sort_def)
qed

section \<open>Options and errors\<close>

text \<open>\<open>a ?? b\<close>\<close>

definition nullish :: "'a option \<Rightarrow> 'a \<Rightarrow> 'a" where
  "nullish a b = (case a of Some x \<Rightarrow> x | None \<Rightarrow> b)"

lemma nullish_simps [simp]: "nullish (Some x) b = x" "nullish None b = b"
  by (simp_all add: nullish_def)

definition or_else :: "'a option \<Rightarrow> 'a option \<Rightarrow> 'a option" where
  "or_else a b = (case a of Some x \<Rightarrow> Some x | None \<Rightarrow> b)"

lemma or_else_simps [simp]: "or_else (Some x) b = Some x" "or_else None b = b"
  by (simp_all add: or_else_def)

text \<open>Sequencing of checks: the first error is the result, as a \<open>throw\<close> is.\<close>

definition seq :: "'e + 'a \<Rightarrow> ('a \<Rightarrow> 'e + 'b) \<Rightarrow> 'e + 'b" where
  "seq m k = (case m of Inl e \<Rightarrow> Inl e | Inr x \<Rightarrow> k x)"

lemma seq_simps [simp]: "seq (Inl e) k = Inl e" "seq (Inr x) k = k x"
  by (simp_all add: seq_def)

lemma seq_Inr_iff: "seq m k = Inr y \<longleftrightarrow> (\<exists>x. m = Inr x \<and> k x = Inr y)"
  by (cases m) auto

lemma seq_Inl_iff: "seq m k = Inl e \<longleftrightarrow> m = Inl e \<or> (\<exists>x. m = Inr x \<and> k x = Inl e)"
  by (cases m) auto

text \<open>\<open>xs.map(f)\<close> where \<open>f\<close> may throw: left to right, the first error wins.\<close>

fun map_seq :: "('a \<Rightarrow> 'e + 'b) \<Rightarrow> 'a list \<Rightarrow> 'e + 'b list" where
  "map_seq f [] = Inr []"
| "map_seq f (x # xs) = seq (f x) (\<lambda>y. seq (map_seq f xs) (\<lambda>ys. Inr (y # ys)))"

lemma map_seq_Inr: "map_seq f xs = Inr ys \<Longrightarrow> list_all2 (\<lambda>x y. f x = Inr y) xs ys"
  by (induction xs arbitrary: ys) (auto simp: seq_Inr_iff)

lemma map_seq_all_Inr: "(\<And>x. x \<in> set xs \<Longrightarrow> f x = Inr (g x)) \<Longrightarrow> map_seq f xs = Inr (map g xs)"
  by (induction xs) auto

lemma map_seq_elem: "map_seq f xs = Inr ys \<Longrightarrow> y \<in> set ys \<Longrightarrow> \<exists>x\<in>set xs. f x = Inr y"
  by (induction xs arbitrary: ys) (auto simp: seq_Inr_iff)

lemma map_seq_Inl: "map_seq f xs = Inl e \<Longrightarrow> \<exists>x\<in>set xs. f x = Inl e"
  by (induction xs) (auto simp: seq_Inl_iff)

text \<open>The index that \<open>xs.map((x, i) => \<dots>)\<close> passes along.\<close>

definition indexed :: "'a list \<Rightarrow> (nat \<times> 'a) list" where
  "indexed xs = zip [0..<length xs] xs"

lemma map_snd_indexed [simp]: "map snd (indexed xs) = xs"
  by (simp add: indexed_def)

end
