(* ===== verification/Error_Contract.thy ===== *)
theory Error_Contract
  imports Prelude
begin

text \<open>
  The error contract of the broker (\<open>broker-core/error-contract.mjs\<close>) and the errors the core
  throws (\<open>class BrokerError\<close> in \<open>broker-core/index.mjs\<close>).  A reason code is in at most one of
  four classes; the class decides the exit code of the command line client and the HTTP status
  of the service.
\<close>

section \<open>Exit codes\<close>

datatype exit_kind = internal | invalidRequest | unavailable | repairNeeded | overrideRequired | success

fun broker_exit_code :: "exit_kind \<Rightarrow> int" where
  "broker_exit_code internal = 1"
| "broker_exit_code invalidRequest = 2"
| "broker_exit_code unavailable = 3"
| "broker_exit_code repairNeeded = 4"
| "broker_exit_code overrideRequired = 5"
| "broker_exit_code success = 0"

definition internal_error_reason_code :: string where
  "internal_error_reason_code = ''internal-error''"

section \<open>Classes of reason codes\<close>

definition invalid_request_reason_codes :: "string list" where
  "invalid_request_reason_codes =
    [''alias-purpose-mismatch'', ''capacity-unsupported-capability'', ''event-cursor-not-found'',
     ''inactive-lease-reference'', ''invalid-command-request'', ''invalid-config'', ''invalid-flag'',
     ''invalid-json'', ''invalid-lease-artifact-path'', ''lease-alias-mismatch'', ''lease-not-found'',
     ''missing-flag'', ''missing-host-config'', ''missing-lease-reference'', ''missing-project-file'',
     ''pin-not-found'', ''project-config-exists'', ''route-not-found'', ''unknown-alias'',
     ''unknown-command'', ''unknown-purpose'', ''unsupported-simulator-action'']"

definition unavailable_reason_codes :: "string list" where
  "unavailable_reason_codes =
    [''alias-busy'', ''capacity-apply-blocked'', ''containment-incomplete'', ''device-type-not-found'',
     ''force-override-forbidden'', ''lease-conflict'', ''no-matching-alias'', ''pin-conflict'',
     ''project-in-use'', ''process-sampler-timeout'', ''runtime-not-found'', ''simctl-timeout'',
     ''service-start-timeout'', ''service-stop-timeout'', ''service-command-expired'',
     ''service-identity-mismatch'', ''service-runtime-incompatible'', ''service-unavailable'',
     ''setup-health-check-failed'', ''setup-prerequisite-failed'', ''reset-lock-timeout'']"

definition repair_needed_reason_codes :: "string list" where
  "repair_needed_reason_codes =
    [''boot-on-acquire-failed'', ''reset-on-acquire-failed'', ''capacity-repair-required'',
     ''purpose-delete-failed'', ''purpose-repair-failed'', ''unhealthy-alias'', ''slot-reclaim-failed'']"

definition override_required_reason_codes :: "string list" where
  "override_required_reason_codes =
    [''capacity-actor-forbidden'', ''capacity-actor-required'', ''capacity-confirmation-required'',
     ''capacity-plan-stale'', ''human-override-required'', ''idle-confirmation-required'',
     ''idle-human-required'', ''idle-plan-stale'', ''missing-override-reason'',
     ''override-alias-mismatch'', ''override-lease-mismatch'', ''override-required'',
     ''setup-confirmation-required'', ''setup-plan-stale'']"

section \<open>Exit code and HTTP status of a reason code\<close>

text \<open>A missing reason code (\<open>undefined\<close>) is \<open>None\<close>; it is in no class.\<close>

definition in_codes :: "string option \<Rightarrow> string list \<Rightarrow> bool" where
  "in_codes r codes = (case r of None \<Rightarrow> False | Some c \<Rightarrow> c \<in> set codes)"

definition resolveBrokerExitCode :: "string option \<Rightarrow> int \<Rightarrow> int" where
  "resolveBrokerExitCode reasonCode fallback =
    (if in_codes reasonCode override_required_reason_codes then broker_exit_code overrideRequired
     else if in_codes reasonCode repair_needed_reason_codes then broker_exit_code repairNeeded
     else if in_codes reasonCode unavailable_reason_codes then broker_exit_code unavailable
     else if in_codes reasonCode invalid_request_reason_codes then broker_exit_code invalidRequest
     else fallback)"

definition resolveBrokerHttpStatus :: "string option \<Rightarrow> int \<Rightarrow> int" where
  "resolveBrokerHttpStatus reasonCode fallback =
    (if reasonCode = Some ''route-not-found'' then 404
     else if in_codes reasonCode override_required_reason_codes then 412
     else if in_codes reasonCode repair_needed_reason_codes then 423
     else if in_codes reasonCode unavailable_reason_codes then 409
     else if in_codes reasonCode invalid_request_reason_codes then 400
     else fallback)"

section \<open>Broker errors\<close>

text \<open>
  \<open>BrokerError(message, {exitCode, reasonCode, cause, field, ...})\<close>: of the payload the model
  keeps what the code reads again, the reason code, the cause and the field; the other members
  only decorate the report.  \<open>HostError\<close> is any other exception (a file system or simctl error),
  known by its message.
\<close>

datatype berr =
    BrokerError (err_message: string) (err_reason: "string option") (err_cause: "string option")
      (err_field: "string option") (err_exit: "int option")
  | HostError (err_message: string)

definition broker_err :: "string \<Rightarrow> string \<Rightarrow> berr" where
  "broker_err msg reason = BrokerError msg (Some reason) None None None"

definition config_err :: "string \<Rightarrow> string \<Rightarrow> berr" where
  "config_err msg field = BrokerError msg (Some ''invalid-config'') None (Some field) None"

definition cause_err :: "string \<Rightarrow> string \<Rightarrow> string \<Rightarrow> berr" where
  "cause_err msg reason cause = BrokerError msg (Some reason) (Some cause) None None"

text \<open>\<open>error.payload?.reasonCode\<close>\<close>

fun payload_reason :: "berr \<Rightarrow> string option" where
  "payload_reason (BrokerError m r c f x) = r"
| "payload_reason (HostError m) = None"

text \<open>\<open>error.payload?.cause ?? error.message\<close>\<close>

fun cause_or_message :: "berr \<Rightarrow> string" where
  "cause_or_message (BrokerError m r c f x) = nullish c m"
| "cause_or_message (HostError m) = m"

fun is_broker_error :: "berr \<Rightarrow> bool" where
  "is_broker_error (BrokerError m r c f x) = True"
| "is_broker_error (HostError m) = False"

text \<open>The constructor's \<open>exitCode ?? resolveBrokerExitCode(payload.reasonCode)\<close>.\<close>

fun broker_error_exit :: "berr \<Rightarrow> int" where
  "broker_error_exit (BrokerError m r c f x) = nullish x (resolveBrokerExitCode r (broker_exit_code internal))"
| "broker_error_exit (HostError m) = broker_exit_code internal"

lemma err_reason_simps [simp]:
  "payload_reason (broker_err m r) = Some r"
  "payload_reason (config_err m f) = Some ''invalid-config''"
  "payload_reason (cause_err m r c) = Some r"
  by (simp_all add: broker_err_def config_err_def cause_err_def)

lemma is_broker_error_simps [simp]:
  "is_broker_error (broker_err m r)" "is_broker_error (config_err m f)" "is_broker_error (cause_err m r c)"
  by (simp_all add: broker_err_def config_err_def cause_err_def)

section \<open>The classes do not overlap\<close>

definition all_reason_codes :: "string list" where
  "all_reason_codes = invalid_request_reason_codes @ unavailable_reason_codes
     @ repair_needed_reason_codes @ override_required_reason_codes"

lemmas reason_code_defs = invalid_request_reason_codes_def unavailable_reason_codes_def
  repair_needed_reason_codes_def override_required_reason_codes_def

lemma distinct_all_reason_codes: "distinct all_reason_codes"
  unfolding all_reason_codes_def reason_code_defs by simp

lemma reason_classes_disjoint:
  assumes "c \<in> set A" "c \<in> set B"
    "(A, B) \<in> {(invalid_request_reason_codes, unavailable_reason_codes),
       (invalid_request_reason_codes, repair_needed_reason_codes),
       (invalid_request_reason_codes, override_required_reason_codes),
       (unavailable_reason_codes, repair_needed_reason_codes),
       (unavailable_reason_codes, override_required_reason_codes),
       (repair_needed_reason_codes, override_required_reason_codes)}"
  shows False
  using assms distinct_all_reason_codes unfolding all_reason_codes_def by auto

lemma exit_code_of_class:
  "c \<in> set override_required_reason_codes \<Longrightarrow> resolveBrokerExitCode (Some c) d = 5"
  "c \<in> set repair_needed_reason_codes \<Longrightarrow> resolveBrokerExitCode (Some c) d = 4"
  "c \<in> set unavailable_reason_codes \<Longrightarrow> resolveBrokerExitCode (Some c) d = 3"
  "c \<in> set invalid_request_reason_codes \<Longrightarrow> resolveBrokerExitCode (Some c) d = 2"
  "c \<notin> set all_reason_codes \<Longrightarrow> resolveBrokerExitCode (Some c) d = d"
  using reason_classes_disjoint [of c]
  by (auto simp: resolveBrokerExitCode_def in_codes_def all_reason_codes_def)

lemma http_status_of_class:
  "c \<in> set override_required_reason_codes \<Longrightarrow> resolveBrokerHttpStatus (Some c) d = 412"
  "c \<in> set repair_needed_reason_codes \<Longrightarrow> resolveBrokerHttpStatus (Some c) d = 423"
  "c \<in> set unavailable_reason_codes \<Longrightarrow> resolveBrokerHttpStatus (Some c) d = 409"
  "c \<in> set invalid_request_reason_codes \<Longrightarrow> c \<noteq> ''route-not-found'' \<Longrightarrow>
     resolveBrokerHttpStatus (Some c) d = 400"
  "c \<notin> set all_reason_codes \<Longrightarrow> resolveBrokerHttpStatus (Some c) d = d"
proof -
  have r: "''route-not-found'' \<in> set invalid_request_reason_codes"
    by (simp add: invalid_request_reason_codes_def)
  show "c \<in> set override_required_reason_codes \<Longrightarrow> resolveBrokerHttpStatus (Some c) d = 412"
    "c \<in> set repair_needed_reason_codes \<Longrightarrow> resolveBrokerHttpStatus (Some c) d = 423"
    "c \<in> set unavailable_reason_codes \<Longrightarrow> resolveBrokerHttpStatus (Some c) d = 409"
    "c \<in> set invalid_request_reason_codes \<Longrightarrow> c \<noteq> ''route-not-found'' \<Longrightarrow>
       resolveBrokerHttpStatus (Some c) d = 400"
    "c \<notin> set all_reason_codes \<Longrightarrow> resolveBrokerHttpStatus (Some c) d = d"
    using reason_classes_disjoint [of c] r
    by (auto simp: resolveBrokerHttpStatus_def in_codes_def all_reason_codes_def)
qed

text \<open>The command line client and the service agree on every error: exit code and HTTP status are
  both determined by the class of the reason code, different classes have different statuses, and
  the fallback is used by both for exactly the codes outside the contract.\<close>

theorem exit_and_status_agree:
  "(resolveBrokerExitCode (Some c) 1, resolveBrokerHttpStatus (Some c) 500) \<in>
     {(5, 412), (4, 423), (3, 409), (2, 400), (2, 404), (1, 500)}
   \<and> (resolveBrokerExitCode (Some c) 1 = 1 \<longleftrightarrow> c \<notin> set all_reason_codes)
   \<and> (resolveBrokerHttpStatus (Some c) 500 = 500 \<longleftrightarrow> c \<notin> set all_reason_codes)
   \<and> (resolveBrokerHttpStatus (Some c) 500 = 404 \<longleftrightarrow> c = ''route-not-found'')"
proof (cases "c = ''route-not-found''")
  case True
  then show ?thesis by (simp add: resolveBrokerExitCode_def resolveBrokerHttpStatus_def in_codes_def
        all_reason_codes_def reason_code_defs)
next
  case False
  consider "c \<in> set override_required_reason_codes" | "c \<in> set repair_needed_reason_codes"
    | "c \<in> set unavailable_reason_codes" | "c \<in> set invalid_request_reason_codes"
    | "c \<notin> set all_reason_codes"
    by (auto simp: all_reason_codes_def)
  then show ?thesis
    using False
    by cases (auto simp: exit_code_of_class http_status_of_class, auto simp: all_reason_codes_def)
qed

end
