(* ===== verification/Json_Values.thy ===== *)
theory Json_Values
  imports Error_Contract
begin

text \<open>
  JSON values as \<open>JSON.parse\<close> delivers them and as command options arrive, with the checks of
  \<open>broker-core/index.mjs\<close> that turn them into typed values: the \<open>require\<dots>\<close> functions for
  configuration fields and the integer normalisers for flags.  A property that is absent
  (\<open>undefined\<close>) is \<open>None\<close>.
\<close>

section \<open>Values\<close>

text \<open>A \<open>Number\<close> is \<open>JInt\<close> when it is an integer and \<open>JReal\<close> otherwise: the code asks nothing
  else of a non-integral number.\<close>

datatype js =
    JNull
  | JBool bool
  | JInt int
  | JReal
  | JStr string
  | JArr "js list"
  | JObj "(string \<times> js) list"

definition obj_get :: "(string \<times> js) list \<Rightarrow> string \<Rightarrow> js option" where
  "obj_get kvs k = map_of kvs k"

definition max_safe_integer :: int where
  "max_safe_integer = 9007199254740991"

section \<open>Number conversion\<close>

text \<open>\<open>Number(s)\<close> for a string, where the result is an integer; \<open>None\<close> stands for \<open>NaN\<close>, for the
  infinities and for a fraction.  Integers are exact up to \<open>2^53\<close>, as in JavaScript.\<close>

definition hex_val :: "char \<Rightarrow> nat option" where
  "hex_val c = (if is_digit c then Some (digit_val c)
     else if CHR ''a'' \<le> c \<and> c \<le> CHR ''f'' then Some (of_char c - 87)
     else if CHR ''A'' \<le> c \<and> c \<le> CHR ''F'' then Some (of_char c - 55)
     else None)"

fun radix_acc :: "nat \<Rightarrow> string \<Rightarrow> nat \<Rightarrow> nat option" where
  "radix_acc b [] n = Some n"
| "radix_acc b (c # s) n =
     (case hex_val c of None \<Rightarrow> None
      | Some d \<Rightarrow> if d < b then radix_acc b s (b * n + d) else None)"

definition radix_number :: "nat \<Rightarrow> string \<Rightarrow> int option" where
  "radix_number b s = (if s = [] then None else map_option int (radix_acc b s 0))"

definition split_sign :: "string \<Rightarrow> int \<times> string" where
  "split_sign s = (case s of CHR ''-'' # r \<Rightarrow> (- 1, r) | CHR ''+'' # r \<Rightarrow> (1, r) | _ \<Rightarrow> (1, s))"

definition exponent_number :: "string \<Rightarrow> int option" where
  "exponent_number s = (let (sg, d) = split_sign s in
     if all_digits d then Some (sg * int (digits_val d)) else None)"

definition scaled :: "int \<Rightarrow> int \<Rightarrow> int option" where
  "scaled m e = (if 0 \<le> e then Some (m * 10 ^ nat e)
     else if m mod 10 ^ nat (- e) = 0 then Some (m div 10 ^ nat (- e)) else None)"

definition decimal_number :: "string \<Rightarrow> int option" where
  "decimal_number s =
    (let (sg, u) = split_sign s;
         m = takeWhile (\<lambda>c. c \<noteq> CHR ''e'' \<and> c \<noteq> CHR ''E'') u;
         rest = drop (length m) u;
         ex = (case rest of [] \<Rightarrow> Some 0 | _ # r \<Rightarrow> exponent_number r)
     in case (split_on CHR ''.'' m, ex) of
          ([i], Some e) \<Rightarrow> if all_digits i then scaled (sg * int (digits_val i)) e else None
        | ([i, f], Some e) \<Rightarrow>
            if all_digits (i @ f) then scaled (sg * int (digits_val (i @ f))) (e - int (length f)) else None
        | _ \<Rightarrow> None)"

definition str_number :: "string \<Rightarrow> int option" where
  "str_number s0 = (let s = js_trim s0 in
     if s = [] then Some 0
     else if starts_with s ''0x'' \<or> starts_with s ''0X'' then radix_number 16 (drop 2 s)
     else if starts_with s ''0o'' \<or> starts_with s ''0O'' then radix_number 8 (drop 2 s)
     else if starts_with s ''0b'' \<or> starts_with s ''0B'' then radix_number 2 (drop 2 s)
     else decimal_number s)"

fun to_number :: "js \<Rightarrow> int option" where
  "to_number JNull = Some 0"
| "to_number (JBool b) = Some (if b then 1 else 0)"
| "to_number (JInt n) = Some n"
| "to_number JReal = None"
| "to_number (JStr s) = str_number s"
| "to_number (JArr []) = Some 0"
| "to_number (JArr [x]) = (case x of JNull \<Rightarrow> Some 0 | JBool _ \<Rightarrow> None | _ \<Rightarrow> to_number x)"
| "to_number (JArr (x # y # zs)) = None"
| "to_number (JObj kvs) = None"

definition js_number :: "js option \<Rightarrow> int option" where
  "js_number v = (case v of None \<Rightarrow> None | Some x \<Rightarrow> to_number x)"

section \<open>Integer flags\<close>

definition normalizePositiveInteger :: "js option \<Rightarrow> int option" where
  "normalizePositiveInteger v =
    (case js_number v of Some n \<Rightarrow> if 0 < n then Some n else None | None \<Rightarrow> None)"

definition normalizeNonNegativeInteger :: "js option \<Rightarrow> int option" where
  "normalizeNonNegativeInteger v =
    (if (case v of Some (JStr s) \<Rightarrow> js_trim s = [] | _ \<Rightarrow> False) then None
     else (case js_number v of Some n \<Rightarrow> if 0 \<le> n then Some n else None | None \<Rightarrow> None))"

definition js_nullish :: "js option \<Rightarrow> bool" where
  "js_nullish v = (v = None \<or> v = Some JNull)"

definition requireBoundedInteger :: "js option \<Rightarrow> string \<Rightarrow> int \<Rightarrow> int \<Rightarrow> berr + int" where
  "requireBoundedInteger v flagName minimum maximum =
    (case js_number v of
       Some n \<Rightarrow> if minimum \<le> n \<and> n \<le> maximum then Inr n
         else if js_nullish v
           then Inl (broker_err (''Missing required flag --'' @ flagName @ ''.'') ''missing-flag'')
           else Inl (broker_err (''Flag --'' @ flagName @ '' must be an integer from '' @ int_text minimum
             @ '' through '' @ int_text maximum @ ''.'') ''invalid-flag'')
     | None \<Rightarrow> if js_nullish v
           then Inl (broker_err (''Missing required flag --'' @ flagName @ ''.'') ''missing-flag'')
           else Inl (broker_err (''Flag --'' @ flagName @ '' must be an integer from '' @ int_text minimum
             @ '' through '' @ int_text maximum @ ''.'') ''invalid-flag''))"

definition requirePositiveInteger :: "js option \<Rightarrow> string \<Rightarrow> berr + int" where
  "requirePositiveInteger v flagName =
    (case normalizePositiveInteger v of
       Some n \<Rightarrow> Inr n
     | None \<Rightarrow> if js_nullish v
         then Inl (broker_err (''Missing required flag --'' @ flagName @ ''.'') ''missing-flag'')
         else Inl (broker_err (''Flag --'' @ flagName @ '' must be a positive integer.'') ''invalid-flag''))"

definition requireProjectId :: "js option \<Rightarrow> berr + string" where
  "requireProjectId v =
    (case v of
       Some (JStr s) \<Rightarrow> if js_trim s \<noteq> [] then Inr s
         else Inl (broker_err ''Flag --project-id must be a non-empty string.'' ''invalid-flag'')
     | _ \<Rightarrow> Inl (broker_err ''Flag --project-id must be a non-empty string.'' ''invalid-flag''))"

definition optionalNonNegativeInteger :: "js option \<Rightarrow> string \<Rightarrow> berr + int option" where
  "optionalNonNegativeInteger v flagName =
    (if js_nullish v then Inr None
     else case normalizeNonNegativeInteger v of
       Some n \<Rightarrow> Inr (Some n)
     | None \<Rightarrow> Inl (broker_err (''Flag --'' @ flagName @ '' must be a nonnegative integer.'') ''invalid-flag''))"

definition requireContainmentRootInteger :: "js option \<Rightarrow> string \<Rightarrow> berr + int" where
  "requireContainmentRootInteger v flagName =
    seq (requirePositiveInteger v flagName) (\<lambda>n.
      if 1 < n then Inr n
      else Inl (broker_err (''Flag --'' @ flagName @ '' must be greater than 1.'') ''invalid-flag''))"

definition optionalContainmentGroupInteger :: "js option \<Rightarrow> string \<Rightarrow> berr + int option" where
  "optionalContainmentGroupInteger v flagName =
    (if js_nullish v then Inr None
     else seq (requirePositiveInteger v flagName) (\<lambda>n.
      if 1 < n then Inr (Some n)
      else Inl (broker_err (''Flag --'' @ flagName @ '' must be greater than 1 when provided.'') ''invalid-flag'')))"

section \<open>Configuration fields\<close>

definition requireObject :: "js option \<Rightarrow> string \<Rightarrow> berr + (string \<times> js) list" where
  "requireObject v name =
    (case v of Some (JObj kvs) \<Rightarrow> Inr kvs
     | _ \<Rightarrow> Inl (config_err (name @ '' must be an object.'') name))"

definition requireString :: "js option \<Rightarrow> string \<Rightarrow> berr + string" where
  "requireString v name =
    (case v of
       Some (JStr s) \<Rightarrow> if js_trim s = [] then Inl (config_err (name @ '' must be a non-empty string.'') name)
         else Inr (js_trim s)
     | _ \<Rightarrow> Inl (config_err (name @ '' must be a non-empty string.'') name))"

definition requireOptionalString :: "js option \<Rightarrow> string \<Rightarrow> berr + string option" where
  "requireOptionalString v name =
    (if js_nullish v \<or> v = Some (JStr []) then Inr None
     else seq (requireString v name) (\<lambda>s. Inr (Some s)))"

definition requireBoolean :: "js option \<Rightarrow> string \<Rightarrow> berr + bool" where
  "requireBoolean v name =
    (case v of Some (JBool b) \<Rightarrow> Inr b
     | _ \<Rightarrow> Inl (config_err (name @ '' must be a boolean.'') name))"

definition requireConfigBoundedInteger :: "js option \<Rightarrow> string \<Rightarrow> int \<Rightarrow> int \<Rightarrow> berr + int" where
  "requireConfigBoundedInteger v name minimum maximum =
    (case v of
       Some (JInt n) \<Rightarrow>
         if \<bar>n\<bar> \<le> max_safe_integer \<and> minimum \<le> n \<and> n \<le> maximum then Inr n
         else Inl (config_err (name @ '' must be an integer from '' @ int_text minimum @ '' through ''
           @ int_text maximum @ ''.'') name)
     | _ \<Rightarrow> Inl (config_err (name @ '' must be an integer from '' @ int_text minimum @ '' through ''
           @ int_text maximum @ ''.'') name))"

definition requireArray :: "js option \<Rightarrow> string \<Rightarrow> berr + js list" where
  "requireArray v name =
    (case v of Some (JArr xs) \<Rightarrow> Inr xs
     | _ \<Rightarrow> Inl (config_err (name @ '' must be an array.'') name))"

definition validateVersion :: "js option \<Rightarrow> int \<Rightarrow> string \<Rightarrow> berr + unit" where
  "validateVersion v expected name =
    (if v = Some (JInt expected) then Inr ()
     else Inl (config_err (name @ ''.version must equal '' @ int_text expected @ ''.'') (name @ ''.version'')))"

definition requirePositiveIntegerField :: "js option \<Rightarrow> string \<Rightarrow> berr + int" where
  "requirePositiveIntegerField v name =
    (case v of
       Some (JInt n) \<Rightarrow> if \<bar>n\<bar> \<le> max_safe_integer \<and> 0 < n then Inr n
         else Inl (config_err (name @ '' must be a positive integer.'') name)
     | _ \<Rightarrow> Inl (config_err (name @ '' must be a positive integer.'') name))"

section \<open>What the checks accept\<close>

lemma requireObject_Inr: "requireObject v n = Inr kvs \<longleftrightarrow> v = Some (JObj kvs)"
  by (auto simp: requireObject_def split: option.splits js.splits)

lemma requireString_Inr:
  "requireString v n = Inr s \<longleftrightarrow> (\<exists>r. v = Some (JStr r) \<and> s = js_trim r \<and> s \<noteq> [])"
  by (auto simp: requireString_def split: option.splits js.splits if_splits)

lemma requireString_trimmed: "requireString v n = Inr s \<Longrightarrow> s \<noteq> [] \<and> js_trim s = s"
  by (auto simp: requireString_Inr)

lemma requireOptionalString_Inr:
  "requireOptionalString v n = Inr r \<Longrightarrow> (case r of None \<Rightarrow> True | Some s \<Rightarrow> s \<noteq> [] \<and> js_trim s = s)"
  by (auto simp: requireOptionalString_def seq_Inr_iff requireString_Inr split: if_splits)

lemma requireArray_Inr: "requireArray v n = Inr xs \<longleftrightarrow> v = Some (JArr xs)"
  by (auto simp: requireArray_def split: option.splits js.splits)

lemma requireBoolean_Inr: "requireBoolean v n = Inr b \<longleftrightarrow> v = Some (JBool b)"
  by (auto simp: requireBoolean_def split: option.splits js.splits)

lemma requireConfigBoundedInteger_Inr:
  "requireConfigBoundedInteger v n lo hi = Inr i \<longleftrightarrow>
     v = Some (JInt i) \<and> \<bar>i\<bar> \<le> max_safe_integer \<and> lo \<le> i \<and> i \<le> hi"
  by (auto simp: requireConfigBoundedInteger_def split: option.splits js.splits if_splits)

lemma validateVersion_Inr: "validateVersion v e n = Inr u \<longleftrightarrow> v = Some (JInt e)"
  by (auto simp: validateVersion_def)

lemma requirePositiveInteger_Inr:
  "requirePositiveInteger v f = Inr n \<longleftrightarrow> js_number v = Some n \<and> 0 < n"
  by (auto simp: requirePositiveInteger_def normalizePositiveInteger_def split: option.splits if_splits)

lemmas require_Inr = requireObject_Inr requireString_Inr requireArray_Inr requireBoolean_Inr
  requireConfigBoundedInteger_Inr validateVersion_Inr requirePositiveInteger_Inr

text \<open>Every rejection of a field is an \<open>invalid-config\<close> error; every rejected flag is
  \<open>missing-flag\<close> or \<open>invalid-flag\<close>.\<close>

definition config_rejection :: "berr + 'a \<Rightarrow> bool" where
  "config_rejection r = (case r of Inl e \<Rightarrow> payload_reason e = Some ''invalid-config'' | Inr _ \<Rightarrow> True)"

lemma config_rejection_simps [simp]:
  "config_rejection (Inr x)" "config_rejection (Inl (config_err m f))"
  "config_rejection (Inl (broker_err m ''invalid-config''))"
  by (simp_all add: config_rejection_def)

lemma config_rejection_seq:
  "config_rejection m \<Longrightarrow> (\<And>x. m = Inr x \<Longrightarrow> config_rejection (k x)) \<Longrightarrow> config_rejection (seq m k)"
  by (cases m) (auto simp: config_rejection_def)

lemma config_rejection_map_seq:
  "(\<And>x. x \<in> set xs \<Longrightarrow> config_rejection (f x)) \<Longrightarrow> config_rejection (map_seq f xs)"
  by (induction xs) (auto intro!: config_rejection_seq)

lemma config_rejection_require [simp]:
  "config_rejection (requireObject v n)" "config_rejection (requireString v n)"
  "config_rejection (requireOptionalString v n)" "config_rejection (requireBoolean v n)"
  "config_rejection (requireConfigBoundedInteger v n lo hi)" "config_rejection (requireArray v n)"
  "config_rejection (validateVersion v e n)" "config_rejection (requirePositiveIntegerField v n)"
  by (auto simp: requireObject_def requireString_def requireOptionalString_def requireBoolean_def
      requireConfigBoundedInteger_def requireArray_def validateVersion_def requirePositiveIntegerField_def
      intro!: config_rejection_seq split: option.splits js.splits)

lemma requireContainmentRootInteger_Inr:
  "requireContainmentRootInteger v f = Inr n \<longleftrightarrow> js_number v = Some n \<and> 1 < n"
  by (auto simp: requireContainmentRootInteger_def seq_Inr_iff requirePositiveInteger_Inr split: if_splits)

lemma optionalContainmentGroupInteger_Inr:
  "optionalContainmentGroupInteger v f = Inr r \<Longrightarrow> (case r of None \<Rightarrow> js_nullish v | Some n \<Rightarrow> 1 < n)"
  by (auto simp: optionalContainmentGroupInteger_def seq_Inr_iff split: if_splits)

lemma str_number_examples:
  "str_number ''12'' = Some 12" "str_number '' 1e3 '' = Some 1000" "str_number ''0x1F'' = Some 31"
  "str_number ''1.50'' = None" "str_number ''-7'' = Some (-7)" "str_number [] = Some 0"
  by code_simp+

end
