(* ===== verification/Versions.thy ===== *)
theory Versions
  imports Json_Values
begin

text \<open>
  Version strings (\<open>parseVersionParts\<close> to \<open>iosVersionComponents\<close>, \<open>iosVersionSatisfies\<close> and
  \<open>runtimeMatchesRequestedVersion\<close> of \<open>broker-core/index.mjs\<close>): parsing, the comparison that
  sorts runtimes and device types, and the two matching rules, the textual prefix rule for
  configured aliases and the numeric rule with exact patch pins for installed runtimes.
\<close>

section \<open>Parsing and comparing\<close>

text \<open>\<open>raw.match(/\d+/g)\<close>: the maximal runs of digits.\<close>

function digit_runs :: "string \<Rightarrow> string list" where
  "digit_runs s =
    (let t = dropWhile (\<lambda>c. \<not> is_digit c) s in
     if t = [] then [] else takeWhile is_digit t # digit_runs (dropWhile is_digit t))"
  by pat_completeness auto

lemma dropWhile_digit_shorter:
  "dropWhile (\<lambda>c. \<not> is_digit c) s \<noteq> [] \<Longrightarrow>
   length (dropWhile is_digit (dropWhile (\<lambda>c. \<not> is_digit c) s)) < length s"
proof -
  let ?t = "dropWhile (\<lambda>c. \<not> is_digit c) s"
  assume t: "?t \<noteq> []"
  then have "is_digit (hd ?t)" using hd_dropWhile [OF t] by simp
  with t have "length (dropWhile is_digit ?t) < length ?t"
    by (cases ?t) (auto simp: length_dropWhile_le le_imp_less_Suc)
  also have "\<dots> \<le> length s" by (rule length_dropWhile_le)
  finally show ?thesis .
qed

termination digit_runs
  by (relation "measure length") (auto intro: dropWhile_digit_shorter)

declare digit_runs.simps [simp del]

definition parseVersionParts :: "string option \<Rightarrow> nat list" where
  "parseVersionParts raw = map digits_val (digit_runs (nullish raw []))"

text \<open>A missing component counts as 0 (\<open>left[index] ?? 0\<close>).\<close>

fun compareVersionParts :: "nat list \<Rightarrow> nat list \<Rightarrow> int" where
  "compareVersionParts [] [] = 0"
| "compareVersionParts (l # ls) [] = (if l \<noteq> 0 then int l - 0 else compareVersionParts ls [])"
| "compareVersionParts [] (r # rs) = (if 0 \<noteq> r then 0 - int r else compareVersionParts [] rs)"
| "compareVersionParts (l # ls) (r # rs) =
     (if l \<noteq> r then int l - int r else compareVersionParts ls rs)"

definition compareVersions :: "string option \<Rightarrow> string option \<Rightarrow> int" where
  "compareVersions left right = compareVersionParts (parseVersionParts left) (parseVersionParts right)"

text \<open>\<open>/^\d+(?:\.\d+){0,2}$/\<close>\<close>

definition isHostSchemaIosVersion :: "string \<Rightarrow> bool" where
  "isHostSchemaIosVersion version =
    (let parts = split_on CHR ''.'' version in length parts \<le> 3 \<and> list_all all_digits parts)"

definition iosVersionComponents :: "string \<Rightarrow> nat list option" where
  "iosVersionComponents version =
    (if \<not> isHostSchemaIosVersion version then None
     else Some (map digits_val (split_on CHR ''.'' version)))"

section \<open>Matching\<close>

text \<open>Every required part equals the part of the alias at its index, as text.\<close>

definition iosVersionSatisfies :: "string \<Rightarrow> string option \<Rightarrow> bool" where
  "iosVersionSatisfies aliasVersion requiredVersion =
    (case requiredVersion of
       None \<Rightarrow> True
     | Some req \<Rightarrow>
         (let aliasParts = split_on CHR ''.'' aliasVersion; requiredParts = split_on CHR ''.'' req
          in take (length requiredParts) aliasParts = requiredParts))"

definition runtimeMatchesRequestedVersion :: "string option \<Rightarrow> string option \<Rightarrow> bool" where
  "runtimeMatchesRequestedVersion version requestedVersion =
    (case version of
       None \<Rightarrow> False
     | Some v \<Rightarrow>
        if v = [] then False
        else case iosVersionComponents v of
          None \<Rightarrow> False
        | Some runtimeParts \<Rightarrow>
            if requestedVersion = None \<or> requestedVersion = Some [] then True
            else case iosVersionComponents (nullish requestedVersion []) of
              None \<Rightarrow> False
            | Some requestedParts \<Rightarrow>
                if length requestedParts = 3
                then length runtimeParts = 3 \<and> runtimeParts = requestedParts
                else take (length requestedParts) runtimeParts = requestedParts)"

section \<open>The comparison is a total preorder\<close>

lemma compareVersionParts_zero [simp]:
  "compareVersionParts xs xs = 0"
  by (induction xs) auto

lemma compareVersionParts_antisym: "compareVersionParts ys xs = - compareVersionParts xs ys"
  by (induction xs ys rule: compareVersionParts.induct) auto

text \<open>Padding with zeros turns the comparison into one on lists of equal length.\<close>

definition pad :: "nat \<Rightarrow> nat list \<Rightarrow> nat list" where
  "pad n xs = xs @ replicate (n - length xs) 0"

lemma compare_pad_right: "compareVersionParts xs (ys @ replicate k 0) = compareVersionParts xs ys"
proof (induction xs ys rule: compareVersionParts.induct)
  case 1
  then show ?case by (induction k) auto
next
  case (2 l ls)
  have "compareVersionParts (l # ls) (replicate k 0) = compareVersionParts (l # ls) []"
    if "\<forall>j. compareVersionParts ls (replicate j 0) = compareVersionParts ls []" for k
    using that by (cases k) auto
  moreover have "\<forall>j. compareVersionParts xs (replicate j 0) = compareVersionParts xs []" for xs
  proof (induction xs)
    case Nil
    show ?case
    proof
      fix j show "compareVersionParts [] (replicate j 0) = compareVersionParts [] []"
        by (induction j) auto
    qed
  next
    case (Cons a xs)
    then show ?case by (metis compareVersionParts.simps(2) compareVersionParts.simps(4)
        of_nat_0 replicate.simps(1) replicate_Suc not0_implies_Suc)
  qed
  ultimately show ?case by simp
qed auto

lemma compare_pad_left: "compareVersionParts (xs @ replicate k 0) ys = compareVersionParts xs ys"
  using compare_pad_right [of ys xs k] compareVersionParts_antisym by metis

lemma compare_same_length_trans:
  assumes "length xs = length ys" "length ys = length zs"
    "compareVersionParts xs ys \<le> 0" "compareVersionParts ys zs \<le> 0"
  shows "compareVersionParts xs zs \<le> 0"
  using assms
  by (induction xs ys zs rule: list_induct3) (auto split: if_splits)

lemma compareVersionParts_trans:
  assumes "compareVersionParts xs ys \<le> 0" "compareVersionParts ys zs \<le> 0"
  shows "compareVersionParts xs zs \<le> 0"
proof -
  let ?n = "max (length xs) (max (length ys) (length zs))"
  have "compareVersionParts (pad ?n xs) (pad ?n zs) \<le> 0"
    by (rule compare_same_length_trans [where ys = "pad ?n ys"])
      (use assms in \<open>auto simp: pad_def compare_pad_left compare_pad_right\<close>)
  then show ?thesis by (simp add: pad_def compare_pad_left compare_pad_right)
qed

lemma compareVersions_trans:
  "compareVersions a b \<le> 0 \<Longrightarrow> compareVersions b c \<le> 0 \<Longrightarrow> compareVersions a c \<le> 0"
  unfolding compareVersions_def by (rule compareVersionParts_trans)

lemma compareVersions_total: "compareVersions a b \<le> 0 \<or> compareVersions b a \<le> 0"
  unfolding compareVersions_def
  using compareVersionParts_antisym [of "parseVersionParts b" "parseVersionParts a"] by linarith

interpretation version_cmp: comparator "\<lambda>x y. compareVersions (f x) (f y)"
  by unfold_locales (use compareVersions_total compareVersions_trans in blast)+

text \<open>Descending, as the runtimes are sorted: \<open>compareVersions(right.version, left.version)\<close>.\<close>

interpretation version_desc: comparator "\<lambda>x y. compareVersions (f y) (f x)"
  by unfold_locales (use compareVersions_total compareVersions_trans in blast)+

section \<open>The matching rules\<close>

lemma iosVersionSatisfies_refl: "iosVersionSatisfies v (Some v)"
  by (simp add: iosVersionSatisfies_def)

lemma iosVersionSatisfies_trans:
  assumes "iosVersionSatisfies a (Some b)" "iosVersionSatisfies b c"
  shows "iosVersionSatisfies a c"
proof (cases c)
  case (Some r)
  let ?A = "split_on CHR ''.'' a" and ?B = "split_on CHR ''.'' b" and ?C = "split_on CHR ''.'' r"
  from assms Some have B: "take (length ?B) ?A = ?B" and C: "take (length ?C) ?B = ?C"
    by (auto simp: iosVersionSatisfies_def Let_def)
  have "length ?C \<le> length ?B" using C by (metis length_take min.cobounded1)
  then have "take (length ?C) ?A = ?C" using B C by (metis min.absorb1 take_take)
  with Some show ?thesis by (simp add: iosVersionSatisfies_def)
qed (simp add: iosVersionSatisfies_def)

lemma take_map_eq: "take n xs = ys \<Longrightarrow> take n (map f xs) = map f ys"
  by (simp add: take_map)

text \<open>C39: a version text that satisfies a required version by the textual rule of alias selection is
  also matched by the numeric rule of runtime selection, so a purpose never accepts an alias whose
  own runtime the provisioning would refuse.\<close>

theorem satisfies_imp_runtime_matches:
  assumes v: "isHostSchemaIosVersion v" and r: "isHostSchemaIosVersion r"
    and sat: "iosVersionSatisfies v (Some r)"
  shows "runtimeMatchesRequestedVersion (Some v) (Some r)"
proof -
  let ?V = "split_on CHR ''.'' v" and ?R = "split_on CHR ''.'' r"
  from sat have t: "take (length ?R) ?V = ?R" by (simp add: iosVersionSatisfies_def Let_def)
  have le: "length ?R \<le> length ?V" using t by (metis length_take min.cobounded1)
  have ne: "v \<noteq> []" "r \<noteq> []"
    using v r by (auto simp: isHostSchemaIosVersion_def all_digits_def)
  have "length ?V \<le> 3" using v by (simp add: isHostSchemaIosVersion_def Let_def)
  then have "length ?R = 3 \<Longrightarrow> ?V = ?R" using le t by simp
  with v r ne t show ?thesis
    by (auto simp: runtimeMatchesRequestedVersion_def iosVersionComponents_def intro: take_map_eq)
qed

theorem satisfies_imp_runtime_matches_witness:
  "runtimeMatchesRequestedVersion (Some ''18.2.1'') (Some ''18.2'')"
  by (rule satisfies_imp_runtime_matches) code_simp+

text \<open>A request for a patch version is an exact pin: only a runtime with the same three numbers
  matches it.\<close>

theorem patch_request_is_exact:
  assumes "runtimeMatchesRequestedVersion (Some v) (Some r)" "iosVersionComponents r = Some ps"
    "length ps = 3"
  shows "iosVersionComponents v = Some ps"
  using assms
  by (auto simp: runtimeMatchesRequestedVersion_def iosVersionComponents_def isHostSchemaIosVersion_def
      all_digits_def split: if_splits option.splits)

theorem patch_request_is_exact_witness:
  "iosVersionComponents ''18.02.1'' = Some [18, 2, 1]"
  by (rule patch_request_is_exact [of "''18.02.1''" "''18.2.1''"]) code_simp+

end
