(* ===== verification/Broker_Types.thy ===== *)
theory Broker_Types
  imports Versions
begin

text \<open>
  The records of the broker core: what the host configuration, the project configuration, the
  registry, the lease and pin files and the audit log hold.  A field that may be \<open>null\<close> or absent
  is an option.
\<close>

section \<open>Configuration\<close>

record class_policy =
  cp_enabled :: bool
  cp_maxAgeSeconds :: int
  cp_maxDiskBytes :: int
  cp_maxLeasesSinceErase :: int

record slot_policy =
  sp_enabled :: bool
  sp_build :: class_policy
  sp_manual :: class_policy

record host_alias =
  ha_alias :: string
  ha_capabilities :: "string list"
  ha_deviceFamily :: string
  ha_displayName :: string
  ha_iosVersion :: string
  ha_resetPolicy :: string
  ha_simulatorId :: string

record host_config =
  hc_aliases :: "host_alias list"
  hc_hostId :: string
  hc_pendingRetirements :: "string list"
  hc_slotReclaim :: "slot_policy option"

record requires =
  rq_deviceFamily :: "string option"
  rq_iosVersion :: "string option"

record purpose =
  pu_capability :: string
  pu_defaultActorType :: "string option"
  pu_displayName :: string
  pu_id :: string
  pu_requires :: "requires option"

record project_config =
  pc_projectId :: string
  pc_projectName :: string
  pc_purposes :: "purpose list"

section \<open>Leases and pins\<close>

text \<open>A registered command is a string or an argument list.\<close>

datatype command = CmdStr string | CmdList "string list"

record observation =
  ob_downstreamOwnedProcessCount :: nat
  ob_memoryCeilingBytes :: "int option"
  ob_ownedProcessCount :: nat
  ob_ownedRssBytes :: int
  ob_processCount :: nat
  ob_simulatorProcessCount :: nat
  ob_checkedAt :: string
  ob_reason :: string
  ob_cleanupComplete :: "bool option"
  ob_remainingOwnedPids :: "int list"

record lease_runtime =
  rt_command :: "command option"
  rt_commandRegisteredAt :: "string option"
  rt_commandPgid :: "int option"
  rt_commandPid :: "int option"
  rt_evidenceRoot :: "string option"
  rt_lastObservation :: "observation option"
  rt_memoryCeilingBytes :: "int option"
  rt_monitorIntervalMs :: "int option"
  rt_ownerPgid :: "int option"
  rt_ownerPid :: "int option"
  rt_ownerRegisteredAt :: "string option"
  rt_simulatorProcessNames :: "string list"
  rt_updatedAt :: "string option"

record lease =
  ls_actorId :: string
  ls_actorType :: string
  ls_alias :: string
  ls_artifactPath :: "string option"
  ls_displayName :: string
  ls_jobId :: "string option"
  ls_jobKind :: "string option"
  ls_leaseId :: string
  ls_leaseKind :: string
  ls_ownerPid :: int
  ls_pinId :: "string option"
  ls_projectId :: string
  ls_projectName :: string
  ls_purposeId :: string
  ls_repoRoot :: string
  ls_resetPolicy :: string
  ls_sessionDir :: "string option"
  ls_simulatorId :: string
  ls_startedAt :: string
  ls_runtime :: "lease_runtime option"

record pin =
  pn_actorId :: string
  pn_actorType :: string
  pn_alias :: string
  pn_createdAt :: string
  pn_note :: "string option"
  pn_pinId :: string
  pn_projectId :: string
  pn_projectName :: string
  pn_purposeId :: "string option"
  pn_repoRoot :: string

section \<open>Registry\<close>

datatype health = Healthy | State_drift | Repair_needed | Repairing

datatype power = Shutdown | Booted

fun health_text :: "health \<Rightarrow> string" where
  "health_text Healthy = ''healthy''"
| "health_text State_drift = ''state-drift''"
| "health_text Repair_needed = ''repair-needed''"
| "health_text Repairing = ''repairing''"

fun power_text :: "power \<Rightarrow> string" where
  "power_text Shutdown = ''shutdown''"
| "power_text Booted = ''booted''"

record registry_entry =
  re_activeLeaseId :: "string option"
  re_alias :: string
  re_driftCauseCode :: "string option"
  re_driftReason :: "string option"
  re_health :: health
  re_lastBootedAt :: "string option"
  re_lastErasedAt :: "string option"
  re_lastLeaseReleasedAt :: "string option"
  re_lastLeaseStartedAt :: "string option"
  re_leasesSinceErase :: int
  re_lastRepairedAt :: "string option"
  re_lastShutdownAt :: "string option"
  re_pinId :: "string option"
  re_powerState :: power
  re_updatedAt :: string

record cleanup_result =
  cr_completedAt :: string
  cr_eligibleCount :: int
  cr_failureCount :: int
  cr_shutdownCount :: int
  cr_source :: string
  cr_status :: string

record reclaim_result =
  rr_completedAt :: string
  rr_eligibleCount :: int
  rr_failureCount :: int
  rr_reclaimedCount :: int
  rr_skippedHeldCount :: int
  rr_source :: string
  rr_status :: string

record registry =
  rg_aliases :: "string \<rightharpoonup> registry_entry"
  rg_lastCleanupResult :: "cleanup_result option"
  rg_lastReclaimResult :: "reclaim_result option"
  rg_updatedAt :: string

section \<open>Capacity transactions\<close>

text \<open>The log that a change of the capacity keeps on disk while it creates simulators.\<close>

record requirement =
  qm_capability :: string
  qm_deviceFamily :: string
  qm_iosVersion :: "string option"
  qm_resetPolicy :: string

record public_action =
  pa_actionId :: string
  pa_kind :: string
  pa_purposeIds :: "string list"
  pa_requirement :: requirement

record addition =
  ad_actionId :: string
  ad_alias :: string
  ad_capabilities :: "string list"
  ad_deviceFamily :: string
  ad_deviceTypeIdentifier :: string
  ad_displayName :: string
  ad_iosVersion :: string
  ad_resetPolicy :: string
  ad_runtimeIdentifier :: string
  ad_simulatorId :: "string option"
  ad_simulatorIdRecoveredAt :: "string option"
  ad_simulatorName :: string
  ad_preCreateDeviceIds :: "string list"

datatype tx_status = Tx_intent | Tx_creating | Tx_config_committed | Tx_finalized | Tx_rejected | Tx_rolled_back
  | Tx_rollback_incomplete | Tx_recovery_required | Tx_failed

record transaction =
  tx_transactionId :: string
  tx_actions :: "public_action list"
  tx_actorId :: "string option"
  tx_actorType :: "string option"
  tx_additions :: "addition list"
  tx_beforeDigest :: string
  tx_afterDigest :: "string option"
  tx_createdAt :: string
  tx_planId :: string
  tx_projectId :: "string option"
  tx_rejection :: "string option"
  tx_recoveryState :: "string option"
  tx_rollbackFailures :: "(string \<times> string) list"
  tx_rollbackState :: "string option"
  tx_status :: tx_status
  tx_updatedAt :: string

section \<open>Audit events\<close>

text \<open>Of an event the model keeps the members that readers filter by and the parts of the payload
  that tell outcomes apart (\<open>ev_detail\<close>).\<close>

record event =
  ev_id :: string
  ev_timestamp :: string
  ev_type :: string
  ev_alias :: "string option"
  ev_actorType :: "string option"
  ev_leaseId :: "string option"
  ev_projectId :: "string option"
  ev_purposeId :: "string option"
  ev_detail :: "string list"

section \<open>Time\<close>

text \<open>\<open>Date.parse\<close> of a time stamp in milliseconds, \<open>None\<close> for \<open>NaN\<close>.  On strings that are not in
  the ISO format its result is up to the engine, so it is a parameter of every definition that
  reads the clock or a time stamp.\<close>

type_synonym date_parse = "string \<Rightarrow> int option"

text \<open>\<open>Date.parse(value ?? "")\<close>\<close>

definition parse_opt :: "date_parse \<Rightarrow> string option \<Rightarrow> int option" where
  "parse_opt dp t = dp (nullish t [])"

end
