(* ===== verification/Slot_Reclaim.thy ===== *)
theory Slot_Reclaim
  imports Broker_Types
begin

text \<open>
  The slot reclaim policy (\<open>broker-core/slot-reclaim.mjs\<close>): which simulators keep data across
  leases, when such a slot is due for an erase, and the text of the policy that \<open>doctor\<close> prints.
\<close>

section \<open>Policy\<close>

definition default_class_policy :: class_policy where
  "default_class_policy = \<lparr>cp_enabled = True, cp_maxAgeSeconds = 86400,
     cp_maxDiskBytes = 8 * 1024 * 1024 * 1024, cp_maxLeasesSinceErase = 8\<rparr>"

definition default_slot_reclaim_policy :: slot_policy where
  "default_slot_reclaim_policy = \<lparr>sp_enabled = True,
     sp_build = default_class_policy\<lparr>cp_enabled := True\<rparr>,
     sp_manual = default_class_policy\<lparr>cp_enabled := False\<rparr>\<rparr>"

text \<open>A policy as configured: every member may be absent.\<close>

record raw_class_policy =
  rc_enabled :: "bool option"
  rc_maxAgeSeconds :: "int option"
  rc_maxDiskBytes :: "int option"
  rc_maxLeasesSinceErase :: "int option"

record raw_slot_policy =
  rs_enabled :: "bool option"
  rs_build :: "raw_class_policy option"
  rs_manual :: "raw_class_policy option"

definition pickDefined :: "raw_class_policy option \<Rightarrow> class_policy \<Rightarrow> class_policy" where
  "pickDefined source base =
    (case source of None \<Rightarrow> base
     | Some r \<Rightarrow> \<lparr>cp_enabled = nullish (rc_enabled r) (cp_enabled base),
         cp_maxAgeSeconds = nullish (rc_maxAgeSeconds r) (cp_maxAgeSeconds base),
         cp_maxDiskBytes = nullish (rc_maxDiskBytes r) (cp_maxDiskBytes base),
         cp_maxLeasesSinceErase = nullish (rc_maxLeasesSinceErase r) (cp_maxLeasesSinceErase base)\<rparr>)"

definition resolveSlotReclaimPolicy :: "raw_slot_policy option \<Rightarrow> slot_policy" where
  "resolveSlotReclaimPolicy rawPolicy =
    (case rawPolicy of
       None \<Rightarrow> default_slot_reclaim_policy
     | Some source \<Rightarrow>
         \<lparr>sp_enabled = nullish (rs_enabled source) (sp_enabled default_slot_reclaim_policy),
          sp_build = pickDefined (rs_build source) (sp_build default_slot_reclaim_policy),
          sp_manual = pickDefined (rs_manual source) (sp_manual default_slot_reclaim_policy)\<rparr>)"

definition raw_of_class :: "class_policy \<Rightarrow> raw_class_policy" where
  "raw_of_class p = \<lparr>rc_enabled = Some (cp_enabled p), rc_maxAgeSeconds = Some (cp_maxAgeSeconds p),
     rc_maxDiskBytes = Some (cp_maxDiskBytes p),
     rc_maxLeasesSinceErase = Some (cp_maxLeasesSinceErase p)\<rparr>"

definition raw_of :: "slot_policy \<Rightarrow> raw_slot_policy" where
  "raw_of p = \<lparr>rs_enabled = Some (sp_enabled p), rs_build = Some (raw_of_class (sp_build p)),
     rs_manual = Some (raw_of_class (sp_manual p))\<rparr>"

lemma resolve_raw_of [simp]: "resolveSlotReclaimPolicy (Some (raw_of p)) = p"
  by (simp add: resolveSlotReclaimPolicy_def raw_of_def raw_of_class_def pickDefined_def)

section \<open>Classes of slots\<close>

datatype slot_class = Build | Manual

fun class_text :: "slot_class \<Rightarrow> string" where
  "class_text Build = ''build''"
| "class_text Manual = ''manual''"

fun class_policy_of :: "slot_policy \<Rightarrow> slot_class \<Rightarrow> class_policy" where
  "class_policy_of p Build = sp_build p"
| "class_policy_of p Manual = sp_manual p"

definition classifyReclaimSlot :: "host_alias option \<Rightarrow> slot_class option" where
  "classifyReclaimSlot hostAlias =
    (case hostAlias of
       None \<Rightarrow> None
     | Some h \<Rightarrow>
         if ha_resetPolicy h = ''erase-on-acquire'' then None
         else if ''manual-persistent'' \<in> set (ha_capabilities h) then Some Manual
         else if ''build-fast'' \<in> set (ha_capabilities h) then Some Build
         else None)"

definition isSlotHeldForReclaim ::
  "bool \<Rightarrow> lease option \<Rightarrow> pin option \<Rightarrow> registry_entry option \<Rightarrow> bool" where
  "isSlotHeldForReclaim acquiring activeLease activePin registryEntry =
    (if acquiring then True
     else if activeLease \<noteq> None then True
     else if (case registryEntry of None \<Rightarrow> False
              | Some e \<Rightarrow> (case re_activeLeaseId e of None \<Rightarrow> False | Some i \<Rightarrow> js_trim i \<noteq> [])) then True
     else if activePin \<noteq> None then True
     else False)"

section \<open>Age\<close>

text \<open>The loop over \<open>lastLeaseReleasedAt\<close>, \<open>lastLeaseStartedAt\<close> and \<open>lastBootedAt\<close>; the
  accumulator is the newest stamp so far with its time, \<open>None\<close> for \<open>-Infinity\<close>.\<close>

fun newest_stamp ::
  "date_parse \<Rightarrow> string option list \<Rightarrow> (string \<times> int) option \<Rightarrow> (string \<times> int) option" where
  "newest_stamp dp [] best = best"
| "newest_stamp dp (v # vs) best =
     (case v of
        None \<Rightarrow> newest_stamp dp vs best
      | Some value \<Rightarrow>
          if js_trim value = [] then newest_stamp dp vs best
          else (case dp value of
             None \<Rightarrow> newest_stamp dp vs best
           | Some parsed \<Rightarrow>
               if (case best of None \<Rightarrow> False | Some (_, newestMs) \<Rightarrow> parsed < newestMs)
               then newest_stamp dp vs best
               else newest_stamp dp vs (Some (value, parsed))))"

definition lastUsedAtForSlot :: "date_parse \<Rightarrow> registry_entry option \<Rightarrow> string option" where
  "lastUsedAtForSlot dp registryEntry =
    (case registryEntry of None \<Rightarrow> None
     | Some e \<Rightarrow> map_option fst
         (newest_stamp dp [re_lastLeaseReleasedAt e, re_lastLeaseStartedAt e, re_lastBootedAt e] None))"

section \<open>The decision\<close>

datatype reclaim_reason = Disk | Leases | Age

datatype reclaim_decision = Reclaim slot_class reclaim_reason | Skip string

fun reason_text :: "reclaim_reason \<Rightarrow> string" where
  "reason_text Disk = ''disk''"
| "reason_text Leases = ''leases''"
| "reason_text Age = ''age''"

definition evaluateSlotReclaim ::
  "date_parse \<Rightarrow> slot_class option \<Rightarrow> int option \<Rightarrow> bool \<Rightarrow> string option \<Rightarrow> string option \<Rightarrow> int
   \<Rightarrow> int option \<Rightarrow> raw_slot_policy option \<Rightarrow> reclaim_decision" where
  "evaluateSlotReclaim dp className diskBytes held lastErasedAt lastUsedAt leasesSinceErase nowMs policy =
    (if held then Skip ''held''
     else case className of
       None \<Rightarrow> Skip ''not-reclaimable''
     | Some cls \<Rightarrow>
        (let resolved = resolveSlotReclaimPolicy policy; classPolicy = class_policy_of resolved cls in
         if \<not> sp_enabled resolved then Skip ''disabled''
         else if \<not> cp_enabled classPolicy then Skip ''class-disabled''
         else if (case diskBytes of None \<Rightarrow> False | Some d \<Rightarrow> cp_maxDiskBytes classPolicy \<le> d)
           then Reclaim cls Disk
         else if cp_maxLeasesSinceErase classPolicy \<le> leasesSinceErase then Reclaim cls Leases
         else (let ageAnchor = (case lastErasedAt of
                     Some t \<Rightarrow> if js_trim t \<noteq> [] then Some t else lastUsedAt
                   | None \<Rightarrow> lastUsedAt) in
           case (Option.bind ageAnchor dp, nowMs) of
             (Some anchorMs, Some now) \<Rightarrow>
               if cp_maxAgeSeconds classPolicy * 1000 \<le> now - anchorMs then Reclaim cls Age
               else Skip ''below-threshold''
           | _ \<Rightarrow> Skip ''below-threshold'')))"

section \<open>The policy line\<close>

definition formatBytes :: "int \<Rightarrow> string" where
  "formatBytes bytes =
    (if bytes mod (1024 * 1024 * 1024) = 0 then int_text (bytes div (1024 * 1024 * 1024)) @ '' GiB''
     else int_text bytes @ '' bytes'')"

definition formatClassPolicy :: "class_policy \<Rightarrow> string" where
  "formatClassPolicy p =
    (if \<not> cp_enabled p then ''off''
     else ''on (every '' @ int_text (cp_maxLeasesSinceErase p) @ '' leases, '' @ int_text (cp_maxAgeSeconds p)
       @ ''s, or '' @ formatBytes (cp_maxDiskBytes p) @ '')'')"

definition formatSlotReclaimPolicyLine :: "raw_slot_policy option \<Rightarrow> string" where
  "formatSlotReclaimPolicyLine policy =
    (let resolved = resolveSlotReclaimPolicy policy in
     if \<not> sp_enabled resolved then ''disabled''
     else ''build '' @ formatClassPolicy (sp_build resolved) @ '', manual ''
       @ formatClassPolicy (sp_manual resolved))"

definition summarizeSlotReclaimPolicy :: "raw_slot_policy option \<Rightarrow> slot_policy" where
  "summarizeSlotReclaimPolicy policy =
    (let resolved = resolveSlotReclaimPolicy policy in
     \<lparr>sp_enabled = sp_enabled resolved, sp_build = sp_build resolved, sp_manual = sp_manual resolved\<rparr>)"

section \<open>Properties\<close>

lemma classify_erase_on_acquire [simp]:
  "ha_resetPolicy h = ''erase-on-acquire'' \<Longrightarrow> classifyReclaimSlot (Some h) = None"
  by (simp add: classifyReclaimSlot_def)

lemma held_iff:
  "isSlotHeldForReclaim acquiring l p (Some e) \<longleftrightarrow>
     acquiring \<or> l \<noteq> None \<or> p \<noteq> None \<or> (\<exists>i. re_activeLeaseId e = Some i \<and> js_trim i \<noteq> [])"
  by (auto simp: isSlotHeldForReclaim_def split: option.splits)

lemma newest_stamp_spec:
  assumes "newest_stamp dp vs best = Some (s, m)"
    and "best = None \<or> (\<exists>s0 m0. best = Some (s0, m0) \<and> dp s0 = Some m0)"
  shows "dp s = Some m \<and> (best = Some (s, m) \<or> Some s \<in> set vs)
    \<and> (\<forall>s0 m0. best = Some (s0, m0) \<longrightarrow> m0 \<le> m)
    \<and> (\<forall>v k. Some v \<in> set vs \<longrightarrow> js_trim v \<noteq> [] \<longrightarrow> dp v = Some k \<longrightarrow> k \<le> m)"
  using assms
proof (induction dp vs best rule: newest_stamp.induct)
  case (1 dp best)
  then show ?case by auto
next
  case (2 dp v vs best)
  show ?case
  proof (cases v)
    case None
    with 2 show ?thesis by auto
  next
    case (Some w)
    show ?thesis
    proof (cases "js_trim w = []")
      case True
      with 2 Some show ?thesis by auto
    next
      case nonempty: False
      show ?thesis
      proof (cases "dp w")
        case None
        with 2 Some nonempty show ?thesis by auto
      next
        case k: (Some k)
        show ?thesis
        proof (cases "case best of None \<Rightarrow> False | Some (_, n) \<Rightarrow> k < n")
          case True
          with 2 Some k nonempty show ?thesis by (fastforce split: option.splits)
        next
          case older: False
          with "2.prems" Some k nonempty have "newest_stamp dp vs (Some (w, k)) = Some (s, m)" by auto
          with "2.IH"(5) [OF Some nonempty k older] k have
            IH: "dp s = Some m" "s = w \<and> m = k \<or> Some s \<in> set vs" "k \<le> m"
              "\<forall>v k. Some v \<in> set vs \<longrightarrow> js_trim v \<noteq> [] \<longrightarrow> dp v = Some k \<longrightarrow> k \<le> m"
            by auto
          from older have "\<forall>s0 m0. best = Some (s0, m0) \<longrightarrow> m0 \<le> m"
            using IH(3) by (auto split: option.splits)
          with IH Some k show ?thesis by auto
        qed
      qed
    qed
  qed
qed

text \<open>The thresholds of a class, as the reasons to erase a slot.\<close>

definition due_for_reclaim ::
  "date_parse \<Rightarrow> class_policy \<Rightarrow> int option \<Rightarrow> int \<Rightarrow> string option \<Rightarrow> int option \<Rightarrow> reclaim_reason set" where
  "due_for_reclaim dp cp disk leases anchor now =
    {Disk |d. disk = Some d \<and> cp_maxDiskBytes cp \<le> d}
    \<union> (if cp_maxLeasesSinceErase cp \<le> leases then {Leases} else {})
    \<union> {Age |a t n. anchor = Some a \<and> dp a = Some t \<and> now = Some n \<and> cp_maxAgeSeconds cp * 1000 \<le> n - t}"

definition age_anchor :: "string option \<Rightarrow> string option \<Rightarrow> string option" where
  "age_anchor erased used = (case erased of Some t \<Rightarrow> if js_trim t \<noteq> [] then Some t else used | None \<Rightarrow> used)"

lemma evaluate_held [simp]:
  "evaluateSlotReclaim dp cls disk True erased used n now pol = Skip ''held''"
  by (simp add: evaluateSlotReclaim_def)

lemma evaluate_unclassified [simp]:
  "evaluateSlotReclaim dp None disk held erased used n now pol \<noteq> Reclaim c r"
  by (simp add: evaluateSlotReclaim_def)

text \<open>The time a slot counts as last used at is a readable one of its three stamps and no readable stamp is newer.\<close>

theorem lastUsedAt_newest:
  assumes "lastUsedAtForSlot dp (Some e) = Some s"
  shows "\<exists>m. dp s = Some m \<and> Some s \<in> {re_lastLeaseReleasedAt e, re_lastLeaseStartedAt e, re_lastBootedAt e}
    \<and> (\<forall>v k. Some v \<in> {re_lastLeaseReleasedAt e, re_lastLeaseStartedAt e, re_lastBootedAt e}
          \<longrightarrow> js_trim v \<noteq> [] \<longrightarrow> dp v = Some k \<longrightarrow> k \<le> m)"
proof -
  from assms obtain m where
    "newest_stamp dp [re_lastLeaseReleasedAt e, re_lastLeaseStartedAt e, re_lastBootedAt e] None = Some (s, m)"
    by (auto simp: lastUsedAtForSlot_def)
  from newest_stamp_spec [OF this] show ?thesis by auto
qed

theorem lastUsedAt_newest_witness:
  "\<exists>m. (\<lambda>s. if s = ''t1'' then Some 1 else if s = ''t2'' then Some 2 else None) ''t2'' = Some (m::int)"
proof -
  let ?dp = "\<lambda>s. if s = ''t1'' then Some 1 else if s = ''t2'' then Some 2 else None"
  let ?e = "\<lparr>re_activeLeaseId = None, re_alias = ''a'', re_driftCauseCode = None, re_driftReason = None,
    re_health = Healthy, re_lastBootedAt = Some ''t2'', re_lastErasedAt = None,
    re_lastLeaseReleasedAt = Some ''t1'', re_lastLeaseStartedAt = None, re_leasesSinceErase = 3,
    re_lastRepairedAt = None, re_lastShutdownAt = None, re_pinId = None, re_powerState = Booted,
    re_updatedAt = ''t2''\<rparr>"
  have "lastUsedAtForSlot ?dp (Some ?e) = Some ''t2''"
    by (simp add: lastUsedAtForSlot_def js_trim_def js_trim_start_def js_trim_end_def js_space_def)
  from lastUsedAt_newest [OF this] show ?thesis by auto
qed

text \<open>A slot is erased for exactly one reason, the first of disk, leases and age whose threshold is
  reached, and only when it is not held, has a reclaim class, and both the policy and the class are
  enabled.\<close>

theorem evaluateSlotReclaim_spec:
  "evaluateSlotReclaim dp cls disk held erased used n now pol = Reclaim c r \<longleftrightarrow>
     \<not> held \<and> cls = Some c \<and> sp_enabled (resolveSlotReclaimPolicy pol)
     \<and> cp_enabled (class_policy_of (resolveSlotReclaimPolicy pol) c)
     \<and> (let due = due_for_reclaim dp (class_policy_of (resolveSlotReclaimPolicy pol) c) disk n
                     (age_anchor erased used) now
        in r \<in> due \<and> (r = Leases \<longrightarrow> Disk \<notin> due) \<and> (r = Age \<longrightarrow> Disk \<notin> due \<and> Leases \<notin> due))"
  by (cases r)
    (auto simp: evaluateSlotReclaim_def due_for_reclaim_def age_anchor_def Let_def Option.bind_eq_Some_conv
      split: option.splits if_splits)

theorem evaluateSlotReclaim_spec_witness:
  "evaluateSlotReclaim (\<lambda>_. None) (Some Build) None False None None 8 None None = Reclaim Build Leases"
  by (simp add: evaluateSlotReclaim_spec due_for_reclaim_def resolveSlotReclaimPolicy_def
      default_slot_reclaim_policy_def default_class_policy_def)

end
