(* ===== verification/Host_Config.thy ===== *)
theory Host_Config
  imports Slot_Reclaim
begin

text \<open>
  Validation of the host and project configuration (\<open>validateDeviceFamily\<close> to
  \<open>validateProjectConfig\<close> and \<open>validateIdlePolicy\<close> in \<open>broker-core/index.mjs\<close>): a JSON value either
  becomes a well-formed record or is rejected as \<open>invalid-config\<close>; and what the broker writes
  back is read again as the same record.
\<close>

section \<open>Fields\<close>

definition allowed_device_families :: "string list" where
  "allowed_device_families = [''iPhone'', ''iPad'']"

definition allowed_reset_policies :: "string list" where
  "allowed_reset_policies = [''none'', ''erase-on-acquire'']"

definition validateDeviceFamily :: "js option \<Rightarrow> string \<Rightarrow> berr + string" where
  "validateDeviceFamily v field =
    seq (requireString v field) (\<lambda>deviceFamily.
      if deviceFamily \<in> set allowed_device_families then Inr deviceFamily
      else Inl (config_err (field @ '' must be one of '' @ join_with '', '' allowed_device_families @ ''.'') field))"

definition validateIosVersion :: "js option \<Rightarrow> string \<Rightarrow> berr + string" where
  "validateIosVersion v field =
    seq (requireString v field) (\<lambda>iosVersion.
      if \<not> isHostSchemaIosVersion iosVersion
      then Inl (config_err (field @ '' must match <major>, <major.minor>, or <major.minor.patch>.'') field)
      else Inr iosVersion)"

definition indexed_field :: "string \<Rightarrow> nat \<Rightarrow> string" where
  "indexed_field field i = field @ ''['' @ nat_text i @ '']''"

definition validateCapabilities :: "js option \<Rightarrow> string \<Rightarrow> berr + string list" where
  "validateCapabilities v field =
    seq (requireArray v field) (\<lambda>xs.
    seq (map_seq (\<lambda>(i, capability). requireString (Some capability) (indexed_field field i)) (indexed xs)) (\<lambda>capabilities.
      if capabilities = []
      then Inl (config_err (field @ '' must include at least one capability.'') field)
      else Inr (uniq capabilities)))"

definition normalizeResetPolicy :: "js option \<Rightarrow> string \<Rightarrow> berr + string" where
  "normalizeResetPolicy v field =
    seq (if v = None then Inr ''none'' else requireString v field) (\<lambda>resetPolicy.
      if resetPolicy \<in> set allowed_reset_policies then Inr resetPolicy
      else Inl (config_err (field @ '' must be one of '' @ join_with '', '' allowed_reset_policies @ ''.'') field))"

section \<open>Host configuration\<close>

definition validateHostAlias :: "js \<Rightarrow> nat \<Rightarrow> berr + host_alias" where
  "validateHostAlias rawAlias index =
    (let at = indexed_field ''aliases'' index in
     seq (requireObject (Some rawAlias) at) (\<lambda>a.
     seq (requireString (obj_get a ''alias'') (at @ ''.alias'')) (\<lambda>name.
     seq (validateCapabilities (obj_get a ''capabilities'') (at @ ''.capabilities'')) (\<lambda>caps.
     seq (validateDeviceFamily (obj_get a ''deviceFamily'') (at @ ''.deviceFamily'')) (\<lambda>fam.
     seq (requireString (obj_get a ''displayName'') (at @ ''.displayName'')) (\<lambda>disp.
     seq (validateIosVersion (obj_get a ''iosVersion'') (at @ ''.iosVersion'')) (\<lambda>ios.
     seq (normalizeResetPolicy (obj_get a ''resetPolicy'') (at @ ''.resetPolicy'')) (\<lambda>pol.
     seq (requireString (obj_get a ''simulatorId'') (at @ ''.simulatorId'')) (\<lambda>sim.
       Inr \<lparr>ha_alias = name, ha_capabilities = caps, ha_deviceFamily = fam, ha_displayName = disp,
         ha_iosVersion = ios, ha_resetPolicy = pol, ha_simulatorId = sim\<rparr>)))))))))"

definition validatePendingRetirements :: "js option \<Rightarrow> berr + string list" where
  "validatePendingRetirements v =
    (if js_nullish v then Inr []
     else seq (requireArray v ''host-config.pendingRetirements'') (\<lambda>xs.
       seq (map_seq (\<lambda>(i, x). requireString (Some x) (indexed_field ''host-config.pendingRetirements'' i))
              (indexed xs)) (\<lambda>ids. Inr (uniq ids))))"

definition unsupported_fields :: "(string \<times> js) list \<Rightarrow> string list \<Rightarrow> string list" where
  "unsupported_fields kvs known = filter (\<lambda>k. k \<notin> set known) (map fst kvs)"

definition optional_field :: "js option \<Rightarrow> 'a \<Rightarrow> (js option \<Rightarrow> berr + 'a) \<Rightarrow> berr + 'a" where
  "optional_field v dflt check = (if v = None then Inr dflt else check v)"

definition validateSlotReclaimClassPolicy :: "js option \<Rightarrow> string \<Rightarrow> class_policy \<Rightarrow> berr + class_policy" where
  "validateSlotReclaimClassPolicy v field defaults =
    (if js_nullish v then Inr defaults
     else seq (requireObject v field) (\<lambda>p.
       let extra = unsupported_fields p [''enabled'', ''maxAgeSeconds'', ''maxDiskBytes'', ''maxLeasesSinceErase''] in
       if extra \<noteq> []
       then Inl (config_err (field @ '' contains unsupported fields: '' @ join_with '', '' extra @ ''.'') field)
       else
         seq (optional_field (obj_get p ''enabled'') (cp_enabled defaults)
                (\<lambda>w. requireBoolean w (field @ ''.enabled''))) (\<lambda>en.
         seq (optional_field (obj_get p ''maxAgeSeconds'') (cp_maxAgeSeconds defaults)
                (\<lambda>w. requireConfigBoundedInteger w (field @ ''.maxAgeSeconds'') 60 31536000)) (\<lambda>age.
         seq (optional_field (obj_get p ''maxDiskBytes'') (cp_maxDiskBytes defaults)
                (\<lambda>w. requireConfigBoundedInteger w (field @ ''.maxDiskBytes'') 1 max_safe_integer)) (\<lambda>disk.
         seq (optional_field (obj_get p ''maxLeasesSinceErase'') (cp_maxLeasesSinceErase defaults)
                (\<lambda>w. requireConfigBoundedInteger w (field @ ''.maxLeasesSinceErase'') 1 10000)) (\<lambda>ls.
           Inr \<lparr>cp_enabled = en, cp_maxAgeSeconds = age, cp_maxDiskBytes = disk,
                 cp_maxLeasesSinceErase = ls\<rparr>))))))"

definition validateSlotReclaimConfig :: "js option \<Rightarrow> berr + slot_policy option" where
  "validateSlotReclaimConfig v =
    (if js_nullish v then Inr None
     else seq (requireObject v ''host-config.slotReclaim'') (\<lambda>p.
       let extra = unsupported_fields p [''enabled'', ''build'', ''manual''] in
       if extra \<noteq> []
       then Inl (config_err (''host-config.slotReclaim contains unsupported fields: '' @ join_with '', '' extra @ ''.'')
              ''host-config.slotReclaim'')
       else
         seq (validateSlotReclaimClassPolicy (obj_get p ''build'') ''host-config.slotReclaim.build''
                (sp_build default_slot_reclaim_policy)) (\<lambda>b.
         seq (optional_field (obj_get p ''enabled'') (sp_enabled default_slot_reclaim_policy)
                (\<lambda>w. requireBoolean w ''host-config.slotReclaim.enabled'')) (\<lambda>en.
         seq (validateSlotReclaimClassPolicy (obj_get p ''manual'') ''host-config.slotReclaim.manual''
                (sp_manual default_slot_reclaim_policy)) (\<lambda>m.
           Inr (Some \<lparr>sp_enabled = en, sp_build = b, sp_manual = m\<rparr>))))))"

text \<open>The loop that rejects duplicate aliases and simulator ids.\<close>

fun check_duplicates :: "host_alias list \<Rightarrow> string list \<Rightarrow> string list \<Rightarrow> berr + unit" where
  "check_duplicates [] aliasIds simulatorIds = Inr ()"
| "check_duplicates (a # as) aliasIds simulatorIds =
     (if ha_alias a \<in> set aliasIds
      then Inl (config_err (''Duplicate alias '' @ ha_alias a @ '' in host config.'') ''host-config.aliases'')
      else if ha_simulatorId a \<in> set simulatorIds
      then Inl (config_err (''Duplicate simulatorId '' @ ha_simulatorId a @ '' in host config.'') ''host-config.aliases'')
      else check_duplicates as (ha_alias a # aliasIds) (ha_simulatorId a # simulatorIds))"

definition validateHostConfig :: "js option \<Rightarrow> berr + host_config" where
  "validateHostConfig rawConfig =
    seq (requireObject rawConfig ''host-config'') (\<lambda>c.
    seq (validateVersion (obj_get c ''version'') 1 ''host-config'') (\<lambda>_.
    seq (requireArray (obj_get c ''aliases'') ''host-config.aliases'') (\<lambda>xs.
    seq (map_seq (\<lambda>(i, a). validateHostAlias a i) (indexed xs)) (\<lambda>aliases.
    seq (check_duplicates aliases [] []) (\<lambda>_.
    seq (validateSlotReclaimConfig (obj_get c ''slotReclaim'')) (\<lambda>slotReclaim.
    seq (requireString (obj_get c ''hostId'') ''host-config.hostId'') (\<lambda>hostId.
    seq (validatePendingRetirements (obj_get c ''pendingRetirements'')) (\<lambda>pending.
      Inr \<lparr>hc_aliases = aliases, hc_hostId = hostId, hc_pendingRetirements = pending,
            hc_slotReclaim = slotReclaim\<rparr>))))))))"

section \<open>Project configuration\<close>

definition validatePurposeRequires :: "js option \<Rightarrow> string \<Rightarrow> berr + requires option" where
  "validatePurposeRequires v fieldPrefix =
    (if js_nullish v then Inr None
     else seq (requireObject v (fieldPrefix @ ''.requires'')) (\<lambda>r.
       let extra = unsupported_fields r [''deviceFamily'', ''iosVersion''] in
       if extra \<noteq> []
       then Inl (config_err (fieldPrefix @ ''.requires contains unsupported fields: '' @ join_with '', '' extra @ ''.'')
              (fieldPrefix @ ''.requires''))
       else
         seq (optional_field (obj_get r ''deviceFamily'') None
                (\<lambda>w. map_sum id Some (validateDeviceFamily w (fieldPrefix @ ''.requires.deviceFamily'')))) (\<lambda>fam.
         seq (optional_field (obj_get r ''iosVersion'') None
                (\<lambda>w. map_sum id Some (validateIosVersion w (fieldPrefix @ ''.requires.iosVersion'')))) (\<lambda>ios.
           Inr (if fam = None \<and> ios = None then None
                else Some \<lparr>rq_deviceFamily = fam, rq_iosVersion = ios\<rparr>)))))"

definition validateProjectPurpose :: "js \<Rightarrow> string \<Rightarrow> berr + purpose" where
  "validateProjectPurpose rawPurpose fieldPrefix =
    seq (requireObject (Some rawPurpose) fieldPrefix) (\<lambda>p.
    seq (requireString (obj_get p ''capability'') (fieldPrefix @ ''.capability'')) (\<lambda>cap.
    seq (requireOptionalString (obj_get p ''defaultActorType'') (fieldPrefix @ ''.defaultActorType'')) (\<lambda>act.
    seq (requireString (obj_get p ''displayName'') (fieldPrefix @ ''.displayName'')) (\<lambda>disp.
    seq (requireString (obj_get p ''id'') (fieldPrefix @ ''.id'')) (\<lambda>pid.
    seq (validatePurposeRequires (obj_get p ''requires'') fieldPrefix) (\<lambda>req.
      Inr \<lparr>pu_capability = cap, pu_defaultActorType = act, pu_displayName = disp, pu_id = pid,
            pu_requires = req\<rparr>))))))"

fun check_duplicate_purposes :: "purpose list \<Rightarrow> string list \<Rightarrow> berr + unit" where
  "check_duplicate_purposes [] ids = Inr ()"
| "check_duplicate_purposes (p # ps) ids =
     (if pu_id p \<in> set ids
      then Inl (config_err (''Duplicate purpose '' @ pu_id p @ '' in project config.'') ''project-config.purposes'')
      else check_duplicate_purposes ps (pu_id p # ids))"

definition validateProjectConfig :: "js option \<Rightarrow> berr + project_config" where
  "validateProjectConfig rawConfig =
    seq (requireObject rawConfig ''project-config'') (\<lambda>c.
    seq (validateVersion (obj_get c ''version'') 1 ''project-config'') (\<lambda>_.
    seq (requireArray (obj_get c ''purposes'') ''project-config.purposes'') (\<lambda>xs.
    seq (map_seq (\<lambda>(i, p). validateProjectPurpose p (indexed_field ''project-config.purposes'' i)) (indexed xs)) (\<lambda>purposes.
    seq (check_duplicate_purposes purposes []) (\<lambda>_.
    seq (requireString (obj_get c ''projectId'') ''project-config.projectId'') (\<lambda>pid.
    seq (requireString (obj_get c ''projectName'') ''project-config.projectName'') (\<lambda>pname.
      Inr \<lparr>pc_projectId = pid, pc_projectName = pname, pc_purposes = purposes\<rparr>)))))))"

section \<open>Idle policy\<close>

text \<open>\<open>Object.keys(policy).sort()\<close> must be exactly the two fields; the grace period is within
  \<open>MIN_IDLE_GRACE_SECONDS\<close> and \<open>MAX_IDLE_GRACE_SECONDS\<close>.\<close>

definition min_idle_grace_seconds :: int where "min_idle_grace_seconds = 60"

definition max_idle_grace_seconds :: int where "max_idle_grace_seconds = 86400"

definition validateIdlePolicy :: "js option \<Rightarrow> berr + int" where
  "validateIdlePolicy rawPolicy =
    seq (requireObject rawPolicy ''idle-policy'') (\<lambda>p.
      if sort_strings (map fst p) \<noteq> [''graceSeconds'', ''version'']
      then Inl (broker_err ''idle-policy may contain only version and graceSeconds.'' ''invalid-config'')
      else seq (validateVersion (obj_get p ''version'') 1 ''idle-policy'') (\<lambda>_.
        case obj_get p ''graceSeconds'' of
          Some (JInt g) \<Rightarrow>
            if g < min_idle_grace_seconds \<or> max_idle_grace_seconds < g
            then Inl (config_err (''idle-policy.graceSeconds must be an integer from '' @ int_text min_idle_grace_seconds
                   @ '' through '' @ int_text max_idle_grace_seconds @ ''.'') ''idle-policy.graceSeconds'')
            else Inr g
        | _ \<Rightarrow> Inl (config_err (''idle-policy.graceSeconds must be an integer from '' @ int_text min_idle_grace_seconds
                   @ '' through '' @ int_text max_idle_grace_seconds @ ''.'') ''idle-policy.graceSeconds'')))"

section \<open>What the broker writes\<close>

text \<open>\<open>JSON.stringify\<close> of the records, as \<open>writeHostConfig(hostConfigWithPendingRetirements(\<dots>))\<close>,
  the project starter and \<open>enableIdlePolicyBroker\<close> write them.\<close>

definition str_arr :: "string list \<Rightarrow> js" where
  "str_arr xs = JArr (map JStr xs)"

definition host_alias_json :: "host_alias \<Rightarrow> js" where
  "host_alias_json a = JObj
    [(''alias'', JStr (ha_alias a)), (''capabilities'', str_arr (ha_capabilities a)),
     (''deviceFamily'', JStr (ha_deviceFamily a)), (''displayName'', JStr (ha_displayName a)),
     (''iosVersion'', JStr (ha_iosVersion a)), (''resetPolicy'', JStr (ha_resetPolicy a)),
     (''simulatorId'', JStr (ha_simulatorId a))]"

definition class_policy_json :: "class_policy \<Rightarrow> js" where
  "class_policy_json p = JObj
    [(''enabled'', JBool (cp_enabled p)), (''maxAgeSeconds'', JInt (cp_maxAgeSeconds p)),
     (''maxDiskBytes'', JInt (cp_maxDiskBytes p)), (''maxLeasesSinceErase'', JInt (cp_maxLeasesSinceErase p))]"

definition slot_policy_json :: "slot_policy \<Rightarrow> js" where
  "slot_policy_json p = JObj
    [(''build'', class_policy_json (sp_build p)), (''enabled'', JBool (sp_enabled p)),
     (''manual'', class_policy_json (sp_manual p))]"

definition host_config_json :: "host_config \<Rightarrow> js" where
  "host_config_json c = JObj
    ([(''aliases'', JArr (map host_alias_json (hc_aliases c))), (''hostId'', JStr (hc_hostId c))]
     @ (if hc_pendingRetirements c = [] then []
        else [(''pendingRetirements'', str_arr (hc_pendingRetirements c))])
     @ (case hc_slotReclaim c of None \<Rightarrow> [] | Some p \<Rightarrow> [(''slotReclaim'', slot_policy_json p)])
     @ [(''version'', JInt 1)])"

definition opt_str :: "string option \<Rightarrow> js" where
  "opt_str s = (case s of None \<Rightarrow> JNull | Some x \<Rightarrow> JStr x)"

definition requires_json :: "requires option \<Rightarrow> js" where
  "requires_json r = (case r of None \<Rightarrow> JNull
     | Some q \<Rightarrow> JObj
        ((case rq_deviceFamily q of None \<Rightarrow> [] | Some f \<Rightarrow> [(''deviceFamily'', JStr f)])
         @ (case rq_iosVersion q of None \<Rightarrow> [] | Some v \<Rightarrow> [(''iosVersion'', JStr v)])))"

definition purpose_json :: "purpose \<Rightarrow> js" where
  "purpose_json p = JObj
    [(''capability'', JStr (pu_capability p)), (''defaultActorType'', opt_str (pu_defaultActorType p)),
     (''displayName'', JStr (pu_displayName p)), (''id'', JStr (pu_id p)),
     (''requires'', requires_json (pu_requires p))]"

definition project_config_json :: "project_config \<Rightarrow> js" where
  "project_config_json c = JObj
    [(''projectId'', JStr (pc_projectId c)), (''projectName'', JStr (pc_projectName c)),
     (''purposes'', JArr (map purpose_json (pc_purposes c))), (''version'', JInt 1)]"

definition idle_policy_json :: "int \<Rightarrow> js" where
  "idle_policy_json g = JObj [(''graceSeconds'', JInt g), (''version'', JInt 1)]"

section \<open>Well-formed records\<close>

definition wf_text :: "string \<Rightarrow> bool" where
  "wf_text s \<longleftrightarrow> s \<noteq> [] \<and> js_trim s = s"

definition wf_host_alias :: "host_alias \<Rightarrow> bool" where
  "wf_host_alias a \<longleftrightarrow> wf_text (ha_alias a) \<and> wf_text (ha_displayName a) \<and> wf_text (ha_simulatorId a)
     \<and> ha_capabilities a \<noteq> [] \<and> distinct (ha_capabilities a) \<and> list_all wf_text (ha_capabilities a)
     \<and> ha_deviceFamily a \<in> set allowed_device_families
     \<and> wf_text (ha_iosVersion a) \<and> isHostSchemaIosVersion (ha_iosVersion a)
     \<and> ha_resetPolicy a \<in> set allowed_reset_policies"

definition wf_class_policy :: "class_policy \<Rightarrow> bool" where
  "wf_class_policy p \<longleftrightarrow> 60 \<le> cp_maxAgeSeconds p \<and> cp_maxAgeSeconds p \<le> 31536000
     \<and> 1 \<le> cp_maxDiskBytes p \<and> cp_maxDiskBytes p \<le> max_safe_integer
     \<and> 1 \<le> cp_maxLeasesSinceErase p \<and> cp_maxLeasesSinceErase p \<le> 10000"

definition wf_host_config :: "host_config \<Rightarrow> bool" where
  "wf_host_config c \<longleftrightarrow> list_all wf_host_alias (hc_aliases c)
     \<and> distinct (map ha_alias (hc_aliases c)) \<and> distinct (map ha_simulatorId (hc_aliases c))
     \<and> wf_text (hc_hostId c)
     \<and> distinct (hc_pendingRetirements c) \<and> list_all wf_text (hc_pendingRetirements c)
     \<and> (case hc_slotReclaim c of None \<Rightarrow> True
        | Some p \<Rightarrow> wf_class_policy (sp_build p) \<and> wf_class_policy (sp_manual p))"

definition wf_requires :: "requires option \<Rightarrow> bool" where
  "wf_requires r \<longleftrightarrow> (case r of None \<Rightarrow> True
     | Some q \<Rightarrow> (rq_deviceFamily q \<noteq> None \<or> rq_iosVersion q \<noteq> None)
         \<and> (case rq_deviceFamily q of None \<Rightarrow> True | Some f \<Rightarrow> f \<in> set allowed_device_families)
         \<and> (case rq_iosVersion q of None \<Rightarrow> True | Some v \<Rightarrow> wf_text v \<and> isHostSchemaIosVersion v))"

definition wf_purpose :: "purpose \<Rightarrow> bool" where
  "wf_purpose p \<longleftrightarrow> wf_text (pu_capability p) \<and> wf_text (pu_displayName p) \<and> wf_text (pu_id p)
     \<and> (case pu_defaultActorType p of None \<Rightarrow> True | Some t \<Rightarrow> wf_text t) \<and> wf_requires (pu_requires p)"

definition wf_project_config :: "project_config \<Rightarrow> bool" where
  "wf_project_config c \<longleftrightarrow> list_all wf_purpose (pc_purposes c) \<and> distinct (map pu_id (pc_purposes c))
     \<and> wf_text (pc_projectId c) \<and> wf_text (pc_projectName c)"

section \<open>What is accepted is well formed\<close>

lemma requireString_wf: "requireString v n = Inr s \<Longrightarrow> wf_text s"
  by (auto simp: wf_text_def dest: requireString_trimmed)

lemma requireOptionalString_wf: "requireOptionalString v n = Inr (Some s) \<Longrightarrow> wf_text s"
  by (auto simp: wf_text_def dest: requireOptionalString_Inr)

lemma map_seq_strings_wf:
  "map_seq (\<lambda>(i, x). requireString (Some x) (f i)) ys = Inr zs \<Longrightarrow> list_all wf_text zs"
  by (auto simp: list_all_iff dest!: map_seq_elem dest: requireString_wf)

lemma validateDeviceFamily_Inr:
  "validateDeviceFamily v n = Inr s \<Longrightarrow> s \<in> set allowed_device_families"
  by (auto simp: validateDeviceFamily_def seq_Inr_iff split: if_splits)

lemma validateIosVersion_Inr:
  "validateIosVersion v n = Inr s \<Longrightarrow> wf_text s \<and> isHostSchemaIosVersion s"
  by (auto simp: validateIosVersion_def seq_Inr_iff dest: requireString_wf split: if_splits)

lemma validateCapabilities_Inr:
  "validateCapabilities v n = Inr cs \<Longrightarrow> cs \<noteq> [] \<and> distinct cs \<and> list_all wf_text cs"
  by (auto simp: validateCapabilities_def seq_Inr_iff list_all_iff
      dest!: map_seq_strings_wf split: if_splits)

lemma normalizeResetPolicy_Inr:
  "normalizeResetPolicy v n = Inr s \<Longrightarrow> s \<in> set allowed_reset_policies"
  by (auto simp: normalizeResetPolicy_def seq_Inr_iff split: if_splits)

lemma validateHostAlias_wf: "validateHostAlias v i = Inr a \<Longrightarrow> wf_host_alias a"
  by (auto simp: validateHostAlias_def Let_def seq_Inr_iff wf_host_alias_def
      dest: requireString_wf validateDeviceFamily_Inr validateIosVersion_Inr validateCapabilities_Inr
        normalizeResetPolicy_Inr)

lemma validatePendingRetirements_wf:
  "validatePendingRetirements v = Inr ids \<Longrightarrow> distinct ids \<and> list_all wf_text ids"
  by (auto simp: validatePendingRetirements_def seq_Inr_iff list_all_iff
      dest!: map_seq_strings_wf split: if_splits)

lemma validateSlotReclaimClassPolicy_wf:
  assumes "validateSlotReclaimClassPolicy v f d = Inr p" "wf_class_policy d"
  shows "wf_class_policy p"
proof -
  have *: "optional_field w x (\<lambda>u. requireConfigBoundedInteger u n lo hi) = Inr y \<Longrightarrow>
    lo \<le> x \<Longrightarrow> x \<le> hi \<Longrightarrow> lo \<le> y \<and> y \<le> hi" for w x n lo hi y
    by (auto simp: optional_field_def requireConfigBoundedInteger_Inr split: if_splits)
  show ?thesis
    using assms
    by (auto simp: validateSlotReclaimClassPolicy_def seq_Inr_iff Let_def wf_class_policy_def
        dest!: * split: if_splits)
qed

lemma wf_default_policies [simp]:
  "wf_class_policy (sp_build default_slot_reclaim_policy)"
  "wf_class_policy (sp_manual default_slot_reclaim_policy)"
  by (simp_all add: wf_class_policy_def default_slot_reclaim_policy_def default_class_policy_def
      max_safe_integer_def)

lemma validateSlotReclaimConfig_wf:
  "validateSlotReclaimConfig v = Inr r \<Longrightarrow>
    case r of None \<Rightarrow> True | Some p \<Rightarrow> wf_class_policy (sp_build p) \<and> wf_class_policy (sp_manual p)"
  by (auto simp: validateSlotReclaimConfig_def seq_Inr_iff Let_def
      dest!: validateSlotReclaimClassPolicy_wf [OF _ wf_default_policies(1)]
        validateSlotReclaimClassPolicy_wf [OF _ wf_default_policies(2)] split: if_splits)

lemma check_duplicates_Inr:
  "check_duplicates as A S = Inr () \<longleftrightarrow>
     distinct (map ha_alias as) \<and> distinct (map ha_simulatorId as)
     \<and> set (map ha_alias as) \<inter> set A = {} \<and> set (map ha_simulatorId as) \<inter> set S = {}"
  by (induction as arbitrary: A S) auto

lemma check_duplicate_purposes_Inr:
  "check_duplicate_purposes ps I = Inr () \<longleftrightarrow> distinct (map pu_id ps) \<and> set (map pu_id ps) \<inter> set I = {}"
  by (induction ps arbitrary: I) auto

lemma validatePurposeRequires_wf: "validatePurposeRequires v f = Inr r \<Longrightarrow> wf_requires r"
  by (auto simp: validatePurposeRequires_def seq_Inr_iff Let_def wf_requires_def optional_field_def
      map_sum_def split: if_splits sum.splits option.splits
      dest: validateDeviceFamily_Inr validateIosVersion_Inr)

lemma validateProjectPurpose_wf: "validateProjectPurpose v f = Inr p \<Longrightarrow> wf_purpose p"
  by (auto simp: validateProjectPurpose_def seq_Inr_iff wf_purpose_def
      dest: requireString_wf requireOptionalString_wf validatePurposeRequires_wf split: option.splits)

lemma validateHostAliases_wf:
  "map_seq (\<lambda>(i, a). validateHostAlias a i) ys = Inr as \<Longrightarrow> list_all wf_host_alias as"
  by (auto simp: list_all_iff dest!: map_seq_elem dest: validateHostAlias_wf)

lemma validateProjectPurposes_wf:
  "map_seq (\<lambda>(i, p). validateProjectPurpose p (f i)) ys = Inr ps \<Longrightarrow> list_all wf_purpose ps"
  by (auto simp: list_all_iff dest!: map_seq_elem dest: validateProjectPurpose_wf)

section \<open>What is written is read back\<close>

lemma map_seq_indexed:
  assumes "\<And>a i. a \<in> set as \<Longrightarrow> f i (g a) = Inr a"
  shows "map_seq (\<lambda>(i, x). f i x) (indexed (map g as)) = Inr as"
proof -
  have "map_seq (\<lambda>(i, x). f i x) (zip [n..<n + length as] (map g as)) = Inr as" for n
    using assms
  proof (induction as arbitrary: n)
    case (Cons a as)
    have "[n..<n + length (a # as)] = n # [Suc n..<Suc n + length as]"
      by (simp add: upt_rec [of n] del: upt_Suc)
    moreover have "map_seq (\<lambda>(i, x). f i x) (zip [Suc n..<Suc n + length as] (map g as)) = Inr as"
      using Cons by (metis list.set_intros(2))
    ultimately show ?case using Cons.prems by (simp del: upt_Suc)
  qed simp
  from this [of 0] show ?thesis by (simp add: indexed_def)
qed

lemma requireString_wf_text: "wf_text s \<Longrightarrow> requireString (Some (JStr s)) n = Inr s"
  by (simp add: requireString_def wf_text_def)

lemma strings_roundtrip:
  "list_all wf_text xs \<Longrightarrow>
    map_seq (\<lambda>(i, x). requireString (Some x) (f i)) (indexed (map JStr xs)) = Inr xs"
  by (rule map_seq_indexed) (auto simp: list_all_iff requireString_wf_text)

lemma wf_allowed:
  "list_all wf_text allowed_device_families" "list_all wf_text allowed_reset_policies"
  by code_simp+

lemma validateDeviceFamily_written:
  "s \<in> set allowed_device_families \<Longrightarrow> validateDeviceFamily (Some (JStr s)) n = Inr s"
  using wf_allowed(1) by (auto simp: validateDeviceFamily_def list_all_iff requireString_wf_text)

lemma normalizeResetPolicy_written:
  "s \<in> set allowed_reset_policies \<Longrightarrow> normalizeResetPolicy (Some (JStr s)) n = Inr s"
  using wf_allowed(2) by (auto simp: normalizeResetPolicy_def list_all_iff requireString_wf_text)

lemma validateIosVersion_written:
  "wf_text s \<Longrightarrow> isHostSchemaIosVersion s \<Longrightarrow> validateIosVersion (Some (JStr s)) n = Inr s"
  by (simp add: validateIosVersion_def requireString_wf_text)

lemma validateCapabilities_written:
  "cs \<noteq> [] \<Longrightarrow> distinct cs \<Longrightarrow> list_all wf_text cs \<Longrightarrow> validateCapabilities (Some (str_arr cs)) n = Inr cs"
  by (simp add: validateCapabilities_def str_arr_def requireArray_def strings_roundtrip uniq_distinct)

lemma validateHostAlias_written:
  "wf_host_alias a \<Longrightarrow> validateHostAlias (host_alias_json a) i = Inr a"
  by (simp add: validateHostAlias_def host_alias_json_def requireObject_def obj_get_def wf_host_alias_def
      requireString_wf_text validateDeviceFamily_written normalizeResetPolicy_written
      validateIosVersion_written validateCapabilities_written)

lemma validatePendingRetirements_written:
  "distinct ids \<Longrightarrow> list_all wf_text ids \<Longrightarrow> validatePendingRetirements (Some (str_arr ids)) = Inr ids"
  by (simp add: validatePendingRetirements_def str_arr_def requireArray_def strings_roundtrip uniq_distinct
      js_nullish_def)

lemma validateSlotReclaimClassPolicy_written:
  "wf_class_policy p \<Longrightarrow> validateSlotReclaimClassPolicy (Some (class_policy_json p)) f d = Inr p"
  by (simp add: validateSlotReclaimClassPolicy_def class_policy_json_def requireObject_def obj_get_def
      unsupported_fields_def optional_field_def requireBoolean_def requireConfigBoundedInteger_def
      wf_class_policy_def js_nullish_def max_safe_integer_def)

lemma validateSlotReclaimConfig_written:
  "wf_class_policy (sp_build p) \<Longrightarrow> wf_class_policy (sp_manual p) \<Longrightarrow>
    validateSlotReclaimConfig (Some (slot_policy_json p)) = Inr (Some p)"
  by (simp add: validateSlotReclaimConfig_def slot_policy_json_def requireObject_def obj_get_def
      unsupported_fields_def optional_field_def requireBoolean_def js_nullish_def
      validateSlotReclaimClassPolicy_written)

lemma validatePurposeRequires_written:
  "wf_requires r \<Longrightarrow> validatePurposeRequires (Some (requires_json r)) f = Inr r"
  by (auto simp: validatePurposeRequires_def requires_json_def wf_requires_def requireObject_def
      obj_get_def unsupported_fields_def optional_field_def js_nullish_def
      validateDeviceFamily_written validateIosVersion_written split: option.splits)

lemma validateProjectPurpose_written:
  "wf_purpose p \<Longrightarrow> validateProjectPurpose (purpose_json p) f = Inr p"
  by (cases "pu_defaultActorType p")
    (auto simp: validateProjectPurpose_def purpose_json_def wf_purpose_def requireObject_def obj_get_def
      requireString_wf_text requireOptionalString_def opt_str_def js_nullish_def wf_text_def requireString_def
      validatePurposeRequires_written)

lemma host_json_fields:
  "obj_get kvs ''aliases'' = Some (JArr (map host_alias_json (hc_aliases c)))"
  "obj_get kvs ''hostId'' = Some (JStr (hc_hostId c))"
  "obj_get kvs ''version'' = Some (JInt 1)"
  "obj_get kvs ''pendingRetirements'' =
     (if hc_pendingRetirements c = [] then None else Some (str_arr (hc_pendingRetirements c)))"
  "obj_get kvs ''slotReclaim'' = map_option slot_policy_json (hc_slotReclaim c)"
  if "requireObject (Some (host_config_json c)) n = Inr kvs"
  using that by (auto simp: requireObject_def host_config_json_def obj_get_def split: option.splits)

lemma pending_field_written:
  "distinct ids \<Longrightarrow> list_all wf_text ids \<Longrightarrow>
    validatePendingRetirements (if ids = [] then None else Some (str_arr ids)) = Inr ids"
  by (simp add: validatePendingRetirements_written) (simp add: validatePendingRetirements_def js_nullish_def)

lemma reclaim_field_written:
  "(case r of None \<Rightarrow> True | Some p \<Rightarrow> wf_class_policy (sp_build p) \<and> wf_class_policy (sp_manual p)) \<Longrightarrow>
    validateSlotReclaimConfig (map_option slot_policy_json r) = Inr r"
  by (cases r) (simp_all add: validateSlotReclaimConfig_written, simp add: validateSlotReclaimConfig_def js_nullish_def)

section \<open>Rejections\<close>

lemma config_rejection_msg [simp]: "config_rejection (Inl (broker_err m ''invalid-config''))"
  by (simp add: config_rejection_def)

lemma config_rejection_optional [simp]:
  "(\<And>w. config_rejection (check w)) \<Longrightarrow> config_rejection (optional_field v d check)"
  by (simp add: optional_field_def)

lemma config_rejection_map_sum [simp]: "config_rejection (map_sum id f r) = config_rejection r"
  by (cases r) (auto simp: config_rejection_def)

lemma config_rejection_fields [simp]:
  "config_rejection (validateDeviceFamily v n)" "config_rejection (validateIosVersion v n)"
  "config_rejection (validateCapabilities v n)" "config_rejection (normalizeResetPolicy v n)"
  by (auto simp: validateDeviceFamily_def validateIosVersion_def validateCapabilities_def
      normalizeResetPolicy_def intro!: config_rejection_seq config_rejection_map_seq)

lemma config_rejection_duplicates [simp]:
  "config_rejection (check_duplicates as A S)" "config_rejection (check_duplicate_purposes ps I)"
  by (induction as arbitrary: A S) (auto, induction ps arbitrary: I, auto)

lemma config_rejection_host_parts [simp]:
  "config_rejection (validateHostAlias w i)" "config_rejection (validatePendingRetirements v)"
  "config_rejection (validateSlotReclaimClassPolicy v f d)" "config_rejection (validateSlotReclaimConfig v)"
proof -
  show cls: "config_rejection (validateSlotReclaimClassPolicy v f d)" for v f d
    by (auto simp: validateSlotReclaimClassPolicy_def Let_def intro!: config_rejection_seq)
  show "config_rejection (validateHostAlias w i)"
    by (auto simp: validateHostAlias_def Let_def intro!: config_rejection_seq)
  show "config_rejection (validatePendingRetirements v)"
    by (auto simp: validatePendingRetirements_def intro!: config_rejection_seq config_rejection_map_seq)
  show "config_rejection (validateSlotReclaimConfig v)"
    by (auto simp: validateSlotReclaimConfig_def Let_def cls intro!: config_rejection_seq)
qed

lemma config_rejection_project_parts [simp]:
  "config_rejection (validatePurposeRequires v f)" "config_rejection (validateProjectPurpose w f)"
proof -
  show r: "config_rejection (validatePurposeRequires v f)" for v f
    by (auto simp: validatePurposeRequires_def Let_def intro!: config_rejection_seq)
  show "config_rejection (validateProjectPurpose w f)"
    by (auto simp: validateProjectPurpose_def r intro!: config_rejection_seq)
qed

lemma validateHostConfig_wf:
  "validateHostConfig v = Inr c \<Longrightarrow> wf_host_config c"
  by (auto simp: validateHostConfig_def seq_Inr_iff wf_host_config_def check_duplicates_Inr
      dest: validateHostAliases_wf requireString_wf validatePendingRetirements_wf
      dest!: validateSlotReclaimConfig_wf)

lemma validateHostConfig_written:
  "wf_host_config c \<Longrightarrow> validateHostConfig (Some (host_config_json c)) = Inr c"
proof -
  assume wf: "wf_host_config c"
  obtain kvs where k: "host_config_json c = JObj kvs" by (simp add: host_config_json_def)
  then have r: "requireObject (Some (host_config_json c)) n = Inr kvs" for n
    by (simp add: requireObject_def)
  note f = host_json_fields [OF r]
  have "map_seq (\<lambda>(i, a). validateHostAlias a i) (indexed (map host_alias_json (hc_aliases c)))
    = Inr (hc_aliases c)"
    using wf by (auto simp: wf_host_config_def list_all_iff intro!: map_seq_indexed validateHostAlias_written)
  moreover have "check_duplicates (hc_aliases c) [] [] = Inr ()"
    using wf by (simp add: check_duplicates_Inr wf_host_config_def)
  ultimately show ?thesis
    using wf
    by (simp add: validateHostConfig_def r f validateVersion_def requireArray_def wf_host_config_def
        requireString_wf_text pending_field_written reclaim_field_written)
qed

section \<open>Properties\<close>

text \<open>The host configuration check accepts only well-formed configurations: every alias has
  trimmed non-empty names, a known device family, a version of at most three numeric parts, a
  known reset policy and distinct capabilities; alias names and simulator ids are unique; the
  reclaim thresholds are within their bounds.\<close>

theorem validateHostConfig_well_formed:
  "validateHostConfig v = Inr c \<Longrightarrow> wf_host_config c"
  by (rule validateHostConfig_wf)

definition sample_host_config :: host_config where
  "sample_host_config = \<lparr>hc_aliases = [
      \<lparr>ha_alias = ''build-a'', ha_capabilities = [''build-fast''], ha_deviceFamily = ''iPhone'',
       ha_displayName = ''Build A'', ha_iosVersion = ''18.2'', ha_resetPolicy = ''none'',
       ha_simulatorId = ''SIM-A''\<rparr>],
     hc_hostId = ''host'', hc_pendingRetirements = [''SIM-OLD''],
     hc_slotReclaim = Some default_slot_reclaim_policy\<rparr>"

theorem validateHostConfig_well_formed_witness:
  "wf_host_config sample_host_config"
  by (rule validateHostConfig_well_formed [of "Some (host_config_json sample_host_config)"]) code_simp

text \<open>C36: writing a well-formed host configuration and reading it back gives the same
  configuration: the rewrite of the file by repair, provisioning and retirement loses nothing.\<close>

theorem validateHostConfig_roundtrip:
  "wf_host_config c \<Longrightarrow> validateHostConfig (Some (host_config_json c)) = Inr c"
  by (rule validateHostConfig_written)

theorem validateHostConfig_roundtrip_witness:
  "validateHostConfig (Some (host_config_json sample_host_config)) = Inr sample_host_config"
  by (rule validateHostConfig_roundtrip) code_simp

text \<open>The same for project configurations: the check accepts only well-formed ones, with unique
  purpose ids, and reads back what the starter file writes.\<close>

theorem validateProjectConfig_accepts:
  "(validateProjectConfig v = Inr c \<longrightarrow> wf_project_config c)
    \<and> (wf_project_config d \<longrightarrow> validateProjectConfig (Some (project_config_json d)) = Inr d)"
  by (auto simp: validateProjectConfig_def seq_Inr_iff wf_project_config_def check_duplicate_purposes_Inr
      project_config_json_def requireObject_def obj_get_def validateVersion_def requireArray_def
      map_seq_indexed list_all_iff validateProjectPurpose_written requireString_wf_text
      dest: validateProjectPurposes_wf requireString_wf)

definition sample_project_config :: project_config where
  "sample_project_config = \<lparr>pc_projectId = ''app'', pc_projectName = ''App'', pc_purposes = [
      \<lparr>pu_capability = ''build-fast'', pu_defaultActorType = Some ''agent'', pu_displayName = ''Build'',
       pu_id = ''build'', pu_requires = Some \<lparr>rq_deviceFamily = Some ''iPhone'', rq_iosVersion = None\<rparr>\<rparr>]\<rparr>"

theorem validateProjectConfig_accepts_witness:
  "wf_project_config sample_project_config
   \<and> validateProjectConfig (Some (project_config_json sample_project_config)) = Inr sample_project_config"
proof -
  have wf: "wf_project_config sample_project_config" by code_simp
  from validateProjectConfig_accepts [of None sample_project_config sample_project_config] wf
  show ?thesis by simp
qed

text \<open>Every rejection by the three configuration checks carries the reason code
  \<open>invalid-config\<close>, so the command line client exits with 2 and the service answers 400.\<close>

theorem config_checks_reject_as_invalid_config:
  "validateHostConfig v = Inl e \<or> validateProjectConfig v = Inl e \<or> validateIdlePolicy v = Inl e \<Longrightarrow>
     payload_reason e = Some ''invalid-config''
     \<and> resolveBrokerHttpStatus (payload_reason e) 500 = 400"
proof -
  assume *: "validateHostConfig v = Inl e \<or> validateProjectConfig v = Inl e \<or> validateIdlePolicy v = Inl e"
  have "config_rejection (validateHostConfig v)" "config_rejection (validateProjectConfig v)"
    by (auto simp: validateHostConfig_def validateProjectConfig_def
        intro!: config_rejection_seq config_rejection_map_seq)
  moreover have "config_rejection (validateIdlePolicy v)"
    by (auto simp: validateIdlePolicy_def intro!: config_rejection_seq split: option.splits js.splits)
  ultimately have "payload_reason e = Some ''invalid-config''"
    using * by (auto simp: config_rejection_def)
  then show ?thesis by (simp add: resolveBrokerHttpStatus_def in_codes_def reason_code_defs)
qed

theorem config_checks_reject_as_invalid_config_witness:
  "\<exists>e. validateHostConfig None = Inl e \<and> payload_reason e = Some ''invalid-config''"
proof -
  let ?e = "config_err (''host-config'' @ '' must be an object.'') ''host-config''"
  have "validateHostConfig None = Inl ?e" by (simp add: validateHostConfig_def requireObject_def)
  with config_checks_reject_as_invalid_config [of None ?e] show ?thesis by blast
qed

text \<open>The idle policy check accepts exactly an object with the fields \<open>version\<close> and
  \<open>graceSeconds\<close>, version 1 and a grace period between a minute and a day.\<close>

theorem validateIdlePolicy_iff:
  "validateIdlePolicy v = Inr g \<longleftrightarrow>
     (\<exists>kvs. v = Some (JObj kvs) \<and> sort_strings (map fst kvs) = [''graceSeconds'', ''version'']
       \<and> obj_get kvs ''version'' = Some (JInt 1) \<and> obj_get kvs ''graceSeconds'' = Some (JInt g)
       \<and> 60 \<le> g \<and> g \<le> 86400)"
proof (cases "\<exists>kvs. v = Some (JObj kvs)")
  case True
  then obtain kvs where v: "v = Some (JObj kvs)" by blast
  show ?thesis
  proof (cases "\<exists>n. obj_get kvs ''graceSeconds'' = Some (JInt n)")
    case True
    then obtain n where n: "obj_get kvs ''graceSeconds'' = Some (JInt n)" by blast
    show ?thesis
      by (auto simp: validateIdlePolicy_def v n requireObject_def seq_Inr_iff validateVersion_Inr
          min_idle_grace_seconds_def max_idle_grace_seconds_def)
  next
    case False
    then show ?thesis
      by (simp add: validateIdlePolicy_def v requireObject_def seq_Inr_iff split: option.splits js.splits)
  qed
next
  case False
  then show ?thesis by (auto simp: validateIdlePolicy_def seq_Inr_iff requireObject_Inr)
qed

end
