(* ===== verification/Devices.thy ===== *)
theory Devices
  imports Broker_Types
begin

text \<open>
  The simulator inventory as \<open>simctl list\<close> reports it, the index by simulator id
  (\<open>createDeviceIndex\<close> in \<open>broker-core/simctl.mjs\<close>), and the choice of a runtime and a device type
  for an alias (\<open>selectRuntimeForAlias\<close> to \<open>compareSetupDeviceTypes\<close> in \<open>broker-core/index.mjs\<close>).
  \<open>localeCompare\<close> depends on the collation of the host, so it is the parameter \<open>loc\<close>.
\<close>

section \<open>Inventory\<close>

record device_type =
  dt_identifier :: "string option"
  dt_name :: "string option"
  dt_productFamily :: "string option"

record runtime =
  rn_identifier :: string
  rn_isAvailable :: bool
  rn_supported :: "device_type list"
  rn_version :: "string option"
  rn_buildVersion :: "string option"

record device =
  dv_deviceTypeIdentifier :: string
  dv_isAvailable :: bool
  dv_name :: string
  dv_productFamily :: "string option"
  dv_state :: "string option"
  dv_udid :: string

text \<open>\<open>devicesJson.devices\<close> maps the identifier of a runtime to its devices.\<close>

record inventory =
  iv_devices :: "(string \<times> device list) list"
  iv_deviceTypes :: "device_type list"
  iv_runtimes :: "runtime list"

record device_info =
  di_deviceFamily :: "string option"
  di_deviceTypeIdentifier :: string
  di_isAvailable :: bool
  di_name :: string
  di_runtimeIdentifier :: string
  di_runtimeVersion :: "string option"
  di_state :: string
  di_udid :: string

definition buildRuntimeLookup :: "inventory \<Rightarrow> (string \<times> runtime) list" where
  "buildRuntimeLookup iv = map (\<lambda>r. (rn_identifier r, r)) (iv_runtimes iv)"

definition buildDeviceTypeLookup :: "inventory \<Rightarrow> (string option \<times> device_type) list" where
  "buildDeviceTypeLookup iv = map (\<lambda>t. (dt_identifier t, t)) (iv_deviceTypes iv)"

text \<open>The pairs in the order of the \<open>index.set\<close> calls; \<open>map_get\<close> reads the last one of a key, as the
  \<open>Map\<close> does.\<close>

definition createDeviceIndex :: "inventory \<Rightarrow> (string \<times> device_info) list" where
  "createDeviceIndex iv =
    concat (map (\<lambda>(runtimeIdentifier, devices).
      map (\<lambda>d. (dv_udid d,
        \<lparr>di_deviceFamily = or_else
           (Option.bind (map_get (buildDeviceTypeLookup iv) (Some (dv_deviceTypeIdentifier d))) dt_productFamily)
           (dv_productFamily d),
         di_deviceTypeIdentifier = dv_deviceTypeIdentifier d, di_isAvailable = dv_isAvailable d,
         di_name = dv_name d, di_runtimeIdentifier = runtimeIdentifier,
         di_runtimeVersion = Option.bind (map_get (buildRuntimeLookup iv) runtimeIdentifier) rn_version,
         di_state = nullish (dv_state d) ''Shutdown'', di_udid = dv_udid d\<rparr>)) devices)
      (iv_devices iv))"

section \<open>Runtimes\<close>

definition isAvailableIosRuntime :: "runtime \<Rightarrow> bool" where
  "isAvailableIosRuntime r = (rn_isAvailable r \<and> str_includes (rn_identifier r) ''.iOS-'')"

definition no_runtime :: "string option \<Rightarrow> berr" where
  "no_runtime iosVersion = broker_err (''No available iOS runtime matched '' @ nullish iosVersion ''undefined''
     @ ''. Pass --ios-version to match an installed runtime from `xcrun simctl list runtimes`.'')
     ''runtime-not-found''"

definition selectRuntimeForAlias :: "inventory \<Rightarrow> string option \<Rightarrow> berr + runtime" where
  "selectRuntimeForAlias iv iosVersion =
    (let runtimes = js_sort (\<lambda>left right. compareVersions (rn_version right) (rn_version left))
           (filter (\<lambda>r. runtimeMatchesRequestedVersion (rn_version r) iosVersion)
             (filter isAvailableIosRuntime (iv_runtimes iv)))
     in case runtimes of
          [] \<Rightarrow> Inl (no_runtime iosVersion)
        | r # _ \<Rightarrow> Inr r)"

section \<open>Device types\<close>

definition setupDeviceTypeRecordIsComplete :: "device_type \<Rightarrow> bool" where
  "setupDeviceTypeRecordIsComplete t =
    (dt_identifier t \<noteq> None \<and> dt_identifier t \<noteq> Some [] \<and> dt_name t \<noteq> None \<and> dt_name t \<noteq> Some [])"

definition isCompleteSetupDeviceType :: "string \<Rightarrow> device_type \<Rightarrow> bool" where
  "isCompleteSetupDeviceType deviceFamily t =
    (dt_productFamily t = Some deviceFamily \<and> setupDeviceTypeRecordIsComplete t)"

definition no_device_type :: "runtime \<Rightarrow> string \<Rightarrow> berr" where
  "no_device_type r deviceFamily = broker_err (''No available '' @ deviceFamily @ '' simulator type matched runtime ''
     @ nullish (rn_version r) ''undefined'' @ ''.'') ''device-type-not-found''"

definition requireCompleteSetupDeviceType :: "device_type \<Rightarrow> string \<Rightarrow> runtime \<Rightarrow> berr + device_type" where
  "requireCompleteSetupDeviceType t deviceFamily r =
    (if \<not> isCompleteSetupDeviceType deviceFamily t then Inl (no_device_type r deviceFamily) else Inr t)"

definition compareSetupDeviceTypes :: "(string \<Rightarrow> string \<Rightarrow> int) \<Rightarrow> device_type \<Rightarrow> device_type \<Rightarrow> int" where
  "compareSetupDeviceTypes loc left right =
    (let identifierComparison = loc (nullish (dt_identifier left) []) (nullish (dt_identifier right) []) in
     if identifierComparison \<noteq> 0 then identifierComparison
     else loc (nullish (dt_name left) []) (nullish (dt_name right) []))"

text \<open>\<open>/^iPhone \d+$/\<close> for the family \<open>iPhone\<close>, \<open>/^iPad \(/\<close> for any other.\<close>

definition exact_name :: "string \<Rightarrow> string \<Rightarrow> bool" where
  "exact_name deviceFamily name =
    (if deviceFamily = ''iPhone'' then starts_with name ''iPhone '' \<and> all_digits (drop 7 name)
     else starts_with name ''iPad ('')"

definition preferred_cmp :: "(string \<Rightarrow> string \<Rightarrow> int) \<Rightarrow> device_type \<Rightarrow> device_type \<Rightarrow> int" where
  "preferred_cmp loc left right =
    (let versionComparison = compareVersions (dt_name right) (dt_name left) in
     if versionComparison \<noteq> 0 then versionComparison else compareSetupDeviceTypes loc left right)"

definition selectPreferredDeviceType ::
  "(string \<Rightarrow> string \<Rightarrow> int) \<Rightarrow> runtime \<Rightarrow> string \<Rightarrow> berr + device_type" where
  "selectPreferredDeviceType loc r deviceFamily =
    (let supportedDeviceTypes = filter (isCompleteSetupDeviceType deviceFamily) (rn_supported r) in
     if supportedDeviceTypes = [] then Inl (no_device_type r deviceFamily)
     else
       (case js_sort (preferred_cmp loc)
               (filter (\<lambda>t. exact_name deviceFamily (nullish (dt_name t) [])) supportedDeviceTypes) of
          p # _ \<Rightarrow> Inr p
        | [] \<Rightarrow> Inr (hd (js_sort (compareSetupDeviceTypes loc) supportedDeviceTypes))))"

section \<open>Retirement\<close>

definition pendingRetirementIdsForHostReplacement :: "host_config \<Rightarrow> host_config \<Rightarrow> string list" where
  "pendingRetirementIdsForHostReplacement previous new =
    (let nextIds = map ha_simulatorId (hc_aliases new);
         pending = uniq (hc_pendingRetirements previous
           @ filter (\<lambda>i. i \<notin> set nextIds) (map ha_simulatorId (hc_aliases previous)))
     in filter (\<lambda>i. i \<notin> set nextIds) pending)"

section \<open>Lemmas\<close>

lemma compareVersions_sym: "compareVersions b a = - compareVersions a b"
  unfolding compareVersions_def by (rule compareVersionParts_antisym)

lemma createDeviceIndex_key: "(k, d) \<in> set (createDeviceIndex iv) \<Longrightarrow> di_udid d = k"
  by (auto simp: createDeviceIndex_def)

text \<open>A comparator whose sign flips with its arguments can be refined: a second comparison decides
  among the elements that the first one does not separate.\<close>

locale sign_comparator = comparator +
  assumes cmp_sign: "cmp y x < 0 \<longleftrightarrow> 0 < cmp x y"
begin

lemma refine_comparator:
  assumes "comparator g"
  shows "comparator (\<lambda>x y. if cmp x y \<noteq> 0 then cmp x y else g x y)"
proof
  fix x y z
  note g_total = comparator.cmp_total [OF assms] and g_trans = comparator.cmp_trans [OF assms]
  show "(if cmp x y \<noteq> 0 then cmp x y else g x y) \<le> 0 \<or> (if cmp y x \<noteq> 0 then cmp y x else g y x) \<le> 0"
    using cmp_total [of x y] g_total [of x y] cmp_sign [of x y] cmp_sign [of y x] by auto
  assume xy: "(if cmp x y \<noteq> 0 then cmp x y else g x y) \<le> 0"
    and yz: "(if cmp y z \<noteq> 0 then cmp y z else g y z) \<le> 0"
  have le: "cmp x y \<le> 0" "cmp y z \<le> 0" using xy yz by (auto split: if_splits)
  then have "cmp x z \<le> 0" by (rule cmp_trans)
  moreover have "cmp x z = 0 \<Longrightarrow> cmp x y = 0 \<and> cmp y z = 0"
    using cmp_trans [of y z x] cmp_trans [of z x y] cmp_sign [of x z] cmp_sign [of z x] cmp_sign [of x y]
      cmp_sign [of y x] cmp_sign [of y z] cmp_sign [of z y] le by linarith
  ultimately show "(if cmp x z \<noteq> 0 then cmp x z else g x z) \<le> 0"
    using xy yz g_trans [of x y z] by auto
qed

lemma on_key: "comparator (\<lambda>x y. cmp (f x) (f y))"
  by unfold_locales (use cmp_total cmp_trans in blast)+

end

interpretation version_sign: sign_comparator "\<lambda>x y. compareVersions (f y) (f x)"
  by unfold_locales (use compareVersions_sym in \<open>metis neg_0_less_iff_less neg_less_0_iff_less\<close>)

text \<open>Code-unit order is one collation; any collation that \<open>localeCompare\<close> may use is another.\<close>

interpretation code_unit_order: sign_comparator "cmp_key f"
  by unfold_locales (auto simp: cmp_key_def)

lemma compareSetupDeviceTypes_comparator:
  assumes "sign_comparator loc"
  shows "comparator (compareSetupDeviceTypes loc)"
proof -
  have "sign_comparator (\<lambda>x y. loc (f x) (f y))" for f :: "device_type \<Rightarrow> string"
    using sign_comparator.cmp_sign [OF assms] sign_comparator.on_key [OF assms]
    by (simp add: sign_comparator_def sign_comparator_axioms_def)
  from sign_comparator.refine_comparator
    [OF this [of "\<lambda>x. nullish (dt_identifier x) []"]
      sign_comparator.on_key [OF assms, of "\<lambda>x. nullish (dt_name x) []"]]
  show ?thesis
    unfolding compareSetupDeviceTypes_def [abs_def] Let_def .
qed

lemma preferred_cmp_comparator:
  assumes "sign_comparator loc"
  shows "comparator (preferred_cmp loc)"
  using version_sign.refine_comparator [OF compareSetupDeviceTypes_comparator [OF assms], of dt_name]
  unfolding preferred_cmp_def [abs_def] Let_def .

section \<open>Properties\<close>

text \<open>The runtime of an alias is an available iOS runtime that matches the requested version and no
  matching available runtime is newer; the selection fails, with \<open>runtime-not-found\<close>, exactly when
  no available iOS runtime matches.\<close>

theorem selectRuntimeForAlias_newest:
  "case selectRuntimeForAlias iv v of
     Inr r \<Rightarrow> r \<in> set (iv_runtimes iv) \<and> isAvailableIosRuntime r \<and> runtimeMatchesRequestedVersion (rn_version r) v
       \<and> (\<forall>q. q \<in> set (iv_runtimes iv) \<and> isAvailableIosRuntime q \<and> runtimeMatchesRequestedVersion (rn_version q) v
            \<longrightarrow> compareVersions (rn_version q) (rn_version r) \<le> 0)
   | Inl e \<Rightarrow> payload_reason e = Some ''runtime-not-found''
       \<and> (\<forall>q\<in>set (iv_runtimes iv). \<not> (isAvailableIosRuntime q \<and> runtimeMatchesRequestedVersion (rn_version q) v))"
proof -
  let ?m = "filter (\<lambda>r. runtimeMatchesRequestedVersion (rn_version r) v) (filter isAvailableIosRuntime (iv_runtimes iv))"
  let ?s = "js_sort (\<lambda>left right. compareVersions (rn_version right) (rn_version left)) ?m"
  have s: "set ?s = set ?m" by simp
  show ?thesis
  proof (cases ?s)
    case Nil
    then have "set ?m = {}" using s by simp
    with Nil show ?thesis by (auto simp: selectRuntimeForAlias_def no_runtime_def filter_empty_conv js_sort_def)
  next
    case (Cons r rs)
    then have "r \<in> set ?m" using s by auto
    moreover have "compareVersions (rn_version q) (rn_version r) \<le> 0" if "q \<in> set ?m" for q
      using version_desc.hd_js_sort_least [OF that, of rn_version] Cons by simp
    ultimately show ?thesis using Cons by (auto simp: selectRuntimeForAlias_def)
  qed
qed

definition sample_iphone :: device_type where
  "sample_iphone = \<lparr>dt_identifier = Some ''type.iPhone-16'', dt_name = Some ''iPhone 16'',
     dt_productFamily = Some ''iPhone''\<rparr>"

definition sample_runtime :: runtime where
  "sample_runtime = \<lparr>rn_identifier = ''runtime.iOS-18-2'', rn_isAvailable = True, rn_supported = [sample_iphone],
     rn_version = Some ''18.2'', rn_buildVersion = None\<rparr>"

theorem selectRuntimeForAlias_newest_witness:
  "selectRuntimeForAlias \<lparr>iv_devices = [], iv_deviceTypes = [], iv_runtimes = [sample_runtime]\<rparr> (Some ''18'')
     = Inr sample_runtime \<and> isAvailableIosRuntime sample_runtime"
proof -
  let ?iv = "\<lparr>iv_devices = [], iv_deviceTypes = [], iv_runtimes = [sample_runtime]\<rparr>"
  have "selectRuntimeForAlias ?iv (Some ''18'') = Inr sample_runtime" by code_simp
  with selectRuntimeForAlias_newest [of ?iv "Some ''18''"] show ?thesis by simp
qed

text \<open>The device type chosen on a runtime is one the runtime supports, complete and of the requested
  family; if some supported type has the plain name of the family (\<open>iPhone 16\<close>, \<open>iPad (\<close>), the chosen
  one has such a name and none of them has a higher number.  The choice fails exactly when no complete
  type of the family is supported.  The only fact used of \<open>localeCompare\<close> is that it orders strings.\<close>

theorem selectPreferredDeviceType_newest:
  assumes "sign_comparator loc"
  shows "case selectPreferredDeviceType loc r fam of
     Inr t \<Rightarrow> t \<in> set (rn_supported r) \<and> isCompleteSetupDeviceType fam t
       \<and> (\<forall>u\<in>set (rn_supported r). isCompleteSetupDeviceType fam u \<and> exact_name fam (nullish (dt_name u) []) \<longrightarrow>
            exact_name fam (nullish (dt_name t) []) \<and> compareVersions (dt_name u) (dt_name t) \<le> 0)
   | Inl e \<Rightarrow> payload_reason e = Some ''device-type-not-found''
       \<and> (\<forall>u\<in>set (rn_supported r). \<not> isCompleteSetupDeviceType fam u)"
proof -
  let ?c = "filter (isCompleteSetupDeviceType fam) (rn_supported r)"
  let ?x = "filter (\<lambda>t. exact_name fam (nullish (dt_name t) [])) ?c"
  have set_s: "set (js_sort c xs) = set xs" for c :: "device_type \<Rightarrow> device_type \<Rightarrow> int" and xs by simp
  show ?thesis
  proof (cases "?c = []")
    case True
    then show ?thesis
      by (auto simp: selectPreferredDeviceType_def no_device_type_def filter_empty_conv)
  next
    case c: False
    show ?thesis
    proof (cases "js_sort (preferred_cmp loc) ?x")
      case Nil
      then have "?x = []" by simp
      then have none: "\<forall>u\<in>set (rn_supported r). isCompleteSetupDeviceType fam u \<longrightarrow> \<not> exact_name fam (nullish (dt_name u) [])"
        by (simp only: filter_empty_conv) auto
      have "hd (js_sort (compareSetupDeviceTypes loc) ?c) \<in> set ?c"
        using c by (metis hd_in_set js_sort_Nil_iff set_s)
      with none c show ?thesis unfolding selectPreferredDeviceType_def Let_def Nil by auto
    next
      case (Cons t ts)
      then have t: "t \<in> set ?x" by (metis list.set_intros(1) set_s)
      have "compareVersions (dt_name u) (dt_name t) \<le> 0" if "u \<in> set ?x" for u
      proof -
        have "preferred_cmp loc t u \<le> 0"
          using comparator.hd_js_sort_least [OF preferred_cmp_comparator [OF assms] that] Cons by simp
        then show ?thesis by (auto simp: preferred_cmp_def Let_def split: if_splits)
      qed
      with t c show ?thesis unfolding selectPreferredDeviceType_def Let_def Cons by auto
    qed
  qed
qed

theorem selectPreferredDeviceType_newest_witness:
  "isCompleteSetupDeviceType ''iPhone'' sample_iphone
   \<and> selectPreferredDeviceType (cmp_key id) sample_runtime ''iPhone'' = Inr sample_iphone"
proof -
  have "selectPreferredDeviceType (cmp_key id) sample_runtime ''iPhone'' = Inr sample_iphone" by code_simp
  with selectPreferredDeviceType_newest [OF code_unit_order.sign_comparator_axioms [of id], of sample_runtime "''iPhone''"]
  show ?thesis by simp
qed

end
