(* ===== verification/Registry.thy ===== *)
theory Registry
  imports Host_Config Devices
begin

text \<open>
  The registry of the broker (\<open>normalizeKnownProjects\<close> to \<open>slotReclaimBlockedByRepair\<close> and
  \<open>syncRegistryWithSimctl\<close> in \<open>broker-core/index.mjs\<close>): one entry per configured alias, read from
  its JSON file with defaults for what is missing, brought up to date with the simulator inventory,
  and updated when a lease ends or a slot is erased.
\<close>

section \<open>Reading members of a JSON value\<close>

text \<open>The members of \<open>v\<close> in \<open>v.member\<close>: reading a member of \<open>null\<close> throws; the values that are not
  plain objects have none of the members read here.\<close>

definition type_error :: berr where
  "type_error = HostError ''TypeError''"

definition members :: "js \<Rightarrow> berr + (string \<times> js) list" where
  "members v = (case v of JNull \<Rightarrow> Inl type_error | JObj kvs \<Rightarrow> Inr kvs | _ \<Rightarrow> Inr [])"

text \<open>\<open>typeof x === "string" ? x : null\<close>\<close>

definition as_string :: "js option \<Rightarrow> string option" where
  "as_string v = (case v of Some (JStr s) \<Rightarrow> Some s | _ \<Rightarrow> None)"

definition as_health :: "js option \<Rightarrow> health option" where
  "as_health v = (case as_string v of None \<Rightarrow> None
     | Some s \<Rightarrow> List.find (\<lambda>h. health_text h = s) [Healthy, State_drift, Repair_needed, Repairing])"

definition as_power :: "js option \<Rightarrow> power option" where
  "as_power v = (case as_string v of None \<Rightarrow> None
     | Some s \<Rightarrow> List.find (\<lambda>p. power_text p = s) [Shutdown, Booted])"

definition known_drift_cause_codes :: "string list" where
  "known_drift_cause_codes = [''boot-on-acquire-failed'', ''device-type-not-found'', ''idle-shutdown-failed'',
     ''repair-interrupted'', ''reset-on-acquire-failed'', ''runtime-not-found'', ''simulator-action-failed'',
     ''simulator-config-mismatch'', ''simulator-missing'', ''simulator-unavailable'', ''slot-reclaim-failed'']"

definition knownDriftCauseCode :: "string option \<Rightarrow> string option" where
  "knownDriftCauseCode reasonCode = (if in_codes reasonCode known_drift_cause_codes then reasonCode else None)"

section \<open>Results of the last sweep\<close>

definition count_field :: "(string \<times> js) list \<Rightarrow> string \<Rightarrow> int option" where
  "count_field kvs k = normalizeNonNegativeInteger (obj_get kvs k)"

text \<open>\<open>!text\<close> holds for a missing and for an empty string.\<close>

definition text_field :: "(string \<times> js) list \<Rightarrow> string \<Rightarrow> string option" where
  "text_field kvs k = (case as_string (obj_get kvs k) of Some s \<Rightarrow> if s = [] then None else Some s | None \<Rightarrow> None)"

definition normalizeIdleCleanupResult :: "js option \<Rightarrow> cleanup_result option" where
  "normalizeIdleCleanupResult v =
    (case v of
       Some (JObj kvs) \<Rightarrow>
         (case (text_field kvs ''completedAt'', text_field kvs ''source'', text_field kvs ''status'',
                count_field kvs ''eligibleCount'', count_field kvs ''shutdownCount'', count_field kvs ''failureCount'') of
            (Some completedAt, Some source, Some status, Some eligible, Some shut, Some fails) \<Rightarrow>
              Some \<lparr>cr_completedAt = completedAt, cr_eligibleCount = eligible, cr_failureCount = fails,
                cr_shutdownCount = shut, cr_source = source, cr_status = status\<rparr>
          | _ \<Rightarrow> None)
     | _ \<Rightarrow> None)"

definition normalizeSlotReclaimResult :: "js option \<Rightarrow> reclaim_result option" where
  "normalizeSlotReclaimResult v =
    (case v of
       Some (JObj kvs) \<Rightarrow>
         (case (text_field kvs ''completedAt'', text_field kvs ''source'', text_field kvs ''status'',
                count_field kvs ''eligibleCount'', count_field kvs ''reclaimedCount'',
                count_field kvs ''skippedHeldCount'', count_field kvs ''failureCount'') of
            (Some completedAt, Some source, Some status, Some eligible, Some reclaimed, Some skipped, Some fails) \<Rightarrow>
              Some \<lparr>rr_completedAt = completedAt, rr_eligibleCount = eligible, rr_failureCount = fails,
                rr_reclaimedCount = reclaimed, rr_skippedHeldCount = skipped, rr_source = source, rr_status = status\<rparr>
          | _ \<Rightarrow> None)
     | _ \<Rightarrow> None)"

section \<open>Reading the registry\<close>

definition normalize_entry :: "(string \<times> js) list \<Rightarrow> string \<Rightarrow> string \<Rightarrow> registry_entry" where
  "normalize_entry e alias timestamp = \<lparr>
     re_activeLeaseId = as_string (obj_get e ''activeLeaseId''),
     re_alias = alias,
     re_driftCauseCode = knownDriftCauseCode (as_string (obj_get e ''driftCauseCode'')),
     re_driftReason = as_string (obj_get e ''driftReason''),
     re_health = nullish (as_health (obj_get e ''health'')) Healthy,
     re_lastBootedAt = as_string (obj_get e ''lastBootedAt''),
     re_lastErasedAt = as_string (obj_get e ''lastErasedAt''),
     re_lastLeaseReleasedAt = as_string (obj_get e ''lastLeaseReleasedAt''),
     re_lastLeaseStartedAt = as_string (obj_get e ''lastLeaseStartedAt''),
     re_leasesSinceErase = nullish (normalizeNonNegativeInteger (obj_get e ''leasesSinceErase'')) 0,
     re_lastRepairedAt = as_string (obj_get e ''lastRepairedAt''),
     re_lastShutdownAt = as_string (obj_get e ''lastShutdownAt''),
     re_pinId = as_string (obj_get e ''pinId''),
     re_powerState = nullish (as_power (obj_get e ''powerState'')) Shutdown,
     re_updatedAt = nullish (as_string (obj_get e ''updatedAt'')) timestamp\<rparr>"

text \<open>\<open>rawRegistry.idle?.lastCleanupResult\<close>\<close>

definition nested :: "(string \<times> js) list \<Rightarrow> string \<Rightarrow> string \<Rightarrow> js option" where
  "nested kvs outer inner = (case obj_get kvs outer of Some (JObj obj) \<Rightarrow> obj_get obj inner | _ \<Rightarrow> None)"

definition normalizeRegistry :: "js option \<Rightarrow> host_config \<Rightarrow> string \<Rightarrow> berr + registry" where
  "normalizeRegistry rawRegistry hostConfig timestamp =
    seq (if js_nullish rawRegistry then Inr [(''aliases'', JObj []), (''version'', JInt 1)]
         else members (the rawRegistry)) (\<lambda>raw.
    seq (validateVersion (obj_get raw ''version'') 1 ''registry'') (\<lambda>_.
    seq (requireObject (obj_get raw ''aliases'') ''registry.aliases'') (\<lambda>rawAliases.
    seq (map_seq (\<lambda>a.
           seq (case obj_get rawAliases (ha_alias a) of None \<Rightarrow> Inr [] | Some entry \<Rightarrow> members entry) (\<lambda>e.
             Inr (ha_alias a, normalize_entry e (ha_alias a) timestamp))) (hc_aliases hostConfig)) (\<lambda>aliases.
      Inr \<lparr>rg_aliases = map_get aliases,
        rg_lastCleanupResult = normalizeIdleCleanupResult (nested raw ''idle'' ''lastCleanupResult''),
        rg_lastReclaimResult = normalizeSlotReclaimResult (nested raw ''slotReclaim'' ''lastReclaimResult''),
        rg_updatedAt = timestamp\<rparr>))))"

definition assertValidPersistedRegistry :: "js option \<Rightarrow> host_config \<Rightarrow> berr + unit" where
  "assertValidPersistedRegistry rawRegistry hostConfig =
    seq (requireObject rawRegistry ''registry'') (\<lambda>raw.
    seq (requireObject (obj_get raw ''aliases'') ''registry.aliases'') (\<lambda>rawAliases.
      if hc_aliases hostConfig \<noteq> []
         \<and> \<not> list_ex (\<lambda>a. obj_get rawAliases (ha_alias a) \<noteq> None) (hc_aliases hostConfig)
      then Inl (config_err ''registry.aliases must include at least one configured host alias.'' ''registry.aliases'')
      else seq (map_seq (\<lambda>a.
             if obj_get rawAliases (ha_alias a) = None then Inr ()
             else let fieldPrefix = ''registry.aliases.'' @ ha_alias a in
               seq (requireObject (obj_get rawAliases (ha_alias a)) fieldPrefix) (\<lambda>entry.
                 if obj_get entry ''health'' \<noteq> None \<and> as_health (obj_get entry ''health'') = None
                 then Inl (config_err (fieldPrefix
                        @ ''.health must be one of healthy, state-drift, repair-needed, repairing.'')
                        (fieldPrefix @ ''.health''))
                 else if obj_get entry ''powerState'' \<noteq> None \<and> as_power (obj_get entry ''powerState'') = None
                 then Inl (config_err (fieldPrefix @ ''.powerState must be one of shutdown, booted.'')
                        (fieldPrefix @ ''.powerState''))
                 else Inr ())) (hc_aliases hostConfig)) (\<lambda>_. Inr ())))"

section \<open>Known projects\<close>

record known_project =
  kp_lastObservedAt :: string
  kp_projectFilePath :: string
  kp_projectId :: string
  kp_projectName :: string
  kp_purposes :: "purpose list"
  kp_repoRoot :: string

record known_projects =
  kn_projects :: "(string \<times> known_project) list"
  kn_updatedAt :: string

fun check_known_purposes :: "string \<Rightarrow> purpose list \<Rightarrow> string list \<Rightarrow> berr + unit" where
  "check_known_purposes fieldPrefix [] purposeIds = Inr ()"
| "check_known_purposes fieldPrefix (p # ps) purposeIds =
     (if pu_id p \<in> set purposeIds
      then Inl (config_err (''Duplicate purpose '' @ pu_id p @ '' in '' @ fieldPrefix @ ''.purposes.'')
             (fieldPrefix @ ''.purposes''))
      else check_known_purposes fieldPrefix ps (pu_id p # purposeIds))"

definition validateKnownProject :: "string \<Rightarrow> js \<Rightarrow> string \<Rightarrow> berr + known_project" where
  "validateKnownProject projectId rawProject timestamp =
    (let fieldPrefix = ''known-projects.projects.'' @ projectId in
     seq (requireObject (Some rawProject) fieldPrefix) (\<lambda>project.
     seq (requireArray (obj_get project ''purposes'') (fieldPrefix @ ''.purposes'')) (\<lambda>xs.
     seq (map_seq (\<lambda>(i, p). validateProjectPurpose p (indexed_field (fieldPrefix @ ''.purposes'') i)) (indexed xs)) (\<lambda>purposes.
     seq (check_known_purposes fieldPrefix purposes []) (\<lambda>_.
     seq (requireString (obj_get project ''projectId'') (fieldPrefix @ ''.projectId'')) (\<lambda>recordProjectId.
       if recordProjectId \<noteq> projectId
       then Inl (config_err (fieldPrefix @ ''.projectId must equal the catalog key.'') (fieldPrefix @ ''.projectId''))
       else
         seq (requireString (obj_get project ''projectFilePath'') (fieldPrefix @ ''.projectFilePath'')) (\<lambda>file.
         seq (requireString (obj_get project ''projectName'') (fieldPrefix @ ''.projectName'')) (\<lambda>name.
         seq (requireString (obj_get project ''repoRoot'') (fieldPrefix @ ''.repoRoot'')) (\<lambda>root.
           Inr \<lparr>kp_lastObservedAt = nullish (as_string (obj_get project ''lastObservedAt'')) timestamp,
             kp_projectFilePath = file, kp_projectId = recordProjectId, kp_projectName = name,
             kp_purposes = purposes, kp_repoRoot = root\<rparr>)))))))))"

definition normalizeKnownProjects :: "js option \<Rightarrow> string \<Rightarrow> berr + known_projects" where
  "normalizeKnownProjects rawKnownProjects timestamp =
    seq (if js_nullish rawKnownProjects
         then Inr [(''projects'', JObj []), (''updatedAt'', JStr timestamp), (''version'', JInt 1)]
         else members (the rawKnownProjects)) (\<lambda>raw.
    seq (validateVersion (obj_get raw ''version'') 1 ''known-projects'') (\<lambda>_.
    seq (requireObject (obj_get raw ''projects'') ''known-projects.projects'') (\<lambda>rawProjects.
    seq (map_seq (\<lambda>(k, v). map_sum id (Pair k) (validateKnownProject k v timestamp)) rawProjects) (\<lambda>projects.
      Inr \<lparr>kn_projects = projects, kn_updatedAt = nullish (as_string (obj_get raw ''updatedAt'')) timestamp\<rparr>))))"

section \<open>Updates of an entry\<close>

definition slotReclaimStatus :: "int \<Rightarrow> int \<Rightarrow> string" where
  "slotReclaimStatus reclaimedCount failureCount =
    (if 0 < failureCount \<and> 0 < reclaimedCount then ''partial''
     else if 0 < failureCount then ''failed''
     else if 0 < reclaimedCount then ''reclaimed''
     else ''no_changes'')"

text \<open>\<open>leasesSinceErase\<close> is an integer of a typed entry; a negative one counts as 0.\<close>

definition incrementLeasesSinceErase :: "registry_entry \<Rightarrow> registry_entry" where
  "incrementLeasesSinceErase e =
     e\<lparr>re_leasesSinceErase := nullish (normalizeNonNegativeInteger (Some (JInt (re_leasesSinceErase e)))) 0 + 1\<rparr>"

definition resetLeasesSinceErase :: "registry_entry \<Rightarrow> registry_entry" where
  "resetLeasesSinceErase e = e\<lparr>re_leasesSinceErase := 0\<rparr>"

definition markAliasLeaseReleased :: "string \<Rightarrow> registry_entry \<Rightarrow> registry_entry" where
  "markAliasLeaseReleased timestamp e =
     (incrementLeasesSinceErase (e\<lparr>re_activeLeaseId := None, re_lastLeaseReleasedAt := Some timestamp\<rparr>))
       \<lparr>re_updatedAt := timestamp\<rparr>"

definition preserveSlotReclaimFailure :: "registry_entry \<Rightarrow> string \<Rightarrow> string" where
  "preserveSlotReclaimFailure e replacement =
    (if re_driftReason e = Some ''slot-reclaim-failed'' then ''slot-reclaim-failed'' else replacement)"

definition slotReclaimBlockedByRepair :: "registry_entry \<Rightarrow> bool" where
  "slotReclaimBlockedByRepair e =
    (re_health e = Repair_needed \<or> re_health e = Repairing \<or> re_driftReason e = Some ''slot-reclaim-failed'')"

text \<open>\<open>registryEntry.x = \<dots>\<close> for the entry of an alias; the functions that take a missing entry
  (\<open>if (!registryEntry) return\<close>) leave the registry as it is.\<close>

definition update_entry :: "string \<Rightarrow> (registry_entry \<Rightarrow> registry_entry) \<Rightarrow> registry \<Rightarrow> registry" where
  "update_entry a f r = r\<lparr>rg_aliases := (rg_aliases r)(a := map_option f (rg_aliases r a))\<rparr>"

section \<open>Synchronisation with the simulators\<close>

definition sync_entry :: "(string \<times> device_info) list \<Rightarrow> host_alias \<Rightarrow> registry_entry \<Rightarrow> registry_entry" where
  "sync_entry deviceIndex hostAlias e =
    (let missing = (\<lambda>reason. e\<lparr>re_health := Repair_needed,
           re_driftReason := Some (preserveSlotReclaimFailure e reason), re_powerState := Shutdown\<rparr>)
     in case map_get deviceIndex (ha_simulatorId hostAlias) of
       None \<Rightarrow> missing ''simulator-missing''
     | Some d \<Rightarrow>
        if \<not> di_isAvailable d then missing ''simulator-unavailable''
        else (let pw = (if di_state d = ''Booted'' then Booted else Shutdown) in
          if di_deviceFamily d \<noteq> Some (ha_deviceFamily hostAlias)
             \<or> \<not> iosVersionSatisfies (nullish (di_runtimeVersion d) []) (Some (ha_iosVersion hostAlias))
          then e\<lparr>re_health := Repair_needed,
                 re_driftReason := Some (preserveSlotReclaimFailure e ''simulator-config-mismatch''),
                 re_powerState := pw\<rparr>
          else (let e = e\<lparr>re_powerState := pw\<rparr> in
            if re_driftReason e = Some ''slot-reclaim-failed'' then e\<lparr>re_health := Repair_needed\<rparr>
            else if re_health e = Repairing
            then e\<lparr>re_health := Repair_needed,
                   re_driftReason := Some (nullish (re_driftReason e) ''repair-interrupted'')\<rparr>
            else if re_health e = Healthy \<or> re_health e = State_drift
            then e\<lparr>re_health := Healthy, re_driftReason := None, re_driftCauseCode := None\<rparr>
            else e)))"

fun sync_aliases :: "(string \<times> device_info) list \<Rightarrow> host_alias list \<Rightarrow> registry \<Rightarrow> berr + registry" where
  "sync_aliases deviceIndex [] r = Inr r"
| "sync_aliases deviceIndex (h # hs) r =
     (case rg_aliases r (ha_alias h) of
        None \<Rightarrow> Inl type_error
      | Some _ \<Rightarrow> sync_aliases deviceIndex hs (update_entry (ha_alias h) (sync_entry deviceIndex h) r))"

definition syncRegistryWithSimctl :: "inventory \<Rightarrow> host_config \<Rightarrow> registry \<Rightarrow> berr + registry" where
  "syncRegistryWithSimctl iv hostConfig r = sync_aliases (createDeviceIndex iv) (hc_aliases hostConfig) r"

section \<open>What the broker writes\<close>

definition opt_field :: "string \<Rightarrow> string option \<Rightarrow> string \<times> js" where
  "opt_field k v = (k, opt_str v)"

definition entry_json :: "registry_entry \<Rightarrow> js" where
  "entry_json e = JObj
    [opt_field ''activeLeaseId'' (re_activeLeaseId e), (''alias'', JStr (re_alias e)),
     opt_field ''driftCauseCode'' (re_driftCauseCode e), opt_field ''driftReason'' (re_driftReason e),
     (''health'', JStr (health_text (re_health e))), opt_field ''lastBootedAt'' (re_lastBootedAt e),
     opt_field ''lastErasedAt'' (re_lastErasedAt e), opt_field ''lastLeaseReleasedAt'' (re_lastLeaseReleasedAt e),
     opt_field ''lastLeaseStartedAt'' (re_lastLeaseStartedAt e),
     (''leasesSinceErase'', JInt (re_leasesSinceErase e)),
     opt_field ''lastRepairedAt'' (re_lastRepairedAt e), opt_field ''lastShutdownAt'' (re_lastShutdownAt e),
     opt_field ''pinId'' (re_pinId e), (''powerState'', JStr (power_text (re_powerState e))),
     (''updatedAt'', JStr (re_updatedAt e))]"

definition cleanup_json :: "cleanup_result option \<Rightarrow> js" where
  "cleanup_json r = (case r of None \<Rightarrow> JNull | Some c \<Rightarrow> JObj
    [(''completedAt'', JStr (cr_completedAt c)), (''eligibleCount'', JInt (cr_eligibleCount c)),
     (''failureCount'', JInt (cr_failureCount c)), (''shutdownCount'', JInt (cr_shutdownCount c)),
     (''source'', JStr (cr_source c)), (''status'', JStr (cr_status c))])"

definition reclaim_json :: "reclaim_result option \<Rightarrow> js" where
  "reclaim_json r = (case r of None \<Rightarrow> JNull | Some c \<Rightarrow> JObj
    [(''completedAt'', JStr (rr_completedAt c)), (''eligibleCount'', JInt (rr_eligibleCount c)),
     (''failureCount'', JInt (rr_failureCount c)), (''reclaimedCount'', JInt (rr_reclaimedCount c)),
     (''skippedHeldCount'', JInt (rr_skippedHeldCount c)), (''source'', JStr (rr_source c)),
     (''status'', JStr (rr_status c))])"

text \<open>\<open>ks\<close> are the keys of \<open>registry.aliases\<close> in their order.\<close>

definition registry_json :: "string list \<Rightarrow> registry \<Rightarrow> js" where
  "registry_json ks r = JObj
    [(''aliases'', JObj (map (\<lambda>k. (k, entry_json (the (rg_aliases r k)))) ks)),
     (''idle'', JObj [(''lastCleanupResult'', cleanup_json (rg_lastCleanupResult r))]),
     (''slotReclaim'', JObj [(''lastReclaimResult'', reclaim_json (rg_lastReclaimResult r))]),
     (''updatedAt'', JStr (rg_updatedAt r)), (''version'', JInt 1)]"

section \<open>Well-formed registries\<close>

definition wf_entry :: "string \<Rightarrow> registry_entry \<Rightarrow> bool" where
  "wf_entry a e \<longleftrightarrow> re_alias e = a \<and> 0 \<le> re_leasesSinceErase e
     \<and> (\<forall>c\<in>set_option (re_driftCauseCode e). c \<in> set known_drift_cause_codes)"

definition wf_cleanup :: "cleanup_result \<Rightarrow> bool" where
  "wf_cleanup c \<longleftrightarrow> cr_completedAt c \<noteq> [] \<and> cr_source c \<noteq> [] \<and> cr_status c \<noteq> []
     \<and> 0 \<le> cr_eligibleCount c \<and> 0 \<le> cr_failureCount c \<and> 0 \<le> cr_shutdownCount c"

definition wf_reclaim :: "reclaim_result \<Rightarrow> bool" where
  "wf_reclaim c \<longleftrightarrow> rr_completedAt c \<noteq> [] \<and> rr_source c \<noteq> [] \<and> rr_status c \<noteq> []
     \<and> 0 \<le> rr_eligibleCount c \<and> 0 \<le> rr_failureCount c \<and> 0 \<le> rr_reclaimedCount c \<and> 0 \<le> rr_skippedHeldCount c"

definition wf_registry :: "host_config \<Rightarrow> registry \<Rightarrow> bool" where
  "wf_registry hc r \<longleftrightarrow> dom (rg_aliases r) = ha_alias ` set (hc_aliases hc)
     \<and> (\<forall>a e. rg_aliases r a = Some e \<longrightarrow> wf_entry a e)
     \<and> pred_option wf_cleanup (rg_lastCleanupResult r) \<and> pred_option wf_reclaim (rg_lastReclaimResult r)"

section \<open>Lemmas\<close>

lemma nonneg_int [simp]: "normalizeNonNegativeInteger (Some (JInt n)) = (if 0 \<le> n then Some n else None)"
  by (simp add: normalizeNonNegativeInteger_def js_number_def)

lemma as_string_simps [simp]:
  "as_string (Some (JStr s)) = Some s" "as_string (Some (opt_str t)) = t" "as_string None = None"
  by (auto simp: as_string_def opt_str_def split: option.splits)

lemma as_health_text [simp]: "as_health (Some (JStr (health_text h))) = Some h"
  by (cases h) (auto simp: as_health_def)

lemma as_power_text [simp]: "as_power (Some (JStr (power_text p))) = Some p"
  by (cases p) (auto simp: as_power_def)

lemma knownDriftCauseCode_cases:
  "knownDriftCauseCode r = Some c \<longleftrightarrow> r = Some c \<and> c \<in> set known_drift_cause_codes"
  by (auto simp: knownDriftCauseCode_def in_codes_def split: option.splits)

lemma members_Inr_JObj [simp]: "members (JObj kvs) = Inr kvs"
  by (simp add: members_def)

lemma normalizeNonNegativeInteger_nonneg: "normalizeNonNegativeInteger v = Some n \<Longrightarrow> 0 \<le> n"
  by (auto simp: normalizeNonNegativeInteger_def split: if_splits option.splits)

lemma normalize_entry_wf: "wf_entry a (normalize_entry e a t)"
  by (auto simp: wf_entry_def normalize_entry_def nullish_def knownDriftCauseCode_cases
      dest: normalizeNonNegativeInteger_nonneg split: option.splits)

lemma entry_json_members:
  "wf_entry a e \<Longrightarrow> \<exists>kvs. entry_json e = JObj kvs \<and> normalize_entry kvs a t = e"
proof -
  assume wf: "wf_entry a e"
  then have "knownDriftCauseCode (re_driftCauseCode e) = re_driftCauseCode e"
    by (auto simp: wf_entry_def knownDriftCauseCode_def in_codes_def split: option.splits)
  with wf show ?thesis
    by (simp add: entry_json_def normalize_entry_def opt_field_def obj_get_def wf_entry_def)
qed

lemma text_field_written [simp]: "map_of kvs k = Some (JStr s) \<Longrightarrow> s \<noteq> [] \<Longrightarrow> text_field kvs k = Some s"
  by (simp add: text_field_def obj_get_def)

lemma cleanup_written: "pred_option wf_cleanup r \<Longrightarrow> normalizeIdleCleanupResult (Some (cleanup_json r)) = r"
  by (cases r) (simp_all add: normalizeIdleCleanupResult_def cleanup_json_def wf_cleanup_def count_field_def obj_get_def)

lemma reclaim_written: "pred_option wf_reclaim r \<Longrightarrow> normalizeSlotReclaimResult (Some (reclaim_json r)) = r"
  by (cases r) (simp_all add: normalizeSlotReclaimResult_def reclaim_json_def wf_reclaim_def count_field_def obj_get_def)

lemma text_field_nonempty: "text_field kvs k = Some s \<Longrightarrow> s \<noteq> []"
  by (auto simp: text_field_def split: option.splits if_splits)

lemma count_field_nonneg: "count_field kvs k = Some n \<Longrightarrow> 0 \<le> n"
  by (auto simp: count_field_def intro: normalizeNonNegativeInteger_nonneg)

lemma normalizeIdleCleanupResult_wf: "pred_option wf_cleanup (normalizeIdleCleanupResult v)"
  by (auto simp: normalizeIdleCleanupResult_def wf_cleanup_def split: option.splits js.splits
      dest: text_field_nonempty count_field_nonneg)

lemma normalizeSlotReclaimResult_wf: "pred_option wf_reclaim (normalizeSlotReclaimResult v)"
  by (auto simp: normalizeSlotReclaimResult_def wf_reclaim_def split: option.splits js.splits
      dest: text_field_nonempty count_field_nonneg)

lemma map_of_json_list: "k \<in> set ks \<Longrightarrow> map_of (map (\<lambda>k. (k, f k)) ks) k = Some (f k)"
  by (induction ks) auto

lemma update_entry_simps [simp]:
  "rg_aliases (update_entry a f r) b = (if b = a then map_option f (rg_aliases r a) else rg_aliases r b)"
  "rg_lastCleanupResult (update_entry a f r) = rg_lastCleanupResult r"
  "rg_lastReclaimResult (update_entry a f r) = rg_lastReclaimResult r"
  "rg_updatedAt (update_entry a f r) = rg_updatedAt r"
  by (simp_all add: update_entry_def)

lemma update_entry_wf:
  "wf_registry hc r \<Longrightarrow> (\<And>e. wf_entry a e \<Longrightarrow> wf_entry a (f e)) \<Longrightarrow> wf_registry hc (update_entry a f r)"
  by (auto simp: wf_registry_def update_entry_def split: if_splits)

text \<open>What the updates leave alone.\<close>

lemma sync_entry_frame [entry_simps]:
  "re_activeLeaseId (sync_entry ix h e) = re_activeLeaseId e" "re_alias (sync_entry ix h e) = re_alias e"
  "re_pinId (sync_entry ix h e) = re_pinId e" "re_leasesSinceErase (sync_entry ix h e) = re_leasesSinceErase e"
  "re_lastErasedAt (sync_entry ix h e) = re_lastErasedAt e"
  "re_lastLeaseReleasedAt (sync_entry ix h e) = re_lastLeaseReleasedAt e"
  "re_lastLeaseStartedAt (sync_entry ix h e) = re_lastLeaseStartedAt e"
  "re_lastBootedAt (sync_entry ix h e) = re_lastBootedAt e"
  by (auto simp: sync_entry_def Let_def split: option.splits)

lemma markAliasLeaseReleased_frame [entry_simps]:
  "re_activeLeaseId (markAliasLeaseReleased t e) = None" "re_alias (markAliasLeaseReleased t e) = re_alias e"
  "re_pinId (markAliasLeaseReleased t e) = re_pinId e" "re_health (markAliasLeaseReleased t e) = re_health e"
  "re_lastLeaseReleasedAt (markAliasLeaseReleased t e) = Some t"
  "re_powerState (markAliasLeaseReleased t e) = re_powerState e"
  by (simp_all add: markAliasLeaseReleased_def incrementLeasesSinceErase_def)

lemma sync_entry_wf: "wf_entry a e \<Longrightarrow> wf_entry a (sync_entry ix h e)"
  by (auto simp: wf_entry_def sync_entry_def Let_def split: option.splits)

lemma markAliasLeaseReleased_wf: "wf_entry a e \<Longrightarrow> wf_entry a (markAliasLeaseReleased t e)"
  by (auto simp: wf_entry_def markAliasLeaseReleased_def incrementLeasesSinceErase_def nullish_def)

lemma sync_entry_idem: "sync_entry ix h (sync_entry ix h e) = sync_entry ix h e"
proof (cases "map_get ix (ha_simulatorId h)")
  case None
  then show ?thesis by (simp add: sync_entry_def Let_def preserveSlotReclaimFailure_def)
next
  case (Some d)
  show ?thesis
  proof (cases "di_isAvailable d \<and> di_deviceFamily d = Some (ha_deviceFamily h)
      \<and> iosVersionSatisfies (nullish (di_runtimeVersion d) []) (Some (ha_iosVersion h))")
    case True
    with Some show ?thesis by (cases "re_health e") (simp_all add: sync_entry_def Let_def)
  next
    case False
    with Some show ?thesis by (auto simp: sync_entry_def Let_def preserveSlotReclaimFailure_def)
  qed
qed

lemma sync_aliases_Inr:
  assumes "distinct (map ha_alias hs)" "ha_alias ` set hs \<subseteq> dom (rg_aliases r)"
  shows "\<exists>r'. sync_aliases ix hs r = Inr r'
    \<and> (\<forall>h\<in>set hs. rg_aliases r' (ha_alias h) = map_option (sync_entry ix h) (rg_aliases r (ha_alias h)))
    \<and> (\<forall>a. a \<notin> ha_alias ` set hs \<longrightarrow> rg_aliases r' a = rg_aliases r a)
    \<and> rg_lastCleanupResult r' = rg_lastCleanupResult r \<and> rg_lastReclaimResult r' = rg_lastReclaimResult r
    \<and> rg_updatedAt r' = rg_updatedAt r"
  using assms
proof (induction hs arbitrary: r)
  case Nil
  then show ?case by simp
next
  case (Cons h hs)
  let ?r = "update_entry (ha_alias h) (sync_entry ix h) r"
  from Cons.prems obtain e where e: "rg_aliases r (ha_alias h) = Some e" by auto
  from Cons.prems have d: "distinct (map ha_alias hs)" "ha_alias ` set hs \<subseteq> dom (rg_aliases ?r)"
    by (auto simp: dom_def)
  from Cons.IH [OF d] obtain r' where r': "sync_aliases ix hs ?r = Inr r'"
    "\<forall>k\<in>set hs. rg_aliases r' (ha_alias k) = map_option (sync_entry ix k) (rg_aliases ?r (ha_alias k))"
    "\<forall>a. a \<notin> ha_alias ` set hs \<longrightarrow> rg_aliases r' a = rg_aliases ?r a"
    "rg_lastCleanupResult r' = rg_lastCleanupResult r \<and> rg_lastReclaimResult r' = rg_lastReclaimResult r
     \<and> rg_updatedAt r' = rg_updatedAt r"
    by auto
  with e Cons.prems(1) show ?case by (intro exI [of _ r']) (auto simp: image_iff)
qed

lemma syncRegistry_Inr:
  assumes "distinct (map ha_alias (hc_aliases hc))" "wf_registry hc r"
  shows "\<exists>r'. syncRegistryWithSimctl iv hc r = Inr r' \<and> wf_registry hc r'
    \<and> (\<forall>h\<in>set (hc_aliases hc). rg_aliases r' (ha_alias h)
         = map_option (sync_entry (createDeviceIndex iv) h) (rg_aliases r (ha_alias h)))
    \<and> rg_updatedAt r' = rg_updatedAt r"
proof -
  have dom: "ha_alias ` set (hc_aliases hc) \<subseteq> dom (rg_aliases r)"
    using assms(2) by (simp add: wf_registry_def)
  from sync_aliases_Inr [OF assms(1) dom, of "createDeviceIndex iv"] obtain r' where
    r': "sync_aliases (createDeviceIndex iv) (hc_aliases hc) r = Inr r'"
    "\<forall>h\<in>set (hc_aliases hc). rg_aliases r' (ha_alias h)
       = map_option (sync_entry (createDeviceIndex iv) h) (rg_aliases r (ha_alias h))"
    "\<forall>a. a \<notin> ha_alias ` set (hc_aliases hc) \<longrightarrow> rg_aliases r' a = rg_aliases r a"
    "rg_lastCleanupResult r' = rg_lastCleanupResult r" "rg_lastReclaimResult r' = rg_lastReclaimResult r"
    "rg_updatedAt r' = rg_updatedAt r"
    by auto
  have "rg_aliases r' a = None \<longleftrightarrow> rg_aliases r a = None" for a
    using r'(2,3) by (cases "a \<in> ha_alias ` set (hc_aliases hc)") auto
  then have "dom (rg_aliases r') = dom (rg_aliases r)" by (simp add: dom_def)
  moreover have "wf_entry a e" if "rg_aliases r' a = Some e" for a e
    using that r'(2,3) assms(2) by (cases "a \<in> ha_alias ` set (hc_aliases hc)")
      (auto simp: wf_registry_def intro!: sync_entry_wf)
  ultimately show ?thesis
    using r' assms(2) by (auto simp: syncRegistryWithSimctl_def wf_registry_def)
qed

lemma dom_map_get: "dom (map_get ps) = fst ` set ps"
  by (auto simp: dom_def map_get_None_iff simp flip: not_None_eq)

lemma map_get_zip:
  assumes "list_all2 (\<lambda>a p. fst p = k a \<and> P a (snd p)) as ps" "distinct (map k as)" "a \<in> set as"
  shows "\<exists>v. map_get ps (k a) = Some v \<and> P a v"
proof -
  have "map fst ps = map k as" using assms(1) by (induction rule: list_all2_induct) auto
  with assms(2) have d: "distinct (map fst ps)" by simp
  from assms(1,3) obtain p where "p \<in> set ps" "fst p = k a" "P a (snd p)"
    by (induction rule: list_all2_induct) auto
  with d show ?thesis by (cases p) (auto intro: map_get_distinct)
qed

lemma normalizeRegistry_wf:
  assumes "normalizeRegistry v hc t = Inr r" "distinct (map ha_alias (hc_aliases hc))"
  shows "wf_registry hc r \<and> rg_updatedAt r = t"
proof -
  let ?P = "\<lambda>a e. wf_entry (ha_alias a) e"
  from assms(1) obtain raw rawAliases ps where
    ps: "map_seq (\<lambda>a. seq (case obj_get rawAliases (ha_alias a) of None \<Rightarrow> Inr [] | Some entry \<Rightarrow> members entry)
           (\<lambda>e. Inr (ha_alias a, normalize_entry e (ha_alias a) t))) (hc_aliases hc) = Inr ps"
    and r: "r = \<lparr>rg_aliases = map_get ps,
        rg_lastCleanupResult = normalizeIdleCleanupResult (nested raw ''idle'' ''lastCleanupResult''),
        rg_lastReclaimResult = normalizeSlotReclaimResult (nested raw ''slotReclaim'' ''lastReclaimResult''),
        rg_updatedAt = t\<rparr>"
    by (auto simp: normalizeRegistry_def seq_Inr_iff)
  have l: "list_all2 (\<lambda>a p. fst p = ha_alias a \<and> ?P a (snd p)) (hc_aliases hc) ps"
    by (rule list_all2_mono [OF map_seq_Inr [OF ps]]) (auto simp: seq_Inr_iff normalize_entry_wf)
  then have fst: "map fst ps = map ha_alias (hc_aliases hc)"
    by (induction rule: list_all2_induct) auto
  have "dom (map_get ps) = ha_alias ` set (hc_aliases hc)"
    using arg_cong [OF fst, of set] by (simp add: dom_map_get)
  moreover have "wf_entry a e" if "map_get ps a = Some e" for a e
  proof -
    from that have "a \<in> set (map fst ps)" by (force dest: map_get_SomeD)
    with fst obtain h where "h \<in> set (hc_aliases hc)" "a = ha_alias h" by auto
    with map_get_zip [OF l assms(2) this(1)] that show ?thesis by auto
  qed
  ultimately show ?thesis
    by (simp add: r wf_registry_def normalizeIdleCleanupResult_wf normalizeSlotReclaimResult_wf)
qed

lemma read_written_registry:
  assumes "wf_registry hc r" "distinct (map ha_alias (hc_aliases hc))"
  shows "normalizeRegistry (Some (registry_json (map ha_alias (hc_aliases hc)) r)) hc t = Inr (r\<lparr>rg_updatedAt := t\<rparr>)"
proof -
  let ?ks = "map ha_alias (hc_aliases hc)"
  let ?raw = "map (\<lambda>k. (k, entry_json (the (rg_aliases r k)))) ?ks"
  let ?f = "\<lambda>a. seq (case obj_get ?raw (ha_alias a) of None \<Rightarrow> Inr [] | Some entry \<Rightarrow> members entry)
    (\<lambda>e. Inr (ha_alias a, normalize_entry e (ha_alias a) t)) :: berr + string \<times> registry_entry"
  let ?ps = "map (\<lambda>a. (ha_alias a, the (rg_aliases r (ha_alias a)))) (hc_aliases hc)"
  have "?f a = Inr (ha_alias a, the (rg_aliases r (ha_alias a)))" if a: "a \<in> set (hc_aliases hc)" for a
  proof -
    from a assms(1) obtain e where e: "rg_aliases r (ha_alias a) = Some e" "wf_entry (ha_alias a) e"
      unfolding wf_registry_def by (metis (no_types, lifting) domD imageI)
    moreover have "obj_get ?raw (ha_alias a) = Some (entry_json (the (rg_aliases r (ha_alias a))))"
      unfolding obj_get_def by (rule map_of_json_list) (use a in simp)
    ultimately show ?thesis using entry_json_members [OF e(2), of t] by auto
  qed
  then have "map_seq ?f (hc_aliases hc) = Inr ?ps" by (rule map_seq_all_Inr)
  moreover have "map_get ?ps = rg_aliases r"
  proof
    fix a
    show "map_get ?ps a = rg_aliases r a"
    proof (cases "a \<in> ha_alias ` set (hc_aliases hc)")
      case True
      then have "map_get ?ps a = Some (the (rg_aliases r a))"
        using assms(2) by (intro map_get_distinct) (auto simp: comp_def)
      with True assms(1) show ?thesis unfolding wf_registry_def by (metis domIff option.exhaust_sel)
    next
      case False
      then have "map_get ?ps a = None" by (auto simp: map_get_None_iff image_iff)
      with False assms(1) show ?thesis unfolding wf_registry_def by (metis domIff)
    qed
  qed
  ultimately show ?thesis
    using assms(1)
    by (simp add: normalizeRegistry_def registry_json_def js_nullish_def validateVersion_def requireObject_def
        obj_get_def nested_def cleanup_written reclaim_written wf_registry_def)
qed

section \<open>Properties\<close>

text \<open>Reading the registry file gives an entry for exactly the configured aliases, each under its own
  name, with a non-negative lease count and a known drift cause, whatever the file held.\<close>

theorem normalizeRegistry_well_formed:
  assumes "normalizeRegistry v hc t = Inr r" "distinct (map ha_alias (hc_aliases hc))"
  shows "wf_registry hc r \<and> rg_updatedAt r = t"
  using assms by (rule normalizeRegistry_wf)

theorem normalizeRegistry_well_formed_witness:
  "\<exists>r. normalizeRegistry None sample_host_config ''t'' = Inr r \<and> wf_registry sample_host_config r"
proof -
  have "\<exists>r. normalizeRegistry None sample_host_config ''t'' = Inr r"
    by (simp add: normalizeRegistry_def sample_host_config_def js_nullish_def validateVersion_def
        requireObject_def obj_get_def)
  moreover have "distinct (map ha_alias (hc_aliases sample_host_config))"
    by (simp add: sample_host_config_def)
  ultimately show ?thesis using normalizeRegistry_well_formed by blast
qed

text \<open>A written registry is read back as it was, with the time of the reading: no mutation of the
  in-memory registry is lost between two commands.\<close>

theorem registry_roundtrip:
  assumes "wf_registry hc r" "distinct (map ha_alias (hc_aliases hc))"
  shows "normalizeRegistry (Some (registry_json (map ha_alias (hc_aliases hc)) r)) hc t = Inr (r\<lparr>rg_updatedAt := t\<rparr>)"
  using assms by (rule read_written_registry)

definition sample_registry :: registry where
  "sample_registry = \<lparr>rg_aliases = [''build-a'' \<mapsto> normalize_entry [] ''build-a'' ''t''],
     rg_lastCleanupResult = None, rg_lastReclaimResult = None, rg_updatedAt = ''t''\<rparr>"

lemma sample_registry_wf:
  "wf_registry sample_host_config sample_registry" "distinct (map ha_alias (hc_aliases sample_host_config))"
  by (auto simp: wf_registry_def sample_registry_def sample_host_config_def normalize_entry_wf split: if_splits)

theorem registry_roundtrip_witness:
  "normalizeRegistry (Some (registry_json (map ha_alias (hc_aliases sample_host_config)) sample_registry))
     sample_host_config ''now'' = Inr (sample_registry\<lparr>rg_updatedAt := ''now''\<rparr>)"
  by (rule registry_roundtrip [OF sample_registry_wf])

text \<open>After the synchronisation an alias is healthy exactly when it was healthy or drifted, is not
  latched by a failed reclaim, and its simulator exists, is available and has the configured family and
  version; a latched or repair-needed alias stays so; a second synchronisation changes nothing; the
  lease and pin of the entry are untouched.\<close>

theorem sync_restores_only_matching_aliases:
  assumes "distinct (map ha_alias (hc_aliases hc))" "wf_registry hc r"
    and "h \<in> set (hc_aliases hc)" "rg_aliases r (ha_alias h) = Some e"
  shows "\<exists>r' e'. syncRegistryWithSimctl iv hc r = Inr r' \<and> rg_aliases r' (ha_alias h) = Some e'
    \<and> (re_health e' = Healthy \<longleftrightarrow>
         re_health e \<in> {Healthy, State_drift} \<and> re_driftReason e \<noteq> Some ''slot-reclaim-failed''
         \<and> (\<exists>d. map_get (createDeviceIndex iv) (ha_simulatorId h) = Some d \<and> di_isAvailable d
              \<and> di_deviceFamily d = Some (ha_deviceFamily h)
              \<and> iosVersionSatisfies (nullish (di_runtimeVersion d) []) (Some (ha_iosVersion h))))
    \<and> (re_driftReason e = Some ''slot-reclaim-failed'' \<longrightarrow> re_driftReason e' = Some ''slot-reclaim-failed'')
    \<and> re_activeLeaseId e' = re_activeLeaseId e \<and> re_pinId e' = re_pinId e
    \<and> sync_entry (createDeviceIndex iv) h e' = e'"
proof -
  let ?ix = "createDeviceIndex iv"
  from syncRegistry_Inr [OF assms(1,2), of iv] assms(3,4) obtain r' where
    r': "syncRegistryWithSimctl iv hc r = Inr r'" "rg_aliases r' (ha_alias h) = Some (sync_entry ?ix h e)"
    by auto
  have health: "re_health (sync_entry ?ix h e) = Healthy \<longleftrightarrow>
         re_health e \<in> {Healthy, State_drift} \<and> re_driftReason e \<noteq> Some ''slot-reclaim-failed''
         \<and> (\<exists>d. map_get ?ix (ha_simulatorId h) = Some d \<and> di_isAvailable d
              \<and> di_deviceFamily d = Some (ha_deviceFamily h)
              \<and> iosVersionSatisfies (nullish (di_runtimeVersion d) []) (Some (ha_iosVersion h)))"
    by (cases "re_health e") (auto simp: sync_entry_def Let_def split: option.splits)
  have latch: "re_driftReason (sync_entry ?ix h e) = Some ''slot-reclaim-failed''"
    if "re_driftReason e = Some ''slot-reclaim-failed''"
    using that by (auto simp: sync_entry_def Let_def preserveSlotReclaimFailure_def split: option.splits)
  show ?thesis
    by (intro exI [of _ r'] exI [of _ "sync_entry ?ix h e"] conjI impI)
      (rule r'(1), rule r'(2), rule health, rule latch, assumption, rule sync_entry_frame(1),
       rule sync_entry_frame(3), rule sync_entry_idem)
qed

theorem sync_restores_only_matching_aliases_witness:
  "\<exists>r'. syncRegistryWithSimctl \<lparr>iv_devices = [], iv_deviceTypes = [], iv_runtimes = []\<rparr>
      sample_host_config sample_registry = Inr r'
    \<and> (\<exists>e'. rg_aliases r' ''build-a'' = Some e' \<and> re_health e' \<noteq> Healthy)"
proof -
  let ?h = "hd (hc_aliases sample_host_config)"
  have h: "?h \<in> set (hc_aliases sample_host_config)"
    "rg_aliases sample_registry (ha_alias ?h) = Some (normalize_entry [] ''build-a'' ''t'')"
    "ha_alias ?h = ''build-a''"
    by (simp_all add: sample_host_config_def sample_registry_def)
  from sync_restores_only_matching_aliases [OF sample_registry_wf(2,1) h(1,2),
      of "\<lparr>iv_devices = [], iv_deviceTypes = [], iv_runtimes = []\<rparr>"] h(3)
  show ?thesis by (auto simp: createDeviceIndex_def map_get_def)
qed

end
