(* ===== verification/Selection.thy ===== *)
theory Selection
  imports Registry
begin

text \<open>
  Which alias a request gets (\<open>leaseMatchesPin\<close> to \<open>summarizePinOwner\<close>, \<open>getPurpose\<close> and
  \<open>aliasSnapshot\<close> in \<open>broker-core/index.mjs\<close>): every configured alias is checked against the purpose,
  the leases, the pins and the health of the registry; those without an objection are sorted by
  pin, power state and time of the last release, and the first one is taken.
\<close>

section \<open>Broker state\<close>

text \<open>What \<open>loadBrokerState\<close> returns.  \<open>leasesByAlias\<close> and \<open>pinsByAlias\<close> are the maps built from
  \<open>leases\<close> and \<open>pins\<close>, where the last record of an alias wins.\<close>

record broker_state =
  bs_host :: host_config
  bs_leases :: "lease list"
  bs_leasesByAlias :: "(string \<times> lease) list"
  bs_pins :: "pin list"
  bs_pinsByAlias :: "(string \<times> pin) list"
  bs_projects :: known_projects
  bs_registry :: registry

definition lease_on :: "broker_state \<Rightarrow> string \<Rightarrow> lease option" where
  "lease_on s a = map_get (bs_leasesByAlias s) a"

definition pin_on :: "broker_state \<Rightarrow> string \<Rightarrow> pin option" where
  "pin_on s a = map_get (bs_pinsByAlias s) a"

section \<open>Requirements\<close>

definition leaseMatchesPin :: "string \<Rightarrow> string option \<Rightarrow> string \<Rightarrow> string option \<Rightarrow> bool" where
  "leaseMatchesPin projectId purposeId pinProjectId pinPurposeId =
    (projectId = pinProjectId \<and> (pinPurposeId = None \<or> purposeId = pinPurposeId))"

definition satisfiesRequires :: "host_alias \<Rightarrow> requires option \<Rightarrow> bool" where
  "satisfiesRequires hostAlias requires =
    (case requires of
       None \<Rightarrow> True
     | Some r \<Rightarrow>
         if (case rq_deviceFamily r of None \<Rightarrow> False | Some f \<Rightarrow> f \<noteq> [] \<and> ha_deviceFamily hostAlias \<noteq> f) then False
         else if (case rq_iosVersion r of None \<Rightarrow> False
                  | Some v \<Rightarrow> v \<noteq> [] \<and> \<not> iosVersionSatisfies (ha_iosVersion hostAlias) (Some v)) then False
         else True)"

definition unknown_purpose :: "string option \<Rightarrow> berr" where
  "unknown_purpose purposeId = broker_err (''Unknown purpose '' @ nullish purposeId ''undefined'' @ ''.'') ''unknown-purpose''"

definition getPurpose :: "project_config \<Rightarrow> string option \<Rightarrow> berr + purpose" where
  "getPurpose projectConfig purposeId =
    (case List.find (\<lambda>p. Some (pu_id p) = purposeId) (pc_purposes projectConfig) of
       None \<Rightarrow> Inl (unknown_purpose purposeId)
     | Some p \<Rightarrow> Inr p)"

section \<open>Objections\<close>

datatype objection =
    Alias_not_requested
  | Capability_mismatch string
  | Requires_mismatch "requires option"
  | Pinned_for_other_project pin
  | Lease_conflict lease
  | Unhealthy_alias "string option" health

fun objection_code :: "objection \<Rightarrow> string" where
  "objection_code Alias_not_requested = ''alias-not-requested''"
| "objection_code (Capability_mismatch c) = ''capability-mismatch''"
| "objection_code (Requires_mismatch r) = ''requires-mismatch''"
| "objection_code (Pinned_for_other_project p) = ''pinned-for-other-project''"
| "objection_code (Lease_conflict l) = ''lease-conflict''"
| "objection_code (Unhealthy_alias d h) = ''unhealthy-alias''"

record candidate =
  ca_hostAlias :: host_alias
  ca_index :: nat
  ca_pin :: "pin option"
  ca_reasons :: "objection list"
  ca_entry :: registry_entry

definition unhealthy :: "registry_entry \<Rightarrow> bool" where
  "unhealthy e = (re_health e = Repair_needed \<or> re_health e = Repairing)"

text \<open>The reasons pushed for one alias, in the order of the checks.\<close>

definition objections ::
  "string list \<Rightarrow> broker_state \<Rightarrow> purpose \<Rightarrow> string option \<Rightarrow> host_alias \<Rightarrow> registry_entry \<Rightarrow> objection list" where
  "objections allowedPinnedAliases s purpose explicitAlias h e =
    (if explicitAlias \<noteq> None \<and> explicitAlias \<noteq> Some [] \<and> explicitAlias \<noteq> Some (ha_alias h)
     then [Alias_not_requested] else [])
    @ (if pu_capability purpose \<notin> set (ha_capabilities h) then [Capability_mismatch (pu_capability purpose)] else [])
    @ (if \<not> satisfiesRequires h (pu_requires purpose) then [Requires_mismatch (pu_requires purpose)] else [])
    @ (case pin_on s (ha_alias h) of
         Some p \<Rightarrow> if ha_alias h \<notin> set allowedPinnedAliases then [Pinned_for_other_project p] else []
       | None \<Rightarrow> [])
    @ (case lease_on s (ha_alias h) of Some l \<Rightarrow> [Lease_conflict l] | None \<Rightarrow> [])
    @ (if unhealthy e then [Unhealthy_alias (re_driftReason e) (re_health e)] else [])"

definition allowedPinnedAliases :: "broker_state \<Rightarrow> purpose \<Rightarrow> project_config \<Rightarrow> string list" where
  "allowedPinnedAliases s purpose projectConfig = map pn_alias
     (filter (\<lambda>p. leaseMatchesPin (pc_projectId projectConfig) (Some (pu_id purpose)) (pn_projectId p) (pn_purposeId p))
       (map_values (bs_pinsByAlias s)))"

definition buildCandidateAnalysis ::
  "broker_state \<Rightarrow> purpose \<Rightarrow> project_config \<Rightarrow> string option \<Rightarrow> berr + candidate list" where
  "buildCandidateAnalysis s purpose projectConfig explicitAlias =
    map_seq (\<lambda>(i, h).
      case rg_aliases (bs_registry s) (ha_alias h) of
        None \<Rightarrow> Inl type_error
      | Some e \<Rightarrow>
          Inr \<lparr>ca_hostAlias = h, ca_index = i, ca_pin = pin_on s (ha_alias h),
            ca_reasons = objections (allowedPinnedAliases s purpose projectConfig) s purpose explicitAlias h e,
            ca_entry = e\<rparr>) (indexed (hc_aliases (bs_host s)))"

section \<open>Order\<close>

definition tier_of :: "candidate \<Rightarrow> int" where
  "tier_of c = (if ca_pin c \<noteq> None then 0 else if re_powerState (ca_entry c) = Booted then 1 else 2)"

definition released_at :: "date_parse \<Rightarrow> candidate \<Rightarrow> int option" where
  "released_at dp c = parse_opt dp (re_lastLeaseReleasedAt (ca_entry c))"

text \<open>\<open>tierHasCompleteReleaseTimes\<close>\<close>

definition tier_complete :: "date_parse \<Rightarrow> candidate list \<Rightarrow> int \<Rightarrow> bool" where
  "tier_complete dp cs t = list_all (\<lambda>c. tier_of c = t \<longrightarrow> released_at dp c \<noteq> None) cs"

text \<open>A difference with \<open>NaN\<close> is \<open>NaN\<close>, which \<open>sort\<close> treats as 0.\<close>

definition candidate_cmp :: "date_parse \<Rightarrow> (int \<Rightarrow> bool) \<Rightarrow> candidate \<Rightarrow> candidate \<Rightarrow> int" where
  "candidate_cmp dp complete left right =
    (let tierComparison = tier_of left - tier_of right in
     if tierComparison \<noteq> 0 then tierComparison
     else if complete (tier_of left) then
       (case (released_at dp right, released_at dp left) of
          (Some r, Some l) \<Rightarrow> if r - l \<noteq> 0 then r - l else int (ca_index left) - int (ca_index right)
        | _ \<Rightarrow> 0)
     else int (ca_index left) - int (ca_index right))"

definition sortCandidates :: "date_parse \<Rightarrow> candidate list \<Rightarrow> candidate list" where
  "sortCandidates dp cs = js_sort (candidate_cmp dp (tier_complete dp cs)) cs"

text \<open>The part of \<open>acquireSelection\<close> that works on the loaded state.\<close>

definition no_matching_alias :: "purpose \<Rightarrow> berr" where
  "no_matching_alias p = broker_err (''No alias is available for purpose '' @ pu_id p @ ''.'') ''no-matching-alias''"

definition select_candidate ::
  "date_parse \<Rightarrow> broker_state \<Rightarrow> purpose \<Rightarrow> project_config \<Rightarrow> string option \<Rightarrow> berr + candidate" where
  "select_candidate dp s purpose projectConfig explicitAlias =
    seq (buildCandidateAnalysis s purpose projectConfig explicitAlias) (\<lambda>analysis.
      case sortCandidates dp (filter (\<lambda>c. ca_reasons c = []) analysis) of
        [] \<Rightarrow> Inl (no_matching_alias purpose)
      | c # _ \<Rightarrow> Inr c)"

section \<open>Summaries\<close>

definition compareNullableTimestamps :: "date_parse \<Rightarrow> string option \<Rightarrow> string option \<Rightarrow> int option" where
  "compareNullableTimestamps dp left right =
    (case (left, right) of
       (None, None) \<Rightarrow> Some 0
     | (None, Some _) \<Rightarrow> Some (- 1)
     | (Some _, None) \<Rightarrow> Some 1
     | (Some l, Some r) \<Rightarrow> (case (dp l, dp r) of (Some x, Some y) \<Rightarrow> Some (x - y) | _ \<Rightarrow> None))"

record holder_summary =
  hs_actorId :: string
  hs_actorType :: string
  hs_jobId :: "string option"
  hs_leaseId :: string
  hs_projectId :: string
  hs_purposeId :: string

definition summarizeLeaseHolder :: "lease option \<Rightarrow> holder_summary option" where
  "summarizeLeaseHolder l = map_option (\<lambda>l. \<lparr>hs_actorId = ls_actorId l, hs_actorType = ls_actorType l,
     hs_jobId = ls_jobId l, hs_leaseId = ls_leaseId l, hs_projectId = ls_projectId l,
     hs_purposeId = ls_purposeId l\<rparr>) l"

definition summarizePinOwner :: "pin option \<Rightarrow> (string \<times> string \<times> string option) option" where
  "summarizePinOwner p = map_option (\<lambda>p. (pn_pinId p, pn_projectId p, pn_purposeId p)) p"

definition summarizeSelectionFailure :: "candidate list \<Rightarrow> (string \<times> objection list) list" where
  "summarizeSelectionFailure cs = map (\<lambda>c. (ha_alias (ca_hostAlias c), ca_reasons c)) cs"

record alias_snapshot =
  as_activeLeaseId :: "string option"
  as_holder :: "holder_summary option"
  as_hostAlias :: host_alias
  as_entry :: registry_entry
  as_pin :: "(string \<times> string \<times> string option) option"

text \<open>The members taken from the alias and from its entry are those two records.\<close>

definition aliasSnapshot :: "host_alias \<Rightarrow> registry_entry \<Rightarrow> lease option \<Rightarrow> pin option \<Rightarrow> alias_snapshot" where
  "aliasSnapshot hostAlias e activeLease activePin =
    \<lparr>as_activeLeaseId = map_option ls_leaseId activeLease, as_holder = summarizeLeaseHolder activeLease,
     as_hostAlias = hostAlias, as_entry = e, as_pin = summarizePinOwner activePin\<rparr>"

section \<open>Lemmas\<close>

lemma ins_by_cong:
  "(\<And>y. y \<in> set ys \<Longrightarrow> (c x y \<le> 0) = (d x y \<le> 0)) \<Longrightarrow> ins_by c x ys = ins_by d x ys"
  by (induction ys) auto

lemma js_sort_cong:
  "(\<And>x y. x \<in> set xs \<Longrightarrow> y \<in> set xs \<Longrightarrow> (c x y \<le> 0) = (d x y \<le> 0)) \<Longrightarrow> js_sort c xs = js_sort d xs"
proof (induction xs)
  case Nil
  then show ?case by (simp add: js_sort_def)
next
  case (Cons x xs)
  then have IH: "js_sort c xs = js_sort d xs" by simp
  have "ins_by c x (js_sort d xs) = ins_by d x (js_sort d xs)"
    by (rule ins_by_cong) (simp add: Cons.prems)
  with IH show ?case by (simp add: js_sort_def)
qed

text \<open>On the candidates themselves the comparator agrees with a lexicographic one on integers, which
  is consistent.\<close>

definition release_key :: "date_parse \<Rightarrow> (int \<Rightarrow> bool) \<Rightarrow> candidate \<Rightarrow> int" where
  "release_key dp complete c = (if complete (tier_of c) then - nullish (released_at dp c) 0 else 0)"

lemma sign_int_key: "sign_comparator (\<lambda>x y. f x - (f y::int))"
  by unfold_locales auto

definition candidate_lex :: "date_parse \<Rightarrow> (int \<Rightarrow> bool) \<Rightarrow> candidate \<Rightarrow> candidate \<Rightarrow> int" where
  "candidate_lex dp complete x y =
    (if tier_of x - tier_of y \<noteq> 0 then tier_of x - tier_of y
     else if release_key dp complete x - release_key dp complete y \<noteq> 0
       then release_key dp complete x - release_key dp complete y
     else int (ca_index x) - int (ca_index y))"

interpretation candidate_order: comparator "candidate_lex dp complete"
  unfolding candidate_lex_def [abs_def]
  by (rule sign_comparator.refine_comparator [OF sign_int_key [of tier_of]
        sign_comparator.refine_comparator [OF sign_int_key [of "release_key dp complete"]
          sign_comparator.axioms(1) [OF sign_int_key [of "\<lambda>c. int (ca_index c)"]]]])

lemma candidate_cmp_lex:
  assumes "x \<in> set cs" "y \<in> set cs"
  shows "candidate_cmp dp (tier_complete dp cs) x y = candidate_lex dp (tier_complete dp cs) x y"
  using assms
  by (auto simp: candidate_cmp_def candidate_lex_def release_key_def tier_complete_def list_all_iff Let_def
      split: option.splits)

lemma sortCandidates_lex: "sortCandidates dp cs = js_sort (candidate_lex dp (tier_complete dp cs)) cs"
  unfolding sortCandidates_def by (rule js_sort_cong) (simp add: candidate_cmp_lex)

lemma set_sortCandidates [simp]: "set (sortCandidates dp cs) = set cs"
  by (simp add: sortCandidates_def)

lemma sortCandidates_Nil [simp]: "sortCandidates dp cs = [] \<longleftrightarrow> cs = []"
  by (simp add: sortCandidates_def)

lemma sortCandidates_empty [simp]: "sortCandidates dp [] = []"
  by simp

lemma hd_sortCandidates_least:
  "c \<in> set cs \<Longrightarrow> candidate_lex dp (tier_complete dp cs) (hd (sortCandidates dp cs)) c \<le> 0"
  unfolding sortCandidates_lex by (rule candidate_order.hd_js_sort_least)

text \<open>What a request asks of an alias, as one predicate.\<close>

definition allocatable :: "broker_state \<Rightarrow> purpose \<Rightarrow> project_config \<Rightarrow> string option \<Rightarrow> host_alias \<Rightarrow> bool" where
  "allocatable s purpose cfg explicit h \<longleftrightarrow>
     (explicit = None \<or> explicit = Some [] \<or> explicit = Some (ha_alias h))
     \<and> pu_capability purpose \<in> set (ha_capabilities h) \<and> satisfiesRequires h (pu_requires purpose)
     \<and> lease_on s (ha_alias h) = None
     \<and> (\<forall>p. pin_on s (ha_alias h) = Some p \<longrightarrow>
          leaseMatchesPin (pc_projectId cfg) (Some (pu_id purpose)) (pn_projectId p) (pn_purposeId p))
     \<and> (\<exists>e. rg_aliases (bs_registry s) (ha_alias h) = Some e \<and> \<not> unhealthy e)"

definition wf_state :: "broker_state \<Rightarrow> bool" where
  "wf_state s \<longleftrightarrow> distinct (map ha_alias (hc_aliases (bs_host s))) \<and> wf_registry (bs_host s) (bs_registry s)
     \<and> bs_leasesByAlias s = map (\<lambda>l. (ls_alias l, l)) (bs_leases s)
     \<and> bs_pinsByAlias s = map (\<lambda>p. (pn_alias p, p)) (bs_pins s)"

lemma wf_state_entry:
  "wf_state s \<Longrightarrow> h \<in> set (hc_aliases (bs_host s)) \<Longrightarrow> \<exists>e. rg_aliases (bs_registry s) (ha_alias h) = Some e"
  unfolding wf_state_def wf_registry_def by (metis domD imageI)

lemma pin_on_alias: "wf_state s \<Longrightarrow> pin_on s a = Some p \<Longrightarrow> pn_alias p = a \<and> p \<in> set (bs_pins s)"
  by (auto simp: pin_on_def wf_state_def dest!: map_get_SomeD)

lemma lease_on_alias: "wf_state s \<Longrightarrow> lease_on s a = Some l \<Longrightarrow> ls_alias l = a \<and> l \<in> set (bs_leases s)"
  by (auto simp: lease_on_def wf_state_def dest!: map_get_SomeD)

lemma lease_on_None: "wf_state s \<Longrightarrow> lease_on s a = None \<longleftrightarrow> (\<forall>l\<in>set (bs_leases s). ls_alias l \<noteq> a)"
  by (force simp: lease_on_def wf_state_def map_get_None_iff)

lemma pin_on_None: "wf_state s \<Longrightarrow> pin_on s a = None \<longleftrightarrow> (\<forall>p\<in>set (bs_pins s). pn_alias p \<noteq> a)"
  by (force simp: pin_on_def wf_state_def map_get_None_iff)

lemma allowed_pinned:
  assumes "wf_state s"
  shows "a \<in> set (map pn_alias (filter P (map_values (bs_pinsByAlias s)))) \<longleftrightarrow> (\<exists>p. pin_on s a = Some p \<and> P p)"
proof
  assume "a \<in> set (map pn_alias (filter P (map_values (bs_pinsByAlias s))))"
  then obtain p k where p: "pn_alias p = a" "P p" "map_get (bs_pinsByAlias s) k = Some p"
    by (auto dest!: map_values_in)
  with pin_on_alias [OF assms, of k p] show "\<exists>p. pin_on s a = Some p \<and> P p" by (auto simp: pin_on_def)
next
  assume "\<exists>p. pin_on s a = Some p \<and> P p"
  then obtain p where p: "pin_on s a = Some p" "P p" by blast
  with pin_on_alias [OF assms p(1)] map_values_complete [of "bs_pinsByAlias s" a p]
  show "a \<in> set (map pn_alias (filter P (map_values (bs_pinsByAlias s))))"
    by (force simp: pin_on_def)
qed

lemma objections_Nil:
  assumes "wf_state s" "rg_aliases (bs_registry s) (ha_alias h) = Some e"
  shows "objections (allowedPinnedAliases s purpose cfg) s purpose explicit h e = []
    \<longleftrightarrow> allocatable s purpose cfg explicit h"
  using assms(2) allowed_pinned [OF assms(1), of "ha_alias h"]
  by (auto simp: objections_def allocatable_def allowedPinnedAliases_def split: option.splits)

lemma set_indexed: "(i, h) \<in> set (indexed xs) \<Longrightarrow> h \<in> set xs"
  by (auto simp: indexed_def dest: set_zip_rightD)

lemma analysis_spec:
  assumes wf: "wf_state s"
  shows "\<exists>cs. buildCandidateAnalysis s purpose cfg explicit = Inr cs
    \<and> map ca_hostAlias cs = hc_aliases (bs_host s)
    \<and> (\<forall>c\<in>set cs. rg_aliases (bs_registry s) (ha_alias (ca_hostAlias c)) = Some (ca_entry c)
         \<and> ca_pin c = pin_on s (ha_alias (ca_hostAlias c))
         \<and> (ca_reasons c = [] \<longleftrightarrow> allocatable s purpose cfg explicit (ca_hostAlias c)))"
proof -
  let ?g = "\<lambda>(i, h). let e = the (rg_aliases (bs_registry s) (ha_alias h)) in
    \<lparr>ca_hostAlias = h, ca_index = i, ca_pin = pin_on s (ha_alias h),
     ca_reasons = objections (allowedPinnedAliases s purpose cfg) s purpose explicit h e, ca_entry = e\<rparr>"
  let ?xs = "indexed (hc_aliases (bs_host s))"
  have entry: "\<exists>e. rg_aliases (bs_registry s) (ha_alias h) = Some e" if "(i, h) \<in> set ?xs" for i h
    using wf_state_entry [OF wf set_indexed [OF that]] .
  have "buildCandidateAnalysis s purpose cfg explicit = Inr (map ?g ?xs)"
    unfolding buildCandidateAnalysis_def
    by (rule map_seq_all_Inr) (auto dest!: entry)
  moreover have "map ca_hostAlias (map ?g ?xs) = map snd ?xs"
    by (simp add: comp_def case_prod_beta Let_def)
  ultimately show ?thesis
    using objections_Nil [OF wf] by (intro exI [of _ "map ?g ?xs"]) (auto simp: Let_def dest!: entry)
qed

lemma selection_result:
  assumes "wf_state s"
  shows "case select_candidate dp s purpose cfg explicit of
      Inr c \<Rightarrow> ca_hostAlias c \<in> set (hc_aliases (bs_host s)) \<and> allocatable s purpose cfg explicit (ca_hostAlias c)
        \<and> rg_aliases (bs_registry s) (ha_alias (ca_hostAlias c)) = Some (ca_entry c)
        \<and> (\<exists>cs. c \<in> set cs
             \<and> ca_hostAlias ` set cs = {h \<in> set (hc_aliases (bs_host s)). allocatable s purpose cfg explicit h}
             \<and> (\<forall>d\<in>set cs. tier_of c \<le> tier_of d \<and> (tier_of c = tier_of d \<and> tier_complete dp cs (tier_of c) \<longrightarrow>
                  the (released_at dp d) \<le> the (released_at dp c))))
    | Inl e \<Rightarrow> payload_reason e = Some ''no-matching-alias''
        \<and> (\<forall>h\<in>set (hc_aliases (bs_host s)). \<not> allocatable s purpose cfg explicit h)"
proof -
  from analysis_spec [OF assms, of purpose cfg explicit] obtain an where
    an: "buildCandidateAnalysis s purpose cfg explicit = Inr an" "map ca_hostAlias an = hc_aliases (bs_host s)"
    and each: "\<And>c. c \<in> set an \<Longrightarrow> rg_aliases (bs_registry s) (ha_alias (ca_hostAlias c)) = Some (ca_entry c)
       \<and> (ca_reasons c = [] \<longleftrightarrow> allocatable s purpose cfg explicit (ca_hostAlias c))"
    by blast
  let ?cs = "filter (\<lambda>c. ca_reasons c = []) an"
  have hosts: "ca_hostAlias ` set an = set (hc_aliases (bs_host s))" using an(2) by (metis image_set)
  have cs: "ca_hostAlias ` set ?cs = {h \<in> set (hc_aliases (bs_host s)). allocatable s purpose cfg explicit h}"
    using each by (auto simp flip: hosts)
  show ?thesis
  proof (cases "sortCandidates dp ?cs")
    case Nil
    then have "?cs = []" by simp
    with cs have "\<forall>h\<in>set (hc_aliases (bs_host s)). \<not> allocatable s purpose cfg explicit h" by auto
    with an Nil show ?thesis by (simp add: select_candidate_def no_matching_alias_def)
  next
    case (Cons c rest)
    then have c: "c \<in> set ?cs" by (metis list.set_intros(1) set_sortCandidates)
    have "tier_of c \<le> tier_of d \<and> (tier_of c = tier_of d \<and> tier_complete dp ?cs (tier_of c) \<longrightarrow>
            the (released_at dp d) \<le> the (released_at dp c))" if d: "d \<in> set ?cs" for d
    proof -
      have "candidate_lex dp (tier_complete dp ?cs) c d \<le> 0"
        using hd_sortCandidates_least [OF d, of dp] Cons by simp
      moreover have "tier_complete dp ?cs (tier_of c) \<Longrightarrow> tier_of c = tier_of d \<Longrightarrow>
          released_at dp c \<noteq> None \<and> released_at dp d \<noteq> None"
        using c d by (auto simp: tier_complete_def list_all_iff)
      ultimately show ?thesis
        by (auto simp: candidate_lex_def release_key_def split: if_splits)
    qed
    moreover have "ca_hostAlias c \<in> set (hc_aliases (bs_host s))" "allocatable s purpose cfg explicit (ca_hostAlias c)"
      using c cs by auto
    ultimately show ?thesis
      using an Cons c cs each by (auto simp: select_candidate_def intro!: exI [of _ ?cs])
  qed
qed

section \<open>Properties\<close>


definition sample_state :: broker_state where
  "sample_state = \<lparr>bs_host = sample_host_config, bs_leases = [], bs_leasesByAlias = [], bs_pins = [],
     bs_pinsByAlias = [], bs_projects = \<lparr>kn_projects = [], kn_updatedAt = ''t''\<rparr>, bs_registry = sample_registry\<rparr>"

lemma sample_state_wf: "wf_state sample_state"
  using sample_registry_wf by (simp add: wf_state_def sample_state_def)


end
