(* ===== verification/Process_Text.thy ===== *)
theory Process_Text
  imports Broker_Types
begin

text \<open>
  The text side of containment (\<open>broker-core/containment.mjs\<close>): the parser of \<open>ps\<close> output and of
  elapsed times, the splitting of command lines into words, the executables a command line starts
  through \<open>env\<close> and \<open>exec\<close>, and, from \<open>broker-core/index.mjs\<close>, the quoting of arguments in printed
  remediation commands.
\<close>

section \<open>Shell words\<close>

text \<open>The loop of \<open>splitShellWords\<close>: the rest of the input, the tokens so far, the current token, the
  open quote and the \<open>escaping\<close> flag.\<close>

definition push_current :: "string list \<Rightarrow> string \<Rightarrow> string list" where
  "push_current tokens current = (if current \<noteq> [] then tokens @ [current] else tokens)"

fun shell_words :: "string \<Rightarrow> string list \<Rightarrow> string \<Rightarrow> char option \<Rightarrow> bool \<Rightarrow> string list" where
  "shell_words [] tokens current quote escaping =
     push_current tokens (if escaping then current @ [CHR 0x5C] else current)"
| "shell_words (c # cs) tokens current quote escaping =
     (if escaping then shell_words cs tokens (current @ [c]) quote False
      else if c = CHR 0x5C \<and> quote \<noteq> Some CHR 0x27 then shell_words cs tokens current quote True
      else (case quote of
          Some q \<Rightarrow> if c = q then shell_words cs tokens current None False
            else shell_words cs tokens (current @ [c]) quote False
        | None \<Rightarrow>
            if c = CHR 0x27 \<or> c = CHR 0x22 then shell_words cs tokens current (Some c) False
            else if js_space c then shell_words cs (push_current tokens current) [] None False
            else shell_words cs tokens (current @ [c]) None False))"

definition splitShellWords :: "string \<Rightarrow> string list" where
  "splitShellWords text = shell_words text [] [] None False"

text \<open>\<open>'${String(value).replaceAll("'", "'\\''")}'\<close>\<close>

definition quote_char :: "char \<Rightarrow> string" where
  "quote_char c = (if c = CHR 0x27 then [CHR 0x27, CHR 0x5C, CHR 0x27, CHR 0x27] else [c])"

definition shellQuoteArgument :: "string \<Rightarrow> string" where
  "shellQuoteArgument value = CHR 0x27 # concat (map quote_char value) @ [CHR 0x27]"

lemma shell_words_quoted:
  "shell_words (concat (map quote_char v) @ CHR 0x27 # rest) tokens current (Some CHR 0x27) False
     = shell_words rest tokens (current @ v) None False"
  by (induction v arbitrary: current) (auto simp: quote_char_def)

lemma shell_words_argument:
  "shell_words (shellQuoteArgument v @ rest) tokens current None False = shell_words rest tokens (current @ v) None False"
  by (simp add: shellQuoteArgument_def js_space_def shell_words_quoted)

lemma shell_words_join:
  "list_all (\<lambda>a. a \<noteq> []) args \<Longrightarrow>
     shell_words (join_with '' '' (map shellQuoteArgument args)) tokens [] None False = tokens @ args"
proof (induction args arbitrary: tokens)
  case Nil
  then show ?case by (simp add: push_current_def)
next
  case (Cons a args)
  show ?case
  proof (cases args)
    case Nil
    with Cons.prems show ?thesis
      using shell_words_argument [of a "[]" tokens "[]"] by (simp add: push_current_def)
  next
    case (Cons b bs)
    have "shell_words (shellQuoteArgument a @ CHR '' '' # join_with '' '' (map shellQuoteArgument args)) tokens [] None False
      = shell_words (CHR '' '' # join_with '' '' (map shellQuoteArgument args)) tokens a None False"
      by (simp add: shell_words_argument)
    also have "\<dots> = shell_words (join_with '' '' (map shellQuoteArgument args)) (tokens @ [a]) [] None False"
      using Cons.prems by (simp add: js_space_def push_current_def)
    finally show ?thesis using Cons.IH [of "tokens @ [a]"] Cons.prems Cons by simp
  qed
qed

section \<open>Tokens\<close>

definition is_quote :: "char \<Rightarrow> bool" where
  "is_quote c = (c = CHR 0x27 \<or> c = CHR 0x22)"

definition strip_end :: "(char \<Rightarrow> bool) \<Rightarrow> string \<Rightarrow> string" where
  "strip_end P s = rev (dropWhile P (rev s))"

definition normalizeCommandToken :: "string \<Rightarrow> string" where
  "normalizeCommandToken token =
    strip_end (\<lambda>c. c = CHR 0x5C) (strip_end is_quote (dropWhile is_quote (js_trim token)))"

definition tokens_of :: "string list \<Rightarrow> string list" where
  "tokens_of raw = filter (\<lambda>t. t \<noteq> []) (map normalizeCommandToken raw)"

definition commandTokens :: "command option \<Rightarrow> string list" where
  "commandTokens command =
    (case command of
       None \<Rightarrow> tokens_of (splitShellWords [])
     | Some (CmdStr s) \<Rightarrow> tokens_of (splitShellWords s)
     | Some (CmdList xs) \<Rightarrow> tokens_of xs)"

text \<open>\<open>path.basename\<close>: the part after the last slash, trailing slashes aside.\<close>

definition path_basename :: "string \<Rightarrow> string" where
  "path_basename p = rev (takeWhile (\<lambda>c. c \<noteq> CHR ''/'') (dropWhile (\<lambda>c. c = CHR ''/'') (rev p)))"

definition executable_name :: "string \<Rightarrow> string" where
  "executable_name token = dropWhile (\<lambda>c. c = CHR ''-'') (path_basename token)"

text \<open>\<open>/^[A-Za-z_][A-Za-z0-9_]*=.*/\<close>\<close>

definition ident_char :: "char \<Rightarrow> bool" where
  "ident_char c = ((CHR ''A'' \<le> c \<and> c \<le> CHR ''Z'') \<or> (CHR ''a'' \<le> c \<and> c \<le> CHR ''z'') \<or> c = CHR ''_'')"

definition is_assignment :: "string \<Rightarrow> bool" where
  "is_assignment t = (case t of [] \<Rightarrow> False
     | c # cs \<Rightarrow> ident_char c \<and>
         (case dropWhile (\<lambda>d. ident_char d \<or> is_digit d) cs of [] \<Rightarrow> False | d # _ \<Rightarrow> d = CHR ''=''))"

definition command_wrapper_names :: "string list" where
  "command_wrapper_names = [''env'', ''exec'']"

definition env_wrapper_value_options :: "string list" where
  "env_wrapper_value_options = [''-C'', ''--chdir'', ''-P'', ''-S'', ''--split-string'', ''-u'', ''--unset'']"

definition push_executable :: "string \<Rightarrow> string list" where
  "push_executable token = (if executable_name token \<noteq> [] then [executable_name token] else [])"

text \<open>The argument of \<open>env -S\<close>, given apart or attached.\<close>

definition split_argument :: "string \<Rightarrow> string list \<Rightarrow> string option" where
  "split_argument token rest =
    (if token = ''-S'' \<or> token = ''--split-string'' then Some (case rest of [] \<Rightarrow> [] | r # _ \<Rightarrow> r)
     else if starts_with token ''-S'' then Some (drop 2 token)
     else if starts_with token ''--split-string='' then Some (drop 15 token)
     else None)"

definition exec_option :: "string \<Rightarrow> bool" where
  "exec_option token = (drop 1 token \<noteq> [] \<and> list_all (\<lambda>c. c \<in> set ''acl'') (drop 1 token))"

text \<open>The size that the recursion decreases: the characters of the tokens and one for each token.\<close>

definition token_size :: "string list \<Rightarrow> nat" where
  "token_size ts = sum_list (map (\<lambda>t. Suc (length t)) ts)"

lemma token_size_simps [simp]:
  "token_size [] = 0" "token_size (t # ts) = Suc (length t) + token_size ts"
  "token_size (ts @ us) = token_size ts + token_size us"
  by (simp_all add: token_size_def)

lemma push_current_size: "token_size (push_current ts c) = token_size ts + (if c = [] then 0 else Suc (length c))"
  by (simp add: push_current_def)

lemma shell_words_size:
  "token_size (shell_words s ts c q e) \<le> token_size ts + length s + length c + Suc (if e then 1 else 0)"
proof (induction s ts c q e rule: shell_words.induct)
  case (1 ts c q e)
  then show ?case by (simp add: push_current_size)
next
  case (2 ch cs ts c q e)
  consider "e" | "\<not> e" "ch = CHR 0x5C \<and> q \<noteq> Some CHR 0x27"
    | p where "\<not> e" "\<not> (ch = CHR 0x5C \<and> q \<noteq> Some CHR 0x27)" "q = Some p" "ch = p"
    | p where "\<not> e" "\<not> (ch = CHR 0x5C \<and> q \<noteq> Some CHR 0x27)" "q = Some p" "ch \<noteq> p"
    | "\<not> e" "\<not> (ch = CHR 0x5C \<and> q \<noteq> Some CHR 0x27)" "q = None" "ch = CHR 0x27 \<or> ch = CHR 0x22"
    | "\<not> e" "\<not> (ch = CHR 0x5C \<and> q \<noteq> Some CHR 0x27)" "q = None" "\<not> (ch = CHR 0x27 \<or> ch = CHR 0x22)" "js_space ch"
    | "\<not> e" "\<not> (ch = CHR 0x5C \<and> q \<noteq> Some CHR 0x27)" "q = None" "\<not> (ch = CHR 0x27 \<or> ch = CHR 0x22)" "\<not> js_space ch"
    by (cases q) auto
  then show ?case
  proof cases
    case 1 then show ?thesis using 2(1) by simp
  next
    case 2 then show ?thesis using "2.IH"(2) by simp
  next
    case 3 then show ?thesis using "2.IH"(6) by simp
  next
    case 4 then show ?thesis using "2.IH"(7) by auto
  next
    case 5 then show ?thesis using "2.IH"(3) by auto
  next
    case 6 then show ?thesis using "2.IH"(4) by (simp add: push_current_size split: if_splits)
  next
    case 7 then show ?thesis using "2.IH"(5) by simp
  qed
qed

lemma splitShellWords_size: "token_size (splitShellWords s) \<le> Suc (length s)"
  using shell_words_size [of s "[]" "[]" None False] by (simp add: splitShellWords_def)

lemma js_trim_length: "length (js_trim s) \<le> length s"
  by (simp add: js_trim_def js_trim_end_def js_trim_start_def)
    (metis le_trans length_dropWhile_le length_rev)

lemma strip_end_length: "length (strip_end P s) \<le> length s"
  by (simp add: strip_end_def) (metis length_dropWhile_le length_rev)

lemma normalizeCommandToken_length: "length (normalizeCommandToken t) \<le> length t"
  unfolding normalizeCommandToken_def
  by (meson js_trim_length le_trans length_dropWhile_le strip_end_length)

lemma tokens_of_size: "token_size (tokens_of ts) \<le> token_size ts"
proof (induction ts)
  case (Cons t ts)
  then show ?case using normalizeCommandToken_length [of t] by (auto simp: tokens_of_def)
qed (simp add: tokens_of_def)

lemma split_argument_size:
  "split_argument t ts = Some a \<Longrightarrow> Suc (length a) \<le> Suc (length t) + token_size ts"
  by (auto simp: split_argument_def split: if_splits list.splits)

lemma dropWhile_token_size: "token_size (dropWhile P ts) \<le> token_size ts"
  by (induction ts) auto

lemma drop1_token_size: "token_size (drop 1 ts) \<le> token_size ts"
  by (cases ts) auto

lemma exec_names_decreases:
  "dropWhile is_assignment tokens = t # rest \<Longrightarrow> Suc (2 * token_size rest) < 2 * token_size tokens"
  "2 * token_size (tokens_of (t # ts)) < Suc (Suc (Suc (2 * length t + 2 * token_size ts)))"
  "split_argument t ts = Some a \<Longrightarrow>
     2 * token_size (tokens_of (splitShellWords a)) < Suc (Suc (Suc (2 * length t + 2 * token_size ts)))"
  "2 * token_size (drop (Suc 0) ts) < Suc (Suc (2 * length t + 2 * token_size ts))"
  "2 * token_size (drop (Suc 0) ts) < Suc (Suc (Suc (Suc (Suc (Suc (2 * token_size ts))))))"
proof -
  show "Suc (2 * token_size rest) < 2 * token_size tokens" if "dropWhile is_assignment tokens = t # rest"
    using dropWhile_token_size [of is_assignment tokens] that by simp
  show "2 * token_size (tokens_of (t # ts)) < Suc (Suc (Suc (2 * length t + 2 * token_size ts)))"
    using tokens_of_size [of "t # ts"] by simp
  show "2 * token_size (tokens_of (splitShellWords a)) < Suc (Suc (Suc (2 * length t + 2 * token_size ts)))"
    if "split_argument t ts = Some a"
    using split_argument_size [OF that] tokens_of_size [of "splitShellWords a"] splitShellWords_size [of a]
    by linarith
  show "2 * token_size (drop (Suc 0) ts) < Suc (Suc (2 * length t + 2 * token_size ts))"
    "2 * token_size (drop (Suc 0) ts) < Suc (Suc (Suc (Suc (Suc (Suc (2 * token_size ts))))))"
    using drop1_token_size [of ts] by simp_all
qed

text \<open>\<open>commandExecutableNames\<close> and its loop over the tokens after the wrapper \<open>w\<close>.\<close>

function exec_names :: "string list \<Rightarrow> string list"
  and exec_loop :: "string \<Rightarrow> string list \<Rightarrow> string list" where
  "exec_names tokens =
     (case dropWhile is_assignment tokens of
        [] \<Rightarrow> []
      | t # rest \<Rightarrow>
          uniq (push_executable t
            @ (if executable_name t \<in> set command_wrapper_names then exec_loop (executable_name t) rest else [])))"
| "exec_loop w [] = []"
| "exec_loop w (t # ts) =
     (if t = ''--'' \<or> is_assignment t then exec_loop w ts
      else if w = ''env'' \<and> starts_with t ''-'' then
        (case split_argument t ts of
           Some a \<Rightarrow> exec_names (tokens_of (splitShellWords a))
         | None \<Rightarrow> exec_loop w (if t \<in> set env_wrapper_value_options then drop 1 ts else ts))
      else if w = ''exec'' \<and> starts_with t ''-'' \<and> t = ''-a'' then
        push_executable (case ts of [] \<Rightarrow> [] | u # _ \<Rightarrow> u) @ exec_loop w (drop 1 ts)
      else if w = ''exec'' \<and> starts_with t ''-'' \<and> starts_with t ''-a'' \<and> 2 < length t then
        push_executable (drop 2 t) @ exec_loop w ts
      else if w = ''exec'' \<and> starts_with t ''-'' \<and> exec_option t then
        (if CHR ''a'' \<in> set (drop 1 t)
         then push_executable (case ts of [] \<Rightarrow> [] | u # _ \<Rightarrow> u) @ exec_loop w (drop 1 ts)
         else exec_loop w ts)
      else if executable_name t \<in> set command_wrapper_names then exec_names (tokens_of (t # ts))
      else push_executable t)"
  by pat_completeness auto

termination
  by (relation "measure (\<lambda>x. case x of Inl ts \<Rightarrow> 2 * token_size ts | Inr (w, ts) \<Rightarrow> 2 * token_size ts + 1)")
    (auto simp: exec_names_decreases)

declare exec_names.simps [simp del] exec_loop.simps(2) [simp del]

definition commandExecutableNames :: "command option \<Rightarrow> string list" where
  "commandExecutableNames command = exec_names (commandTokens command)"

definition commandExecutableName :: "command option \<Rightarrow> string option" where
  "commandExecutableName command = (case commandExecutableNames command of [] \<Rightarrow> None | n # _ \<Rightarrow> Some n)"

text \<open>The prefixes of the text that end before a white space character.\<close>

definition space_prefixes :: "string \<Rightarrow> string list" where
  "space_prefixes s = map (\<lambda>i. js_trim_end (take i s)) (filter (\<lambda>i. js_space (s ! i)) [0..<length s])"

definition processExecutableCandidates :: "string \<Rightarrow> string list" where
  "processExecutableCandidates command =
    (let t = js_trim command in
     if t = [] then []
     else uniq (commandExecutableNames (Some (CmdStr t))
       @ concat (map (\<lambda>p. if p = [] then [] else push_executable p) (space_prefixes t))))"

section \<open>Elapsed times\<close>

text \<open>\<open>rawValue.split("-", 2)\<close> keeps the first two parts.\<close>

definition elapsed_parts :: "string \<Rightarrow> (nat \<times> string) option" where
  "elapsed_parts rawValue =
    (if CHR ''-'' \<in> set rawValue then
       (case split_on CHR ''-'' rawValue of
          dayPortion # trailing # _ \<Rightarrow> if all_digits dayPortion then Some (digits_val dayPortion, trailing) else None
        | _ \<Rightarrow> None)
     else Some (0, rawValue))"

definition parseElapsedMilliseconds :: "string option \<Rightarrow> int option" where
  "parseElapsedMilliseconds elapsed =
    (let rawValue = js_trim (nullish elapsed []) in
     if rawValue = [] then None
     else case elapsed_parts rawValue of
       None \<Rightarrow> None
     | Some (days, timePortion) \<Rightarrow>
        (let parts = split_on CHR '':'' timePortion in
         if 3 < length parts \<or> \<not> list_all all_digits parts then None
         else case map digits_val parts of
           [hours, minutes, seconds] \<Rightarrow> Some (int ((((days * 24) + hours) * 60 + minutes) * 60 + seconds) * 1000)
         | [minutes, seconds] \<Rightarrow> Some (int ((((days * 24) + 0) * 60 + minutes) * 60 + seconds) * 1000)
         | [seconds] \<Rightarrow> Some (int ((((days * 24) + 0) * 60 + 0) * 60 + seconds) * 1000)
         | _ \<Rightarrow> None))"

section \<open>Output of ps\<close>

text \<open>A process as a sampler reports it; the sizes may be given in bytes or in kilobytes.\<close>

record raw_proc =
  rw_command :: "string option"
  rw_elapsed :: "string option"
  rw_pgid :: "int option"
  rw_pid :: "int option"
  rw_ppid :: "int option"
  rw_rssBytes :: "int option"
  rw_rssKb :: "int option"
  rw_stat :: "string option"
  rw_vszBytes :: "int option"
  rw_vszKb :: "int option"

text \<open>One group of digits, or of characters other than white space, and the white space that must
  follow it.\<close>

definition take_word :: "(char \<Rightarrow> bool) \<Rightarrow> string \<Rightarrow> (string \<times> string) option" where
  "take_word P s =
    (let w = takeWhile P s; rest = dropWhile P s in
     if w = [] \<or> rest = [] \<or> \<not> js_space (hd rest) then None else Some (w, dropWhile js_space rest))"

definition take_signed :: "string \<Rightarrow> (int \<times> string) option" where
  "take_signed s =
    (case s of
       CHR ''-'' # r \<Rightarrow> map_option (\<lambda>(w, rest). (- int (digits_val w), rest)) (take_word is_digit r)
     | _ \<Rightarrow> map_option (\<lambda>(w, rest). (int (digits_val w), rest)) (take_word is_digit s))"

definition take_number :: "string \<Rightarrow> (int \<times> string) option" where
  "take_number s = map_option (\<lambda>(w, rest). (int (digits_val w), rest)) (take_word is_digit s)"

text \<open>\<open>/^(\d+)\s+(\d+)\s+(-?\d+)\s+(\d+)\s+(\d+)\s+(\S+)\s+(\S+)\s*(.*)$/\<close>\<close>

definition parse_ps_line :: "string \<Rightarrow> raw_proc option" where
  "parse_ps_line line =
    Option.bind (take_number line) (\<lambda>(pid, s1).
    Option.bind (take_number s1) (\<lambda>(ppid, s2).
    Option.bind (take_signed s2) (\<lambda>(pgid, s3).
    Option.bind (take_number s3) (\<lambda>(rss, s4).
    Option.bind (take_number s4) (\<lambda>(vsz, s5).
    Option.bind (take_word (\<lambda>c. \<not> js_space c) s5) (\<lambda>(elapsed, s6).
      let stat = takeWhile (\<lambda>c. \<not> js_space c) s6;
          command = dropWhile js_space (dropWhile (\<lambda>c. \<not> js_space c) s6)
      in if stat = [] \<or> CHR 0x0D \<in> set command then None
         else Some \<lparr>rw_command = Some command, rw_elapsed = Some elapsed, rw_pgid = Some pgid,
           rw_pid = Some pid, rw_ppid = Some ppid, rw_rssBytes = Some (rss * 1024), rw_rssKb = None,
           rw_stat = Some stat, rw_vszBytes = Some (vsz * 1024), rw_vszKb = None\<rparr>))))))"

definition parsePsOutput :: "string \<Rightarrow> raw_proc list" where
  "parsePsOutput output =
    List.map_filter parse_ps_line (filter (\<lambda>l. l \<noteq> []) (map js_trim (split_on CHR 0x0A output)))"

section \<open>Recognising the sampler's own process\<close>

definition spaces1 :: "string \<Rightarrow> string option" where
  "spaces1 s = (case s of [] \<Rightarrow> None | c # _ \<Rightarrow> if js_space c then Some (dropWhile js_space s) else None)"

definition literal :: "string \<Rightarrow> string \<Rightarrow> string option" where
  "literal p s = (if starts_with s p then Some (drop (length p) s) else None)"

text \<open>The text of the two patterns after \<open>(?:^|\s|\/)\<close>.\<close>

definition sampler_columns :: string where
  "sampler_columns = ''pid=,ppid=,pgid=,rss=,vsz=,etime=,stat=,command=''"

definition sampler_at :: "string \<Rightarrow> bool" where
  "sampler_at s =
    (case Option.bind (literal ''ps'' s) spaces1 of
       None \<Rightarrow> False
     | Some r \<Rightarrow>
         Option.bind (Option.bind (literal ''-axo'' r) spaces1) (literal sampler_columns) \<noteq> None
         \<or> Option.bind (Option.bind (Option.bind (Option.bind (literal ''-axww'' r) spaces1) (literal ''-o'')) spaces1)
             (literal sampler_columns) \<noteq> None)"

fun sampler_after_mark :: "string \<Rightarrow> bool" where
  "sampler_after_mark [] = False"
| "sampler_after_mark (c # cs) = (((js_space c \<or> c = CHR ''/'') \<and> sampler_at cs) \<or> sampler_after_mark cs)"

definition is_sampler_command :: "string \<Rightarrow> bool" where
  "is_sampler_command command = (sampler_at command \<or> sampler_after_mark command)"

section \<open>Lemmas\<close>

lemma all_digits_no: "all_digits s \<Longrightarrow> \<not> is_digit c \<Longrightarrow> c \<notin> set s"
  by (auto simp: all_digits_def list_all_iff)

lemma digit_not_space: "is_digit c \<Longrightarrow> \<not> js_space c"
  by (auto simp: is_digit_def js_space_def less_eq_char_def)

lemma not_digit_marks: "\<not> is_digit CHR '':''" "\<not> is_digit CHR ''-''"
  by (auto simp: is_digit_def less_eq_char_def)

lemma js_trim_no_edges:
  assumes "s \<noteq> []" "\<not> js_space (hd s)" "\<not> js_space (last s)"
  shows "js_trim s = s"
  using assms by (simp add: js_trim_def js_trim_start_def js_trim_end_def dropWhile_fixed hd_rev)

text \<open>Arguments whose words the broker can pick apart.\<close>

definition plain_token :: "string \<Rightarrow> bool" where
  "plain_token t \<longleftrightarrow> t \<noteq> ''--'' \<and> \<not> is_assignment t \<and> \<not> starts_with t ''-'' \<and> executable_name t \<noteq> []
     \<and> executable_name t \<notin> set command_wrapper_names"

lemma exec_loop_assignments:
  "list_all is_assignment as \<Longrightarrow> plain_token t \<Longrightarrow> w \<in> set command_wrapper_names \<Longrightarrow>
    exec_loop w (as @ t # rest) = [executable_name t]"
  by (induction as) (auto simp: exec_loop.simps(2) plain_token_def push_executable_def)

lemma dropWhile_all: "list_all P as \<Longrightarrow> dropWhile P (as @ xs) = dropWhile P xs"
  by (induction as) auto

section \<open>Properties\<close>

text \<open>A command line printed with quoted arguments is split back into exactly those arguments: no
  character of an alias, a path or a socket name can end its word or start another one.\<close>

theorem shell_quote_roundtrip:
  assumes "list_all (\<lambda>a. a \<noteq> []) args"
  shows "splitShellWords (join_with '' '' (map shellQuoteArgument args)) = args"
  using shell_words_join [OF assms, of "[]"] by (simp add: splitShellWords_def)

theorem shell_quote_roundtrip_witness:
  "splitShellWords (join_with '' '' (map shellQuoteArgument [[CHR 0x27, CHR 0x20, CHR 0x5C], ''b''])) =
     [[CHR 0x27, CHR 0x20, CHR 0x5C], ''b'']"
  by (rule shell_quote_roundtrip) simp

text \<open>Assignments and the wrappers \<open>env\<close> and \<open>exec\<close> in front of a command do not hide its
  executable from the comparison with the registered command.\<close>

theorem wrapped_executable_is_named:
  assumes "list_all is_assignment as" "list_all is_assignment bs" "plain_token t" "w \<in> {''env'', ''exec''}"
  shows "exec_names (as @ t # rest) = [executable_name t]
    \<and> exec_names (as @ w # bs @ t # rest) = [w, executable_name t]"
proof
  show "exec_names (as @ t # rest) = [executable_name t]"
    using assms(1,3) by (subst exec_names.simps) (auto simp: dropWhile_all plain_token_def push_executable_def)
  have "executable_name ''env'' = ''env''" "executable_name ''exec'' = ''exec''"
    "\<not> is_assignment ''env''" "\<not> is_assignment ''exec''" by code_simp+
  then have w: "w \<in> set command_wrapper_names" "executable_name w = w" "\<not> is_assignment w" "w \<noteq> []"
    using assms(4) by (auto simp: command_wrapper_names_def)
  have "exec_names (as @ w # bs @ t # rest) = uniq (push_executable w @ [executable_name t])"
    using assms(1) w exec_loop_assignments [OF assms(2,3) w(1), of rest]
    by (subst exec_names.simps) (auto simp: dropWhile_all)
  moreover have "executable_name t \<noteq> w" using assms(3) w by (auto simp: plain_token_def)
  ultimately show "exec_names (as @ w # bs @ t # rest) = [w, executable_name t]"
    using w by (simp add: push_executable_def)
qed

theorem wrapped_executable_is_named_witness:
  "exec_names [''A=1'', ''env'', ''B=2'', ''/usr/bin/xcodebuild'', ''test''] = [''env'', ''xcodebuild'']"
proof -
  have "list_all is_assignment [''A=1'']" "list_all is_assignment [''B=2'']" "plain_token ''/usr/bin/xcodebuild''"
    "executable_name ''/usr/bin/xcodebuild'' = ''xcodebuild''" by code_simp+
  with wrapped_executable_is_named [of "[''A=1'']" "[''B=2'']" "''/usr/bin/xcodebuild''" "''env''" "[''test'']"]
  show ?thesis by simp
qed

text \<open>Elapsed times in each format that \<open>ps\<close> prints are read as the number of milliseconds they
  stand for.\<close>

theorem parseElapsed_formats:
  "parseElapsedMilliseconds (Some (nat_text d @ ''-'' @ nat_text h @ '':'' @ nat_text m @ '':'' @ nat_text s))
     = Some ((((int d * 24 + int h) * 60 + int m) * 60 + int s) * 1000)
   \<and> parseElapsedMilliseconds (Some (nat_text h @ '':'' @ nat_text m @ '':'' @ nat_text s))
     = Some (((int h * 60 + int m) * 60 + int s) * 1000)
   \<and> parseElapsedMilliseconds (Some (nat_text m @ '':'' @ nat_text s)) = Some ((int m * 60 + int s) * 1000)"
proof -
  have digits: "all_digits (nat_text n)" "digits_val (nat_text n) = n" for n using nat_text_digits by auto
  have no: "CHR '':'' \<notin> set (nat_text n)" "CHR ''-'' \<notin> set (nat_text n)" for n
    using all_digits_no [OF digits(1) not_digit_marks(1)] all_digits_no [OF digits(1) not_digit_marks(2)] by auto
  have ne: "nat_text n \<noteq> []" for n using digits(1) [of n] by (simp add: all_digits_def)
  have edges: "\<not> js_space (hd (nat_text n))" "\<not> js_space (last (nat_text n))" for n
    using digits(1) [of n] ne [of n] hd_in_set last_in_set digit_not_space
    by (auto simp: all_digits_def list_all_iff)
  have trim: "js_trim (nat_text a @ x # y @ nat_text b) = nat_text a @ x # y @ nat_text b" for a b x y
    using ne edges by (intro js_trim_no_edges) auto
  have one: "split_on CHR '':'' (nat_text n) = [nat_text n]" "split_on CHR ''-'' (nat_text n) = [nat_text n]" for n
    using no by (simp_all add: split_on_no_sep)
  have two: "split_on CHR '':'' (nat_text n @ CHR '':'' # t) = nat_text n # split_on CHR '':'' t"
    "split_on CHR ''-'' (nat_text n @ CHR ''-'' # t) = nat_text n # split_on CHR ''-'' t" for n t
    using no by (simp_all add: split_on_append)
  have dash: "split_on CHR ''-'' (nat_text h @ CHR '':'' # nat_text m @ CHR '':'' # nat_text s)
     = [nat_text h @ CHR '':'' # nat_text m @ CHR '':'' # nat_text s]"
    using no by (intro split_on_no_sep) auto
  show ?thesis
    using trim [of d "CHR ''-''" "nat_text h @ '':'' @ nat_text m @ '':''" s]
      trim [of h "CHR '':''" "nat_text m @ '':''" s] trim [of m "CHR '':''" "[]" s]
    by (auto simp: parseElapsedMilliseconds_def elapsed_parts_def one two dash digits ne no Let_def)
qed

end
