(* ===== verification/Processes.thy ===== *)
theory Processes
  imports Process_Text
begin

text \<open>
  Which processes belong to a lease (\<open>buildLeaseRuntimeMetadata\<close> to \<open>discoverLeaseOwnedProcesses\<close> in
  \<open>broker-core/containment.mjs\<close>): the runtime metadata of a lease, the normalised process table, the
  validation of the registered owner and command processes against their start times, and the
  discovery of owned processes through process trees, process groups and simulator ids.
  Instants are milliseconds since the epoch, \<open>None\<close> for \<open>NaN\<close>.
\<close>

section \<open>Runtime metadata\<close>

definition default_monitor_interval_ms :: int where "default_monitor_interval_ms = 1000"

text \<open>\<open>normalizePositiveInteger\<close> and \<open>normalizeNonNegativeInteger\<close> of numbers.\<close>

definition pos_int :: "int option \<Rightarrow> int option" where
  "pos_int v = (case v of Some n \<Rightarrow> if 0 < n then Some n else None | None \<Rightarrow> None)"

definition nonneg_opt :: "int option \<Rightarrow> int option" where
  "nonneg_opt v = (case v of Some n \<Rightarrow> if 0 \<le> n then Some n else None | None \<Rightarrow> None)"

text \<open>A list of names comes as an array or as a comma separated string.\<close>

datatype names = NameList "string list" | NameText string

fun normalizeStringArray :: "names option \<Rightarrow> string list" where
  "normalizeStringArray None = []"
| "normalizeStringArray (Some (NameList xs)) = filter (\<lambda>e. e \<noteq> []) (map js_trim xs)"
| "normalizeStringArray (Some (NameText s)) = filter (\<lambda>e. e \<noteq> []) (map js_trim (split_on CHR '','' s))"

fun normalizeRegisteredCommand :: "command option \<Rightarrow> command option" where
  "normalizeRegisteredCommand None = None"
| "normalizeRegisteredCommand (Some (CmdList xs)) =
     (let normalized = filter (\<lambda>e. e \<noteq> []) (map js_trim xs) in
      if normalized \<noteq> [] then Some (CmdList normalized) else None)"
| "normalizeRegisteredCommand (Some (CmdStr s)) = (if js_trim s \<noteq> [] then Some (CmdStr (js_trim s)) else None)"

definition no_runtime_yet :: lease_runtime where
  "no_runtime_yet = \<lparr>rt_command = None, rt_commandRegisteredAt = None, rt_commandPgid = None, rt_commandPid = None,
     rt_evidenceRoot = None, rt_lastObservation = None, rt_memoryCeilingBytes = None, rt_monitorIntervalMs = None,
     rt_ownerPgid = None, rt_ownerPid = None, rt_ownerRegisteredAt = None, rt_simulatorProcessNames = [],
     rt_updatedAt = None\<rparr>"

definition existing_runtime :: "lease \<Rightarrow> lease_runtime" where
  "existing_runtime l = nullish (ls_runtime l) no_runtime_yet"

record runtime_options =
  ro_evidenceRoot :: "string option"
  ro_memoryCeilingBytes :: "js option"
  ro_monitorIntervalMs :: "js option"
  ro_ownerPgid :: "int option"
  ro_ownerPid :: "int option"
  ro_ownerRegisteredAt :: "string option"
  ro_simulatorProcessNames :: "names option"
  ro_updatedAt :: "string option"

definition no_options :: runtime_options where
  "no_options = \<lparr>ro_evidenceRoot = None, ro_memoryCeilingBytes = None, ro_monitorIntervalMs = None,
     ro_ownerPgid = None, ro_ownerPid = None, ro_ownerRegisteredAt = None, ro_simulatorProcessNames = None,
     ro_updatedAt = None\<rparr>"

text \<open>\<open>normalizePositiveInteger(options.x ?? existing.x)\<close>\<close>

definition pos_flag :: "js option \<Rightarrow> int option \<Rightarrow> int option" where
  "pos_flag v existing = (if js_nullish v then pos_int existing else normalizePositiveInteger v)"

definition buildLeaseRuntimeMetadata :: "lease \<Rightarrow> runtime_options \<Rightarrow> lease_runtime" where
  "buildLeaseRuntimeMetadata l opts =
    (let existing = existing_runtime l in
     \<lparr>rt_command = normalizeRegisteredCommand (rt_command existing),
      rt_commandRegisteredAt = rt_commandRegisteredAt existing,
      rt_commandPgid = pos_int (rt_commandPgid existing),
      rt_commandPid = pos_int (rt_commandPid existing),
      rt_evidenceRoot = or_else (ro_evidenceRoot opts) (rt_evidenceRoot existing),
      rt_lastObservation = rt_lastObservation existing,
      rt_memoryCeilingBytes = pos_flag (ro_memoryCeilingBytes opts) (rt_memoryCeilingBytes existing),
      rt_monitorIntervalMs = or_else (pos_flag (ro_monitorIntervalMs opts) (rt_monitorIntervalMs existing))
        (Some default_monitor_interval_ms),
      rt_ownerPgid = pos_int (or_else (ro_ownerPgid opts) (rt_ownerPgid existing)),
      rt_ownerPid = pos_int (or_else (ro_ownerPid opts) (or_else (rt_ownerPid existing) (Some (ls_ownerPid l)))),
      rt_ownerRegisteredAt = or_else (ro_ownerRegisteredAt opts) (rt_ownerRegisteredAt existing),
      rt_simulatorProcessNames = normalizeStringArray
        (or_else (ro_simulatorProcessNames opts) (Some (NameList (rt_simulatorProcessNames existing)))),
      rt_updatedAt = or_else (ro_updatedAt opts) (rt_updatedAt existing)\<rparr>)"

text \<open>For the members that tell \<open>undefined\<close> from \<open>null\<close>, \<open>None\<close> is the former and \<open>Some None\<close> the
  latter.\<close>

record runtime_update =
  up_command :: "command option option"
  up_commandRegisteredAt :: "string option"
  up_commandPgid :: "int option option"
  up_commandPid :: "int option"
  up_evidenceRoot :: "string option"
  up_memoryCeilingBytes :: "js option"
  up_monitorIntervalMs :: "js option"
  up_ownerPgid :: "int option option"
  up_ownerPid :: "int option"
  up_ownerRegisteredAt :: "string option"
  up_simulatorProcessNames :: "names option"
  up_updatedAt :: "string option"

definition flatten :: "'a option option \<Rightarrow> 'a option" where
  "flatten v = (case v of Some w \<Rightarrow> w | None \<Rightarrow> None)"

definition mergeLeaseRuntimeMetadata :: "lease \<Rightarrow> runtime_update \<Rightarrow> lease_runtime" where
  "mergeLeaseRuntimeMetadata l upd =
    (let existing = buildLeaseRuntimeMetadata l no_options;
         command = (case up_command upd of None \<Rightarrow> rt_command existing | Some c \<Rightarrow> normalizeRegisteredCommand c);
         names = (case up_simulatorProcessNames upd of None \<Rightarrow> rt_simulatorProcessNames existing
                  | Some n \<Rightarrow> normalizeStringArray (Some n));
         commandPidReplaced = (up_commandPid upd \<noteq> None);
         ownerPidReplaced = (up_ownerPid upd \<noteq> None);
         clearedCommand = (commandPidReplaced \<and> up_command upd = None)
     in existing\<lparr>
      rt_command := (if clearedCommand then None else or_else command (rt_command existing)),
      rt_commandRegisteredAt := or_else (up_commandRegisteredAt upd) (rt_commandRegisteredAt existing),
      rt_commandPgid := (if commandPidReplaced \<and> up_commandPgid upd = None then None
         else pos_int (or_else (flatten (up_commandPgid upd)) (rt_commandPgid existing))),
      rt_commandPid := pos_int (or_else (up_commandPid upd) (rt_commandPid existing)),
      rt_evidenceRoot := or_else (up_evidenceRoot upd) (rt_evidenceRoot existing),
      rt_memoryCeilingBytes := pos_flag (up_memoryCeilingBytes upd) (rt_memoryCeilingBytes existing),
      rt_monitorIntervalMs := or_else (pos_flag (up_monitorIntervalMs upd) (rt_monitorIntervalMs existing))
        (Some default_monitor_interval_ms),
      rt_ownerPgid := (if ownerPidReplaced \<and> up_ownerPgid upd = None then None
         else pos_int (or_else (flatten (up_ownerPgid upd)) (rt_ownerPgid existing))),
      rt_ownerPid := pos_int (or_else (up_ownerPid upd) (or_else (rt_ownerPid existing) (Some (ls_ownerPid l)))),
      rt_ownerRegisteredAt := or_else (up_ownerRegisteredAt upd) (rt_ownerRegisteredAt existing),
      rt_simulatorProcessNames := names,
      rt_updatedAt := or_else (up_updatedAt upd) (rt_updatedAt existing)\<rparr>)"

definition leaseHasContainmentProcessMetadata :: "lease \<Rightarrow> bool" where
  "leaseHasContainmentProcessMetadata l =
    (let r = existing_runtime l in
     pos_int (rt_commandPid r) \<noteq> None \<or> pos_int (rt_commandPgid r) \<noteq> None
     \<or> pos_int (rt_memoryCeilingBytes r) \<noteq> None \<or> pos_int (rt_ownerPgid r) \<noteq> None
     \<or> normalizeStringArray (Some (NameList (rt_simulatorProcessNames r))) \<noteq> [])"

definition defaultSimulatorProcessNames :: "lease \<Rightarrow> string list" where
  "defaultSimulatorProcessNames l =
    uniq ([''Test Host App'', ''XCTRunner'', ''xctest'']
      @ (if ls_projectName l \<noteq> []
         then [ls_projectName l @ '' Test Host App'', ls_projectName l @ ''Tests'', ls_projectName l @ ''UITests'']
         else []))"

definition simulatorProcessNamesForLease :: "lease \<Rightarrow> lease_runtime \<Rightarrow> string list" where
  "simulatorProcessNamesForLease l r =
    uniq (defaultSimulatorProcessNames l @ normalizeStringArray (Some (NameList (rt_simulatorProcessNames r))))"

section \<open>Process table\<close>

record proc =
  pr_command :: string
  pr_elapsed :: "string option"
  pr_pgid :: "int option"
  pr_pid :: int
  pr_ppid :: "int option"
  pr_rssBytes :: int
  pr_stat :: "string option"
  pr_vszBytes :: int

definition truthy_text :: "string option \<Rightarrow> string option" where
  "truthy_text t = (if t = Some [] then None else t)"

definition normalizeProcessRecord :: "raw_proc \<Rightarrow> proc option" where
  "normalizeProcessRecord r =
    (case pos_int (rw_pid r) of
       None \<Rightarrow> None
     | Some pid \<Rightarrow> Some \<lparr>pr_command = nullish (rw_command r) [], pr_elapsed = truthy_text (rw_elapsed r),
         pr_pgid = pos_int (rw_pgid r), pr_pid = pid, pr_ppid = pos_int (rw_ppid r),
         pr_rssBytes = nullish (or_else (nonneg_opt (rw_rssBytes r)) (map_option (\<lambda>k. k * 1024) (nonneg_opt (rw_rssKb r)))) 0,
         pr_stat = truthy_text (rw_stat r),
         pr_vszBytes = nullish (or_else (nonneg_opt (rw_vszBytes r)) (map_option (\<lambda>k. k * 1024) (nonneg_opt (rw_vszKb r)))) 0\<rparr>)"

definition normalizeProcessTable :: "raw_proc list \<Rightarrow> proc list" where
  "normalizeProcessTable records =
    js_sort (\<lambda>left right. cmp_int (pr_pid left) (pr_pid right))
      (filter (\<lambda>p. \<not> is_sampler_command (js_trim (pr_command p))) (List.map_filter normalizeProcessRecord records))"

text \<open>A normalised record handed to \<open>normalizeProcessTable\<close> once more.\<close>

definition raw_of_proc :: "proc \<Rightarrow> raw_proc" where
  "raw_of_proc p = \<lparr>rw_command = Some (pr_command p), rw_elapsed = pr_elapsed p, rw_pgid = pr_pgid p,
     rw_pid = Some (pr_pid p), rw_ppid = pr_ppid p, rw_rssBytes = Some (pr_rssBytes p), rw_rssKb = None,
     rw_stat = pr_stat p, rw_vszBytes = Some (pr_vszBytes p), rw_vszKb = None\<rparr>"

definition processLooksDefunct :: "proc \<Rightarrow> bool" where
  "processLooksDefunct p =
    (starts_with (map upper_char (js_trim (nullish (pr_stat p) []))) ''Z'' \<or> str_includes (pr_command p) ''<defunct>'')"

definition by_pid :: "proc list \<Rightarrow> int \<Rightarrow> proc option" where
  "by_pid ps k = map_get (map (\<lambda>p. (pr_pid p, p)) ps) k"

section \<open>Descendants\<close>

definition children_of :: "proc list \<Rightarrow> int \<Rightarrow> int list" where
  "children_of ps parent = map pr_pid (filter (\<lambda>p. pr_ppid p = Some parent) ps)"

text \<open>The inner loop: \<open>d\<close> are the discovered pids, \<open>q\<close> is the queue.\<close>

fun visit_children :: "int list \<Rightarrow> int list \<Rightarrow> int list \<Rightarrow> int list \<times> int list" where
  "visit_children [] d q = (d, q)"
| "visit_children (c # cs) d q =
     (if c \<in> set d then visit_children cs d q else visit_children cs (d @ [c]) (q @ [c]))"

lemma visit_children_spec:
  "visit_children cs d q = (d', q') \<Longrightarrow>
     \<exists>new. d' = d @ new \<and> q' = q @ new \<and> set d' = set d \<union> set cs \<and> distinct new \<and> set new \<inter> set d = {}"
proof (induction cs arbitrary: d q)
  case Nil
  then show ?case by auto
next
  case (Cons c cs)
  show ?case
  proof (cases "c \<in> set d")
    case True
    with Cons show ?thesis by (fastforce simp: insert_absorb)
  next
    case False
    with Cons.prems have "visit_children cs (d @ [c]) (q @ [c]) = (d', q')" by simp
    from Cons.IH [OF this] obtain new where "d' = (d @ [c]) @ new" "q' = (q @ [c]) @ new"
      "set d' = set (d @ [c]) \<union> set cs" "distinct new" "set new \<inter> set (d @ [c]) = {}" by auto
    with False show ?thesis by (intro exI [of _ "c # new"]) auto
  qed
qed

function descend :: "proc list \<Rightarrow> int list \<Rightarrow> int list \<Rightarrow> int list" where
  "descend ps d [] = d"
| "descend ps d (parent # q) = (let (d', q') = visit_children (children_of ps parent) d q in descend ps d' q')"
  by pat_completeness auto

termination
proof (relation "measure (\<lambda>(ps, d, q). length q + 2 * card (set (map pr_pid ps) - set d))", simp, goal_cases)
  case (1 ps d parent q x d' q')
  from 1 obtain new where new: "d' = d @ new" "q' = q @ new" "distinct new" "set new \<inter> set d = {}"
    "set d' = set d \<union> set (children_of ps parent)"
    using visit_children_spec [of "children_of ps parent" d q d' q'] by auto
  let ?A = "set (map pr_pid ps)"
  have "set new \<subseteq> ?A" using new(1,4,5) by (auto simp: children_of_def)
  then have "card (?A - set d) = card (?A - set d') + length new"
  proof -
    have "?A - set d = (?A - set d') \<union> set new" "(?A - set d') \<inter> set new = {}"
      using \<open>set new \<subseteq> ?A\<close> new(1,4) by auto
    then have "card (?A - set d) = card (?A - set d') + card (set new)"
      by (metis List.finite_set card_Un_disjoint finite_Diff)
    with new(3) show ?thesis by (simp add: distinct_card)
  qed
  with new(2) show ?case by simp
qed

definition collectDescendantPids :: "proc list \<Rightarrow> int list \<Rightarrow> int list" where
  "collectDescendantPids ps rootPids = descend ps [] rootPids"

section \<open>Matching a process against the lease\<close>

definition shell_process_names :: "string list" where
  "shell_process_names = [''bash'', ''dash'', ''fish'', ''ksh'', ''sh'', ''zsh'']"

definition looksLikeShellProcess :: "string \<Rightarrow> bool" where
  "looksLikeShellProcess command =
    (executable_name (takeWhile (\<lambda>c. \<not> js_space c) (js_trim command)) \<in> set shell_process_names)"

definition commandReferencesLeaseSimulator :: "proc \<Rightarrow> lease \<Rightarrow> bool" where
  "commandReferencesLeaseSimulator p l = (ls_simulatorId l \<noteq> [] \<and> str_includes (pr_command p) (ls_simulatorId l))"

definition commandMatchesSimulatorLease :: "proc \<Rightarrow> lease \<Rightarrow> lease_runtime \<Rightarrow> bool" where
  "commandMatchesSimulatorLease p l r =
    (if ls_simulatorId l = [] \<or> \<not> str_includes (pr_command p) (ls_simulatorId l) then False
     else list_ex (\<lambda>name. str_includes (pr_command p) name) (simulatorProcessNamesForLease l r))"

definition command_pid_identity_tolerance_ms :: int where
  "command_pid_identity_tolerance_ms = 15000"

definition processLifetimeMatchesTimestamp :: "date_parse \<Rightarrow> proc \<Rightarrow> string option \<Rightarrow> int option \<Rightarrow> bool" where
  "processLifetimeMatchesTimestamp dp p startedAtValue now =
    (case (parse_opt dp startedAtValue, now, parseElapsedMilliseconds (pr_elapsed p)) of
       (Some startedAt, Some observedAt, Some elapsed) \<Rightarrow>
         \<not> observedAt < startedAt \<and> observedAt - startedAt \<le> elapsed + command_pid_identity_tolerance_ms
     | _ \<Rightarrow> False)"

definition ownerPidMatchesLease :: "date_parse \<Rightarrow> proc \<Rightarrow> lease \<Rightarrow> lease_runtime \<Rightarrow> int option \<Rightarrow> bool" where
  "ownerPidMatchesLease dp p l r now =
    (if processLooksDefunct p then False
     else if pos_int (rt_ownerPgid r) \<noteq> None \<and> pr_pgid p \<noteq> pos_int (rt_ownerPgid r) then False
     else processLifetimeMatchesTimestamp dp p (or_else (rt_ownerRegisteredAt r) (Some (ls_startedAt l))) now)"

definition commandPidMatchesRegisteredMetadata :: "date_parse \<Rightarrow> proc \<Rightarrow> lease_runtime \<Rightarrow> int option \<Rightarrow> bool" where
  "commandPidMatchesRegisteredMetadata dp p r now =
    (if processLooksDefunct p then False
     else if \<not> processLifetimeMatchesTimestamp dp p (or_else (rt_commandRegisteredAt r) (rt_updatedAt r)) now then False
     else (let expected = commandExecutableNames (rt_command r) in
       if expected = [] then True
       else list_ex (\<lambda>n. n \<in> set expected) (processExecutableCandidates (pr_command p))))"

definition commandPidMatchesLease ::
  "date_parse \<Rightarrow> proc \<Rightarrow> lease_runtime \<Rightarrow> int option \<Rightarrow> bool \<Rightarrow> int option \<Rightarrow> bool" where
  "commandPidMatchesLease dp p r ownerPid ownerProcessPresent now =
    (if processLooksDefunct p then False
     else if pos_int (rt_commandPgid r) \<noteq> None then
       (if pr_pgid p \<noteq> pos_int (rt_commandPgid r) then False
        else commandPidMatchesRegisteredMetadata dp p r now)
     else if ownerProcessPresent \<and> ownerPid \<noteq> None then
       pr_ppid p = ownerPid \<and> commandPidMatchesRegisteredMetadata dp p r now
     else commandPidMatchesRegisteredMetadata dp p r now)"

definition commandProcessGroupStillMatchesLease ::
  "date_parse \<Rightarrow> proc list \<Rightarrow> lease_runtime \<Rightarrow> int option \<Rightarrow> bool" where
  "commandProcessGroupStillMatchesLease dp ps r now =
    (case pos_int (rt_commandPgid r) of
       None \<Rightarrow> False
     | Some g \<Rightarrow>
        (let groupMembers = filter (\<lambda>p. pr_pgid p = Some g) ps in
         if groupMembers = [] then False
         else case by_pid ps g of
           None \<Rightarrow> True
         | Some leader \<Rightarrow>
             if pr_pgid leader \<noteq> Some g then True
             else if processLooksDefunct leader
               then list_ex (\<lambda>p. pr_pid p \<noteq> pr_pid leader \<and> \<not> processLooksDefunct p) groupMembers
             else processLifetimeMatchesTimestamp dp leader (or_else (rt_commandRegisteredAt r) (rt_updatedAt r)) now))"

definition isSignalableProcessGroupId :: "int option \<Rightarrow> bool" where
  "isSignalableProcessGroupId pgid = (case pgid of None \<Rightarrow> False | Some g \<Rightarrow> 1 < g)"

section \<open>Discovery\<close>

text \<open>The roots of the owner's process group that work on the simulator of the lease, with all their
  descendants.\<close>

definition ownerProcessGroupLeasePids :: "lease \<Rightarrow> lease_runtime \<Rightarrow> proc list \<Rightarrow> int \<Rightarrow> int list" where
  "ownerProcessGroupLeasePids l r ps ownerPgid =
    (let roots = map pr_pid (filter (\<lambda>p. \<not> looksLikeShellProcess (pr_command p)
           \<and> (commandMatchesSimulatorLease p l r \<or> commandReferencesLeaseSimulator p l))
           (filter (\<lambda>p. pr_pgid p = Some ownerPgid) ps))
     in if roots = [] then [] else roots @ collectDescendantPids ps roots)"

type_synonym owned = "(proc \<times> string list) list"

fun addOwnedProcess :: "owned \<Rightarrow> proc \<Rightarrow> string \<Rightarrow> owned" where
  "addOwnedProcess [] p reason = [(p, [reason])]"
| "addOwnedProcess ((q, rs) # os) p reason =
     (if pr_pid q = pr_pid p then (q, if reason \<in> set rs then rs else rs @ [reason]) # os
      else (q, rs) # addOwnedProcess os p reason)"

fun add_all :: "owned \<Rightarrow> (proc \<times> string) list \<Rightarrow> owned" where
  "add_all os [] = os"
| "add_all os ((p, reason) # prs) = add_all (addOwnedProcess os p reason) prs"

definition os_pids :: "owned \<Rightarrow> int list" where
  "os_pids os = map (\<lambda>e. pr_pid (fst e)) os"

record discovery =
  dc_commandPgid :: "int option"
  dc_owned :: owned
  dc_ownerPgid :: "int option"
  dc_skipped :: "proc list"

text \<open>The validated owner, the process group of the owner and the validated command.\<close>

definition validated_owner :: "date_parse \<Rightarrow> lease \<Rightarrow> lease_runtime \<Rightarrow> proc list \<Rightarrow> int option \<Rightarrow> int option" where
  "validated_owner dp l r ps now =
    (case pos_int (or_else (rt_ownerPid r) (Some (ls_ownerPid l))) of
       None \<Rightarrow> None
     | Some pid \<Rightarrow> (case by_pid ps pid of None \<Rightarrow> None
         | Some p \<Rightarrow> if ownerPidMatchesLease dp p l r now then Some pid else None))"

definition owner_group :: "lease_runtime \<Rightarrow> proc list \<Rightarrow> int option \<Rightarrow> int option" where
  "owner_group r ps validatedOwnerPid =
    or_else (pos_int (rt_ownerPgid r))
      (case validatedOwnerPid of None \<Rightarrow> None | Some pid \<Rightarrow> pos_int (Option.bind (by_pid ps pid) pr_pgid))"

definition validated_command ::
  "date_parse \<Rightarrow> lease_runtime \<Rightarrow> proc list \<Rightarrow> int option \<Rightarrow> int option \<Rightarrow> int option" where
  "validated_command dp r ps validatedOwnerPid now =
    (case pos_int (rt_commandPid r) of
       None \<Rightarrow> None
     | Some pid \<Rightarrow> (case by_pid ps pid of None \<Rightarrow> None
         | Some p \<Rightarrow> if commandPidMatchesLease dp p r validatedOwnerPid (validatedOwnerPid \<noteq> None) now
             then Some pid else None))"

definition claims_command_group ::
  "date_parse \<Rightarrow> lease_runtime \<Rightarrow> proc list \<Rightarrow> int option \<Rightarrow> int option \<Rightarrow> int option \<Rightarrow> bool" where
  "claims_command_group dp r ps ownerPgid validatedCommandPid now =
    (isSignalableProcessGroupId (pos_int (rt_commandPgid r))
     \<and> (if validatedCommandPid \<noteq> None
        then (ownerPgid \<noteq> None \<and> pos_int (rt_commandPgid r) \<noteq> ownerPgid)
           \<or> (ownerPgid = None \<and> validatedCommandPid = pos_int (rt_commandPgid r))
        else commandProcessGroupStillMatchesLease dp ps r now
           \<and> (ownerPgid = None \<or> pos_int (rt_commandPgid r) \<noteq> ownerPgid)))"

text \<open>The pids of a list that are in the table, with a reason.\<close>

definition found :: "proc list \<Rightarrow> int list \<Rightarrow> string \<Rightarrow> (proc \<times> string) list" where
  "found ps pids reason = map (\<lambda>p. (p, reason)) (List.map_filter (by_pid ps) pids)"

definition discover_in_table :: "date_parse \<Rightarrow> lease \<Rightarrow> proc list \<Rightarrow> int option \<Rightarrow> discovery" where
  "discover_in_table dp l ps now =
    (let r = buildLeaseRuntimeMetadata l no_options;
         commandPgid = pos_int (rt_commandPgid r);
         validatedOwnerPid = validated_owner dp l r ps now;
         ownerPgid = owner_group r ps validatedOwnerPid;
         validatedCommandPid = validated_command dp r ps validatedOwnerPid now;
         rootPids = uniq (List.map_filter id [validatedOwnerPid, validatedCommandPid]);
         simulatorRoots = filter (\<lambda>p. commandMatchesSimulatorLease p l r) ps;
         os = add_all []
           (found ps (List.map_filter id [validatedOwnerPid]) ''owner-pid''
            @ found ps (List.map_filter id [validatedCommandPid]) ''command-pid''
            @ found ps (collectDescendantPids ps rootPids) ''descendant''
            @ (case ownerPgid of None \<Rightarrow> []
               | Some g \<Rightarrow> map (\<lambda>p. (p, if pr_pgid p = Some g then ''owner-process-group'' else ''descendant''))
                   (filter (\<lambda>p. pr_pid p \<in> set (ownerProcessGroupLeasePids l r ps g)) ps))
            @ (if claims_command_group dp r ps ownerPgid validatedCommandPid now
               then map (\<lambda>p. (p, ''command-process-group'')) (filter (\<lambda>p. pr_pgid p = commandPgid) ps) else [])
            @ map (\<lambda>p. (p, ''simulator-process'')) simulatorRoots
            @ found ps (collectDescendantPids ps (map pr_pid simulatorRoots)) ''descendant'')
     in \<lparr>dc_commandPgid = commandPgid, dc_owned = map (\<lambda>(p, rs). (p, sort_strings rs)) os,
         dc_ownerPgid = ownerPgid,
         dc_skipped = filter (\<lambda>p. pr_pid p \<notin> set (os_pids os)) ps\<rparr>)"

definition discoverLeaseOwnedProcesses :: "date_parse \<Rightarrow> lease \<Rightarrow> raw_proc list \<Rightarrow> int option \<Rightarrow> discovery" where
  "discoverLeaseOwnedProcesses dp l records now = discover_in_table dp l (normalizeProcessTable records) now"

definition owned_pids :: "discovery \<Rightarrow> int list" where
  "owned_pids d = os_pids (dc_owned d)"

section \<open>Lemmas\<close>

definition child_rel :: "proc list \<Rightarrow> (int \<times> int) set" where
  "child_rel ps = {(a, b). \<exists>p\<in>set ps. pr_ppid p = Some a \<and> pr_pid p = b}"

lemma set_children_of: "set (children_of ps a) = {b. (a, b) \<in> child_rel ps}"
  by (auto simp: children_of_def child_rel_def)

lemma descend_sound:
  "x \<in> set (descend ps d q) \<Longrightarrow> x \<in> set d \<or> (\<exists>a\<in>set q. (a, x) \<in> (child_rel ps)\<^sup>+)"
proof (induction ps d q arbitrary: x rule: descend.induct)
  case (1 ps d)
  then show ?case by simp
next
  case (2 ps d parent q)
  obtain d' q' where v: "visit_children (children_of ps parent) d q = (d', q')" by (cases "visit_children (children_of ps parent) d q")
  then obtain new where new: "d' = d @ new" "q' = q @ new" "set d' = set d \<union> set (children_of ps parent)"
    "set new \<inter> set d = {}" using visit_children_spec by blast
  then have child: "(parent, y) \<in> child_rel ps" if "y \<in> set new" for y
    using that by (auto simp: set_children_of)
  from 2(2) v have "x \<in> set (descend ps d' q')" by simp
  from 2(1) [OF v [symmetric] refl this] show ?case
  proof
    assume "x \<in> set d'"
    with new(1) child show ?thesis by auto
  next
    assume "\<exists>a\<in>set q'. (a, x) \<in> (child_rel ps)\<^sup>+"
    then obtain a where a: "a \<in> set q \<or> a \<in> set new" "(a, x) \<in> (child_rel ps)\<^sup>+" using new(2) by auto
    then show ?thesis using child [of a] by (auto intro: trancl_into_trancl2)
  qed
qed

lemma descend_closed:
  assumes "\<forall>y\<in>set d. y \<in> set q \<or> (\<forall>z. (y, z) \<in> child_rel ps \<longrightarrow> z \<in> set d)"
  shows "set d \<subseteq> set (descend ps d q)
    \<and> (\<forall>y z. y \<in> set q \<union> set (descend ps d q) \<and> (y, z) \<in> child_rel ps \<longrightarrow> z \<in> set (descend ps d q))"
  using assms
proof (induction ps d q rule: descend.induct)
  case (1 ps d)
  then show ?case by auto
next
  case (2 ps d parent q)
  obtain d' q' where v: "visit_children (children_of ps parent) d q = (d', q')" by (cases "visit_children (children_of ps parent) d q")
  then obtain new where new: "d' = d @ new" "q' = q @ new" "set d' = set d \<union> set (children_of ps parent)"
    using visit_children_spec by blast
  have "\<forall>y\<in>set d'. y \<in> set q' \<or> (\<forall>z. (y, z) \<in> child_rel ps \<longrightarrow> z \<in> set d')"
    using 2(2) new by (auto simp: set_children_of)
  from 2(1) [OF v [symmetric] refl this] have
    IH: "set d' \<subseteq> set (descend ps d' q')"
      "\<forall>y z. y \<in> set q' \<union> set (descend ps d' q') \<and> (y, z) \<in> child_rel ps \<longrightarrow> z \<in> set (descend ps d' q')"
    by auto
  moreover have "z \<in> set (descend ps d' q')" if "(parent, z) \<in> child_rel ps" for z
    using that IH(1) new(3) by (auto simp: set_children_of)
  ultimately show ?case using v new(1,2) by auto
qed

lemma os_pids_simps [simp]:
  "os_pids [] = []" "os_pids (e # os) = pr_pid (fst e) # os_pids os"
  by (simp_all add: os_pids_def)

lemma addOwnedProcess_pids: "set (os_pids (addOwnedProcess os p r)) = insert (pr_pid p) (set (os_pids os))"
  by (induction os p r rule: addOwnedProcess.induct) auto

lemma addOwnedProcess_procs: "fst ` set (addOwnedProcess os p r) \<subseteq> insert p (fst ` set os)"
  by (induction os p r rule: addOwnedProcess.induct) auto

lemma addOwnedProcess_distinct: "distinct (os_pids os) \<Longrightarrow> distinct (os_pids (addOwnedProcess os p r))"
  by (induction os p r rule: addOwnedProcess.induct) (auto simp: addOwnedProcess_pids)

lemma add_all_pids: "set (os_pids (add_all os prs)) = pr_pid ` fst ` set prs \<union> set (os_pids os)"
  by (induction os prs rule: add_all.induct) (auto simp: addOwnedProcess_pids)

lemma add_all_procs: "fst ` set (add_all os prs) \<subseteq> fst ` set prs \<union> fst ` set os"
proof (induction os prs rule: add_all.induct)
  case (2 os p r prs)
  with addOwnedProcess_procs [of os p r] show ?case by simp blast
qed simp

lemma add_all_distinct: "distinct (os_pids os) \<Longrightarrow> distinct (os_pids (add_all os prs))"
  by (induction os prs rule: add_all.induct) (auto intro: addOwnedProcess_distinct)

lemma os_pids_sorted [simp]: "os_pids (map (\<lambda>(p, rs). (p, f rs)) os) = os_pids os"
  by (induction os) auto

lemma by_pid_Some: "by_pid ps k = Some p \<Longrightarrow> p \<in> set ps \<and> pr_pid p = k"
  by (auto simp: by_pid_def dest!: map_get_SomeD)

lemma found_in: "pr \<in> set (found ps pids reason) \<Longrightarrow> fst pr \<in> set ps \<and> pr_pid (fst pr) \<in> set pids"
  by (auto simp: found_def List.map_filter_def dest: by_pid_Some)

lemma by_pid_iff: "by_pid ps k \<noteq> None \<longleftrightarrow> k \<in> pr_pid ` set ps"
  by (force simp: by_pid_def map_get_None_iff)

lemma found_pids: "pr_pid ` fst ` set (found ps pids reason) = set pids \<inter> pr_pid ` set ps"
proof
  show "pr_pid ` fst ` set (found ps pids reason) \<subseteq> set pids \<inter> pr_pid ` set ps"
    by (auto dest: found_in)
  show "set pids \<inter> pr_pid ` set ps \<subseteq> pr_pid ` fst ` set (found ps pids reason)"
  proof
    fix k assume k: "k \<in> set pids \<inter> pr_pid ` set ps"
    then obtain p where p: "by_pid ps k = Some p" using by_pid_iff [of ps k] by auto
    with k have "(p, reason) \<in> set (found ps pids reason)"
      by (force simp: found_def List.map_filter_def)
    with by_pid_Some [OF p] show "k \<in> pr_pid ` fst ` set (found ps pids reason)" by force
  qed
qed

text \<open>Why a process may be claimed by itself: it is the validated owner or command, it works on the
  simulator of the lease under one of its names, or in the owner's group, or it is in the claimed group
  of the command.  The descendants of all but the last are claimed with them.\<close>

definition tree_root :: "date_parse \<Rightarrow> lease \<Rightarrow> proc list \<Rightarrow> int option \<Rightarrow> proc \<Rightarrow> bool" where
  "tree_root dp l ps now p \<longleftrightarrow>
    (let r = buildLeaseRuntimeMetadata l no_options; ow = validated_owner dp l r ps now in
     ow = Some (pr_pid p) \<or> validated_command dp r ps ow now = Some (pr_pid p)
     \<or> commandMatchesSimulatorLease p l r
     \<or> (\<exists>g. owner_group r ps ow = Some g \<and> pr_pgid p = Some g \<and> \<not> looksLikeShellProcess (pr_command p)
          \<and> (commandMatchesSimulatorLease p l r \<or> commandReferencesLeaseSimulator p l)))"

definition group_root :: "date_parse \<Rightarrow> lease \<Rightarrow> proc list \<Rightarrow> int option \<Rightarrow> proc \<Rightarrow> bool" where
  "group_root dp l ps now p \<longleftrightarrow>
    (let r = buildLeaseRuntimeMetadata l no_options; ow = validated_owner dp l r ps now in
     claims_command_group dp r ps (owner_group r ps ow) (validated_command dp r ps ow now) now
     \<and> pr_pgid p = pos_int (rt_commandPgid r))"

lemma collect_set: "set (collectDescendantPids ps roots) = {x. \<exists>a\<in>set roots. (a, x) \<in> (child_rel ps)\<^sup>+}"
proof
  show "set (collectDescendantPids ps roots) \<subseteq> {x. \<exists>a\<in>set roots. (a, x) \<in> (child_rel ps)\<^sup>+}"
    using descend_sound [of _ ps "[]" roots] by (auto simp: collectDescendantPids_def)
  let ?D = "set (descend ps [] roots)"
  have closed: "\<forall>y z. y \<in> set roots \<union> ?D \<and> (y, z) \<in> child_rel ps \<longrightarrow> z \<in> ?D"
    using descend_closed [of "[]" roots ps] by simp
  have "x \<in> ?D" if "a \<in> set roots" "(a, x) \<in> (child_rel ps)\<^sup>+" for a x
    using that(2) by (induction rule: trancl_induct) (use that(1) closed in blast)+
  then show "{x. \<exists>a\<in>set roots. (a, x) \<in> (child_rel ps)\<^sup>+} \<subseteq> set (collectDescendantPids ps roots)"
    by (auto simp: collectDescendantPids_def)
qed

lemma child_trancl_pid: "(a, x) \<in> (child_rel ps)\<^sup>+ \<Longrightarrow> x \<in> pr_pid ` set ps"
  by (induction rule: trancl_induct) (auto simp: child_rel_def)

lemma validated_in_table:
  "validated_owner dp l r ps now = Some k \<Longrightarrow> k \<in> pr_pid ` set ps"
  "validated_command dp r ps ow now = Some k \<Longrightarrow> k \<in> pr_pid ` set ps"
  using by_pid_iff [of ps k]
  by (auto simp: validated_owner_def validated_command_def split: option.splits if_splits)

lemma owner_group_pids:
  "set (ownerProcessGroupLeasePids l r ps g) =
     (let R = {pr_pid p |p. p \<in> set ps \<and> pr_pgid p = Some g \<and> \<not> looksLikeShellProcess (pr_command p)
          \<and> (commandMatchesSimulatorLease p l r \<or> commandReferencesLeaseSimulator p l)}
      in R \<union> {x. \<exists>a\<in>R. (a, x) \<in> (child_rel ps)\<^sup>+})"
proof -
  let ?roots = "map pr_pid (filter (\<lambda>p. \<not> looksLikeShellProcess (pr_command p)
    \<and> (commandMatchesSimulatorLease p l r \<or> commandReferencesLeaseSimulator p l)) (filter (\<lambda>p. pr_pgid p = Some g) ps))"
  have R: "set ?roots = {pr_pid p |p. p \<in> set ps \<and> pr_pgid p = Some g \<and> \<not> looksLikeShellProcess (pr_command p)
          \<and> (commandMatchesSimulatorLease p l r \<or> commandReferencesLeaseSimulator p l)}"
    by auto
  have "set (ownerProcessGroupLeasePids l r ps g) = set ?roots \<union> {x. \<exists>a\<in>set ?roots. (a, x) \<in> (child_rel ps)\<^sup>+}"
    unfolding ownerProcessGroupLeasePids_def Let_def by (simp add: collect_set del: set_map set_filter)
  then show ?thesis unfolding R Let_def .
qed

lemma regroup_roots:
  assumes "O1 \<subseteq> f ` S" "O2 \<subseteq> f ` S" "\<And>p. T p \<longleftrightarrow> f p \<in> O1 \<or> f p \<in> O2 \<or> M p \<or> W p"
  shows "O1 \<union> O2 \<union> {x. \<exists>a\<in>O1 \<union> O2. (a, x) \<in> C}
      \<union> ({f p |p. p \<in> S \<and> W p} \<union> {x. \<exists>p\<in>S. W p \<and> (f p, x) \<in> C})
      \<union> {f p |p. p \<in> S \<and> G p} \<union> {f p |p. p \<in> S \<and> M p} \<union> {x. \<exists>p\<in>S. M p \<and> (f p, x) \<in> C}
    = {f p |p. p \<in> S \<and> (T p \<or> G p)} \<union> {x. \<exists>p\<in>S. T p \<and> (f p, x) \<in> C}" (is "?L = ?R")
proof
  show "?L \<subseteq> ?R" using assms(1,2) unfolding assms(3) by blast
  show "?R \<subseteq> ?L" unfolding assms(3) by blast
qed

section \<open>Properties\<close>

text \<open>The breadth-first search over parent pids finds exactly the proper descendants of the roots,
  however pids repeat or parent links form cycles.\<close>

theorem collectDescendantPids_reachable:
  "set (collectDescendantPids ps roots) = {x. \<exists>a\<in>set roots. (a, x) \<in> (child_rel ps)\<^sup>+}"
  by (rule collect_set)

text \<open>C34: a process is owned by the lease exactly when it can be claimed by itself or descends from a
  process that can: nothing else in the table is ever touched by containment.  Every process is owned
  or skipped, none is both, and no pid is owned twice.\<close>

theorem discovery_characterised:
  "let d = discover_in_table dp l ps now in
     set (owned_pids d) = {pr_pid p |p. p \<in> set ps \<and> (tree_root dp l ps now p \<or> group_root dp l ps now p)}
       \<union> {x. \<exists>p\<in>set ps. tree_root dp l ps now p \<and> (pr_pid p, x) \<in> (child_rel ps)\<^sup>+}
     \<and> fst ` set (dc_owned d) \<subseteq> set ps \<and> distinct (owned_pids d)
     \<and> dc_skipped d = filter (\<lambda>p. pr_pid p \<notin> set (owned_pids d)) ps"
proof -
  let ?r = "buildLeaseRuntimeMetadata l no_options"
  let ?ow = "validated_owner dp l ?r ps now"
  let ?g = "owner_group ?r ps ?ow"
  let ?vc = "validated_command dp ?r ps ?ow now"
  let ?roots = "uniq (List.map_filter id [?ow, ?vc])"
  let ?sim = "filter (\<lambda>p. commandMatchesSimulatorLease p l ?r) ps"
  let ?claims = "claims_command_group dp ?r ps ?g ?vc now"
  let ?prs = "found ps (List.map_filter id [?ow]) ''owner-pid'' @ found ps (List.map_filter id [?vc]) ''command-pid''
    @ found ps (collectDescendantPids ps ?roots) ''descendant''
    @ (case ?g of None \<Rightarrow> []
       | Some g \<Rightarrow> map (\<lambda>p. (p, if pr_pgid p = Some g then ''owner-process-group'' else ''descendant''))
           (filter (\<lambda>p. pr_pid p \<in> set (ownerProcessGroupLeasePids l ?r ps g)) ps))
    @ (if ?claims then map (\<lambda>p. (p, ''command-process-group'')) (filter (\<lambda>p. pr_pgid p = pos_int (rt_commandPgid ?r)) ps) else [])
    @ map (\<lambda>p. (p, ''simulator-process'')) ?sim
    @ found ps (collectDescendantPids ps (map pr_pid ?sim)) ''descendant''"
  let ?C = "(child_rel ps)\<^sup>+"
  let ?W = "\<lambda>p g. pr_pgid p = Some g \<and> \<not> looksLikeShellProcess (pr_command p)
    \<and> (commandMatchesSimulatorLease p l ?r \<or> commandReferencesLeaseSimulator p l)"
  let ?V = "\<lambda>p. \<exists>g. ?g = Some g \<and> ?W p g" and ?M = "\<lambda>p. commandMatchesSimulatorLease p l ?r"
  have in_table: "set_option ?ow \<subseteq> pr_pid ` set ps" "set_option ?vc \<subseteq> pr_pid ` set ps"
    using validated_in_table by auto
  have desc: "{x. \<exists>a\<in>A. (a, x) \<in> ?C} \<inter> pr_pid ` set ps = {x. \<exists>a\<in>A. (a, x) \<in> ?C}" for A
    using child_trancl_pid by blast
  have roots: "set (List.map_filter id [a]) = set_option a" "set ?roots = set_option ?ow \<union> set_option ?vc" for a
    by (auto simp: List.map_filter_def split: option.splits)
  have owner: "pr_pid ` fst ` set (case ?g of None \<Rightarrow> []
       | Some g \<Rightarrow> map (\<lambda>p. (p, if pr_pgid p = Some g then ''owner-process-group'' else ''descendant''))
           (filter (\<lambda>p. pr_pid p \<in> set (ownerProcessGroupLeasePids l ?r ps g)) ps))
    = {pr_pid p |p. p \<in> set ps \<and> ?V p} \<union> {x. \<exists>p\<in>set ps. ?V p \<and> (pr_pid p, x) \<in> ?C}"
  proof (cases ?g)
    case (Some g)
    let ?R = "{pr_pid p |p. p \<in> set ps \<and> ?W p g}"
    have "pr_pid ` {p \<in> set ps. pr_pid p \<in> set (ownerProcessGroupLeasePids l ?r ps g)}
      = set (ownerProcessGroupLeasePids l ?r ps g) \<inter> pr_pid ` set ps" by auto
    also have "\<dots> = ?R \<union> {x. \<exists>a\<in>?R. (a, x) \<in> ?C}"
      unfolding owner_group_pids Let_def Int_Un_distrib2 desc by auto
    finally show ?thesis using Some by (auto simp: image_image)
  qed simp
  have "pr_pid ` fst ` set ?prs = set_option ?ow \<union> set_option ?vc \<union> {x. \<exists>a\<in>set_option ?ow \<union> set_option ?vc. (a, x) \<in> ?C}
      \<union> ({pr_pid p |p. p \<in> set ps \<and> ?V p} \<union> {x. \<exists>p\<in>set ps. ?V p \<and> (pr_pid p, x) \<in> ?C})
      \<union> {pr_pid p |p. p \<in> set ps \<and> group_root dp l ps now p}
      \<union> {pr_pid p |p. p \<in> set ps \<and> commandMatchesSimulatorLease p l ?r}
      \<union> {x. \<exists>p\<in>set ps. commandMatchesSimulatorLease p l ?r \<and> (pr_pid p, x) \<in> ?C}"
    unfolding set_append image_Un owner found_pids collect_set roots desc
    using in_table by (auto simp: image_image group_root_def Let_def)
  also have "\<dots> = {pr_pid p |p. p \<in> set ps \<and> (tree_root dp l ps now p \<or> group_root dp l ps now p)}
       \<union> {x. \<exists>p\<in>set ps. tree_root dp l ps now p \<and> (pr_pid p, x) \<in> ?C}"
    by (rule regroup_roots [OF in_table, where M = ?M and W = ?V])
      (auto simp: tree_root_def Let_def elem_set)
  finally have pids: "pr_pid ` fst ` set ?prs = {pr_pid p |p. p \<in> set ps \<and> (tree_root dp l ps now p \<or> group_root dp l ps now p)}
       \<union> {x. \<exists>p\<in>set ps. tree_root dp l ps now p \<and> (pr_pid p, x) \<in> ?C}" .
  have d: "dc_owned (discover_in_table dp l ps now) = map (\<lambda>(p, rs). (p, sort_strings rs)) (add_all [] ?prs)"
    by (simp add: discover_in_table_def Let_def)
  have procs: "fst ` set ?prs \<subseteq> set ps"
    by (auto dest: found_in split: option.splits)
  then have "fst ` set (add_all [] ?prs) \<subseteq> set ps" using add_all_procs [of "[]" ?prs] by auto
  then show ?thesis
    using pids add_all_pids [of "[]" ?prs] add_all_distinct [of "[]" ?prs]
    by (simp add: d owned_pids_def Let_def image_image case_prod_beta)
      (simp add: discover_in_table_def Let_def)
qed

end
