(* ===== verification/Effects.thy ===== *)
theory Effects
  imports Error_Contract
begin

text \<open>
  Stateful code that may throw: an operation takes the state of the world and returns a value or the
  error it throws, with the state it leaves behind.  A throw keeps the changes made before it, as a
  JavaScript exception does.  The rules of \<open>triple\<close> let the operations be verified piece by piece.
\<close>

section \<open>Operations\<close>

type_synonym ('w, 'a) eff = "'w \<Rightarrow> (berr + 'a) \<times> 'w"

definition ret :: "'a \<Rightarrow> ('w, 'a) eff" where
  "ret x = (\<lambda>w. (Inr x, w))"

definition throw :: "berr \<Rightarrow> ('w, 'a) eff" where
  "throw e = (\<lambda>w. (Inl e, w))"

definition check :: "berr + 'a \<Rightarrow> ('w, 'a) eff" where
  "check r = (\<lambda>w. (r, w))"

definition andthen :: "('w, 'a) eff \<Rightarrow> ('a \<Rightarrow> ('w, 'b) eff) \<Rightarrow> ('w, 'b) eff" where
  "andthen m k = (\<lambda>w. case m w of (Inl e, w') \<Rightarrow> (Inl e, w') | (Inr x, w') \<Rightarrow> k x w')"

text \<open>\<open>try { m } catch (error) { h(error) }\<close>\<close>

definition catching :: "('w, 'a) eff \<Rightarrow> (berr \<Rightarrow> ('w, 'a) eff) \<Rightarrow> ('w, 'a) eff" where
  "catching m h = (\<lambda>w. case m w of (Inl e, w') \<Rightarrow> h e w' | (Inr x, w') \<Rightarrow> (Inr x, w'))"

definition update :: "('w \<Rightarrow> 'w) \<Rightarrow> ('w, unit) eff" where
  "update f = (\<lambda>w. (Inr (), f w))"

definition look :: "('w \<Rightarrow> 'a) \<Rightarrow> ('w, 'a) eff" where
  "look f = (\<lambda>w. (Inr (f w), w))"

definition unless :: "bool \<Rightarrow> ('w, unit) eff \<Rightarrow> ('w, unit) eff" where
  "unless b m = (if b then ret () else m)"

text \<open>A loop over a list that threads a value.\<close>

fun fold_eff :: "('a \<Rightarrow> 's \<Rightarrow> ('w, 's) eff) \<Rightarrow> 'a list \<Rightarrow> 's \<Rightarrow> ('w, 's) eff" where
  "fold_eff f [] s = ret s"
| "fold_eff f (x # xs) s = andthen (f x s) (\<lambda>s'. fold_eff f xs s')"

text \<open>A local variable that is assigned before a throw and read again in the handler.\<close>

definition outer :: "('s, 'a) eff \<Rightarrow> ('s \<times> 'v, 'a) eff" where
  "outer m = (\<lambda>(s, v). case m s of (r, s') \<Rightarrow> (r, (s', v)))"

definition assign :: "('v \<Rightarrow> 'v) \<Rightarrow> ('s \<times> 'v, unit) eff" where
  "assign f = update (\<lambda>(s, v). (s, f v))"

definition with_var :: "'v \<Rightarrow> ('s \<times> 'v, 'a) eff \<Rightarrow> ('s, 'a) eff" where
  "with_var v m = (\<lambda>s. case m (s, v) of (r, (s', _)) \<Rightarrow> (r, s'))"

section \<open>Running\<close>

lemma run_simps:
  "ret x w = (Inr x, w)" "throw e w = (Inl e, w)" "check r w = (r, w)"
  "update f w = (Inr (), f w)" "look g w = (Inr (g w), w)"
  by (simp_all add: ret_def throw_def check_def update_def look_def)

lemma run_andthen: "andthen m k w = (case m w of (Inl e, w') \<Rightarrow> (Inl e, w') | (Inr x, w') \<Rightarrow> k x w')"
  by (simp add: andthen_def)

lemma run_catching: "catching m h w = (case m w of (Inl e, w') \<Rightarrow> h e w' | (Inr x, w') \<Rightarrow> (Inr x, w'))"
  by (simp add: catching_def)

lemma andthen_Inr: "m w = (Inr x, w') \<Longrightarrow> andthen m k w = k x w'"
  by (simp add: andthen_def)

lemma andthen_Inl: "m w = (Inl e, w') \<Longrightarrow> andthen m k w = (Inl e, w')"
  by (simp add: andthen_def)

lemma andthen_simps [simp]:
  "andthen (ret x) k = k x" "andthen (throw e) k = throw e" "andthen (check (Inr x)) k = k x"
  "andthen (check (Inl e)) k = throw e" "andthen (look g) k = (\<lambda>w. k (g w) w)"
  "andthen (update f) j = (\<lambda>w. j () (f w))"
  by (auto simp: andthen_def run_simps)

lemma andthen_assoc: "andthen (andthen m k) j = andthen m (\<lambda>x. andthen (k x) j)"
  by (auto simp: andthen_def split: prod.splits sum.splits)

lemma run_outer: "outer m (s, v) = (case m s of (r, s') \<Rightarrow> (r, (s', v)))"
  by (simp add: outer_def)

lemma run_assign: "assign f (s, v) = (Inr (), (s, f v))"
  by (simp add: assign_def run_simps)

lemma andthen_InrE:
  assumes "andthen m k w = (Inr y, w2)"
  obtains x w1 where "m w = (Inr x, w1)" "k x w1 = (Inr y, w2)"
  using assms by (auto simp: andthen_def split: prod.splits sum.splits)

section \<open>Triples\<close>

text \<open>From every state with \<open>P\<close> the operation returns a value with \<open>Q\<close> or throws an error with \<open>E\<close>.\<close>

definition triple :: "('w \<Rightarrow> bool) \<Rightarrow> ('w, 'a) eff \<Rightarrow> ('a \<Rightarrow> 'w \<Rightarrow> bool) \<Rightarrow> (berr \<Rightarrow> 'w \<Rightarrow> bool) \<Rightarrow> bool" where
  "triple P m Q E \<longleftrightarrow> (\<forall>w. P w \<longrightarrow> (case m w of (Inr x, w') \<Rightarrow> Q x w' | (Inl e, w') \<Rightarrow> E e w'))"

lemma tripleI:
  assumes "\<And>w x w'. P w \<Longrightarrow> m w = (Inr x, w') \<Longrightarrow> Q x w'"
    and "\<And>w e w'. P w \<Longrightarrow> m w = (Inl e, w') \<Longrightarrow> E e w'"
  shows "triple P m Q E"
  using assms by (auto simp: triple_def split: prod.splits sum.splits)

lemma tripleD:
  assumes "triple P m Q E" "P w"
  shows "m w = (Inr x, w') \<Longrightarrow> Q x w'" "m w = (Inl e, w') \<Longrightarrow> E e w'"
  using assms by (auto simp: triple_def split: prod.splits sum.splits)

lemma triple_ret: "(\<And>w. P w \<Longrightarrow> Q x w) \<Longrightarrow> triple P (ret x) Q E"
  by (simp add: triple_def run_simps)

lemma triple_throw: "(\<And>w. P w \<Longrightarrow> E e w) \<Longrightarrow> triple P (throw e) Q E"
  by (simp add: triple_def run_simps)

lemma triple_check:
  "(\<And>x w. r = Inr x \<Longrightarrow> P w \<Longrightarrow> Q x w) \<Longrightarrow> (\<And>e w. r = Inl e \<Longrightarrow> P w \<Longrightarrow> E e w) \<Longrightarrow> triple P (check r) Q E"
  by (cases r) (auto simp: triple_def run_simps)

lemma triple_look: "(\<And>w. P w \<Longrightarrow> Q (g w) w) \<Longrightarrow> triple P (look g) Q E"
  by (simp add: triple_def run_simps)

lemma triple_update: "(\<And>w. P w \<Longrightarrow> Q () (f w)) \<Longrightarrow> triple P (update f) Q E"
  by (simp add: triple_def run_simps)

lemma triple_andthen:
  assumes "triple P m R E" "\<And>x. triple (R x) (k x) Q E"
  shows "triple P (andthen m k) Q E"
  using assms by (fastforce simp: triple_def andthen_def split: prod.splits sum.splits)

lemma triple_catching:
  assumes "triple P m Q R" "\<And>e. triple (R e) (h e) Q E"
  shows "triple P (catching m h) Q E"
  using assms by (fastforce simp: triple_def catching_def split: prod.splits sum.splits)

lemma triple_weaken:
  assumes "triple P' m Q' E'" "\<And>w. P w \<Longrightarrow> P' w" "\<And>x w. Q' x w \<Longrightarrow> Q x w" "\<And>e w. E' e w \<Longrightarrow> E e w"
  shows "triple P m Q E"
  using assms by (fastforce simp: triple_def split: prod.splits sum.splits)

lemma triple_If:
  "(b \<Longrightarrow> triple P m Q E) \<Longrightarrow> (\<not> b \<Longrightarrow> triple P n Q E) \<Longrightarrow> triple P (if b then m else n) Q E"
  by simp

lemma triple_fold:
  assumes "\<And>x s. x \<in> set xs \<Longrightarrow> triple (I s) (f x s) I E"
  shows "triple (I s) (fold_eff f xs s) I E"
  using assms
proof (induction xs arbitrary: s)
  case Nil
  then show ?case by (simp add: triple_ret)
next
  case (Cons x xs)
  then show ?case by (auto intro!: triple_andthen)
qed

lemma fold_eff_rest:
  assumes "fold_eff f xs acc w = (Inr acc', w')" "J xs acc w"
    and "\<And>x R acc w acc' w'. J (x # R) acc w \<Longrightarrow> f x acc w = (Inr acc', w') \<Longrightarrow> J R acc' w'"
  shows "J [] acc' w'"
  using assms(1,2)
proof (induction xs arbitrary: acc w)
  case Nil
  then show ?case by (simp add: run_simps)
next
  case (Cons x xs)
  from Cons.prems(1) obtain acc1 w1 where "f x acc w = (Inr acc1, w1)" "fold_eff f xs acc1 w1 = (Inr acc', w')"
    by (auto elim: andthen_InrE)
  with assms(3) Cons show ?case by blast
qed

section \<open>Invariants\<close>

text \<open>\<open>keeps I m\<close>: the operation keeps \<open>I\<close>, whether it returns or throws.\<close>

definition keeps :: "('w \<Rightarrow> bool) \<Rightarrow> ('w, 'a) eff \<Rightarrow> bool" where
  "keeps I m \<longleftrightarrow> (\<forall>w. I w \<longrightarrow> I (snd (m w)))"

lemma keepsD: "keeps I m \<Longrightarrow> I w \<Longrightarrow> m w = (r, w') \<Longrightarrow> I w'"
  by (force simp: keeps_def)

lemma keeps_basic [intro]:
  "keeps I (ret x)" "keeps I (throw e)" "keeps I (check r)" "keeps I (look g)"
  by (simp_all add: keeps_def run_simps)

lemma keeps_update: "(\<And>w. I w \<Longrightarrow> I (f w)) \<Longrightarrow> keeps I (update f)"
  by (simp add: keeps_def run_simps)

lemma keeps_andthen [intro]: "keeps I m \<Longrightarrow> (\<And>x. keeps I (k x)) \<Longrightarrow> keeps I (andthen m k)"
  by (auto simp: keeps_def andthen_def split: prod.splits sum.splits)

lemma keeps_catching [intro]: "keeps I m \<Longrightarrow> (\<And>e. keeps I (h e)) \<Longrightarrow> keeps I (catching m h)"
  by (auto simp: keeps_def catching_def split: prod.splits sum.splits)

lemma keeps_unless [intro]: "keeps I m \<Longrightarrow> keeps I (unless b m)"
  by (auto simp: unless_def)

lemma keeps_If [intro]: "(b \<Longrightarrow> keeps I m) \<Longrightarrow> (\<not> b \<Longrightarrow> keeps I n) \<Longrightarrow> keeps I (if b then m else n)"
  by simp

lemma keeps_fold: "(\<And>x s. x \<in> set xs \<Longrightarrow> keeps I (f x s)) \<Longrightarrow> keeps I (fold_eff f xs s)"
  by (induction xs arbitrary: s) auto

lemma keeps_outer: "(\<And>v. keeps (\<lambda>s. I (s, v)) m) \<Longrightarrow> keeps I (outer m)"
  by (fastforce simp: keeps_def outer_def split: prod.splits)

lemma keeps_assign: "(\<And>s v. I (s, v) \<Longrightarrow> I (s, f v)) \<Longrightarrow> keeps I (assign f)"
  by (auto simp: assign_def intro: keeps_update)

lemma keeps_with_var: "keeps (\<lambda>(s, v). I s) m \<Longrightarrow> keeps I (with_var v m)"
  unfolding keeps_def with_var_def by (auto split: prod.splits) (metis case_prod_conv snd_conv)

lemma keeps_option [intro]:
  "(v = None \<Longrightarrow> keeps I m) \<Longrightarrow> (\<And>x. v = Some x \<Longrightarrow> keeps I (k x)) \<Longrightarrow> keeps I (case v of None \<Rightarrow> m | Some x \<Rightarrow> k x)"
  by (cases v) auto

lemma keeps_list [intro]:
  "keeps I m \<Longrightarrow> (\<And>x xs. keeps I (k x xs)) \<Longrightarrow> keeps I (case v of [] \<Rightarrow> m | x # xs \<Rightarrow> k x xs)"
  by (cases v) auto

lemma keeps_sum [intro]:
  "(\<And>e. keeps I (m e)) \<Longrightarrow> (\<And>x. keeps I (k x)) \<Longrightarrow> keeps I (case v of Inl e \<Rightarrow> m e | Inr x \<Rightarrow> k x)"
  by (cases v) auto

lemma keeps_prod [intro]: "(\<And>x y. keeps I (k x y)) \<Longrightarrow> keeps I (case v of (x, y) \<Rightarrow> k x y)"
  by (cases v) auto

end
