(* ===== verification/Containment.thy ===== *)
theory Containment
  imports Processes Effects
begin

text \<open>
  Containment of a lease (\<open>terminateOwnedProcesses\<close> to \<open>containLeaseProcesses\<close> in
  \<open>broker-core/containment.mjs\<close>): observe the processes of the lease, decide by the reason and the
  memory ceiling, end them with \<open>SIGTERM\<close> and after a pause \<open>SIGKILL\<close>, and observe what is left.
  The operating system is a world with the operations below; sampling, signals and evidence files may
  fail.  Of the evidence files the model keeps which are written, when, and what they show of
  the process table.
\<close>

section \<open>The operating system\<close>

datatype signal = SIGTERM | SIGKILL

datatype target = Pid int | Process_group int

record kill_result =
  kl_ok :: bool
  kl_errorCode :: "string option"

record action =
  ac_ok :: bool
  ac_signal :: signal
  ac_target :: target
  ac_skipped :: "string option"
  ac_errorCode :: "string option"

datatype evidence =
    Ev_dir
  | Ev_lease lease
  | Ev_table string "proc list"
  | Ev_tree owned
  | Ev_status string
  | Ev_actions "action list"
  | Ev_summary

record 'w process_ops =
  po_sample :: "('w, raw_proc list) eff"
  po_killPid :: "int \<Rightarrow> signal \<Rightarrow> ('w, kill_result) eff"
  po_killGroup :: "int \<Rightarrow> signal \<Rightarrow> ('w, kill_result) eff"
  po_brokerPid :: int
  po_clock :: "'w \<Rightarrow> int"
  po_evidence :: "evidence \<Rightarrow> ('w, unit) eff"
  po_diagnostics :: "int list \<Rightarrow> ('w, string list) eff"

section \<open>Evidence\<close>

definition evidenceAdjacentPids :: "lease \<Rightarrow> lease_runtime \<Rightarrow> int option \<Rightarrow> int list" where
  "evidenceAdjacentPids l r requesterPid =
    List.map_filter id [pos_int (or_else (rt_ownerPid r) (Some (ls_ownerPid l))), pos_int (rt_commandPid r),
      pos_int requesterPid]"

definition isLeaseAdjacentEvidenceProcess :: "proc \<Rightarrow> lease \<Rightarrow> lease_runtime \<Rightarrow> int option \<Rightarrow> bool" where
  "isLeaseAdjacentEvidenceProcess p l r requesterPid =
    (if pr_pid p \<in> set (evidenceAdjacentPids l r requesterPid) then True
     else ls_simulatorId l \<noteq> [] \<and> str_includes (pr_command p) (ls_simulatorId l))"

definition evidenceProcessTable :: "discovery \<Rightarrow> lease \<Rightarrow> lease_runtime \<Rightarrow> int option \<Rightarrow> proc list" where
  "evidenceProcessTable d l r requesterPid =
    js_sort (\<lambda>left right. cmp_int (pr_pid left) (pr_pid right))
      (map_values (map (\<lambda>p. (pr_pid p, p))
        (map fst (dc_owned d) @ filter (\<lambda>p. isLeaseAdjacentEvidenceProcess p l r requesterPid) (dc_skipped d))))"

text \<open>The three largest owned processes are sampled.\<close>

definition diagnostic_targets :: "owned \<Rightarrow> int list" where
  "diagnostic_targets os =
    take 3 (map pr_pid (js_sort (\<lambda>left right. pr_rssBytes right - pr_rssBytes left) (map fst os)))"

section \<open>Termination\<close>

definition advanceNowIso :: "int option \<Rightarrow> int \<Rightarrow> int \<Rightarrow> int option" where
  "advanceNowIso now clock delta = (case now of None \<Rightarrow> Some clock | Some n \<Rightarrow> Some (n + max 0 delta))"

definition owner_of_discovery :: "discovery \<Rightarrow> int option" where
  "owner_of_discovery d = map_option (\<lambda>e. pr_pid (fst e)) (List.find (\<lambda>e. ''owner-pid'' \<in> set (snd e)) (dc_owned d))"

definition command_group_owned :: "discovery \<Rightarrow> int option \<Rightarrow> bool" where
  "command_group_owned d requesterPid =
    (let requester = pos_int requesterPid;
         requesterInCommandGroup = (requester \<noteq> None \<and> dc_commandPgid d \<noteq> None
           \<and> list_ex (\<lambda>p. Some (pr_pid p) = requester \<and> pr_pgid p = dc_commandPgid d)
               (map fst (dc_owned d) @ dc_skipped d))
     in dc_commandPgid d \<noteq> None \<and> isSignalableProcessGroupId (dc_commandPgid d)
        \<and> dc_ownerPgid d \<noteq> None \<and> dc_commandPgid d \<noteq> dc_ownerPgid d
        \<and> list_ex (\<lambda>e. pr_pgid (fst e) = dc_commandPgid d) (dc_owned d)
        \<and> \<not> requesterInCommandGroup)"

text \<open>Descendants and simulator processes first, then by pid.\<close>

definition kill_order :: "proc \<times> string list \<Rightarrow> proc \<times> string list \<Rightarrow> int" where
  "kill_order left right =
    (let depth = (\<lambda>e. if ''descendant'' \<in> set (snd e) \<or> ''simulator-process'' \<in> set (snd e) then 0 else 1 :: int) in
     if depth left - depth right \<noteq> 0 then depth left - depth right
     else pr_pid (fst left) - pr_pid (fst right))"

definition sorted_owned_pids :: "discovery \<Rightarrow> int list" where
  "sorted_owned_pids d = map (\<lambda>e. pr_pid (fst e)) (js_sort kill_order (dc_owned d))"

text \<open>Why a pid is left alone.\<close>

definition skip_reason :: "int \<Rightarrow> int option \<Rightarrow> int option \<Rightarrow> bool \<Rightarrow> int \<Rightarrow> string option" where
  "skip_reason brokerPid requester ownerPid killOwner pid =
    (if pid = brokerPid then Some ''current-broker-process''
     else if Some pid = requester then Some ''active-containment-requester''
     else if Some pid = ownerPid \<and> \<not> killOwner then Some ''lease-owner-not-killed-by-default''
     else None)"

definition kill_action :: "target \<Rightarrow> signal \<Rightarrow> kill_result \<Rightarrow> action" where
  "kill_action t s k = \<lparr>ac_ok = kl_ok k, ac_signal = s, ac_target = t, ac_skipped = None, ac_errorCode = kl_errorCode k\<rparr>"

definition term_step ::
  "'w process_ops \<Rightarrow> (int \<Rightarrow> string option) \<Rightarrow> int \<Rightarrow> action list \<Rightarrow> ('w, action list) eff" where
  "term_step ops skip pid actions =
    (case skip pid of
       Some why \<Rightarrow> ret (actions @ [\<lparr>ac_ok = True, ac_signal = SIGTERM, ac_target = Pid pid, ac_skipped = Some why,
                    ac_errorCode = None\<rparr>])
     | None \<Rightarrow> andthen (po_killPid ops pid SIGTERM) (\<lambda>k. ret (actions @ [kill_action (Pid pid) SIGTERM k])))"

definition kill_step ::
  "'w process_ops \<Rightarrow> (int \<Rightarrow> string option) \<Rightarrow> int list \<Rightarrow> int \<Rightarrow> action list \<Rightarrow> ('w, action list) eff" where
  "kill_step ops skip revalidated pid actions =
    (if skip pid \<noteq> None \<or> pid \<notin> set revalidated then ret actions
     else andthen (po_killPid ops pid SIGKILL) (\<lambda>k. ret (actions @ [kill_action (Pid pid) SIGKILL k])))"

definition terminateOwnedProcesses ::
  "date_parse \<Rightarrow> 'w process_ops \<Rightarrow> discovery \<Rightarrow> lease \<Rightarrow> bool \<Rightarrow> int option \<Rightarrow> int option \<Rightarrow> int
   \<Rightarrow> ('w, action list) eff" where
  "terminateOwnedProcesses dp ops d l killOwner requesterPid now termWaitMs =
    (let skip = skip_reason (po_brokerPid ops) (pos_int requesterPid) (owner_of_discovery d) killOwner;
         sortedPids = sorted_owned_pids d
     in andthen (if command_group_owned d requesterPid
                 then andthen (po_killGroup ops (the (dc_commandPgid d)) SIGTERM)
                        (\<lambda>k. ret [kill_action (Process_group (the (dc_commandPgid d))) SIGTERM k])
                 else ret []) (\<lambda>a0.
        andthen (fold_eff (term_step ops skip) sortedPids a0) (\<lambda>a1.
        andthen (po_sample ops) (\<lambda>records.
        andthen (look (po_clock ops)) (\<lambda>clock.
          let current = discover_in_table dp l (normalizeProcessTable (map raw_of_proc (normalizeProcessTable records)))
                (advanceNowIso now clock termWaitMs)
          in fold_eff (kill_step ops skip (owned_pids current)) sortedPids a1)))))"

definition cleanupActionFailed :: "action \<Rightarrow> bool" where
  "cleanupActionFailed a = (\<not> ac_ok a \<and> ac_errorCode a \<noteq> Some ''ESRCH'')"

section \<open>Decision and observation\<close>

definition force_reasons :: "string list" where
  "force_reasons = [''forced-abort'', ''timeout'', ''stale-owner'', ''manual-cleanup'']"

definition containment_reasons :: "string list" where
  "containment_reasons = [''memory-ceiling'', ''forced-abort'', ''timeout'', ''stale-owner'', ''manual-cleanup'']"

definition isSupportedContainmentReason :: "string option \<Rightarrow> bool" where
  "isSupportedContainmentReason reason = (nullish reason [] \<in> set containment_reasons)"

definition shouldContain :: "string \<Rightarrow> lease_runtime \<Rightarrow> int \<Rightarrow> bool" where
  "shouldContain reason r ownedRssBytes =
    (if reason = ''memory-ceiling'' then
       (case pos_int (rt_memoryCeilingBytes r) of None \<Rightarrow> False | Some ceiling \<Rightarrow> ceiling < ownedRssBytes)
     else reason \<in> set force_reasons)"

definition totalRssBytes :: "proc list \<Rightarrow> int" where
  "totalRssBytes ps = sum_list (map pr_rssBytes ps)"

record contain_options =
  co_captureDiagnostics :: bool
  co_killOwner :: bool
  co_now :: "int option"
  co_postKillPollMs :: "int option"
  co_postKillWaitMs :: "int option"
  co_reason :: string
  co_requesterPid :: "int option"
  co_termWaitMs :: "int option"
  co_timestamp :: string

definition observe_table :: "date_parse \<Rightarrow> lease \<Rightarrow> contain_options \<Rightarrow> raw_proc list \<Rightarrow> discovery \<times> observation" where
  "observe_table dp l opts records =
    (let ps = normalizeProcessTable records;
         d = discover_in_table dp l (normalizeProcessTable (map raw_of_proc ps)) (co_now opts);
         excludedRssPid = pos_int (co_requesterPid opts);
         ownerPid = pos_int (or_else (Option.bind (ls_runtime l) rt_ownerPid) (Some (ls_ownerPid l)))
     in (d, \<lparr>ob_downstreamOwnedProcessCount =
               length (filter (\<lambda>k. Some k \<noteq> excludedRssPid \<and> Some k \<noteq> ownerPid) (owned_pids d)),
             ob_memoryCeilingBytes = pos_int (Option.bind (ls_runtime l) rt_memoryCeilingBytes),
             ob_ownedProcessCount = length (dc_owned d),
             ob_ownedRssBytes = totalRssBytes (filter (\<lambda>p. Some (pr_pid p) \<noteq> excludedRssPid) (map fst (dc_owned d))),
             ob_processCount = length ps,
             ob_simulatorProcessCount = length (filter (\<lambda>e. ''simulator-process'' \<in> set (snd e)) (dc_owned d)),
             ob_checkedAt = co_timestamp opts, ob_reason = co_reason opts, ob_cleanupComplete = None,
             ob_remainingOwnedPids = []\<rparr>))"

definition observeLeaseProcesses ::
  "date_parse \<Rightarrow> 'w process_ops \<Rightarrow> lease \<Rightarrow> contain_options \<Rightarrow> ('w, discovery \<times> observation) eff" where
  "observeLeaseProcesses dp ops l opts = andthen (po_sample ops) (\<lambda>records. ret (observe_table dp l opts records))"

section \<open>After the cleanup\<close>

definition sort_pids :: "int list \<Rightarrow> int list" where
  "sort_pids ks = js_sort cmp_int (uniq ks)"

definition remainingCleanableOwnedPids :: "discovery \<Rightarrow> int list \<Rightarrow> int list" where
  "remainingCleanableOwnedPids d skipped =
    sort_pids (map pr_pid (filter (\<lambda>p. pr_pid p \<notin> set skipped \<and> \<not> processLooksDefunct p) (map fst (dc_owned d))))"

text \<open>The loop: \<open>bw\<close> and \<open>bp\<close> are the bounded wait and poll interval, \<open>waited\<close> the time spent so far.
  The poll interval is at least 1, so the last disjunct of the exit never holds.\<close>

function observe_loop ::
  "date_parse \<Rightarrow> 'w process_ops \<Rightarrow> lease \<Rightarrow> int list \<Rightarrow> int list \<Rightarrow> int option \<Rightarrow> int \<Rightarrow> int \<Rightarrow> int
   \<Rightarrow> 'w \<Rightarrow> (berr + discovery \<times> int list) \<times> 'w" where
  "observe_loop dp ops l killed skipped now bw bp waited w =
    (case po_sample ops w of
       (Inl e, w') \<Rightarrow> (Inl e, w')
     | (Inr records, w') \<Rightarrow>
        (let d = discover_in_table dp l (normalizeProcessTable (map raw_of_proc (normalizeProcessTable records)))
               (advanceNowIso now (po_clock ops w') waited);
             remaining = remainingCleanableOwnedPids d skipped;
             visible = list_ex (\<lambda>k. k \<in> set killed) remaining
         in if \<not> visible \<or> bw \<le> waited \<or> bp \<le> 0 then (Inr (d, remaining), w')
            else observe_loop dp ops l killed skipped now bw bp (waited + min bp (bw - waited)) w'))"
  by pat_completeness auto

termination
  by (relation "measure (\<lambda>(dp, ops, l, killed, skipped, now, bw, bp, waited, w). nat (bw - waited))") auto

declare observe_loop.simps [simp del]

definition observeAfterCleanup ::
  "date_parse \<Rightarrow> 'w process_ops \<Rightarrow> lease \<Rightarrow> int list \<Rightarrow> int list \<Rightarrow> int option \<Rightarrow> int option \<Rightarrow> int option
   \<Rightarrow> ('w, discovery \<times> int list) eff" where
  "observeAfterCleanup dp ops l killed skipped now postKillWaitMs postKillPollMs =
    observe_loop dp ops l killed skipped now
      (max 0 (nullish (nonneg_opt postKillWaitMs) 50)) (max 1 (nullish (nonneg_opt postKillPollMs) 10)) 0"

section \<open>Containment\<close>

record contain_result =
  cn_actions :: "action list"
  cn_cleanupComplete :: bool
  cn_contained :: bool
  cn_failures :: "action list"
  cn_killedPids :: "int list"
  cn_observation :: observation
  cn_ownedAfter :: nat
  cn_remaining :: "int list"
  cn_skippedPids :: "(int \<times> string) list"

definition skipped_targets :: "action list \<Rightarrow> (int \<times> string) list" where
  "skipped_targets actions = List.map_filter (\<lambda>a.
     case (ac_target a, ac_skipped a) of (Pid k, Some why) \<Rightarrow> Some (k, why) | _ \<Rightarrow> None) actions"

definition killed_targets :: "action list \<Rightarrow> int list" where
  "killed_targets actions = sort_pids (List.map_filter (\<lambda>a.
     case (ac_target a, ac_skipped a) of (Pid k, None) \<Rightarrow> if ac_ok a then Some k else None | _ \<Rightarrow> None) actions)"

definition containLeaseProcesses ::
  "date_parse \<Rightarrow> 'w process_ops \<Rightarrow> lease \<Rightarrow> contain_options \<Rightarrow> ('w, contain_result) eff" where
  "containLeaseProcesses dp ops l opts =
    (let r = buildLeaseRuntimeMetadata l no_options; requester = co_requesterPid opts;
         termWait = nullish (co_termWaitMs opts) 250 in
     andthen (observeLeaseProcesses dp ops l opts) (\<lambda>(d, ob).
       if \<not> shouldContain (co_reason opts) r (ob_ownedRssBytes ob)
       then ret \<lparr>cn_actions = [], cn_cleanupComplete = False, cn_contained = False, cn_failures = [], cn_killedPids = [],
              cn_observation = ob, cn_ownedAfter = 0, cn_remaining = [], cn_skippedPids = []\<rparr>
       else
         andthen (po_evidence ops Ev_dir) (\<lambda>_.
         andthen (po_evidence ops (Ev_lease l)) (\<lambda>_.
         andthen (po_evidence ops (Ev_table ''processes-before.txt'' (evidenceProcessTable d l r requester))) (\<lambda>_.
         andthen (po_evidence ops (Ev_tree (dc_owned d))) (\<lambda>_.
         andthen (po_evidence ops (Ev_status ''broker-status-before.json'')) (\<lambda>_.
         andthen (if co_captureDiagnostics opts then po_diagnostics ops (diagnostic_targets (dc_owned d)) else ret []) (\<lambda>_.
         andthen (terminateOwnedProcesses dp ops d l (co_killOwner opts) requester (co_now opts) termWait) (\<lambda>actions.
         andthen (look (po_clock ops)) (\<lambda>clock.
         andthen (observeAfterCleanup dp ops l (killed_targets actions) (map fst (skipped_targets actions))
                   (advanceNowIso (co_now opts) clock termWait) (co_postKillWaitMs opts) (co_postKillPollMs opts)) (\<lambda>(after, remaining).
         andthen (po_evidence ops (Ev_table ''processes-after.txt'' (evidenceProcessTable after l r requester))) (\<lambda>_.
         andthen (po_evidence ops (Ev_status ''broker-status-after.json'')) (\<lambda>_.
         andthen (po_evidence ops (Ev_actions actions)) (\<lambda>_.
         andthen (po_evidence ops Ev_summary) (\<lambda>_.
           let failures = filter cleanupActionFailed actions in
           ret \<lparr>cn_actions = actions, cn_cleanupComplete = (failures = [] \<and> remaining = []), cn_contained = True,
             cn_failures = failures, cn_killedPids = killed_targets actions, cn_observation = ob,
             cn_ownedAfter = length (dc_owned after), cn_remaining = remaining,
             cn_skippedPids = skipped_targets actions @ map (\<lambda>p. (pr_pid p, ''not-associated-with-lease''))
               (filter (\<lambda>p. isLeaseAdjacentEvidenceProcess p l r requester) (dc_skipped d))\<rparr>)))))))))))))))"

section \<open>Lemmas\<close>

lemma set_sorted_owned_pids [simp]: "set (sorted_owned_pids d) = set (owned_pids d)"
  by (simp add: sorted_owned_pids_def owned_pids_def os_pids_def)

lemma keeps_term_step:
  "(skip k = None \<Longrightarrow> keeps I (po_killPid ops k SIGTERM)) \<Longrightarrow> keeps I (term_step ops skip k actions)"
  by (cases "skip k") (auto simp: term_step_def)

lemma keeps_kill_step:
  "(skip k = None \<Longrightarrow> keeps I (po_killPid ops k SIGKILL)) \<Longrightarrow> keeps I (kill_step ops skip live k actions)"
  by (auto simp: kill_step_def)

lemma keeps_terminate:
  assumes "keeps I (po_sample ops)"
    and "\<And>k sg. k \<in> set (owned_pids d) \<Longrightarrow>
        skip_reason (po_brokerPid ops) (pos_int requesterPid) (owner_of_discovery d) killOwner k = None \<Longrightarrow>
        keeps I (po_killPid ops k sg)"
    and "command_group_owned d requesterPid \<Longrightarrow> keeps I (po_killGroup ops (the (dc_commandPgid d)) SIGTERM)"
  shows "keeps I (terminateOwnedProcesses dp ops d l killOwner requesterPid now termWaitMs)"
  unfolding terminateOwnedProcesses_def Let_def
  using assms by (intro keeps_andthen keeps_If keeps_fold keeps_term_step keeps_kill_step keeps_basic) auto

lemma kill_step_fold:
  "fold_eff (kill_step ops skip live) ks a0 w = (Inr actions, w') \<Longrightarrow>
     \<exists>new. actions = a0 @ new \<and> (\<forall>a\<in>set new. ac_signal a = SIGKILL \<and> ac_skipped a = None
       \<and> (\<exists>k\<in>set ks \<inter> set live. ac_target a = Pid k))"
proof (induction ks arbitrary: a0 w)
  case Nil
  then show ?case by (simp add: run_simps)
next
  case (Cons k ks)
  from Cons.prems obtain a1 w1 where step: "kill_step ops skip live k a0 w = (Inr a1, w1)"
    and rest: "fold_eff (kill_step ops skip live) ks a1 w1 = (Inr actions, w')"
    by (auto elim: andthen_InrE)
  from Cons.IH [OF rest] obtain new where new: "actions = a1 @ new"
    "\<forall>a\<in>set new. ac_signal a = SIGKILL \<and> ac_skipped a = None \<and> (\<exists>k\<in>set ks \<inter> set live. ac_target a = Pid k)" by auto
  show ?case
  proof (cases "skip k \<noteq> None \<or> k \<notin> set live")
    case True
    with step have "a1 = a0" by (simp add: kill_step_def run_simps)
    with new show ?thesis by auto
  next
    case False
    with step obtain r where "a1 = a0 @ [kill_action (Pid k) SIGKILL r]"
      by (auto simp: kill_step_def run_simps elim!: andthen_InrE)
    with new False show ?thesis by (intro exI [of _ "kill_action (Pid k) SIGKILL r # new"]) (auto simp: kill_action_def)
  qed
qed

lemma term_step_fold:
  "fold_eff (term_step ops skip) ks a0 w = (Inr actions, w') \<Longrightarrow>
     \<exists>new. actions = a0 @ new \<and> (\<forall>a\<in>set new. ac_signal a = SIGTERM \<and> (\<exists>k\<in>set ks. ac_target a = Pid k \<and> ac_skipped a = skip k))"
proof (induction ks arbitrary: a0 w)
  case Nil
  then show ?case by (simp add: run_simps)
next
  case (Cons k ks)
  from Cons.prems obtain a1 w1 where step: "term_step ops skip k a0 w = (Inr a1, w1)"
    and rest: "fold_eff (term_step ops skip) ks a1 w1 = (Inr actions, w')"
    by (auto elim: andthen_InrE)
  from Cons.IH [OF rest] obtain new where new: "actions = a1 @ new"
    "\<forall>a\<in>set new. ac_signal a = SIGTERM \<and> (\<exists>k\<in>set ks. ac_target a = Pid k \<and> ac_skipped a = skip k)" by auto
  have "\<exists>a. a1 = a0 @ [a] \<and> ac_signal a = SIGTERM \<and> ac_target a = Pid k \<and> ac_skipped a = skip k"
    using step by (cases "skip k") (auto simp: term_step_def run_simps kill_action_def elim!: andthen_InrE)
  then obtain a where "a1 = a0 @ [a]" "ac_signal a = SIGTERM" "ac_target a = Pid k" "ac_skipped a = skip k" by blast
  with new show ?case by (intro exI [of _ "a # new"]) auto
qed

text \<open>Counting the samples: \<open>cnt\<close> grows by at most one with each.\<close>

definition samples_at_most :: "('w \<Rightarrow> nat) \<Rightarrow> nat \<Rightarrow> ('w, 'a) eff \<Rightarrow> bool" where
  "samples_at_most cnt n m \<longleftrightarrow> (\<forall>w. cnt (snd (m w)) \<le> cnt w + n)"

lemma samples_andthen:
  "samples_at_most cnt n m \<Longrightarrow> (\<And>x. samples_at_most cnt k (f x)) \<Longrightarrow> samples_at_most cnt (n + k) (andthen m f)"
  unfolding samples_at_most_def andthen_def
proof (intro allI)
  fix w
  assume m: "\<forall>w. cnt (snd (m w)) \<le> cnt w + n" and f: "\<And>x. \<forall>w. cnt (snd (f x w)) \<le> cnt w + k"
  show "cnt (snd (case m w of (Inl e, w') \<Rightarrow> (Inl e, w') | (Inr x, w') \<Rightarrow> f x w')) \<le> cnt w + (n + k)"
  proof (cases "m w")
    case (Pair r w1)
    from m [rule_format, of w] Pair have "cnt w1 \<le> cnt w + n" by simp
    moreover have "r = Inr x \<Longrightarrow> cnt (snd (f x w1)) \<le> cnt w1 + k" for x using f [of x] by simp
    ultimately show ?thesis using Pair by (cases r) (auto intro: le_trans)
  qed
qed

lemma samples_mono: "samples_at_most cnt n m \<Longrightarrow> n \<le> k \<Longrightarrow> samples_at_most cnt k m"
  by (force simp: samples_at_most_def intro: le_trans)

lemma samples_basic: "samples_at_most cnt 0 (ret x)" "samples_at_most cnt 0 (look g)"
  by (simp_all add: samples_at_most_def run_simps)

lemma samples_If:
  "(b \<Longrightarrow> samples_at_most cnt n m) \<Longrightarrow> (\<not> b \<Longrightarrow> samples_at_most cnt n k) \<Longrightarrow> samples_at_most cnt n (if b then m else k)"
  by simp

lemma samples_prod:
  "(\<And>a b. samples_at_most cnt n (f a b)) \<Longrightarrow> samples_at_most cnt n (case x of (a, b) \<Rightarrow> f a b)"
  by (cases x) simp

lemma samples_fold:
  "(\<And>x s. samples_at_most cnt 0 (f x s)) \<Longrightarrow> samples_at_most cnt 0 (fold_eff f xs s)"
  by (induction xs arbitrary: s) (auto simp: samples_basic intro: samples_andthen [of cnt 0 _ 0, simplified])

lemma samples_observe_loop:
  assumes "samples_at_most cnt 1 (po_sample ops)" "0 < bp" "waited \<le> bw"
  shows "cnt (snd (observe_loop dp ops l killed skipped now bw bp waited w)) \<le> cnt w + 1 + nat ((bw - waited + bp - 1) div bp)"
  using assms
proof (induction dp ops l killed skipped now bw bp waited w rule: observe_loop.induct)
  case (1 dp ops l killed skipped now bw bp waited w)
  obtain r w1 where s: "po_sample ops w = (r, w1)" by (cases "po_sample ops w")
  have c1: "cnt w1 \<le> cnt w + 1" using "1.prems"(1) s unfolding samples_at_most_def by (metis snd_conv)
  show ?case
  proof (cases r)
    case (Inl e)
    with s c1 show ?thesis by (simp add: observe_loop.simps)
  next
    case (Inr records)
    let ?d = "discover_in_table dp l (normalizeProcessTable (map raw_of_proc (normalizeProcessTable records)))
               (advanceNowIso now (po_clock ops w1) waited)"
    let ?stop = "\<not> list_ex (\<lambda>k. k \<in> set killed) (remainingCleanableOwnedPids ?d skipped) \<or> bw \<le> waited \<or> bp \<le> 0"
    show ?thesis
    proof (cases ?stop)
      case True
      with s Inr c1 show ?thesis by (subst observe_loop.simps) (auto simp: Let_def)
    next
      case False
      let ?next = "waited + min bp (bw - waited)"
      have run: "observe_loop dp ops l killed skipped now bw bp waited w
        = observe_loop dp ops l killed skipped now bw bp ?next w1"
        using s Inr False by (subst observe_loop.simps) (auto simp: Let_def)
      have "cnt (snd (observe_loop dp ops l killed skipped now bw bp ?next w1))
        \<le> cnt w1 + 1 + nat ((bw - ?next + bp - 1) div bp)"
        using "1.prems" False by (intro "1.IH" [OF s [symmetric] Inr refl refl refl]) auto
      moreover have "(bw - ?next + bp - 1) div bp + 1 \<le> (bw - waited + bp - 1) div bp"
      proof (cases "bp \<le> bw - waited")
        case True
        have "(bw - waited + bp - 1) div bp = (bw - waited - 1) div bp + 1"
          using "1.prems"(2) div_add_self2 [of bp "bw - waited - 1"] by (simp add: algebra_simps)
        with True show ?thesis by (simp add: algebra_simps)
      next
        case short: False
        have "1 \<le> (bw - waited + bp - 1) div bp"
          using False "1.prems"(2) zdiv_mono1 [of bp "bw - waited + bp - 1" bp] by simp
        with short "1.prems"(2) show ?thesis by simp
      qed
      moreover have "0 \<le> (bw - ?next + bp - 1) div bp"
        using "1.prems"(2,3) by (intro div_int_pos_iff [THEN iffD2]) auto
      ultimately show ?thesis using run c1 by simp
    qed
  qed
qed

lemma contained_if_due:
  assumes "containLeaseProcesses dp ops l opts w = (Inr res, w')"
  shows "\<exists>ob. cn_contained res = shouldContain (co_reason opts) (buildLeaseRuntimeMetadata l no_options) ob"
proof -
  from assms obtain records w1 where s: "po_sample ops w = (Inr records, w1)"
    by (auto simp: containLeaseProcesses_def observeLeaseProcesses_def Let_def run_simps elim!: andthen_InrE)
  obtain d ob where ob: "observe_table dp l opts records = (d, ob)" by (cases "observe_table dp l opts records")
  show ?thesis
  proof (cases "shouldContain (co_reason opts) (buildLeaseRuntimeMetadata l no_options) (ob_ownedRssBytes ob)")
    case False
    with assms s ob show ?thesis
      by (auto simp: containLeaseProcesses_def observeLeaseProcesses_def Let_def run_andthen run_simps
          intro!: exI [of _ "ob_ownedRssBytes ob"])
  next
    case True
    with assms s ob show ?thesis
      by (auto simp: containLeaseProcesses_def observeLeaseProcesses_def Let_def run_simps elim!: andthen_InrE
          intro!: exI [of _ "ob_ownedRssBytes ob"])
  qed
qed

section \<open>Properties\<close>


text \<open>A system that records the pids it signals, and a discovery that found the broker and another
  process.\<close>

definition recording_ops :: "int list process_ops" where
  "recording_ops = \<lparr>po_sample = ret [], po_killPid = (\<lambda>k sg w. (Inr \<lparr>kl_ok = True, kl_errorCode = None\<rparr>, w @ [k])),
     po_killGroup = (\<lambda>g sg w. (Inr \<lparr>kl_ok = True, kl_errorCode = None\<rparr>, w @ [- g])), po_brokerPid = 7,
     po_clock = (\<lambda>_. 0), po_evidence = (\<lambda>_. ret ()), po_diagnostics = (\<lambda>_. ret [])\<rparr>"

definition sample_proc :: "int \<Rightarrow> proc" where
  "sample_proc k = \<lparr>pr_command = ''xctest'', pr_elapsed = None, pr_pgid = None, pr_pid = k, pr_ppid = None,
     pr_rssBytes = 1, pr_stat = None, pr_vszBytes = 1\<rparr>"

definition sample_lease :: lease where
  "sample_lease = \<lparr>ls_actorId = ''a'', ls_actorType = ''agent'', ls_alias = ''SIM_A'', ls_artifactPath = None,
     ls_displayName = ''iPhone'', ls_jobId = None, ls_jobKind = None, ls_leaseId = ''lease-1'', ls_leaseKind = ''job'',
     ls_ownerPid = 5, ls_pinId = None, ls_projectId = ''p'', ls_projectName = ''P'', ls_purposeId = ''test'',
     ls_repoRoot = ''/r'', ls_resetPolicy = ''none'', ls_sessionDir = None, ls_simulatorId = ''U1'',
     ls_startedAt = ''t'', ls_runtime = None\<rparr>"

definition sample_discovery :: discovery where
  "sample_discovery = \<lparr>dc_commandPgid = None, dc_owned = [(sample_proc 7, [''descendant'']), (sample_proc 9, [''descendant''])],
     dc_ownerPgid = None, dc_skipped = []\<rparr>"


text \<open>Every \<open>SIGKILL\<close> goes to a process that was found owned before \<open>SIGTERM\<close> and is found owned again
  in a fresh sample taken after the pause, so a pid that was reused in between is spared.\<close>

theorem sigkill_is_revalidated:
  assumes "terminateOwnedProcesses dp ops d l killOwner requesterPid now termWaitMs w = (Inr actions, w')"
  shows "\<exists>records w1 w2. po_sample ops w1 = (Inr records, w2)
    \<and> (\<forall>a\<in>set actions. ac_signal a = SIGKILL \<longrightarrow> (\<exists>k. ac_target a = Pid k \<and> k \<in> set (owned_pids d)
         \<and> k \<in> set (owned_pids (discover_in_table dp l
              (normalizeProcessTable (map raw_of_proc (normalizeProcessTable records)))
              (advanceNowIso now (po_clock ops w2) termWaitMs)))))"
proof -
  let ?skip = "skip_reason (po_brokerPid ops) (pos_int requesterPid) (owner_of_discovery d) killOwner"
  let ?cur = "\<lambda>records w2. discover_in_table dp l
    (normalizeProcessTable (map raw_of_proc (normalizeProcessTable records))) (advanceNowIso now (po_clock ops w2) termWaitMs)"
  let ?group = "if command_group_owned d requesterPid
     then andthen (po_killGroup ops (the (dc_commandPgid d)) SIGTERM)
            (\<lambda>k. ret [kill_action (Process_group (the (dc_commandPgid d))) SIGTERM k]) else ret []"
  from assms obtain a0 wa a1 wb records wc where
    a0: "?group w = (Inr a0, wa)" and
    a1: "fold_eff (term_step ops ?skip) (sorted_owned_pids d) a0 wa = (Inr a1, wb)" and
    rec: "po_sample ops wb = (Inr records, wc)" and
    rest: "fold_eff (kill_step ops ?skip (owned_pids (?cur records wc))) (sorted_owned_pids d) a1 wc = (Inr actions, w')"
    unfolding terminateOwnedProcesses_def Let_def
    by (elim andthen_InrE) (simp add: run_simps)
  have "\<forall>a\<in>set a0. ac_signal a = SIGTERM"
    using a0 by (auto simp: run_simps kill_action_def split: if_splits elim!: andthen_InrE)
  moreover from term_step_fold [OF a1] obtain n1 where "a1 = a0 @ n1" "\<forall>a\<in>set n1. ac_signal a = SIGTERM" by blast
  ultimately have "\<forall>a\<in>set a1. ac_signal a = SIGTERM" by auto
  with kill_step_fold [OF rest] rec show ?thesis
    by (intro exI [of _ records] exI [of _ wb] exI [of _ wc]) fastforce
qed

theorem sigkill_is_revalidated_witness:
  "\<exists>actions w'. terminateOwnedProcesses (\<lambda>_. None) recording_ops sample_discovery sample_lease False None None 0 [] = (Inr actions, w')
    \<and> (\<exists>records w1 w2. po_sample recording_ops w1 = (Inr records, w2))"
proof -
  obtain actions w' where t: "terminateOwnedProcesses (\<lambda>_. None) recording_ops sample_discovery sample_lease False None None 0 [] = (Inr actions, w')"
    by (cases "9 \<notin> set (owned_pids (discover_in_table (\<lambda>_. None) sample_lease
         (normalizeProcessTable (map raw_of_proc (normalizeProcessTable []))) (advanceNowIso None 0 0)))")
      (simp_all add: terminateOwnedProcesses_def recording_ops_def sample_discovery_def sample_proc_def run_simps
        command_group_owned_def sorted_owned_pids_def js_sort_def kill_order_def term_step_def kill_step_def skip_reason_def
        andthen_def owner_of_discovery_def pos_int_def Let_def)
  from sigkill_is_revalidated [OF t] t show ?thesis by blast
qed

text \<open>C38: one containment with the default waiting times samples the process table at most eight times,
  whatever the system does: the constant \<open>STALE_CONTAINMENT_PROCESS_SAMPLER_INVOCATIONS\<close> that the
  lock timeouts are derived from is right.\<close>

theorem containment_samples_bounded:
  fixes cnt :: "'w \<Rightarrow> nat" and ops :: "'w process_ops"
  assumes "\<And>w. cnt (snd (po_sample ops w)) \<le> cnt w + 1"
    and "\<And>k sg w. cnt (snd (po_killPid ops k sg w)) \<le> cnt w" "\<And>g sg w. cnt (snd (po_killGroup ops g sg w)) \<le> cnt w"
    and "\<And>ev w. cnt (snd (po_evidence ops ev w)) \<le> cnt w" "\<And>ks w. cnt (snd (po_diagnostics ops ks w)) \<le> cnt w"
    and "co_postKillWaitMs opts = None" "co_postKillPollMs opts = None"
  shows "cnt (snd (containLeaseProcesses dp ops l opts w)) \<le> cnt w + 8"
proof -
  note one = assms(1) and none = assms(2-5)
  have s1: "samples_at_most cnt 1 (po_sample ops)" using one by (simp add: samples_at_most_def)
  have s0: "samples_at_most cnt 0 (po_killPid ops k sg)" "samples_at_most cnt 0 (po_killGroup ops g sg)"
    "samples_at_most cnt 0 (po_evidence ops ev)" "samples_at_most cnt 0 (po_diagnostics ops ks)" for k sg g ev ks
    using none by (simp_all add: samples_at_most_def)
  note seq0 = samples_andthen [of cnt 0 _ 0, simplified] and seq = samples_andthen [of cnt 0, simplified]
    and one0 = samples_andthen [of cnt 1 _ 0, unfolded add_0_right]
  have steps: "samples_at_most cnt 0 (term_step ops skip k as)" "samples_at_most cnt 0 (kill_step ops skip live k as)"
    for skip k as live
    by (auto simp: term_step_def kill_step_def s0 samples_basic intro!: seq0 split: option.splits)
  have ended: "samples_at_most cnt 1 (terminateOwnedProcesses dp ops d l killOwner requesterPid now wait)"
    for d killOwner requesterPid now wait
    unfolding terminateOwnedProcesses_def Let_def
  proof (rule seq)
    show "samples_at_most cnt 0 (if command_group_owned d requesterPid
      then andthen (po_killGroup ops (the (dc_commandPgid d)) SIGTERM)
        (\<lambda>k. ret [kill_action (Process_group (the (dc_commandPgid d))) SIGTERM k]) else ret [])"
      by (auto simp: s0 samples_basic intro!: seq0)
  qed (intro seq [OF samples_fold] one0 [OF s1] seq0 samples_basic samples_fold steps)
  have after: "samples_at_most cnt 6 (observeAfterCleanup dp ops l killed skipped now None None)" for killed skipped now
    using samples_observe_loop [OF s1, of 10 0 50 dp l killed skipped now]
    by (simp add: samples_at_most_def observeAfterCleanup_def nonneg_opt_def add.commute)
  have obs: "samples_at_most cnt 1 (observeLeaseProcesses dp ops l opts)"
    unfolding observeLeaseProcesses_def by (intro one0 [OF s1] samples_basic)
  have diag: "samples_at_most cnt 0 (if b then po_diagnostics ops ks else ret [])" for b ks
    by (auto simp: s0 samples_basic)
  have sums: "1 + 7 = (8::nat)" "1 + 6 = (7::nat)" by simp_all
  have "samples_at_most cnt 8 (containLeaseProcesses dp ops l opts)"
    unfolding containLeaseProcesses_def Let_def assms(6,7)
    by (rule samples_andthen [OF obs, of 7, unfolded sums], rule samples_prod,
        rule samples_If, rule samples_mono [OF samples_basic(1) le0],
        rule seq [OF s0(3)], rule seq [OF s0(3)], rule seq [OF s0(3)], rule seq [OF s0(3)], rule seq [OF s0(3)],
        rule seq [OF diag], rule samples_andthen [OF ended, of 6, unfolded sums], rule seq [OF samples_basic(2)],
        rule samples_andthen [OF after, of 0, unfolded add_0_right], rule samples_prod,
        rule seq0 [OF s0(3)], rule seq0 [OF s0(3)], rule seq0 [OF s0(3)], rule seq0 [OF s0(3)], rule samples_basic(1))
  then show ?thesis by (simp add: samples_at_most_def)
qed

definition counting_ops :: "nat process_ops" where
  "counting_ops = \<lparr>po_sample = (\<lambda>w. (Inr [], w + 1)), po_killPid = (\<lambda>k sg. ret \<lparr>kl_ok = True, kl_errorCode = None\<rparr>),
     po_killGroup = (\<lambda>g sg. ret \<lparr>kl_ok = True, kl_errorCode = None\<rparr>), po_brokerPid = 7,
     po_clock = (\<lambda>_. 0), po_evidence = (\<lambda>_. ret ()), po_diagnostics = (\<lambda>_. ret [])\<rparr>"

definition default_contain_options :: contain_options where
  "default_contain_options = \<lparr>co_captureDiagnostics = False, co_killOwner = False, co_now = Some 0,
     co_postKillPollMs = None, co_postKillWaitMs = None, co_reason = ''stale-owner'', co_requesterPid = None,
     co_termWaitMs = None, co_timestamp = ''t''\<rparr>"

theorem containment_samples_bounded_witness:
  "snd (containLeaseProcesses (\<lambda>_. None) counting_ops sample_lease default_contain_options 0) \<le> 0 + 8"
  by (rule containment_samples_bounded [where cnt = "\<lambda>n. n"])
    (simp_all add: counting_ops_def default_contain_options_def run_simps)



end
