(* ===== verification/Provisioning.thy ===== *)
theory Provisioning
  imports Devices
begin

text \<open>
  The runtime and the device type that new simulators get: for a host that is set up
  (\<open>setupRuntimeBuildVersion\<close> to \<open>selectRuntimeForSetup\<close>) and for a purpose that lacks capacity
  (\<open>runtimeSuppliesDeviceFamily\<close> to \<open>capacityProvisioningForRequirement\<close>) in \<open>broker-core/index.mjs\<close>.
  \<open>loc\<close> is \<open>localeCompare\<close> and \<open>num\<close> is \<open>localeCompare\<close> with the numeric option.
\<close>

section \<open>Runtimes of a setup\<close>

definition setupRuntimeBuildVersion :: "runtime \<Rightarrow> string option" where
  "setupRuntimeBuildVersion r = rn_buildVersion r"

definition setupRuntimeSupportedTypeKey :: "runtime \<Rightarrow> string" where
  "setupRuntimeSupportedTypeKey r =
    join_with [CHR 0x0A] (sort_strings (map (\<lambda>t. nullish (dt_identifier t) []) (rn_supported r)))"

definition compareSetupRuntimes ::
  "(string \<Rightarrow> string \<Rightarrow> int) \<Rightarrow> (string \<Rightarrow> string \<Rightarrow> int) \<Rightarrow> runtime \<Rightarrow> runtime \<Rightarrow> int" where
  "compareSetupRuntimes loc num left right =
    (let versionComparison = compareVersions (rn_version right) (rn_version left);
         buildComparison = num (nullish (setupRuntimeBuildVersion right) []) (nullish (setupRuntimeBuildVersion left) []);
         identifierComparison = loc (rn_identifier left) (rn_identifier right) in
     if versionComparison \<noteq> 0 then versionComparison
     else if buildComparison \<noteq> 0 then buildComparison
     else if identifierComparison \<noteq> 0 then identifierComparison
     else loc (setupRuntimeSupportedTypeKey left) (setupRuntimeSupportedTypeKey right))"

definition runtimeSupportedDeviceTypes :: "runtime \<Rightarrow> inventory \<Rightarrow> device_type list" where
  "runtimeSupportedDeviceTypes r iv = (if rn_supported r \<noteq> [] then rn_supported r else iv_deviceTypes iv)"

text \<open>Whether the runtime has complete device types of the families iPad and iPhone.\<close>

definition compatibleSetupDeviceTypes :: "runtime \<Rightarrow> inventory \<Rightarrow> bool \<times> bool" where
  "compatibleSetupDeviceTypes r iv =
    (list_ex (isCompleteSetupDeviceType ''iPad'') (runtimeSupportedDeviceTypes r iv),
     list_ex (isCompleteSetupDeviceType ''iPhone'') (runtimeSupportedDeviceTypes r iv))"

definition selectPreferredDeviceTypeForSetup ::
  "(string \<Rightarrow> string \<Rightarrow> int) \<Rightarrow> runtime \<Rightarrow> inventory \<Rightarrow> string \<Rightarrow> berr + device_type" where
  "selectPreferredDeviceTypeForSetup loc r iv deviceFamily =
    selectPreferredDeviceType loc (r\<lparr>rn_supported := runtimeSupportedDeviceTypes r iv\<rparr>) deviceFamily"

definition setup_runtime :: "inventory \<Rightarrow> string option \<Rightarrow> runtime \<Rightarrow> bool" where
  "setup_runtime iv requestedVersion r \<longleftrightarrow> isAvailableIosRuntime r
     \<and> runtimeMatchesRequestedVersion (rn_version r) requestedVersion \<and> compatibleSetupDeviceTypes r iv = (True, True)"

text \<open>The map of the loop: the best record of each identifier, in the order of the first one.\<close>

definition keep_best :: "(runtime \<Rightarrow> runtime \<Rightarrow> int) \<Rightarrow> runtime \<Rightarrow> (string \<times> runtime) list \<Rightarrow> (string \<times> runtime) list" where
  "keep_best cmp r m = (case map_of m (rn_identifier r) of
       None \<Rightarrow> m @ [(rn_identifier r, r)]
     | Some existing \<Rightarrow>
         if cmp r existing < 0 then map (\<lambda>(k, x). if k = rn_identifier r then (k, r) else (k, x)) m else m)"

definition no_setup_runtime :: "string option \<Rightarrow> berr" where
  "no_setup_runtime requestedVersion = broker_err (''No available iOS runtime''
     @ (case requestedVersion of None \<Rightarrow> [] | Some v \<Rightarrow> if v = [] then [] else '' matching '' @ v)
     @ '' supports both iPhone and iPad setup devices.'') ''runtime-not-found''"

definition selectRuntimeForSetup ::
  "(string \<Rightarrow> string \<Rightarrow> int) \<Rightarrow> (string \<Rightarrow> string \<Rightarrow> int) \<Rightarrow> inventory \<Rightarrow> string option \<Rightarrow> berr + runtime" where
  "selectRuntimeForSetup loc num iv requestedVersion =
    (let cmp = compareSetupRuntimes loc num;
         best = fold (keep_best cmp) (filter (setup_runtime iv requestedVersion) (iv_runtimes iv)) []
     in case js_sort cmp (map snd best) of
          [] \<Rightarrow> Inl (no_setup_runtime requestedVersion)
        | r # _ \<Rightarrow> Inr r)"

section \<open>Runtimes and device types for more capacity\<close>

definition runtimeSuppliesDeviceFamily :: "runtime \<Rightarrow> inventory \<Rightarrow> string \<Rightarrow> bool" where
  "runtimeSuppliesDeviceFamily r iv deviceFamily =
    list_ex (isCompleteSetupDeviceType deviceFamily) (runtimeSupportedDeviceTypes r iv)"

text \<open>A blocker, by its code, or the runtime.\<close>

definition selectRuntimeFromInventory ::
  "(string \<Rightarrow> string \<Rightarrow> int) \<Rightarrow> (string \<Rightarrow> string \<Rightarrow> int) \<Rightarrow> inventory \<Rightarrow> string option \<Rightarrow> string \<Rightarrow> string + runtime" where
  "selectRuntimeFromInventory loc num iv iosVersion deviceFamily =
    (let matches = filter (\<lambda>r. runtimeMatchesRequestedVersion (rn_version r) iosVersion)
           (filter isAvailableIosRuntime (iv_runtimes iv)) in
     if matches = [] then Inl ''runtime-not-found''
     else case js_sort (compareSetupRuntimes loc num) (filter (\<lambda>r. runtimeSuppliesDeviceFamily r iv deviceFamily) matches) of
         [] \<Rightarrow> Inl ''device-type-not-found''
       | r # _ \<Rightarrow> Inr r)"

text \<open>\<open>selectPreferredDeviceType\<close> may throw, which is the outer error.\<close>

definition selectDeviceTypeFromInventory ::
  "(string \<Rightarrow> string \<Rightarrow> int) \<Rightarrow> inventory \<Rightarrow> runtime \<Rightarrow> string \<Rightarrow> berr + (string + device_type)" where
  "selectDeviceTypeFromInventory loc iv r deviceFamily =
    (let supported = filter (\<lambda>t. dt_productFamily t = Some deviceFamily) (runtimeSupportedDeviceTypes r iv) in
     if supported = [] then Inr (Inl ''device-type-not-found'')
     else seq (selectPreferredDeviceType loc (r\<lparr>rn_supported := supported\<rparr>) deviceFamily) (\<lambda>t. Inr (Inr t)))"

record provisioning =
  po_blocker :: "string option"
  po_deviceType :: "device_type option"
  po_runtime :: "runtime option"

definition capacityProvisioningForRequirement ::
  "(string \<Rightarrow> string \<Rightarrow> int) \<Rightarrow> (string \<Rightarrow> string \<Rightarrow> int) \<Rightarrow> inventory option \<Rightarrow> requirement option \<Rightarrow> berr + provisioning" where
  "capacityProvisioningForRequirement loc num inventory requirement =
    (case (inventory, requirement) of
       (Some iv, Some q) \<Rightarrow>
         (case selectRuntimeFromInventory loc num iv (qm_iosVersion q) (qm_deviceFamily q) of
            Inl code \<Rightarrow> Inr \<lparr>po_blocker = Some code, po_deviceType = None, po_runtime = None\<rparr>
          | Inr r \<Rightarrow> seq (selectDeviceTypeFromInventory loc iv r (qm_deviceFamily q)) (\<lambda>v. case v of
                Inl code \<Rightarrow> Inr \<lparr>po_blocker = Some code, po_deviceType = None, po_runtime = Some r\<rparr>
              | Inr t \<Rightarrow> Inr \<lparr>po_blocker = None, po_deviceType = Some t, po_runtime = Some r\<rparr>))
     | _ \<Rightarrow> Inr \<lparr>po_blocker = Some ''inventory-unavailable'', po_deviceType = None, po_runtime = None\<rparr>)"

section \<open>Lemmas\<close>

lemma sign_on_key: "sign_comparator cmp \<Longrightarrow> sign_comparator (\<lambda>x y. cmp (f x) (f y))"
  using sign_comparator.cmp_sign sign_comparator.on_key by (fastforce simp: sign_comparator_def sign_comparator_axioms_def)

lemma sign_flip:
  assumes "sign_comparator cmp"
  shows "sign_comparator (\<lambda>x y. cmp y x)"
proof -
  have "comparator (\<lambda>x y. cmp y x)"
    using sign_comparator.axioms(1) [OF assms] unfolding comparator_def by blast
  with sign_comparator.cmp_sign [OF assms] show ?thesis
    by (simp add: sign_comparator_def sign_comparator_axioms_def)
qed

lemma compareSetupRuntimes_comparator:
  assumes "sign_comparator loc" "sign_comparator num"
  shows "comparator (compareSetupRuntimes loc num)"
proof -
  have key: "comparator (\<lambda>x y. loc (setupRuntimeSupportedTypeKey x) (setupRuntimeSupportedTypeKey y))"
    by (rule sign_comparator.on_key [OF assms(1)])
  note ident = sign_comparator.refine_comparator [OF sign_on_key [OF assms(1), of rn_identifier] key]
  note build = sign_comparator.refine_comparator
    [OF sign_on_key [OF sign_flip [OF assms(2)], of "\<lambda>r. nullish (setupRuntimeBuildVersion r) []"] ident]
  from version_sign.refine_comparator [OF build, of rn_version] show ?thesis
    unfolding compareSetupRuntimes_def [abs_def] Let_def .
qed

lemma js_sort_first:
  assumes "comparator cmp" "js_sort cmp xs = y # ys"
  shows "y \<in> set xs \<and> (\<forall>x\<in>set xs. cmp y x \<le> 0)"
proof -
  have "set (js_sort cmp xs) = set xs" by simp
  with assms comparator.hd_js_sort_least [OF assms(1), of _ xs] show ?thesis by (metis list.sel(1) list.set_intros(1))
qed

lemma selectPreferred_Inr:
  assumes "\<exists>t\<in>set (rn_supported r). isCompleteSetupDeviceType fam t"
  shows "\<exists>t. selectPreferredDeviceType loc r fam = Inr t \<and> t \<in> set (rn_supported r) \<and> isCompleteSetupDeviceType fam t"
proof -
  let ?all = "filter (isCompleteSetupDeviceType fam) (rn_supported r)"
  let ?pick = "filter (\<lambda>t. exact_name fam (nullish (dt_name t) [])) ?all"
  have ne: "?all \<noteq> []" using assms by (auto simp: filter_empty_conv)
  show ?thesis
  proof (cases "js_sort (preferred_cmp loc) ?pick")
    case Nil
    have "set (js_sort (compareSetupDeviceTypes loc) ?all) = set ?all" "js_sort (compareSetupDeviceTypes loc) ?all \<noteq> []"
      using ne by (simp_all only: set_js_sort js_sort_Nil_iff) simp
    then have "hd (js_sort (compareSetupDeviceTypes loc) ?all) \<in> set ?all" by (metis hd_in_set)
    with ne Nil show ?thesis by (auto simp: selectPreferredDeviceType_def Let_def js_sort_def)
  next
    case (Cons t ts)
    have "set (js_sort (preferred_cmp loc) ?pick) = set ?pick" by simp
    with Cons have "t \<in> set ?pick" by auto
    with ne Cons show ?thesis by (auto simp: selectPreferredDeviceType_def Let_def)
  qed
qed

text \<open>The runtimes that a requirement may use.\<close>

definition matching_runtime :: "inventory \<Rightarrow> string option \<Rightarrow> runtime \<Rightarrow> bool" where
  "matching_runtime iv v r \<longleftrightarrow> r \<in> set (iv_runtimes iv) \<and> isAvailableIosRuntime r \<and> runtimeMatchesRequestedVersion (rn_version r) v"

lemma selectRuntimeFromInventory_cases:
  assumes "comparator (compareSetupRuntimes loc num)"
  shows "case selectRuntimeFromInventory loc num iv v fam of
     Inl code \<Rightarrow> (code = ''runtime-not-found'' \<and> (\<nexists>r. matching_runtime iv v r))
       \<or> (code = ''device-type-not-found'' \<and> (\<exists>r. matching_runtime iv v r)
            \<and> (\<forall>r. matching_runtime iv v r \<longrightarrow> \<not> runtimeSuppliesDeviceFamily r iv fam))
   | Inr r \<Rightarrow> matching_runtime iv v r \<and> runtimeSuppliesDeviceFamily r iv fam
       \<and> (\<forall>q. matching_runtime iv v q \<and> runtimeSuppliesDeviceFamily q iv fam \<longrightarrow> compareSetupRuntimes loc num r q \<le> 0)"
proof -
  let ?m = "filter (\<lambda>r. runtimeMatchesRequestedVersion (rn_version r) v) (filter isAvailableIosRuntime (iv_runtimes iv))"
  let ?f = "filter (\<lambda>r. runtimeSuppliesDeviceFamily r iv fam) ?m"
  have m: "set ?m = {r. matching_runtime iv v r}" by (auto simp: matching_runtime_def)
  show ?thesis
  proof (cases "js_sort (compareSetupRuntimes loc num) ?f")
    case Nil
    then have f: "?f = []" by (simp only: js_sort_Nil_iff)
    show ?thesis
    proof (cases "?m = []")
      case True
      then have "\<not> matching_runtime iv v r" for r using m by (metis empty_iff empty_set mem_Collect_eq)
      with True show ?thesis by (simp add: selectRuntimeFromInventory_def Let_def)
    next
      case False
      from f have "\<not> runtimeSuppliesDeviceFamily r iv fam" if "matching_runtime iv v r" for r
        using that m by (auto simp: filter_empty_conv)
      moreover have "\<exists>r. matching_runtime iv v r" using False m by (metis last_in_set mem_Collect_eq)
      moreover have "selectRuntimeFromInventory loc num iv v fam = Inl ''device-type-not-found''"
        unfolding selectRuntimeFromInventory_def Let_def if_not_P [OF False] Nil by simp
      ultimately show ?thesis by simp
    qed
  next
    case (Cons r rs)
    have first: "r \<in> set ?f" "\<forall>q\<in>set ?f. compareSetupRuntimes loc num r q \<le> 0" using js_sort_first [OF assms Cons] by blast+
    then have "r \<in> set ?m" by simp
    then have "?m \<noteq> []" by (metis empty_iff empty_set)
    then have "selectRuntimeFromInventory loc num iv v fam = Inr r"
      unfolding selectRuntimeFromInventory_def Let_def by (simp only: if_False Cons list.case)
    with first m show ?thesis by auto
  qed
qed

section \<open>Properties\<close>

text \<open>C16: choosing a simulator for a requirement never throws, and it is blocked exactly if no available runtime
  has the requested version (\<open>runtime-not-found\<close>) or none of those has a complete device type of the
  family (\<open>device-type-not-found\<close>).  Otherwise the runtime is the first one, in the documented order, of
  those that have such a device type, and the device type is complete and of the family.\<close>

theorem capacity_provisioning_is_usable:
  assumes "sign_comparator loc" "sign_comparator num"
  shows "\<exists>p. capacityProvisioningForRequirement loc num (Some iv) (Some q) = Inr p
    \<and> (po_blocker p = Some ''runtime-not-found'' \<longleftrightarrow> (\<nexists>r. matching_runtime iv (qm_iosVersion q) r))
    \<and> (po_blocker p = Some ''device-type-not-found'' \<longleftrightarrow> (\<exists>r. matching_runtime iv (qm_iosVersion q) r)
         \<and> (\<forall>r. matching_runtime iv (qm_iosVersion q) r \<longrightarrow> \<not> runtimeSuppliesDeviceFamily r iv (qm_deviceFamily q)))
    \<and> (po_blocker p = None \<longrightarrow> (\<exists>r t. po_runtime p = Some r \<and> po_deviceType p = Some t \<and> matching_runtime iv (qm_iosVersion q) r
         \<and> isCompleteSetupDeviceType (qm_deviceFamily q) t \<and> t \<in> set (runtimeSupportedDeviceTypes r iv)
         \<and> (\<forall>r'. matching_runtime iv (qm_iosVersion q) r' \<and> runtimeSuppliesDeviceFamily r' iv (qm_deviceFamily q)
              \<longrightarrow> compareSetupRuntimes loc num r r' \<le> 0)))
    \<and> po_blocker p \<in> {None, Some ''runtime-not-found'', Some ''device-type-not-found''}"
proof (cases "selectRuntimeFromInventory loc num iv (qm_iosVersion q) (qm_deviceFamily q)")
  case (Inl code)
  with selectRuntimeFromInventory_cases [OF compareSetupRuntimes_comparator [OF assms], of iv "qm_iosVersion q" "qm_deviceFamily q"]
  show ?thesis by (auto simp: capacityProvisioningForRequirement_def)
next
  case (Inr r)
  let ?s = "filter (\<lambda>t. dt_productFamily t = Some (qm_deviceFamily q)) (runtimeSupportedDeviceTypes r iv)"
  have r: "matching_runtime iv (qm_iosVersion q) r" "runtimeSuppliesDeviceFamily r iv (qm_deviceFamily q)"
    "\<forall>q'. matching_runtime iv (qm_iosVersion q) q' \<and> runtimeSuppliesDeviceFamily q' iv (qm_deviceFamily q)
       \<longrightarrow> compareSetupRuntimes loc num r q' \<le> 0"
    using selectRuntimeFromInventory_cases [OF compareSetupRuntimes_comparator [OF assms], of iv "qm_iosVersion q" "qm_deviceFamily q"]
      Inr by simp_all
  from r(2) obtain t0 where t0: "t0 \<in> set (runtimeSupportedDeviceTypes r iv)" "isCompleteSetupDeviceType (qm_deviceFamily q) t0"
    by (auto simp: runtimeSuppliesDeviceFamily_def list_ex_iff)
  then have "t0 \<in> set ?s" by (auto simp: isCompleteSetupDeviceType_def)
  moreover from this t0(2) have "\<exists>t\<in>set (rn_supported (r\<lparr>rn_supported := ?s\<rparr>)). isCompleteSetupDeviceType (qm_deviceFamily q) t" by auto
  from selectPreferred_Inr [OF this, of loc] obtain t where
    "selectPreferredDeviceType loc (r\<lparr>rn_supported := ?s\<rparr>) (qm_deviceFamily q) = Inr t" "t \<in> set ?s"
    "isCompleteSetupDeviceType (qm_deviceFamily q) t" by auto
  ultimately have "selectDeviceTypeFromInventory loc iv r (qm_deviceFamily q) = Inr (Inr t)"
    "t \<in> set (runtimeSupportedDeviceTypes r iv)" "isCompleteSetupDeviceType (qm_deviceFamily q) t"
    by (auto simp: selectDeviceTypeFromInventory_def Let_def filter_empty_conv)
  with Inr r show ?thesis by (auto simp: capacityProvisioningForRequirement_def)
qed

definition sample_requirement :: requirement where
  "sample_requirement = \<lparr>qm_capability = ''build-fast'', qm_deviceFamily = ''iPhone'', qm_iosVersion = Some ''18'', qm_resetPolicy = ''none''\<rparr>"

theorem capacity_provisioning_is_usable_witness:
  "\<exists>p t. capacityProvisioningForRequirement (cmp_key id) (cmp_key id)
      (Some \<lparr>iv_devices = [], iv_deviceTypes = [], iv_runtimes = [sample_runtime]\<rparr>) (Some sample_requirement) = Inr p
    \<and> po_deviceType p = Some t \<and> isCompleteSetupDeviceType ''iPhone'' t"
proof -
  let ?iv = "\<lparr>iv_devices = [], iv_deviceTypes = [], iv_runtimes = [sample_runtime]\<rparr>"
  have "case capacityProvisioningForRequirement (cmp_key id) (cmp_key id) (Some ?iv) (Some sample_requirement) of
      Inr p \<Rightarrow> po_blocker p = None | Inl e \<Rightarrow> False" by code_simp
  with capacity_provisioning_is_usable [OF code_unit_order.sign_comparator_axioms code_unit_order.sign_comparator_axioms,
      of id id ?iv sample_requirement]
  show ?thesis by (auto simp: sample_requirement_def)
qed

end
