(* ===== verification/Paths.thy ===== *)
theory Paths
  imports Error_Contract
begin

text \<open>
  Paths (\<open>resolveBrokerPaths\<close>, \<open>assertBrokerPathsDistinct\<close>, \<open>leaseArtifactPathOverlap\<close> and their
  helpers in \<open>broker-core/index.mjs\<close>) over the POSIX functions of Node's \<open>path\<close>.  What the
  file system answers to \<open>realpath\<close>, \<open>stat\<close> and \<open>exists\<close> is a parameter.
\<close>

section \<open>Node's path functions\<close>

text \<open>The segments of a path, where \<open>.\<close> is dropped and \<open>..\<close> removes the segment before it.\<close>

fun norm_segs :: "string list \<Rightarrow> string list \<Rightarrow> string list" where
  "norm_segs acc [] = rev acc"
| "norm_segs acc (s # ss) =
     (if s = [] \<or> s = ''.'' then norm_segs acc ss
      else if s = ''..'' then norm_segs (tl acc) ss
      else norm_segs (s # acc) ss)"

definition path_segs :: "string \<Rightarrow> string list" where
  "path_segs p = norm_segs [] (split_on CHR ''/'' p)"

definition path_of :: "string list \<Rightarrow> string" where
  "path_of segs = CHR ''/'' # join_with ''/'' segs"

text \<open>\<open>path.resolve(base, p)\<close> for an absolute \<open>base\<close>\<close>

definition path_resolve :: "string \<Rightarrow> string \<Rightarrow> string" where
  "path_resolve base p = (if starts_with p ''/'' then path_of (path_segs p) else path_of (path_segs (base @ ''/'' @ p)))"

text \<open>\<open>path.join(base, p)\<close> for an absolute \<open>base\<close>\<close>

definition path_join :: "string \<Rightarrow> string \<Rightarrow> string" where
  "path_join base p = path_of (path_segs (base @ ''/'' @ p))"

text \<open>\<open>path.dirname(p)\<close>\<close>

definition path_dirname :: "string \<Rightarrow> string" where
  "path_dirname p =
    (let core = rev (dropWhile (\<lambda>c. c = CHR ''/'') (rev p)) in
     if core = [] then (if p = [] then ''.'' else ''/'')
     else if CHR ''/'' \<notin> set core then ''.''
     else (let parent = rev (tl (dropWhile (\<lambda>c. c \<noteq> CHR ''/'') (rev core)))
           in if parent = [] then ''/'' else if parent = ''/'' then ''//'' else parent))"

fun drop_common :: "string list \<Rightarrow> string list \<Rightarrow> string list \<times> string list" where
  "drop_common (x # xs) (y # ys) = (if x = y then drop_common xs ys else (x # xs, y # ys))"
| "drop_common xs ys = (xs, ys)"

text \<open>\<open>path.relative\<close> of resolved paths\<close>

definition path_relative :: "string \<Rightarrow> string \<Rightarrow> string" where
  "path_relative from to =
    (let (up, down) = drop_common (path_segs from) (path_segs to)
     in join_with ''/'' (replicate (length up) ''..'' @ down))"

section \<open>Comparison of paths\<close>

definition pathContainsPath :: "string \<Rightarrow> string \<Rightarrow> bool" where
  "pathContainsPath parentPath candidatePath =
    (let relativePath = path_relative parentPath candidatePath
     in relativePath = [] \<or> (relativePath \<noteq> [] \<and> \<not> starts_with relativePath ''..'' \<and> \<not> starts_with relativePath ''/''))"

definition lower_char :: "char \<Rightarrow> char" where
  "lower_char c = (if CHR ''A'' \<le> c \<and> c \<le> CHR ''Z'' then char_of (of_char c + 32 :: nat) else c)"

definition to_lower :: "string \<Rightarrow> string" where
  "to_lower s = map lower_char s"

definition flipAsciiCase :: "string \<Rightarrow> string" where
  "flipAsciiCase s = map (\<lambda>c. if lower_char c = upper_char c then c
     else if c = lower_char c then upper_char c else lower_char c) s"

text \<open>The file system: \<open>realpath\<close> or the code of its error, the device and inode of \<open>stat\<close>, and
  whether a path exists; with the working directory and the digest of the socket name.\<close>

record fs_view =
  fs_cwd :: string
  fs_realpath :: "string \<Rightarrow> string + string"
  fs_stat :: "string \<Rightarrow> (int \<times> int) option"
  fs_exists :: "string \<Rightarrow> bool"
  fs_tmpdir :: string
  fs_shortHash :: "string \<Rightarrow> string"

definition sameExistingPath :: "fs_view \<Rightarrow> string \<Rightarrow> string \<Rightarrow> bool" where
  "sameExistingPath fs leftPath rightPath =
    (case (fs_stat fs leftPath, fs_stat fs rightPath) of (Some l, Some r) \<Rightarrow> l = r | _ \<Rightarrow> False)"

text \<open>The loop goes up from the path, whose segments come in reverse.\<close>

fun case_insensitive_up :: "fs_view \<Rightarrow> string list \<Rightarrow> bool" where
  "case_insensitive_up fs [] = False"
| "case_insensitive_up fs (b # up) =
     (if flipAsciiCase b \<noteq> b
      then sameExistingPath fs (path_of (rev (b # up))) (path_join (path_of (rev up)) (flipAsciiCase b))
      else case_insensitive_up fs up)"

definition existingPathUsesCaseInsensitiveSemantics :: "fs_view \<Rightarrow> string \<Rightarrow> bool" where
  "existingPathUsesCaseInsensitiveSemantics fs existingPath = case_insensitive_up fs (rev (path_segs existingPath))"

record path_details =
  pd_canonicalPath :: string
  pd_comparisonPath :: string

fun canonical_up :: "fs_view \<Rightarrow> string \<Rightarrow> string list \<Rightarrow> string list \<Rightarrow> berr + path_details" where
  "canonical_up fs resolvedPath candidate pending =
     (case fs_realpath fs (path_of (rev candidate)) of
        Inr existingPath \<Rightarrow>
          (let canonicalPath = path_join existingPath (join_with ''/'' pending)
           in Inr \<lparr>pd_canonicalPath = canonicalPath,
                pd_comparisonPath = (if existingPathUsesCaseInsensitiveSemantics fs existingPath
                  then to_lower canonicalPath else canonicalPath)\<rparr>)
      | Inl code \<Rightarrow>
          if code \<noteq> ''ENOENT'' \<and> code \<noteq> ''ENOTDIR'' then Inl (HostError code)
          else (case candidate of
              [] \<Rightarrow> Inr \<lparr>pd_canonicalPath = resolvedPath, pd_comparisonPath = resolvedPath\<rparr>
            | b # up \<Rightarrow> canonical_up fs resolvedPath up (b # pending)))"

declare canonical_up.simps [simp del]

definition canonicalPathDetailsForComparison :: "fs_view \<Rightarrow> string \<Rightarrow> berr + path_details" where
  "canonicalPathDetailsForComparison fs filePath =
    (let resolvedPath = path_resolve (fs_cwd fs) filePath
     in canonical_up fs resolvedPath (rev (path_segs resolvedPath)) [])"

definition canonicalPathForComparison :: "fs_view \<Rightarrow> string \<Rightarrow> berr + string" where
  "canonicalPathForComparison fs filePath = map_sum id pd_comparisonPath (canonicalPathDetailsForComparison fs filePath)"

section \<open>Distinct resource paths\<close>

datatype path_kind = File_path | Dir_path | Root_path

record path_entry =
  pe_canonicalPath :: string
  pe_comparisonPath :: string
  pe_external :: bool
  pe_kind :: path_kind
  pe_name :: string
  pe_resolvedPath :: string

definition brokerPathEntry :: "fs_view \<Rightarrow> string \<times> string \<times> bool \<times> path_kind \<Rightarrow> berr + path_entry" where
  "brokerPathEntry fs e =
    (case e of (name, filePath, external, kind) \<Rightarrow>
      (let resolvedPath = path_resolve (fs_cwd fs) filePath in
       seq (canonicalPathDetailsForComparison fs resolvedPath) (\<lambda>d.
         Inr \<lparr>pe_canonicalPath = pd_canonicalPath d, pe_comparisonPath = pd_comparisonPath d, pe_external = external,
           pe_kind = kind, pe_name = name, pe_resolvedPath = resolvedPath\<rparr>)))"

definition brokerPathEntriesOverlap :: "path_entry \<Rightarrow> path_entry \<Rightarrow> bool" where
  "brokerPathEntriesOverlap l r =
    (if pe_resolvedPath l = pe_resolvedPath r \<or> pe_canonicalPath l = pe_canonicalPath r
        \<or> pe_comparisonPath l = pe_comparisonPath r then True
     else if pe_external l \<and> pe_kind r = Dir_path then
       pathContainsPath (pe_resolvedPath r) (pe_resolvedPath l)
       \<or> pathContainsPath (pe_canonicalPath r) (pe_canonicalPath l)
       \<or> pathContainsPath (pe_comparisonPath r) (pe_comparisonPath l)
     else if pe_external r \<and> pe_kind l = Dir_path then
       pathContainsPath (pe_resolvedPath l) (pe_resolvedPath r)
       \<or> pathContainsPath (pe_canonicalPath l) (pe_canonicalPath r)
       \<or> pathContainsPath (pe_comparisonPath l) (pe_comparisonPath r)
     else False)"

record broker_paths =
  bp_appSnapshotPath :: string
  bp_capacityLockDir :: string
  bp_capacityLockOwnerPath :: string
  bp_capacityTransactionsDir :: string
  bp_evidenceDir :: string
  bp_eventsPath :: string
  bp_hostConfigPath :: string
  bp_idlePolicyPath :: string
  bp_knownProjectsPath :: string
  bp_leaseLockDir :: string
  bp_leaseLockOwnerPath :: string
  bp_leasesDir :: string
  bp_locksDir :: string
  bp_pinsDir :: string
  bp_projectFilePath :: "string option"
  bp_registryPath :: string
  bp_resetLockDir :: string
  bp_resetLockOwnerPath :: string
  bp_serviceLockDir :: string
  bp_serviceLockOwnerPath :: string
  bp_serviceLogPath :: string
  bp_serviceMetadataPath :: string
  bp_serviceSocketPath :: string
  bp_stateRoot :: string

definition path_entries :: "broker_paths \<Rightarrow> (string \<times> string \<times> bool \<times> path_kind) list" where
  "path_entries p =
    [(''hostConfigPath'', bp_hostConfigPath p, True, File_path)]
    @ (case bp_projectFilePath p of None \<Rightarrow> [] | Some f \<Rightarrow> if f = [] then [] else [(''projectFilePath'', f, True, File_path)])
    @ [(''serviceSocketPath'', bp_serviceSocketPath p, True, File_path),
       (''stateRoot'', bp_stateRoot p, False, Root_path),
       (''appSnapshotPath'', bp_appSnapshotPath p, False, File_path),
       (''knownProjectsPath'', bp_knownProjectsPath p, False, File_path),
       (''idlePolicyPath'', bp_idlePolicyPath p, False, File_path),
       (''registryPath'', bp_registryPath p, False, File_path),
       (''eventsPath'', bp_eventsPath p, False, File_path),
       (''serviceLogPath'', bp_serviceLogPath p, False, File_path),
       (''serviceMetadataPath'', bp_serviceMetadataPath p, False, File_path),
       (''capacityLockOwnerPath'', bp_capacityLockOwnerPath p, False, File_path),
       (''leaseLockOwnerPath'', bp_leaseLockOwnerPath p, False, File_path),
       (''resetLockOwnerPath'', bp_resetLockOwnerPath p, False, File_path),
       (''serviceLockOwnerPath'', bp_serviceLockOwnerPath p, False, File_path),
       (''capacityTransactionsDir'', bp_capacityTransactionsDir p, False, Dir_path),
       (''evidenceDir'', bp_evidenceDir p, False, Dir_path),
       (''leasesDir'', bp_leasesDir p, False, Dir_path),
       (''locksDir'', bp_locksDir p, False, Dir_path),
       (''pinsDir'', bp_pinsDir p, False, Dir_path),
       (''capacityLockDir'', bp_capacityLockDir p, False, Dir_path),
       (''leaseLockDir'', bp_leaseLockDir p, False, Dir_path),
       (''resetLockDir'', bp_resetLockDir p, False, Dir_path),
       (''serviceLockDir'', bp_serviceLockDir p, False, Dir_path)]"

text \<open>The pairs \<open>leftIndex < rightIndex\<close> in the order of the loops.\<close>

fun ordered_pairs :: "'a list \<Rightarrow> ('a \<times> 'a) list" where
  "ordered_pairs [] = []"
| "ordered_pairs (x # xs) = map (Pair x) xs @ ordered_pairs xs"

definition paths_not_distinct :: berr where
  "paths_not_distinct = broker_err ''Broker resource paths must be distinct.'' ''invalid-config''"

definition assertBrokerPathsDistinct :: "fs_view \<Rightarrow> broker_paths \<Rightarrow> berr + unit" where
  "assertBrokerPathsDistinct fs paths =
    seq (map_seq (brokerPathEntry fs) (path_entries paths)) (\<lambda>entries.
      if list_ex (\<lambda>(l, r). brokerPathEntriesOverlap l r) (ordered_pairs entries) then Inl paths_not_distinct else Inr ())"

section \<open>The paths of a broker\<close>

fun search_up :: "fs_view \<Rightarrow> string list \<Rightarrow> string \<Rightarrow> string option" where
  "search_up fs [] target = (let c = path_join ''/'' target in if fs_exists fs c then Some c else None)"
| "search_up fs (b # up) target =
     (let c = path_join (path_of (rev (b # up))) target in if fs_exists fs c then Some c else search_up fs up target)"

definition searchUpForFile :: "fs_view \<Rightarrow> string \<Rightarrow> string \<Rightarrow> string option" where
  "searchUpForFile fs startDir relativeTarget = search_up fs (rev (path_segs (path_resolve (fs_cwd fs) startDir))) relativeTarget"

record path_options =
  px_cwd :: string
  px_envHostConfig :: "string option"
  px_envStateRoot :: "string option"
  px_envServiceSocket :: "string option"
  px_envProjectFile :: "string option"
  px_defaultHostConfigPath :: string
  px_defaultStateRoot :: string
  px_hostConfigPath :: "string option"
  px_projectFilePath :: "string option"
  px_repoRoot :: "string option"
  px_serviceSocketPath :: "string option"
  px_stateRoot :: "string option"

definition default_project_file :: string where
  "default_project_file = ''.simulator-broker/project.json''"

text \<open>A value is used when it is given and not empty (\<open>value ? \<dots> : \<dots>\<close>).\<close>

definition given :: "string option \<Rightarrow> string option" where
  "given v = (case v of Some s \<Rightarrow> if s = [] then None else Some s | None \<Rightarrow> None)"

definition resolve_project_file :: "fs_view \<Rightarrow> path_options \<Rightarrow> string option" where
  "resolve_project_file fs opts =
    (case given (px_projectFilePath opts) of
       Some f \<Rightarrow> Some (path_resolve (fs_cwd fs) f)
     | None \<Rightarrow>
        (case given (px_envProjectFile opts) of
           Some f \<Rightarrow> Some (path_resolve (fs_cwd fs) f)
         | None \<Rightarrow>
            (case given (px_repoRoot opts) of
               Some r \<Rightarrow> Some (path_join (path_resolve (fs_cwd fs) r) default_project_file)
             | None \<Rightarrow> searchUpForFile fs (px_cwd opts) default_project_file)))"

definition state_paths :: "string \<Rightarrow> string \<Rightarrow> string option \<Rightarrow> string \<Rightarrow> broker_paths" where
  "state_paths root hostConfig projectFile socket =
    \<lparr>bp_appSnapshotPath = path_join root ''app-snapshot.json'',
     bp_capacityLockDir = path_join root ''locks/capacity.lock'',
     bp_capacityLockOwnerPath = path_join root ''locks/capacity.lock/owner.json'',
     bp_capacityTransactionsDir = path_join root ''capacity-transactions'',
     bp_evidenceDir = path_join root ''evidence'',
     bp_eventsPath = path_join root ''events.ndjson'',
     bp_hostConfigPath = hostConfig,
     bp_idlePolicyPath = path_join root ''idle-policy.json'',
     bp_knownProjectsPath = path_join root ''known-projects.json'',
     bp_leaseLockDir = path_join root ''locks/lease-mutation.lock'',
     bp_leaseLockOwnerPath = path_join root ''locks/lease-mutation.lock/owner.json'',
     bp_leasesDir = path_join root ''leases'',
     bp_locksDir = path_join root ''locks'',
     bp_pinsDir = path_join root ''pins'',
     bp_projectFilePath = projectFile,
     bp_registryPath = path_join root ''registry.json'',
     bp_resetLockDir = path_join root ''locks/reset.lock'',
     bp_resetLockOwnerPath = path_join root ''locks/reset.lock/owner.json'',
     bp_serviceLockDir = path_join root ''locks/service-start.lock'',
     bp_serviceLockOwnerPath = path_join root ''locks/service-start.lock/owner.json'',
     bp_serviceLogPath = path_join root ''brokerd.log'',
     bp_serviceMetadataPath = path_join root ''brokerd.json'',
     bp_serviceSocketPath = socket,
     bp_stateRoot = root\<rparr>"

definition resolveBrokerPaths :: "fs_view \<Rightarrow> path_options \<Rightarrow> berr + broker_paths" where
  "resolveBrokerPaths fs opts =
    (let resolve = path_resolve (fs_cwd fs);
         hostConfigPath = resolve (nullish (px_hostConfigPath opts)
           (nullish (px_envHostConfig opts) (px_defaultHostConfigPath opts)));
         stateRoot = resolve (nullish (px_stateRoot opts) (nullish (px_envStateRoot opts) (px_defaultStateRoot opts)));
         serviceSocketPath = resolve (nullish (px_serviceSocketPath opts) (nullish (px_envServiceSocket opts)
           (path_join (fs_tmpdir fs) (''simbroker-'' @ fs_shortHash fs stateRoot @ ''.sock''))));
         paths = state_paths stateRoot hostConfigPath (resolve_project_file fs opts) serviceSocketPath
     in seq (assertBrokerPathsDistinct fs paths) (\<lambda>_. Inr paths))"

text \<open>\<open>path.resolve(path.dirname(projectFilePath), "..")\<close>\<close>

definition resolveRepoRoot :: "fs_view \<Rightarrow> string \<Rightarrow> string" where
  "resolveRepoRoot fs projectFilePath = path_resolve (path_resolve (fs_cwd fs) (path_dirname projectFilePath)) ''..''"

section \<open>Lease artifacts\<close>

datatype protection = In_state_root string | Is_config_file string

definition leaseArtifactPathOverlap :: "fs_view \<Rightarrow> broker_paths \<Rightarrow> string option \<Rightarrow> berr + protection option" where
  "leaseArtifactPathOverlap fs paths artifactPath =
    (case given artifactPath of
       None \<Rightarrow> Inr None
     | Some f \<Rightarrow>
        (let resolve = path_resolve (fs_cwd fs); resolved = resolve f in
         seq (canonicalPathForComparison fs resolved) (\<lambda>canonical.
         seq (map_seq (\<lambda>c. seq (canonicalPathForComparison fs (resolve c)) (\<lambda>k. Inr (k, resolve c))) [bp_stateRoot paths]) (\<lambda>dirs.
         seq (map_seq (\<lambda>c. seq (canonicalPathForComparison fs (resolve c)) (\<lambda>k. Inr (k, resolve c)))
               (bp_hostConfigPath paths # (case given (bp_projectFilePath paths) of None \<Rightarrow> [] | Some p \<Rightarrow> [p]))) (\<lambda>files.
           Inr (case List.find (\<lambda>(k, p). pathContainsPath p resolved \<or> pathContainsPath k canonical) dirs of
               Some (k, p) \<Rightarrow> Some (In_state_root p)
             | None \<Rightarrow>
                 map_option (\<lambda>(k, p). Is_config_file p)
                   (List.find (\<lambda>(k, p). p = resolved \<or> k = canonical) files)))))))"

definition artifact_overlaps :: berr where
  "artifact_overlaps =
    broker_err ''Lease artifact path overlaps broker configuration or state.'' ''invalid-lease-artifact-path''"

definition assertLeaseArtifactPathAllowed :: "fs_view \<Rightarrow> broker_paths \<Rightarrow> string option \<Rightarrow> berr + unit" where
  "assertLeaseArtifactPathAllowed fs paths artifactPath =
    seq (leaseArtifactPathOverlap fs paths artifactPath) (\<lambda>overlap. if overlap = None then Inr () else Inl artifact_overlaps)"

section \<open>Lemmas\<close>

definition clean_segs :: "string list \<Rightarrow> bool" where
  "clean_segs = list_all (\<lambda>s. s \<noteq> [] \<and> s \<noteq> ''.'' \<and> s \<noteq> ''..'' \<and> CHR ''/'' \<notin> set s)"

lemma norm_segs_clean:
  "list_all (\<lambda>s. CHR ''/'' \<notin> set s) ss \<Longrightarrow> clean_segs acc \<Longrightarrow> clean_segs (norm_segs acc ss)"
proof (induction acc ss rule: norm_segs.induct)
  case (1 acc)
  then show ?case by (simp add: clean_segs_def)
next
  case (2 acc s ss)
  have "clean_segs (tl acc)" using "2.prems"(2) by (cases acc) (simp_all add: clean_segs_def)
  with 2 show ?case by (simp add: clean_segs_def)
qed

lemma path_segs_clean: "clean_segs (path_segs p)"
  unfolding path_segs_def
  by (rule norm_segs_clean) (auto simp: clean_segs_def list_all_iff dest: split_on_pieces)

lemma norm_segs_of_clean: "clean_segs ss \<Longrightarrow> norm_segs acc ss = rev acc @ ss"
  by (induction ss arbitrary: acc) (auto simp: clean_segs_def)

lemma norm_segs_append_empty: "norm_segs acc (ss @ [[]]) = norm_segs acc ss"
  by (induction acc ss rule: norm_segs.induct) auto

lemma split_join: "ss \<noteq> [] \<Longrightarrow> clean_segs ss \<Longrightarrow> split_on CHR ''/'' (join_with ''/'' ss) = ss"
proof (induction ss rule: induct_list012)
  case (2 x)
  then show ?case by (simp add: clean_segs_def split_on_no_sep)
next
  case (3 x y zs)
  then show ?case by (simp add: clean_segs_def split_on_append)
qed simp

lemma path_segs_of [simp]: "clean_segs ss \<Longrightarrow> path_segs (path_of ss) = ss"
  by (cases "ss = []") (simp_all add: path_segs_def path_of_def split_join norm_segs_of_clean)

lemma resolved_is_clean: "\<exists>ss. clean_segs ss \<and> path_resolve base p = path_of ss"
  using path_segs_clean by (auto simp: path_resolve_def)

lemma path_resolve_idem [simp]: "path_resolve base (path_of ss) = path_of (path_segs (path_of ss))"
  by (simp add: path_resolve_def path_of_def starts_with_def)

lemma path_resolve_resolved [simp]: "path_resolve base (path_resolve base' p) = path_resolve base' p"
  using resolved_is_clean [of base' p] by (metis path_resolve_idem path_segs_of)

lemma path_resolve_joined [simp]: "path_resolve base (path_join base' p) = path_join base' p"
  using path_segs_clean by (simp add: path_join_def)

lemma drop_common_spec:
  "drop_common xs ys = (up, down) \<Longrightarrow> (up = [] \<longleftrightarrow> (\<exists>rest. ys = xs @ rest)) \<and> (\<exists>pre. xs = pre @ up \<and> ys = pre @ down)"
proof (induction xs ys rule: drop_common.induct)
  case (1 x xs y ys)
  show ?case
  proof (cases "x = y")
    case True
    with 1 have "(up = [] \<longleftrightarrow> (\<exists>rest. ys = xs @ rest)) \<and> (\<exists>pre. xs = pre @ up \<and> ys = pre @ down)" by simp
    with True show ?thesis by (auto intro: exI [of _ "y # _"])
  qed (use 1 in auto)
qed auto

lemma starts_with_dots: "clean_segs (d # ds) \<Longrightarrow> starts_with (join_with ''/'' (d # ds)) ''..'' = starts_with d ''..''"
proof -
  assume c: "clean_segs (d # ds)"
  obtain a where d: "d = [a] \<or> (\<exists>b r. d = a # b # r)" using c by (cases d rule: remdups_adj.cases) (auto simp: clean_segs_def)
  show ?thesis using c d by (cases ds) (auto simp: starts_with_def clean_segs_def)
qed

lemma pathContains_segs:
  assumes "clean_segs a" "clean_segs b"
  shows "pathContainsPath (path_of a) (path_of b)
    \<longleftrightarrow> (\<exists>rest. b = a @ rest \<and> (rest = [] \<or> \<not> starts_with (hd rest) ''..''))"
proof -
  obtain up down where dc: "drop_common a b = (up, down)" by (cases "drop_common a b")
  from drop_common_spec [OF dc] obtain pre where pre: "a = pre @ up" "b = pre @ down"
    and up: "up = [] \<longleftrightarrow> (\<exists>rest. b = a @ rest)" by blast
  have rel: "path_relative (path_of a) (path_of b) = join_with ''/'' (replicate (length up) ''..'' @ down)"
    using assms dc by (simp add: path_relative_def)
  show ?thesis
  proof (cases up)
    case (Cons u us)
    have "starts_with (join_with ''/'' (''..'' # replicate (length us) ''..'' @ down)) ''..''"
      by (cases "replicate (length us) ''..'' @ down") (simp_all add: starts_with_def)
    moreover have "join_with ''/'' (''..'' # replicate (length us) ''..'' @ down) \<noteq> []"
      by (cases "replicate (length us) ''..'' @ down") simp_all
    ultimately show ?thesis using rel Cons up by (auto simp: pathContainsPath_def Let_def)
  next
    case Nil
    with pre have b: "b = a @ down" by simp
    show ?thesis
    proof (cases down)
      case Nil
      with rel \<open>up = []\<close> b show ?thesis by (simp add: pathContainsPath_def)
    next
      case (Cons d ds)
      with assms b have c: "clean_segs (d # ds)" by (simp add: clean_segs_def)
      then obtain x r where d: "d = x # r" "x \<noteq> CHR ''/''" by (cases d) (auto simp: clean_segs_def)
      then have "join_with ''/'' (d # ds) \<noteq> []" "\<not> starts_with (join_with ''/'' (d # ds)) ''/''"
        by (cases ds; simp add: starts_with_def)+
      with rel \<open>up = []\<close> b Cons starts_with_dots [OF c] show ?thesis
        by (auto simp: pathContainsPath_def)
    qed
  qed
qed

lemma ordered_pairs_other:
  "x \<in> set xs \<Longrightarrow> y \<in> set xs \<Longrightarrow> x \<noteq> y \<Longrightarrow> (x, y) \<in> set (ordered_pairs xs) \<or> (y, x) \<in> set (ordered_pairs xs)"
  by (induction xs) auto

lemma map_seq_image: "map_seq f xs = Inr ys \<Longrightarrow> x \<in> set xs \<Longrightarrow> \<exists>y\<in>set ys. f x = Inr y"
  by (induction xs arbitrary: ys) (auto simp: seq_Inr_iff)

lemma map_seq_map: "map_seq f (map g xs) = map_seq (\<lambda>x. f (g x)) xs"
  by (induction xs) auto

lemma entries_made:
  assumes "map_seq (brokerPathEntry fs) es = Inr entries" "(name, f, external, kind) \<in> set es"
  shows "\<exists>e\<in>set entries. pe_name e = name \<and> pe_resolvedPath e = path_resolve (fs_cwd fs) f
    \<and> pe_external e = external \<and> pe_kind e = kind"
proof -
  from map_seq_image [OF assms] obtain e where "e \<in> set entries" "brokerPathEntry fs (name, f, external, kind) = Inr e" by blast
  then show ?thesis by (auto simp: brokerPathEntry_def Let_def seq_Inr_iff intro!: bexI [of _ e])
qed

lemma distinct_paths_separated:
  assumes d: "assertBrokerPathsDistinct fs paths = Inr ()"
    and x: "(nx, f, True, File_path) \<in> set (path_entries paths)"
    and y: "(ny, g, False, Dir_path) \<in> set (path_entries paths)"
  shows "\<not> pathContainsPath (path_resolve (fs_cwd fs) g) (path_resolve (fs_cwd fs) f)"
proof -
  from d obtain entries where m: "map_seq (brokerPathEntry fs) (path_entries paths) = Inr entries"
    and no: "\<And>l r. (l, r) \<in> set (ordered_pairs entries) \<Longrightarrow> \<not> brokerPathEntriesOverlap l r"
    by (auto simp: assertBrokerPathsDistinct_def seq_Inr_iff list_ex_iff split: if_splits)
  from entries_made [OF m x] obtain a where a: "a \<in> set entries" "pe_resolvedPath a = path_resolve (fs_cwd fs) f"
    "pe_external a" "pe_kind a = File_path" by auto
  from entries_made [OF m y] obtain b where b: "b \<in> set entries" "pe_resolvedPath b = path_resolve (fs_cwd fs) g"
    "\<not> pe_external b" "pe_kind b = Dir_path" by auto
  have "a \<noteq> b" using a b by auto
  from ordered_pairs_other [OF a(1) b(1) this] no have "\<not> brokerPathEntriesOverlap a b \<or> \<not> brokerPathEntriesOverlap b a" by blast
  with a b show ?thesis by (auto simp: brokerPathEntriesOverlap_def split: if_splits)
qed

lemma external_entries:
  "(''hostConfigPath'', bp_hostConfigPath p, True, File_path) \<in> set (path_entries p)"
  "(''serviceSocketPath'', bp_serviceSocketPath p, True, File_path) \<in> set (path_entries p)"
  by (simp_all add: path_entries_def)

lemma dir_entries:
  "(''capacityTransactionsDir'', bp_capacityTransactionsDir p, False, Dir_path) \<in> set (path_entries p)"
  "(''evidenceDir'', bp_evidenceDir p, False, Dir_path) \<in> set (path_entries p)"
  "(''leasesDir'', bp_leasesDir p, False, Dir_path) \<in> set (path_entries p)"
  "(''locksDir'', bp_locksDir p, False, Dir_path) \<in> set (path_entries p)"
  "(''pinsDir'', bp_pinsDir p, False, Dir_path) \<in> set (path_entries p)"
  by (simp_all add: path_entries_def)

lemma resolveBrokerPaths_Inr:
  assumes "resolveBrokerPaths fs opts = Inr paths"
  shows "assertBrokerPathsDistinct fs paths = Inr ()"
    and "\<exists>r h s. paths = state_paths (path_resolve (fs_cwd fs) r) (path_resolve (fs_cwd fs) h) (resolve_project_file fs opts)
           (path_resolve (fs_cwd fs) s)"
proof -
  from assms obtain u r h s where u: "assertBrokerPathsDistinct fs paths = Inr u" and "paths = state_paths (path_resolve (fs_cwd fs) r)
    (path_resolve (fs_cwd fs) h) (resolve_project_file fs opts) (path_resolve (fs_cwd fs) s)"
    unfolding resolveBrokerPaths_def Let_def seq_Inr_iff by (elim exE conjE) (simp only: sum.inject, blast)
  then show "assertBrokerPathsDistinct fs paths = Inr ()"
    "\<exists>r h s. paths = state_paths (path_resolve (fs_cwd fs) r) (path_resolve (fs_cwd fs) h) (resolve_project_file fs opts)
           (path_resolve (fs_cwd fs) s)"
    by (simp, blast)
qed

lemma resolved_paths:
  assumes "resolveBrokerPaths fs opts = Inr paths"
  shows "path_resolve (fs_cwd fs) (bp_hostConfigPath paths) = bp_hostConfigPath paths"
    and "path_resolve (fs_cwd fs) (bp_serviceSocketPath paths) = bp_serviceSocketPath paths"
    and "g \<in> {bp_capacityTransactionsDir paths, bp_evidenceDir paths, bp_leasesDir paths, bp_locksDir paths, bp_pinsDir paths}
      \<Longrightarrow> path_resolve (fs_cwd fs) g = g"
proof -
  from resolveBrokerPaths_Inr(2) [OF assms] obtain r h s where p: "paths = state_paths (path_resolve (fs_cwd fs) r)
    (path_resolve (fs_cwd fs) h) (resolve_project_file fs opts) (path_resolve (fs_cwd fs) s)" by blast
  show "path_resolve (fs_cwd fs) (bp_hostConfigPath paths) = bp_hostConfigPath paths"
    "path_resolve (fs_cwd fs) (bp_serviceSocketPath paths) = bp_serviceSocketPath paths"
    by (simp_all add: p state_paths_def)
  show "path_resolve (fs_cwd fs) g = g"
    if "g \<in> {bp_capacityTransactionsDir paths, bp_evidenceDir paths, bp_leasesDir paths, bp_locksDir paths, bp_pinsDir paths}"
    using that by (auto simp: p state_paths_def)
qed

section \<open>Properties\<close>

text \<open>When the paths of a broker are accepted, the host configuration and the service socket lie in
  none of the directories whose files the broker lists, writes and removes.\<close>

theorem resolveBrokerPaths_separates:
  assumes "resolveBrokerPaths fs opts = Inr paths"
    and "f \<in> {bp_hostConfigPath paths, bp_serviceSocketPath paths}"
    and "g \<in> {bp_capacityTransactionsDir paths, bp_evidenceDir paths, bp_leasesDir paths, bp_locksDir paths, bp_pinsDir paths}"
  shows "\<not> pathContainsPath g f"
proof -
  note r = resolved_paths [OF assms(1)]
  have "\<exists>n. (n, f, True, File_path) \<in> set (path_entries paths)" using assms(2) external_entries by blast
  moreover have "\<exists>n. (n, g, False, Dir_path) \<in> set (path_entries paths)" using assms(3) dir_entries by blast
  moreover note distinct_paths_separated [OF resolveBrokerPaths_Inr(1) [OF assms(1)]]
  ultimately have "\<not> pathContainsPath (path_resolve (fs_cwd fs) g) (path_resolve (fs_cwd fs) f)"
    by blast
  with assms(2) r(1,2) r(3) [OF assms(3)] show ?thesis by auto
qed

text \<open>A file system in which every path is its own real path and nothing is a file.\<close>

definition plain_fs :: fs_view where
  "plain_fs = \<lparr>fs_cwd = ''/w'', fs_realpath = Inr, fs_stat = (\<lambda>_. None), fs_exists = (\<lambda>_. False), fs_tmpdir = ''/t'',
     fs_shortHash = (\<lambda>_. ''h'')\<rparr>"

lemma plain_fs_fields:
  "fs_cwd plain_fs = ''/w''" "fs_tmpdir plain_fs = ''/t''" "fs_shortHash plain_fs x = ''h''"
  "fs_realpath plain_fs x = Inr x"
  by (simp_all add: plain_fs_def)

definition plain_path_options :: path_options where
  "plain_path_options = \<lparr>px_cwd = ''/w'', px_envHostConfig = None, px_envStateRoot = None, px_envServiceSocket = None,
     px_envProjectFile = None, px_defaultHostConfigPath = ''/c/host.json'', px_defaultStateRoot = ''/s'',
     px_hostConfigPath = None, px_projectFilePath = None, px_repoRoot = None, px_serviceSocketPath = None, px_stateRoot = None\<rparr>"

definition plain_paths :: broker_paths where
  "plain_paths = state_paths ''/s'' ''/c/host.json'' None ''/t/simbroker-h.sock''"

definition plain_entries :: "(string \<times> string list \<times> bool \<times> path_kind) list" where
  "plain_entries =
    [(''hostConfigPath'', [''c'',''host.json''], True, File_path),
    (''serviceSocketPath'', [''t'',''simbroker-h.sock''], True, File_path),
       (''stateRoot'', [''s''], False, Root_path),
       (''appSnapshotPath'', [''s'',''app-snapshot.json''], False, File_path),
       (''knownProjectsPath'', [''s'',''known-projects.json''], False, File_path),
       (''idlePolicyPath'', [''s'',''idle-policy.json''], False, File_path),
       (''registryPath'', [''s'',''registry.json''], False, File_path),
       (''eventsPath'', [''s'',''events.ndjson''], False, File_path),
       (''serviceLogPath'', [''s'',''brokerd.log''], False, File_path),
       (''serviceMetadataPath'', [''s'',''brokerd.json''], False, File_path),
       (''capacityLockOwnerPath'', [''s'',''locks'',''capacity.lock'',''owner.json''], False, File_path),
       (''leaseLockOwnerPath'', [''s'',''locks'',''lease-mutation.lock'',''owner.json''], False, File_path),
       (''resetLockOwnerPath'', [''s'',''locks'',''reset.lock'',''owner.json''], False, File_path),
       (''serviceLockOwnerPath'', [''s'',''locks'',''service-start.lock'',''owner.json''], False, File_path),
       (''capacityTransactionsDir'', [''s'',''capacity-transactions''], False, Dir_path),
       (''evidenceDir'', [''s'',''evidence''], False, Dir_path),
       (''leasesDir'', [''s'',''leases''], False, Dir_path),
       (''locksDir'', [''s'',''locks''], False, Dir_path),
       (''pinsDir'', [''s'',''pins''], False, Dir_path),
       (''capacityLockDir'', [''s'',''locks'',''capacity.lock''], False, Dir_path),
       (''leaseLockDir'', [''s'',''locks'',''lease-mutation.lock''], False, Dir_path),
       (''resetLockDir'', [''s'',''locks'',''reset.lock''], False, Dir_path),
       (''serviceLockDir'', [''s'',''locks'',''service-start.lock''], False, Dir_path)]"

lemma plain_entries:
  "path_entries plain_paths = map (\<lambda>(n, ss, x). (n, path_of ss, x)) plain_entries"
  by (simp add: path_entries_def plain_paths_def state_paths_def plain_entries_def path_join_def path_segs_def path_of_def)

lemma plain_entries_clean:
  "distinct (map (\<lambda>(n, ss, x). ss) plain_entries)" "list_all (\<lambda>(n, ss, x). clean_segs ss) plain_entries"
  "list_all (\<lambda>(n, ss, ext, k). (k = Dir_path \<longrightarrow> hd ss = ''s'' \<and> ss \<noteq> []) \<and> (ext \<longrightarrow> hd ss \<noteq> ''s'' \<and> ss \<noteq> [])) plain_entries"
  by (simp_all add: plain_entries_def clean_segs_def)

lemma split_join_slash: "ss \<noteq> [] \<Longrightarrow> clean_segs ss \<Longrightarrow> split_on CHR ''/'' (join_with ''/'' ss @ ''/'') = ss @ [[]]"
proof (induction ss rule: induct_list012)
  case (2 x)
  then show ?case by (simp add: clean_segs_def split_on_append)
next
  case (3 x y zs)
  then show ?case by (simp add: clean_segs_def split_on_append)
qed simp

lemma path_join_empty: "clean_segs ss \<Longrightarrow> path_join (path_of ss) [] = path_of ss"
  using split_join_slash [of ss] norm_segs_of_clean [of ss]
  by (cases "ss = []") (simp_all add: path_join_def path_segs_def path_of_def norm_segs_append_empty)

definition plain_entry :: "string \<times> string list \<times> bool \<times> path_kind \<Rightarrow> path_entry" where
  "plain_entry e = (case e of (n, ss, ext, k) \<Rightarrow> \<lparr>pe_canonicalPath = path_of ss, pe_comparisonPath = path_of ss,
     pe_external = ext, pe_kind = k, pe_name = n, pe_resolvedPath = path_of ss\<rparr>)"

lemma plain_not_case_insensitive: "\<not> case_insensitive_up plain_fs up"
  by (induction up) (auto simp: sameExistingPath_def plain_fs_def)

lemma brokerPathEntry_plain:
  "clean_segs ss \<Longrightarrow> brokerPathEntry plain_fs (n, path_of ss, ext, k) = Inr (plain_entry (n, ss, ext, k))"
  using plain_not_case_insensitive
  by (simp add: brokerPathEntry_def canonicalPathDetailsForComparison_def canonical_up.simps plain_entry_def path_join_empty
      existingPathUsesCaseInsensitiveSemantics_def plain_fs_fields Let_def)

lemma ordered_pairs_distinct:
  "(x, y) \<in> set (ordered_pairs xs) \<Longrightarrow> distinct (map f xs) \<Longrightarrow> x \<in> set xs \<and> y \<in> set xs \<and> f x \<noteq> f y"
  by (induction xs) auto

lemma ordered_pairs_map: "ordered_pairs (map f xs) = map (map_prod f f) (ordered_pairs xs)"
  by (induction xs) auto

lemma plain_paths_distinct: "assertBrokerPathsDistinct plain_fs plain_paths = Inr ()"
proof -
  have clean: "clean_segs ss" if "(n, ss, x) \<in> set plain_entries" for n ss x
    using plain_entries_clean(2) that by (auto simp: list_all_iff)
  have m: "map_seq (brokerPathEntry plain_fs) (path_entries plain_paths) = Inr (map plain_entry plain_entries)"
    unfolding plain_entries map_seq_map by (rule map_seq_all_Inr) (auto simp: clean brokerPathEntry_plain)
  have "\<not> brokerPathEntriesOverlap l r" if lr: "(l, r) \<in> set (ordered_pairs (map plain_entry plain_entries))" for l r
  proof -
    from lr obtain n ss ext k n' ss' ext' k' where lr': "l = plain_entry (n, ss, ext, k)" "r = plain_entry (n', ss', ext', k')"
      "((n, ss, ext, k), (n', ss', ext', k')) \<in> set (ordered_pairs plain_entries)"
      by (auto simp: ordered_pairs_map)
    from ordered_pairs_distinct [OF lr'(3) plain_entries_clean(1)]
    have mem: "(n, ss, ext, k) \<in> set plain_entries" "(n', ss', ext', k') \<in> set plain_entries" and ne: "ss \<noteq> ss'" by auto
    then have c: "clean_segs ss" "clean_segs ss'" by (auto intro: clean)
    have hds: "k = Dir_path \<Longrightarrow> hd ss = ''s'' \<and> ss \<noteq> []" "ext \<Longrightarrow> hd ss \<noteq> ''s'' \<and> ss \<noteq> []"
      if "(n, ss, ext, k) \<in> set plain_entries" for n ss ext k
      using bspec [OF plain_entries_clean(3) [unfolded list_all_iff] that] by simp_all
    from c ne have "path_of ss \<noteq> path_of ss'" by (metis path_segs_of)
    moreover have "k = Dir_path \<and> ext' \<longrightarrow> \<not> pathContainsPath (path_of ss) (path_of ss')"
      "k' = Dir_path \<and> ext \<longrightarrow> \<not> pathContainsPath (path_of ss') (path_of ss)"
      using hds(1) [OF mem(1)] hds(2) [OF mem(1)] hds(1) [OF mem(2)] hds(2) [OF mem(2)]
      by (auto simp: pathContains_segs c hd_append)
    ultimately show ?thesis by (simp add: lr' plain_entry_def brokerPathEntriesOverlap_def)
  qed
  with m show ?thesis by (auto simp: assertBrokerPathsDistinct_def list_ex_iff)
qed

theorem resolveBrokerPaths_separates_witness:
  "resolveBrokerPaths plain_fs plain_path_options = Inr plain_paths
    \<and> \<not> pathContainsPath (bp_leasesDir plain_paths) (bp_hostConfigPath plain_paths)"
proof -
  have "path_resolve ''/w'' ''/c/host.json'' = ''/c/host.json''" "path_resolve ''/w'' ''/s'' = ''/s''"
    "path_join ''/t'' ''simbroker-h.sock'' = ''/t/simbroker-h.sock''"
    "path_resolve ''/w'' ''/t/simbroker-h.sock'' = ''/t/simbroker-h.sock''"
    "searchUpForFile plain_fs ''/w'' default_project_file = None"
    by code_simp+
  then have p: "resolveBrokerPaths plain_fs plain_path_options = Inr plain_paths"
    using plain_paths_distinct
    by (simp add: resolveBrokerPaths_def resolve_project_file_def plain_path_options_def given_def plain_paths_def Let_def
        plain_fs_fields)
  from resolveBrokerPaths_separates [OF p, of "bp_hostConfigPath plain_paths" "bp_leasesDir plain_paths"] p show ?thesis
    by simp
qed

text \<open>A lease artifact that is accepted is not the host configuration and lies in the state root only
  if its name there starts with two dots.\<close>

theorem accepted_artifact_is_outside:
  assumes "assertLeaseArtifactPathAllowed fs paths (Some f) = Inr ()" "f \<noteq> []"
  shows "path_resolve (fs_cwd fs) f \<noteq> path_resolve (fs_cwd fs) (bp_hostConfigPath paths)
    \<and> (\<forall>rest. path_segs (path_resolve (fs_cwd fs) f) = path_segs (path_resolve (fs_cwd fs) (bp_stateRoot paths)) @ rest
      \<longrightarrow> rest \<noteq> [] \<and> starts_with (hd rest) ''..'')"
proof -
  let ?r = "path_resolve (fs_cwd fs)"
  from assms obtain canonical dir files where
    dir: "\<not> pathContainsPath (?r (bp_stateRoot paths)) (?r f)"
    and files: "map_seq (\<lambda>c. seq (canonicalPathForComparison fs (?r c)) (\<lambda>k. Inr (k, ?r c)))
       (bp_hostConfigPath paths # (case given (bp_projectFilePath paths) of None \<Rightarrow> [] | Some p \<Rightarrow> [p])) = Inr files"
    and none: "List.find (\<lambda>(k, p). p = ?r f \<or> k = canonical) files = None"
    unfolding assertLeaseArtifactPathAllowed_def leaseArtifactPathOverlap_def given_def Let_def
    by (auto simp: seq_Inr_iff split: option.splits if_splits)
  from map_seq_image [OF files, of "bp_hostConfigPath paths"] obtain k where "(k, ?r (bp_hostConfigPath paths)) \<in> set files"
    by (auto simp: seq_Inr_iff)
  with find_NoneD [OF none] have "?r f \<noteq> ?r (bp_hostConfigPath paths)" by fastforce
  moreover obtain a b where a: "clean_segs a" "?r (bp_stateRoot paths) = path_of a" and b: "clean_segs b" "?r f = path_of b"
    using resolved_is_clean by metis
  moreover have "rest \<noteq> [] \<and> starts_with (hd rest) ''..''" if "b = a @ rest" for rest
    using dir pathContains_segs [OF a(1) b(1)] that a(2) b(2) by auto
  ultimately show ?thesis by simp
qed

theorem accepted_artifact_is_outside_witness:
  "path_resolve ''/w'' ''out/lease.json'' \<noteq> ''/c/host.json''"
proof -
  have "assertLeaseArtifactPathAllowed plain_fs plain_paths (Some ''out/lease.json'') = Inr ()" by code_simp
  moreover have "path_resolve ''/w'' ''/c/host.json'' = ''/c/host.json''" by code_simp
  ultimately show ?thesis
    using accepted_artifact_is_outside [of plain_fs plain_paths "''out/lease.json''"]
    by (simp add: plain_fs_def plain_paths_def state_paths_def)
qed

text \<open>So an artifact directly in the state root is accepted when its name starts with two dots.\<close>

lemma dotted_artifact_in_state_root:
  "assertLeaseArtifactPathAllowed plain_fs plain_paths (Some ''/s/..leases'') = Inr ()"
  by code_simp

end
