(* ===== verification/Broker_Store.thy ===== *)
theory Broker_Store
  imports Selection Containment Paths
begin

text \<open>
  The state of a broker: its files, and the world outside (the clock, the operating system, the
  simulators).  The operations on files (\<open>writeJsonAtomic\<close> to \<open>removeIfExists\<close>,
  \<open>removeLeaseRecordFiles\<close> to \<open>appendEventRecord\<close> in \<open>broker-core/index.mjs\<close>) may fail at every
  call; a failed write leaves the file as it was, except that a restricted write may fail after the
  file is in place.  Temporary files are not modelled.
\<close>

section \<open>Directories\<close>

text \<open>A directory of JSON files, sorted by file name as \<open>listJsonFiles\<close> reads it.\<close>

definition dir_get :: "(string \<times> 'a) list \<Rightarrow> string \<Rightarrow> 'a option" where
  "dir_get d k = map_of d k"

definition dir_del :: "string \<Rightarrow> (string \<times> 'a) list \<Rightarrow> (string \<times> 'a) list" where
  "dir_del k d = filter (\<lambda>e. fst e \<noteq> k) d"

definition dir_put :: "string \<Rightarrow> 'a \<Rightarrow> (string \<times> 'a) list \<Rightarrow> (string \<times> 'a) list" where
  "dir_put k x d = ins_by (cmp_key fst) (k, x) (dir_del k d)"

definition dir_ok :: "(string \<times> 'a) list \<Rightarrow> bool" where
  "dir_ok d = distinct (map fst d)"

definition dir_restore :: "string \<Rightarrow> 'a option \<Rightarrow> (string \<times> 'a) list \<Rightarrow> (string \<times> 'a) list" where
  "dir_restore k x d = (case x of None \<Rightarrow> dir_del k d | Some y \<Rightarrow> dir_put k y d)"

text \<open>What the broker relies on, and what follows for the files of the slots: every file is named
  after its record, and no two records are about the same alias.\<close>

locale keyed_files =
  fixes get :: "'d \<Rightarrow> string \<Rightarrow> 'a option"
    and put :: "string \<Rightarrow> 'a \<Rightarrow> 'd \<Rightarrow> 'd"
    and del :: "string \<Rightarrow> 'd \<Rightarrow> 'd"
    and ok :: "'d \<Rightarrow> bool"
    and fname :: "'a \<Rightarrow> string"
    and slot :: "'a \<Rightarrow> string"
  assumes get_put: "ok d \<Longrightarrow> get (put k x d) j = (if j = k then Some x else get d j)"
    and get_del: "ok d \<Longrightarrow> get (del k d) j = (if j = k then None else get d j)"
    and ok_put: "ok d \<Longrightarrow> ok (put k x d)"
    and ok_del: "ok d \<Longrightarrow> ok (del k d)"
begin

definition slots_ok :: "'d \<Rightarrow> bool" where
  "slots_ok d \<longleftrightarrow> ok d \<and> (\<forall>k x. get d k = Some x \<longrightarrow> k = fname x)
     \<and> (\<forall>k x j y. get d k = Some x \<and> get d j = Some y \<and> slot x = slot y \<longrightarrow> k = j)"

lemma slots_del: "slots_ok d \<Longrightarrow> slots_ok (del k d)"
  unfolding slots_ok_def by (auto simp: get_del ok_del split: if_splits)

lemma slots_put:
  assumes "slots_ok d" "\<And>k y. get d k = Some y \<Longrightarrow> slot y = slot x \<Longrightarrow> k = fname x"
  shows "slots_ok (put (fname x) x d)"
proof -
  have "ok d" using assms(1) by (simp add: slots_ok_def)
  then show ?thesis using assms unfolding slots_ok_def by (auto simp: get_put ok_put split: if_splits; metis)
qed

text \<open>A record may be written again under its own slot.\<close>

lemma slots_rewrite:
  assumes "slots_ok d" "get d (fname x) = Some y" "slot y = slot x"
  shows "slots_ok (put (fname x) x d)"
  using assms(1) by (rule slots_put) (use assms in \<open>auto simp: slots_ok_def\<close>)

text \<open>All files belong to a set of claims, the pairs of a file name and a slot.\<close>

definition within :: "(string \<times> string) set \<Rightarrow> 'd \<Rightarrow> bool" where
  "within C d \<longleftrightarrow> ok d \<and> (\<forall>k x. get d k = Some x \<longrightarrow> k = fname x \<and> (k, slot x) \<in> C)"

definition exclusive :: "(string \<times> string) set \<Rightarrow> bool" where
  "exclusive C \<longleftrightarrow> (\<forall>k a j b. (k, a) \<in> C \<longrightarrow> (j, b) \<in> C \<longrightarrow> (k = j) = (a = b))"

definition claims :: "'d \<Rightarrow> (string \<times> string) set" where
  "claims d = {(k, slot x) | k x. get d k = Some x}"

lemma within_slots_ok: "within C d \<Longrightarrow> exclusive C \<Longrightarrow> slots_ok d"
  unfolding within_def exclusive_def slots_ok_def by blast

lemma slots_ok_within: "slots_ok d \<Longrightarrow> within (claims d) d \<and> exclusive (claims d)"
  unfolding within_def exclusive_def slots_ok_def claims_def by (auto; metis option.inject)

lemma within_put: "within C d \<Longrightarrow> (fname x, slot x) \<in> C \<Longrightarrow> within C (put (fname x) x d)"
  unfolding within_def by (auto simp: get_put ok_put split: if_splits)

lemma within_del: "within C d \<Longrightarrow> within C (del k d)"
  unfolding within_def by (auto simp: get_del ok_del split: if_splits)

lemma within_mono: "within C d \<Longrightarrow> C \<subseteq> D \<Longrightarrow> within D d"
  unfolding within_def by blast

lemma exclusive_insert:
  "exclusive C \<Longrightarrow> (\<And>k a. (k, a) \<in> C \<Longrightarrow> k \<noteq> j \<and> a \<noteq> b) \<Longrightarrow> exclusive (insert (j, b) C)"
  unfolding exclusive_def by (auto; metis)

end

lemma set_ins_by [simp]: "set (ins_by c x xs) = insert x (set xs)"
  by (induction xs) auto

lemma dir_ok_put: "dir_ok d \<Longrightarrow> dir_ok (dir_put k x d)"
proof -
  assume "dir_ok d"
  then have "distinct (map fst (dir_del k d))" by (simp add: dir_ok_def dir_del_def distinct_map_filter)
  moreover have "k \<notin> fst ` set (dir_del k d)" by (auto simp: dir_del_def)
  moreover have "distinct (map fst (ins_by c (k, x) ys))" if "distinct (map fst ys)" "k \<notin> fst ` set ys" for c ys
    using that by (induction ys) auto
  ultimately show ?thesis by (simp add: dir_ok_def dir_put_def)
qed

lemma dir_get_del: "dir_get (dir_del k d) j = (if j = k then None else dir_get d j)"
  by (induction d) (auto simp: dir_get_def dir_del_def)

lemma dir_ok_del: "dir_ok d \<Longrightarrow> dir_ok (dir_del k d)"
  by (simp add: dir_ok_def dir_del_def distinct_map_filter)

lemma dir_get_put: "dir_ok d \<Longrightarrow> dir_get (dir_put k x d) j = (if j = k then Some x else dir_get d j)"
proof -
  have ins: "dir_get (ins_by c (k, x) ys) j = (if j = k then Some x else dir_get ys j)" if "k \<notin> fst ` set ys" for c ys
    using that by (induction ys) (auto simp: dir_get_def)
  have "k \<notin> fst ` set (dir_del k d)" by (auto simp: dir_del_def)
  then show ?thesis by (simp add: dir_put_def ins dir_get_del)
qed

definition lease_name :: "lease \<Rightarrow> string" where
  "lease_name l = ls_leaseId l @ ''.json''"

definition pin_name :: "pin \<Rightarrow> string" where
  "pin_name p = pn_pinId p @ ''.json''"

interpretation lease_files: keyed_files dir_get dir_put dir_del dir_ok lease_name ls_alias
  by unfold_locales (simp_all add: dir_get_put dir_get_del dir_ok_put dir_ok_del)

interpretation pin_files: keyed_files dir_get dir_put dir_del dir_ok pin_name pn_alias
  by unfold_locales (simp_all add: dir_get_put dir_get_del dir_ok_put dir_ok_del)

section \<open>State and environment\<close>

text \<open>A lease artifact as it is on disk: a lease record, other JSON, or a text that is not JSON.\<close>

datatype artifact = Lease_artifact lease | Json_artifact js | Broken_artifact

text \<open>A file that is read with a distinction between what can be wrong with it.\<close>

datatype 'a stored = Missing | Stored 'a | Not_json | Unreadable

text \<open>The files of a broker, and the world.  The host configuration, the registry, the catalog of known
  projects and the idle policy are JSON values that are checked whenever they are read.\<close>

record 'w sys =
  sy_host :: "js option"
  sy_registry :: "js option"
  sy_projects :: "js option"
  sy_idle :: "js stored"
  sy_leases :: "(string \<times> lease) list"
  sy_pins :: "(string \<times> pin) list"
  sy_transactions :: "(string \<times> transaction) list"
  sy_artifacts :: "string \<Rightarrow> artifact option"
  sy_events :: "event list"
  sy_auditFailures :: "event list"
  sy_world :: 'w

datatype resource =
    R_host | R_registry | R_projects | R_idle | R_lease string | R_pin string | R_artifact string | R_transaction string | R_events
  | R_audit | R_status

text \<open>The outcome of a write or removal: done, failed with no effect, or failed after the file was in place.\<close>

datatype io_outcome = Io_ok | Io_failed string | Io_late string

datatype lock = Lease_lock | Capacity_lock | Reset_lock

record 'w simctl =
  sc_inventory :: "('w, inventory) eff"
  sc_listDevices :: "('w, inventory) eff"
  sc_measure :: "string \<Rightarrow> inventory \<Rightarrow> ('w, int) eff"
  sc_boot :: "string \<Rightarrow> ('w, unit) eff"
  sc_waitForBooted :: "string \<Rightarrow> ('w, unit) eff"
  sc_shutdown :: "string \<Rightarrow> ('w, unit) eff"
  sc_erase :: "string \<Rightarrow> ('w, unit) eff"
  sc_delete :: "string \<Rightarrow> ('w, unit) eff"
  sc_listRuntimes :: "('w, runtime list) eff"
  sc_rename :: "string \<Rightarrow> string \<Rightarrow> ('w, unit) eff"
  sc_create :: "string \<Rightarrow> string \<Rightarrow> string \<Rightarrow> ('w, string) eff"

record 'w env =
  en_now :: "'w \<Rightarrow> string \<times> 'w"
  en_date :: date_parse
  en_uuid :: "'w \<Rightarrow> string \<times> 'w"
  en_io :: "resource \<Rightarrow> 'w \<Rightarrow> io_outcome \<times> 'w"
  en_lock :: "lock \<Rightarrow> ('w, unit) eff"
  en_unlock :: "lock \<Rightarrow> ('w, unit) eff"
  en_exists :: "int \<Rightarrow> 'w \<Rightarrow> bool \<times> 'w"
  en_sampling :: bool
  en_ops :: "'w process_ops"
  en_parentPid :: int
  en_simctl :: "'w simctl"
  en_projectJson :: "string \<Rightarrow> ('w, js) eff"
  en_paths :: broker_paths
  en_fs :: "'w \<Rightarrow> fs_view"
  en_locale :: "string \<Rightarrow> string \<Rightarrow> int"
  en_localeNumeric :: "string \<Rightarrow> string \<Rightarrow> int"
  en_digest :: "js \<Rightarrow> string"

section \<open>Primitive operations\<close>

text \<open>An operation of the world, and a question to it.\<close>

definition lift :: "('w, 'a) eff \<Rightarrow> ('w sys, 'a) eff" where
  "lift m = (\<lambda>s. case m (sy_world s) of (r, w) \<Rightarrow> (r, s\<lparr>sy_world := w\<rparr>))"

definition ask :: "('w \<Rightarrow> 'a \<times> 'w) \<Rightarrow> ('w sys, 'a) eff" where
  "ask q = (\<lambda>s. case q (sy_world s) of (x, w) \<Rightarrow> (Inr x, s\<lparr>sy_world := w\<rparr>))"

text \<open>\<open>nowIso(options.now)\<close>\<close>

definition nowIso :: "'w env \<Rightarrow> string option \<Rightarrow> ('w sys, string) eff" where
  "nowIso env now = (case now of Some t \<Rightarrow> ret t | None \<Rightarrow> ask (en_now env))"

definition writeJsonAtomicRestricted ::
  "'w env \<Rightarrow> resource \<Rightarrow> ('w sys \<Rightarrow> 'w sys) \<Rightarrow> ('w sys, unit) eff" where
  "writeJsonAtomicRestricted env f put =
    andthen (ask (en_io env f)) (\<lambda>o'. case o' of
        Io_ok \<Rightarrow> update put
      | Io_failed msg \<Rightarrow> throw (HostError msg)
      | Io_late msg \<Rightarrow> andthen (update put) (\<lambda>_. throw (HostError msg)))"

text \<open>A change that is the last step of its call: it is done, or the call throws.\<close>

definition file_change :: "'w env \<Rightarrow> resource \<Rightarrow> ('w sys \<Rightarrow> 'w sys) \<Rightarrow> ('w sys, unit) eff" where
  "file_change env f change =
    andthen (ask (en_io env f)) (\<lambda>o'. case o' of
        Io_ok \<Rightarrow> update change
      | Io_failed msg \<Rightarrow> throw (HostError msg)
      | Io_late msg \<Rightarrow> throw (HostError msg))"

definition writeJsonAtomic :: "'w env \<Rightarrow> resource \<Rightarrow> ('w sys \<Rightarrow> 'w sys) \<Rightarrow> ('w sys, unit) eff" where
  "writeJsonAtomic env f put = file_change env f put"

text \<open>\<open>linkSync\<close> refuses to replace a file; removing the temporary file may fail after it.\<close>

definition link_exists :: berr where
  "link_exists = broker_err ''Lease artifact path already exists.'' ''lease-artifact-path-exists''"

definition writeJsonNoReplace ::
  "'w env \<Rightarrow> resource \<Rightarrow> ('w sys \<Rightarrow> bool) \<Rightarrow> ('w sys \<Rightarrow> 'w sys) \<Rightarrow> ('w sys, unit) eff" where
  "writeJsonNoReplace env f present put =
    andthen (ask (en_io env f)) (\<lambda>o'.
      case o' of
        Io_failed msg \<Rightarrow> throw (HostError msg)
      | Io_ok \<Rightarrow> andthen (look present) (\<lambda>there. if there then throw link_exists else update put)
      | Io_late msg \<Rightarrow> andthen (look present) (\<lambda>there. if there then throw (HostError msg)
          else andthen (update put) (\<lambda>_. throw (HostError msg))))"

definition removeIfExists ::
  "'w env \<Rightarrow> resource \<Rightarrow> ('w sys \<Rightarrow> bool) \<Rightarrow> ('w sys \<Rightarrow> 'w sys) \<Rightarrow> ('w sys, unit) eff" where
  "removeIfExists env f present del =
    andthen (look present) (\<lambda>there.
      if there then file_change env f del else ret ())"

text \<open>\<open>try { work() } finally { f() }\<close>: an error of the clean-up replaces the result.\<close>

definition finally_do :: "('w, 'a) eff \<Rightarrow> ('w, unit) eff \<Rightarrow> ('w, 'a) eff" where
  "finally_do m f = (\<lambda>s. case m s of (r, s1) \<Rightarrow> (case f s1 of (Inl e, s2) \<Rightarrow> (Inl e, s2) | (Inr u, s2) \<Rightarrow> (r, s2)))"

text \<open>\<open>withLeaseMutationLock\<close>, \<open>withCapacityLock\<close> and \<open>withResetLock\<close>: waiting for the lock may time out;
  while it is held no other broker changes the files.\<close>

definition with_lock :: "'w env \<Rightarrow> lock \<Rightarrow> ('w sys, 'a) eff \<Rightarrow> ('w sys, 'a) eff" where
  "with_lock env k work = andthen (lift (en_lock env k)) (\<lambda>_. finally_do work (lift (en_unlock env k)))"

section \<open>Configuration files\<close>

definition missingHostConfigError :: berr where
  "missingHostConfigError = broker_err ''Host config was not found.'' ''missing-host-config''"

definition readHostConfigOrThrow :: "('w sys, host_config) eff" where
  "readHostConfigOrThrow = andthen (look sy_host) (\<lambda>f. case f of
      None \<Rightarrow> throw missingHostConfigError
    | Some v \<Rightarrow> check (validateHostConfig (Some v)))"

definition writeHostConfig :: "'w env \<Rightarrow> host_config \<Rightarrow> ('w sys, unit) eff" where
  "writeHostConfig env hc = writeJsonAtomicRestricted env R_host (\<lambda>s. s\<lparr>sy_host := Some (host_config_json hc)\<rparr>)"

definition hostConfigWithPendingRetirements :: "host_config \<Rightarrow> string list \<Rightarrow> host_config" where
  "hostConfigWithPendingRetirements hc pending = hc\<lparr>hc_pendingRetirements := pending\<rparr>"

definition registry_text :: "host_config \<Rightarrow> registry \<Rightarrow> js" where
  "registry_text hc r = registry_json (map ha_alias (hc_aliases hc)) r"

definition writeRegistry :: "'w env \<Rightarrow> host_config \<Rightarrow> registry \<Rightarrow> ('w sys, unit) eff" where
  "writeRegistry env hc r = writeJsonAtomicRestricted env R_registry (\<lambda>s. s\<lparr>sy_registry := Some (registry_text hc r)\<rparr>)"

definition idle_persistence_error :: berr where
  "idle_persistence_error = broker_err ''Idle registry state could not be persisted.'' ''internal-error''"

definition writeIdleRegistry :: "'w env \<Rightarrow> host_config \<Rightarrow> registry \<Rightarrow> ('w sys, unit) eff" where
  "writeIdleRegistry env hc r = catching (writeRegistry env hc r) (\<lambda>e. throw idle_persistence_error)"

definition known_project_json :: "known_project \<Rightarrow> js" where
  "known_project_json p = JObj
    [(''lastObservedAt'', JStr (kp_lastObservedAt p)), (''projectFilePath'', JStr (kp_projectFilePath p)),
     (''projectId'', JStr (kp_projectId p)), (''projectName'', JStr (kp_projectName p)),
     (''purposes'', JArr (map purpose_json (kp_purposes p))), (''repoRoot'', JStr (kp_repoRoot p))]"

definition known_projects_json :: "known_projects \<Rightarrow> js" where
  "known_projects_json k = JObj
    [(''projects'', JObj (map (\<lambda>(i, p). (i, known_project_json p)) (kn_projects k))),
     (''updatedAt'', JStr (kn_updatedAt k)), (''version'', JInt 1)]"

definition writeKnownProjects :: "'w env \<Rightarrow> known_projects \<Rightarrow> ('w sys, unit) eff" where
  "writeKnownProjects env k = writeJsonAtomicRestricted env R_projects (\<lambda>s. s\<lparr>sy_projects := Some (known_projects_json k)\<rparr>)"

definition createKnownProjectRecord :: "fs_view \<Rightarrow> project_config \<Rightarrow> string \<Rightarrow> string \<Rightarrow> known_project" where
  "createKnownProjectRecord fs projectConfig projectFilePath timestamp =
    \<lparr>kp_lastObservedAt = timestamp, kp_projectFilePath = projectFilePath, kp_projectId = pc_projectId projectConfig,
     kp_projectName = pc_projectName projectConfig, kp_purposes = pc_purposes projectConfig,
     kp_repoRoot = resolveRepoRoot fs projectFilePath\<rparr>"

text \<open>\<open>object[key] = value\<close>: an existing key keeps its place.\<close>

definition obj_put :: "string \<Rightarrow> 'a \<Rightarrow> (string \<times> 'a) list \<Rightarrow> (string \<times> 'a) list" where
  "obj_put k v kvs = (if k \<in> fst ` set kvs then map (\<lambda>(j, x). (j, if j = k then v else x)) kvs else kvs @ [(k, v)])"

definition rememberKnownProject ::
  "'w env \<Rightarrow> known_projects \<Rightarrow> project_config \<Rightarrow> string \<Rightarrow> string \<Rightarrow> ('w sys, known_projects) eff" where
  "rememberKnownProject env knownProjects projectConfig projectFilePath timestamp =
    andthen (look (\<lambda>s. en_fs env (sy_world s))) (\<lambda>fs.
      let known = knownProjects\<lparr>kn_projects := obj_put (pc_projectId projectConfig)
              (createKnownProjectRecord fs projectConfig projectFilePath timestamp) (kn_projects knownProjects),
            kn_updatedAt := timestamp\<rparr>
      in andthen (writeKnownProjects env known) (\<lambda>_. ret known))"

definition readProjectConfigOrThrow :: "'w env \<Rightarrow> string option \<Rightarrow> ('w sys, project_config \<times> string) eff" where
  "readProjectConfigOrThrow env projectFilePath =
    (case or_else projectFilePath (bp_projectFilePath (en_paths env)) of
       None \<Rightarrow> throw (broker_err ''No project file found.'' ''missing-project-file'')
     | Some resolvedProjectFile \<Rightarrow>
         if resolvedProjectFile = [] then throw (broker_err ''No project file found.'' ''missing-project-file'')
         else andthen (lift (en_projectJson env resolvedProjectFile)) (\<lambda>v.
           andthen (check (validateProjectConfig (Some v))) (\<lambda>projectConfig. ret (projectConfig, resolvedProjectFile))))"

section \<open>Lease files\<close>

definition assert_artifact_allowed :: "'w env \<Rightarrow> lease \<Rightarrow> ('w sys, unit) eff" where
  "assert_artifact_allowed env l =
    andthen (look (\<lambda>s. en_fs env (sy_world s))) (\<lambda>fs.
      check (assertLeaseArtifactPathAllowed fs (en_paths env) (ls_artifactPath l)))"

definition put_lease :: "lease \<Rightarrow> 'w sys \<Rightarrow> 'w sys" where
  "put_lease l s = s\<lparr>sy_leases := dir_put (lease_name l) l (sy_leases s)\<rparr>"

definition del_lease :: "string \<Rightarrow> 'w sys \<Rightarrow> 'w sys" where
  "del_lease k s = s\<lparr>sy_leases := dir_del k (sy_leases s)\<rparr>"

definition set_artifact :: "string \<Rightarrow> artifact option \<Rightarrow> 'w sys \<Rightarrow> 'w sys" where
  "set_artifact p a s = s\<lparr>sy_artifacts := (sy_artifacts s)(p := a)\<rparr>"

definition removeCanonicalLeaseRecordFile :: "'w env \<Rightarrow> lease \<Rightarrow> ('w sys, unit) eff" where
  "removeCanonicalLeaseRecordFile env l =
    removeIfExists env (R_lease (lease_name l)) (\<lambda>s. dir_get (sy_leases s) (lease_name l) \<noteq> None) (del_lease (lease_name l))"

definition remove_artifact :: "'w env \<Rightarrow> lease \<Rightarrow> ('w sys, unit) eff" where
  "remove_artifact env l =
    (case given (ls_artifactPath l) of
       None \<Rightarrow> ret ()
     | Some p \<Rightarrow> removeIfExists env (R_artifact p) (\<lambda>s. sy_artifacts s p \<noteq> None) (set_artifact p None))"

definition removeLeaseRecordFiles :: "'w env \<Rightarrow> lease \<Rightarrow> ('w sys, unit) eff" where
  "removeLeaseRecordFiles env l =
    andthen (assert_artifact_allowed env l) (\<lambda>_.
    andthen (removeCanonicalLeaseRecordFile env l) (\<lambda>_. remove_artifact env l))"

definition removeLeaseArtifactFile :: "'w env \<Rightarrow> lease \<Rightarrow> ('w sys, unit) eff" where
  "removeLeaseArtifactFile env l = andthen (assert_artifact_allowed env l) (\<lambda>_. remove_artifact env l)"

record file_snapshot =
  fn_artifact :: "artifact option"
  fn_artifactPath :: "string option"
  fn_canonical :: "lease option"
  fn_name :: string

text \<open>Reading an artifact that is not JSON throws.\<close>

definition snapshotLeaseRecordFiles :: "lease \<Rightarrow> ('w sys, file_snapshot) eff" where
  "snapshotLeaseRecordFiles l =
    andthen (look (\<lambda>s. (dir_get (sy_leases s) (lease_name l), Option.bind (given (ls_artifactPath l)) (sy_artifacts s))))
      (\<lambda>(canonical, artifact).
        if artifact = Some Broken_artifact then throw (HostError ''SyntaxError'')
        else ret \<lparr>fn_artifact = artifact, fn_artifactPath = given (ls_artifactPath l), fn_canonical = canonical,
               fn_name = lease_name l\<rparr>)"

definition restoreLeaseRecordFiles :: "'w env \<Rightarrow> file_snapshot \<Rightarrow> ('w sys, unit) eff" where
  "restoreLeaseRecordFiles env snap =
    andthen (case fn_canonical snap of
        Some l \<Rightarrow> writeJsonAtomicRestricted env (R_lease (fn_name snap))
            (\<lambda>s. s\<lparr>sy_leases := dir_put (fn_name snap) l (sy_leases s)\<rparr>)
      | None \<Rightarrow> removeIfExists env (R_lease (fn_name snap)) (\<lambda>s. dir_get (sy_leases s) (fn_name snap) \<noteq> None)
            (del_lease (fn_name snap))) (\<lambda>_.
      case fn_artifactPath snap of
        None \<Rightarrow> ret ()
      | Some p \<Rightarrow>
          (case fn_artifact snap of
             Some a \<Rightarrow> writeJsonAtomic env (R_artifact p) (set_artifact p (Some a))
           | None \<Rightarrow> removeIfExists env (R_artifact p) (\<lambda>s. sy_artifacts s p \<noteq> None) (set_artifact p None)))"

text \<open>An error of the restoration is attached to the first one.\<close>

definition attempt :: "('w, unit) eff \<Rightarrow> ('w, unit) eff" where
  "attempt m = catching m (\<lambda>_. ret ())"

definition writeLeaseRecord :: "'w env \<Rightarrow> lease \<Rightarrow> bool \<Rightarrow> ('w sys, unit) eff" where
  "writeLeaseRecord env l replaceArtifact =
    andthen (assert_artifact_allowed env l) (\<lambda>_.
    andthen (snapshotLeaseRecordFiles l) (\<lambda>snap.
    andthen (writeJsonAtomicRestricted env (R_lease (lease_name l)) (put_lease l)) (\<lambda>_.
      catching
        (case given (ls_artifactPath l) of
           None \<Rightarrow> ret ()
         | Some p \<Rightarrow>
             if replaceArtifact then writeJsonAtomic env (R_artifact p) (set_artifact p (Some (Lease_artifact l)))
             else writeJsonNoReplace env (R_artifact p) (\<lambda>s. sy_artifacts s p \<noteq> None)
               (set_artifact p (Some (Lease_artifact l))))
        (\<lambda>e. andthen (attempt (restoreLeaseRecordFiles env snap)) (\<lambda>_. throw e)))))"

section \<open>The audit log\<close>

definition event_of ::
  "string \<Rightarrow> string option \<Rightarrow> string option \<Rightarrow> string option \<Rightarrow> string option \<Rightarrow> string option \<Rightarrow> string list \<Rightarrow> string
    \<Rightarrow> event" where
  "event_of type alias actorType leaseId projectId purposeId detail timestamp =
    \<lparr>ev_id = [], ev_timestamp = timestamp, ev_type = type, ev_alias = alias, ev_actorType = actorType,
     ev_leaseId = leaseId, ev_projectId = projectId, ev_purposeId = purposeId, ev_detail = detail\<rparr>"

definition recordAuditAppendFailure :: "'w env \<Rightarrow> event \<Rightarrow> ('w sys, unit) eff" where
  "recordAuditAppendFailure env e = attempt (writeJsonAtomicRestricted env R_audit
     (\<lambda>s. s\<lparr>sy_auditFailures := sy_auditFailures s @ [e]\<rparr>))"

text \<open>\<open>appendEventRecord\<close> with the event built by \<open>buildEvent\<close>: it never throws.\<close>

definition appendEventRecord :: "'w env \<Rightarrow> event \<Rightarrow> ('w sys, unit) eff" where
  "appendEventRecord env e =
    andthen (ask (en_uuid env)) (\<lambda>eventId.
      let e = e\<lparr>ev_id := eventId\<rparr> in
      catching (writeJsonAtomicRestricted env R_events (\<lambda>s. s\<lparr>sy_events := sy_events s @ [e]\<rparr>))
        (\<lambda>_. recordAuditAppendFailure env e))"

definition lease_event :: "string \<Rightarrow> lease \<Rightarrow> string list \<Rightarrow> string \<Rightarrow> event" where
  "lease_event type l detail timestamp = event_of type (Some (ls_alias l)) (Some (ls_actorType l)) (Some (ls_leaseId l))
     (Some (ls_projectId l)) (Some (ls_purposeId l)) detail timestamp"

section \<open>What the operations keep\<close>

text \<open>A property of the files does not depend on the world.\<close>

definition of_files :: "('w sys \<Rightarrow> bool) \<Rightarrow> bool" where
  "of_files I \<longleftrightarrow> (\<forall>s w. I s \<longrightarrow> I (s\<lparr>sy_world := w\<rparr>))"

named_theorems keeps_rules

lemmas keeps_struct = keeps_andthen keeps_catching keeps_If keeps_option keeps_sum keeps_prod keeps_list keeps_unless
  keeps_basic keeps_update

lemma of_filesI: "(\<And>s w. I s \<Longrightarrow> I (s\<lparr>sy_world := w\<rparr>)) \<Longrightarrow> of_files I"
  by (simp add: of_files_def)

lemma keeps_lift [keeps_rules]: "of_files I \<Longrightarrow> keeps I (lift m)"
  by (auto simp: keeps_def lift_def of_files_def split: prod.splits)

lemma keeps_ask [keeps_rules]: "of_files I \<Longrightarrow> keeps I (ask q)"
  by (auto simp: keeps_def ask_def of_files_def split: prod.splits)

lemma keeps_nowIso [keeps_rules]: "of_files I \<Longrightarrow> keeps I (nowIso env now)"
  by (auto simp: nowIso_def keeps_ask split: option.splits)

lemma keeps_io_outcome:
  "keeps I a \<Longrightarrow> (\<And>m. keeps I (b m)) \<Longrightarrow> (\<And>m. keeps I (c m))
    \<Longrightarrow> keeps I (case v of Io_ok \<Rightarrow> a | Io_failed m \<Rightarrow> b m | Io_late m \<Rightarrow> c m)"
  by (cases v) auto

lemma keeps_restricted [keeps_rules]:
  "of_files I \<Longrightarrow> (\<And>s. I s \<Longrightarrow> I (put s)) \<Longrightarrow> keeps I (writeJsonAtomicRestricted env f put)"
  unfolding writeJsonAtomicRestricted_def by (intro keeps_andthen keeps_ask keeps_io_outcome keeps_update keeps_basic)

lemma keeps_file_change [keeps_rules]:
  "of_files I \<Longrightarrow> (\<And>s. I s \<Longrightarrow> I (put s)) \<Longrightarrow> keeps I (file_change env f put)"
  unfolding file_change_def by (intro keeps_andthen keeps_ask keeps_io_outcome keeps_update keeps_basic)

lemma keeps_writeJsonAtomic [keeps_rules]:
  "of_files I \<Longrightarrow> (\<And>s. I s \<Longrightarrow> I (put s)) \<Longrightarrow> keeps I (writeJsonAtomic env f put)"
  unfolding writeJsonAtomic_def by (rule keeps_file_change)

lemma keeps_noReplace [keeps_rules]:
  "of_files I \<Longrightarrow> (\<And>s. I s \<Longrightarrow> I (put s)) \<Longrightarrow> keeps I (writeJsonNoReplace env f present put)"
  unfolding writeJsonNoReplace_def
  by (intro keeps_andthen keeps_ask keeps_io_outcome keeps_update keeps_basic keeps_If)

lemma keeps_removeIfExists [keeps_rules]:
  "of_files I \<Longrightarrow> (\<And>s. I s \<Longrightarrow> I (del s)) \<Longrightarrow> keeps I (removeIfExists env f present del)"
  unfolding removeIfExists_def by (intro keeps_andthen keeps_file_change keeps_basic keeps_If)

lemma keeps_finally [keeps_rules]: "keeps I m \<Longrightarrow> keeps I f \<Longrightarrow> keeps I (finally_do m f)"
  by (auto simp: keeps_def finally_do_def split: prod.splits sum.splits)

lemma keeps_with_lock [keeps_rules]: "of_files I \<Longrightarrow> keeps I m \<Longrightarrow> keeps I (with_lock env k m)"
  unfolding with_lock_def by (intro keeps_andthen keeps_finally keeps_lift)

lemma keeps_attempt [keeps_rules]: "keeps I m \<Longrightarrow> keeps I (attempt m)"
  unfolding attempt_def by (intro keeps_catching keeps_basic)

lemma keeps_artifact_allowed [keeps_rules]: "keeps I (assert_artifact_allowed env l)"
  unfolding assert_artifact_allowed_def by (intro keeps_andthen keeps_basic)

lemma keeps_readHostConfig [keeps_rules]: "keeps I readHostConfigOrThrow"
  unfolding readHostConfigOrThrow_def by (intro keeps_andthen keeps_basic keeps_option)

lemma keeps_readProjectConfig [keeps_rules]: "of_files I \<Longrightarrow> keeps I (readProjectConfigOrThrow env f)"
  unfolding readProjectConfigOrThrow_def by (intro keeps_option keeps_If keeps_andthen keeps_lift keeps_basic)

lemma keeps_appendEvent [keeps_rules]:
  assumes "of_files I" "\<And>s e. I s \<Longrightarrow> I (s\<lparr>sy_events := e\<rparr>)" "\<And>s e. I s \<Longrightarrow> I (s\<lparr>sy_auditFailures := e\<rparr>)"
  shows "keeps I (appendEventRecord env e)"
  unfolding appendEventRecord_def recordAuditAppendFailure_def Let_def
  by (intro keeps_andthen keeps_ask keeps_catching keeps_restricted keeps_attempt assms)

text \<open>An operation whose continuation needs to know what the first part returned.\<close>

lemma keeps_andthen_post:
  assumes "keeps I m" "\<And>s x s'. I s \<Longrightarrow> m s = (Inr x, s') \<Longrightarrow> Q x" "\<And>x. Q x \<Longrightarrow> keeps I (k x)"
  shows "keeps I (andthen m k)"
  unfolding keeps_def
proof (intro allI impI)
  fix s
  assume I: "I s"
  obtain r s1 where m: "m s = (r, s1)" by (cases "m s")
  with assms(1) I have I1: "I s1" by (rule keepsD)
  show "I (snd (andthen m k s))"
  proof (cases r)
    case (Inl e)
    with m I1 show ?thesis by (simp add: run_andthen)
  next
    case (Inr x)
    with assms(2) [OF I] m have "Q x" by blast
    with assms(3) I1 have "I (snd (k x s1))" by (auto simp: keeps_def)
    with m Inr show ?thesis by (simp add: run_andthen)
  qed
qed

text \<open>The lease files stay within a set of claims.\<close>

definition claims_kept :: "(string \<times> string) set \<Rightarrow> 'w sys \<Rightarrow> bool" where
  "claims_kept C s \<longleftrightarrow> lease_files.within C (sy_leases s)"

definition lease_claim :: "lease \<Rightarrow> string \<times> string" where
  "lease_claim l = (lease_name l, ls_alias l)"

lemma claims_kept_simps [simp]:
  "claims_kept C (s\<lparr>sy_world := w\<rparr>) = claims_kept C s" "claims_kept C (s\<lparr>sy_events := e\<rparr>) = claims_kept C s"
  "claims_kept C (s\<lparr>sy_auditFailures := e\<rparr>) = claims_kept C s" "claims_kept C (s\<lparr>sy_registry := r\<rparr>) = claims_kept C s"
  "claims_kept C (s\<lparr>sy_host := h\<rparr>) = claims_kept C s" "claims_kept C (s\<lparr>sy_projects := p\<rparr>) = claims_kept C s"
  "claims_kept C (s\<lparr>sy_idle := i\<rparr>) = claims_kept C s" "claims_kept C (s\<lparr>sy_pins := ps\<rparr>) = claims_kept C s"
  "claims_kept C (set_artifact q a s) = claims_kept C s"
  by (simp_all add: claims_kept_def set_artifact_def)

lemma claims_of_files [simp]: "of_files (claims_kept C)"
  by (simp add: of_files_def)

lemma claims_put: "claims_kept C s \<Longrightarrow> lease_claim l \<in> C \<Longrightarrow> claims_kept C (put_lease l s)"
  by (simp add: claims_kept_def put_lease_def lease_claim_def lease_files.within_put)

lemma claims_del: "claims_kept C s \<Longrightarrow> claims_kept C (del_lease k s)"
  by (simp add: claims_kept_def del_lease_def lease_files.within_del)

lemma keeps_removeLeaseFiles [keeps_rules]:
  "keeps (claims_kept C) (removeCanonicalLeaseRecordFile env l)" "keeps (claims_kept C) (remove_artifact env l)"
  "keeps (claims_kept C) (removeLeaseRecordFiles env l)" "keeps (claims_kept C) (removeLeaseArtifactFile env l)"
  unfolding removeLeaseRecordFiles_def removeLeaseArtifactFile_def removeCanonicalLeaseRecordFile_def remove_artifact_def
  by (intro keeps_rules keeps_struct; simp add: claims_del)+

lemma keeps_restore:
  assumes "\<And>y. fn_canonical snap = Some y \<Longrightarrow> fn_name snap = lease_name y \<and> lease_claim y \<in> C"
  shows "keeps (claims_kept C) (restoreLeaseRecordFiles env snap)"
  unfolding restoreLeaseRecordFiles_def
  by (intro keeps_rules keeps_struct) (auto simp: claims_del claims_put [unfolded put_lease_def] dest!: assms)

lemma snapshot_claim:
  assumes "claims_kept C s" "snapshotLeaseRecordFiles l s = (Inr snap, s')" "fn_canonical snap = Some y"
  shows "fn_name snap = lease_name y \<and> lease_claim y \<in> C"
  using assms unfolding snapshotLeaseRecordFiles_def claims_kept_def lease_files.within_def lease_claim_def
  by (auto simp: run_andthen run_simps split: if_splits)

lemma keeps_snapshot [keeps_rules]: "keeps I (snapshotLeaseRecordFiles l)"
  unfolding snapshotLeaseRecordFiles_def by (intro keeps_andthen keeps_basic keeps_prod keeps_If)

lemma keeps_writeLeaseRecord [keeps_rules]:
  assumes "lease_claim l \<in> C"
  shows "keeps (claims_kept C) (writeLeaseRecord env l r)"
  unfolding writeLeaseRecord_def
proof (rule keeps_andthen [OF keeps_artifact_allowed], rule keeps_andthen_post [OF keeps_snapshot,
    where Q = "\<lambda>snap. \<forall>y. fn_canonical snap = Some y \<longrightarrow> fn_name snap = lease_name y \<and> lease_claim y \<in> C"])
  fix snap :: file_snapshot
  assume "\<forall>y. fn_canonical snap = Some y \<longrightarrow> fn_name snap = lease_name y \<and> lease_claim y \<in> C"
  then have restore: "keeps (claims_kept C) (restoreLeaseRecordFiles env snap)" by (intro keeps_restore) blast
  show "keeps (claims_kept C) (andthen (writeJsonAtomicRestricted env (R_lease (lease_name l)) (put_lease l)) (\<lambda>_.
      catching
        (case given (ls_artifactPath l) of
           None \<Rightarrow> ret ()
         | Some p \<Rightarrow>
             if r then writeJsonAtomic env (R_artifact p) (set_artifact p (Some (Lease_artifact l)))
             else writeJsonNoReplace env (R_artifact p) (\<lambda>s. sy_artifacts s p \<noteq> None)
               (set_artifact p (Some (Lease_artifact l))))
        (\<lambda>e. andthen (attempt (restoreLeaseRecordFiles env snap)) (\<lambda>_. throw e))))"
    by (intro keeps_rules keeps_struct restore) (simp_all add: claims_put assms)
qed (use snapshot_claim in blast)

text \<open>Properties of the other files: they survive every change of the lease files, the artifacts, the
  audit log, the registry and the catalog.\<close>

definition lease_side :: "('w sys \<Rightarrow> bool) \<Rightarrow> bool" where
  "lease_side I \<longleftrightarrow> of_files I \<and> (\<forall>s x. I s \<longrightarrow> I (s\<lparr>sy_leases := x\<rparr>)) \<and> (\<forall>s x. I s \<longrightarrow> I (s\<lparr>sy_artifacts := x\<rparr>))
     \<and> (\<forall>s x. I s \<longrightarrow> I (s\<lparr>sy_events := x\<rparr>)) \<and> (\<forall>s x. I s \<longrightarrow> I (s\<lparr>sy_auditFailures := x\<rparr>))
     \<and> (\<forall>s x. I s \<longrightarrow> I (s\<lparr>sy_registry := x\<rparr>)) \<and> (\<forall>s x. I s \<longrightarrow> I (s\<lparr>sy_projects := x\<rparr>))"

lemma lease_sideD:
  assumes "lease_side I"
  shows "of_files I" "I s \<Longrightarrow> I (s\<lparr>sy_leases := x\<rparr>)" "I s \<Longrightarrow> I (s\<lparr>sy_artifacts := a\<rparr>)" "I s \<Longrightarrow> I (s\<lparr>sy_events := e\<rparr>)"
    "I s \<Longrightarrow> I (s\<lparr>sy_auditFailures := e\<rparr>)" "I s \<Longrightarrow> I (s\<lparr>sy_registry := r\<rparr>)" "I s \<Longrightarrow> I (s\<lparr>sy_projects := q\<rparr>)"
  using assms by (simp_all add: lease_side_def)

lemma lease_side_files [simp]: "lease_side (\<lambda>s. P (sy_pins s) (sy_host s) (sy_idle s))"
  by (simp add: lease_side_def of_files_def)

lemma keeps_side:
  assumes "lease_side I"
  shows "keeps I (removeCanonicalLeaseRecordFile env l)" "keeps I (remove_artifact env l)"
    "keeps I (removeLeaseRecordFiles env l)" "keeps I (removeLeaseArtifactFile env l)"
    "keeps I (restoreLeaseRecordFiles env snap)" "keeps I (writeLeaseRecord env l r)" "keeps I (appendEventRecord env e)"
    "keeps I (writeRegistry env hc rg)" "keeps I (writeKnownProjects env known)"
    "keeps I (rememberKnownProject env known cfg f t)"
proof -
  note d = lease_sideD [OF assms]
  show a: "keeps I (removeCanonicalLeaseRecordFile env l)" "keeps I (remove_artifact env l)"
    by (simp_all add: removeCanonicalLeaseRecordFile_def remove_artifact_def)
      ((intro keeps_rules keeps_struct d(1); simp add: del_lease_def set_artifact_def d)+)
  show "keeps I (removeLeaseRecordFiles env l)"
    unfolding removeLeaseRecordFiles_def by (intro keeps_artifact_allowed keeps_andthen a)
  show "keeps I (removeLeaseArtifactFile env l)"
    unfolding removeLeaseArtifactFile_def by (intro keeps_artifact_allowed keeps_andthen a)
  show b: "keeps I (restoreLeaseRecordFiles env snap)" for snap
    unfolding restoreLeaseRecordFiles_def
    by (intro keeps_rules keeps_struct d(1)) (simp_all add: del_lease_def set_artifact_def d)
  show "keeps I (writeLeaseRecord env l r)"
    unfolding writeLeaseRecord_def
    by (intro keeps_rules keeps_struct d(1) b) (simp_all add: put_lease_def set_artifact_def d)
  show "keeps I (appendEventRecord env e)" by (intro keeps_rules d)
  show "keeps I (writeRegistry env hc rg)" unfolding writeRegistry_def by (intro keeps_rules d)
  show k: "keeps I (writeKnownProjects env known)" for known unfolding writeKnownProjects_def by (intro keeps_rules d)
  show "keeps I (rememberKnownProject env known cfg f t)"
    unfolding rememberKnownProject_def Let_def by (intro keeps_struct k)
qed

section \<open>What a successful operation has done\<close>

lemma file_change_ok: "file_change env f g s = (Inr u, s') \<Longrightarrow> \<exists>w. s' = g (s\<lparr>sy_world := w\<rparr>)"
  by (auto simp: file_change_def ask_def run_andthen run_simps split: prod.splits io_outcome.splits)

lemma restricted_ok: "writeJsonAtomicRestricted env f g s = (Inr u, s') \<Longrightarrow> \<exists>w. s' = g (s\<lparr>sy_world := w\<rparr>)"
  by (auto simp: writeJsonAtomicRestricted_def ask_def run_andthen run_simps split: prod.splits io_outcome.splits)

lemma removeIfExists_ok:
  "removeIfExists env f present g s = (Inr u, s') \<Longrightarrow> (present s \<and> (\<exists>w. s' = g (s\<lparr>sy_world := w\<rparr>))) \<or> (\<not> present s \<and> s' = s)"
  by (auto simp: removeIfExists_def run_andthen run_simps dest: file_change_ok split: if_splits)

lemma artifact_allowed_state: "assert_artifact_allowed env l s = (r, s') \<Longrightarrow> s' = s"
  by (auto simp: assert_artifact_allowed_def run_andthen run_simps)

lemma dir_del_absent: "dir_get d k = None \<Longrightarrow> dir_del k d = d"
  by (induction d) (auto simp: dir_get_def dir_del_def split: if_splits)

lemma removeCanonical_ok:
  "removeCanonicalLeaseRecordFile env l s = (Inr u, s') \<Longrightarrow> sy_leases s' = dir_del (lease_name l) (sy_leases s)"
  unfolding removeCanonicalLeaseRecordFile_def
  by (drule removeIfExists_ok) (auto simp: del_lease_def dir_del_absent)

text \<open>The parts that leave the lease files alone.\<close>

lemma keeps_leases:
  "keeps (\<lambda>s. sy_leases s = d) (remove_artifact env l)" "keeps (\<lambda>s. sy_leases s = d) (appendEventRecord env e)"
  "keeps (\<lambda>s. sy_leases s = d) (writeRegistry env hc rg)" "keeps (\<lambda>s. sy_leases s = d) (writeKnownProjects env known)"
  "keeps (\<lambda>s. sy_leases s = d) (rememberKnownProject env known cfg f t)"
proof -
  show "keeps (\<lambda>s. sy_leases s = d) (remove_artifact env l)"
    unfolding remove_artifact_def by (intro keeps_rules keeps_struct) (simp_all add: of_files_def set_artifact_def)
  show "keeps (\<lambda>s. sy_leases s = d) (appendEventRecord env e)" by (intro keeps_rules) (simp_all add: of_files_def)
  show "keeps (\<lambda>s. sy_leases s = d) (writeRegistry env hc rg)"
    unfolding writeRegistry_def by (intro keeps_rules) (simp_all add: of_files_def)
  show k: "keeps (\<lambda>s. sy_leases s = d) (writeKnownProjects env known)" for known
    unfolding writeKnownProjects_def by (intro keeps_rules) (simp_all add: of_files_def)
  show "keeps (\<lambda>s. sy_leases s = d) (rememberKnownProject env known cfg f t)"
    unfolding rememberKnownProject_def Let_def by (intro keeps_struct k)
qed

lemma removeLeaseRecordFiles_ok:
  assumes "removeLeaseRecordFiles env l s = (Inr u, s')"
  shows "sy_leases s' = dir_del (lease_name l) (sy_leases s)"
proof -
  from assms obtain v v' s1 s2 where "assert_artifact_allowed env l s = (Inr v, s1)"
    "removeCanonicalLeaseRecordFile env l s1 = (Inr v', s2)" "remove_artifact env l s2 = (Inr u, s')"
    unfolding removeLeaseRecordFiles_def by (elim andthen_InrE)
  with removeCanonical_ok keepsD [OF keeps_leases(1) refl] artifact_allowed_state show ?thesis by metis
qed

lemma writeLeaseRecord_ok:
  assumes "writeLeaseRecord env l r s = (Inr u, s')"
  shows "sy_leases s' = dir_put (lease_name l) l (sy_leases s)"
proof -
  from assms obtain v snap s1 where s1: "writeJsonAtomicRestricted env (R_lease (lease_name l)) (put_lease l) s = (Inr v, s1)"
    and rest: "catching (case given (ls_artifactPath l) of None \<Rightarrow> ret ()
         | Some p \<Rightarrow> if r then writeJsonAtomic env (R_artifact p) (set_artifact p (Some (Lease_artifact l)))
             else writeJsonNoReplace env (R_artifact p) (\<lambda>s. sy_artifacts s p \<noteq> None)
               (set_artifact p (Some (Lease_artifact l))))
        (\<lambda>e. andthen (attempt (restoreLeaseRecordFiles env snap)) (\<lambda>_. throw e)) s1 = (Inr u, s')"
    unfolding writeLeaseRecord_def snapshotLeaseRecordFiles_def
    by (elim andthen_InrE) (auto simp: run_simps dest!: artifact_allowed_state split: if_splits)
  let ?m = "case given (ls_artifactPath l) of None \<Rightarrow> ret ()
         | Some p \<Rightarrow> if r then writeJsonAtomic env (R_artifact p) (set_artifact p (Some (Lease_artifact l)))
             else writeJsonNoReplace env (R_artifact p) (\<lambda>s. sy_artifacts s p \<noteq> None)
               (set_artifact p (Some (Lease_artifact l)))"
  obtain q s2 where m: "?m s1 = (q, s2)" by (cases "?m s1")
  have "keeps (\<lambda>s. sy_leases s = sy_leases s1) ?m"
    by (intro keeps_rules keeps_struct) (simp_all add: of_files_def set_artifact_def)
  with m have s2: "sy_leases s2 = sy_leases s1" by (auto dest: keepsD)
  from rest m have "s' = s2"
    by (cases q) (auto simp: run_catching run_simps elim!: andthen_InrE)
  with s2 restricted_ok [OF s1] show ?thesis by (auto simp: put_lease_def)
qed

lemma appendEventRecord_Inr: "\<exists>s'. appendEventRecord env e s = (Inr (), s')"
proof -
  have "\<exists>s'. attempt m s = (Inr (), s')" for m :: "('w sys, unit) eff" and s
    by (cases "m s"; cases "fst (m s)") (auto simp: attempt_def run_catching run_simps)
  then show ?thesis
    by (auto simp: appendEventRecord_def recordAuditAppendFailure_def run_andthen run_catching ask_def Let_def
        split: prod.splits sum.splits)
qed

end
