(* ===== verification/Broker_Load.thy ===== *)
theory Broker_Load
  imports Broker_Store
begin

text \<open>
  Loading the broker state (\<open>loadBrokerState\<close>, \<open>readBrokerStateSnapshot\<close> and \<open>containLeaseRecord\<close> in
  \<open>broker-core/index.mjs\<close>): every lease file is kept, reclaimed or contained, the registry is brought
  up to date with the leases, the pins and the simulators, and written back.
\<close>

section \<open>Containing a lease\<close>

definition released_registry :: "registry \<Rightarrow> lease \<Rightarrow> string \<Rightarrow> registry" where
  "released_registry rg l timestamp =
    (if rg_aliases rg (ls_alias l) \<noteq> None
     then (update_entry (ls_alias l) (markAliasLeaseReleased timestamp) rg)\<lparr>rg_updatedAt := timestamp\<rparr> else rg)"

definition removeLeaseAfterContainment ::
  "'w env \<Rightarrow> host_config \<Rightarrow> registry \<Rightarrow> lease \<Rightarrow> string \<Rightarrow> ('w sys, registry) eff" where
  "removeLeaseAfterContainment env hc rg l timestamp =
    andthen (assert_artifact_allowed env l) (\<lambda>_.
    andthen (unless (rg_aliases rg (ls_alias l) = None) (writeRegistry env hc (released_registry rg l timestamp))) (\<lambda>_.
    andthen (removeLeaseRecordFiles env l) (\<lambda>_. ret (released_registry rg l timestamp))))"

definition observed_lease :: "lease \<Rightarrow> observation \<Rightarrow> string \<Rightarrow> lease" where
  "observed_lease l ob timestamp =
    l\<lparr>ls_runtime := Some ((buildLeaseRuntimeMetadata l (no_options\<lparr>ro_updatedAt := Some timestamp\<rparr>))
        \<lparr>rt_lastObservation := Some ob\<rparr>)\<rparr>"

definition writeContainmentObservation ::
  "'w env \<Rightarrow> lease \<Rightarrow> observation \<Rightarrow> string \<Rightarrow> ('w sys, lease) eff" where
  "writeContainmentObservation env l ob timestamp =
    (let l' = observed_lease l ob timestamp in andthen (writeLeaseRecord env l' True) (\<lambda>_. ret l'))"

definition containmentFailureObservation :: "contain_result \<Rightarrow> observation" where
  "containmentFailureObservation res =
    (cn_observation res)\<lparr>ob_cleanupComplete := Some (cn_cleanupComplete res), ob_remainingOwnedPids := cn_remaining res\<rparr>"

text \<open>The three ways it ends; the second one is thrown as \<open>containment-incomplete\<close>, with the lease
  changed in memory and on disk.\<close>

datatype contain_outcome = Observed lease | Incomplete lease contain_result | Contained registry contain_result

definition containment_incomplete :: berr where
  "containment_incomplete =
    broker_err ''Containment did not finish cleanup; lease remains active.'' ''containment-incomplete''"

definition containLeaseRecord ::
  "'w env \<Rightarrow> host_config \<Rightarrow> registry \<Rightarrow> lease \<Rightarrow> contain_options \<Rightarrow> ('w sys, contain_outcome) eff" where
  "containLeaseRecord env hc rg l opts =
    (let timestamp = co_timestamp opts in
     andthen (lift (containLeaseProcesses (en_date env) (en_ops env) l opts)) (\<lambda>res.
       if \<not> cn_contained res then
         andthen (writeContainmentObservation env l (cn_observation res) timestamp) (\<lambda>l'. ret (Observed l'))
       else if \<not> cn_cleanupComplete res then
         andthen (writeJsonAtomicRestricted env R_status (\<lambda>s. s)) (\<lambda>_.
         andthen (writeContainmentObservation env l (containmentFailureObservation res) timestamp) (\<lambda>l'.
           ret (Incomplete l' res)))
       else
         andthen (removeLeaseAfterContainment env hc rg l timestamp) (\<lambda>rg'.
         andthen (writeJsonAtomicRestricted env R_status (\<lambda>s. s)) (\<lambda>_.
         andthen (appendEventRecord env (lease_event ''lease.contained'' l [co_reason opts] timestamp)) (\<lambda>_.
           ret (Contained rg' res))))))"

section \<open>Lease files\<close>

definition isLeftoverAcquireRollbackLease :: "lease \<Rightarrow> registry \<Rightarrow> bool" where
  "isLeftoverAcquireRollbackLease l rg =
    (case rg_aliases rg (ls_alias l) of
       None \<Rightarrow> False
     | Some e \<Rightarrow>
         if re_health e \<noteq> Repair_needed then False
         else if re_driftReason e \<noteq> Some ''boot-on-acquire-failed'' \<and> re_driftReason e \<noteq> Some ''reset-on-acquire-failed''
         then False
         else re_activeLeaseId e \<noteq> Some (ls_leaseId l))"

definition reclaimLeftoverAcquireRollbackLease :: "'w env \<Rightarrow> lease \<Rightarrow> string \<Rightarrow> ('w sys, unit) eff" where
  "reclaimLeftoverAcquireRollbackLease env l timestamp =
    andthen (removeLeaseRecordFiles env l) (\<lambda>_.
      appendEventRecord env (lease_event ''lease.reclaimed'' l [''acquire-rollback-leftover''] timestamp))"

text \<open>\<open>memoizeProcessSampler\<close>: the first sample is used for the whole load.\<close>

definition memoizeProcessSampler :: "'w env \<Rightarrow> raw_proc list option \<Rightarrow> ('w sys, raw_proc list) eff" where
  "memoizeProcessSampler env sampled = (case sampled of Some records \<Rightarrow> ret records | None \<Rightarrow> lift (po_sample (en_ops env)))"

definition leaseOwnerIsLive ::
  "'w env \<Rightarrow> string \<Rightarrow> lease \<Rightarrow> raw_proc list option \<Rightarrow> ('w sys, bool \<times> raw_proc list option) eff" where
  "leaseOwnerIsLive env timestamp l sampled =
    andthen (ask (en_exists env (ls_ownerPid l))) (\<lambda>alive.
      if \<not> alive then ret (False, sampled)
      else
        let runtime = buildLeaseRuntimeMetadata l no_options;
            recordedOwnerPid = pos_int (or_else (rt_ownerPid runtime) (Some (ls_ownerPid l)));
            canValidateOwnerIdentity = (given (rt_ownerRegisteredAt runtime) \<noteq> None \<or> leaseHasContainmentProcessMetadata l)
        in if recordedOwnerPid = None then ret (False, sampled)
           else if \<not> canValidateOwnerIdentity \<or> \<not> en_sampling env then ret (True, sampled)
           else andthen (memoizeProcessSampler env sampled) (\<lambda>records.
             let d = discoverLeaseOwnedProcesses (en_date env) l records (en_date env timestamp) in
             ret (list_ex (\<lambda>(p, reasons). Some (pr_pid p) = recordedOwnerPid \<and> ''owner-pid'' \<in> set reasons) (dc_owned d),
                  Some records)))"

record load_options =
  lo_skipLeaseIds :: "string list"
  lo_termWaitMs :: "int option"
  lo_now :: "string option"
  lo_inventory :: "inventory option"
  lo_idle :: bool

record load_acc =
  la_active :: "lease list"
  la_registry :: registry
  la_sampled :: "raw_proc list option"

definition stale_owner_options :: "'w env \<Rightarrow> load_options \<Rightarrow> string \<Rightarrow> contain_options" where
  "stale_owner_options env opts timestamp =
    (let now = nullish (lo_now opts) timestamp in
     \<lparr>co_captureDiagnostics = False, co_killOwner = False, co_now = en_date env now, co_postKillPollMs = None,
      co_postKillWaitMs = None, co_reason = ''stale-owner'', co_requesterPid = None, co_termWaitMs = lo_termWaitMs opts,
      co_timestamp = now\<rparr>)"

text \<open>One turn of the loop over the lease files.\<close>

definition load_lease ::
  "'w env \<Rightarrow> host_config \<Rightarrow> load_options \<Rightarrow> string \<Rightarrow> lease \<Rightarrow> load_acc \<Rightarrow> ('w sys, load_acc) eff" where
  "load_lease env hc opts timestamp l acc =
    (if ls_leaseId l \<in> set (lo_skipLeaseIds opts) then ret (acc\<lparr>la_active := la_active acc @ [l]\<rparr>)
     else if isLeftoverAcquireRollbackLease l (la_registry acc) then
       andthen (reclaimLeftoverAcquireRollbackLease env l timestamp) (\<lambda>_. ret acc)
     else andthen (leaseOwnerIsLive env timestamp l (la_sampled acc)) (\<lambda>(live, sampled).
       let acc = acc\<lparr>la_sampled := sampled\<rparr> in
       if live then ret (acc\<lparr>la_active := la_active acc @ [l]\<rparr>)
       else if leaseHasContainmentProcessMetadata l then
         andthen (containLeaseRecord env hc (la_registry acc) l (stale_owner_options env opts timestamp)) (\<lambda>r.
           case r of
             Incomplete l' res \<Rightarrow> ret (acc\<lparr>la_active := la_active acc @ [l']\<rparr>)
           | Observed l' \<Rightarrow> ret acc
           | Contained rg res \<Rightarrow> ret (acc\<lparr>la_registry := rg\<rparr>))
       else
         andthen (removeLeaseRecordFiles env l) (\<lambda>_.
         andthen (appendEventRecord env (lease_event ''lease.reclaimed'' l [] timestamp)) (\<lambda>_.
           ret (acc\<lparr>la_registry := update_entry (ls_alias l) (markAliasLeaseReleased timestamp) (la_registry acc)\<rparr>)))))"

section \<open>Bringing the registry up to date\<close>

definition refresh_entry ::
  "(string \<times> lease) list \<Rightarrow> (string \<times> pin) list \<Rightarrow> string \<Rightarrow> string \<Rightarrow> registry_entry \<Rightarrow> registry_entry" where
  "refresh_entry leasesByAlias pinsByAlias timestamp a e =
    e\<lparr>re_activeLeaseId := map_option ls_leaseId (map_get leasesByAlias a),
      re_pinId := map_option pn_pinId (map_get pinsByAlias a), re_updatedAt := timestamp\<rparr>"

definition refresh_registry ::
  "host_config \<Rightarrow> (string \<times> lease) list \<Rightarrow> (string \<times> pin) list \<Rightarrow> string \<Rightarrow> registry \<Rightarrow> registry" where
  "refresh_registry hc leasesByAlias pinsByAlias timestamp rg =
    fold (\<lambda>h. update_entry (ha_alias h) (refresh_entry leasesByAlias pinsByAlias timestamp (ha_alias h))) (hc_aliases hc) rg"

definition read_inventory :: "'w env \<Rightarrow> inventory option \<Rightarrow> ('w sys, inventory) eff" where
  "read_inventory env known = (case known of Some iv \<Rightarrow> ret iv | None \<Rightarrow> lift (sc_inventory (en_simctl env)))"

definition state_of :: "host_config \<Rightarrow> known_projects \<Rightarrow> lease list \<Rightarrow> pin list \<Rightarrow> registry \<Rightarrow> broker_state" where
  "state_of hc known leases pins rg =
    \<lparr>bs_host = hc, bs_leases = leases, bs_leasesByAlias = map (\<lambda>l. (ls_alias l, l)) leases, bs_pins = pins,
     bs_pinsByAlias = map (\<lambda>p. (pn_alias p, p)) pins, bs_projects = known, bs_registry = rg\<rparr>"

definition current_registry ::
  "'w env \<Rightarrow> load_options \<Rightarrow> string \<Rightarrow> host_config \<Rightarrow> lease list \<Rightarrow> pin list \<Rightarrow> registry \<Rightarrow> ('w sys, registry) eff" where
  "current_registry env opts timestamp hc leases pins rg =
    andthen (read_inventory env (lo_inventory opts)) (\<lambda>iv.
    andthen (check (syncRegistryWithSimctl iv hc
        (refresh_registry hc (map (\<lambda>l. (ls_alias l, l)) leases) (map (\<lambda>p. (pn_alias p, p)) pins) timestamp rg)))
      (\<lambda>rg. ret (rg\<lparr>rg_updatedAt := timestamp\<rparr>)))"

definition loadBrokerState :: "'w env \<Rightarrow> load_options \<Rightarrow> string \<Rightarrow> ('w sys, broker_state) eff" where
  "loadBrokerState env opts timestamp =
    andthen readHostConfigOrThrow (\<lambda>hc.
    andthen (look sy_projects) (\<lambda>rawProjects.
    andthen (check (normalizeKnownProjects rawProjects timestamp)) (\<lambda>known.
    andthen (look sy_registry) (\<lambda>rawRegistry.
    andthen (check (normalizeRegistry rawRegistry hc timestamp)) (\<lambda>rg.
    andthen (look (\<lambda>s. map snd (sy_pins s))) (\<lambda>pins.
    andthen (look (\<lambda>s. map snd (sy_leases s))) (\<lambda>leases.
    andthen (fold_eff (load_lease env hc opts timestamp) leases
        \<lparr>la_active = [], la_registry = rg, la_sampled = None\<rparr>) (\<lambda>acc.
    andthen (current_registry env opts timestamp hc (la_active acc) pins (la_registry acc)) (\<lambda>rg'.
    andthen (if lo_idle opts then writeIdleRegistry env hc rg' else writeRegistry env hc rg') (\<lambda>_.
    andthen (writeKnownProjects env known) (\<lambda>_.
      ret (state_of hc known (la_active acc) pins rg'))))))))))))"

section \<open>Reading without changing anything\<close>

definition snapshot_lease ::
  "'w env \<Rightarrow> load_options \<Rightarrow> string \<Rightarrow> lease \<Rightarrow> load_acc \<Rightarrow> ('w sys, load_acc) eff" where
  "snapshot_lease env opts timestamp l acc =
    (if ls_leaseId l \<in> set (lo_skipLeaseIds opts) then ret (acc\<lparr>la_active := la_active acc @ [l]\<rparr>)
     else if isLeftoverAcquireRollbackLease l (la_registry acc) then ret acc
     else andthen (leaseOwnerIsLive env timestamp l (la_sampled acc)) (\<lambda>(live, sampled).
       let acc = acc\<lparr>la_sampled := sampled\<rparr> in
       if live \<or> leaseHasContainmentProcessMetadata l then ret (acc\<lparr>la_active := la_active acc @ [l]\<rparr>)
       else ret (acc\<lparr>la_registry := update_entry (ls_alias l) (\<lambda>e. e\<lparr>re_lastLeaseReleasedAt := Some timestamp\<rparr>)
              (la_registry acc)\<rparr>)))"

definition readBrokerStateSnapshot :: "'w env \<Rightarrow> load_options \<Rightarrow> string \<Rightarrow> ('w sys, broker_state) eff" where
  "readBrokerStateSnapshot env opts timestamp =
    andthen readHostConfigOrThrow (\<lambda>hc.
    andthen (look sy_projects) (\<lambda>rawProjects.
    andthen (check (normalizeKnownProjects rawProjects timestamp)) (\<lambda>known.
    andthen (look sy_registry) (\<lambda>rawRegistry.
    andthen (check (normalizeRegistry rawRegistry hc timestamp)) (\<lambda>rg.
    andthen (look (\<lambda>s. map snd (sy_pins s))) (\<lambda>pins.
    andthen (look (\<lambda>s. map snd (sy_leases s))) (\<lambda>leases.
    andthen (fold_eff (snapshot_lease env opts timestamp) leases
        \<lparr>la_active = [], la_registry = rg, la_sampled = None\<rparr>) (\<lambda>acc.
    andthen (current_registry env opts timestamp hc (la_active acc) pins (la_registry acc)) (\<lambda>rg'.
      ret (state_of hc known (la_active acc) pins rg'))))))))))"

section \<open>What a load keeps\<close>

lemma claims_events [keeps_rules]:
  "keeps (claims_kept C) (appendEventRecord env e)" "keeps (claims_kept C) (writeRegistry env hc rg)"
  "keeps (claims_kept C) (writeKnownProjects env known)" "keeps (claims_kept C) (writeIdleRegistry env hc rg)"
  "keeps (claims_kept C) (rememberKnownProject env known cfg f t)"
  unfolding writeRegistry_def writeKnownProjects_def writeIdleRegistry_def rememberKnownProject_def Let_def
  by (intro keeps_rules keeps_struct; simp)+

lemma observed_lease_frame [simp]:
  "lease_name (observed_lease l ob t) = lease_name l" "ls_alias (observed_lease l ob t) = ls_alias l"
  "ls_leaseId (observed_lease l ob t) = ls_leaseId l" "lease_claim (observed_lease l ob t) = lease_claim l"
  by (simp_all add: observed_lease_def lease_name_def lease_claim_def)

lemma keeps_contain_outcome:
  "(\<And>l. keeps I (a l)) \<Longrightarrow> (\<And>l r. keeps I (b l r)) \<Longrightarrow> (\<And>g r. keeps I (c g r))
    \<Longrightarrow> keeps I (case v of Observed l \<Rightarrow> a l | Incomplete l r \<Rightarrow> b l r | Contained g r \<Rightarrow> c g r)"
  by (cases v) auto

lemma keeps_ownerIsLive [keeps_rules]: "of_files I \<Longrightarrow> keeps I (leaseOwnerIsLive env t l m)"
  unfolding leaseOwnerIsLive_def memoizeProcessSampler_def Let_def by (intro keeps_rules keeps_struct)

lemma keeps_current_registry [keeps_rules]: "of_files I \<Longrightarrow> keeps I (current_registry env opts t hc ls ps rg)"
  unfolding current_registry_def read_inventory_def by (intro keeps_rules keeps_struct)

lemma keeps_contain:
  assumes "of_files I" "\<And>l'. lease_claim l' = lease_claim l \<Longrightarrow> keeps I (writeLeaseRecord env l' True)"
    "\<And>rg. keeps I (writeRegistry env hc rg)" "keeps I (removeLeaseRecordFiles env l)" "\<And>e. keeps I (appendEventRecord env e)"
  shows "keeps I (containLeaseRecord env hc rg l opts)"
  unfolding containLeaseRecord_def writeContainmentObservation_def removeLeaseAfterContainment_def Let_def
  by (intro keeps_struct assms keeps_lift keeps_restricted keeps_artifact_allowed observed_lease_frame)

lemma keeps_load_lease:
  assumes "of_files I" "\<And>l'. lease_claim l' = lease_claim l \<Longrightarrow> keeps I (writeLeaseRecord env l' True)"
    "\<And>rg. keeps I (writeRegistry env hc rg)" "keeps I (removeLeaseRecordFiles env l)" "\<And>e. keeps I (appendEventRecord env e)"
  shows "keeps I (load_lease env hc opts t l acc)"
  unfolding load_lease_def reclaimLeftoverAcquireRollbackLease_def Let_def
  by (intro keeps_contain keeps_struct keeps_contain_outcome keeps_ownerIsLive assms) auto

lemma keeps_load_if:
  assumes "of_files I" "\<And>s l. I s \<Longrightarrow> l \<in> snd ` set (sy_leases s) \<Longrightarrow> K l"
    "\<And>l hc acc. K l \<Longrightarrow> keeps I (load_lease env hc opts t l acc)"
    "\<And>hc rg. keeps I (writeRegistry env hc rg)" "\<And>known. keeps I (writeKnownProjects env known)"
  shows "keeps I (loadBrokerState env opts t)"
proof -
  have leases: "keeps I (andthen (look (\<lambda>s. map snd (sy_leases s))) k)"
    if "\<And>ls. list_all K ls \<Longrightarrow> keeps I (k ls)" for k :: "lease list \<Rightarrow> ('a sys, 'b) eff"
    using assms(2) by (intro keeps_andthen_post [where Q = "list_all K"] keeps_basic that)
      (auto simp: run_simps list_all_iff)
  show ?thesis
    unfolding loadBrokerState_def writeIdleRegistry_def
    by (intro keeps_andthen [OF keeps_readHostConfig] keeps_andthen [OF keeps_basic(4)] keeps_andthen [OF keeps_basic(3)]
        leases keeps_andthen [OF keeps_fold] keeps_andthen [OF keeps_current_registry] keeps_andthen [OF keeps_If] keeps_struct assms(1,3-5))
      (auto simp: list_all_iff)
qed

lemma keeps_load_claims [keeps_rules]: "keeps (claims_kept C) (loadBrokerState env opts t)"
proof (rule keeps_load_if [where K = "\<lambda>l. lease_claim l \<in> C"])
  fix s :: "'a sys" and l
  assume "claims_kept C s" "l \<in> snd ` set (sy_leases s)"
  then show "lease_claim l \<in> C"
    unfolding claims_kept_def lease_files.within_def lease_claim_def dir_get_def dir_ok_def
    by (auto dest!: map_of_is_SomeI)
qed (auto intro!: keeps_load_lease keeps_rules simp: keeps_rules)

lemma keeps_load_side: "lease_side I \<Longrightarrow> keeps I (loadBrokerState env opts t)"
  by (rule keeps_load_if [where K = "\<lambda>_. True"]) (auto intro!: keeps_load_lease keeps_side dest: lease_sideD)

section \<open>What a successful load returns\<close>

text \<open>The lease files are those of a list.\<close>

definition files_hold :: "lease list \<Rightarrow> 'w sys \<Rightarrow> bool" where
  "files_hold ls s \<longleftrightarrow> dir_ok (sy_leases s)
     \<and> (\<forall>k l. dir_get (sy_leases s) k = Some l \<longleftrightarrow> l \<in> set ls \<and> k = lease_name l)"

definition apart :: "lease list \<Rightarrow> bool" where
  "apart ls \<longleftrightarrow> distinct (map lease_name ls) \<and> distinct (map ls_alias ls)"

lemma files_hold_cong: "sy_leases s' = sy_leases s \<Longrightarrow> files_hold ls s' = files_hold ls s"
  by (simp add: files_hold_def)

lemma files_hold_del:
  "files_hold (A @ l # R) s \<Longrightarrow> apart (A @ l # R) \<Longrightarrow> sy_leases s' = dir_del (lease_name l) (sy_leases s)
    \<Longrightarrow> files_hold (A @ R) s'"
  by (auto simp: files_hold_def apart_def dir_get_del dir_ok_del split: if_splits)

lemma files_hold_put:
  "files_hold (A @ l # R) s \<Longrightarrow> apart (A @ l # R) \<Longrightarrow> lease_claim l' = lease_claim l
    \<Longrightarrow> sy_leases s' = dir_put (lease_name l) l' (sy_leases s) \<Longrightarrow> files_hold ((A @ [l']) @ R) s'"
  by (auto simp: files_hold_def apart_def dir_get_put dir_ok_put lease_claim_def split: if_splits)

lemma apart_replace: "apart (A @ l # R) \<Longrightarrow> lease_claim l' = lease_claim l \<Longrightarrow> apart ((A @ [l']) @ R)"
  by (auto simp: apart_def lease_claim_def)

lemma apart_drop: "apart (A @ l # R) \<Longrightarrow> apart (A @ R)"
  by (simp add: apart_def)

lemma slots_ok_files:
  assumes "lease_files.slots_ok (sy_leases s)"
  shows "files_hold (map snd (sy_leases s)) s \<and> apart (map snd (sy_leases s))"
proof -
  let ?d = "sy_leases s"
  from assms have d: "distinct (map fst ?d)" and name: "\<And>k l. dir_get ?d k = Some l \<Longrightarrow> k = lease_name l"
    and same: "\<And>k l j m. dir_get ?d k = Some l \<Longrightarrow> dir_get ?d j = Some m \<Longrightarrow> ls_alias l = ls_alias m \<Longrightarrow> k = j"
    unfolding lease_files.slots_ok_def dir_ok_def by blast+
  have get: "dir_get ?d k = Some l \<longleftrightarrow> (k, l) \<in> set ?d" for k l
    using d by (simp add: dir_get_def map_of_eq_Some_iff)
  have names: "map lease_name (map snd ?d) = map fst ?d" using name get by (auto simp: prod.case_eq_if)
  have "inj_on (\<lambda>e. ls_alias (snd e)) (set ?d)"
  proof (rule inj_onI)
    fix e e'
    assume e: "e \<in> set ?d" "e' \<in> set ?d" "ls_alias (snd e) = ls_alias (snd e')"
    then have "fst e = fst e'" using same get by (metis prod.collapse)
    with e d show "e = e'" by (metis eq_key_imp_eq_value prod.collapse)
  qed
  then have "distinct (map ls_alias (map snd ?d))"
    using d by (simp add: distinct_map comp_def)
  then have "apart (map snd ?d)" unfolding apart_def names using d by simp
  moreover have "(dir_get ?d k = Some l) = (l \<in> set (map snd ?d) \<and> k = lease_name l)" for k l
  proof
    assume "l \<in> set (map snd ?d) \<and> k = lease_name l"
    then obtain j where "(j, l) \<in> set ?d" by auto
    with get name \<open>l \<in> _ \<and> _\<close> show "dir_get ?d k = Some l" by blast
  qed (use get name in force)
  ultimately show ?thesis using d by (simp add: files_hold_def dir_ok_def)
qed

lemma files_hold_slots_ok: "files_hold ls s \<Longrightarrow> apart ls \<Longrightarrow> lease_files.slots_ok (sy_leases s)"
  unfolding files_hold_def apart_def lease_files.slots_ok_def
  by (auto simp: distinct_map inj_on_def)

text \<open>A released alias in the registry.\<close>

definition marked :: "lease \<Rightarrow> registry \<Rightarrow> registry \<Rightarrow> bool" where
  "marked l rg rg' \<longleftrightarrow> (\<exists>t u. rg' = (update_entry (ls_alias l) (markAliasLeaseReleased t) rg)\<lparr>rg_updatedAt := u\<rparr>)"

lemma update_entry_absent: "rg_aliases rg a = None \<Longrightarrow> update_entry a f rg = rg"
  by (cases rg) (auto simp: update_entry_def)

lemma wf_registry_stamp [simp]: "wf_registry hc (rg\<lparr>rg_updatedAt := u\<rparr>) = wf_registry hc rg"
  by (simp add: wf_registry_def)

lemma marked_wf: "marked l rg rg' \<Longrightarrow> wf_registry hc rg \<Longrightarrow> wf_registry hc rg'"
  by (auto simp: marked_def intro!: update_entry_wf markAliasLeaseReleased_wf)

lemma marked_other: "marked l rg rg' \<Longrightarrow> a \<noteq> ls_alias l \<Longrightarrow> rg_aliases rg' a = rg_aliases rg a"
  by (auto simp: marked_def)

lemma writeContainmentObservation_ok:
  "writeContainmentObservation env l ob t s = (Inr l', s') \<Longrightarrow> lease_claim l' = lease_claim l
    \<and> ls_leaseId l' = ls_leaseId l \<and> sy_leases s' = dir_put (lease_name l) l' (sy_leases s)"
  unfolding writeContainmentObservation_def Let_def
  by (elim andthen_InrE) (auto simp: run_simps dest: writeLeaseRecord_ok)

lemma marked_released: "marked l rg (released_registry rg l t)"
  unfolding marked_def released_registry_def
  by (auto intro: exI [of _ t] exI [of _ "rg_updatedAt rg"] simp: update_entry_absent)

lemma removeLeaseAfterContainment_ok:
  assumes "removeLeaseAfterContainment env hc rg l t s = (Inr rg', s')"
  shows "marked l rg rg' \<and> rg' = released_registry rg l t \<and> sy_leases s' = dir_del (lease_name l) (sy_leases s)"
proof -
  let ?w = "unless (rg_aliases rg (ls_alias l) = None) (writeRegistry env hc (released_registry rg l t))"
  let ?fin = "andthen (removeLeaseRecordFiles env l) (\<lambda>_. ret (released_registry rg l t))"
  from assms obtain v s1 where s1: "assert_artifact_allowed env l s = (Inr v, s1)"
    and r1: "andthen ?w (\<lambda>_. ?fin) s1 = (Inr rg', s')"
    unfolding removeLeaseAfterContainment_def by (rule andthen_InrE)
  from r1 obtain v' s2 where s2: "?w s1 = (Inr v', s2)" and r2: "?fin s2 = (Inr rg', s')" by (rule andthen_InrE)
  from r2 obtain v'' where s3: "removeLeaseRecordFiles env l s2 = (Inr v'', s')" and rg': "rg' = released_registry rg l t"
    by (rule andthen_InrE) (simp add: run_simps)
  have "keeps (\<lambda>s. sy_leases s = sy_leases s1) ?w" by (intro keeps_unless keeps_leases)
  with s2 have "sy_leases s2 = sy_leases s1" by (auto dest: keepsD)
  with s1 removeLeaseRecordFiles_ok [OF s3] rg' marked_released show ?thesis
    by (auto dest: artifact_allowed_state)
qed

lemma lift_leases: "lift m s = (r, s') \<Longrightarrow> sy_leases s' = sy_leases s"
  by (auto simp: lift_def split: prod.splits)

lemma status_leases: "writeJsonAtomicRestricted env f (\<lambda>s. s) s = (Inr u, s') \<Longrightarrow> sy_leases s' = sy_leases s"
  by (auto dest: restricted_ok)

lemma event_leases: "appendEventRecord env e s = (r, s') \<Longrightarrow> sy_leases s' = sy_leases s"
  using keepsD [OF keeps_leases(2) refl] .

text \<open>What the containment of a lease does to the lease files and the registry.\<close>

lemma containLeaseRecord_ok:
  assumes "containLeaseRecord env hc rg l opts s = (Inr res, s')"
  shows "case res of
      Contained rg' r \<Rightarrow> marked l rg rg' \<and> sy_leases s' = dir_del (lease_name l) (sy_leases s) \<and> cn_cleanupComplete r
    | Incomplete l' r \<Rightarrow> lease_claim l' = lease_claim l \<and> ls_leaseId l' = ls_leaseId l
        \<and> sy_leases s' = dir_put (lease_name l) l' (sy_leases s)
    | Observed l' \<Rightarrow> lease_claim l' = lease_claim l \<and> ls_leaseId l' = ls_leaseId l
        \<and> sy_leases s' = dir_put (lease_name l) l' (sy_leases s) \<and> co_reason opts \<notin> set force_reasons"
proof -
  from assms obtain r s1 where s1: "lift (containLeaseProcesses (en_date env) (en_ops env) l opts) s = (Inr r, s1)"
    and rest: "(if \<not> cn_contained r then
         andthen (writeContainmentObservation env l (cn_observation r) (co_timestamp opts)) (\<lambda>l'. ret (Observed l'))
       else if \<not> cn_cleanupComplete r then
         andthen (writeJsonAtomicRestricted env R_status (\<lambda>s. s)) (\<lambda>_.
         andthen (writeContainmentObservation env l (containmentFailureObservation r) (co_timestamp opts)) (\<lambda>l'.
           ret (Incomplete l' r)))
       else
         andthen (removeLeaseAfterContainment env hc rg l (co_timestamp opts)) (\<lambda>rg'.
         andthen (writeJsonAtomicRestricted env R_status (\<lambda>s. s)) (\<lambda>_.
         andthen (appendEventRecord env (lease_event ''lease.contained'' l [co_reason opts] (co_timestamp opts))) (\<lambda>_.
           ret (Contained rg' r))))) s1 = (Inr res, s')"
    unfolding containLeaseRecord_def Let_def by (elim andthen_InrE)
  have same: "sy_leases s1 = sy_leases s" using s1 by (rule lift_leases)
  have forced: "co_reason opts \<notin> set force_reasons" if "\<not> cn_contained r"
  proof -
    from s1 obtain w w' where "containLeaseProcesses (en_date env) (en_ops env) l opts w = (Inr r, w')"
      by (auto simp: lift_def split: prod.splits)
    from contained_if_due [OF this] that show ?thesis by (auto simp: shouldContain_def force_reasons_def split: if_splits)
  qed
  consider "\<not> cn_contained r" | "cn_contained r" "\<not> cn_cleanupComplete r" | "cn_contained r" "cn_cleanupComplete r" by blast
  then show ?thesis
  proof cases
    case 1
    with rest forced same show ?thesis
      by (auto simp: run_simps elim!: andthen_InrE dest!: writeContainmentObservation_ok)
  next
    case 2
    with rest same show ?thesis
      by (auto simp: run_simps elim!: andthen_InrE dest!: writeContainmentObservation_ok status_leases)
  next
    case 3
    with rest same show ?thesis
      by (auto simp: run_simps elim!: andthen_InrE dest!: removeLeaseAfterContainment_ok status_leases event_leases)
  qed
qed

text \<open>One turn of the loop keeps a lease (perhaps with new runtime data), or removes its file and marks
  its alias as released.\<close>

lemma load_lease_ok:
  assumes "load_lease env hc opts t l acc s = (Inr acc', s')"
  shows "(\<exists>l'. la_active acc' = la_active acc @ [l'] \<and> lease_claim l' = lease_claim l \<and> ls_leaseId l' = ls_leaseId l
         \<and> la_registry acc' = la_registry acc
         \<and> (l' = l \<and> sy_leases s' = sy_leases s \<or> sy_leases s' = dir_put (lease_name l) l' (sy_leases s)))
    \<or> la_active acc' = la_active acc \<and> (la_registry acc' = la_registry acc \<or> marked l (la_registry acc) (la_registry acc'))
         \<and> sy_leases s' = dir_del (lease_name l) (sy_leases s)
         \<and> ls_leaseId l \<notin> set (lo_skipLeaseIds opts)"
proof -
  consider "ls_leaseId l \<in> set (lo_skipLeaseIds opts)"
    | "ls_leaseId l \<notin> set (lo_skipLeaseIds opts)" "isLeftoverAcquireRollbackLease l (la_registry acc)"
    | "ls_leaseId l \<notin> set (lo_skipLeaseIds opts)" "\<not> isLeftoverAcquireRollbackLease l (la_registry acc)" by blast
  then show ?thesis
  proof cases
    case 1
    with assms show ?thesis by (intro disjI1 exI [of _ l]) (auto simp: load_lease_def run_simps)
  next
    case 2
    with assms show ?thesis
      by (auto simp: load_lease_def reclaimLeftoverAcquireRollbackLease_def run_simps elim!: andthen_InrE
          dest!: removeLeaseRecordFiles_ok event_leases)
  next
    case 3
    from 3 assms obtain live sampled s1 where s1: "leaseOwnerIsLive env t l (la_sampled acc) s = (Inr (live, sampled), s1)"
      and rest: "(let acc = acc\<lparr>la_sampled := sampled\<rparr> in
       if live then ret (acc\<lparr>la_active := la_active acc @ [l]\<rparr>)
       else if leaseHasContainmentProcessMetadata l then
         andthen (containLeaseRecord env hc (la_registry acc) l (stale_owner_options env opts t)) (\<lambda>r.
           case r of
             Incomplete l' res \<Rightarrow> ret (acc\<lparr>la_active := la_active acc @ [l']\<rparr>)
           | Observed l' \<Rightarrow> ret acc
           | Contained rg res \<Rightarrow> ret (acc\<lparr>la_registry := rg\<rparr>))
       else
         andthen (removeLeaseRecordFiles env l) (\<lambda>_.
         andthen (appendEventRecord env (lease_event ''lease.reclaimed'' l [] t)) (\<lambda>_.
           ret (acc\<lparr>la_registry := update_entry (ls_alias l) (markAliasLeaseReleased t) (la_registry acc)\<rparr>)))) s1
        = (Inr acc', s')"
      by (auto simp: load_lease_def elim!: andthen_InrE)
    have "keeps (\<lambda>s'. sy_leases s' = sy_leases s) (leaseOwnerIsLive env t l (la_sampled acc))"
      by (rule keeps_ownerIsLive) (simp add: of_files_def)
    with s1 have same: "sy_leases s1 = sy_leases s" by (auto dest: keepsD)
    consider "live" | "\<not> live" "leaseHasContainmentProcessMetadata l" | "\<not> live" "\<not> leaseHasContainmentProcessMetadata l" by blast
    then show ?thesis
    proof cases
      case 1
      with rest same show ?thesis by (auto simp: run_simps)
    next
      case 2
      with rest obtain r s2 where c: "containLeaseRecord env hc (la_registry acc) l (stale_owner_options env opts t) s1 = (Inr r, s2)"
        and r: "(case r of Incomplete l' res \<Rightarrow> ret (acc\<lparr>la_sampled := sampled, la_active := la_active acc @ [l']\<rparr>)
           | Observed l' \<Rightarrow> ret (acc\<lparr>la_sampled := sampled\<rparr>)
           | Contained rg res \<Rightarrow> ret (acc\<lparr>la_sampled := sampled, la_registry := rg\<rparr>)) s2 = (Inr acc', s')"
        by (auto simp: Let_def elim!: andthen_InrE)
      have "co_reason (stale_owner_options env opts t) \<in> set force_reasons"
        by (simp add: stale_owner_options_def force_reasons_def Let_def)
      with containLeaseRecord_ok [OF c] r same 3 show ?thesis
        by (cases r) (auto simp: run_simps)
    next
      case 3
      have "marked l (la_registry acc) (update_entry (ls_alias l) (markAliasLeaseReleased t) (la_registry acc))"
        unfolding marked_def by (intro exI [of _ t] exI [of _ "rg_updatedAt (la_registry acc)"]) (simp add: update_entry_def)
      with 3 rest same \<open>ls_leaseId l \<notin> set (lo_skipLeaseIds opts)\<close> show ?thesis
        by (auto simp: run_simps elim!: andthen_InrE dest!: removeLeaseRecordFiles_ok event_leases)
    qed
  qed
qed

lemma load_loop_ok:
  assumes "fold_eff (load_lease env hc opts t) ls acc s = (Inr acc', s')"
    and "files_hold (la_active acc @ ls) s" "apart (la_active acc @ ls)" "wf_registry hc (la_registry acc)"
  shows "files_hold (la_active acc') s' \<and> apart (la_active acc') \<and> wf_registry hc (la_registry acc')"
proof -
  let ?J = "\<lambda>R acc s. files_hold (la_active acc @ R) s \<and> apart (la_active acc @ R) \<and> wf_registry hc (la_registry acc)"
  have "?J [] acc' s'"
  proof (rule fold_eff_rest [OF assms(1), where J = ?J])
    fix l R acc s acc' s'
    assume J: "?J (l # R) acc s" and step: "load_lease env hc opts t l acc s = (Inr acc', s')"
    from J have hold: "files_hold (la_active acc @ l # R) s" and ap: "apart (la_active acc @ l # R)"
      and wf: "wf_registry hc (la_registry acc)" by simp_all
    from load_lease_ok [OF step] consider
        (kept) l' where "la_active acc' = la_active acc @ [l']" "lease_claim l' = lease_claim l"
          "la_registry acc' = la_registry acc"
          "l' = l \<and> sy_leases s' = sy_leases s \<or> sy_leases s' = dir_put (lease_name l) l' (sy_leases s)"
      | (gone) "la_active acc' = la_active acc" "la_registry acc' = la_registry acc \<or> marked l (la_registry acc) (la_registry acc')"
          "sy_leases s' = dir_del (lease_name l) (sy_leases s)" by blast
    then show "?J R acc' s'"
    proof cases
      case kept
      have "files_hold ((la_active acc @ [l']) @ R) s'"
        using kept(4) files_hold_put [OF hold ap kept(2)] hold files_hold_cong [of s' s] by auto
      with kept(1,3) apart_replace [OF ap kept(2)] wf show ?thesis by simp
    next
      case gone
      have "wf_registry hc (la_registry acc')" using gone(2) marked_wf wf by auto
      with gone(1) files_hold_del [OF hold ap gone(3)] apart_drop [OF ap] show ?thesis by simp
    qed
  qed (use assms in simp)
  then show ?thesis by simp
qed

lemma refresh_registry_entry:
  "rg_aliases (refresh_registry hc la pa t rg) a
    = (if a \<in> ha_alias ` set (hc_aliases hc) then map_option (refresh_entry la pa t a) (rg_aliases rg a) else rg_aliases rg a)"
proof -
  have idem: "refresh_entry la pa t a (refresh_entry la pa t a e) = refresh_entry la pa t a e" for a e
    by (simp add: refresh_entry_def)
  have "rg_aliases (fold (\<lambda>h. update_entry (ha_alias h) (refresh_entry la pa t (ha_alias h))) hs rg) a
    = (if a \<in> ha_alias ` set hs then map_option (refresh_entry la pa t a) (rg_aliases rg a) else rg_aliases rg a)" for hs :: "host_alias list"
    by (induction hs arbitrary: rg) (auto simp: option.map_comp comp_def idem)
  then show ?thesis by (simp add: refresh_registry_def)
qed

lemma refresh_entry_wf: "wf_entry a e \<Longrightarrow> wf_entry a (refresh_entry la pa t b e)"
  by (simp add: wf_entry_def refresh_entry_def)

lemma refresh_registry_wf:
  assumes "wf_registry hc rg"
  shows "wf_registry hc (refresh_registry hc' la pa t rg)"
proof -
  have "wf_registry hc (fold (\<lambda>h. update_entry (ha_alias h) (refresh_entry la pa t (ha_alias h))) hs rg)" for hs
    using assms by (induction hs arbitrary: rg) (auto intro!: update_entry_wf refresh_entry_wf)
  then show ?thesis by (simp add: refresh_registry_def)
qed

text \<open>The entry of an alias names its lease and its pin.\<close>

definition entries_agree :: "broker_state \<Rightarrow> bool" where
  "entries_agree st \<longleftrightarrow> (\<forall>h\<in>set (hc_aliases (bs_host st)). \<exists>e. rg_aliases (bs_registry st) (ha_alias h) = Some e
     \<and> re_activeLeaseId e = map_option ls_leaseId (lease_on st (ha_alias h))
     \<and> re_pinId e = map_option pn_pinId (pin_on st (ha_alias h)))"

lemma current_registry_ok:
  assumes "current_registry env opts t hc ls ps rg s = (Inr rg', s')"
    and "wf_registry hc rg" "distinct (map ha_alias (hc_aliases hc))"
  shows "wf_registry hc rg' \<and> entries_agree (state_of hc known ls ps rg') \<and> rg_updatedAt rg' = t \<and> sy_leases s' = sy_leases s"
proof -
  let ?rg = "refresh_registry hc (map (\<lambda>l. (ls_alias l, l)) ls) (map (\<lambda>p. (pn_alias p, p)) ps) t rg"
  from assms(1) obtain iv s1 where "read_inventory env (lo_inventory opts) s = (Inr iv, s1)"
    and rest: "andthen (check (syncRegistryWithSimctl iv hc ?rg)) (\<lambda>rg. ret (rg\<lparr>rg_updatedAt := t\<rparr>)) s1 = (Inr rg', s')"
    unfolding current_registry_def by (rule andthen_InrE)
  from syncRegistry_Inr [OF assms(3) refresh_registry_wf [OF assms(2)]] obtain r where
    r: "syncRegistryWithSimctl iv hc ?rg = Inr r" "wf_registry hc r"
    and e: "\<And>h. h \<in> set (hc_aliases hc) \<Longrightarrow> rg_aliases r (ha_alias h)
      = map_option (sync_entry (createDeviceIndex iv) h) (rg_aliases ?rg (ha_alias h))" by blast
  from rest r have rg': "rg' = r\<lparr>rg_updatedAt := t\<rparr>" by (auto simp: run_andthen run_simps)
  have "entries_agree (state_of hc known ls ps rg')"
    unfolding entries_agree_def
  proof
    fix h
    assume "h \<in> set (hc_aliases (bs_host (state_of hc known ls ps rg')))"
    then have h: "h \<in> set (hc_aliases hc)" by (simp add: state_of_def)
    with assms(2) obtain x where "rg_aliases rg (ha_alias h) = Some x" unfolding wf_registry_def by (metis domD imageI)
    with h e [OF h] show "\<exists>e. rg_aliases (bs_registry (state_of hc known ls ps rg')) (ha_alias h) = Some e
       \<and> re_activeLeaseId e = map_option ls_leaseId (lease_on (state_of hc known ls ps rg') (ha_alias h))
       \<and> re_pinId e = map_option pn_pinId (pin_on (state_of hc known ls ps rg') (ha_alias h))"
      by (simp add: state_of_def rg' refresh_registry_entry entry_simps lease_on_def pin_on_def refresh_entry_def)
  qed
  moreover have "keeps (\<lambda>s'. sy_leases s' = sy_leases s) (current_registry env opts t hc ls ps rg)"
    by (rule keeps_current_registry) (simp add: of_files_def)
  ultimately show ?thesis using r(2) rg' assms(1) by (auto dest: keepsD)
qed

text \<open>The state in memory and the files agree.\<close>

definition loaded :: "broker_state \<Rightarrow> 'w sys \<Rightarrow> bool" where
  "loaded st s \<longleftrightarrow> wf_state st \<and> entries_agree st \<and> files_hold (bs_leases st) s \<and> apart (bs_leases st)
     \<and> bs_pins st = map snd (sy_pins s) \<and> sy_registry s = Some (registry_text (bs_host st) (bs_registry st))
     \<and> (\<exists>v. sy_host s = Some v \<and> validateHostConfig (Some v) = Inr (bs_host st))"

lemma catching_throw_ok: "catching m (\<lambda>e. throw (f e)) s = (Inr x, s') \<Longrightarrow> m s = (Inr x, s')"
  by (auto simp: run_catching run_simps split: prod.splits sum.splits)

lemma writeRegistry_ok:
  "writeRegistry env hc rg s = (Inr u, s') \<Longrightarrow> sy_registry s' = Some (registry_text hc rg) \<and> sy_leases s' = sy_leases s
    \<and> sy_pins s' = sy_pins s \<and> sy_host s' = sy_host s"
  unfolding writeRegistry_def by (auto dest: restricted_ok)

lemma writeKnownProjects_ok:
  "writeKnownProjects env known s = (Inr u, s') \<Longrightarrow> sy_registry s' = sy_registry s \<and> sy_leases s' = sy_leases s"
  unfolding writeKnownProjects_def by (auto dest: restricted_ok)

lemma andthen_look: "andthen (look g) k s = k (g s) s"
  by simp

lemma andthen_checkE:
  assumes "andthen (check r) k s = (Inr y, s')"
  obtains x where "r = Inr x" "k x s = (Inr y, s')"
  using assms by (cases r) (auto simp: run_andthen run_simps)

lemma loadBrokerState_steps:
  assumes "loadBrokerState env opts t s = (Inr st, s')"
  obtains hc known rg acc rg' s1 s2 s3 s4 v where
    "sy_host s = Some v" "validateHostConfig (Some v) = Inr hc"
    "normalizeRegistry (sy_registry s) hc t = Inr rg"
    "fold_eff (load_lease env hc opts t) (map snd (sy_leases s)) \<lparr>la_active = [], la_registry = rg, la_sampled = None\<rparr> s
       = (Inr acc, s1)"
    "current_registry env opts t hc (la_active acc) (map snd (sy_pins s)) (la_registry acc) s1 = (Inr rg', s2)"
    "writeRegistry env hc rg' s2 = (Inr (), s3)" "writeKnownProjects env known s3 = (Inr (), s4)"
    "st = state_of hc known (la_active acc) (map snd (sy_pins s)) rg'" "s4 = s'"
proof -
  let ?ps = "map snd (sy_pins s)" and ?ls = "map snd (sy_leases s)"
  from assms obtain hc sh where h: "readHostConfigOrThrow s = (Inr hc, sh)" and r: "andthen (look sy_projects) (\<lambda>rawProjects.
    andthen (check (normalizeKnownProjects rawProjects t)) (\<lambda>known.
    andthen (look sy_registry) (\<lambda>rawRegistry.
    andthen (check (normalizeRegistry rawRegistry hc t)) (\<lambda>rg.
    andthen (look (\<lambda>s. map snd (sy_pins s))) (\<lambda>pins.
    andthen (look (\<lambda>s. map snd (sy_leases s))) (\<lambda>leases.
    andthen (fold_eff (load_lease env hc opts t) leases
        \<lparr>la_active = [], la_registry = rg, la_sampled = None\<rparr>) (\<lambda>acc.
    andthen (current_registry env opts t hc (la_active acc) pins (la_registry acc)) (\<lambda>rg'.
    andthen (if lo_idle opts then writeIdleRegistry env hc rg' else writeRegistry env hc rg') (\<lambda>_.
    andthen (writeKnownProjects env known) (\<lambda>_.
      ret (state_of hc known (la_active acc) pins rg'))))))))))) sh = (Inr st, s')"
    unfolding loadBrokerState_def by (rule andthen_InrE)
  from h obtain v where v: "sh = s" "sy_host s = Some v" "validateHostConfig (Some v) = Inr hc"
    by (auto simp: readHostConfigOrThrow_def run_andthen run_simps split: option.splits)
  from r [unfolded andthen_look v(1)] obtain known rg acc s1 where rg: "normalizeRegistry (sy_registry s) hc t = Inr rg"
    and loop: "fold_eff (load_lease env hc opts t) ?ls \<lparr>la_active = [], la_registry = rg, la_sampled = None\<rparr> s = (Inr acc, s1)"
    and r2: "andthen (current_registry env opts t hc (la_active acc) ?ps (la_registry acc)) (\<lambda>rg'.
    andthen (if lo_idle opts then writeIdleRegistry env hc rg' else writeRegistry env hc rg') (\<lambda>_.
    andthen (writeKnownProjects env known) (\<lambda>_. ret (state_of hc known (la_active acc) ?ps rg')))) s1 = (Inr st, s')"
    by (elim andthen_checkE) ((simp only: andthen_look)?, erule andthen_InrE, blast)
  from r2 obtain rg' s2 where cur: "current_registry env opts t hc (la_active acc) ?ps (la_registry acc) s1 = (Inr rg', s2)"
    and r3: "andthen (if lo_idle opts then writeIdleRegistry env hc rg' else writeRegistry env hc rg') (\<lambda>_.
    andthen (writeKnownProjects env known) (\<lambda>_. ret (state_of hc known (la_active acc) ?ps rg'))) s2 = (Inr st, s')"
    by (rule andthen_InrE)
  from r3 obtain u s3 where "(if lo_idle opts then writeIdleRegistry env hc rg' else writeRegistry env hc rg') s2 = (Inr u, s3)"
    and r4: "andthen (writeKnownProjects env known) (\<lambda>_. ret (state_of hc known (la_active acc) ?ps rg')) s3 = (Inr st, s')"
    by (rule andthen_InrE)
  then have wr: "writeRegistry env hc rg' s2 = (Inr (), s3)"
    by (auto simp: writeIdleRegistry_def dest!: catching_throw_ok split: if_splits)
  from r4 obtain u' s4 where wk: "writeKnownProjects env known s3 = (Inr u', s4)"
    and r5: "ret (state_of hc known (la_active acc) ?ps rg') s4 = (Inr st, s')" by (rule andthen_InrE)
  from r5 have fin: "st = state_of hc known (la_active acc) ?ps rg'" "s4 = s'" by (simp_all add: run_simps)
  have wk': "writeKnownProjects env known s3 = (Inr (), s4)" using wk by simp
  show ?thesis by (rule that [OF v(2,3) rg loop cur wr wk' fin])
qed

lemma loadBrokerState_ok:
  assumes "loadBrokerState env opts t s = (Inr st, s')" and slots: "lease_files.slots_ok (sy_leases s)"
  shows "loaded st s' \<and> sy_pins s' = sy_pins s \<and> sy_host s' = sy_host s"
proof -
  have "keeps (\<lambda>s'. sy_pins s' = sy_pins s \<and> sy_host s' = sy_host s) (loadBrokerState env opts t)"
    by (rule keeps_load_side) (rule lease_side_files [where P = "\<lambda>p h i. p = sy_pins s \<and> h = sy_host s"])
  with assms(1) have frame: "sy_pins s' = sy_pins s" "sy_host s' = sy_host s" by (auto dest: keepsD)
  let ?acc = "\<lambda>rg. \<lparr>la_active = [], la_registry = rg, la_sampled = None\<rparr>"
  let ?ps = "map snd (sy_pins s)" and ?ls = "map snd (sy_leases s)"
  from assms(1) obtain hc known rg acc rg' s1 s2 s3 s4 v where
    hc: "sy_host s = Some v" "validateHostConfig (Some v) = Inr hc"
    and rg: "normalizeRegistry (sy_registry s) hc t = Inr rg"
    and loop: "fold_eff (load_lease env hc opts t) ?ls (?acc rg) s = (Inr acc, s1)"
    and cur: "current_registry env opts t hc (la_active acc) ?ps (la_registry acc) s1 = (Inr rg', s2)"
    and wr: "writeRegistry env hc rg' s2 = (Inr (), s3)" and wk: "writeKnownProjects env known s3 = (Inr (), s4)"
    and st: "st = state_of hc known (la_active acc) ?ps rg'" "s4 = s'"
    by (rule loadBrokerState_steps)
  have dist: "distinct (map ha_alias (hc_aliases hc))"
    using validateHostConfig_wf [OF hc(2)] by (simp add: wf_host_config_def)
  have "wf_registry hc rg" using normalizeRegistry_wf [OF rg dist] by simp
  with load_loop_ok [OF loop] slots_ok_files [OF slots] have
    L: "files_hold (la_active acc) s1" "apart (la_active acc)" "wf_registry hc (la_registry acc)" by simp_all
  from current_registry_ok [OF cur L(3) dist, of known] have
    C: "wf_registry hc rg'" "entries_agree st" "sy_leases s2 = sy_leases s1" by (auto simp: st)
  from writeRegistry_ok [OF wr] writeKnownProjects_ok [OF wk] C(3) st(2) have
    W: "sy_registry s' = Some (registry_text hc rg')" "sy_leases s' = sy_leases s1" by simp_all
  from st(1) dist C(1) have "wf_state st" by (simp add: wf_state_def state_of_def)
  moreover have "files_hold (bs_leases st) s'" using L(1) files_hold_cong [OF W(2)] st(1) by (simp add: state_of_def)
  ultimately show ?thesis
    using C(2) L(2) W(1) frame hc st(1) by (simp add: loaded_def state_of_def)
qed


section \<open>A broker to evaluate\<close>

text \<open>One alias with its simulator, no failures of the disk.\<close>

definition plain_inventory :: inventory where
  "plain_inventory = \<lparr>iv_devices = [(''runtime.iOS-18-2'', [\<lparr>dv_deviceTypeIdentifier = ''type.iPhone-16'', dv_isAvailable = True,
      dv_name = ''Build A'', dv_productFamily = None, dv_state = None, dv_udid = ''SIM-A''\<rparr>])],
     iv_deviceTypes = [sample_iphone], iv_runtimes = [sample_runtime]\<rparr>"

definition plain_simctl :: "unit simctl" where
  "plain_simctl = \<lparr>sc_inventory = ret plain_inventory, sc_listDevices = ret plain_inventory, sc_measure = (\<lambda>_ _. ret 1),
     sc_boot = (\<lambda>_. ret ()), sc_waitForBooted = (\<lambda>_. ret ()), sc_shutdown = (\<lambda>_. ret ()), sc_erase = (\<lambda>_. ret ()),
     sc_delete = (\<lambda>_. ret ()), sc_listRuntimes = ret [sample_runtime], sc_rename = (\<lambda>_ _. ret ()),
     sc_create = (\<lambda>_ _ _. ret ''SIM-NEW'')\<rparr>"

definition plain_ops :: "unit process_ops" where
  "plain_ops = \<lparr>po_sample = ret [], po_killPid = (\<lambda>_ _. ret \<lparr>kl_ok = True, kl_errorCode = None\<rparr>),
     po_killGroup = (\<lambda>_ _. ret \<lparr>kl_ok = True, kl_errorCode = None\<rparr>), po_brokerPid = 7, po_clock = (\<lambda>_. 0),
     po_evidence = (\<lambda>_. ret ()), po_diagnostics = (\<lambda>_. ret [])\<rparr>"

definition plain_env :: "unit env" where
  "plain_env = \<lparr>en_now = Pair ''t'', en_date = (\<lambda>_. None), en_uuid = Pair ''u'', en_io = (\<lambda>_. Pair Io_ok), en_lock = (\<lambda>_. ret ()),
     en_unlock = (\<lambda>_. ret ()), en_exists = (\<lambda>_. Pair True), en_sampling = False, en_ops = plain_ops, en_parentPid = 6,
     en_simctl = plain_simctl, en_projectJson = (\<lambda>_. ret (project_config_json sample_project_config)),
     en_paths = plain_paths, en_fs = (\<lambda>_. plain_fs), en_locale = cmp_key id, en_localeNumeric = cmp_key id, en_digest = (\<lambda>_. [])\<rparr>"

definition live_lease :: lease where
  "live_lease = sample_lease\<lparr>ls_alias := ''build-a'', ls_simulatorId := ''SIM-A''\<rparr>"

definition plain_sys :: "lease list \<Rightarrow> pin list \<Rightarrow> unit sys" where
  "plain_sys ls ps = \<lparr>sy_host = Some (host_config_json sample_host_config), sy_registry = None, sy_projects = None,
     sy_idle = Missing, sy_leases = map (\<lambda>l. (lease_name l, l)) ls, sy_pins = map (\<lambda>p. (pin_name p, p)) ps,
     sy_transactions = [], sy_artifacts = (\<lambda>_. None), sy_events = [], sy_auditFailures = [], sy_world = ()\<rparr>"

definition plain_load :: load_options where
  "plain_load = \<lparr>lo_skipLeaseIds = [], lo_termWaitMs = None, lo_now = None, lo_inventory = None, lo_idle = False\<rparr>"

lemmas plain_defs = plain_env_def plain_ops_def plain_simctl_def plain_sys_def plain_load_def

lemma plain_host: "validateHostConfig (Some (host_config_json sample_host_config)) = Inr sample_host_config"
  by (rule validateHostConfig_written) code_simp

lemma plain_world [simp]: "s\<lparr>sy_world := w\<rparr> = s" for s :: "unit sys"
  by (cases s) simp

lemma plain_write: "writeJsonAtomicRestricted plain_env f g = update g"
  by (simp add: fun_eq_iff writeJsonAtomicRestricted_def plain_env_def ask_def run_andthen run_simps)

lemma plain_read: "readHostConfigOrThrow (plain_sys ls ps) = (Inr sample_host_config, plain_sys ls ps)"
  by (simp add: readHostConfigOrThrow_def plain_sys_def plain_host run_simps)

lemma plain_known: "normalizeKnownProjects None ''t'' = Inr \<lparr>kn_projects = [], kn_updatedAt = ''t''\<rparr>"
  by code_simp

section \<open>What callers rely on\<close>

text \<open>A lease that the caller holds is kept as it is.\<close>

lemma skipped_lease_stays:
  assumes "fold_eff (load_lease env hc opts t) ls acc s = (Inr acc', s')"
    and "l \<in> set (la_active acc) \<or> l \<in> set ls \<and> ls_leaseId l \<in> set (lo_skipLeaseIds opts)"
  shows "l \<in> set (la_active acc')"
proof -
  let ?J = "\<lambda>R acc (s :: 'a sys). l \<in> set (la_active acc) \<or> l \<in> set R \<and> ls_leaseId l \<in> set (lo_skipLeaseIds opts)"
  have "?J [] acc' s'"
  proof (rule fold_eff_rest [OF assms(1), where J = ?J])
    fix x R acc s acc' s'
    assume J: "?J (x # R) acc s" and step: "load_lease env hc opts t x acc s = (Inr acc', s')"
    show "?J R acc' s'"
    proof (cases "x = l \<and> ls_leaseId l \<in> set (lo_skipLeaseIds opts)")
      case True
      with step have "acc' = acc\<lparr>la_active := la_active acc @ [l]\<rparr>" by (simp add: load_lease_def run_simps)
      then show ?thesis by simp
    next
      case False
      with J load_lease_ok [OF step] show ?thesis by auto
    qed
  qed (use assms in simp)
  then show ?thesis by simp
qed

lemma load_keeps_skipped:
  assumes "loadBrokerState env opts t s = (Inr st, s')" "l \<in> snd ` set (sy_leases s)"
    and "ls_leaseId l \<in> set (lo_skipLeaseIds opts)"
  shows "l \<in> set (bs_leases st)"
  using assms(1)
proof (rule loadBrokerState_steps)
  fix hc known rg acc rg' and s1 s2 s3 s4 :: "'a sys" and v
  assume loop: "fold_eff (load_lease env hc opts t) (map snd (sy_leases s)) \<lparr>la_active = [], la_registry = rg, la_sampled = None\<rparr> s
       = (Inr acc, s1)" and st: "st = state_of hc known (la_active acc) (map snd (sy_pins s)) rg'"
  from skipped_lease_stays [OF loop, of l] assms(2,3) have "l \<in> set (la_active acc)" by simp
  then show "l \<in> set (bs_leases st)" by (simp add: st state_of_def)
qed



text \<open>Reading the state for a status display changes no file, whatever it meets.\<close>

theorem snapshot_changes_nothing:
  "\<exists>w. snd (readBrokerStateSnapshot env opts t s) = s\<lparr>sy_world := w\<rparr>"
proof -
  let ?I = "\<lambda>s'. \<exists>w. s' = s\<lparr>sy_world := w\<rparr>"
  have files: "of_files ?I" by (auto simp: of_files_def)
  have "keeps ?I (snapshot_lease env opts t l acc)" for l acc
    unfolding snapshot_lease_def Let_def by (intro keeps_struct keeps_ownerIsLive files)
  then have "keeps ?I (readBrokerStateSnapshot env opts t)"
    unfolding readBrokerStateSnapshot_def
    by (intro keeps_struct keeps_readHostConfig keeps_fold keeps_current_registry files)
  moreover have "?I s" by (rule exI [of _ "sy_world s"]) simp
  ultimately show ?thesis by (simp add: keeps_def)
qed

end
