(* ===== verification/Slot_Sweep.thy ===== *)
theory Slot_Sweep
  imports Broker_Load
begin

text \<open>
  The sweep that erases simulators that are due (\<open>readReclaimDeviceListing\<close> to
  \<open>buildSlotReclaimSummary\<close> in \<open>broker-core/index.mjs\<close>).  Every target is checked against the leases and
  pins, decided by the policy, and erased under the reset lock; a failed erase latches its entry until it
  is repaired.
\<close>

section \<open>The sweep\<close>

definition no_inventory :: inventory where
  "no_inventory = \<lparr>iv_devices = [], iv_deviceTypes = [], iv_runtimes = []\<rparr>"

definition readReclaimDeviceListing :: "'w env \<Rightarrow> ('w sys, inventory) eff" where
  "readReclaimDeviceListing env = catching (lift (sc_listDevices (en_simctl env))) (\<lambda>_. ret no_inventory)"

definition measureAliasDiskBytes :: "'w env \<Rightarrow> string \<Rightarrow> inventory \<Rightarrow> ('w sys, int option) eff" where
  "measureAliasDiskBytes env simulatorId devices =
    catching (andthen (lift (sc_measure (en_simctl env) simulatorId devices)) (\<lambda>measured.
        ret (if 0 \<le> measured then Some measured else None))) (\<lambda>_. ret None)"

definition slotReclaimBusyError :: "berr \<Rightarrow> bool" where
  "slotReclaimBusyError e = (is_broker_error e \<and> err_reason e \<in> {Some ''alias-busy'', Some ''reset-lock-timeout''})"

record sweep =
  sw_eligible :: int
  sw_reclaimed :: int
  sw_held :: int
  sw_failed :: int
  sw_registry :: registry
  sw_devices :: "inventory option"

definition held_slot :: "string option \<Rightarrow> broker_state \<Rightarrow> string \<Rightarrow> registry_entry \<Rightarrow> bool" where
  "held_slot acquiring st a e = isSlotHeldForReclaim (acquiring = Some a) (lease_on st a) (pin_on st a) (Some e)"

text \<open>The listing is read once, when the first slot needs it.\<close>

definition sweep_measure ::
  "'w env \<Rightarrow> slot_policy \<Rightarrow> host_alias \<Rightarrow> inventory option \<Rightarrow> ('w sys, int option \<times> inventory option) eff" where
  "sweep_measure env policy h devices =
    (if (case classifyReclaimSlot (Some h) of None \<Rightarrow> False | Some cls \<Rightarrow> cp_enabled (class_policy_of policy cls))
     then andthen (case devices of Some d \<Rightarrow> ret d | None \<Rightarrow> readReclaimDeviceListing env) (\<lambda>d.
          andthen (measureAliasDiskBytes env (ha_simulatorId h) d) (\<lambda>bytes. ret (bytes, Some d)))
     else ret (None, devices))"

definition erased_entry :: "string \<Rightarrow> registry_entry \<Rightarrow> registry_entry" where
  "erased_entry timestamp e =
    (resetLeasesSinceErase ((if slotReclaimBlockedByRepair e then e else e\<lparr>re_health := Healthy, re_driftReason := None\<rparr>)
       \<lparr>re_lastErasedAt := Some timestamp, re_lastShutdownAt := Some timestamp, re_powerState := Shutdown\<rparr>))
       \<lparr>re_updatedAt := timestamp\<rparr>"

definition reclaim_failed_entry :: "string \<Rightarrow> registry_entry \<Rightarrow> registry_entry" where
  "reclaim_failed_entry timestamp e =
    e\<lparr>re_health := Repair_needed, re_driftReason := Some ''slot-reclaim-failed'', re_updatedAt := timestamp\<rparr>"

definition alias_busy :: "string \<Rightarrow> berr" where
  "alias_busy a = broker_err (''Alias '' @ a @ '' is held and cannot be reclaimed.'') ''alias-busy''"

definition slot_event :: "string \<Rightarrow> string option \<Rightarrow> string \<Rightarrow> string list \<Rightarrow> string \<Rightarrow> event" where
  "slot_event type actorType a detail timestamp =
    event_of type (Some a) (Some (nullish actorType ''system'')) None None None detail timestamp"

text \<open>Shutdown and erase of one simulator under the reset lock.\<close>

definition erase_slot ::
  "'w env \<Rightarrow> string option \<Rightarrow> broker_state \<Rightarrow> host_alias \<Rightarrow> registry_entry \<Rightarrow> ('w sys, unit) eff" where
  "erase_slot env acquiring st h e =
    with_lock env Reset_lock
      (andthen (unless (\<not> held_slot acquiring st (ha_alias h) e) (throw (alias_busy (ha_alias h)))) (\<lambda>_.
       andthen (lift (sc_shutdown (en_simctl env) (ha_simulatorId h))) (\<lambda>_.
         lift (sc_erase (en_simctl env) (ha_simulatorId h)))))"

definition reclaim_slot ::
  "'w env \<Rightarrow> string option \<Rightarrow> string option \<Rightarrow> string \<Rightarrow> string \<Rightarrow> broker_state \<Rightarrow> host_alias \<Rightarrow> registry_entry
     \<Rightarrow> slot_class \<Rightarrow> reclaim_reason \<Rightarrow> sweep \<Rightarrow> ('w sys, sweep) eff" where
  "reclaim_slot env actorType acquiring source timestamp st h e cls why w =
    catching
      (andthen (erase_slot env acquiring st h e) (\<lambda>_.
       andthen (appendEventRecord env (slot_event ''slot.reclaimed'' actorType (ha_alias h)
           [class_text cls, reason_text why, source] timestamp)) (\<lambda>_.
         ret (w\<lparr>sw_reclaimed := sw_reclaimed w + 1,
                sw_registry := update_entry (ha_alias h) (erased_entry timestamp) (sw_registry w)\<rparr>))))
      (\<lambda>err.
        if slotReclaimBusyError err then ret (w\<lparr>sw_held := sw_held w + 1, sw_eligible := sw_eligible w - 1\<rparr>)
        else
          andthen (appendEventRecord env (slot_event ''slot.reclaim-failed'' actorType (ha_alias h)
             [class_text cls, reason_text why, source] timestamp)) (\<lambda>_.
            ret (w\<lparr>sw_failed := sw_failed w + 1,
                   sw_registry := update_entry (ha_alias h) (reclaim_failed_entry timestamp) (sw_registry w)\<rparr>)))"

text \<open>One turn of the loop over the targets.\<close>

definition sweep_alias ::
  "'w env \<Rightarrow> slot_policy \<Rightarrow> string option \<Rightarrow> string option \<Rightarrow> string \<Rightarrow> string \<Rightarrow> broker_state \<Rightarrow> string \<Rightarrow> sweep
     \<Rightarrow> ('w sys, sweep) eff" where
  "sweep_alias env policy actorType acquiring source timestamp st a w =
    (case (List.find (\<lambda>h. ha_alias h = a) (hc_aliases (bs_host st)), rg_aliases (sw_registry w) a) of
       (Some h, Some e) \<Rightarrow>
         if held_slot acquiring st a e then ret (w\<lparr>sw_held := sw_held w + 1\<rparr>)
         else if slotReclaimBlockedByRepair e then ret w
         else andthen (sweep_measure env policy h (sw_devices w)) (\<lambda>(bytes, devices).
           let w = w\<lparr>sw_devices := devices\<rparr> in
           case evaluateSlotReclaim (en_date env) (classifyReclaimSlot (Some h)) bytes (held_slot acquiring st a e)
               (re_lastErasedAt e) (lastUsedAtForSlot (en_date env) (Some e)) (re_leasesSinceErase e)
               (en_date env timestamp) (Some (raw_of policy)) of
             Skip _ \<Rightarrow> ret w
           | Reclaim cls why \<Rightarrow>
               if held_slot acquiring st a e then ret (w\<lparr>sw_held := sw_held w + 1\<rparr>)
               else reclaim_slot env actorType acquiring source timestamp st h e cls why
                      (w\<lparr>sw_eligible := sw_eligible w + 1\<rparr>))
     | _ \<Rightarrow> ret w)"

definition performSlotReclaim ::
  "'w env \<Rightarrow> broker_state \<Rightarrow> string option \<Rightarrow> string \<Rightarrow> string list option \<Rightarrow> string option \<Rightarrow> bool \<Rightarrow> string
     \<Rightarrow> ('w sys, reclaim_result \<times> registry) eff" where
  "performSlotReclaim env st actorType timestamp aliases acquiring persistNoChanges source =
    (let policy = resolveSlotReclaimPolicy (map_option raw_of (hc_slotReclaim (bs_host st)));
         targets = nullish aliases (map ha_alias (hc_aliases (bs_host st)));
         start = \<lparr>sw_eligible = 0, sw_reclaimed = 0, sw_held = 0, sw_failed = 0, sw_registry = bs_registry st, sw_devices = None\<rparr>
     in andthen (if sp_enabled policy
                 then fold_eff (sweep_alias env policy actorType acquiring source timestamp st) targets start
                 else ret start) (\<lambda>w.
          let res = \<lparr>rr_completedAt = timestamp, rr_eligibleCount = sw_eligible w, rr_failureCount = sw_failed w,
                rr_reclaimedCount = sw_reclaimed w, rr_skippedHeldCount = sw_held w, rr_source = source,
                rr_status = slotReclaimStatus (sw_reclaimed w) (sw_failed w)\<rparr> in
          if 0 < sw_reclaimed w \<or> 0 < sw_failed w \<or> persistNoChanges then
            let rg = (sw_registry w)\<lparr>rg_lastReclaimResult := Some res, rg_updatedAt := timestamp\<rparr> in
            andthen (writeRegistry env (bs_host st) rg) (\<lambda>_. ret (res, rg))
          else ret (res, sw_registry w)))"

definition buildSlotReclaimSummary :: "broker_state \<Rightarrow> slot_policy \<times> reclaim_result option \<times> string" where
  "buildSlotReclaimSummary st =
    (let policy = summarizeSlotReclaimPolicy (map_option raw_of (hc_slotReclaim (bs_host st)))
     in (policy, rg_lastReclaimResult (bs_registry st), formatSlotReclaimPolicyLine (Some (raw_of policy))))"

section \<open>What a sweep does to the registry\<close>

text \<open>A sweep leaves an entry alone, or, if the slot was neither held nor latched, erases it; when it
  counts a failure, slots of that kind may also end up latched.\<close>

definition sweep_outcome :: "bool \<Rightarrow> string option \<Rightarrow> broker_state \<Rightarrow> string \<Rightarrow> string \<Rightarrow> registry_entry \<Rightarrow> registry_entry \<Rightarrow> bool"
where
  "sweep_outcome failed acquiring st t a e e' \<longleftrightarrow> e' = e \<or>
     \<not> held_slot acquiring st a e \<and> \<not> slotReclaimBlockedByRepair e \<and>
     (e' = erased_entry t e \<or> failed \<and> (e' = reclaim_failed_entry t e \<or> e' = reclaim_failed_entry t (erased_entry t e)))"

lemma sweep_outcome_cases:
  assumes "sweep_outcome failed acquiring st t a e e'"
  obtains "e' = e"
  | "\<not> held_slot acquiring st a e" "\<not> slotReclaimBlockedByRepair e" "e' = erased_entry t e"
  | x where "\<not> held_slot acquiring st a e" "\<not> slotReclaimBlockedByRepair e" "failed" "e' = reclaim_failed_entry t x"
  using assms by (auto simp: sweep_outcome_def)

definition sweep_inv :: "string option \<Rightarrow> broker_state \<Rightarrow> string \<Rightarrow> sweep \<Rightarrow> bool" where
  "sweep_inv acquiring st t w \<longleftrightarrow>
     (\<forall>a. rel_option (sweep_outcome (sw_failed w \<noteq> 0) acquiring st t a) (rg_aliases (bs_registry st) a) (rg_aliases (sw_registry w) a))
     \<and> 0 \<le> sw_failed w \<and> 0 \<le> sw_reclaimed w \<and> 0 \<le> sw_held w \<and> sw_eligible w = sw_reclaimed w + sw_failed w
     \<and> (sw_reclaimed w = 0 \<and> sw_failed w = 0 \<longrightarrow> sw_registry w = bs_registry st)"

lemma held_slot_cong: "re_activeLeaseId e' = re_activeLeaseId e \<Longrightarrow> held_slot acq st a e' = held_slot acq st a e"
  by (simp add: held_slot_def isSlotHeldForReclaim_def)

lemma swept_entry_simps [simp]:
  "re_activeLeaseId (erased_entry t e) = re_activeLeaseId e"
  "re_activeLeaseId (reclaim_failed_entry t e) = re_activeLeaseId e"
  "slotReclaimBlockedByRepair (reclaim_failed_entry t e)"
  "\<not> slotReclaimBlockedByRepair e \<Longrightarrow> \<not> slotReclaimBlockedByRepair (erased_entry t e)"
  "\<not> slotReclaimBlockedByRepair e \<Longrightarrow> erased_entry t (erased_entry t e) = erased_entry t e"
  by (auto simp: erased_entry_def reclaim_failed_entry_def resetLeasesSinceErase_def slotReclaimBlockedByRepair_def)

lemma erased_entry_fields:
  "\<not> slotReclaimBlockedByRepair e \<Longrightarrow> re_health (erased_entry t e) = Healthy"
  "re_leasesSinceErase (erased_entry t e) = 0" "re_lastErasedAt (erased_entry t e) = Some t"
  "re_powerState (erased_entry t e) = Shutdown"
  by (simp_all add: erased_entry_def resetLeasesSinceErase_def)

lemma reclaim_failed_drift [simp]: "re_driftReason (reclaim_failed_entry t e) = Some ''slot-reclaim-failed''"
  by (simp add: reclaim_failed_entry_def)

lemma sweep_outcome_erase:
  "sweep_outcome failed acq st t a e0 e \<Longrightarrow> \<not> held_slot acq st a e \<Longrightarrow> \<not> slotReclaimBlockedByRepair e
    \<Longrightarrow> sweep_outcome failed acq st t a e0 (erased_entry t e)"
  by (auto simp: sweep_outcome_def held_slot_cong [of "erased_entry t e0" e0])

lemma sweep_outcome_fail:
  "sweep_outcome failed acq st t a e0 e \<Longrightarrow> \<not> held_slot acq st a e \<Longrightarrow> \<not> slotReclaimBlockedByRepair e
    \<Longrightarrow> sweep_outcome True acq st t a e0 (reclaim_failed_entry t e)"
  by (auto simp: sweep_outcome_def held_slot_cong [of "erased_entry t e0" e0])

lemma sweep_outcome_mono: "sweep_outcome failed acq st t a e e' \<Longrightarrow> (failed \<Longrightarrow> failed') \<Longrightarrow> sweep_outcome failed' acq st t a e e'"
  by (auto simp: sweep_outcome_def)

lemma rel_outcome_mono:
  "rel_option (sweep_outcome failed acq st t a) x y \<Longrightarrow> rel_option (sweep_outcome True acq st t a) x y"
  by (erule option.rel_mono_strong) (simp add: sweep_outcome_mono)

lemma reclaim_slot_ok:
  assumes "reclaim_slot env actor acq source t st h e cls why w s = (Inr w', s')"
  shows "w' = w\<lparr>sw_held := sw_held w + 1, sw_eligible := sw_eligible w - 1\<rparr>
    \<or> w' = w\<lparr>sw_reclaimed := sw_reclaimed w + 1,
             sw_registry := update_entry (ha_alias h) (erased_entry t) (sw_registry w)\<rparr>
    \<or> w' = w\<lparr>sw_failed := sw_failed w + 1,
             sw_registry := update_entry (ha_alias h) (reclaim_failed_entry t) (sw_registry w)\<rparr>"
  using assms
  by (auto simp: reclaim_slot_def run_catching run_andthen run_simps split: prod.splits sum.splits if_splits)

lemma sweep_alias_ok:
  assumes "sweep_alias env policy actor acq source t st a w s = (Inr w', s')" and inv: "sweep_inv acq st t w"
  shows "sweep_inv acq st t w'"
proof (cases "List.find (\<lambda>h. ha_alias h = a) (hc_aliases (bs_host st))")
  case None
  with assms show ?thesis by (simp add: sweep_alias_def run_simps)
next
  case (Some h)
  note find = Some
  from find_SomeD [OF find] have h: "ha_alias h = a" by simp
  show ?thesis
  proof (cases "rg_aliases (sw_registry w) a")
    case None
    with Some assms show ?thesis by (simp add: sweep_alias_def run_simps)
  next
    case (Some e)
    consider (idle) "sw_registry w' = sw_registry w" "sw_failed w' = sw_failed w" "sw_reclaimed w' = sw_reclaimed w"
        "sw_eligible w' = sw_eligible w" "sw_held w \<le> sw_held w'"
      | (work) d cls why s1 where "\<not> held_slot acq st a e" "\<not> slotReclaimBlockedByRepair e"
          "reclaim_slot env actor acq source t st h e cls why
             (w\<lparr>sw_devices := d, sw_eligible := sw_eligible w + 1\<rparr>) s1 = (Inr w', s')"
      using assms(1) Some find
      by (auto simp: sweep_alias_def Let_def run_andthen run_simps split: prod.splits sum.splits if_splits reclaim_decision.splits)
    then show ?thesis
    proof cases
      case idle
      with inv show ?thesis by (auto simp: sweep_inv_def)
    next
      case work
      have entry: "rel_option (sweep_outcome (sw_failed w \<noteq> 0) acq st t a) (rg_aliases (bs_registry st) a) (Some e)"
        using inv Some unfolding sweep_inv_def by metis
      then obtain e0 where e0: "rg_aliases (bs_registry st) a = Some e0" "sweep_outcome (sw_failed w \<noteq> 0) acq st t a e0 e"
        by (auto simp: option_rel_Some2)
      have rel: "rel_option (sweep_outcome True acq st t b) (rg_aliases (bs_registry st) b) (rg_aliases (sw_registry w) b)" for b
        using inv rel_outcome_mono unfolding sweep_inv_def by metis
      from reclaim_slot_ok [OF work(3)] inv show ?thesis
        using rel sweep_outcome_erase [OF e0(2) work(1,2)] sweep_outcome_fail [OF e0(2) work(1,2)] Some e0(1)
        by (auto simp: sweep_inv_def h update_entry_def intro: sweep_outcome_mono)
    qed
  qed
qed

text \<open>The result of a whole sweep, and the registry it leaves in memory and on disk.\<close>

lemma performSlotReclaim_ok:
  assumes "performSlotReclaim env st actor t aliases acq persist source s = (Inr (res, rg), s')"
  shows "(\<forall>a. rel_option (sweep_outcome (rr_failureCount res \<noteq> 0) acq st t a) (rg_aliases (bs_registry st) a) (rg_aliases rg a))
    \<and> 0 \<le> rr_failureCount res \<and> 0 \<le> rr_reclaimedCount res \<and> 0 \<le> rr_skippedHeldCount res
    \<and> rr_eligibleCount res = rr_reclaimedCount res + rr_failureCount res
    \<and> (rr_reclaimedCount res = 0 \<and> rr_failureCount res = 0 \<and> \<not> persist \<and> rg = bs_registry st
       \<or> rg_lastReclaimResult rg = Some res \<and> sy_registry s' = Some (registry_text (bs_host st) rg))"
proof -
  let ?policy = "resolveSlotReclaimPolicy (map_option raw_of (hc_slotReclaim (bs_host st)))"
  let ?start = "\<lparr>sw_eligible = 0, sw_reclaimed = 0, sw_held = 0, sw_failed = 0, sw_registry = bs_registry st, sw_devices = None\<rparr>"
  let ?loop = "if sp_enabled ?policy then fold_eff (sweep_alias env ?policy actor acq source t st)
      (nullish aliases (map ha_alias (hc_aliases (bs_host st)))) ?start else ret ?start"
  from assms obtain w s1 where loop: "?loop s = (Inr w, s1)" and rest: "(let res = \<lparr>rr_completedAt = t, rr_eligibleCount = sw_eligible w,
        rr_failureCount = sw_failed w, rr_reclaimedCount = sw_reclaimed w, rr_skippedHeldCount = sw_held w, rr_source = source,
        rr_status = slotReclaimStatus (sw_reclaimed w) (sw_failed w)\<rparr> in
      if 0 < sw_reclaimed w \<or> 0 < sw_failed w \<or> persist then
        let rg = (sw_registry w)\<lparr>rg_lastReclaimResult := Some res, rg_updatedAt := t\<rparr> in
        andthen (writeRegistry env (bs_host st) rg) (\<lambda>_. ret (res, rg))
      else ret (res, sw_registry w)) s1 = (Inr (res, rg), s')"
    unfolding performSlotReclaim_def Let_def by (elim andthen_InrE)
  have start: "sweep_inv acq st t ?start" by (auto simp: sweep_inv_def sweep_outcome_def option.rel_refl)
  have "sweep_inv acq st t w"
  proof (cases "sp_enabled ?policy")
    case True
    with loop have "fold_eff (sweep_alias env ?policy actor acq source t st)
      (nullish aliases (map ha_alias (hc_aliases (bs_host st)))) ?start s = (Inr w, s1)" by simp
    from fold_eff_rest [OF this, where J = "\<lambda>_ w _. sweep_inv acq st t w"] start sweep_alias_ok show ?thesis by metis
  next
    case False
    with loop start show ?thesis by (simp add: run_simps)
  qed
  with rest show ?thesis
    by (auto simp: sweep_inv_def Let_def run_simps elim!: andthen_InrE dest: writeRegistry_ok split: if_splits)
qed

section \<open>Which simulators a sweep touches\<close>

text \<open>A property of the world that all operations outside the simulators keep.\<close>

definition world_keeps :: "('w \<Rightarrow> bool) \<Rightarrow> 'w env \<Rightarrow> bool" where
  "world_keeps I env \<longleftrightarrow> (\<forall>w. I w \<longrightarrow> I (snd (en_now env w)) \<and> I (snd (en_uuid env w)))
     \<and> (\<forall>f w. I w \<longrightarrow> I (snd (en_io env f w))) \<and> (\<forall>k. keeps I (en_lock env k) \<and> keeps I (en_unlock env k))
     \<and> keeps I (sc_listDevices (en_simctl env)) \<and> keeps I (sc_inventory (en_simctl env))
     \<and> (\<forall>u d. keeps I (sc_measure (en_simctl env) u d))"

lemma keeps_ask_world: "(\<And>w. I w \<Longrightarrow> I (snd (q w))) \<Longrightarrow> keeps (\<lambda>s. I (sy_world s)) (ask q)"
  by (auto simp: keeps_def ask_def split: prod.splits) (metis snd_conv)

lemma world_keepsD:
  assumes "world_keeps I env"
  shows "keeps (\<lambda>s. I (sy_world s)) (ask (en_now env))" "keeps (\<lambda>s. I (sy_world s)) (ask (en_uuid env))"
    "keeps (\<lambda>s. I (sy_world s)) (ask (en_io env f))" "keeps I (en_lock env k)" "keeps I (en_unlock env k)"
    "keeps I (sc_listDevices (en_simctl env))" "keeps I (sc_inventory (en_simctl env))" "keeps I (sc_measure (en_simctl env) u d)"
  using assms by (auto simp: world_keeps_def intro!: keeps_ask_world)

lemma keeps_lift_world: "keeps I m \<Longrightarrow> keeps (\<lambda>s. I (sy_world s)) (lift m)"
  by (auto simp: keeps_def lift_def split: prod.splits)

lemma keeps_writes_world:
  assumes "world_keeps I env" "\<And>s. sy_world (put s) = sy_world s"
  shows "keeps (\<lambda>s. I (sy_world s)) (writeJsonAtomicRestricted env f put)"
  unfolding writeJsonAtomicRestricted_def
  by (intro keeps_andthen world_keepsD [OF assms(1)] keeps_io_outcome keeps_update keeps_basic) (simp_all add: assms(2))

lemma keeps_records_world:
  assumes "world_keeps I env"
  shows "keeps (\<lambda>s. I (sy_world s)) (appendEventRecord env e)" "keeps (\<lambda>s. I (sy_world s)) (writeRegistry env hc rg)"
  unfolding appendEventRecord_def recordAuditAppendFailure_def writeRegistry_def Let_def
  by (intro keeps_andthen world_keepsD [OF assms] keeps_catching keeps_attempt keeps_writes_world assms; simp)+

lemma keeps_lock_world:
  "world_keeps I env \<Longrightarrow> keeps (\<lambda>s. I (sy_world s)) m \<Longrightarrow> keeps (\<lambda>s. I (sy_world s)) (with_lock env k m)"
  unfolding with_lock_def by (intro keeps_andthen keeps_finally keeps_lift_world) (simp_all add: world_keepsD)

text \<open>The slots a sweep may erase.\<close>

definition erasable :: "string option \<Rightarrow> broker_state \<Rightarrow> host_alias \<Rightarrow> bool" where
  "erasable acquiring st h \<longleftrightarrow> h \<in> set (hc_aliases (bs_host st)) \<and> lease_on st (ha_alias h) = None
     \<and> pin_on st (ha_alias h) = None \<and> acquiring \<noteq> Some (ha_alias h) \<and> classifyReclaimSlot (Some h) \<noteq> None
     \<and> (\<exists>e. rg_aliases (bs_registry st) (ha_alias h) = Some e \<and> \<not> slotReclaimBlockedByRepair e
          \<and> (\<forall>i. re_activeLeaseId e = Some i \<longrightarrow> js_trim i = []))"

lemma erasable_if_swept:
  assumes "sweep_inv acq st t w" "h \<in> set (hc_aliases (bs_host st))" "rg_aliases (sw_registry w) (ha_alias h) = Some e"
    and "\<not> held_slot acq st (ha_alias h) e" "\<not> slotReclaimBlockedByRepair e"
    and "evaluateSlotReclaim dp (classifyReclaimSlot (Some h)) b held e1 e2 n now pol = Reclaim cls why"
  shows "erasable acq st h"
proof -
  have "rel_option (sweep_outcome (sw_failed w \<noteq> 0) acq st t (ha_alias h)) (rg_aliases (bs_registry st) (ha_alias h)) (Some e)"
    using assms(1,3) unfolding sweep_inv_def by metis
  then obtain e0 where e0: "rg_aliases (bs_registry st) (ha_alias h) = Some e0"
    "sweep_outcome (sw_failed w \<noteq> 0) acq st t (ha_alias h) e0 e" by (auto simp: option_rel_Some2)
  from e0(2) assms(4,5) have "\<not> slotReclaimBlockedByRepair e0" "\<not> held_slot acq st (ha_alias h) e0"
    by (auto simp: sweep_outcome_def)
  moreover have "classifyReclaimSlot (Some h) \<noteq> None" using assms(6) by (auto simp: evaluateSlotReclaim_def split: if_splits option.splits)
  ultimately show ?thesis using assms(2) e0(1)
    by (auto simp: erasable_def held_slot_def isSlotHeldForReclaim_def split: if_splits)
qed

lemma keeps_reclaim_slot:
  assumes "world_keeps I env" "keeps I (sc_shutdown (en_simctl env) (ha_simulatorId h))"
    and "keeps I (sc_erase (en_simctl env) (ha_simulatorId h))"
  shows "keeps (\<lambda>s. I (sy_world s)) (reclaim_slot env actor acq source t st h e cls why w)"
  unfolding reclaim_slot_def erase_slot_def
  by (intro keeps_catching keeps_andthen keeps_lock_world keeps_unless keeps_If keeps_basic keeps_lift_world
      keeps_records_world assms)

lemma keeps_sweep_alias:
  assumes "world_keeps I env" "sweep_inv acq st t w"
    and "\<And>h. erasable acq st h \<Longrightarrow> keeps I (sc_shutdown (en_simctl env) (ha_simulatorId h)) \<and> keeps I (sc_erase (en_simctl env) (ha_simulatorId h))"
  shows "keeps (\<lambda>s. I (sy_world s)) (sweep_alias env policy actor acq source t st a w)"
proof (cases "List.find (\<lambda>h. ha_alias h = a) (hc_aliases (bs_host st))")
  case None
  then show ?thesis by (simp add: sweep_alias_def keeps_basic)
next
  case (Some h)
  from find_SomeD [OF Some] have h: "h \<in> set (hc_aliases (bs_host st))" "ha_alias h = a" by simp_all
  have measure: "keeps (\<lambda>s. I (sy_world s)) (sweep_measure env policy h d)" for d
    unfolding sweep_measure_def readReclaimDeviceListing_def measureAliasDiskBytes_def
    by (intro keeps_struct keeps_lift_world world_keepsD [OF assms(1)])
  have erase: "keeps (\<lambda>s. I (sy_world s)) (reclaim_slot env actor acq source t st h e cls why (w\<lparr>sw_devices := d, sw_eligible := n\<rparr>))"
    if "erasable acq st h" for e cls why d n
    using assms(3) [OF that] by (intro keeps_reclaim_slot assms(1)) simp_all
  show ?thesis
    unfolding sweep_alias_def Some Let_def option.case prod.case
  proof (rule keeps_option, goal_cases)
    case (2 e)
    show ?case
    proof (intro keeps_If keeps_basic keeps_andthen measure keeps_prod, goal_cases)
      case (1 x b d)
      then show ?case
        using erasable_if_swept [OF assms(2) h(1), of e] 2 h(2)
        by (auto split: reclaim_decision.split intro: keeps_basic erase)
    qed
  qed (rule keeps_basic)
qed

lemma keeps_sweep:
  assumes "world_keeps I env"
    and "\<And>h. erasable acq st h \<Longrightarrow> keeps I (sc_shutdown (en_simctl env) (ha_simulatorId h)) \<and> keeps I (sc_erase (en_simctl env) (ha_simulatorId h))"
  shows "keeps (\<lambda>s. I (sy_world s)) (performSlotReclaim env st actor t aliases acq persist source)"
proof -
  let ?K = "keeps (\<lambda>s. I (sy_world s))"
  have loop: "?K (fold_eff (sweep_alias env policy actor acq source t st) as w)" if "sweep_inv acq st t w" for policy as w
    using that
  proof (induction as arbitrary: w)
    case Nil
    then show ?case by (simp add: keeps_basic)
  next
    case (Cons a as)
    have "?K (andthen (sweep_alias env policy actor acq source t st a w)
        (\<lambda>w'. fold_eff (sweep_alias env policy actor acq source t st) as w'))"
      using keeps_sweep_alias [OF assms(1) Cons.prems assms(2)] sweep_alias_ok [OF _ Cons.prems] Cons.IH
      by (rule keeps_andthen_post)
    then show ?case by simp
  qed
  have start: "sweep_inv acq st t \<lparr>sw_eligible = 0, sw_reclaimed = 0, sw_held = 0, sw_failed = 0,
      sw_registry = bs_registry st, sw_devices = None\<rparr>"
    by (auto simp: sweep_inv_def sweep_outcome_def option.rel_refl)
  show ?thesis
    unfolding performSlotReclaim_def Let_def
    by (intro keeps_andthen keeps_If loop start keeps_basic keeps_records_world assms(1))
qed

section \<open>Properties\<close>

text \<open>C5: a sweep shuts down and erases only simulators of configured aliases that have a reclaim class, no
  lease, no pin, no lease named in the registry and no failure waiting for repair, and never the alias
  being acquired: whatever holds of the world and is kept by these erases and by everything that is not a
  simulator operation still holds after the sweep.\<close>

theorem sweep_spares_held_slots:
  assumes "world_keeps I env"
    and "\<And>h. erasable acq st h \<Longrightarrow> keeps I (sc_shutdown (en_simctl env) (ha_simulatorId h)) \<and> keeps I (sc_erase (en_simctl env) (ha_simulatorId h))"
  shows "keeps (\<lambda>s. I (sy_world s)) (performSlotReclaim env st actor t aliases acq persist source)"
  using assms by (rule keeps_sweep)

text \<open>A host that records what is erased.\<close>

definition logging_env :: "string list env" where
  "logging_env = \<lparr>en_now = Pair ''t'', en_date = (\<lambda>_. None), en_uuid = Pair ''u'', en_io = (\<lambda>_. Pair Io_ok),
     en_lock = (\<lambda>_. ret ()), en_unlock = (\<lambda>_. ret ()), en_exists = (\<lambda>_. Pair True), en_sampling = False,
     en_ops = \<lparr>po_sample = ret [], po_killPid = (\<lambda>_ _. ret \<lparr>kl_ok = True, kl_errorCode = None\<rparr>),
       po_killGroup = (\<lambda>_ _. ret \<lparr>kl_ok = True, kl_errorCode = None\<rparr>), po_brokerPid = 7, po_clock = (\<lambda>_. 0),
       po_evidence = (\<lambda>_. ret ()), po_diagnostics = (\<lambda>_. ret [])\<rparr>,
     en_parentPid = 6,
     en_simctl = \<lparr>sc_inventory = ret plain_inventory, sc_listDevices = ret plain_inventory,
       sc_measure = (\<lambda>_ _. ret (16 * 1024 * 1024 * 1024)), sc_boot = (\<lambda>u w. (Inr (), w @ [''boot '' @ u])), sc_waitForBooted = (\<lambda>_. ret ()),
       sc_shutdown = (\<lambda>u w. (Inr (), w @ [''shutdown '' @ u])), sc_erase = (\<lambda>u w. (Inr (), w @ [''erase '' @ u])),
       sc_delete = (\<lambda>u w. (Inr (), w @ [''delete '' @ u])), sc_listRuntimes = ret [sample_runtime],
       sc_rename = (\<lambda>u n w. (Inr (), w @ [''rename '' @ u])), sc_create = (\<lambda>n t r w. (Inr ''SIM-NEW'', w @ [''create '' @ n]))\<rparr>,
     en_projectJson = (\<lambda>_. ret (project_config_json sample_project_config)), en_paths = plain_paths,
     en_fs = (\<lambda>_. plain_fs), en_locale = cmp_key id, en_localeNumeric = cmp_key id, en_digest = (\<lambda>_. [])\<rparr>"

definition logging_sys :: "string list sys" where
  "logging_sys = \<lparr>sy_host = Some (host_config_json sample_host_config), sy_registry = None, sy_projects = None,
     sy_idle = Missing, sy_leases = [], sy_pins = [], sy_transactions = [], sy_artifacts = (\<lambda>_. None), sy_events = [], sy_auditFailures = [],
     sy_world = []\<rparr>"

lemma logging_world_keeps: "world_keeps (\<lambda>w. x \<notin> set w) logging_env"
  by (auto simp: world_keeps_def logging_env_def keeps_def run_simps)

text \<open>The alias is leased, so nothing is erased, although its disk use is over the threshold; without the
  lease it is.\<close>

theorem sweep_spares_held_slots_witness:
  "''erase SIM-A'' \<notin> set (sy_world (snd (performSlotReclaim logging_env
      (sample_state\<lparr>bs_leasesByAlias := [(''build-a'', live_lease)]\<rparr>) None ''t'' None None False ''idle'' logging_sys)))
   \<and> sy_world (snd (performSlotReclaim logging_env sample_state None ''t'' None None False ''idle'' logging_sys))
      = [''shutdown SIM-A'', ''erase SIM-A'']"
proof
  let ?st = "sample_state\<lparr>bs_leasesByAlias := [(''build-a'', live_lease)]\<rparr>"
  have "\<not> erasable None ?st h" for h
    by (auto simp: erasable_def sample_state_def sample_host_config_def lease_on_def map_get_def)
  then have "keeps (\<lambda>s. ''erase SIM-A'' \<notin> set (sy_world s)) (performSlotReclaim logging_env ?st None ''t'' None None False ''idle'')"
    by (intro sweep_spares_held_slots logging_world_keeps) simp
  then show "''erase SIM-A'' \<notin> set (sy_world (snd (performSlotReclaim logging_env ?st None ''t'' None None False ''idle'' logging_sys)))"
    by (auto simp: keeps_def logging_sys_def)
  show "sy_world (snd (performSlotReclaim logging_env sample_state None ''t'' None None False ''idle'' logging_sys))
      = [''shutdown SIM-A'', ''erase SIM-A'']" by code_simp
qed



end
