(* ===== verification/Lease_Ops.thy ===== *)
theory Lease_Ops
  imports Slot_Sweep
begin

text \<open>
  The lease operations (\<open>acquireSelection\<close> to \<open>releaseLeaseBroker\<close> in \<open>broker-core/index.mjs\<close>).  Every
  operation runs under the lease mutation lock, loads the state, checks its request, and changes the
  lease file, the artifact and the registry with a rollback for every failure in between.  A lease id
  is a file name without a separator.
\<close>

section \<open>Options and checks\<close>

definition stateLoadOptions ::
  "js option \<Rightarrow> string list \<Rightarrow> inventory option \<Rightarrow> string option \<Rightarrow> berr + load_options" where
  "stateLoadOptions termWaitMs skipLeaseIds inv' now =
    seq (optionalNonNegativeInteger termWaitMs ''term-wait-ms'') (\<lambda>t.
      Inr \<lparr>lo_skipLeaseIds = skipLeaseIds, lo_termWaitMs = t, lo_now = now, lo_inventory = inv', lo_idle = False\<rparr>)"

definition findHostAliasOrThrow :: "broker_state \<Rightarrow> string \<Rightarrow> berr + host_alias" where
  "findHostAliasOrThrow st a =
    (case List.find (\<lambda>h. ha_alias h = a) (hc_aliases (bs_host st)) of
       None \<Rightarrow> Inl (broker_err (''Unknown alias '' @ a @ ''.'') ''unknown-alias'')
     | Some h \<Rightarrow> Inr h)"

definition processSampleLooksDefunct :: "raw_proc \<Rightarrow> bool" where
  "processSampleLooksDefunct r =
    (if starts_with (map upper_char (js_trim (nullish (rw_stat r) []))) ''Z'' then True
     else str_includes (nullish (rw_command r) []) ''<defunct>'')"

definition bad_group :: "string \<Rightarrow> berr" where
  "bad_group m = broker_err m ''invalid-flag''"

definition validateRegisteredCommandGroup :: "'w env \<Rightarrow> int \<Rightarrow> int option \<Rightarrow> ('w sys, unit) eff" where
  "validateRegisteredCommandGroup env commandPid commandPgid =
    (case commandPgid of
       None \<Rightarrow> ret ()
     | Some g \<Rightarrow>
         andthen (lift (po_sample (en_ops env))) (\<lambda>records.
         case List.find (\<lambda>r. pos_int (rw_pid r) = Some commandPid) records of
           None \<Rightarrow> throw (bad_group ''Flag --pgid requires a live process.'')
         | Some r \<Rightarrow>
             if processSampleLooksDefunct r then throw (bad_group ''Flag --pgid requires a non-defunct process.'')
             else if pos_int (rw_pgid r) \<noteq> Some g then throw (bad_group ''Flag --pgid must match the current process group.'')
             else ret ()))"

definition validateRegisteredOwnerGroup ::
  "'w env \<Rightarrow> int option \<Rightarrow> int option \<Rightarrow> bool \<Rightarrow> ('w sys, unit) eff" where
  "validateRegisteredOwnerGroup env ownerPid ownerPgid requireLiveOwner =
    (case (ownerPid, ownerPgid) of
       (Some p, Some g) \<Rightarrow>
         andthen (lift (po_sample (en_ops env))) (\<lambda>records.
         case List.find (\<lambda>r. pos_int (rw_pid r) = Some p) records of
           None \<Rightarrow> if requireLiveOwner then throw (bad_group ''Flag --owner-pgid requires a live process.'') else ret ()
         | Some r \<Rightarrow>
             if processSampleLooksDefunct r then throw (bad_group ''Flag --owner-pgid requires a non-defunct process.'')
             else if pos_int (rw_pgid r) \<noteq> Some g
             then throw (bad_group ''Flag --owner-pgid must match the current process group.'') else ret ())
     | _ \<Rightarrow> ret ())"

definition validateContainmentReason :: "string \<Rightarrow> berr + string" where
  "validateContainmentReason reason =
    (if isSupportedContainmentReason (Some reason) then Inr reason
     else Inl (broker_err (''Unsupported containment reason: '' @ reason @ ''.'') ''invalid-flag''))"

definition artifact_in_use :: berr where
  "artifact_in_use = broker_err ''Lease artifact path is already used by another active lease.'' ''lease-artifact-path-in-use''"

text \<open>\<open>find\<close> stops at the first lease with the same canonical path; resolving a path before it may throw.\<close>

fun artifact_user :: "fs_view \<Rightarrow> string \<Rightarrow> string option \<Rightarrow> lease list \<Rightarrow> berr + lease option" where
  "artifact_user fs canonical ignored [] = Inr None"
| "artifact_user fs canonical ignored (l # ls) =
    (if Some (ls_leaseId l) = ignored then artifact_user fs canonical ignored ls
     else case given (ls_artifactPath l) of
       None \<Rightarrow> artifact_user fs canonical ignored ls
     | Some p \<Rightarrow> seq (canonicalPathForComparison fs p) (\<lambda>c.
         if c = canonical then Inr (Some l) else artifact_user fs canonical ignored ls))"

definition assertLeaseArtifactPathUnused ::
  "fs_view \<Rightarrow> lease list \<Rightarrow> string option \<Rightarrow> string option \<Rightarrow> berr + unit" where
  "assertLeaseArtifactPathUnused fs activeLeases artifactPath ignoredLeaseId =
    (case given artifactPath of
       None \<Rightarrow> Inr ()
     | Some p \<Rightarrow>
         seq (canonicalPathForComparison fs (path_resolve (fs_cwd fs) p)) (\<lambda>canonical.
         seq (artifact_user fs canonical ignoredLeaseId activeLeases) (\<lambda>user.
           if user = None then Inr () else Inl artifact_in_use)))"

section \<open>Simulator actions\<close>

text \<open>\<open>invokeLifecycleAdapter\<close>: a broker error is passed on, any other becomes \<open>simulator-action-failed\<close>.\<close>

definition action_failed :: "string \<Rightarrow> string \<Rightarrow> string \<Rightarrow> berr" where
  "action_failed action a cause =
    cause_err (''Simulator '' @ action @ '' failed for alias '' @ a @ ''.'') ''simulator-action-failed'' cause"

definition invokeLifecycleAdapter :: "string \<Rightarrow> string \<Rightarrow> ('w sys, 'a) eff \<Rightarrow> ('w sys, 'a) eff" where
  "invokeLifecycleAdapter action a m =
    catching m (\<lambda>e. throw (if is_broker_error e then e else action_failed action a (err_message e)))"

section \<open>Acquiring\<close>

record acquire_options =
  aq_now :: "string option"
  aq_termWaitMs :: "js option"
  aq_skipLeaseIds :: "string list"
  aq_inventory :: "inventory option"
  aq_projectFilePath :: "string option"
  aq_purposeId :: "string option"
  aq_alias :: "string option"
  aq_actorType :: "string option"
  aq_actorId :: "string option"
  aq_clientPid :: "js option"
  aq_ownerPid :: "js option"
  aq_ownerPgid :: "js option"
  aq_sessionDir :: "string option"
  aq_leaseFile :: "string option"
  aq_evidenceDir :: "string option"
  aq_jobId :: "string option"
  aq_jobKind :: "string option"
  aq_memoryCeilingBytes :: "js option"
  aq_monitorIntervalMs :: "js option"
  aq_simulatorProcessNames :: "names option"

record selection =
  se_state :: broker_state
  se_project :: project_config
  se_projectFile :: string
  se_purpose :: purpose
  se_candidate :: candidate

definition acquireSelection :: "'w env \<Rightarrow> acquire_options \<Rightarrow> string \<Rightarrow> ('w sys, selection) eff" where
  "acquireSelection env opts timestamp =
    andthen (check (stateLoadOptions (aq_termWaitMs opts) (aq_skipLeaseIds opts) (aq_inventory opts) (Some timestamp))) (\<lambda>lo.
    andthen (loadBrokerState env lo timestamp) (\<lambda>st.
    andthen (readProjectConfigOrThrow env (aq_projectFilePath opts)) (\<lambda>(projectConfig, projectFilePath).
    andthen (rememberKnownProject env (bs_projects st) projectConfig projectFilePath timestamp) (\<lambda>_.
    andthen (check (getPurpose projectConfig (aq_purposeId opts))) (\<lambda>purpose.
    andthen (check (select_candidate (en_date env) st purpose projectConfig (aq_alias opts))) (\<lambda>c.
      ret \<lparr>se_state = st, se_project = projectConfig, se_projectFile = projectFilePath, se_purpose = purpose,
           se_candidate = c\<rparr>))))))"

definition some_dir :: "fs_view \<Rightarrow> string option \<Rightarrow> string option" where
  "some_dir fs d = map_option (path_resolve (fs_cwd fs)) (given d)"

text \<open>The lease record of a request.\<close>

definition new_lease ::
  "fs_view \<Rightarrow> broker_paths \<Rightarrow> acquire_options \<Rightarrow> selection \<Rightarrow> string \<Rightarrow> string \<Rightarrow> string \<Rightarrow> string \<Rightarrow> int \<Rightarrow> int option \<Rightarrow> lease"
where
  "new_lease fs paths opts sel timestamp leaseId actorType actorId ownerPid ownerPgid =
    (let h = ca_hostAlias (se_candidate sel);
         activePin = pin_on (se_state sel) (ha_alias h);
         sessionDir = some_dir fs (aq_sessionDir opts);
         l = \<lparr>ls_actorId = actorId, ls_actorType = actorType, ls_alias = ha_alias h,
               ls_artifactPath = some_dir fs (aq_leaseFile opts), ls_displayName = ha_displayName h,
               ls_jobId = aq_jobId opts, ls_jobKind = aq_jobKind opts, ls_leaseId = leaseId,
               ls_leaseKind = (if activePin \<noteq> None then ''pinned'' else ''ephemeral''), ls_ownerPid = ownerPid,
               ls_pinId = map_option pn_pinId activePin, ls_projectId = pc_projectId (se_project sel),
               ls_projectName = pc_projectName (se_project sel), ls_purposeId = pu_id (se_purpose sel),
               ls_repoRoot = resolveRepoRoot fs (se_projectFile sel), ls_resetPolicy = ha_resetPolicy h,
               ls_sessionDir = sessionDir, ls_simulatorId = ha_simulatorId h, ls_startedAt = timestamp,
               ls_runtime = None\<rparr>
     in l\<lparr>ls_runtime := Some (buildLeaseRuntimeMetadata l
          \<lparr>ro_evidenceRoot = Some (case some_dir fs (aq_evidenceDir opts) of
               Some d \<Rightarrow> d
             | None \<Rightarrow> (case sessionDir of Some d \<Rightarrow> path_join d ''simulator-broker-evidence''
                        | None \<Rightarrow> path_join (bp_evidenceDir paths) leaseId)),
           ro_memoryCeilingBytes = aq_memoryCeilingBytes opts, ro_monitorIntervalMs = aq_monitorIntervalMs opts,
           ro_ownerPgid = ownerPgid, ro_ownerPid = Some ownerPid, ro_ownerRegisteredAt = Some timestamp,
           ro_simulatorProcessNames = aq_simulatorProcessNames opts, ro_updatedAt = Some timestamp\<rparr>)\<rparr>)"

text \<open>Repair of the registry and removal of the files when a reset or boot has failed.\<close>

definition rolled_back :: "string \<Rightarrow> string \<Rightarrow> registry_entry \<Rightarrow> registry_entry" where
  "rolled_back timestamp reasonCode e = e\<lparr>re_activeLeaseId := None, re_health := Repair_needed,
     re_driftReason := Some reasonCode, re_updatedAt := timestamp\<rparr>"

definition rollbackAcquireLease ::
  "'w env \<Rightarrow> host_config \<Rightarrow> registry \<Rightarrow> lease \<Rightarrow> string \<Rightarrow> string \<Rightarrow> ('w sys, unit) eff" where
  "rollbackAcquireLease env hc rg l timestamp reasonCode =
    andthen (writeRegistry env hc
      ((update_entry (ls_alias l) (rolled_back timestamp reasonCode) rg)\<lparr>rg_updatedAt := timestamp\<rparr>)) (\<lambda>_.
      removeLeaseRecordFiles env l)"

text \<open>\<open>rollbackAcquireLeaseFailureSafe\<close>: a failure of the rollback is only attached to the error.\<close>

definition rollbackAcquireLeaseFailureSafe ::
  "'w env \<Rightarrow> host_config \<Rightarrow> registry \<Rightarrow> lease \<Rightarrow> string \<Rightarrow> string \<Rightarrow> ('w sys, unit) eff" where
  "rollbackAcquireLeaseFailureSafe env hc rg l timestamp reasonCode =
    attempt (rollbackAcquireLease env hc rg l timestamp reasonCode)"

definition reset_entry :: "string \<Rightarrow> registry_entry \<Rightarrow> registry_entry" where
  "reset_entry startedAt e = (resetLeasesSinceErase (e\<lparr>re_health := Healthy, re_driftReason := None,
     re_lastErasedAt := Some startedAt, re_lastShutdownAt := Some startedAt\<rparr>))
     \<lparr>re_powerState := Shutdown, re_updatedAt := startedAt\<rparr>"

text \<open>\<open>maybeResetLeaseOnAcquire\<close> returns the registry it leaves in memory; when it throws after the erase,
  the callers keep the registry they passed or the changed one, depending on where it failed, so the
  registry in memory is part of the result of both outcomes.\<close>

definition maybeResetLeaseOnAcquire ::
  "'w env \<Rightarrow> host_config \<Rightarrow> registry \<Rightarrow> lease \<Rightarrow> ('w sys, (berr \<times> registry) + registry) eff" where
  "maybeResetLeaseOnAcquire env hc rg l =
    (if ls_resetPolicy l \<noteq> ''erase-on-acquire'' then ret (Inr rg)
     else catching
       (andthen (with_lock env Reset_lock
           (andthen (lift (sc_shutdown (en_simctl env) (ls_simulatorId l))) (\<lambda>_.
             lift (sc_erase (en_simctl env) (ls_simulatorId l))))) (\<lambda>_.
         let rg' = (update_entry (ls_alias l) (reset_entry (ls_startedAt l)) rg)\<lparr>rg_updatedAt := ls_startedAt l\<rparr> in
         catching (andthen (writeRegistry env hc rg') (\<lambda>_. ret (Inr rg'))) (\<lambda>e. ret (Inl (e, rg')))))
       (\<lambda>e. ret (Inl (e, rg))))"

definition booted_entry :: "string \<Rightarrow> registry_entry \<Rightarrow> registry_entry" where
  "booted_entry startedAt e = e\<lparr>re_powerState := Booted, re_health := Healthy, re_driftReason := None,
     re_lastBootedAt := Some startedAt, re_updatedAt := startedAt\<rparr>"

definition maybeBootLeaseOnAcquire ::
  "'w env \<Rightarrow> broker_state \<Rightarrow> registry \<Rightarrow> lease \<Rightarrow> ('w sys, (berr \<times> registry) + registry) eff" where
  "maybeBootLeaseOnAcquire env st rg l =
    (case rg_aliases rg (ls_alias l) of
       None \<Rightarrow> ret (Inl (type_error, rg))
     | Some e \<Rightarrow>
         if re_powerState e = Booted then
           catching
             (andthen (check (findHostAliasOrThrow st (ls_alias l))) (\<lambda>h.
              andthen (invokeLifecycleAdapter ''waitReady'' (ls_alias l)
                 (lift (sc_waitForBooted (en_simctl env) (ha_simulatorId h)))) (\<lambda>_. ret (Inr rg))))
             (\<lambda>err. ret (Inl (err, rg)))
         else
           catching
             (andthen (check (findHostAliasOrThrow st (ls_alias l))) (\<lambda>h.
              andthen (invokeLifecycleAdapter ''boot'' (ls_alias l)
                 (lift (sc_boot (en_simctl env) (ha_simulatorId h)))) (\<lambda>_.
              let rg' = (update_entry (ls_alias l) (booted_entry (ls_startedAt l)) rg)\<lparr>rg_updatedAt := ls_startedAt l\<rparr> in
              catching
                (andthen (writeRegistry env (bs_host st) rg') (\<lambda>_.
                 andthen (appendEventRecord env (lease_event ''simulator.booted'' l [''implicitOnAcquire''] (ls_startedAt l)))
                   (\<lambda>_. ret (Inr rg'))))
                (\<lambda>err. ret (Inl (err, rg'))))))
             (\<lambda>err. ret (Inl (err, rg))))"

definition acquire_failed :: "string \<Rightarrow> string \<Rightarrow> string \<Rightarrow> berr" where
  "acquire_failed what a reasonCode =
    broker_err (''Failed to '' @ what @ '' alias '' @ a @ '' before handing out the lease.'') reasonCode"

text \<open>A step that may fail, with the rollback of the lease.\<close>

definition or_rollback ::
  "'w env \<Rightarrow> host_config \<Rightarrow> lease \<Rightarrow> string \<Rightarrow> string \<Rightarrow> string \<Rightarrow> ('w sys, (berr \<times> registry) + registry) eff
     \<Rightarrow> ('w sys, registry) eff" where
  "or_rollback env hc l timestamp what reasonCode m =
    andthen m (\<lambda>r. case r of
        Inr rg \<Rightarrow> ret rg
      | Inl (err, rg) \<Rightarrow>
          andthen (rollbackAcquireLeaseFailureSafe env hc rg l timestamp reasonCode) (\<lambda>_.
            throw (acquire_failed what (ls_alias l) reasonCode)))"

definition leased_entry :: "string \<Rightarrow> string \<Rightarrow> registry_entry \<Rightarrow> registry_entry" where
  "leased_entry leaseId timestamp e =
    e\<lparr>re_activeLeaseId := Some leaseId, re_lastLeaseStartedAt := Some timestamp, re_updatedAt := timestamp\<rparr>"

text \<open>From the record to the booted simulator.\<close>

definition hand_out :: "'w env \<Rightarrow> broker_state \<Rightarrow> registry \<Rightarrow> lease \<Rightarrow> string \<Rightarrow> ('w sys, lease) eff" where
  "hand_out env st rg l timestamp =
    andthen (writeLeaseRecord env l False) (\<lambda>_.
    andthen (check (case rg_aliases rg (ls_alias l) of None \<Rightarrow> Inl type_error | Some _ \<Rightarrow> Inr ())) (\<lambda>_.
    let rg1 = (update_entry (ls_alias l) (leased_entry (ls_leaseId l) timestamp) rg)\<lparr>rg_updatedAt := timestamp\<rparr> in
    andthen (catching (writeRegistry env (bs_host st) rg1)
        (\<lambda>err. andthen (removeLeaseRecordFiles env l) (\<lambda>_. throw err))) (\<lambda>_.
    andthen (or_rollback env (bs_host st) l timestamp ''reset'' ''reset-on-acquire-failed''
        (maybeResetLeaseOnAcquire env (bs_host st) rg1 l)) (\<lambda>rg2.
    andthen (or_rollback env (bs_host st) l timestamp ''boot'' ''boot-on-acquire-failed''
        (maybeBootLeaseOnAcquire env st rg2 l)) (\<lambda>rg3.
    andthen (appendEventRecord env (lease_event ''lease.acquired'' l [ls_leaseKind l] timestamp)) (\<lambda>_.
      ret l))))))"

text \<open>The part of \<open>acquireLeaseBroker\<close> after the selection, with the id drawn for the lease.\<close>

definition acquire_selected ::
  "'w env \<Rightarrow> acquire_options \<Rightarrow> string \<Rightarrow> selection \<Rightarrow> string \<Rightarrow> ('w sys, lease) eff" where
  "acquire_selected env opts timestamp sel leaseId =
    (let st = se_state sel;
         actorType = nullish (or_else (aq_actorType opts) (pu_defaultActorType (se_purpose sel))) ''unknown'';
         clientPid = nullish (normalizePositiveInteger (aq_clientPid opts)) (po_brokerPid (en_ops env));
         actorId = nullish (aq_actorId opts) (actorType @ '':'' @ int_text clientPid)
     in andthen (check (requireContainmentRootInteger (Some (nullish (aq_ownerPid opts) (JInt (en_parentPid env)))) ''owner-pid'')) (\<lambda>ownerPid.
        andthen (check (optionalContainmentGroupInteger (aq_ownerPgid opts) ''owner-pgid'')) (\<lambda>ownerPgid.
        andthen (validateRegisteredOwnerGroup env (Some ownerPid) ownerPgid (ownerPgid \<noteq> None)) (\<lambda>_.
        andthen (look (\<lambda>s. en_fs env (sy_world s))) (\<lambda>fs.
        let l = new_lease fs (en_paths env) opts sel timestamp leaseId actorType actorId ownerPid ownerPgid in
        andthen (check (assertLeaseArtifactPathUnused fs (bs_leases st) (ls_artifactPath l) (Some leaseId))) (\<lambda>_.
        andthen (performSlotReclaim env st (aq_actorType opts) timestamp (Some [ls_alias l]) None False ''lease-acquire'') (\<lambda>(res, rg).
          if 0 < rr_failureCount res then throw (acquire_failed ''reclaim'' (ls_alias l) ''slot-reclaim-failed'')
          else hand_out env st rg l timestamp)))))))"

definition acquireLeaseBroker :: "'w env \<Rightarrow> acquire_options \<Rightarrow> ('w sys, lease) eff" where
  "acquireLeaseBroker env opts =
    andthen (nowIso env (aq_now opts)) (\<lambda>lockStartedAt.
    with_lock env Lease_lock (
      andthen (nowIso env (aq_now opts)) (\<lambda>timestamp.
      andthen (acquireSelection env opts timestamp) (\<lambda>sel.
      andthen (ask (en_uuid env)) (\<lambda>leaseId. acquire_selected env opts timestamp sel leaseId)))))"

section \<open>Finding a lease\<close>

definition missing_reference :: berr where
  "missing_reference = broker_err ''Lease id or lease file is required.'' ''missing-lease-reference''"

definition lease_not_found :: "string \<Rightarrow> berr" where
  "lease_not_found leaseId = broker_err (''Lease '' @ leaseId @ '' was not found.'') ''lease-not-found''"

text \<open>The member \<open>leaseId\<close> of a file the caller names; a value that is not a string counts as missing.\<close>

definition artifact_lease_id :: "'w env \<Rightarrow> string \<Rightarrow> ('w sys, string option) eff" where
  "artifact_lease_id env f =
    andthen (look (\<lambda>s. sy_artifacts s (path_resolve (fs_cwd (en_fs env (sy_world s))) f))) (\<lambda>a. case a of
        None \<Rightarrow> throw (HostError ''ENOENT'')
      | Some Broken_artifact \<Rightarrow> throw (HostError ''SyntaxError'')
      | Some (Lease_artifact l) \<Rightarrow> ret (Some (ls_leaseId l))
      | Some (Json_artifact v) \<Rightarrow> andthen (check (members v)) (\<lambda>ms. ret (as_string (obj_get ms ''leaseId''))))"

definition loadLeaseByIdOrFile :: "'w env \<Rightarrow> string option \<Rightarrow> string option \<Rightarrow> ('w sys, lease) eff" where
  "loadLeaseByIdOrFile env leaseId leaseFile =
    andthen (case (given leaseId, given leaseFile) of
        (None, Some f) \<Rightarrow> artifact_lease_id env f
      | _ \<Rightarrow> ret leaseId) (\<lambda>leaseId.
      case given leaseId of
        None \<Rightarrow> throw missing_reference
      | Some i \<Rightarrow> andthen (look (\<lambda>s. dir_get (sy_leases s) (i @ ''.json''))) (\<lambda>f.
          case f of None \<Rightarrow> throw (lease_not_found i) | Some l \<Rightarrow> ret l))"

definition showLeaseBroker :: "'w env \<Rightarrow> string option \<Rightarrow> string option \<Rightarrow> ('w sys, lease) eff" where
  "showLeaseBroker env leaseId leaseFile = loadLeaseByIdOrFile env leaseId leaseFile"

section \<open>Registering processes\<close>

record register_options =
  gq_now :: "string option"
  gq_termWaitMs :: "js option"
  gq_skipLeaseIds :: "string list"
  gq_inventory :: "inventory option"
  gq_leaseId :: "string option"
  gq_leaseFile :: "string option"
  gq_commandPid :: "js option"
  gq_command :: "command option option"
  gq_commandPgid :: "js option"
  gq_ownerPid :: "js option"
  gq_ownerPgid :: "js option"
  gq_evidenceDir :: "string option"
  gq_memoryCeilingBytes :: "js option"
  gq_monitorIntervalMs :: "js option"
  gq_simulatorProcessNames :: "names option"

definition optional_group :: "js option \<Rightarrow> string \<Rightarrow> berr + int option option" where
  "optional_group v flag = (case v of None \<Rightarrow> Inr None | Some _ \<Rightarrow> map_sum id Some (optionalContainmentGroupInteger v flag))"

definition registered_lease ::
  "fs_view \<Rightarrow> register_options \<Rightarrow> string \<Rightarrow> lease \<Rightarrow> int \<Rightarrow> int option option \<Rightarrow> int option \<Rightarrow> int option option \<Rightarrow> lease"
where
  "registered_lease fs opts timestamp l commandPid commandPgid ownerPid ownerPgid =
    (let l' = l\<lparr>ls_runtime := Some (mergeLeaseRuntimeMetadata l
        \<lparr>up_command = gq_command opts, up_commandRegisteredAt = Some timestamp, up_commandPgid = commandPgid,
         up_commandPid = Some commandPid, up_evidenceRoot = some_dir fs (gq_evidenceDir opts),
         up_memoryCeilingBytes = gq_memoryCeilingBytes opts, up_monitorIntervalMs = gq_monitorIntervalMs opts,
         up_ownerPgid = ownerPgid, up_ownerPid = ownerPid,
         up_ownerRegisteredAt = (if ownerPid \<noteq> None then Some timestamp else Option.bind (ls_runtime l) rt_ownerRegisteredAt),
         up_simulatorProcessNames = gq_simulatorProcessNames opts, up_updatedAt = Some timestamp\<rparr>)\<rparr>
     in case ownerPid of None \<Rightarrow> l' | Some p \<Rightarrow> l'\<lparr>ls_ownerPid := p\<rparr>)"

definition registerLeaseProcessBroker ::
  "'w env \<Rightarrow> register_options \<Rightarrow> ('w sys, lease \<times> string \<times> string option) eff" where
  "registerLeaseProcessBroker env opts =
    andthen (nowIso env (gq_now opts)) (\<lambda>timestamp.
    with_lock env Lease_lock (
      andthen (loadLeaseByIdOrFile env (gq_leaseId opts) (gq_leaseFile opts)) (\<lambda>l.
      andthen (check (stateLoadOptions (gq_termWaitMs opts) (gq_skipLeaseIds opts @ [ls_leaseId l]) (gq_inventory opts) (gq_now opts))) (\<lambda>lo.
      andthen (loadBrokerState env lo timestamp) (\<lambda>st.
      andthen (check (requireContainmentRootInteger (gq_commandPid opts) ''pid'')) (\<lambda>commandPid.
      andthen (check (optional_group (gq_commandPgid opts) ''pgid'')) (\<lambda>commandPgid.
      andthen (check (optional_group (gq_ownerPgid opts) ''owner-pgid'')) (\<lambda>ownerPgid.
      andthen (check (case gq_ownerPid opts of None \<Rightarrow> Inr None
          | Some v \<Rightarrow> map_sum id Some (requireContainmentRootInteger (Some v) ''owner-pid''))) (\<lambda>ownerPid.
      andthen (validateRegisteredCommandGroup env commandPid (flatten commandPgid)) (\<lambda>_.
      andthen (validateRegisteredOwnerGroup env
          (or_else ownerPid (pos_int (or_else (Option.bind (ls_runtime l) rt_ownerPid) (Some (ls_ownerPid l)))))
          (flatten ownerPgid) (ownerPgid \<noteq> None)) (\<lambda>_.
      andthen (look (\<lambda>s. en_fs env (sy_world s))) (\<lambda>fs.
      let l' = registered_lease fs opts timestamp l commandPid commandPgid ownerPid ownerPgid in
      andthen (writeLeaseRecord env l' True) (\<lambda>_.
      andthen (appendEventRecord env (lease_event ''lease.process-registered'' l' [] timestamp)) (\<lambda>_.
        ret (l', timestamp, Option.bind (rg_aliases (bs_registry st) (ls_alias l')) re_activeLeaseId)))))))))))))))"

section \<open>Containing on request\<close>

record contain_request =
  cq_now :: "string option"
  cq_termWaitMs :: "js option"
  cq_inventory :: "inventory option"
  cq_leaseId :: "string option"
  cq_leaseFile :: "string option"
  cq_reason :: "string option"
  cq_captureDiagnostics :: bool
  cq_killOwner :: bool
  cq_postKillPollMs :: "int option"
  cq_postKillWaitMs :: "int option"
  cq_requesterPid :: "int option"

definition containLeaseBroker :: "'w env \<Rightarrow> contain_request \<Rightarrow> ('w sys, contain_outcome) eff" where
  "containLeaseBroker env req =
    andthen (nowIso env (cq_now req)) (\<lambda>timestamp.
    andthen (check (validateContainmentReason (nullish (cq_reason req) ''manual-cleanup''))) (\<lambda>reason.
    andthen (check (optionalNonNegativeInteger (cq_termWaitMs req) ''term-wait-ms'')) (\<lambda>termWaitMs.
    with_lock env Lease_lock (
      andthen (loadLeaseByIdOrFile env (cq_leaseId req) (cq_leaseFile req)) (\<lambda>l.
      andthen (check (stateLoadOptions (map_option JInt termWaitMs) [ls_leaseId l] (cq_inventory req) (cq_now req))) (\<lambda>lo.
      andthen (loadBrokerState env lo timestamp) (\<lambda>st.
      andthen (containLeaseRecord env (bs_host st) (bs_registry st) l
          \<lparr>co_captureDiagnostics = cq_captureDiagnostics req, co_killOwner = cq_killOwner req,
           co_now = en_date env (nullish (cq_now req) timestamp), co_postKillPollMs = cq_postKillPollMs req,
           co_postKillWaitMs = cq_postKillWaitMs req, co_reason = reason, co_requesterPid = cq_requesterPid req,
           co_termWaitMs = termWaitMs, co_timestamp = nullish (cq_now req) timestamp\<rparr>) (\<lambda>r.
        case r of Incomplete l' res \<Rightarrow> throw containment_incomplete | _ \<Rightarrow> ret r))))))))"

section \<open>Releasing\<close>

record release_options =
  lq_now :: "string option"
  lq_termWaitMs :: "js option"
  lq_skipLeaseIds :: "string list"
  lq_inventory :: "inventory option"
  lq_leaseId :: "string option"
  lq_leaseFile :: "string option"
  lq_actorType :: "string option"

text \<open>The removal of the files, undone when a part of it fails.\<close>

definition release_files :: "'w env \<Rightarrow> host_config \<Rightarrow> registry \<Rightarrow> lease \<Rightarrow> string \<Rightarrow> ('w sys, registry) eff" where
  "release_files env hc rg l timestamp =
    (let rg' = released_registry rg l timestamp in
     andthen (assert_artifact_allowed env l) (\<lambda>_.
     andthen (snapshotLeaseRecordFiles l) (\<lambda>snap.
     catching
       (andthen (removeLeaseArtifactFile env l) (\<lambda>_.
        andthen (unless (rg_aliases rg (ls_alias l) = None) (writeRegistry env hc rg')) (\<lambda>_.
        andthen (removeCanonicalLeaseRecordFile env l) (\<lambda>_. ret rg'))))
       (\<lambda>err. andthen (attempt (andthen (restoreLeaseRecordFiles env snap) (\<lambda>_. writeRegistry env hc rg)))
          (\<lambda>_. throw err)))))"

definition releaseLeaseBroker :: "'w env \<Rightarrow> release_options \<Rightarrow> ('w sys, string \<times> string) eff" where
  "releaseLeaseBroker env opts =
    andthen (nowIso env (lq_now opts)) (\<lambda>lockStartedAt.
    with_lock env Lease_lock (
      andthen (nowIso env (lq_now opts)) (\<lambda>timestamp.
      andthen (loadLeaseByIdOrFile env (lq_leaseId opts) (lq_leaseFile opts)) (\<lambda>l.
      andthen (check (stateLoadOptions (lq_termWaitMs opts) (lq_skipLeaseIds opts @ [ls_leaseId l]) (lq_inventory opts) (lq_now opts))) (\<lambda>lo.
      andthen (loadBrokerState env lo timestamp) (\<lambda>st.
      andthen (release_files env (bs_host st) (bs_registry st) l timestamp) (\<lambda>rg.
      andthen (appendEventRecord env ((lease_event ''lease.released'' l [] timestamp)
          \<lparr>ev_actorType := Some (nullish (lq_actorType opts) (ls_actorType l))\<rparr>)) (\<lambda>_.
      andthen (if rg_aliases rg (ls_alias l) \<noteq> None
          then andthen (performSlotReclaim env
                 (st\<lparr>bs_leasesByAlias := filter (\<lambda>(a, _). a \<noteq> ls_alias l) (bs_leasesByAlias st), bs_registry := rg\<rparr>)
                 (lq_actorType opts) timestamp (Some [ls_alias l]) None False ''lease-release'') (\<lambda>_. ret ())
          else ret ()) (\<lambda>_.
        ret (ls_leaseId l, timestamp))))))))))"

end
