(* ===== verification/Lease_Proofs.thy ===== *)
theory Lease_Proofs
  imports Lease_Ops
begin

text \<open>
  What the lease operations guarantee: no two lease files are on the same alias, whatever fails on the
  way; an acquired lease is on an alias that satisfied the request; a failure leaves no lease behind; and a
  released one is gone, or, if the release failed, still there.
\<close>

section \<open>Rules for triples\<close>

lemma triple_keeps:
  "keeps I m \<Longrightarrow> (\<And>s. P s \<Longrightarrow> I s) \<Longrightarrow> (\<And>x s. I s \<Longrightarrow> Q x s) \<Longrightarrow> (\<And>e s. I s \<Longrightarrow> E e s) \<Longrightarrow> triple P m Q E"
  by (rule tripleI) (blast dest: keepsD)+

lemma catching_InlE:
  assumes "catching m h w = (Inl e, w')"
  obtains e1 w1 where "m w = (Inl e1, w1)" "h e1 w1 = (Inl e, w')"
  using assms by (auto simp: catching_def split: prod.splits sum.splits)

lemma catching_rethrow:
  "catching m (\<lambda>e. andthen (n e) (\<lambda>_. throw (f e))) w = (Inr x, w') \<Longrightarrow> m w = (Inr x, w')"
  by (auto simp: catching_def run_andthen run_simps split: prod.splits sum.splits)

lemma triple_first:
  "keeps P m \<Longrightarrow> (\<And>e s. P s \<Longrightarrow> E e s) \<Longrightarrow> (\<And>x. triple P (k x) Q E) \<Longrightarrow> triple P (andthen m k) Q E"
  by (rule triple_andthen [where R = "\<lambda>_. P"], rule triple_keeps [where I = P]) auto

lemma triple_prod: "(\<And>x y. triple P (k x y) Q E) \<Longrightarrow> triple P (case v of (x, y) \<Rightarrow> k x y) Q E"
  by (cases v) simp

lemma triple_finally:
  assumes "triple P m Q E" "\<And>x. keeps (Q x) f" "\<And>e. keeps (E e) f" "\<And>x s. Q x s \<Longrightarrow> J s" "\<And>e s. E e s \<Longrightarrow> J s"
    "keeps J f"
  shows "triple P (finally_do m f) Q (\<lambda>_. J)"
proof (rule tripleI)
  fix s x s'
  assume s: "P s" and r: "finally_do m f s = (Inr x, s')"
  obtain r1 s1 where m: "m s = (r1, s1)" by fastforce
  obtain r2 s2 where f: "f s1 = (r2, s2)" by fastforce
  from r m f have "r1 = Inr x" "s2 = s'" by (auto simp: finally_do_def split: sum.splits)
  with tripleD(1) [OF assms(1) s] m f assms(2) show "Q x s'" by (blast dest: keepsD)
next
  fix s e s'
  assume s: "P s" and r: "finally_do m f s = (Inl e, s')"
  obtain r1 s1 where m: "m s = (r1, s1)" by fastforce
  obtain r2 s2 where f: "f s1 = (r2, s2)" by fastforce
  from r f m have "s2 = s'" by (auto simp: finally_do_def split: sum.splits)
  moreover have "J s1" using m tripleD [OF assms(1) s] assms(4,5) by (cases r1) blast+
  ultimately show "J s'" using f assms(6) by (blast dest: keepsD)
qed

lemma triple_with_lock:
  assumes "triple P m Q E" "of_files P" "\<And>x. of_files (Q x)" "\<And>e. of_files (E e)" "of_files J"
    "\<And>s. P s \<Longrightarrow> J s" "\<And>x s. Q x s \<Longrightarrow> J s" "\<And>e s. E e s \<Longrightarrow> J s"
  shows "triple P (with_lock env k m) Q (\<lambda>_. J)"
  unfolding with_lock_def
proof (rule triple_first)
  show "triple P (finally_do m (lift (en_unlock env k))) Q (\<lambda>_. J)"
    by (rule triple_finally [OF assms(1)]) (auto intro: keeps_lift assms)
qed (auto intro: keeps_lift assms)

section \<open>Operations that change no lease file\<close>

definition log_side :: "('w sys \<Rightarrow> bool) \<Rightarrow> bool" where
  "log_side I \<longleftrightarrow> of_files I \<and> (\<forall>s x. I s \<longrightarrow> I (s\<lparr>sy_events := x\<rparr>)) \<and> (\<forall>s x. I s \<longrightarrow> I (s\<lparr>sy_auditFailures := x\<rparr>))
     \<and> (\<forall>s x. I s \<longrightarrow> I (s\<lparr>sy_registry := x\<rparr>)) \<and> (\<forall>s x. I s \<longrightarrow> I (s\<lparr>sy_projects := x\<rparr>))"

lemma log_sideD:
  assumes "log_side I"
  shows "of_files I" "I s \<Longrightarrow> I (s\<lparr>sy_events := e\<rparr>)" "I s \<Longrightarrow> I (s\<lparr>sy_auditFailures := e\<rparr>)"
    "I s \<Longrightarrow> I (s\<lparr>sy_registry := r\<rparr>)" "I s \<Longrightarrow> I (s\<lparr>sy_projects := q\<rparr>)"
  using assms by (simp_all add: log_side_def)

lemma log_side_leases [simp]: "log_side (\<lambda>s. P (sy_leases s) (sy_pins s) (sy_host s) (sy_artifacts s))"
  by (simp add: log_side_def of_files_def)

lemma log_side_claims [simp]: "log_side (claims_kept C)"
  by (simp add: log_side_def)

lemma log_side_conj: "log_side I \<Longrightarrow> log_side J \<Longrightarrow> log_side (\<lambda>s. I s \<and> J s)"
  by (simp add: log_side_def of_files_def)

lemma keeps_log:
  assumes "log_side I"
  shows "keeps I (appendEventRecord env e)" "keeps I (writeRegistry env hc rg)" "keeps I (writeKnownProjects env known)"
    "keeps I (rememberKnownProject env known cfg f t)"
proof -
  note d = log_sideD [OF assms]
  show "keeps I (appendEventRecord env e)" by (intro keeps_rules d)
  show "keeps I (writeRegistry env hc rg)" unfolding writeRegistry_def by (intro keeps_rules d)
  show k: "keeps I (writeKnownProjects env known)" for known unfolding writeKnownProjects_def by (intro keeps_rules d)
  show "keeps I (rememberKnownProject env known cfg f t)"
    unfolding rememberKnownProject_def Let_def by (intro keeps_struct k)
qed

lemma keeps_group_checks [keeps_rules]:
  assumes "of_files I"
  shows "keeps I (validateRegisteredCommandGroup env p g)" "keeps I (validateRegisteredOwnerGroup env q h r)"
proof -
  show "keeps I (validateRegisteredCommandGroup env p g)"
    unfolding validateRegisteredCommandGroup_def by (intro keeps_struct keeps_lift assms)
  show "keeps I (validateRegisteredOwnerGroup env q h r)"
    unfolding validateRegisteredOwnerGroup_def prod.case by (intro keeps_struct keeps_lift assms)
qed

lemma keeps_adapter [keeps_rules]: "keeps I m \<Longrightarrow> keeps I (invokeLifecycleAdapter action a m)"
  unfolding invokeLifecycleAdapter_def by (intro keeps_struct)

lemma keeps_artifact:
  "(\<And>l. keeps I (a l)) \<Longrightarrow> (\<And>v. keeps I (b v)) \<Longrightarrow> keeps I c
    \<Longrightarrow> keeps I (case x of Lease_artifact l \<Rightarrow> a l | Json_artifact v \<Rightarrow> b v | Broken_artifact \<Rightarrow> c)"
  by (cases x) auto

lemma keeps_loadLease [keeps_rules]: "keeps I (loadLeaseByIdOrFile env i f)"
proof -
  have a: "keeps I (artifact_lease_id env x)" for x
    unfolding artifact_lease_id_def by (intro keeps_struct keeps_artifact)
  show ?thesis unfolding loadLeaseByIdOrFile_def prod.case by (intro keeps_struct a)
qed

lemma keeps_sweep_loop:
  assumes "of_files I" "\<And>e. keeps I (appendEventRecord env e)"
  shows "keeps I (fold_eff (sweep_alias env policy actor acq source t st) as w)"
proof -
  have slot: "keeps I (reclaim_slot env actor acq source t st h e cls why w)" for h e cls why w
    unfolding reclaim_slot_def erase_slot_def
    by (intro keeps_catching keeps_andthen keeps_with_lock keeps_unless keeps_If keeps_basic keeps_lift assms)
  have measure: "keeps I (sweep_measure env policy h dv)" for policy h dv
    unfolding sweep_measure_def readReclaimDeviceListing_def measureAliasDiskBytes_def
    by (intro keeps_struct keeps_lift assms(1))
  have "keeps I (sweep_alias env policy actor acq source t st a w)" for policy a w
    unfolding sweep_alias_def Let_def
    by (intro keeps_struct measure) (auto split: reclaim_decision.split intro: keeps_basic keeps_If slot)
  then show ?thesis by (intro keeps_fold)
qed

lemma keeps_performSlotReclaim:
  assumes "log_side I"
  shows "keeps I (performSlotReclaim env st actor t aliases acq persist source)"
  unfolding performSlotReclaim_def Let_def
  by (intro keeps_struct keeps_sweep_loop keeps_log log_sideD(1) assms)

lemma keeps_on_acquire:
  assumes "log_side I"
  shows "keeps I (maybeResetLeaseOnAcquire env hc rg l)" "keeps I (maybeBootLeaseOnAcquire env st rg l)"
  unfolding maybeResetLeaseOnAcquire_def maybeBootLeaseOnAcquire_def Let_def
  by (intro keeps_struct keeps_with_lock keeps_adapter keeps_lift keeps_log log_sideD(1) assms)+

section \<open>Handing out a lease\<close>

lemma keeps_hand_out:
  assumes "lease_claim l \<in> C"
  shows "keeps (claims_kept C) (hand_out env st rg l t)"
  unfolding hand_out_def or_rollback_def rollbackAcquireLeaseFailureSafe_def rollbackAcquireLease_def Let_def
  by (intro keeps_struct keeps_writeLeaseRecord keeps_on_acquire keeps_log keeps_attempt keeps_removeLeaseFiles
      log_side_claims assms)

text \<open>A lease that is handed out is on disk.\<close>

lemma hand_out_ok:
  assumes "hand_out env st rg l t s = (Inr l', s')" "dir_ok (sy_leases s)"
  shows "l' = l \<and> dir_get (sy_leases s') (lease_name l) = Some l"
proof -
  let ?K = "\<lambda>s. dir_get (sy_leases s) (lease_name l) = Some l"
  have side: "log_side ?K" by (rule log_side_leases)
  let ?rg = "(update_entry (ls_alias l) (leased_entry (ls_leaseId l) t) rg)\<lparr>rg_updatedAt := t\<rparr>"
  let ?rest = "andthen (check (case rg_aliases rg (ls_alias l) of None \<Rightarrow> Inl type_error | Some _ \<Rightarrow> Inr ())) (\<lambda>_.
    andthen (catching (writeRegistry env (bs_host st) ?rg) (\<lambda>err. andthen (removeLeaseRecordFiles env l) (\<lambda>_. throw err))) (\<lambda>_.
    andthen (or_rollback env (bs_host st) l t ''reset'' ''reset-on-acquire-failed''
        (maybeResetLeaseOnAcquire env (bs_host st) ?rg l)) (\<lambda>rg2.
    andthen (or_rollback env (bs_host st) l t ''boot'' ''boot-on-acquire-failed''
        (maybeBootLeaseOnAcquire env st rg2 l)) (\<lambda>rg3.
    andthen (appendEventRecord env (lease_event ''lease.acquired'' l [ls_leaseKind l] t)) (\<lambda>_.
      ret l)))))"
  from assms(1) obtain u s1 where w: "writeLeaseRecord env l False s = (Inr u, s1)" and rest: "?rest s1 = (Inr l', s')"
    unfolding hand_out_def Let_def by (rule andthen_InrE)
  have roll: "triple ?K (or_rollback env hc l t what code m) (\<lambda>_. ?K) (\<lambda>_ _. True)" if "keeps ?K m" for hc what code m
    unfolding or_rollback_def
  proof (rule triple_andthen [where R = "\<lambda>_. ?K"])
    show "triple ?K m (\<lambda>_. ?K) (\<lambda>_ _. True)" by (rule triple_keeps [OF that]) auto
    show "triple ?K (case r of Inl (err, rg) \<Rightarrow> andthen (rollbackAcquireLeaseFailureSafe env hc rg l t code)
            (\<lambda>_. throw (acquire_failed what (ls_alias l) code)) | Inr rg \<Rightarrow> ret rg) (\<lambda>_. ?K) (\<lambda>_ _. True)" for r
      by (cases r) (auto simp: triple_def run_simps run_andthen split: prod.splits sum.splits)
  qed
  have reg: "triple ?K (catching (writeRegistry env (bs_host st) ?rg) (\<lambda>err. andthen (removeLeaseRecordFiles env l) (\<lambda>_. throw err)))
      (\<lambda>_. ?K) (\<lambda>_ _. True)"
  proof (rule triple_catching [where R = "\<lambda>_ _. True"])
    show "triple ?K (writeRegistry env (bs_host st) ?rg) (\<lambda>_. ?K) (\<lambda>_ _. True)"
      by (rule triple_keeps [OF keeps_log(2) [OF side]]) auto
  qed (auto simp: triple_def run_simps run_andthen split: prod.splits sum.splits)
  have "triple ?K ?rest (\<lambda>x s. x = l \<and> ?K s) (\<lambda>_ _. True)"
    by (rule triple_first [OF keeps_basic(3)], simp, rule triple_andthen [OF reg],
        rule triple_andthen [OF roll [OF keeps_on_acquire(1) [OF side]]],
        rule triple_andthen [OF roll [OF keeps_on_acquire(2) [OF side]]],
        rule triple_first [OF keeps_log(1) [OF side]], simp, rule triple_ret, simp)
  moreover have "?K s1" using writeLeaseRecord_ok [OF w] assms(2) by (simp add: dir_get_put)
  ultimately show ?thesis using rest by (blast dest: tripleD)
qed

section \<open>Acquiring\<close>

text \<open>What the selection knows about the files: the leases in memory are those on disk, and the selected
  alias is allocatable.\<close>

definition selected :: "acquire_options \<Rightarrow> selection \<Rightarrow> 'w sys \<Rightarrow> bool" where
  "selected opts sel s \<longleftrightarrow> files_hold (bs_leases (se_state sel)) s \<and> wf_state (se_state sel)
     \<and> ca_hostAlias (se_candidate sel) \<in> set (hc_aliases (bs_host (se_state sel)))
     \<and> allocatable (se_state sel) (se_purpose sel) (se_project sel) (aq_alias opts) (ca_hostAlias (se_candidate sel))
     \<and> Some (pu_id (se_purpose sel)) = aq_purposeId opts \<and> se_purpose sel \<in> set (pc_purposes (se_project sel))
     \<and> bs_pins (se_state sel) = map snd (sy_pins s)
     \<and> (\<exists>v. sy_host s = Some v \<and> validateHostConfig (Some v) = Inr (bs_host (se_state sel)))"

lemma log_side_selected: "log_side (selected opts sel)"
  by (simp add: log_side_def of_files_def selected_def files_hold_def)

lemma getPurpose_Inr: "getPurpose cfg p = Inr purpose \<Longrightarrow> Some (pu_id purpose) = p \<and> purpose \<in> set (pc_purposes cfg)"
  by (auto simp: getPurpose_def split: option.splits dest!: find_SomeD)

lemma acquireSelection_ok:
  assumes "acquireSelection env opts t s = (Inr sel, s')" "lease_files.slots_ok (sy_leases s)"
  shows "selected opts sel s'"
proof -
  from assms(1) obtain lo st cfg f s1 s2 s3 known where load: "loadBrokerState env lo t s = (Inr st, s1)"
    and cfg: "readProjectConfigOrThrow env (aq_projectFilePath opts) s1 = (Inr (cfg, f), s2)"
    and rem: "rememberKnownProject env (bs_projects st) cfg f t s2 = (Inr known, s3)"
    and rest: "andthen (check (getPurpose cfg (aq_purposeId opts))) (\<lambda>purpose.
       andthen (check (select_candidate (en_date env) st purpose cfg (aq_alias opts))) (\<lambda>c.
         ret \<lparr>se_state = st, se_project = cfg, se_projectFile = f, se_purpose = purpose, se_candidate = c\<rparr>)) s3 = (Inr sel, s')"
    unfolding acquireSelection_def by (elim andthen_checkE andthen_InrE) (auto elim: andthen_InrE split: prod.splits)
  from loadBrokerState_ok [OF load assms(2)] have l: "loaded st s1" by simp
  let ?I = "\<lambda>s. sy_leases s = sy_leases s1 \<and> sy_pins s = sy_pins s1 \<and> sy_host s = sy_host s1"
  have side: "log_side ?I" by (rule log_side_leases)
  have "?I s2" by (rule keepsD [OF keeps_readProjectConfig [OF log_sideD(1) [OF side]] _ cfg]) simp
  then have same: "?I s3" by (rule keepsD [OF keeps_log(4) [OF side] _ rem])
  from rest obtain purpose c where p: "getPurpose cfg (aq_purposeId opts) = Inr purpose"
    and c: "select_candidate (en_date env) st purpose cfg (aq_alias opts) = Inr c" and s': "s' = s3"
    and sel: "sel = \<lparr>se_state = st, se_project = cfg, se_projectFile = f, se_purpose = purpose, se_candidate = c\<rparr>"
    by (elim andthen_checkE) (simp add: run_simps)
  have wf: "wf_state st" using l by (simp add: loaded_def)
  from selection_result [OF wf, where dp = "en_date env" and purpose = purpose and cfg = cfg and explicit = "aq_alias opts"] c
  have "ca_hostAlias c \<in> set (hc_aliases (bs_host st))" "allocatable st purpose cfg (aq_alias opts) (ca_hostAlias c)" by simp_all
  with l wf getPurpose_Inr [OF p] same show ?thesis
    unfolding selected_def s' sel loaded_def by (auto simp: files_hold_def)
qed

lemma keeps_selection: "keeps (claims_kept C) (acquireSelection env opts t)"
  unfolding acquireSelection_def
  by (intro keeps_struct keeps_load_claims keeps_readProjectConfig keeps_log log_side_claims claims_of_files)

lemma new_lease_simps [simp]:
  "ls_alias (new_lease fs paths opts sel t i ty a p g) = ha_alias (ca_hostAlias (se_candidate sel))"
  "ls_leaseId (new_lease fs paths opts sel t i ty a p g) = i"
  "ls_simulatorId (new_lease fs paths opts sel t i ty a p g) = ha_simulatorId (ca_hostAlias (se_candidate sel))"
  "ls_purposeId (new_lease fs paths opts sel t i ty a p g) = pu_id (se_purpose sel)"
  by (simp_all add: new_lease_def Let_def)

text \<open>The id drawn for a new lease is not the name of a lease file.\<close>

definition fresh_ids :: "'w env \<Rightarrow> 'w sys \<Rightarrow> bool" where
  "fresh_ids env s \<longleftrightarrow> (\<forall>w a. (fst (en_uuid env w) @ ''.json'', a) \<notin> lease_files.claims (sy_leases s))"

lemma slots_ok_of_claims: "claims_kept C s \<Longrightarrow> lease_files.exclusive C \<Longrightarrow> lease_files.slots_ok (sy_leases s)"
  unfolding claims_kept_def by (rule lease_files.within_slots_ok)

lemma claims_of_slots:
  "lease_files.slots_ok (sy_leases s) \<Longrightarrow> claims_kept (lease_files.claims (sy_leases s)) s
    \<and> lease_files.exclusive (lease_files.claims (sy_leases s))"
  unfolding claims_kept_def by (rule lease_files.slots_ok_within)

lemma claims_subset: "claims_kept C s \<Longrightarrow> lease_files.claims (sy_leases s) \<subseteq> C"
  by (auto simp: claims_kept_def lease_files.within_def lease_files.claims_def)

text \<open>The claim of a new lease on a selected alias collides with no file.\<close>

lemma new_claim:
  assumes "claims_kept C s" "lease_files.exclusive C" "selected opts sel s" "\<And>a. (lease_name l, a) \<notin> C"
    and "ls_alias l = ha_alias (ca_hostAlias (se_candidate sel))"
  shows "claims_kept (insert (lease_claim l) (lease_files.claims (sy_leases s))) s"
    "lease_files.exclusive (insert (lease_claim l) (lease_files.claims (sy_leases s)))"
proof -
  let ?D = "lease_files.claims (sy_leases s)"
  have ok: "lease_files.slots_ok (sy_leases s)" using assms(1,2) by (rule slots_ok_of_claims)
  then have D: "claims_kept ?D s" "lease_files.exclusive ?D" using claims_of_slots by blast+
  then show "claims_kept (insert (lease_claim l) ?D) s"
    unfolding claims_kept_def by (rule_tac lease_files.within_mono) auto
  have "k \<noteq> lease_name l \<and> a \<noteq> ls_alias l" if "(k, a) \<in> ?D" for k a
  proof -
    from that obtain x where x: "dir_get (sy_leases s) k = Some x" "ls_alias x = a" by (auto simp: lease_files.claims_def)
    have "x \<in> set (bs_leases (se_state sel))" using assms(3) x(1) by (auto simp: selected_def files_hold_def)
    moreover have "lease_on (se_state sel) (ls_alias l) = None" using assms(3,5) by (simp add: selected_def allocatable_def)
    ultimately have "ls_alias x \<noteq> ls_alias l"
      using lease_on_None [of "se_state sel" "ls_alias l"] assms(3) by (auto simp: selected_def)
    moreover have "(k, a) \<in> C" using that claims_subset [OF assms(1)] by blast
    ultimately show ?thesis using x(2) assms(4) by blast
  qed
  then show "lease_files.exclusive (insert (lease_claim l) ?D)"
    unfolding lease_claim_def by (intro lease_files.exclusive_insert [OF D(2)]) blast
qed

text \<open>The state before the operation, as far as an acquisition leaves it alone until the lease is written.\<close>

definition before :: "'w sys \<Rightarrow> 'w sys \<Rightarrow> bool" where
  "before s0 s \<longleftrightarrow> claims_kept (lease_files.claims (sy_leases s0)) s \<and> sy_host s = sy_host s0 \<and> sy_pins s = sy_pins s0"

lemma log_side_before: "log_side (before s0)"
  by (simp add: before_def log_side_def of_files_def)

lemma keeps_before_load: "keeps (before s0) (loadBrokerState env opts t)"
proof -
  have "keeps (\<lambda>s. sy_pins s = sy_pins s0 \<and> sy_host s = sy_host s0) (loadBrokerState env opts t)"
    by (rule keeps_load_side) (rule lease_side_files [where P = "\<lambda>p h i. p = sy_pins s0 \<and> h = sy_host s0"])
  with keeps_load_claims [of "lease_files.claims (sy_leases s0)" env opts t] show ?thesis
    by (simp add: keeps_def before_def)
qed

lemma keeps_before_selection: "keeps (before s0) (acquireSelection env opts t)"
  unfolding acquireSelection_def
  by (intro keeps_struct keeps_before_load keeps_readProjectConfig keeps_log log_side_before log_sideD(1))

lemma before_slots_ok: "lease_files.slots_ok (sy_leases s0) \<Longrightarrow> before s0 s \<Longrightarrow> lease_files.slots_ok (sy_leases s)"
  by (auto simp: before_def dest: claims_of_slots slots_ok_of_claims)

text \<open>What a granted lease satisfies.\<close>

definition granted :: "acquire_options \<Rightarrow> 'w sys \<Rightarrow> lease \<Rightarrow> 'w sys \<Rightarrow> bool" where
  "granted opts s0 l s \<longleftrightarrow> lease_files.slots_ok (sy_leases s)
     \<and> dir_get (sy_leases s) (lease_name l) = Some l \<and> dir_get (sy_leases s0) (lease_name l) = None
     \<and> (\<exists>v st h cfg purpose. sy_host s0 = Some v \<and> validateHostConfig (Some v) = Inr (bs_host st)
          \<and> bs_pins st = map snd (sy_pins s0) \<and> wf_state st
          \<and> h \<in> set (hc_aliases (bs_host st)) \<and> ls_alias l = ha_alias h \<and> ls_simulatorId l = ha_simulatorId h
          \<and> purpose \<in> set (pc_purposes cfg) \<and> Some (pu_id purpose) = aq_purposeId opts
          \<and> allocatable st purpose cfg (aq_alias opts) h)"

lemma of_files_granted: "of_files (granted opts s0 l)"
  by (simp add: of_files_def granted_def)

lemma hand_out_triple:
  assumes ok: "lease_files.slots_ok (sy_leases s0)" and new: "\<And>a. (lease_name l, a) \<notin> lease_files.claims (sy_leases s0)"
    and al: "ls_alias l = ha_alias (ca_hostAlias (se_candidate sel))"
      "ls_simulatorId l = ha_simulatorId (ca_hostAlias (se_candidate sel))"
  shows "triple (\<lambda>s. before s0 s \<and> selected opts sel s) (hand_out env st rg l t) (granted opts s0)
     (\<lambda>_ s. lease_files.slots_ok (sy_leases s))"
proof -
  have slots: "lease_files.slots_ok (sy_leases s')"
    if "before s0 s" "selected opts sel s" "hand_out env st rg l t s = (r, s')" for s s' r
  proof -
    have "claims_kept (lease_files.claims (sy_leases s0)) s" using that(1) by (simp add: before_def)
    note c = new_claim [OF this conjunct2 [OF claims_of_slots [OF ok]] that(2) new al(1)]
    have "claims_kept (insert (lease_claim l) (lease_files.claims (sy_leases s))) s'"
      by (rule keepsD [OF keeps_hand_out c(1) that(3)]) simp
    then show ?thesis using c(2) by (rule slots_ok_of_claims)
  qed
  have none: "dir_get (sy_leases s0) (lease_name l) = None"
    using new by (cases "dir_get (sy_leases s0) (lease_name l)") (auto simp: lease_files.claims_def)
  show ?thesis
  proof (rule tripleI)
    fix s l' s'
    assume s: "before s0 s \<and> selected opts sel s" and r: "hand_out env st rg l t s = (Inr l', s')"
    have "dir_ok (sy_leases s)" using before_slots_ok [OF ok] s by (simp add: lease_files.slots_ok_def)
    with hand_out_ok [OF r] have "l' = l" "dir_get (sy_leases s') (lease_name l) = Some l" by simp_all
    moreover from s have "\<exists>v. sy_host s0 = Some v \<and> validateHostConfig (Some v) = Inr (bs_host (se_state sel))"
      unfolding before_def selected_def by metis
    moreover from s have "bs_pins (se_state sel) = map snd (sy_pins s0)" by (simp add: before_def selected_def)
    ultimately show "granted opts s0 l' s'"
      using slots s r none al unfolding granted_def selected_def by blast
  qed (use slots in blast)
qed

lemma acquire_selected_triple:
  assumes ok: "lease_files.slots_ok (sy_leases s0)" and fresh: "fresh_ids env s0"
  shows "triple (\<lambda>s. (before s0 s \<and> selected opts sel s) \<and> (\<exists>w. i = fst (en_uuid env w)))
    (acquire_selected env opts t sel i) (granted opts s0) (\<lambda>_ s. lease_files.slots_ok (sy_leases s))"
proof (cases "\<exists>w. i = fst (en_uuid env w)")
  case False
  then show ?thesis by (auto simp: triple_def)
next
  case True
  let ?E = "\<lambda>_ s. lease_files.slots_ok (sy_leases s)" and ?J = "\<lambda>s. before s0 s \<and> selected opts sel s"
  have side: "log_side ?J" by (rule log_side_conj [OF log_side_before log_side_selected])
  have E: "?J s \<Longrightarrow> ?E e s" for s e using before_slots_ok [OF ok] by simp
  have new: "(lease_name (new_lease fs paths opts sel t i ty a p g), b) \<notin> lease_files.claims (sy_leases s0)" for fs paths ty a p g b
    using fresh True by (auto simp: fresh_ids_def lease_name_def)
  have out: "triple ?J (hand_out env st rg (new_lease fs paths opts sel t i ty a p g) t) (granted opts s0) ?E"
    for st rg fs paths ty a p g
    by (rule hand_out_triple [OF ok new]) simp_all
  have "triple ?J (acquire_selected env opts t sel i) (granted opts s0) ?E"
    unfolding acquire_selected_def Let_def
    by (intro triple_first keeps_basic keeps_group_checks keeps_performSlotReclaim side log_sideD(1) [OF side]
        triple_prod triple_If triple_throw out E)
  then show ?thesis using True by simp
qed

lemma selection_triple:
  assumes "lease_files.slots_ok (sy_leases s0)"
  shows "triple (before s0) (acquireSelection env opts t) (\<lambda>sel s. before s0 s \<and> selected opts sel s) (\<lambda>_. before s0)"
proof (rule tripleI)
  fix s x s'
  assume "before s0 s" "acquireSelection env opts t s = (Inr x, s')"
  then show "before s0 s' \<and> selected opts x s'"
    using acquireSelection_ok before_slots_ok [OF assms] keepsD [OF keeps_before_selection] by blast
qed (blast dest: keepsD [OF keeps_before_selection])

lemma uuid_triple:
  "triple (\<lambda>s. before s0 s \<and> selected opts sel s) (ask (en_uuid env))
     (\<lambda>i s. (before s0 s \<and> selected opts sel s) \<and> (\<exists>w. i = fst (en_uuid env w))) (\<lambda>_. before s0)"
proof (rule tripleI)
  let ?J = "\<lambda>s. before s0 s \<and> selected opts sel s"
  fix s i s'
  assume s: "?J s" and r: "ask (en_uuid env) s = (Inr i, s')"
  have "?J s'" by (rule keepsD [OF keeps_ask [OF log_sideD(1) [OF log_side_conj [OF log_side_before log_side_selected]]] s r])
  moreover have "\<exists>w. i = fst (en_uuid env w)" using r by (auto simp: ask_def split: prod.splits) (metis fst_conv)
  ultimately show "?J s' \<and> (\<exists>w. i = fst (en_uuid env w))" by simp
qed (auto simp: ask_def split: prod.splits)

lemma acquire_triple:
  assumes ok: "lease_files.slots_ok (sy_leases s0)" and fresh: "fresh_ids env s0"
  shows "triple (before s0) (acquireLeaseBroker env opts) (granted opts s0) (\<lambda>_ s. lease_files.slots_ok (sy_leases s))"
proof -
  let ?E = "\<lambda>_ s. lease_files.slots_ok (sy_leases s)" and ?J = "\<lambda>sel s. before s0 s \<and> selected opts sel s"
  note side = log_side_conj [OF log_side_before log_side_selected]
  have E: "?J sel s \<Longrightarrow> ?E e s" for sel s e using before_slots_ok [OF ok] by simp
  have body: "triple (before s0)
    (andthen (nowIso env (aq_now opts)) (\<lambda>t. andthen (acquireSelection env opts t) (\<lambda>sel.
       andthen (ask (en_uuid env)) (\<lambda>i. acquire_selected env opts t sel i)))) (granted opts s0) ?E"
    by (rule triple_first [OF keeps_nowIso [OF log_sideD(1) [OF log_side_before]]], rule before_slots_ok [OF ok], assumption,
        rule triple_andthen [OF triple_weaken [OF selection_triple [OF ok]]], assumption, assumption, erule before_slots_ok [OF ok],
        rule triple_andthen [OF triple_weaken [OF uuid_triple]], assumption, assumption, erule before_slots_ok [OF ok],
        rule acquire_selected_triple [OF ok fresh])
  show ?thesis
    unfolding acquireLeaseBroker_def
  proof (rule triple_first [OF keeps_nowIso [OF log_sideD(1) [OF log_side_before]]])
    show "triple (before s0) (with_lock env Lease_lock (andthen (nowIso env (aq_now opts)) (\<lambda>t.
        andthen (acquireSelection env opts t) (\<lambda>sel. andthen (ask (en_uuid env)) (\<lambda>i. acquire_selected env opts t sel i)))))
      (granted opts s0) ?E"
      by (rule triple_with_lock [OF body log_sideD(1) [OF log_side_before] of_files_granted])
        (auto intro: before_slots_ok [OF ok] simp: of_files_def granted_def)
  qed (rule before_slots_ok [OF ok])
qed

section \<open>The other lease operations\<close>

lemma lease_claim_cong: "ls_leaseId l' = ls_leaseId l \<Longrightarrow> ls_alias l' = ls_alias l \<Longrightarrow> lease_claim l' = lease_claim l"
  by (simp add: lease_claim_def lease_name_def)

text \<open>A lease that was looked up has a claim.\<close>

lemma loadLease_file:
  assumes "loadLeaseByIdOrFile env i f s = (Inr l, s')"
  shows "s' = s \<and> (\<exists>k. dir_get (sy_leases s) k = Some l)"
  using assms unfolding loadLeaseByIdOrFile_def artifact_lease_id_def
  by (auto simp: run_simps run_andthen split: option.splits prod.splits sum.splits artifact.splits if_splits)

lemma loadLease_claim: "claims_kept C s \<Longrightarrow> loadLeaseByIdOrFile env i f s = (Inr l, s') \<Longrightarrow> lease_claim l \<in> C"
  by (auto simp: claims_kept_def lease_files.within_def lease_claim_def dest!: loadLease_file)

lemma keeps_with_lease:
  assumes "\<And>l. lease_claim l \<in> C \<Longrightarrow> keeps (claims_kept C) (k l)"
  shows "keeps (claims_kept C) (andthen (loadLeaseByIdOrFile env i f) k)"
  using keeps_loadLease loadLease_claim assms by (rule keeps_andthen_post)

lemma registered_lease_claim [simp]: "lease_claim (registered_lease fs opts t l a b c d) = lease_claim l"
  by (auto simp: registered_lease_def lease_claim_def lease_name_def Let_def split: option.splits)

lemma keeps_contain_claims:
  "lease_claim l \<in> C \<Longrightarrow> keeps (claims_kept C) (containLeaseRecord env hc rg l opts)"
  by (rule keeps_contain) (simp_all add: keeps_writeLeaseRecord keeps_removeLeaseFiles keeps_log)

lemma keeps_release_files: "lease_claim l \<in> C \<Longrightarrow> keeps (claims_kept C) (release_files env hc rg l t)"
  unfolding release_files_def Let_def
proof (rule keeps_andthen [OF keeps_artifact_allowed], rule keeps_andthen_post [OF keeps_snapshot,
    where Q = "\<lambda>snap. \<forall>y. fn_canonical snap = Some y \<longrightarrow> fn_name snap = lease_name y \<and> lease_claim y \<in> C"])
  fix snap :: file_snapshot
  assume "\<forall>y. fn_canonical snap = Some y \<longrightarrow> fn_name snap = lease_name y \<and> lease_claim y \<in> C"
  then have restore: "keeps (claims_kept C) (restoreLeaseRecordFiles env snap)" by (intro keeps_restore) blast
  show "keeps (claims_kept C) (catching (andthen (removeLeaseArtifactFile env l) (\<lambda>_.
        andthen (unless (rg_aliases rg (ls_alias l) = None) (writeRegistry env hc (released_registry rg l t))) (\<lambda>_.
        andthen (removeCanonicalLeaseRecordFile env l) (\<lambda>_. ret (released_registry rg l t)))))
       (\<lambda>err. andthen (attempt (andthen (restoreLeaseRecordFiles env snap) (\<lambda>_. writeRegistry env hc rg)))
          (\<lambda>_. throw err)))"
    by (intro keeps_struct keeps_removeLeaseFiles keeps_log keeps_attempt restore log_side_claims)
qed (use snapshot_claim in blast)

lemma keeps_lease_ops [keeps_rules]:
  "keeps (claims_kept C) (registerLeaseProcessBroker env ro)" "keeps (claims_kept C) (containLeaseBroker env cq)"
  "keeps (claims_kept C) (releaseLeaseBroker env lq)"
proof -
  note common = keeps_with_lock keeps_nowIso keeps_load_claims keeps_log log_side_claims claims_of_files
  show "keeps (claims_kept C) (registerLeaseProcessBroker env ro)"
    unfolding registerLeaseProcessBroker_def Let_def
    by (intro keeps_andthen [OF keeps_nowIso] keeps_with_lock keeps_with_lease claims_of_files)
      (intro keeps_struct common keeps_group_checks keeps_writeLeaseRecord; simp)
  show "keeps (claims_kept C) (containLeaseBroker env cq)"
    unfolding containLeaseBroker_def
    by (intro keeps_andthen [OF keeps_nowIso] keeps_andthen [OF keeps_basic(3)] keeps_with_lock keeps_with_lease claims_of_files)
      (intro keeps_struct common keeps_contain_claims; auto split: contain_outcome.split intro: keeps_struct)
  show "keeps (claims_kept C) (releaseLeaseBroker env lq)"
    unfolding releaseLeaseBroker_def
    by (intro keeps_andthen [OF keeps_nowIso] keeps_with_lock keeps_with_lease claims_of_files)
      (intro keeps_struct common keeps_release_files keeps_performSlotReclaim; simp)
qed

section \<open>Failed acquisitions\<close>

text \<open>No write or removal fails, links in the file system do not change, and locks can be given back.\<close>

definition disk_works :: "'w env \<Rightarrow> bool" where
  "disk_works env \<longleftrightarrow> (\<forall>f w. fst (en_io env f w) = Io_ok) \<and> (\<forall>w w'. en_fs env w = en_fs env w')
     \<and> (\<forall>k w. fst (en_unlock env k w) = Inr ())"

lemma works_io: "disk_works env \<Longrightarrow> \<exists>w. ask (en_io env f) s = (Inr Io_ok, s\<lparr>sy_world := w\<rparr>)"
  by (cases "en_io env f (sy_world s)") (auto simp: disk_works_def ask_def prod_eq_iff split: prod.splits; metis fst_conv)

lemma works_write: "disk_works env \<Longrightarrow> \<exists>w. writeJsonAtomicRestricted env f g s = (Inr (), g (s\<lparr>sy_world := w\<rparr>))"
  using works_io [of env f s] by (auto simp: writeJsonAtomicRestricted_def run_andthen run_simps)

lemma works_change: "disk_works env \<Longrightarrow> \<exists>w. file_change env f g s = (Inr (), g (s\<lparr>sy_world := w\<rparr>))"
  using works_io [of env f s] by (auto simp: file_change_def run_andthen run_simps)

lemma works_remove:
  "disk_works env \<Longrightarrow> \<exists>w. removeIfExists env f present g s = (Inr (), if present s then g (s\<lparr>sy_world := w\<rparr>) else s)"
  using works_change [of env f g s] by (auto simp: removeIfExists_def run_andthen run_simps)

text \<open>The artifact of the lease may be written.\<close>

definition artifact_allowed :: "'w env \<Rightarrow> lease \<Rightarrow> bool" where
  "artifact_allowed env l \<longleftrightarrow> (\<forall>w. assertLeaseArtifactPathAllowed (en_fs env w) (en_paths env) (ls_artifactPath l) = Inr ())"

lemma works_allowed:
  "disk_works env \<Longrightarrow> assert_artifact_allowed env l s = (Inr u, s') \<Longrightarrow> s' = s \<and> artifact_allowed env l"
  unfolding assert_artifact_allowed_def artifact_allowed_def disk_works_def by (auto simp: run_simps) metis

lemma works_removeFiles:
  assumes "disk_works env" "artifact_allowed env l"
  shows "\<exists>s'. removeLeaseRecordFiles env l s = (Inr (), s') \<and> sy_leases s' = dir_del (lease_name l) (sy_leases s)"
proof -
  have "assert_artifact_allowed env l s = (Inr (), s)"
    using assms(2) by (simp add: assert_artifact_allowed_def artifact_allowed_def run_simps)
  moreover obtain s1 where s1: "removeCanonicalLeaseRecordFile env l s = (Inr (), s1)"
    unfolding removeCanonicalLeaseRecordFile_def using works_remove [OF assms(1)] by blast
  moreover have "\<exists>s2. remove_artifact env l s1 = (Inr (), s2)"
    using works_remove [OF assms(1)]
    by (cases "given (ls_artifactPath l)") (simp_all only: remove_artifact_def option.case run_simps prod.inject, blast+)
  then obtain s2 where s2: "remove_artifact env l s1 = (Inr (), s2)" by blast
  ultimately have "removeLeaseRecordFiles env l s = (Inr (), s2)" using s2
    by (simp add: removeLeaseRecordFiles_def run_andthen)
  moreover have "sy_leases s2 = sy_leases s1" by (rule keepsD [OF keeps_leases(1) refl s2])
  ultimately show ?thesis using removeCanonical_ok [OF s1] by auto
qed

text \<open>Claims without the name of the lease, after its file is gone.\<close>

lemma claims_after_removal:
  assumes "claims_kept (insert (lease_claim l) D) s" "sy_leases s' = dir_del (lease_name l) (sy_leases s)"
  shows "claims_kept D s'"
  using assms by (auto simp: claims_kept_def lease_files.within_def lease_claim_def dir_get_del dir_ok_del split: if_splits)

lemma keeps_claim_weaken: "claims_kept D s \<Longrightarrow> claims_kept (insert c D) s"
  unfolding claims_kept_def by (rule lease_files.within_mono) auto

definition total :: "('w, 'a) eff \<Rightarrow> bool" where
  "total m \<longleftrightarrow> (\<forall>s. \<exists>x s'. m s = (Inr x, s'))"

lemma totalD: "total m \<Longrightarrow> m s \<noteq> (Inl e, s')"
  unfolding total_def by (metis prod.inject sum.distinct(1))

lemma total_on_acquire: "total (maybeResetLeaseOnAcquire env hc rg l)" "total (maybeBootLeaseOnAcquire env st rg l)"
  by (auto simp: total_def maybeResetLeaseOnAcquire_def maybeBootLeaseOnAcquire_def run_catching run_simps Let_def
      split: prod.splits sum.splits option.splits)

lemma total_append: "total (appendEventRecord env e)"
  unfolding total_def using appendEventRecord_Inr by blast

lemma triple_total_ret: "total m \<Longrightarrow> triple P (andthen m (\<lambda>_. ret x)) (\<lambda>_ _. True) E"
  by (auto simp: triple_def run_andthen run_simps totalD split: prod.splits sum.splits)

lemma rollback_triple:
  assumes "disk_works env" "artifact_allowed env l" "keeps (claims_kept (insert (lease_claim l) D)) m" "total m"
  shows "triple (claims_kept (insert (lease_claim l) D)) (or_rollback env hc l t what code m)
     (\<lambda>_. claims_kept (insert (lease_claim l) D)) (\<lambda>_. claims_kept D)"
  unfolding or_rollback_def
proof (rule triple_andthen [where R = "\<lambda>_. claims_kept (insert (lease_claim l) D)"])
  show "triple (claims_kept (insert (lease_claim l) D)) m (\<lambda>_. claims_kept (insert (lease_claim l) D)) (\<lambda>_. claims_kept D)"
    by (rule tripleI) (use assms(3) totalD [OF assms(4)] in \<open>auto dest: keepsD\<close>)
next
  fix r :: "berr \<times> registry + registry"
  have "claims_kept D (snd (rollbackAcquireLeaseFailureSafe env hc rg l t code s))"
    if "claims_kept (insert (lease_claim l) D) s" for rg s
  proof -
    let ?rg = "(update_entry (ls_alias l) (rolled_back t code) rg)\<lparr>rg_updatedAt := t\<rparr>"
    obtain s1 where w: "writeRegistry env hc ?rg s = (Inr (), s1)"
      unfolding writeRegistry_def using works_write [OF assms(1)] by blast
    from keepsD [OF keeps_log(2) [OF log_side_claims] that w] have c: "claims_kept (insert (lease_claim l) D) s1" .
    from works_removeFiles [OF assms(1,2), of s1] obtain s2 where r: "removeLeaseRecordFiles env l s1 = (Inr (), s2)"
      "sy_leases s2 = dir_del (lease_name l) (sy_leases s1)" by blast
    have "rollbackAcquireLeaseFailureSafe env hc rg l t code s = (Inr (), s2)"
      by (simp add: rollbackAcquireLeaseFailureSafe_def attempt_def rollbackAcquireLease_def run_catching run_andthen w r(1))
    with claims_after_removal [OF c r(2)] show ?thesis by simp
  qed
  then show "triple (claims_kept (insert (lease_claim l) D)) (case r of
       Inl (err, rg) \<Rightarrow> andthen (rollbackAcquireLeaseFailureSafe env hc rg l t code) (\<lambda>_. throw (acquire_failed what (ls_alias l) code))
     | Inr rg \<Rightarrow> ret rg) (\<lambda>_. claims_kept (insert (lease_claim l) D)) (\<lambda>_. claims_kept D)"
    by (auto simp: triple_def run_simps run_andthen split: sum.splits prod.splits) (metis snd_conv)+
qed

lemma snapshot_state: "snapshotLeaseRecordFiles l s = (r, s') \<Longrightarrow> s' = s"
  by (auto simp: snapshotLeaseRecordFiles_def run_simps split: if_splits)

lemma works_restore:
  assumes "disk_works env" "fn_canonical snap = None"
  shows "\<exists>s'. restoreLeaseRecordFiles env snap s = (Inr (), s') \<and> sy_leases s' = dir_del (fn_name snap) (sy_leases s)"
proof -
  let ?p = "\<lambda>s. dir_get (sy_leases s) (fn_name snap) \<noteq> None"
  let ?rest = "case fn_artifactPath snap of None \<Rightarrow> ret ()
    | Some p \<Rightarrow> (case fn_artifact snap of Some a \<Rightarrow> writeJsonAtomic env (R_artifact p) (set_artifact p (Some a))
         | None \<Rightarrow> removeIfExists env (R_artifact p) (\<lambda>s. sy_artifacts s p \<noteq> None) (set_artifact p None))"
  obtain s1 where s1: "removeIfExists env (R_lease (fn_name snap)) ?p (del_lease (fn_name snap)) s = (Inr (), s1)"
    using works_remove [OF assms(1)] by blast
  have "\<exists>s2. ?rest s1 = (Inr (), s2)"
    using works_remove [OF assms(1)] works_change [OF assms(1)]
    by (cases "fn_artifactPath snap"; cases "fn_artifact snap")
      (simp_all only: writeJsonAtomic_def option.case run_simps prod.inject, blast+)
  then obtain s2 where s2: "?rest s1 = (Inr (), s2)" by blast
  have "keeps (\<lambda>s. sy_leases s = sy_leases s1) ?rest"
    by (intro keeps_struct keeps_writeJsonAtomic keeps_removeIfExists) (simp_all add: of_files_def set_artifact_def)
  with s2 have "sy_leases s2 = sy_leases s1" by (auto dest: keepsD)
  moreover have "sy_leases s1 = dir_del (fn_name snap) (sy_leases s)"
    using removeIfExists_ok [OF s1] by (auto simp: del_lease_def dir_del_absent)
  moreover have "restoreLeaseRecordFiles env snap s = (Inr (), s2)"
    unfolding restoreLeaseRecordFiles_def assms(2) option.case run_andthen s1 prod.case sum.case by (rule s2)
  ultimately show ?thesis by simp
qed

text \<open>Writing a new lease: when the artifact exists already, the record is removed again.\<close>

lemma write_new_triple:
  assumes "disk_works env" "\<And>a. (lease_name l, a) \<notin> D"
  shows "triple (claims_kept D) (writeLeaseRecord env l False)
     (\<lambda>_ s. claims_kept (insert (lease_claim l) D) s \<and> artifact_allowed env l) (\<lambda>_. claims_kept D)"
proof (rule tripleI)
  fix s x s'
  assume "claims_kept D s" and run: "writeLeaseRecord env l False s = (Inr x, s')"
  then have "claims_kept (insert (lease_claim l) D) s'"
    using keepsD [OF keeps_writeLeaseRecord [of l "insert (lease_claim l) D"] keeps_claim_weaken run] by simp
  moreover from run have "artifact_allowed env l"
    unfolding writeLeaseRecord_def using works_allowed [OF assms(1)] by (blast elim: andthen_InrE)
  ultimately show "claims_kept (insert (lease_claim l) D) s' \<and> artifact_allowed env l" by simp
next
  fix s e s'
  assume s: "claims_kept D s" and run: "writeLeaseRecord env l False s = (Inl e, s')"
  have none: "dir_get (sy_leases s) (lease_name l) = None"
    using s assms(2) by (cases "dir_get (sy_leases s) (lease_name l)") (auto simp: claims_kept_def lease_files.within_def)
  obtain r0 where a: "assert_artifact_allowed env l s = (r0, s)"
    using artifact_allowed_state by (metis surj_pair)
  obtain r1 where sn: "snapshotLeaseRecordFiles l s = (r1, s)"
    using snapshot_state by (metis surj_pair)
  obtain w where w: "writeJsonAtomicRestricted env (R_lease (lease_name l)) (put_lease l) s = (Inr (), put_lease l (s\<lparr>sy_world := w\<rparr>))"
    using works_write [OF assms(1)] by blast
  show "claims_kept D s'"
  proof (cases "isl r0 \<or> isl r1")
    case True
    with a sn run s show ?thesis by (cases r0; cases r1) (auto simp: writeLeaseRecord_def run_andthen)
  next
    case False
    then obtain u snap where r: "r0 = Inr u" "r1 = Inr snap" by (cases r0; cases r1) auto
    let ?s1 = "put_lease l (s\<lparr>sy_world := w\<rparr>)"
    from sn r none have snap: "fn_canonical snap = None" "fn_name snap = lease_name l"
      by (auto simp: snapshotLeaseRecordFiles_def run_simps split: if_splits)
    have c1: "claims_kept (insert (lease_claim l) D) ?s1"
      by (rule claims_put) (use s in \<open>simp_all add: keeps_claim_weaken\<close>)
    let ?art = "case given (ls_artifactPath l) of None \<Rightarrow> ret ()
      | Some p \<Rightarrow> writeJsonNoReplace env (R_artifact p) (\<lambda>s. sy_artifacts s p \<noteq> None) (set_artifact p (Some (Lease_artifact l)))"
    have "catching ?art (\<lambda>e. andthen (attempt (restoreLeaseRecordFiles env snap)) (\<lambda>_. throw e)) ?s1 = (Inl e, s')"
      using run a sn w unfolding writeLeaseRecord_def r if_False by (simp add: run_andthen)
    then obtain e' s2 where art: "?art ?s1 = (Inl e', s2)"
      and undo: "andthen (attempt (restoreLeaseRecordFiles env snap)) (\<lambda>_. throw e') s2 = (Inl e :: berr + unit, s')"
      by (rule catching_InlE)
    have "keeps (claims_kept (insert (lease_claim l) D)) ?art" by (intro keeps_struct keeps_noReplace) simp_all
    then have c2: "claims_kept (insert (lease_claim l) D) s2" using c1 art by (rule keepsD [where w = ?s1])
    from works_restore [OF assms(1) snap(1), of s2] obtain s3 where s3: "restoreLeaseRecordFiles env snap s2 = (Inr (), s3)"
      "sy_leases s3 = dir_del (lease_name l) (sy_leases s2)" unfolding snap(2) by blast
    from s3(1) have "attempt (restoreLeaseRecordFiles env snap) s2 = (Inr (), s3)" by (simp add: attempt_def run_catching)
    with undo have "s' = s3" by (simp add: run_andthen run_simps)
    then show ?thesis using claims_after_removal [OF c2 s3(2)] by simp
  qed
qed

lemma hand_out_failure:
  assumes "disk_works env" "\<And>a. (lease_name l, a) \<notin> D" "rg_aliases rg (ls_alias l) = Some e"
  shows "triple (claims_kept D) (hand_out env st rg l t) (\<lambda>_ _. True) (\<lambda>_. claims_kept D)"
proof -
  let ?D = "claims_kept (insert (lease_claim l) D)"
  let ?rg = "(update_entry (ls_alias l) (leased_entry (ls_leaseId l) t) rg)\<lparr>rg_updatedAt := t\<rparr>"
  have reg: "triple ?D (catching (writeRegistry env (bs_host st) ?rg)
      (\<lambda>err. andthen (removeLeaseRecordFiles env l) (\<lambda>_. throw err))) (\<lambda>_. ?D) (\<lambda>_. claims_kept D)"
  proof (rule triple_catching [where R = "\<lambda>_ _. False"])
    show "triple ?D (writeRegistry env (bs_host st) ?rg) (\<lambda>_. ?D) (\<lambda>_ _. False)"
    proof (rule tripleI)
      fix s e s'
      assume "writeRegistry env (bs_host st) ?rg s = (Inl e, s')"
      then show False using works_write [OF assms(1)] unfolding writeRegistry_def by (metis prod.inject sum.distinct(1))
    qed (blast dest: keepsD [OF keeps_log(2) [OF log_side_claims]])
  qed (auto simp: triple_def)
  show ?thesis
    unfolding hand_out_def Let_def
  proof (rule triple_andthen [OF write_new_triple [OF assms(1,2)]])
    fix u
    show "triple (\<lambda>s. ?D s \<and> artifact_allowed env l)
      (andthen (check (case rg_aliases rg (ls_alias l) of None \<Rightarrow> Inl type_error | Some _ \<Rightarrow> Inr ())) (\<lambda>_.
       andthen (catching (writeRegistry env (bs_host st) ?rg) (\<lambda>err. andthen (removeLeaseRecordFiles env l) (\<lambda>_. throw err))) (\<lambda>_.
       andthen (or_rollback env (bs_host st) l t ''reset'' ''reset-on-acquire-failed''
          (maybeResetLeaseOnAcquire env (bs_host st) ?rg l)) (\<lambda>rg2.
       andthen (or_rollback env (bs_host st) l t ''boot'' ''boot-on-acquire-failed''
          (maybeBootLeaseOnAcquire env st rg2 l)) (\<lambda>rg3.
       andthen (appendEventRecord env (lease_event ''lease.acquired'' l [ls_leaseKind l] t)) (\<lambda>_. ret l))))))
      (\<lambda>_ _. True) (\<lambda>_. claims_kept D)"
    proof (cases "artifact_allowed env l")
      case True
      note roll = rollback_triple [OF assms(1) True]
      have "triple ?D (andthen (appendEventRecord env (lease_event ''lease.acquired'' l [ls_leaseKind l] t)) (\<lambda>_. ret l))
          (\<lambda>_ _. True) (\<lambda>_. claims_kept D)"
        by (rule triple_total_ret [OF total_append])
      then have "triple ?D (andthen (catching (writeRegistry env (bs_host st) ?rg) (\<lambda>err. andthen (removeLeaseRecordFiles env l) (\<lambda>_. throw err))) (\<lambda>_.
       andthen (or_rollback env (bs_host st) l t ''reset'' ''reset-on-acquire-failed''
          (maybeResetLeaseOnAcquire env (bs_host st) ?rg l)) (\<lambda>rg2.
       andthen (or_rollback env (bs_host st) l t ''boot'' ''boot-on-acquire-failed''
          (maybeBootLeaseOnAcquire env st rg2 l)) (\<lambda>rg3.
       andthen (appendEventRecord env (lease_event ''lease.acquired'' l [ls_leaseKind l] t)) (\<lambda>_. ret l)))))
        (\<lambda>_ _. True) (\<lambda>_. claims_kept D)"
        by (intro triple_andthen [OF reg] triple_andthen [OF roll] keeps_on_acquire total_on_acquire log_side_claims)
      with True assms(3) show ?thesis by simp
    qed (simp add: triple_def)
  qed
qed

lemma acquire_selected_failure:
  assumes works: "disk_works env" and ok: "lease_files.slots_ok (sy_leases s0)" and fresh: "fresh_ids env s0"
  shows "triple (\<lambda>s. (before s0 s \<and> selected opts sel s) \<and> (\<exists>w. i = fst (en_uuid env w)))
    (acquire_selected env opts t sel i) (\<lambda>_ _. True) (\<lambda>_. claims_kept (lease_files.claims (sy_leases s0)))"
proof (cases "\<exists>w. i = fst (en_uuid env w)")
  case False
  then show ?thesis by (auto simp: triple_def)
next
  case True
  let ?C = "claims_kept (lease_files.claims (sy_leases s0))" and ?J = "\<lambda>s. before s0 s \<and> selected opts sel s"
  have side: "log_side ?J" by (rule log_side_conj [OF log_side_before log_side_selected])
  have E: "?J s \<Longrightarrow> ?C s" for s by (simp add: before_def)
  have new: "(lease_name (new_lease fs paths opts sel t i ty a p g), b) \<notin> lease_files.claims (sy_leases s0)" for fs paths ty a p g b
    using fresh True by (auto simp: fresh_ids_def lease_name_def)
  have out: "triple ?J (hand_out env (se_state sel) rg (new_lease fs paths opts sel t i ty a p g) t) (\<lambda>_ _. True) (\<lambda>_. ?C)"
    if "rg_aliases rg (ha_alias (ca_hostAlias (se_candidate sel))) \<noteq> None" for rg fs paths ty a p g
  proof -
    from that obtain e where "rg_aliases rg (ls_alias (new_lease fs paths opts sel t i ty a p g)) = Some e"
      unfolding new_lease_simps by blast
    from hand_out_failure [OF works new this] show ?thesis by (rule triple_weaken) (use E in auto)
  qed
  have sweep: "triple ?J (andthen (performSlotReclaim env (se_state sel) actor t (Some as) None False source) (\<lambda>(res, rg).
      if 0 < rr_failureCount res then throw err
      else hand_out env (se_state sel) rg (new_lease fs paths opts sel t i ty a p g) t)) (\<lambda>_ _. True) (\<lambda>_. ?C)"
    for actor as source err fs paths ty a p g
  proof (rule triple_andthen [where R = "\<lambda>(res, rg) s. ?J s \<and> rg_aliases rg (ha_alias (ca_hostAlias (se_candidate sel))) \<noteq> None"])
    show "triple ?J (performSlotReclaim env (se_state sel) actor t (Some as) None False source)
      (\<lambda>(res, rg) s. ?J s \<and> rg_aliases rg (ha_alias (ca_hostAlias (se_candidate sel))) \<noteq> None) (\<lambda>_. ?C)"
    proof (rule tripleI)
      fix s x s'
      assume s: "?J s" and r: "performSlotReclaim env (se_state sel) actor t (Some as) None False source s = (Inr x, s')"
      obtain res rg where x: "x = (res, rg)" by fastforce
      from s have "rg_aliases (bs_registry (se_state sel)) (ha_alias (ca_hostAlias (se_candidate sel))) \<noteq> None"
        by (auto simp: selected_def allocatable_def)
      with performSlotReclaim_ok [OF r [unfolded x]] have "rg_aliases rg (ha_alias (ca_hostAlias (se_candidate sel))) \<noteq> None"
        by (metis option.rel_distinct(2) option.exhaust)
      with keepsD [OF keeps_performSlotReclaim [OF side] s r] x
      show "(case x of (res, rg) \<Rightarrow> \<lambda>s. ?J s \<and> rg_aliases rg (ha_alias (ca_hostAlias (se_candidate sel))) \<noteq> None) s'" by simp
    qed (use keepsD [OF keeps_performSlotReclaim [OF side]] E in blast)
  next
    fix x :: "reclaim_result \<times> registry"
    show "triple (case x of (res, rg) \<Rightarrow> \<lambda>s. ?J s \<and> rg_aliases rg (ha_alias (ca_hostAlias (se_candidate sel))) \<noteq> None)
      (case x of (res, rg) \<Rightarrow> if 0 < rr_failureCount res then throw err
        else hand_out env (se_state sel) rg (new_lease fs paths opts sel t i ty a p g) t) (\<lambda>_ _. True) (\<lambda>_. ?C)"
      using out E by (cases x; cases "rg_aliases (snd x) (ha_alias (ca_hostAlias (se_candidate sel))) = None")
        (auto simp: triple_def run_simps)
  qed
  have "triple ?J (acquire_selected env opts t sel i) (\<lambda>_ _. True) (\<lambda>_. ?C)"
    unfolding acquire_selected_def Let_def
    by (intro triple_first keeps_basic keeps_group_checks side log_sideD(1) [OF side] sweep) (use E in auto)
  then show ?thesis using True by simp
qed

lemma acquire_failure_triple:
  assumes works: "disk_works env" and ok: "lease_files.slots_ok (sy_leases s0)" and fresh: "fresh_ids env s0"
  shows "triple (before s0) (acquireLeaseBroker env opts) (\<lambda>_ _. True) (\<lambda>_. claims_kept (lease_files.claims (sy_leases s0)))"
proof -
  let ?C = "claims_kept (lease_files.claims (sy_leases s0))" and ?J = "\<lambda>sel s. before s0 s \<and> selected opts sel s"
  have C: "before s0 s \<Longrightarrow> ?C s" for s by (simp add: before_def)
  have body: "triple (before s0)
    (andthen (nowIso env (aq_now opts)) (\<lambda>t. andthen (acquireSelection env opts t) (\<lambda>sel.
       andthen (ask (en_uuid env)) (\<lambda>i. acquire_selected env opts t sel i)))) (\<lambda>_ _. True) (\<lambda>_. ?C)"
    by (rule triple_first [OF keeps_nowIso [OF log_sideD(1) [OF log_side_before]]], rule C, assumption,
        rule triple_andthen [OF triple_weaken [OF selection_triple [OF ok]]], assumption, assumption, erule C,
        rule triple_andthen [OF triple_weaken [OF uuid_triple]], assumption, assumption, erule C,
        rule acquire_selected_failure [OF works ok fresh])
  have unlock: "triple (before s0) (finally_do m (lift (en_unlock env k))) (\<lambda>_ _. True) (\<lambda>_. ?C)"
    if "triple (before s0) m (\<lambda>_ _. True) (\<lambda>_. ?C)" for m :: "('a sys, lease) eff" and k
  proof (rule tripleI)
    fix s e s'
    assume s: "before s0 s" and r: "finally_do m (lift (en_unlock env k)) s = (Inl e, s')"
    obtain r1 s1 where m: "m s = (r1, s1)" by fastforce
    have u: "fst (lift (en_unlock env k) s1) = Inr ()"
      using works by (auto simp: lift_def disk_works_def split: prod.splits) (metis fst_conv)
    with r m have "r1 = Inl e" "snd (lift (en_unlock env k) s1) = s'"
      by (auto simp: finally_do_def split: prod.splits sum.splits)
    with tripleD(2) [OF that s] m show "?C s'"
      using keepsD [OF keeps_lift [OF claims_of_files]] by (metis prod.collapse)
  qed simp
  show ?thesis
    unfolding acquireLeaseBroker_def with_lock_def
    by (intro triple_first keeps_nowIso keeps_lift log_sideD(1) [OF log_side_before] unlock body C)
qed

section \<open>Releasing\<close>

lemma release_files_ok:
  assumes "release_files env hc rg l t s = (Inr rg', s')"
  shows "rg' = released_registry rg l t \<and> dir_get (sy_leases s') (lease_name l) = None
    \<and> (rg_aliases rg (ls_alias l) \<noteq> None \<longrightarrow> sy_registry s' = Some (registry_text hc rg'))
    \<and> (rg_aliases rg (ls_alias l) = None \<longrightarrow> sy_registry s' = sy_registry s)"
proof -
  let ?w = "unless (rg_aliases rg (ls_alias l) = None) (writeRegistry env hc (released_registry rg l t))"
  from assms obtain u sa where "assert_artifact_allowed env l s = (Inr u, sa)"
    and r: "andthen (snapshotLeaseRecordFiles l) (\<lambda>snap. catching
       (andthen (removeLeaseArtifactFile env l) (\<lambda>_. andthen ?w (\<lambda>_.
        andthen (removeCanonicalLeaseRecordFile env l) (\<lambda>_. ret (released_registry rg l t)))))
       (\<lambda>err. andthen (attempt (andthen (restoreLeaseRecordFiles env snap) (\<lambda>_. writeRegistry env hc rg)))
          (\<lambda>_. throw err))) sa = (Inr rg', s')"
    unfolding release_files_def Let_def by (rule andthen_InrE)
  then have sa: "sa = s" by (blast dest: artifact_allowed_state)
  from r obtain snap sb where sn: "snapshotLeaseRecordFiles l sa = (Inr snap, sb)"
    and r: "catching (andthen (removeLeaseArtifactFile env l) (\<lambda>_. andthen ?w (\<lambda>_.
        andthen (removeCanonicalLeaseRecordFile env l) (\<lambda>_. ret (released_registry rg l t)))))
       (\<lambda>err. andthen (attempt (andthen (restoreLeaseRecordFiles env snap) (\<lambda>_. writeRegistry env hc rg)))
          (\<lambda>_. throw err)) sb = (Inr rg', s')"
    by (rule andthen_InrE)
  from catching_rethrow [OF r] snapshot_state [OF sn] have "andthen (removeLeaseArtifactFile env l) (\<lambda>_. andthen ?w (\<lambda>_.
       andthen (removeCanonicalLeaseRecordFile env l) (\<lambda>_. ret (released_registry rg l t)))) s = (Inr rg', s')"
    unfolding sa by simp
  then obtain u1 s1 where a: "removeLeaseArtifactFile env l s = (Inr u1, s1)" and r: "andthen ?w (\<lambda>_.
       andthen (removeCanonicalLeaseRecordFile env l) (\<lambda>_. ret (released_registry rg l t))) s1 = (Inr rg', s')"
    by (rule andthen_InrE)
  from r obtain u2 s2 where w: "?w s1 = (Inr u2, s2)"
    and r: "andthen (removeCanonicalLeaseRecordFile env l) (\<lambda>_. ret (released_registry rg l t)) s2 = (Inr rg', s')"
    by (rule andthen_InrE)
  from r obtain u3 s3 where c: "removeCanonicalLeaseRecordFile env l s2 = (Inr u3, s3)"
    and r: "ret (released_registry rg l t) s3 = (Inr rg', s')" by (rule andthen_InrE)
  from r c have rg': "rg' = released_registry rg l t" and c: "removeCanonicalLeaseRecordFile env l s2 = (Inr u3, s')"
    by (simp_all add: run_simps)
  have "keeps (\<lambda>x. sy_registry x = sy_registry s) (removeLeaseArtifactFile env l)"
    unfolding removeLeaseArtifactFile_def remove_artifact_def
    by (intro keeps_struct keeps_artifact_allowed keeps_removeIfExists) (simp_all add: of_files_def set_artifact_def)
  from this refl a have ra: "sy_registry s1 = sy_registry s" by (rule keepsD)
  have "keeps (\<lambda>x. sy_registry x = sy_registry s2) (removeCanonicalLeaseRecordFile env l)"
    unfolding removeCanonicalLeaseRecordFile_def by (intro keeps_removeIfExists) (simp_all add: of_files_def del_lease_def)
  from this refl c have rc: "sy_registry s' = sy_registry s2" by (rule keepsD)
  show ?thesis
    using removeCanonical_ok [OF c] w rg' ra rc
    by (auto simp: dir_get_del unless_def run_simps split: if_splits dest: writeRegistry_ok)
qed

text \<open>The undo of a failed release.\<close>

definition undo_release :: "'w env \<Rightarrow> host_config \<Rightarrow> registry \<Rightarrow> file_snapshot \<Rightarrow> ('w sys, unit) eff" where
  "undo_release env hc rg snap = andthen (restoreLeaseRecordFiles env snap) (\<lambda>_. writeRegistry env hc rg)"

lemma restore_ok:
  assumes "restoreLeaseRecordFiles env snap s = (Inr u, s')" "fn_canonical snap = Some l" "dir_ok (sy_leases s)"
  shows "dir_get (sy_leases s') (fn_name snap) = Some l
    \<and> (\<forall>p. fn_artifactPath snap = Some p \<longrightarrow> sy_artifacts s' p = fn_artifact snap)"
proof -
  let ?art = "case fn_artifactPath snap of None \<Rightarrow> ret () | Some p \<Rightarrow>
      (case fn_artifact snap of Some a \<Rightarrow> writeJsonAtomic env (R_artifact p) (set_artifact p (Some a))
       | None \<Rightarrow> removeIfExists env (R_artifact p) (\<lambda>s. sy_artifacts s p \<noteq> None) (set_artifact p None))"
  from assms(1) obtain v s1 where w: "writeJsonAtomicRestricted env (R_lease (fn_name snap))
        (\<lambda>s. s\<lparr>sy_leases := dir_put (fn_name snap) l (sy_leases s)\<rparr>) s = (Inr v, s1)" and art: "?art s1 = (Inr u, s')"
    unfolding restoreLeaseRecordFiles_def assms(2) option.case by (rule andthen_InrE)
  have "keeps (\<lambda>x. sy_leases x = sy_leases s1) ?art"
    by (intro keeps_struct keeps_writeJsonAtomic keeps_removeIfExists) (simp_all add: of_files_def set_artifact_def)
  with art have "sy_leases s' = sy_leases s1" by (auto dest: keepsD)
  moreover have "sy_artifacts s' p = fn_artifact snap" if "fn_artifactPath snap = Some p" for p
    using art that by (cases "fn_artifact snap")
      (auto simp: writeJsonAtomic_def set_artifact_def dest!: file_change_ok removeIfExists_ok)
  ultimately show ?thesis using restricted_ok [OF w] assms(3) by (auto simp: dir_get_put)
qed

lemma release_files_failure:
  assumes run: "release_files env hc rg l t s = (Inl e, s')" and ok: "lease_files.slots_ok (sy_leases s)"
    and l: "dir_get (sy_leases s) (lease_name l) = Some l"
  shows "s' = s \<or> (\<exists>snap s1 r. undo_release env hc rg snap s1 = (r, s')
    \<and> (r = Inr () \<longrightarrow> dir_get (sy_leases s') (lease_name l) = Some l \<and> sy_registry s' = Some (registry_text hc rg)
        \<and> (\<forall>p. given (ls_artifactPath l) = Some p \<longrightarrow> sy_artifacts s' p = sy_artifacts s p)))"
proof -
  obtain r0 where a: "assert_artifact_allowed env l s = (r0, s)" using artifact_allowed_state by (metis surj_pair)
  obtain r1 where sn: "snapshotLeaseRecordFiles l s = (r1, s)" using snapshot_state by (metis surj_pair)
  let ?work = "andthen (removeLeaseArtifactFile env l) (\<lambda>_.
        andthen (unless (rg_aliases rg (ls_alias l) = None) (writeRegistry env hc (released_registry rg l t))) (\<lambda>_.
        andthen (removeCanonicalLeaseRecordFile env l) (\<lambda>_. ret (released_registry rg l t))))"
  show ?thesis
  proof (cases "isl r0 \<or> isl r1")
    case True
    with a sn run show ?thesis by (cases r0; cases r1) (auto simp: release_files_def run_andthen Let_def)
  next
    case False
    then obtain u snap where r: "r0 = Inr u" "r1 = Inr snap" by (cases r0; cases r1) auto
    have "catching ?work (\<lambda>err. andthen (attempt (undo_release env hc rg snap)) (\<lambda>_. throw err)) s = (Inl e, s')"
      using run a sn unfolding release_files_def Let_def r undo_release_def by (simp add: run_andthen)
    then obtain e1 s1 where w: "?work s = (Inl e1, s1)"
      and undo: "andthen (attempt (undo_release env hc rg snap)) (\<lambda>_. throw e1) s1 = (Inl e :: berr + registry, s')"
      by (rule catching_InlE)
    obtain r2 s2 where r2: "undo_release env hc rg snap s1 = (r2, s2)" by fastforce
    then have "\<exists>v. attempt (undo_release env hc rg snap) s1 = (Inr v, s2)"
      by (cases r2) (auto simp: attempt_def run_catching run_simps)
    with undo have s2: "s2 = s'" by (auto simp: run_andthen run_simps)
    from sn r l have snap: "fn_canonical snap = Some l" "fn_name snap = lease_name l"
      "fn_artifactPath snap = given (ls_artifactPath l)" "fn_artifact snap = Option.bind (given (ls_artifactPath l)) (sy_artifacts s)"
      by (auto simp: snapshotLeaseRecordFiles_def run_simps split: if_splits)
    let ?C = "claims_kept (lease_files.claims (sy_leases s))"
    have "keeps ?C ?work" by (intro keeps_struct keeps_removeLeaseFiles keeps_log log_side_claims)
    then have "?C s1" using conjunct1 [OF claims_of_slots [OF ok]] w by (rule keepsD)
    then have dir: "dir_ok (sy_leases s1)" by (simp add: claims_kept_def lease_files.within_def)
    have "dir_get (sy_leases s') (lease_name l) = Some l \<and> sy_registry s' = Some (registry_text hc rg)
        \<and> (\<forall>p. given (ls_artifactPath l) = Some p \<longrightarrow> sy_artifacts s' p = sy_artifacts s p)" if "r2 = Inr ()"
    proof -
      from r2 that s2 obtain v s3 where re: "restoreLeaseRecordFiles env snap s1 = (Inr v, s3)"
        and w2: "writeRegistry env hc rg s3 = (Inr (), s')" unfolding undo_release_def by (auto elim: andthen_InrE)
      have "keeps (\<lambda>x. sy_leases x = sy_leases s3 \<and> sy_artifacts x = sy_artifacts s3) (writeRegistry env hc rg)"
        by (rule keeps_log(2), rule log_side_leases [where P = "\<lambda>x _ _ y. x = sy_leases s3 \<and> y = sy_artifacts s3"])
      from this _ w2 have "sy_leases s' = sy_leases s3 \<and> sy_artifacts s' = sy_artifacts s3" by (rule keepsD) simp
      with restore_ok [OF re snap(1) dir] snap writeRegistry_ok [OF w2] show ?thesis by simp
    qed
    with r2 s2 show ?thesis by blast
  qed
qed

lemma with_lock_InrE:
  assumes "with_lock env k m s = (Inr x, s')"
  obtains w s2 w' where "m (s\<lparr>sy_world := w\<rparr>) = (Inr x, s2)" "s' = s2\<lparr>sy_world := w'\<rparr>"
  using assms by (auto simp: with_lock_def run_andthen finally_do_def lift_def split: prod.splits sum.splits)

lemma nowIso_InrE:
  assumes "andthen (nowIso env now) k s = (Inr x, s')"
  obtains t w where "k t (s\<lparr>sy_world := w\<rparr>) = (Inr x, s')"
proof (cases now)
  case None
  with assms that show ?thesis by (auto simp: nowIso_def ask_def run_andthen split: prod.splits)
next
  case (Some t)
  with assms that [of t "sy_world s"] show ?thesis by (simp add: nowIso_def)
qed

text \<open>The entries that a sweep leaves name the same leases.\<close>

lemma sweep_names:
  assumes "performSlotReclaim env st actor t as acq persist source s = (Inr (res, rg), s')"
    and "rg_aliases rg a = Some e'"
  shows "\<exists>e. rg_aliases (bs_registry st) a = Some e \<and> re_activeLeaseId e' = re_activeLeaseId e"
proof -
  from performSlotReclaim_ok [OF assms(1)] assms(2)
  have "rel_option (sweep_outcome (rr_failureCount res \<noteq> 0) acq st t a) (rg_aliases (bs_registry st) a) (Some e')" by metis
  then show ?thesis by (auto simp: option_rel_Some2 elim: sweep_outcome_cases) (auto simp: sweep_outcome_def)
qed

lemma sweep_registry:
  assumes "performSlotReclaim env st actor t as acq persist source s = (Inr (res, rg), s')"
  shows "sy_registry s' = Some (registry_text (bs_host st) rg) \<or> sy_registry s' = sy_registry s \<and> rg = bs_registry st"
proof (cases "rr_reclaimedCount res = 0 \<and> rr_failureCount res = 0 \<and> \<not> persist \<and> rg = bs_registry st")
  case True
  let ?I = "\<lambda>x. sy_registry x = sy_registry s"
  let ?policy = "resolveSlotReclaimPolicy (map_option raw_of (hc_slotReclaim (bs_host st)))"
  let ?start = "\<lparr>sw_eligible = 0, sw_reclaimed = 0, sw_held = 0, sw_failed = 0, sw_registry = bs_registry st, sw_devices = None\<rparr>"
  let ?loop = "if sp_enabled ?policy then fold_eff (sweep_alias env ?policy actor acq source t st)
      (nullish as (map ha_alias (hc_aliases (bs_host st)))) ?start else ret ?start"
  have files: "of_files ?I" by (simp add: of_files_def)
  have event: "keeps ?I (appendEventRecord env e)" for e by (rule keeps_appendEvent [OF files]) simp_all
  have loop: "keeps ?I ?loop" by (intro keeps_If keeps_basic keeps_sweep_loop files event)
  from assms obtain w s1 where l: "?loop s = (Inr w, s1)" and rest: "(let res = \<lparr>rr_completedAt = t, rr_eligibleCount = sw_eligible w,
        rr_failureCount = sw_failed w, rr_reclaimedCount = sw_reclaimed w, rr_skippedHeldCount = sw_held w, rr_source = source,
        rr_status = slotReclaimStatus (sw_reclaimed w) (sw_failed w)\<rparr> in
      if 0 < sw_reclaimed w \<or> 0 < sw_failed w \<or> persist then
        let rg = (sw_registry w)\<lparr>rg_lastReclaimResult := Some res, rg_updatedAt := t\<rparr> in
        andthen (writeRegistry env (bs_host st) rg) (\<lambda>_. ret (res, rg))
      else ret (res, sw_registry w)) s1 = (Inr (res, rg), s')"
    unfolding performSlotReclaim_def Let_def by (elim andthen_InrE)
  from loop refl l have "sy_registry s1 = sy_registry s" by (rule keepsD)
  moreover have "s' = s1" using rest True by (auto simp: Let_def run_simps elim!: andthen_InrE split: if_splits)
  ultimately show ?thesis using True by simp
next
  case False
  with performSlotReclaim_ok [OF assms] show ?thesis by blast
qed

lemma release_ok:
  assumes "releaseLeaseBroker env opts s = (Inr (i, t), s')" "lease_files.slots_ok (sy_leases s)"
  shows "\<exists>l hc rg. dir_get (sy_leases s) (i @ ''.json'') = Some l \<and> ls_leaseId l = i
    \<and> dir_get (sy_leases s') (i @ ''.json'') = None
    \<and> sy_registry s' = Some (registry_text hc rg) \<and> (\<forall>e. rg_aliases rg (ls_alias l) = Some e \<longrightarrow> re_activeLeaseId e = None)"
proof -
  let ?after = "\<lambda>t l st rg. andthen (appendEventRecord env ((lease_event ''lease.released'' l [] t)
          \<lparr>ev_actorType := Some (nullish (lq_actorType opts) (ls_actorType l))\<rparr>)) (\<lambda>_.
      andthen (if rg_aliases rg (ls_alias l) \<noteq> None
          then andthen (performSlotReclaim env
                 (st\<lparr>bs_leasesByAlias := filter (\<lambda>(a, _). a \<noteq> ls_alias l) (bs_leasesByAlias st), bs_registry := rg\<rparr>)
                 (lq_actorType opts) t (Some [ls_alias l]) None False ''lease-release'') (\<lambda>_. ret ())
          else ret ()) (\<lambda>_. ret (ls_leaseId l, t)))"
  let ?body = "\<lambda>t. andthen (loadLeaseByIdOrFile env (lq_leaseId opts) (lq_leaseFile opts)) (\<lambda>l.
      andthen (check (stateLoadOptions (lq_termWaitMs opts) (lq_skipLeaseIds opts @ [ls_leaseId l]) (lq_inventory opts) (lq_now opts))) (\<lambda>lo.
      andthen (loadBrokerState env lo t) (\<lambda>st.
      andthen (release_files env (bs_host st) (bs_registry st) l t) (?after t l st))))"
  from assms(1) obtain t0 w0 where "with_lock env Lease_lock (andthen (nowIso env (lq_now opts)) ?body) (s\<lparr>sy_world := w0\<rparr>) = (Inr (i, t), s')"
    unfolding releaseLeaseBroker_def by (rule nowIso_InrE)
  then obtain w1 s9 w9 where "andthen (nowIso env (lq_now opts)) ?body (s\<lparr>sy_world := w0\<rparr>\<lparr>sy_world := w1\<rparr>) = (Inr (i, t), s9)"
    and s': "s' = s9\<lparr>sy_world := w9\<rparr>" by (rule with_lock_InrE)
  then obtain t1 w2 where b: "?body t1 (s\<lparr>sy_world := w0\<rparr>\<lparr>sy_world := w1\<rparr>\<lparr>sy_world := w2\<rparr>) = (Inr (i, t), s9)"
    by (elim nowIso_InrE)
  let ?s = "s\<lparr>sy_world := w2\<rparr>"
  from b obtain l sl where l: "loadLeaseByIdOrFile env (lq_leaseId opts) (lq_leaseFile opts) ?s = (Inr l, sl)"
    and b: "andthen (check (stateLoadOptions (lq_termWaitMs opts) (lq_skipLeaseIds opts @ [ls_leaseId l]) (lq_inventory opts) (lq_now opts))) (\<lambda>lo.
      andthen (loadBrokerState env lo t1) (\<lambda>st.
      andthen (release_files env (bs_host st) (bs_registry st) l t1) (?after t1 l st))) sl = (Inr (i, t), s9)"
    by (simp, rule_tac andthen_InrE)
  from loadLease_file [OF l] obtain k where sl: "sl = ?s" and k: "dir_get (sy_leases s) k = Some l" by auto
  from b obtain lo where b: "andthen (loadBrokerState env lo t1) (\<lambda>st.
      andthen (release_files env (bs_host st) (bs_registry st) l t1) (?after t1 l st)) sl = (Inr (i, t), s9)"
    by (rule andthen_checkE)
  from b obtain st s1 where load: "loadBrokerState env lo t1 ?s = (Inr st, s1)"
    and b: "andthen (release_files env (bs_host st) (bs_registry st) l t1) (?after t1 l st) s1 = (Inr (i, t), s9)"
    unfolding sl by (rule andthen_InrE)
  from b obtain rg s2 where rel: "release_files env (bs_host st) (bs_registry st) l t1 s1 = (Inr rg, s2)"
    and b: "?after t1 l st rg s2 = (Inr (i, t), s9)" by (rule andthen_InrE)
  from b obtain u s3 where ev: "appendEventRecord env ((lease_event ''lease.released'' l [] t1)
          \<lparr>ev_actorType := Some (nullish (lq_actorType opts) (ls_actorType l))\<rparr>) s2 = (Inr u, s3)"
    and b: "andthen (if rg_aliases rg (ls_alias l) \<noteq> None
          then andthen (performSlotReclaim env
                 (st\<lparr>bs_leasesByAlias := filter (\<lambda>(a, _). a \<noteq> ls_alias l) (bs_leasesByAlias st), bs_registry := rg\<rparr>)
                 (lq_actorType opts) t1 (Some [ls_alias l]) None False ''lease-release'') (\<lambda>_. ret ())
          else ret ()) (\<lambda>_. ret (ls_leaseId l, t1)) s3 = (Inr (i, t), s9)" by (rule andthen_InrE)
  let ?st = "st\<lparr>bs_leasesByAlias := filter (\<lambda>(a, _). a \<noteq> ls_alias l) (bs_leasesByAlias st), bs_registry := rg\<rparr>"
  let ?sweep = "performSlotReclaim env ?st (lq_actorType opts) t1 (Some [ls_alias l]) None False ''lease-release''"
  from b obtain u2 where sweep: "(if rg_aliases rg (ls_alias l) \<noteq> None
          then andthen ?sweep (\<lambda>_. ret ()) else ret ()) s3 = (Inr u2, s9)" and id: "i = ls_leaseId l"
    by (rule andthen_InrE) (auto simp: run_simps)
  have name: "lease_name l = i @ ''.json''" by (simp add: lease_name_def id)
  have found: "dir_get (sy_leases s) (i @ ''.json'') = Some l"
    using k assms(2) unfolding lease_files.slots_ok_def name [symmetric] by metis
  note rel = release_files_ok [OF rel]
  have gone: "log_side (\<lambda>x. dir_get (sy_leases x) (lease_name l) = None)"
    by (rule log_side_leases [where P = "\<lambda>x _ _ _. dir_get x (lease_name l) = None"])
  from keeps_log(1) [OF gone] conjunct1 [OF conjunct2 [OF rel]] ev
  have g3: "dir_get (sy_leases s3) (lease_name l) = None" by (rule keepsD)
  have "keeps (\<lambda>x. dir_get (sy_leases x) (lease_name l) = None)
      (if rg_aliases rg (ls_alias l) \<noteq> None then andthen ?sweep (\<lambda>_. ret ()) else ret ())"
    by (intro keeps_struct keeps_performSlotReclaim gone)
  from this g3 sweep have g9: "dir_get (sy_leases s9) (lease_name l) = None" by (rule keepsD)
  have "keeps (\<lambda>x. sy_registry x = sy_registry s2) (appendEventRecord env e)" for e
    by (rule keeps_appendEvent) (simp_all add: of_files_def)
  from this refl ev have r3: "sy_registry s3 = sy_registry s2" by (rule keepsD)
  have "loaded st s1" using loadBrokerState_ok [OF load] assms(2) by simp
  then have r1: "sy_registry s1 = Some (registry_text (bs_host st) (bs_registry st))" by (simp add: loaded_def)
  have free: "re_activeLeaseId e = None" if "rg_aliases rg (ls_alias l) = Some e" for e
    using that rel by (auto simp: released_registry_def update_entry_def markAliasLeaseReleased_frame split: if_splits)
  have "\<exists>rg9. sy_registry s9 = Some (registry_text (bs_host st) rg9)
      \<and> (\<forall>e. rg_aliases rg9 (ls_alias l) = Some e \<longrightarrow> re_activeLeaseId e = None)"
  proof (cases "rg_aliases rg (ls_alias l) = None")
    case True
    with rel have "rg = bs_registry st" by (auto simp: released_registry_def update_entry_def split: if_splits)
    with True sweep rel r1 r3 show ?thesis by (auto simp: run_simps released_registry_def)
  next
    case False
    with rel have "rg_aliases (bs_registry st) (ls_alias l) \<noteq> None"
      by (auto simp: released_registry_def update_entry_def split: if_splits)
    with rel r3 have r3: "sy_registry s3 = Some (registry_text (bs_host st) rg)" by simp
    from False sweep obtain res rg9 where sw: "?sweep s3 = (Inr (res, rg9), s9)"
      by (auto simp: run_simps elim!: andthen_InrE)
    from sweep_registry [OF sw] r3 have "sy_registry s9 = Some (registry_text (bs_host st) rg9)" by auto
    moreover have "re_activeLeaseId e = None" if "rg_aliases rg9 (ls_alias l) = Some e" for e
      using sweep_names [OF sw that] free by auto
    ultimately show ?thesis by blast
  qed
  with found g9 show ?thesis unfolding s' name id by auto
qed

section \<open>Properties\<close>


definition plain_acquire :: acquire_options where
  "plain_acquire = \<lparr>aq_now = None, aq_termWaitMs = None, aq_skipLeaseIds = [], aq_inventory = None, aq_projectFilePath = Some ''/p.json'',
     aq_purposeId = Some ''build'', aq_alias = None, aq_actorType = None, aq_actorId = None, aq_clientPid = None,
     aq_ownerPid = None, aq_ownerPgid = None, aq_sessionDir = None, aq_leaseFile = None, aq_evidenceDir = None,
     aq_jobId = None, aq_jobKind = None, aq_memoryCeilingBytes = None, aq_monitorIntervalMs = None,
     aq_simulatorProcessNames = None\<rparr>"

lemma plain_acquire_fields:
  "aq_now plain_acquire = None" "aq_actorType plain_acquire = None" "aq_actorId plain_acquire = None"
  "aq_clientPid plain_acquire = None" "aq_ownerPid plain_acquire = None" "aq_ownerPgid plain_acquire = None"
  "aq_sessionDir plain_acquire = None" "aq_leaseFile plain_acquire = None"
  by (simp_all add: plain_acquire_def)

lemma plain_slots: "lease_files.slots_ok (sy_leases (plain_sys [] []))" "fresh_ids plain_env (plain_sys [] [])"
  by (simp_all add: lease_files.slots_ok_def fresh_ids_def lease_files.claims_def plain_sys_def dir_get_def dir_ok_def)

text \<open>A host on which nothing but a boot can fail.\<close>

definition quiet :: "unit env \<Rightarrow> bool" where
  "quiet env \<longleftrightarrow> en_now env = Pair ''t'' \<and> en_uuid env = Pair ''u'' \<and> en_io env = (\<lambda>_. Pair Io_ok)
     \<and> en_lock env = (\<lambda>_. ret ()) \<and> en_unlock env = (\<lambda>_. ret ()) \<and> en_parentPid env = 6"

lemma quiet_runs:
  assumes "quiet env"
  shows "nowIso env None = ret ''t''" "ask (en_uuid env) = ret ''u''" "with_lock env k m = m"
    "writeJsonAtomicRestricted env f g = update g"
  using assms
  by (auto simp: fun_eq_iff quiet_def nowIso_def ask_def run_simps with_lock_def lift_def finally_do_def
      writeJsonAtomicRestricted_def run_andthen split: prod.splits)

lemma quiet_boot:
  assumes "quiet env" "ls_artifactPath l = None" "ls_resetPolicy l = ''none''" "rg_aliases rg (ls_alias l) = Some e"
    and "re_powerState e = Shutdown" "List.find (\<lambda>h. ha_alias h = ls_alias l) (hc_aliases (bs_host st)) = Some h"
  shows "fst (hand_out env st rg l t s) = (case fst (sc_boot (en_simctl env) (ha_simulatorId h) ()) of
    Inr u \<Rightarrow> Inr l | Inl err \<Rightarrow> Inl (acquire_failed ''boot'' (ls_alias l) ''boot-on-acquire-failed''))"
proof -
  note q = quiet_runs [OF assms(1)]
  have wr: "writeLeaseRecord env l False s = (Inr (), put_lease l s)" for s
    using assms(2) by (simp add: writeLeaseRecord_def q run_andthen run_catching run_simps given_def
        assert_artifact_allowed_def assertLeaseArtifactPathAllowed_def leaseArtifactPathOverlap_def snapshotLeaseRecordFiles_def)
  have reg: "writeRegistry env hc r = update (\<lambda>s. s\<lparr>sy_registry := Some (registry_text hc r)\<rparr>)" for hc r
    by (simp add: writeRegistry_def q)
  have event: "appendEventRecord env ev s = (Inr (), s\<lparr>sy_events := sy_events s @ [ev\<lparr>ev_id := ''u''\<rparr>]\<rparr>)" for ev s
    by (simp add: appendEventRecord_def q run_catching run_simps Let_def)
  show ?thesis
    using assms(3-6)
    by (auto simp: hand_out_def wr reg event or_rollback_def maybeResetLeaseOnAcquire_def maybeBootLeaseOnAcquire_def
        findHostAliasOrThrow_def invokeLifecycleAdapter_def lift_def run_andthen run_catching run_simps Let_def leased_entry_def
        rollbackAcquireLeaseFailureSafe_def attempt_def split: prod.splits sum.splits)
qed

lemma quiet_acquire:
  assumes "quiet env" "acquireSelection env plain_acquire ''t'' s = (Inr sel, s1)"
    and "performSlotReclaim env (se_state sel) None ''t'' (Some [ha_alias (ca_hostAlias (se_candidate sel))]) None False
      ''lease-acquire'' s1 = (Inr (res, rg), s2)" "rr_failureCount res = 0"
  shows "\<exists>l. ls_artifactPath l = None \<and> ls_resetPolicy l = ha_resetPolicy (ca_hostAlias (se_candidate sel))
    \<and> ls_alias l = ha_alias (ca_hostAlias (se_candidate sel)) \<and> ls_leaseId l = ''u''
    \<and> acquireLeaseBroker env plain_acquire s = hand_out env (se_state sel) rg l ''t'' s2"
proof -
  note q = quiet_runs [OF assms(1)]
  let ?ty = "nullish (pu_defaultActorType (se_purpose sel)) ''unknown''"
  let ?l = "new_lease (en_fs env (sy_world s1)) (en_paths env) plain_acquire sel ''t'' ''u'' ?ty
     (?ty @ '':'' @ int_text (po_brokerPid (en_ops env))) 6 None"
  have fields: "ls_artifactPath ?l = None" "ls_resetPolicy ?l = ha_resetPolicy (ca_hostAlias (se_candidate sel))"
    by (simp_all add: new_lease_def plain_acquire_fields some_dir_def given_def Let_def)
  have pid: "requireContainmentRootInteger (Some (JInt 6)) f = Inr 6" for f
    by (simp add: requireContainmentRootInteger_def requirePositiveInteger_def normalizePositiveInteger_def js_nullish_def js_number_def)
  have "acquireLeaseBroker env plain_acquire s = acquire_selected env plain_acquire ''t'' sel ''u'' s1"
    using assms(2) by (simp add: acquireLeaseBroker_def q run_andthen plain_acquire_fields)
  also have "\<dots> = hand_out env (se_state sel) rg ?l ''t'' s2"
    using assms(1,3,4) fields(1) pid
    by (simp add: acquire_selected_def Let_def plain_acquire_fields quiet_def validateRegisteredOwnerGroup_def run_andthen run_simps
        optionalContainmentGroupInteger_def js_nullish_def assertLeaseArtifactPathUnused_def given_def
        normalizePositiveInteger_def js_number_def)
  finally show ?thesis using fields by (intro exI [of _ ?l]) simp
qed

text \<open>The selection and the sweep of the sample request, before the lease is handed out.\<close>

definition sample_request_ok :: "unit env \<Rightarrow> bool" where
  "sample_request_ok env = (case acquireSelection env plain_acquire ''t'' (plain_sys [] []) of
      (Inl e, s1) \<Rightarrow> False
    | (Inr sel, s1) \<Rightarrow>
        ha_resetPolicy (ca_hostAlias (se_candidate sel)) = ''none'' \<and> ha_alias (ca_hostAlias (se_candidate sel)) = ''build-a''
        \<and> map_option ha_simulatorId (List.find (\<lambda>h. ha_alias h = ''build-a'') (hc_aliases (bs_host (se_state sel)))) = Some ''SIM-A''
        \<and> (case performSlotReclaim env (se_state sel) None ''t'' (Some [ha_alias (ca_hostAlias (se_candidate sel))]) None False
              ''lease-acquire'' s1 of
             (Inl e, s2) \<Rightarrow> False
           | (Inr (res, rg), s2) \<Rightarrow> rr_failureCount res = 0 \<and> map_option re_powerState (rg_aliases rg ''build-a'') = Some Shutdown))"

lemma sample_acquire:
  assumes "quiet env" "sample_request_ok env"
  shows "\<exists>l. ls_alias l = ''build-a'' \<and> ls_leaseId l = ''u'' \<and> fst (acquireLeaseBroker env plain_acquire (plain_sys [] []))
    = (case fst (sc_boot (en_simctl env) ''SIM-A'' ()) of
         Inr u \<Rightarrow> Inr l | Inl err \<Rightarrow> Inl (acquire_failed ''boot'' ''build-a'' ''boot-on-acquire-failed''))"
proof -
  obtain r s1 where r: "acquireSelection env plain_acquire ''t'' (plain_sys [] []) = (r, s1)" by fastforce
  with assms(2) obtain sel where sel: "acquireSelection env plain_acquire ''t'' (plain_sys [] []) = (Inr sel, s1)"
    by (cases r) (simp_all add: sample_request_ok_def)
  obtain r' s2 where r': "performSlotReclaim env (se_state sel) None ''t'' (Some [ha_alias (ca_hostAlias (se_candidate sel))])
      None False ''lease-acquire'' s1 = (r', s2)" by fastforce
  note ok = assms(2) [unfolded sample_request_ok_def sel prod.case sum.case r']
  obtain res rg where rr: "r' = Inr (res, rg)" using ok by (cases r') auto
  note sweep = r' [unfolded rr]
  from ok rr obtain e h where h: "ha_resetPolicy (ca_hostAlias (se_candidate sel)) = ''none''"
      "ha_alias (ca_hostAlias (se_candidate sel)) = ''build-a''"
      "List.find (\<lambda>h. ha_alias h = ''build-a'') (hc_aliases (bs_host (se_state sel))) = Some h" "ha_simulatorId h = ''SIM-A''"
    and e: "rg_aliases rg ''build-a'' = Some e" "re_powerState e = Shutdown" and none: "rr_failureCount res = 0"
    by auto
  from quiet_acquire [OF assms(1) sel sweep none] obtain l where l: "ls_artifactPath l = None" "ls_resetPolicy l = ''none''"
    "ls_alias l = ''build-a''" "ls_leaseId l = ''u''"
    "acquireLeaseBroker env plain_acquire (plain_sys [] []) = hand_out env (se_state sel) rg l ''t'' s2"
    unfolding h(1,2) by blast
  from quiet_boot [OF assms(1) l(1,2), unfolded l(3), OF e h(3), of "''t''" s2] l show ?thesis
    unfolding h(4) by (intro exI [of _ l]) simp
qed

lemma plain_boot: "sc_boot (en_simctl plain_env) u () = (Inr (), ())"
  by (simp add: plain_env_def plain_simctl_def run_simps)


text \<open>C2: an acquisition that throws, on a disk that works, leaves no lease behind: every lease file was there
  before, on the same alias.  A failed boot or reset, a broken artifact path and a rejected flag are among
  the causes.\<close>

theorem failed_acquire_leaves_no_lease:
  assumes "acquireLeaseBroker env opts s = (Inl e, s')" "disk_works env" "lease_files.slots_ok (sy_leases s)" "fresh_ids env s"
  shows "\<forall>k l. dir_get (sy_leases s') k = Some l \<longrightarrow>
    (\<exists>l0. dir_get (sy_leases s) k = Some l0 \<and> ls_alias l0 = ls_alias l)"
proof -
  have "before s s" using claims_of_slots [OF assms(3)] by (simp add: before_def)
  with tripleD(2) [OF acquire_failure_triple [OF assms(2-4)] _ assms(1)]
  have "claims_kept (lease_files.claims (sy_leases s)) s'" by blast
  then show ?thesis by (simp add: claims_kept_def lease_files.within_def lease_files.claims_def) metis
qed

text \<open>The simulator does not boot.\<close>

definition boot_fails :: "unit env" where
  "boot_fails = plain_env\<lparr>en_simctl := plain_simctl\<lparr>sc_boot := \<lambda>_. throw (HostError ''boot'')\<rparr>\<rparr>"


lemma failing_boot: "sc_boot (en_simctl boot_fails) u () = (Inl (HostError ''boot''), ())"
  by (simp add: boot_fails_def run_simps)

theorem failed_acquire_leaves_no_lease_witness:
  "\<exists>e s'. acquireLeaseBroker boot_fails plain_acquire (plain_sys [] []) = (Inl e, s')
    \<and> err_reason e = Some ''boot-on-acquire-failed'' \<and> (\<forall>k. dir_get (sy_leases s') k = None)"
proof -
  let ?e = "acquire_failed ''boot'' ''build-a'' ''boot-on-acquire-failed''"
  have "quiet boot_fails" by (simp add: quiet_def boot_fails_def plain_env_def)
  moreover have "sample_request_ok boot_fails" unfolding sample_request_ok_def by code_simp
  ultimately have "fst (acquireLeaseBroker boot_fails plain_acquire (plain_sys [] [])) = Inl ?e"
    using sample_acquire [of boot_fails] unfolding failing_boot by auto
  then obtain s' where run: "acquireLeaseBroker boot_fails plain_acquire (plain_sys [] []) = (Inl ?e, s')" by (metis prod.collapse)
  have "disk_works boot_fails" "fresh_ids boot_fails (plain_sys [] [])"
    using plain_slots(2) by (simp_all add: disk_works_def boot_fails_def plain_env_def fresh_ids_def run_simps)
  from failed_acquire_leaves_no_lease [OF run this(1) plain_slots(1) this(2)]
  have left: "dir_get (sy_leases s') k = Some l \<longrightarrow> (\<exists>l0. dir_get (sy_leases (plain_sys [] [])) k = Some l0)" for k l by blast
  have "dir_get (sy_leases (plain_sys [] [])) k = None" for k by (simp add: plain_sys_def dir_get_def)
  with left have "\<forall>k. dir_get (sy_leases s') k = None" by (metis not_None_eq)
  with run show ?thesis by (auto simp: acquire_failed_def broker_err_def)
qed

text \<open>C3: after a release the file of the lease is gone and the registry on disk names no lease on its alias.\<close>

theorem release_ends_the_lease:
  assumes "releaseLeaseBroker env opts s = (Inr (i, t), s')" "lease_files.slots_ok (sy_leases s)"
  shows "\<exists>l hc rg. dir_get (sy_leases s) (i @ ''.json'') = Some l \<and> ls_leaseId l = i
    \<and> dir_get (sy_leases s') (i @ ''.json'') = None \<and> sy_registry s' = Some (registry_text hc rg)
    \<and> (\<forall>e. rg_aliases rg (ls_alias l) = Some e \<longrightarrow> re_activeLeaseId e = None)"
  by (rule release_ok [OF assms])

definition plain_release :: release_options where
  "plain_release = \<lparr>lq_now = None, lq_termWaitMs = None, lq_skipLeaseIds = [], lq_inventory = None, lq_leaseId = Some ''lease-1'',
     lq_leaseFile = None, lq_actorType = None\<rparr>"

lemma live_slots: "lease_files.slots_ok (sy_leases (plain_sys [live_lease] []))"
  by (auto simp: lease_files.slots_ok_def plain_sys_def dir_get_def dir_ok_def split: if_splits)

theorem release_ends_the_lease_witness:
  "\<exists>s'. releaseLeaseBroker plain_env plain_release (plain_sys [live_lease] []) = (Inr (''lease-1'', ''t''), s')
    \<and> dir_get (sy_leases s') ''lease-1.json'' = None"
proof -
  have "fst (releaseLeaseBroker plain_env plain_release (plain_sys [live_lease] [])) = Inr (''lease-1'', ''t'')" by code_simp
  then obtain s' where run: "releaseLeaseBroker plain_env plain_release (plain_sys [live_lease] []) = (Inr (''lease-1'', ''t''), s')"
    by (metis prod.collapse)
  from release_ends_the_lease [OF run live_slots] have "dir_get (sy_leases s') (''lease-1'' @ ''.json'') = None" by blast
  with run show ?thesis by simp
qed

text \<open>C4: when the removal of the files of a released lease fails, either nothing was changed or the undo ran;
  an undo that goes through puts back the lease file and the artifact, and the registry is the one the
  release started from.\<close>

theorem release_failure_restores:
  assumes "release_files env hc rg l t s = (Inl e, s')" "lease_files.slots_ok (sy_leases s)"
    and "dir_get (sy_leases s) (lease_name l) = Some l"
  shows "s' = s \<or> (\<exists>snap s1 r. undo_release env hc rg snap s1 = (r, s')
    \<and> (r = Inr () \<longrightarrow> dir_get (sy_leases s') (lease_name l) = Some l \<and> sy_registry s' = Some (registry_text hc rg)
        \<and> (\<forall>p. given (ls_artifactPath l) = Some p \<longrightarrow> sy_artifacts s' p = sy_artifacts s p)))"
  by (rule release_files_failure [OF assms])

text \<open>A disk on which the first change of a lease file fails.\<close>

definition jammed_once :: "bool env" where
  "jammed_once = \<lparr>en_now = Pair ''t'', en_date = (\<lambda>_. None), en_uuid = Pair ''u'',
     en_io = (\<lambda>f w. case f of R_lease k \<Rightarrow> (if w then (Io_failed ''EBUSY'', False) else (Io_ok, w)) | _ \<Rightarrow> (Io_ok, w)),
     en_lock = (\<lambda>_. ret ()), en_unlock = (\<lambda>_. ret ()), en_exists = (\<lambda>_. Pair True), en_sampling = False,
     en_ops = \<lparr>po_sample = ret [], po_killPid = (\<lambda>_ _. ret \<lparr>kl_ok = True, kl_errorCode = None\<rparr>),
       po_killGroup = (\<lambda>_ _. ret \<lparr>kl_ok = True, kl_errorCode = None\<rparr>), po_brokerPid = 7, po_clock = (\<lambda>_. 0),
       po_evidence = (\<lambda>_. ret ()), po_diagnostics = (\<lambda>_. ret [])\<rparr>,
     en_parentPid = 6,
     en_simctl = \<lparr>sc_inventory = ret plain_inventory, sc_listDevices = ret plain_inventory, sc_measure = (\<lambda>_ _. ret 1),
       sc_boot = (\<lambda>_. ret ()), sc_waitForBooted = (\<lambda>_. ret ()), sc_shutdown = (\<lambda>_. ret ()), sc_erase = (\<lambda>_. ret ()),
       sc_delete = (\<lambda>_. ret ()), sc_listRuntimes = ret [sample_runtime], sc_rename = (\<lambda>_ _. ret ()),
       sc_create = (\<lambda>_ _ _. ret ''SIM-NEW'')\<rparr>,
     en_projectJson = (\<lambda>_. throw (HostError ''ENOENT'')), en_paths = plain_paths, en_fs = (\<lambda>_. plain_fs),
     en_locale = cmp_key id, en_localeNumeric = cmp_key id, en_digest = (\<lambda>_. [])\<rparr>"
definition live_sys :: "bool sys" where
  "live_sys = \<lparr>sy_host = None, sy_registry = None, sy_projects = None, sy_idle = Missing,
     sy_leases = [(lease_name live_lease, live_lease)], sy_pins = [], sy_transactions = [], sy_artifacts = (\<lambda>_. None), sy_events = [],
     sy_auditFailures = [], sy_world = True\<rparr>"

theorem release_failure_restores_witness:
  "\<exists>e s'. release_files jammed_once sample_host_config sample_registry live_lease ''t'' live_sys = (Inl e, s')
    \<and> (\<exists>snap s1 r. undo_release jammed_once sample_host_config sample_registry snap s1 = (r, s'))"
proof -
  have "case release_files jammed_once sample_host_config sample_registry live_lease ''t'' live_sys of
    (Inl e, s') \<Rightarrow> \<not> sy_world s' | _ \<Rightarrow> False" by code_simp
  then obtain e s' where run: "release_files jammed_once sample_host_config sample_registry live_lease ''t'' live_sys = (Inl e, s')"
    and changed: "\<not> sy_world s'" by (auto split: prod.splits sum.splits)
  have slots: "lease_files.slots_ok (sy_leases live_sys)"
    by (auto simp: lease_files.slots_ok_def live_sys_def dir_get_def dir_ok_def split: if_splits)
  from changed have "s' \<noteq> live_sys" by (auto simp: live_sys_def)
  moreover have "dir_get (sy_leases live_sys) (lease_name live_lease) = Some live_lease" by (simp add: live_sys_def dir_get_def)
  ultimately show ?thesis using release_failure_restores [OF run slots] run by blast
qed

end
