(* ===== verification/Pins.thy ===== *)
theory Pins
  imports Lease_Proofs
begin

text \<open>
  Pins (\<open>createPinBroker\<close> and \<open>clearPinBroker\<close> in \<open>broker-core/index.mjs\<close>): a pin reserves an alias for a
  purpose of a project.  The files of the pins obey the same contract as those of the leases: no two are
  about the same alias.
\<close>

section \<open>Operations\<close>

record pin_options =
  pq_now :: "string option"
  pq_termWaitMs :: "js option"
  pq_skipLeaseIds :: "string list"
  pq_inventory :: "inventory option"
  pq_projectFilePath :: "string option"
  pq_purposeId :: "string option"
  pq_alias :: "string option"
  pq_actorId :: "string option"
  pq_actorType :: "string option"
  pq_note :: "string option"

definition put_pin :: "pin \<Rightarrow> 'w sys \<Rightarrow> 'w sys" where
  "put_pin p s = s\<lparr>sy_pins := dir_put (pin_name p) p (sy_pins s)\<rparr>"

definition del_pin :: "string \<Rightarrow> 'w sys \<Rightarrow> 'w sys" where
  "del_pin k s = s\<lparr>sy_pins := dir_del k (sy_pins s)\<rparr>"

definition remove_pin_file :: "'w env \<Rightarrow> pin \<Rightarrow> ('w sys, unit) eff" where
  "remove_pin_file env p = removeIfExists env (R_pin (pin_name p)) (\<lambda>s. dir_get (sy_pins s) (pin_name p) \<noteq> None) (del_pin (pin_name p))"

definition pin_event :: "string \<Rightarrow> pin \<Rightarrow> string \<Rightarrow> string \<Rightarrow> event" where
  "pin_event type p actorType timestamp =
    event_of type (Some (pn_alias p)) (Some actorType) None (Some (pn_projectId p)) (pn_purposeId p) [pn_pinId p] timestamp"

text \<open>The checks of \<open>createPinBroker\<close>: an error, the pin that is there already, or the alias to pin.\<close>

definition pin_target ::
  "broker_state \<Rightarrow> project_config \<Rightarrow> purpose \<Rightarrow> string option \<Rightarrow> berr + (pin + host_alias)" where
  "pin_target st cfg purpose a =
    (case List.find (\<lambda>h. Some (ha_alias h) = a) (hc_aliases (bs_host st)) of
       None \<Rightarrow> Inl (broker_err (''Unknown alias '' @ nullish a ''undefined'' @ ''.'') ''unknown-alias'')
     | Some h \<Rightarrow>
         if pu_capability purpose \<notin> set (ha_capabilities h) \<or> \<not> satisfiesRequires h (pu_requires purpose)
         then Inl (broker_err (''Alias '' @ ha_alias h @ '' does not satisfy purpose '' @ pu_id purpose @ ''.'') ''alias-purpose-mismatch'')
         else case rg_aliases (bs_registry st) (ha_alias h) of
           None \<Rightarrow> Inl type_error
         | Some e \<Rightarrow>
             if unhealthy e then Inl (broker_err (''Alias '' @ ha_alias h @ '' is unhealthy.'') ''unhealthy-alias'')
             else case pin_on st (ha_alias h) of
               Some p \<Rightarrow>
                 if pn_projectId p = pc_projectId cfg \<and> pn_purposeId p = Some (pu_id purpose) then Inr (Inl p)
                 else Inl (broker_err (''Alias '' @ ha_alias h @ '' is already pinned.'') ''pin-conflict'')
             | None \<Rightarrow>
                 (case lease_on st (ha_alias h) of
                    Some l \<Rightarrow>
                      if leaseMatchesPin (pc_projectId cfg) (Some (pu_id purpose)) (ls_projectId l) (Some (ls_purposeId l))
                      then Inr (Inr h)
                      else Inl (broker_err (''Alias '' @ ha_alias h @ '' is leased by another project.'') ''lease-conflict'')
                  | None \<Rightarrow> Inr (Inr h)))"

definition new_pin ::
  "fs_view \<Rightarrow> pin_options \<Rightarrow> project_config \<Rightarrow> string \<Rightarrow> purpose \<Rightarrow> host_alias \<Rightarrow> string \<Rightarrow> string \<Rightarrow> pin" where
  "new_pin fs opts cfg projectFilePath purpose h pinId timestamp =
    \<lparr>pn_actorId = nullish (pq_actorId opts) ''human:local-cli'', pn_actorType = nullish (pq_actorType opts) ''human'',
     pn_alias = ha_alias h, pn_createdAt = timestamp, pn_note = pq_note opts, pn_pinId = pinId,
     pn_projectId = pc_projectId cfg, pn_projectName = pc_projectName cfg, pn_purposeId = Some (pu_id purpose),
     pn_repoRoot = resolveRepoRoot fs projectFilePath\<rparr>"

definition pinned_entry :: "string option \<Rightarrow> string \<Rightarrow> registry_entry \<Rightarrow> registry_entry" where
  "pinned_entry pinId timestamp e = e\<lparr>re_pinId := pinId, re_updatedAt := timestamp\<rparr>"

definition pin_registry :: "string \<Rightarrow> string option \<Rightarrow> string \<Rightarrow> registry \<Rightarrow> registry" where
  "pin_registry a pinId timestamp rg = (update_entry a (pinned_entry pinId timestamp) rg)\<lparr>rg_updatedAt := timestamp\<rparr>"

definition write_pin :: "'w env \<Rightarrow> broker_state \<Rightarrow> pin \<Rightarrow> string \<Rightarrow> ('w sys, unit) eff" where
  "write_pin env st p timestamp =
    andthen (writeJsonAtomicRestricted env (R_pin (pin_name p)) (put_pin p)) (\<lambda>_.
      catching (writeRegistry env (bs_host st) (pin_registry (pn_alias p) (Some (pn_pinId p)) timestamp (bs_registry st)))
        (\<lambda>e. andthen (remove_pin_file env p) (\<lambda>_. throw e)))"

text \<open>The result says whether the pin was there already.\<close>

definition createPinBroker :: "'w env \<Rightarrow> pin_options \<Rightarrow> ('w sys, pin \<times> bool) eff" where
  "createPinBroker env opts =
    andthen (nowIso env (pq_now opts)) (\<lambda>timestamp.
    with_lock env Lease_lock (
      andthen (check (stateLoadOptions (pq_termWaitMs opts) (pq_skipLeaseIds opts) (pq_inventory opts) (pq_now opts))) (\<lambda>lo.
      andthen (loadBrokerState env lo timestamp) (\<lambda>st.
      andthen (readProjectConfigOrThrow env (pq_projectFilePath opts)) (\<lambda>(cfg, projectFilePath).
      andthen (rememberKnownProject env (bs_projects st) cfg projectFilePath timestamp) (\<lambda>_.
      andthen (check (getPurpose cfg (pq_purposeId opts))) (\<lambda>purpose.
      andthen (check (pin_target st cfg purpose (pq_alias opts))) (\<lambda>target. case target of
          Inl p \<Rightarrow> ret (p, True)
        | Inr h \<Rightarrow>
            andthen (look (\<lambda>s. en_fs env (sy_world s))) (\<lambda>fs.
            andthen (ask (en_uuid env)) (\<lambda>pinId.
            let p = new_pin fs opts cfg projectFilePath purpose h pinId timestamp in
            andthen (write_pin env st p timestamp) (\<lambda>_.
            andthen (appendEventRecord env (pin_event ''pin.created'' p (pn_actorType p) timestamp)) (\<lambda>_.
              ret (p, False)))))))))))))"

definition pin_not_found :: "string option \<Rightarrow> berr" where
  "pin_not_found a = broker_err (''Alias '' @ nullish a ''undefined'' @ '' is not pinned.'') ''pin-not-found''"

text \<open>The registry has entries for the configured aliases only; for a pin on another alias the
  assignment to its entry throws.\<close>

definition clearPinBroker :: "'w env \<Rightarrow> pin_options \<Rightarrow> ('w sys, pin) eff" where
  "clearPinBroker env opts =
    andthen (nowIso env (pq_now opts)) (\<lambda>timestamp.
    with_lock env Lease_lock (
      andthen (check (stateLoadOptions (pq_termWaitMs opts) (pq_skipLeaseIds opts) (pq_inventory opts) (pq_now opts))) (\<lambda>lo.
      andthen (loadBrokerState env lo timestamp) (\<lambda>st.
      case Option.bind (pq_alias opts) (pin_on st) of
        None \<Rightarrow> throw (pin_not_found (pq_alias opts))
      | Some p \<Rightarrow>
          if rg_aliases (bs_registry st) (pn_alias p) = None then throw type_error
          else andthen (writeRegistry env (bs_host st) (pin_registry (pn_alias p) None timestamp (bs_registry st))) (\<lambda>_.
               andthen (remove_pin_file env p) (\<lambda>_.
               andthen (appendEventRecord env (pin_event ''pin.cleared'' p (nullish (pq_actorType opts) ''human'') timestamp)) (\<lambda>_.
                 ret p)))))))"

section \<open>The files of the pins\<close>

definition pins_within :: "(string \<times> string) set \<Rightarrow> 'w sys \<Rightarrow> bool" where
  "pins_within C s \<longleftrightarrow> pin_files.within C (sy_pins s)"

definition slots_hold :: "'w sys \<Rightarrow> bool" where
  "slots_hold s \<longleftrightarrow> lease_files.slots_ok (sy_leases s) \<and> pin_files.slots_ok (sy_pins s)"

lemma lease_side_log: "lease_side I \<Longrightarrow> log_side I"
  by (simp add: lease_side_def log_side_def)

lemma keeps_side_sweep: "lease_side I \<Longrightarrow> keeps I (performSlotReclaim env st actor t as acq persist source)"
  by (intro keeps_performSlotReclaim lease_side_log)

text \<open>No lease operation touches the pins, the host configuration or the idle policy.\<close>

lemma keeps_rollback:
  assumes "lease_side I"
  shows "keeps I (rollbackAcquireLeaseFailureSafe env hc rg l t reason)"
  unfolding rollbackAcquireLeaseFailureSafe_def rollbackAcquireLease_def Let_def
  by (intro keeps_struct keeps_attempt keeps_side assms)

lemma keeps_hand_out_side:
  assumes "lease_side I"
  shows "keeps I (hand_out env st rg l t)"
  unfolding hand_out_def or_rollback_def Let_def
  by (intro keeps_struct keeps_side keeps_rollback keeps_on_acquire assms lease_side_log)

lemma keeps_side_lease_ops:
  assumes "lease_side I"
  shows "keeps I (acquireLeaseBroker env aq)" "keeps I (registerLeaseProcessBroker env gq)" "keeps I (containLeaseBroker env cq)"
    "keeps I (releaseLeaseBroker env lq)"
proof -
  note d = lease_sideD(1) [OF assms] and log = lease_side_log [OF assms]
  show "keeps I (acquireLeaseBroker env aq)"
    unfolding acquireLeaseBroker_def acquireSelection_def acquire_selected_def Let_def
    by (intro keeps_with_lock keeps_struct keeps_nowIso keeps_ask keeps_load_side keeps_readProjectConfig keeps_side keeps_group_checks
        keeps_side_sweep keeps_hand_out_side d assms)
  show "keeps I (registerLeaseProcessBroker env gq)"
    unfolding registerLeaseProcessBroker_def Let_def
    by (intro keeps_with_lock keeps_struct keeps_nowIso keeps_loadLease keeps_load_side keeps_group_checks keeps_side d assms)
  show "keeps I (containLeaseBroker env cq)"
    unfolding containLeaseBroker_def
    by (intro keeps_with_lock keeps_andthen keeps_nowIso keeps_loadLease keeps_load_side keeps_basic keeps_contain keeps_side
        keeps_contain_outcome d assms)
  show "keeps I (releaseLeaseBroker env lq)"
    unfolding releaseLeaseBroker_def release_files_def Let_def
    by (intro keeps_with_lock keeps_struct keeps_nowIso keeps_loadLease keeps_load_side keeps_artifact_allowed keeps_snapshot
        keeps_attempt keeps_side keeps_side_sweep d assms)
qed

section \<open>Creating\<close>

lemma triple_pure: "(F \<Longrightarrow> triple P m Q E) \<Longrightarrow> triple (\<lambda>s. P s \<and> F) m Q E"
  by (auto simp: triple_def)

text \<open>The checks hold of the alias that is chosen.\<close>

definition pinnable :: "broker_state \<Rightarrow> project_config \<Rightarrow> purpose \<Rightarrow> host_alias \<Rightarrow> bool" where
  "pinnable st cfg purpose h \<longleftrightarrow> h \<in> set (hc_aliases (bs_host st))
     \<and> pu_capability purpose \<in> set (ha_capabilities h) \<and> satisfiesRequires h (pu_requires purpose)
     \<and> (\<exists>e. rg_aliases (bs_registry st) (ha_alias h) = Some e \<and> \<not> unhealthy e)
     \<and> pin_on st (ha_alias h) = None
     \<and> (\<forall>l. lease_on st (ha_alias h) = Some l \<longrightarrow> ls_projectId l = pc_projectId cfg \<and> ls_purposeId l = pu_id purpose)"

lemma pin_target_new: "pin_target st cfg purpose a = Inr (Inr h) \<Longrightarrow> pinnable st cfg purpose h \<and> a = Some (ha_alias h)"
  by (auto simp: pin_target_def pinnable_def leaseMatchesPin_def split: option.splits if_splits dest!: find_SomeD)

lemma pin_target_old:
  "pin_target st cfg purpose a = Inr (Inl p) \<Longrightarrow>
     \<exists>b. a = Some b \<and> pin_on st b = Some p \<and> pn_projectId p = pc_projectId cfg \<and> pn_purposeId p = Some (pu_id purpose)"
  by (auto simp: pin_target_def split: option.splits if_splits dest!: find_SomeD)

text \<open>The state a pin operation starts from, as far as it is unchanged until the pin is written.\<close>

definition pins_as :: "'w sys \<Rightarrow> 'w sys \<Rightarrow> bool" where
  "pins_as s0 s \<longleftrightarrow> sy_pins s = sy_pins s0 \<and> sy_host s = sy_host s0 \<and> lease_files.slots_ok (sy_leases s)"

lemma log_side_pins_as: "log_side (pins_as s0)"
  by (simp add: log_side_def of_files_def pins_as_def)

definition read_from :: "'w sys \<Rightarrow> broker_state \<Rightarrow> bool" where
  "read_from s0 st \<longleftrightarrow> wf_state st \<and> bs_pins st = map snd (sy_pins s0)
     \<and> (\<exists>v. sy_host s0 = Some v \<and> validateHostConfig (Some v) = Inr (bs_host st))"

lemma keeps_load_slots: "keeps (\<lambda>s. lease_files.slots_ok (sy_leases s)) (loadBrokerState env lo t)"
  unfolding keeps_def
proof (intro allI impI)
  fix s :: "'a sys"
  assume ok: "lease_files.slots_ok (sy_leases s)"
  obtain r s' where run: "loadBrokerState env lo t s = (r, s')" by fastforce
  have "claims_kept (lease_files.claims (sy_leases s)) s'"
    using keeps_load_claims conjunct1 [OF claims_of_slots [OF ok]] run by (rule keepsD)
  with run show "lease_files.slots_ok (sy_leases (snd (loadBrokerState env lo t s)))"
    by (simp add: slots_ok_of_claims [OF _ conjunct2 [OF claims_of_slots [OF ok]]])
qed

lemma load_pins_triple:
  "triple (pins_as s0) (loadBrokerState env lo t) (\<lambda>st s. pins_as s0 s \<and> read_from s0 st) (\<lambda>_. pins_as s0)"
proof -
  have "keeps (\<lambda>s. sy_pins s = sy_pins s0 \<and> sy_host s = sy_host s0) (loadBrokerState env lo t)"
    by (rule keeps_load_side) (rule lease_side_files [where P = "\<lambda>p h i. p = sy_pins s0 \<and> h = sy_host s0"])
  with keeps_load_slots [of env lo t] have k: "keeps (pins_as s0) (loadBrokerState env lo t)" by (simp add: keeps_def pins_as_def)
  show ?thesis
  proof (rule tripleI)
    fix s st s'
    assume s: "pins_as s0 s" and run: "loadBrokerState env lo t s = (Inr st, s')"
    from loadBrokerState_ok [OF run] s have l: "loaded st s'" by (simp add: pins_as_def)
    have "pins_as s0 s'" using k s run by (rule keepsD)
    with l show "pins_as s0 s' \<and> read_from s0 st" by (auto simp: pins_as_def read_from_def loaded_def)
  qed (blast intro: keepsD [OF k])
qed

definition fresh_pin_ids :: "'w env \<Rightarrow> 'w sys \<Rightarrow> bool" where
  "fresh_pin_ids env s \<longleftrightarrow> (\<forall>w a. (fst (en_uuid env w) @ ''.json'', a) \<notin> pin_files.claims (sy_pins s))"

lemma keeps_pin_files:
  assumes "(pin_name p, pn_alias p) \<in> C"
  shows "keeps (\<lambda>s. lease_files.slots_ok (sy_leases s) \<and> pins_within C s) (write_pin env st p t)"
    "keeps (\<lambda>s. lease_files.slots_ok (sy_leases s) \<and> pins_within C s) (remove_pin_file env p)"
    "keeps (\<lambda>s. lease_files.slots_ok (sy_leases s) \<and> pins_within C s) (appendEventRecord env e)"
    "keeps (\<lambda>s. lease_files.slots_ok (sy_leases s) \<and> pins_within C s) (writeRegistry env hc rg)"
proof -
  let ?I = "\<lambda>s. lease_files.slots_ok (sy_leases s) \<and> pins_within C s"
  have log: "log_side ?I" by (simp add: log_side_def of_files_def pins_within_def)
  show a: "keeps ?I (remove_pin_file env p)"
    unfolding remove_pin_file_def
    by (rule keeps_removeIfExists) (simp_all add: of_files_def pins_within_def del_pin_def pin_files.within_del)
  show "keeps ?I (appendEventRecord env e)" "keeps ?I (writeRegistry env hc rg)" by (intro keeps_log log)+
  show "keeps ?I (write_pin env st p t)"
    unfolding write_pin_def
    by (intro keeps_struct keeps_restricted keeps_log log a log_sideD(1))
      (simp add: pins_within_def put_pin_def pin_files.within_put assms)
qed

lemma new_pin_claim:
  assumes "pin_files.slots_ok (sy_pins s0)" "read_from s0 st" "pinnable st cfg purpose h" "pn_alias p = ha_alias h"
    and "\<And>a. (pin_name p, a) \<notin> pin_files.claims (sy_pins s0)"
  shows "pin_files.exclusive (insert (pin_name p, pn_alias p) (pin_files.claims (sy_pins s0)))"
proof (rule pin_files.exclusive_insert)
  show "pin_files.exclusive (pin_files.claims (sy_pins s0))" using pin_files.slots_ok_within [OF assms(1)] by blast
next
  fix k a
  assume c: "(k, a) \<in> pin_files.claims (sy_pins s0)"
  then obtain y where y: "dir_get (sy_pins s0) k = Some y" "pn_alias y = a" by (auto simp: pin_files.claims_def)
  then have "y \<in> set (bs_pins st)" using assms(2) by (force simp: read_from_def dir_get_def dest: map_of_SomeD)
  moreover have "pin_on st (pn_alias p) = None" using assms(3,4) by (simp add: pinnable_def)
  ultimately have "pn_alias y \<noteq> pn_alias p" using pin_on_None [of st "pn_alias p"] assms(2) by (auto simp: read_from_def)
  with c y(2) assms(5) show "k \<noteq> pin_name p \<and> a \<noteq> pn_alias p" by blast
qed

lemma write_pin_ok:
  assumes "write_pin env st p t s = (Inr u, s')"
  shows "sy_pins s' = dir_put (pin_name p) p (sy_pins s)"
proof -
  from assms obtain v s1 where w: "writeJsonAtomicRestricted env (R_pin (pin_name p)) (put_pin p) s = (Inr v, s1)"
    and r: "catching (writeRegistry env (bs_host st) (pin_registry (pn_alias p) (Some (pn_pinId p)) t (bs_registry st)))
        (\<lambda>e. andthen (remove_pin_file env p) (\<lambda>_. throw e)) s1 = (Inr u, s')"
    unfolding write_pin_def by (rule andthen_InrE)
  from writeRegistry_ok [OF catching_rethrow [OF r]] restricted_ok [OF w] show ?thesis by (auto simp: put_pin_def)
qed

text \<open>What a created pin satisfies.\<close>

definition newly_pinned :: "'w sys \<Rightarrow> pin \<Rightarrow> bool" where
  "newly_pinned s0 p \<longleftrightarrow> dir_get (sy_pins s0) (pin_name p) = None
     \<and> (\<exists>v st h cfg purpose. sy_host s0 = Some v \<and> validateHostConfig (Some v) = Inr (bs_host st)
        \<and> bs_pins st = map snd (sy_pins s0) \<and> wf_state st \<and> pn_alias p = ha_alias h
        \<and> pn_projectId p = pc_projectId cfg \<and> pn_purposeId p = Some (pu_id purpose) \<and> purpose \<in> set (pc_purposes cfg)
        \<and> pinnable st cfg purpose h)"

definition pinned_ok :: "pin_options \<Rightarrow> 'w sys \<Rightarrow> pin \<times> bool \<Rightarrow> 'w sys \<Rightarrow> bool" where
  "pinned_ok opts s0 r s \<longleftrightarrow> slots_hold s \<and> dir_get (sy_pins s) (pin_name (fst r)) = Some (fst r)
     \<and> Some (pn_alias (fst r)) = pq_alias opts \<and> pn_purposeId (fst r) = pq_purposeId opts
     \<and> (if snd r then sy_pins s = sy_pins s0 else newly_pinned s0 (fst r))"

lemma of_files_pinned: "of_files (pinned_ok opts s0 x)"
  by (simp add: of_files_def pinned_ok_def slots_hold_def)

lemma log_side_slots: "log_side slots_hold"
  by (simp add: log_side_def of_files_def slots_hold_def)

lemma new_pin_simps [simp]:
  "pn_alias (new_pin fs opts cfg f purpose h i t) = ha_alias h" "pn_pinId (new_pin fs opts cfg f purpose h i t) = i"
  "pn_projectId (new_pin fs opts cfg f purpose h i t) = pc_projectId cfg"
  "pn_purposeId (new_pin fs opts cfg f purpose h i t) = Some (pu_id purpose)"
  by (simp_all add: new_pin_def)

lemma write_new_pin_triple:
  assumes pins: "pin_files.slots_ok (sy_pins s0)" and st: "read_from s0 st" and h: "pinnable st cfg purpose h"
    and p: "p = new_pin fs opts cfg f purpose h i t" and fresh: "\<And>a. (pin_name p, a) \<notin> pin_files.claims (sy_pins s0)"
    and req: "pq_alias opts = Some (ha_alias h)" "Some (pu_id purpose) = pq_purposeId opts" "purpose \<in> set (pc_purposes cfg)"
  shows "triple (pins_as s0)
     (andthen (write_pin env st p t) (\<lambda>_. andthen (appendEventRecord env ev) (\<lambda>_. ret (p, False))))
     (pinned_ok opts s0) (\<lambda>_. slots_hold)"
proof -
  let ?m = "andthen (write_pin env st p t) (\<lambda>_. andthen (appendEventRecord env ev) (\<lambda>_. ret (p, False)))"
  let ?C = "insert (pin_name p, pn_alias p) (pin_files.claims (sy_pins s0))"
  let ?I = "\<lambda>s. lease_files.slots_ok (sy_leases s) \<and> pins_within ?C s"
  have ex: "pin_files.exclusive ?C" by (rule new_pin_claim [OF pins st h _ fresh]) (simp add: p)
  have start: "?I s" if "pins_as s0 s" for s
    using that pin_files.slots_ok_within [OF pins]
    by (auto simp: pins_as_def pins_within_def intro: pin_files.within_mono)
  have keep: "keeps ?I ?m" by (intro keeps_struct keeps_pin_files [where p = p] insertI1)
  have slots: "slots_hold s'" if "pins_as s0 s" "?m s = (r, s')" for s r s'
    using keepsD [OF keep start [OF that(1)] that(2)] pin_files.within_slots_ok [OF _ ex]
    by (auto simp: slots_hold_def pins_within_def)
  have none: "dir_get (sy_pins s0) (pin_name p) = None"
    using fresh by (cases "dir_get (sy_pins s0) (pin_name p)") (auto simp: pin_files.claims_def)
  show ?thesis
  proof (rule tripleI)
    fix s x s'
    assume s: "pins_as s0 s" and run: "?m s = (Inr x, s')"
    from run obtain u s1 where w: "write_pin env st p t s = (Inr u, s1)"
      and rest: "andthen (appendEventRecord env ev) (\<lambda>_. ret (p, False)) s1 = (Inr x, s')" by (rule andthen_InrE)
    have log: "log_side (\<lambda>y. sy_pins y = sy_pins s1)" by (simp add: log_side_def of_files_def)
    have "keeps (\<lambda>y. sy_pins y = sy_pins s1) (andthen (appendEventRecord env ev) (\<lambda>_. ret (p, False)))"
      by (intro keeps_struct keeps_log log)
    from this refl rest have "sy_pins s' = dir_put (pin_name p) p (sy_pins s0)"
      using write_pin_ok [OF w] s by (auto simp: pins_as_def dest: keepsD)
    moreover have "dir_ok (sy_pins s0)" using pins by (simp add: pin_files.slots_ok_def)
    ultimately have "dir_get (sy_pins s') (pin_name p) = Some p" by (simp add: dir_get_put)
    moreover have "x = (p, False)" using rest by (auto simp: run_simps elim!: andthen_InrE)
    moreover obtain v where "sy_host s0 = Some v" "validateHostConfig (Some v) = Inr (bs_host st)"
      "bs_pins st = map snd (sy_pins s0)" "wf_state st" using st by (auto simp: read_from_def)
    moreover have "newly_pinned s0 p"
      unfolding newly_pinned_def using none h req(3) calculation(3-6) p new_pin_simps by metis
    ultimately show "pinned_ok opts s0 x s'"
      using slots [OF s run] req unfolding pinned_ok_def by (simp add: p)
  qed (use slots in blast)
qed

lemma triple_checked:
  assumes "\<And>x. r = Inr x \<Longrightarrow> triple P (k x) Q E" "\<And>e s. P s \<Longrightarrow> E e s"
  shows "triple P (andthen (check r) k) Q E"
  using assms by (cases r) (auto simp: triple_def run_simps)

lemma triple_asked:
  assumes "of_files P" "\<And>x. \<exists>w. x = fst (q w) \<Longrightarrow> triple P (k x) Q E"
  shows "triple P (andthen (ask q) k) Q E"
  unfolding triple_def
proof (intro allI impI)
  fix s :: "'a sys"
  assume "P s"
  obtain x w where q: "q (sy_world s) = (x, w)" by fastforce
  then have "x = fst (q (sy_world s))" by simp
  then have "triple P (k x) Q E" by (intro assms(2)) blast
  moreover have "P (s\<lparr>sy_world := w\<rparr>)" using \<open>P s\<close> assms(1) by (simp add: of_files_def)
  ultimately show "case andthen (ask q) k s of (Inl e, s') \<Rightarrow> E e s' | (Inr x, s') \<Rightarrow> Q x s'"
    using q by (simp add: triple_def ask_def run_andthen)
qed

lemma triple_looked: "(\<And>x. triple P (k x) Q E) \<Longrightarrow> triple P (andthen (look g) k) Q E"
  by (simp add: triple_def run_andthen run_simps)

lemma old_pin_file:
  assumes "pin_files.slots_ok (sy_pins s0)" "read_from s0 st" "pin_on st b = Some p"
  shows "dir_get (sy_pins s0) (pin_name p) = Some p \<and> pn_alias p = b"
proof -
  from pin_on_alias [OF _ assms(3)] assms(2) have p: "pn_alias p = b" "p \<in> snd ` set (sy_pins s0)" by (auto simp: read_from_def)
  then obtain k where "(k, p) \<in> set (sy_pins s0)" by auto
  then have "dir_get (sy_pins s0) k = Some p" using assms(1) by (simp add: pin_files.slots_ok_def dir_ok_def dir_get_def)
  moreover from this have "k = pin_name p" using assms(1) by (auto simp: pin_files.slots_ok_def)
  ultimately show ?thesis using p(1) by simp
qed

lemma create_pin_triple:
  assumes pins: "pin_files.slots_ok (sy_pins s0)" and fresh: "fresh_pin_ids env s0"
  shows "triple (pins_as s0) (createPinBroker env opts) (pinned_ok opts s0) (\<lambda>_. slots_hold)"
proof -
  let ?Q = "pinned_ok opts s0"
  note side = log_side_pins_as [of s0] and files = log_sideD(1) [OF log_side_pins_as]
  have E: "pins_as s0 s \<Longrightarrow> slots_hold s" for s using pins by (simp add: pins_as_def slots_hold_def)
  have old: "triple (pins_as s0) (ret (p, True)) ?Q (\<lambda>_. slots_hold)"
    if "read_from s0 st" "getPurpose cfg (pq_purposeId opts) = Inr purpose" "pin_target st cfg purpose (pq_alias opts) = Inr (Inl p)"
    for st cfg purpose p
    using pin_target_old [OF that(3)] old_pin_file [OF pins that(1)] getPurpose_Inr [OF that(2)] E
    by (intro triple_ret) (auto simp: pinned_ok_def pins_as_def)
  have new: "triple (pins_as s0) (andthen (ask (en_uuid env)) (\<lambda>i.
       let p = new_pin fs opts cfg f purpose h i t in
       andthen (write_pin env st p t) (\<lambda>_.
       andthen (appendEventRecord env (pin_event ''pin.created'' p (pn_actorType p) t)) (\<lambda>_. ret (p, False)))))
     ?Q (\<lambda>_. slots_hold)"
    if "read_from s0 st" "getPurpose cfg (pq_purposeId opts) = Inr purpose" "pin_target st cfg purpose (pq_alias opts) = Inr (Inr h)"
    for st fs cfg f purpose h t
    unfolding Let_def using pin_target_new [OF that(3)] getPurpose_Inr [OF that(2)] fresh
    by (intro triple_asked files write_new_pin_triple [OF pins that(1)]) (auto simp: fresh_pin_ids_def pin_name_def)
  have load: "triple (pins_as s0) (andthen (loadBrokerState env lo t) k) ?Q (\<lambda>_. slots_hold)"
    if "\<And>st. read_from s0 st \<Longrightarrow> triple (pins_as s0) (k st) ?Q (\<lambda>_. slots_hold)" for lo t k
    by (rule triple_andthen [OF triple_weaken [OF load_pins_triple]], assumption, assumption, erule E, rule triple_pure, rule that)
  have target: "triple (pins_as s0) (case v of Inl p \<Rightarrow> a p | Inr h \<Rightarrow> b h) ?Q (\<lambda>_. slots_hold)"
    if "\<And>p. v = Inl p \<Longrightarrow> triple (pins_as s0) (a p) ?Q (\<lambda>_. slots_hold)"
      "\<And>h. v = Inr h \<Longrightarrow> triple (pins_as s0) (b h) ?Q (\<lambda>_. slots_hold)" for v a b
    using that by (cases v) auto
  have body: "triple (pins_as s0) (with_lock env Lease_lock m) ?Q (\<lambda>_. slots_hold)"
    if "triple (pins_as s0) m ?Q (\<lambda>_. slots_hold)" for m
    by (rule triple_with_lock [OF that files of_files_pinned])
      (auto simp: pinned_ok_def intro: E log_sideD(1) [OF log_side_slots])
  show ?thesis
    unfolding createPinBroker_def
    by (rule triple_first [OF keeps_nowIso [OF files] E], assumption, rule body, rule triple_checked, rule load,
        rule triple_first [OF keeps_readProjectConfig [OF files] E], assumption, rule triple_prod,
        rule triple_first [OF keeps_log(4) [OF side] E], assumption, rule triple_checked, rule triple_checked, rule target,
        simp, erule (2) old, rule triple_looked, simp, erule (2) new) (auto intro: E)
qed

section \<open>Clearing\<close>

definition cleared :: "'w sys \<Rightarrow> pin \<Rightarrow> 'w sys \<Rightarrow> bool" where
  "cleared s0 p s \<longleftrightarrow> slots_hold s \<and> sy_pins s = dir_del (pin_name p) (sy_pins s0)"

lemma remove_pin_triple:
  assumes "pin_files.slots_ok (sy_pins s0)" "dir_get (sy_pins s0) (pin_name p) = Some p"
  shows "triple (pins_as s0) (remove_pin_file env p) (\<lambda>_. cleared s0 p) (\<lambda>_. slots_hold)"
proof (rule tripleI)
  fix s u s'
  assume s: "pins_as s0 s" and run: "remove_pin_file env p s = (Inr u, s')"
  from removeIfExists_ok [OF run [unfolded remove_pin_file_def]] s assms(2)
  obtain w where "s' = del_pin (pin_name p) (s\<lparr>sy_world := w\<rparr>)" by (auto simp: pins_as_def)
  with s assms(1) show "cleared s0 p s'"
    by (simp add: cleared_def slots_hold_def del_pin_def pins_as_def pin_files.slots_del)
next
  fix s e s'
  assume s: "pins_as s0 s" and run: "remove_pin_file env p s = (Inl e, s')"
  then have "slots_hold s" using assms(1) by (simp add: pins_as_def slots_hold_def)
  moreover have "keeps slots_hold (remove_pin_file env p)"
    unfolding remove_pin_file_def
    by (rule keeps_removeIfExists) (simp_all add: of_files_def slots_hold_def del_pin_def pin_files.slots_del)
  ultimately show "slots_hold s'" using run by (blast dest: keepsD)
qed

lemma clear_pin_triple:
  assumes pins: "pin_files.slots_ok (sy_pins s0)"
  shows "triple (pins_as s0) (clearPinBroker env opts)
    (\<lambda>p s. cleared s0 p s \<and> Some (pn_alias p) = pq_alias opts \<and> dir_get (sy_pins s0) (pin_name p) = Some p) (\<lambda>_. slots_hold)"
proof -
  let ?Q = "\<lambda>p s. cleared s0 p s \<and> Some (pn_alias p) = pq_alias opts \<and> dir_get (sy_pins s0) (pin_name p) = Some p"
  note side = log_side_pins_as [of s0] and files = log_sideD(1) [OF log_side_pins_as]
  have E: "pins_as s0 s \<Longrightarrow> slots_hold s" for s using pins by (simp add: pins_as_def slots_hold_def)
  have log: "log_side (cleared s0 p)" for p
    unfolding cleared_def slots_hold_def
    by (rule log_side_leases [where P = "\<lambda>ls ps _ _. (lease_files.slots_ok ls \<and> pin_files.slots_ok ps) \<and> ps = dir_del (pin_name p) (sy_pins s0)"])
  have last: "triple (cleared s0 p) (andthen (appendEventRecord env ev) (\<lambda>_. ret p)) ?Q (\<lambda>_. slots_hold)"
    if "Some (pn_alias p) = pq_alias opts" "dir_get (sy_pins s0) (pin_name p) = Some p" for p ev
    by (rule triple_first [OF keeps_log(1) [OF log]], simp add: cleared_def, rule triple_ret, simp add: that)
  have rm: "triple (pins_as s0) (andthen (remove_pin_file env p) (\<lambda>_. andthen (appendEventRecord env ev) (\<lambda>_. ret p))) ?Q
      (\<lambda>_. slots_hold)"
    if "read_from s0 st" "Option.bind (pq_alias opts) (pin_on st) = Some p" for st p ev
  proof -
    from that(2) obtain b where b: "pq_alias opts = Some b" "pin_on st b = Some p" by (cases "pq_alias opts") auto
    note o' = old_pin_file [OF pins that(1) b(2)]
    show ?thesis by (rule triple_andthen [OF remove_pin_triple [OF pins]], simp add: o', rule last) (simp_all add: o' b(1))
  qed
  have load: "triple (pins_as s0) (andthen (loadBrokerState env lo t) k) ?Q (\<lambda>_. slots_hold)"
    if "\<And>st. read_from s0 st \<Longrightarrow> triple (pins_as s0) (k st) ?Q (\<lambda>_. slots_hold)" for lo t k
    by (rule triple_andthen [OF triple_weaken [OF load_pins_triple]], assumption, assumption, erule E, rule triple_pure, rule that)
  have found: "triple (pins_as s0) (case v of None \<Rightarrow> throw e | Some p \<Rightarrow> b p) ?Q (\<lambda>_. slots_hold)"
    if "\<And>p. v = Some p \<Longrightarrow> triple (pins_as s0) (b p) ?Q (\<lambda>_. slots_hold)" for v e b
    using that by (cases v) (auto intro!: triple_throw E)
  have Q: "of_files (?Q p)" for p using log_sideD(1) [OF log, of p] by (auto simp: of_files_def)
  have body: "triple (pins_as s0) (with_lock env Lease_lock m) ?Q (\<lambda>_. slots_hold)"
    if "triple (pins_as s0) m ?Q (\<lambda>_. slots_hold)" for m
    by (rule triple_with_lock [OF that files Q]) (auto intro: E log_sideD(1) [OF log_side_slots] simp: cleared_def)
  show ?thesis
    unfolding clearPinBroker_def
    by (rule triple_first [OF keeps_nowIso [OF files] E], assumption, rule body, rule triple_checked, rule load, rule found,
        rule triple_If, rule triple_throw, erule E, rule triple_first [OF keeps_log(2) [OF side] E], assumption, erule (1) rm)
      (auto intro: E)
qed

section \<open>Properties\<close>


definition plain_pin :: pin_options where
  "plain_pin = \<lparr>pq_now = None, pq_termWaitMs = None, pq_skipLeaseIds = [], pq_inventory = None, pq_projectFilePath = Some ''/p.json'',
     pq_purposeId = Some ''build'', pq_alias = Some ''build-a'', pq_actorId = None, pq_actorType = None, pq_note = None\<rparr>"

lemma plain_pin_slots: "slots_hold (plain_sys [] [])" "fresh_pin_ids plain_env (plain_sys [] [])"
  by (simp_all add: slots_hold_def lease_files.slots_ok_def pin_files.slots_ok_def fresh_pin_ids_def pin_files.claims_def
      plain_sys_def dir_get_def dir_ok_def)


text \<open>Clearing a pin removes exactly the file of the pin on the alias that was asked for, and returns that pin.\<close>

theorem clear_removes_the_pin:
  assumes "clearPinBroker env opts s = (Inr p, s')" "slots_hold s"
  shows "Some (pn_alias p) = pq_alias opts \<and> dir_get (sy_pins s) (pin_name p) = Some p
    \<and> sy_pins s' = dir_del (pin_name p) (sy_pins s) \<and> slots_hold s'
    \<and> (\<forall>k y. dir_get (sy_pins s') k = Some y \<longrightarrow> pn_alias y \<noteq> pn_alias p)"
proof -
  have "pins_as s s" "pin_files.slots_ok (sy_pins s)" using assms(2) by (simp_all add: pins_as_def slots_hold_def)
  with tripleD(1) [OF clear_pin_triple _ assms(1)] have ok: "cleared s p s'" "Some (pn_alias p) = pq_alias opts"
    "dir_get (sy_pins s) (pin_name p) = Some p" by blast+
  have "pn_alias y \<noteq> pn_alias p" if "dir_get (sy_pins s') k = Some y" for k y
  proof -
    from that ok(1) have "k \<noteq> pin_name p" "dir_get (sy_pins s) k = Some y" by (auto simp: cleared_def dir_get_del split: if_splits)
    with ok(3) assms(2) show ?thesis unfolding slots_hold_def pin_files.slots_ok_def by blast
  qed
  with ok show ?thesis by (simp add: cleared_def)
qed

definition plain_pinned :: pin where
  "plain_pinned = \<lparr>pn_actorId = ''h'', pn_actorType = ''human'', pn_alias = ''build-a'', pn_createdAt = ''t'', pn_note = None,
     pn_pinId = ''pin-1'', pn_projectId = ''p'', pn_projectName = ''P'', pn_purposeId = Some ''build'', pn_repoRoot = ''/r''\<rparr>"

theorem clear_removes_the_pin_witness:
  "\<exists>s'. clearPinBroker plain_env plain_pin (plain_sys [] [plain_pinned]) = (Inr plain_pinned, s')
    \<and> dir_get (sy_pins s') ''pin-1.json'' = None"
proof -
  have ok: "case fst (clearPinBroker plain_env plain_pin (plain_sys [] [plain_pinned])) of Inr p \<Rightarrow> p = plain_pinned | Inl e \<Rightarrow> False"
    by code_simp
  obtain r s' where run: "clearPinBroker plain_env plain_pin (plain_sys [] [plain_pinned]) = (r, s')" by fastforce
  with ok have run: "clearPinBroker plain_env plain_pin (plain_sys [] [plain_pinned]) = (Inr plain_pinned, s')"
    by (cases r) auto
  have "slots_hold (plain_sys [] [plain_pinned])"
    by (auto simp: slots_hold_def lease_files.slots_ok_def pin_files.slots_ok_def plain_sys_def dir_get_def dir_ok_def
        split: if_splits)
  from clear_removes_the_pin [OF run this] have "sy_pins s' = dir_del (pin_name plain_pinned) (sy_pins (plain_sys [] [plain_pinned]))"
    by blast
  then have "dir_get (sy_pins s') ''pin-1.json'' = None" by (simp add: pin_name_def plain_pinned_def dir_get_del)
  with run show ?thesis by blast
qed

end
