(* ===== verification/Idle.thy ===== *)
theory Idle
  imports Pins
begin

text \<open>
  Shutting down idle simulators (\<open>readIdlePolicy\<close> to \<open>idleCleanupPlan\<close> and \<open>idlePolicyConfiguredBroker\<close> to
  \<open>cleanupIdleBroker\<close> in \<open>broker-core/index.mjs\<close>): a policy set by a human lets the broker shut down booted
  simulators that nobody has leased for a while; a cleanup by hand must confirm the plan it was shown.
  \<open>sha256Digest\<close> is the parameter \<open>digest\<close> and \<open>localeCompare\<close> the parameter \<open>loc\<close>.
\<close>

section \<open>The policy\<close>

definition readIdlePolicy :: "('w sys, int option) eff" where
  "readIdlePolicy = andthen (look sy_idle) (\<lambda>f. case f of
      Missing \<Rightarrow> ret None
    | Not_json \<Rightarrow> throw (broker_err ''Idle policy contains invalid JSON.'' ''invalid-config'')
    | Unreadable \<Rightarrow> throw (broker_err ''Idle policy could not be read.'' ''internal-error'')
    | Stored v \<Rightarrow> if v = JNull then ret None else andthen (check (validateIdlePolicy (Some v))) (\<lambda>g. ret (Some g)))"

definition removeIdlePolicy :: "'w env \<Rightarrow> ('w sys, unit) eff" where
  "removeIdlePolicy env = catching
     (removeIfExists env R_idle (\<lambda>s. sy_idle s \<noteq> Missing) (\<lambda>s. s\<lparr>sy_idle := Missing\<rparr>))
     (\<lambda>e. throw (broker_err ''Idle policy could not be removed.'' ''internal-error''))"

record idle_options =
  iq_now :: "string option"
  iq_termWaitMs :: "js option"
  iq_skipLeaseIds :: "string list"
  iq_inventory :: "inventory option"
  iq_actorType :: "string option"
  iq_actorId :: "string option"
  iq_graceSeconds :: "js option"
  iq_source :: "string option"
  iq_apply :: bool
  iq_confirmPlanId :: "string option"
  iq_persistNoChanges :: bool

definition human_required :: "string \<Rightarrow> berr" where
  "human_required m = broker_err m ''idle-human-required''"

definition requireHumanIdleActor :: "idle_options \<Rightarrow> string \<Rightarrow> berr + string" where
  "requireHumanIdleActor opts action =
    (if iq_actorType opts \<noteq> Some ''human'' then Inl (human_required (action @ '' requires --actor-type human.''))
     else case iq_actorId opts of
       None \<Rightarrow> Inl (human_required (action @ '' requires --actor-id <operator-id>.''))
     | Some i \<Rightarrow>
         if js_trim i = [] then Inl (human_required (action @ '' requires --actor-id <operator-id>.''))
         else Inr (js_trim i))"

definition idlePolicyConfiguredBroker :: "('w sys, bool) eff" where
  "idlePolicyConfiguredBroker = andthen readIdlePolicy (\<lambda>p. ret (p \<noteq> None))"

definition idle_event :: "string \<Rightarrow> string option \<Rightarrow> string \<Rightarrow> string list \<Rightarrow> string \<Rightarrow> event" where
  "idle_event type a actorType detail timestamp = event_of type a (Some actorType) None None None detail timestamp"

definition enableIdlePolicyBroker :: "'w env \<Rightarrow> idle_options \<Rightarrow> ('w sys, int) eff" where
  "enableIdlePolicyBroker env opts =
    andthen (nowIso env (iq_now opts)) (\<lambda>lockTimestamp.
    andthen (check (requireHumanIdleActor opts ''Idle policy enable'')) (\<lambda>actorId.
    andthen (check (requireBoundedInteger (iq_graceSeconds opts) ''grace-seconds'' min_idle_grace_seconds max_idle_grace_seconds)) (\<lambda>g.
    with_lock env Lease_lock (
      andthen (nowIso env (iq_now opts)) (\<lambda>timestamp.
      andthen (catching (writeJsonAtomicRestricted env R_idle (\<lambda>s. s\<lparr>sy_idle := Stored (idle_policy_json g)\<rparr>))
          (\<lambda>e. throw (broker_err ''Idle policy could not be persisted.'' ''internal-error''))) (\<lambda>_.
      andthen (appendEventRecord env (idle_event ''idle.policy.enabled'' None ''human'' [actorId] timestamp)) (\<lambda>_.
        ret g)))))))"

definition disableIdlePolicyBroker :: "'w env \<Rightarrow> idle_options \<Rightarrow> ('w sys, bool) eff" where
  "disableIdlePolicyBroker env opts =
    andthen (nowIso env (iq_now opts)) (\<lambda>lockTimestamp.
    andthen (check (requireHumanIdleActor opts ''Idle policy disable'')) (\<lambda>actorId.
    with_lock env Lease_lock (
      andthen (nowIso env (iq_now opts)) (\<lambda>timestamp.
      andthen (look (\<lambda>s. sy_idle s = Missing)) (\<lambda>unchanged.
      andthen (removeIdlePolicy env) (\<lambda>_.
      andthen (appendEventRecord env (idle_event ''idle.policy.disabled'' None ''human'' [actorId] timestamp)) (\<lambda>_.
        ret unchanged)))))))"

section \<open>Candidates\<close>

definition idle_candidate :: "broker_state \<Rightarrow> registry_entry \<Rightarrow> host_alias \<Rightarrow> bool" where
  "idle_candidate st e h \<longleftrightarrow> re_powerState e = Booted \<and> re_health e = Healthy \<and> lease_on st (ha_alias h) = None
     \<and> pin_on st (ha_alias h) = None \<and> ''manual-persistent'' \<notin> set (ha_capabilities h)"

definition idle_if :: "(registry_entry \<Rightarrow> host_alias \<Rightarrow> bool) \<Rightarrow> broker_state \<Rightarrow> host_alias \<Rightarrow> bool" where
  "idle_if P st h = (case rg_aliases (bs_registry st) (ha_alias h) of None \<Rightarrow> False | Some e \<Rightarrow> P e h)"

text \<open>An alias without an entry makes the filter throw.\<close>

definition idleBaseCandidates :: "broker_state \<Rightarrow> berr + host_alias list" where
  "idleBaseCandidates st =
    (if list_ex (\<lambda>h. rg_aliases (bs_registry st) (ha_alias h) = None) (hc_aliases (bs_host st)) then Inl type_error
     else Inr (filter (idle_if (idle_candidate st) st) (hc_aliases (bs_host st))))"

definition idleDeadline :: "date_parse \<Rightarrow> registry_entry \<Rightarrow> int \<Rightarrow> int option" where
  "idleDeadline dp e graceSeconds = map_option (\<lambda>t. t + graceSeconds * 1000) (parse_opt dp (re_lastLeaseReleasedAt e))"

definition idle_expired :: "date_parse \<Rightarrow> int \<Rightarrow> string \<Rightarrow> registry_entry \<Rightarrow> bool" where
  "idle_expired dp graceSeconds timestamp e =
    (case (idleDeadline dp e graceSeconds, dp timestamp) of (Some d, Some now) \<Rightarrow> d \<le> now | _ \<Rightarrow> False)"

definition idleEligibleCandidates :: "date_parse \<Rightarrow> broker_state \<Rightarrow> int \<Rightarrow> string \<Rightarrow> berr + host_alias list" where
  "idleEligibleCandidates dp st graceSeconds timestamp =
    seq (idleBaseCandidates st) (\<lambda>hs. Inr (filter (idle_if (\<lambda>e _. idle_expired dp graceSeconds timestamp e) st) hs))"

record idle_summary =
  im_configured :: bool
  im_eligibleCount :: nat
  im_graceSeconds :: "int option"
  im_lastCleanupResult :: "cleanup_result option"
  im_nextCleanupMs :: "int option"

definition unconfiguredIdleSummary :: "broker_state \<Rightarrow> idle_summary" where
  "unconfiguredIdleSummary st = \<lparr>im_configured = False, im_eligibleCount = 0, im_graceSeconds = None,
     im_lastCleanupResult = rg_lastCleanupResult (bs_registry st), im_nextCleanupMs = None\<rparr>"

definition isIdlePolicyReadError :: "berr \<Rightarrow> bool" where
  "isIdlePolicyReadError e = (is_broker_error e \<and> (err_field e = Some ''idle-policy.graceSeconds''
     \<or> starts_with (err_message e) ''Idle policy'' \<or> starts_with (err_message e) ''idle-policy''))"

text \<open>\<open>new Date(ms).toISOString()\<close> throws outside of the range of dates; the time is kept in milliseconds.\<close>

definition date_ms :: "int option \<Rightarrow> berr + int" where
  "date_ms t = (case t of None \<Rightarrow> Inl (HostError ''RangeError'')
     | Some ms \<Rightarrow> if \<bar>ms\<bar> \<le> 8640000000000000 then Inr ms else Inl (HostError ''RangeError''))"

definition idle_deadlines :: "date_parse \<Rightarrow> broker_state \<Rightarrow> int \<Rightarrow> host_alias list \<Rightarrow> int list" where
  "idle_deadlines dp st graceSeconds hs = List.map_filter (\<lambda>h.
     Option.bind (rg_aliases (bs_registry st) (ha_alias h)) (\<lambda>e. idleDeadline dp e graceSeconds)) hs"

definition buildIdleSummary :: "'w env \<Rightarrow> broker_state \<Rightarrow> string \<Rightarrow> ('w sys, idle_summary) eff" where
  "buildIdleSummary env st timestamp =
    andthen readIdlePolicy (\<lambda>policy. case policy of
        None \<Rightarrow> ret (unconfiguredIdleSummary st)
      | Some g \<Rightarrow>
          andthen (check (idleBaseCandidates st)) (\<lambda>hs.
          andthen (check (idleEligibleCandidates (en_date env) st g timestamp)) (\<lambda>eligible.
          let deadlines = idle_deadlines (en_date env) st g hs in
          andthen (check (case deadlines of [] \<Rightarrow> Inr None
              | d # ds \<Rightarrow> map_sum id Some (date_ms (map_option (\<lambda>now. max now (fold min ds d)) (en_date env timestamp))))) (\<lambda>next_ms.
            ret \<lparr>im_configured = True, im_eligibleCount = length eligible, im_graceSeconds = Some g,
                 im_lastCleanupResult = rg_lastCleanupResult (bs_registry st), im_nextCleanupMs = next_ms\<rparr>))))"

text \<open>The fingerprint of a cleanup plan; \<open>IDLE_SCHEMA_VERSION\<close> is 1.\<close>

definition idle_fingerprint :: "(string \<Rightarrow> string \<Rightarrow> int) \<Rightarrow> host_alias list \<Rightarrow> js" where
  "idle_fingerprint loc candidates = JObj
    [(''candidates'', JArr (map (\<lambda>(a, u). JObj [(''alias'', JStr a), (''simulatorId'', JStr u)])
        (js_sort (\<lambda>l r. loc (fst l) (fst r)) (map (\<lambda>h. (ha_alias h, ha_simulatorId h)) candidates)))),
     (''command'', JStr ''idle.cleanup''), (''schemaVersion'', JInt 1)]"

definition idleCleanupPlan :: "(string \<Rightarrow> string \<Rightarrow> int) \<Rightarrow> (js \<Rightarrow> string) \<Rightarrow> broker_state \<Rightarrow> berr + (host_alias list \<times> string)" where
  "idleCleanupPlan loc digest st =
    seq (idleBaseCandidates st) (\<lambda>hs. Inr (hs, digest (idle_fingerprint loc hs)))"

section \<open>Shutting down\<close>

definition loadPublicSafeIdleState :: "('w sys, 'a) eff \<Rightarrow> ('w sys, 'a) eff" where
  "loadPublicSafeIdleState loader = catching loader (\<lambda>e.
     throw (broker_err ''Idle broker state could not be read.''
       (if is_broker_error e \<and> (err_reason e = Some ''missing-host-config'' \<or> err_reason e = Some ''invalid-config'')
        then nullish (err_reason e) [] else ''internal-error'')))"

definition idle_load :: "'w env \<Rightarrow> idle_options \<Rightarrow> string \<Rightarrow> ('w sys, broker_state) eff" where
  "idle_load env opts timestamp = loadPublicSafeIdleState
     (andthen (check (stateLoadOptions (iq_termWaitMs opts) (iq_skipLeaseIds opts) (iq_inventory opts) (iq_now opts)))
       (\<lambda>lo. loadBrokerState env (lo\<lparr>lo_idle := True\<rparr>) timestamp))"

definition idleStatusBroker :: "'w env \<Rightarrow> idle_options \<Rightarrow> ('w sys, idle_summary) eff" where
  "idleStatusBroker env opts =
    andthen (nowIso env (iq_now opts)) (\<lambda>_.
    with_lock env Lease_lock (
      andthen (nowIso env (iq_now opts)) (\<lambda>timestamp.
      andthen (idle_load env opts timestamp) (\<lambda>st. buildIdleSummary env st timestamp))))"

definition idleCleanupStatus :: "int \<Rightarrow> int \<Rightarrow> string" where
  "idleCleanupStatus shutdownCount failureCount =
    (if 0 < failureCount then ''repair_needed'' else if 0 < shutdownCount then ''success'' else ''no_changes'')"

record idle_run =
  ir_shutdowns :: int
  ir_failures :: int
  ir_registry :: registry

definition idle_failed_entry :: "string \<Rightarrow> registry_entry \<Rightarrow> registry_entry" where
  "idle_failed_entry t e = e\<lparr>re_health := Repair_needed, re_driftReason := Some ''idle-shutdown-failed'', re_updatedAt := t\<rparr>"

definition idle_shut_entry :: "string \<Rightarrow> registry_entry \<Rightarrow> registry_entry" where
  "idle_shut_entry t e = e\<lparr>re_powerState := Shutdown, re_lastShutdownAt := Some t, re_updatedAt := t\<rparr>"

text \<open>One turn of the loop.  The shutdown is caught, the write of the registry after it is not.\<close>

definition idle_shutdown ::
  "'w env \<Rightarrow> host_config \<Rightarrow> idle_options \<Rightarrow> string \<Rightarrow> host_alias \<Rightarrow> idle_run \<Rightarrow> ('w sys, idle_run) eff" where
  "idle_shutdown env hc opts source h acc =
    (let a = ha_alias h; rg = ir_registry acc; actorType = nullish (iq_actorType opts) ''system'' in
     andthen (catching (andthen (invokeLifecycleAdapter ''shutdown'' a (lift (sc_shutdown (en_simctl env) (ha_simulatorId h))))
         (\<lambda>_. ret True)) (\<lambda>_. ret False)) (\<lambda>done'.
     andthen (nowIso env (iq_now opts)) (\<lambda>t.
       if rg_aliases rg a = None then throw type_error
       else if done' then
         andthen (appendEventRecord env (idle_event ''idle.simulator.shutdown'' (Some a) actorType [source] t)) (\<lambda>_.
           ret (acc\<lparr>ir_shutdowns := ir_shutdowns acc + 1, ir_registry := update_entry a (idle_shut_entry t) rg\<rparr>))
       else
         let rg' = (update_entry a (idle_failed_entry t) rg)\<lparr>rg_updatedAt := t\<rparr> in
         andthen (writeIdleRegistry env hc rg') (\<lambda>_.
         andthen (appendEventRecord env (idle_event ''idle.simulator.shutdown_failed'' (Some a) actorType [source] t)) (\<lambda>_.
           ret (acc\<lparr>ir_failures := ir_failures acc + 1, ir_registry := rg'\<rparr>))))))"

definition performIdleShutdowns ::
  "'w env \<Rightarrow> host_config \<Rightarrow> registry \<Rightarrow> host_alias list \<Rightarrow> idle_options \<Rightarrow> string \<Rightarrow> string \<Rightarrow> string
     \<Rightarrow> ('w sys, cleanup_result \<times> registry) eff" where
  "performIdleShutdowns env hc rg candidates opts timestamp eventType source =
    andthen (fold_eff (idle_shutdown env hc opts source) candidates \<lparr>ir_shutdowns = 0, ir_failures = 0, ir_registry = rg\<rparr>) (\<lambda>acc.
    andthen (if candidates \<noteq> [] then nowIso env (iq_now opts) else ret timestamp) (\<lambda>completedAt.
    let res = \<lparr>cr_completedAt = completedAt, cr_eligibleCount = int (length candidates), cr_failureCount = ir_failures acc,
               cr_shutdownCount = ir_shutdowns acc, cr_source = source,
               cr_status = idleCleanupStatus (ir_shutdowns acc) (ir_failures acc)\<rparr> in
    if candidates \<noteq> [] \<or> iq_persistNoChanges opts then
      let rg' = (ir_registry acc)\<lparr>rg_lastCleanupResult := Some res, rg_updatedAt := completedAt\<rparr> in
      andthen (writeIdleRegistry env hc rg') (\<lambda>_.
      andthen (appendEventRecord env (idle_event eventType None (nullish (iq_actorType opts) ''system'') [source] completedAt)) (\<lambda>_.
        ret (res, rg')))
    else ret (res, ir_registry acc)))"

datatype idle_outcome = Not_configured "reclaim_result option" | Reconciled int reclaim_result cleanup_result

text \<open>Without a policy the sweep of the slots is tried, and its errors are ignored.\<close>

definition reconcile_unconfigured :: "'w env \<Rightarrow> idle_options \<Rightarrow> string \<Rightarrow> ('w sys, idle_outcome) eff" where
  "reconcile_unconfigured env opts timestamp =
    andthen (catching
      (andthen (idle_load env opts timestamp) (\<lambda>st.
       andthen (performSlotReclaim env st (iq_actorType opts) timestamp None None False ''idle-reconcile'') (\<lambda>(res, rg).
         ret (Some res))))
      (\<lambda>_. ret None)) (\<lambda>r. ret (Not_configured r))"

definition reconcile_configured :: "'w env \<Rightarrow> idle_options \<Rightarrow> string \<Rightarrow> int \<Rightarrow> ('w sys, idle_outcome) eff" where
  "reconcile_configured env opts timestamp g =
    andthen (idle_load env opts timestamp) (\<lambda>st.
    andthen (performSlotReclaim env st (iq_actorType opts) timestamp None None False ''idle-reconcile'') (\<lambda>(swept, rg).
    andthen (check (idleEligibleCandidates (en_date env) (st\<lparr>bs_registry := rg\<rparr>) g timestamp)) (\<lambda>hs.
    andthen (performIdleShutdowns env (bs_host st) rg hs opts timestamp ''idle.reconciled''
        (nullish (iq_source opts) ''manual-reconcile'')) (\<lambda>(res, rg').
      ret (Reconciled g swept res)))))"

definition reconcileIdleBroker :: "'w env \<Rightarrow> idle_options \<Rightarrow> ('w sys, idle_outcome) eff" where
  "reconcileIdleBroker env opts =
    andthen (nowIso env (iq_now opts)) (\<lambda>_.
    with_lock env Lease_lock (
      andthen (nowIso env (iq_now opts)) (\<lambda>timestamp.
      andthen readIdlePolicy (\<lambda>policy. case policy of
          None \<Rightarrow> reconcile_unconfigured env opts timestamp
        | Some g \<Rightarrow> reconcile_configured env opts timestamp g))))"

text \<open>A preview returns the plan, an application the plan that was confirmed and its result.\<close>

datatype cleanup_outcome = Preview nat string | Applied string cleanup_result

definition idle_snapshot :: "'w env \<Rightarrow> idle_options \<Rightarrow> string \<Rightarrow> ('w sys, broker_state) eff" where
  "idle_snapshot env opts timestamp = loadPublicSafeIdleState
     (andthen (check (stateLoadOptions (iq_termWaitMs opts) (iq_skipLeaseIds opts) (iq_inventory opts) (iq_now opts)))
       (\<lambda>lo. readBrokerStateSnapshot env lo timestamp))"

definition stale_plan :: berr where
  "stale_plan = broker_err ''Idle cleanup confirmation is stale; rerun preview and confirm the current plan.'' ''idle-plan-stale''"

definition no_confirmation :: berr where
  "no_confirmation = broker_err ''Idle cleanup apply requires --confirm <plan-id>.'' ''idle-confirmation-required''"

definition preview_cleanup ::
  "(string \<Rightarrow> string \<Rightarrow> int) \<Rightarrow> (js \<Rightarrow> string) \<Rightarrow> 'w env \<Rightarrow> idle_options \<Rightarrow> ('w sys, cleanup_outcome) eff" where
  "preview_cleanup loc digest env opts =
     andthen (nowIso env (iq_now opts)) (\<lambda>timestamp.
     andthen (idle_snapshot env opts timestamp) (\<lambda>st.
     andthen (check (idleCleanupPlan loc digest st)) (\<lambda>(hs, planId). ret (Preview (length hs) planId))))"

text \<open>After the confirmation the registry is read again and brought up to date with the simulators.\<close>

definition apply_confirmed ::
  "'w env \<Rightarrow> idle_options \<Rightarrow> string \<Rightarrow> string \<Rightarrow> broker_state \<Rightarrow> host_alias list \<Rightarrow> string \<Rightarrow> ('w sys, cleanup_outcome) eff" where
  "apply_confirmed env opts actorId timestamp st hs planId =
     andthen (look sy_registry) (\<lambda>raw.
     andthen (check (normalizeRegistry raw (bs_host st) timestamp)) (\<lambda>rg.
     andthen (check (stateLoadOptions (iq_termWaitMs opts) (iq_skipLeaseIds opts) (iq_inventory opts) (iq_now opts))) (\<lambda>lo.
     andthen (read_inventory env (lo_inventory lo)) (\<lambda>iv.
     andthen (check (syncRegistryWithSimctl iv (bs_host st) rg)) (\<lambda>rg.
     andthen (performIdleShutdowns env (bs_host st) rg hs (opts\<lparr>iq_actorId := Some actorId, iq_actorType := Some ''human''\<rparr>)
         timestamp ''idle.cleanup.applied'' ''confirmed-cleanup'') (\<lambda>(res, rg').
       ret (Applied planId res)))))))"

definition apply_cleanup ::
  "(string \<Rightarrow> string \<Rightarrow> int) \<Rightarrow> (js \<Rightarrow> string) \<Rightarrow> 'w env \<Rightarrow> idle_options \<Rightarrow> string \<Rightarrow> ('w sys, cleanup_outcome) eff" where
  "apply_cleanup loc digest env opts actorId =
     andthen (nowIso env (iq_now opts)) (\<lambda>timestamp.
     andthen (idle_snapshot env opts timestamp) (\<lambda>st.
     andthen (check (idleCleanupPlan loc digest st)) (\<lambda>(hs, planId).
       if iq_confirmPlanId opts \<noteq> Some planId then throw stale_plan
       else apply_confirmed env opts actorId timestamp st hs planId)))"

definition cleanupIdleBroker ::
  "(string \<Rightarrow> string \<Rightarrow> int) \<Rightarrow> (js \<Rightarrow> string) \<Rightarrow> 'w env \<Rightarrow> idle_options \<Rightarrow> ('w sys, cleanup_outcome) eff" where
  "cleanupIdleBroker loc digest env opts =
    (if \<not> iq_apply opts then
       andthen (nowIso env (iq_now opts)) (\<lambda>_. with_lock env Lease_lock (preview_cleanup loc digest env opts))
     else
       andthen (check (requireHumanIdleActor opts ''Idle cleanup apply'')) (\<lambda>actorId.
         if js_trim (nullish (iq_confirmPlanId opts) []) = [] then throw no_confirmation
         else andthen (nowIso env (iq_now opts)) (\<lambda>_. with_lock env Lease_lock (apply_cleanup loc digest env opts actorId))))"

section \<open>What a run of shutdowns does\<close>

text \<open>The entry of an alias after the aliases of \<open>done'\<close> were tried.\<close>

definition idle_tried :: "bool \<Rightarrow> registry_entry \<Rightarrow> registry_entry \<Rightarrow> bool" where
  "idle_tried failed e e' \<longleftrightarrow> (\<exists>t. e' = idle_shut_entry t e \<or> failed \<and> e' = idle_failed_entry t e)"

definition idle_effect :: "string set \<Rightarrow> bool \<Rightarrow> registry \<Rightarrow> registry \<Rightarrow> bool" where
  "idle_effect tried failed rg rg' \<longleftrightarrow>
     (\<forall>a. if a \<in> tried then rel_option (idle_tried failed) (rg_aliases rg a) (rg_aliases rg' a)
          else rg_aliases rg' a = rg_aliases rg a)"

definition idle_inv :: "registry \<Rightarrow> string list \<Rightarrow> idle_run \<Rightarrow> bool" where
  "idle_inv rg tried acc \<longleftrightarrow> ir_shutdowns acc + ir_failures acc = int (length tried) \<and> 0 \<le> ir_shutdowns acc \<and> 0 \<le> ir_failures acc
     \<and> idle_effect (set tried) (0 < ir_failures acc) rg (ir_registry acc)"

lemma idle_tried_mono: "idle_tried f e e' \<Longrightarrow> (f \<Longrightarrow> f') \<Longrightarrow> idle_tried f' e e'"
  unfolding idle_tried_def by blast

lemma idle_effect_mono: "idle_effect T f rg rg' \<Longrightarrow> (f \<Longrightarrow> f') \<Longrightarrow> idle_effect T f' rg rg'"
  unfolding idle_effect_def
  by (intro allI, drule_tac x = a in spec) (auto split: if_splits elim!: option.rel_mono_strong idle_tried_mono)

lemma idle_effect_cong: "rg_aliases rg2 = rg_aliases rg1 \<Longrightarrow> idle_effect T f rg rg2 = idle_effect T f rg rg1"
  by (simp add: idle_effect_def)

lemma update_entry_aliases: "rg_aliases (update_entry a f rg) b = (if b = a then map_option f (rg_aliases rg a) else rg_aliases rg b)"
  by (auto simp: update_entry_def split: option.splits)

lemma idle_effect_step:
  assumes "idle_effect T f rg rg1" "a \<notin> T" "\<And>e. idle_tried f e (g e)" "rg_aliases rg2 = rg_aliases (update_entry a g rg1)"
  shows "idle_effect (insert a T) f rg rg2"
  unfolding idle_effect_def
proof (intro allI)
  fix b
  from assms(1) have b: "if b \<in> T then rel_option (idle_tried f) (rg_aliases rg b) (rg_aliases rg1 b)
      else rg_aliases rg1 b = rg_aliases rg b" by (simp add: idle_effect_def)
  show "if b \<in> insert a T then rel_option (idle_tried f) (rg_aliases rg b) (rg_aliases rg2 b)
      else rg_aliases rg2 b = rg_aliases rg b"
    using b assms(2,3) by (cases "rg_aliases rg b") (auto simp: assms(4) update_entry_aliases)
qed

lemma idle_shutdown_ok:
  assumes "idle_shutdown env hc opts source h acc s = (Inr acc', s')" "idle_inv rg tried acc" "ha_alias h \<notin> set tried"
  shows "idle_inv rg (tried @ [ha_alias h]) acc'"
proof -
  let ?rg = "ir_registry acc" and ?a = "ha_alias h" and ?ty = "nullish (iq_actorType opts) ''system''"
  from assms(1) obtain d s1 t s2 where r: "(if rg_aliases ?rg ?a = None then throw type_error
       else if d then
         andthen (appendEventRecord env (idle_event ''idle.simulator.shutdown'' (Some ?a) ?ty [source] t)) (\<lambda>_.
           ret (acc\<lparr>ir_shutdowns := ir_shutdowns acc + 1, ir_registry := update_entry ?a (idle_shut_entry t) ?rg\<rparr>))
       else andthen (writeIdleRegistry env hc ((update_entry ?a (idle_failed_entry t) ?rg)\<lparr>rg_updatedAt := t\<rparr>)) (\<lambda>_.
         andthen (appendEventRecord env (idle_event ''idle.simulator.shutdown_failed'' (Some ?a) ?ty [source] t)) (\<lambda>_.
           ret (acc\<lparr>ir_failures := ir_failures acc + 1,
             ir_registry := (update_entry ?a (idle_failed_entry t) ?rg)\<lparr>rg_updatedAt := t\<rparr>\<rparr>)))) s2 = (Inr acc', s')"
    unfolding idle_shutdown_def Let_def by (elim andthen_InrE)
  have "acc' = acc\<lparr>ir_shutdowns := ir_shutdowns acc + 1,
        ir_registry := update_entry (ha_alias h) (idle_shut_entry t) (ir_registry acc)\<rparr>
    \<or> acc' = acc\<lparr>ir_failures := ir_failures acc + 1,
        ir_registry := (update_entry (ha_alias h) (idle_failed_entry t) (ir_registry acc))\<lparr>rg_updatedAt := t\<rparr>\<rparr>"
    using r by (auto simp: run_simps elim!: andthen_InrE split: if_splits)
  then show ?thesis
  proof
    assume a: "acc' = acc\<lparr>ir_shutdowns := ir_shutdowns acc + 1,
        ir_registry := update_entry (ha_alias h) (idle_shut_entry t) (ir_registry acc)\<rparr>"
    have "idle_effect (insert (ha_alias h) (set tried)) (0 < ir_failures acc) rg (ir_registry acc')"
      using assms(2,3) by (intro idle_effect_step [where g = "idle_shut_entry t"]) (auto simp: idle_inv_def idle_tried_def a)
    then show ?thesis using assms(2) by (simp add: idle_inv_def a)
  next
    assume a: "acc' = acc\<lparr>ir_failures := ir_failures acc + 1,
        ir_registry := (update_entry (ha_alias h) (idle_failed_entry t) (ir_registry acc))\<lparr>rg_updatedAt := t\<rparr>\<rparr>"
    have pos: "0 < ir_failures acc'" using assms(2) by (simp add: idle_inv_def a)
    have "idle_effect (set tried) (0 < ir_failures acc') rg (ir_registry acc)"
      using assms(2) pos by (auto simp: idle_inv_def elim: idle_effect_mono)
    then have "idle_effect (insert (ha_alias h) (set tried)) (0 < ir_failures acc') rg (ir_registry acc')"
      using assms(3) pos by (rule_tac idle_effect_step [where g = "idle_failed_entry t"]) (auto simp: idle_tried_def a)
    then show ?thesis using assms(2) by (simp add: idle_inv_def a)
  qed
qed

lemma idle_loop_ok:
  assumes "fold_eff (idle_shutdown env hc opts source) hs \<lparr>ir_shutdowns = 0, ir_failures = 0, ir_registry = rg\<rparr> s = (Inr acc, s')"
    and "distinct (map ha_alias hs)"
  shows "idle_inv rg (map ha_alias hs) acc"
proof -
  let ?J = "\<lambda>rest acc (s :: 'a sys). \<exists>tried. hs = tried @ rest \<and> idle_inv rg (map ha_alias tried) acc"
  have "?J hs \<lparr>ir_shutdowns = 0, ir_failures = 0, ir_registry = rg\<rparr> s" by (simp add: idle_inv_def idle_effect_def)
  moreover have "?J R acc' w'" if j: "?J (h # R) acc w" and step: "idle_shutdown env hc opts source h acc w = (Inr acc', w')"
    for h R acc w acc' w'
  proof -
    from j obtain tried where t: "hs = tried @ h # R" "idle_inv rg (map ha_alias tried) acc" by blast
    with assms(2) idle_shutdown_ok [OF step t(2)] have "idle_inv rg (map ha_alias (tried @ [h])) acc'" by auto
    with t(1) show ?thesis by (intro exI [of _ "tried @ [h]"]) simp
  qed
  ultimately have "?J [] acc s'" using fold_eff_rest [OF assms(1), where J = ?J] by blast
  then show ?thesis by simp
qed

lemma performIdleShutdowns_ok:
  assumes "performIdleShutdowns env hc rg hs opts t ev source s = (Inr (res, rg'), s')" "distinct (map ha_alias hs)"
  shows "cr_shutdownCount res + cr_failureCount res = int (length hs) \<and> cr_eligibleCount res = int (length hs)
    \<and> 0 \<le> cr_shutdownCount res \<and> 0 \<le> cr_failureCount res
    \<and> idle_effect (ha_alias ` set hs) (0 < cr_failureCount res) rg rg'
    \<and> (hs \<noteq> [] \<or> iq_persistNoChanges opts \<longrightarrow> sy_registry s' = Some (registry_text hc rg') \<and> rg_lastCleanupResult rg' = Some res)"
proof -
  from assms(1) obtain acc s1 where loop: "fold_eff (idle_shutdown env hc opts source) hs
      \<lparr>ir_shutdowns = 0, ir_failures = 0, ir_registry = rg\<rparr> s = (Inr acc, s1)"
    and rest: "andthen (if hs \<noteq> [] then nowIso env (iq_now opts) else ret t) (\<lambda>completedAt.
    let res = \<lparr>cr_completedAt = completedAt, cr_eligibleCount = int (length hs), cr_failureCount = ir_failures acc,
               cr_shutdownCount = ir_shutdowns acc, cr_source = source,
               cr_status = idleCleanupStatus (ir_shutdowns acc) (ir_failures acc)\<rparr> in
    if hs \<noteq> [] \<or> iq_persistNoChanges opts then
      let rg' = (ir_registry acc)\<lparr>rg_lastCleanupResult := Some res, rg_updatedAt := completedAt\<rparr> in
      andthen (writeIdleRegistry env hc rg') (\<lambda>_.
      andthen (appendEventRecord env (idle_event ev None (nullish (iq_actorType opts) ''system'') [source] completedAt)) (\<lambda>_.
        ret (res, rg')))
    else ret (res, ir_registry acc)) s1 = (Inr (res, rg'), s')"
    unfolding performIdleShutdowns_def by (rule andthen_InrE)
  have inv: "idle_inv rg (map ha_alias hs) acc" by (rule idle_loop_ok [OF loop assms(2)])
  from rest obtain c where res: "res = \<lparr>cr_completedAt = c, cr_eligibleCount = int (length hs), cr_failureCount = ir_failures acc,
               cr_shutdownCount = ir_shutdowns acc, cr_source = source,
               cr_status = idleCleanupStatus (ir_shutdowns acc) (ir_failures acc)\<rparr>"
    and al: "rg_aliases rg' = rg_aliases (ir_registry acc)"
    by (auto simp: Let_def run_simps elim!: andthen_InrE split: if_splits)
  have written: "sy_registry s' = Some (registry_text hc rg') \<and> rg_lastCleanupResult rg' = Some res" if "hs \<noteq> [] \<or> iq_persistNoChanges opts"
  proof -
    from rest that obtain u s2 s3 v c2 where w: "writeIdleRegistry env hc rg' s2 = (Inr u, s3)"
      and e: "appendEventRecord env (idle_event ev None (nullish (iq_actorType opts) ''system'') [source] c2) s3 = (Inr v, s')"
      and last: "rg_lastCleanupResult rg' = Some res"
      by (auto simp: Let_def run_simps elim!: andthen_InrE)
    have "keeps (\<lambda>x. sy_registry x = sy_registry s3) (appendEventRecord env x)" for x
      by (rule keeps_appendEvent) (simp_all add: of_files_def)
    from this refl e have "sy_registry s' = sy_registry s3" by (rule keepsD)
    with w last show ?thesis by (auto simp: writeIdleRegistry_def dest!: catching_throw_ok writeRegistry_ok)
  qed
  from inv written show ?thesis by (auto simp: res idle_inv_def idle_effect_cong [OF al])
qed

section \<open>Reconciling\<close>

text \<open>An alias whose simulator may be shut down: booted, healthy, unused, and released long enough ago.\<close>

definition idle_long :: "date_parse \<Rightarrow> int \<Rightarrow> string \<Rightarrow> broker_state \<Rightarrow> registry_entry \<Rightarrow> host_alias \<Rightarrow> bool" where
  "idle_long dp graceSeconds timestamp st e h \<longleftrightarrow> re_powerState e = Booted \<and> re_health e = Healthy
     \<and> lease_on st (ha_alias h) = None \<and> pin_on st (ha_alias h) = None \<and> ''manual-persistent'' \<notin> set (ha_capabilities h)
     \<and> (\<exists>released r now. re_lastLeaseReleasedAt e = Some released \<and> dp released = Some r \<and> dp timestamp = Some now
          \<and> r + graceSeconds * 1000 \<le> now)"

lemma idle_expired_iff:
  "dp [] = None \<Longrightarrow> idle_expired dp g t e \<longleftrightarrow> (\<exists>released r now. re_lastLeaseReleasedAt e = Some released
     \<and> dp released = Some r \<and> dp t = Some now \<and> r + g * 1000 \<le> now)"
  by (cases "re_lastLeaseReleasedAt e"; cases "dp (nullish (re_lastLeaseReleasedAt e) [])"; cases "dp t")
    (auto simp: idle_expired_def idleDeadline_def parse_opt_def)

lemma idle_eligible_iff:
  assumes "idleEligibleCandidates dp st g t = Inr hs" "dp [] = None"
  shows "h \<in> set hs \<longleftrightarrow> h \<in> set (hc_aliases (bs_host st))
    \<and> (\<exists>e. rg_aliases (bs_registry st) (ha_alias h) = Some e \<and> idle_long dp g t st e h)"
proof -
  from assms(1) have "hs = filter (idle_if (\<lambda>e _. idle_expired dp g t e) st)
      (filter (idle_if (idle_candidate st) st) (hc_aliases (bs_host st)))"
    by (auto simp: idleEligibleCandidates_def idleBaseCandidates_def seq_def split: if_splits)
  then show ?thesis
    using idle_expired_iff [where dp = dp, OF assms(2)]
    by (cases "rg_aliases (bs_registry st) (ha_alias h)") (auto simp: idle_if_def idle_candidate_def idle_long_def)
qed

lemma idle_eligible_distinct:
  "idleEligibleCandidates dp st g t = Inr hs \<Longrightarrow> distinct (map ha_alias (hc_aliases (bs_host st))) \<Longrightarrow> distinct (map ha_alias hs)"
  by (auto simp: idleEligibleCandidates_def idleBaseCandidates_def seq_def distinct_map_filter split: if_splits)

lemma safe_load_InrD: "loadPublicSafeIdleState m s = (Inr x, s') \<Longrightarrow> m s = (Inr x, s')"
  unfolding loadPublicSafeIdleState_def by (rule catching_throw_ok)

lemma idle_load_ok: "idle_load env opts t s = (Inr st, s') \<Longrightarrow> lease_files.slots_ok (sy_leases s) \<Longrightarrow> loaded st s'"
  unfolding idle_load_def by (drule safe_load_InrD, erule andthen_checkE) (blast dest: loadBrokerState_ok)

lemma locked_now_InrE:
  assumes "andthen (nowIso env a) (\<lambda>_. with_lock env k (andthen (nowIso env b) m)) s = (Inr x, s')"
  obtains t w s9 w9 where "m t (s\<lparr>sy_world := w\<rparr>) = (Inr x, s9)" "s' = s9\<lparr>sy_world := w9\<rparr>"
proof -
  from assms obtain w0 where "with_lock env k (andthen (nowIso env b) m) (s\<lparr>sy_world := w0\<rparr>) = (Inr x, s')" by (rule nowIso_InrE)
  then obtain w1 s9 w9 where "andthen (nowIso env b) m (s\<lparr>sy_world := w0\<rparr>\<lparr>sy_world := w1\<rparr>) = (Inr x, s9)"
    and s': "s' = s9\<lparr>sy_world := w9\<rparr>" by (rule with_lock_InrE)
  then have "andthen (nowIso env b) m (s\<lparr>sy_world := w1\<rparr>) = (Inr x, s9)" by simp
  then obtain t w where "m t (s\<lparr>sy_world := w1\<rparr>\<lparr>sy_world := w\<rparr>) = (Inr x, s9)" by (rule nowIso_InrE)
  with s' show ?thesis by (intro that) simp_all
qed

lemma configured_ok:
  assumes "reconcile_configured env opts t g s = (Inr (Reconciled g' swept res), s')" "lease_files.slots_ok (sy_leases s)"
  shows "g' = g \<and> (\<exists>st rg rg' hs s1. wf_state st
    \<and> idleEligibleCandidates (en_date env) (st\<lparr>bs_registry := rg\<rparr>) g t = Inr hs
    \<and> performIdleShutdowns env (bs_host st) rg hs opts t ''idle.reconciled'' (nullish (iq_source opts) ''manual-reconcile'') s1
       = (Inr (res, rg'), s'))"
proof -
  from assms(1) obtain st sa where load: "idle_load env opts t s = (Inr st, sa)"
    and r: "andthen (performSlotReclaim env st (iq_actorType opts) t None None False ''idle-reconcile'') (\<lambda>(swept, rg).
    andthen (check (idleEligibleCandidates (en_date env) (st\<lparr>bs_registry := rg\<rparr>) g t)) (\<lambda>hs.
    andthen (performIdleShutdowns env (bs_host st) rg hs opts t ''idle.reconciled''
        (nullish (iq_source opts) ''manual-reconcile'')) (\<lambda>(res, rg').
      ret (Reconciled g swept res)))) sa = (Inr (Reconciled g' swept res), s')"
    unfolding reconcile_configured_def by (rule andthen_InrE)
  from idle_load_ok [OF load assms(2)] have wf: "wf_state st" by (simp add: loaded_def)
  from r obtain sw rg sb where r: "andthen (check (idleEligibleCandidates (en_date env) (st\<lparr>bs_registry := rg\<rparr>) g t)) (\<lambda>hs.
    andthen (performIdleShutdowns env (bs_host st) rg hs opts t ''idle.reconciled''
        (nullish (iq_source opts) ''manual-reconcile'')) (\<lambda>(res, rg').
      ret (Reconciled g sw res))) sb = (Inr (Reconciled g' swept res), s')"
    by (rule andthen_InrE) (auto split: prod.splits)
  then obtain hs where hs: "idleEligibleCandidates (en_date env) (st\<lparr>bs_registry := rg\<rparr>) g t = Inr hs"
    and r: "andthen (performIdleShutdowns env (bs_host st) rg hs opts t ''idle.reconciled''
        (nullish (iq_source opts) ''manual-reconcile'')) (\<lambda>(res, rg').
      ret (Reconciled g sw res)) sb = (Inr (Reconciled g' swept res), s')" by (rule andthen_checkE)
  from r obtain rg' where "g' = g" "performIdleShutdowns env (bs_host st) rg hs opts t ''idle.reconciled''
        (nullish (iq_source opts) ''manual-reconcile'') sb = (Inr (res, rg'), s')"
    by (rule andthen_InrE) (auto simp: run_simps split: prod.splits)
  with wf hs show ?thesis by blast
qed

lemma reconcile_ok:
  assumes "reconcileIdleBroker env opts s = (Inr (Reconciled g swept res), s')"
  shows "\<exists>t w s9 w9. reconcile_configured env opts t g (s\<lparr>sy_world := w\<rparr>) = (Inr (Reconciled g swept res), s9)
    \<and> s' = s9\<lparr>sy_world := w9\<rparr>"
proof -
  let ?pick = "\<lambda>t policy. case policy of None \<Rightarrow> reconcile_unconfigured env opts t
        | Some g \<Rightarrow> reconcile_configured env opts t g"
  from assms obtain t w2 s9 w9 where b: "andthen readIdlePolicy (?pick t) (s\<lparr>sy_world := w2\<rparr>) = (Inr (Reconciled g swept res), s9)"
    and s': "s' = s9\<lparr>sy_world := w9\<rparr>"
    unfolding reconcileIdleBroker_def by (rule locked_now_InrE)
  from b obtain p sp where p: "readIdlePolicy (s\<lparr>sy_world := w2\<rparr>) = (Inr p, sp)"
    and run: "?pick t p sp = (Inr (Reconciled g swept res), s9)" by (rule andthen_InrE)
  have sp: "sp = s\<lparr>sy_world := w2\<rparr>"
    using p by (auto simp: readIdlePolicy_def run_andthen run_simps split: stored.splits if_splits sum.splits)
  have "reconcile_unconfigured env opts t sp \<noteq> (Inr (Reconciled g swept res), s9)"
    by (auto simp: reconcile_unconfigured_def run_simps elim!: andthen_InrE)
  with run obtain g' where g': "reconcile_configured env opts t g' sp = (Inr (Reconciled g swept res), s9)"
    by (cases p) auto
  then have "g' = g" unfolding reconcile_configured_def by (auto simp: run_simps elim!: andthen_InrE split: prod.splits)
  with g' sp s' show ?thesis by blast
qed

section \<open>Confirmed cleanups\<close>

lemma snapshot_hosts:
  assumes "readBrokerStateSnapshot env lo t s = (Inr st, s')"
  shows "distinct (map ha_alias (hc_aliases (bs_host st)))"
proof -
  from assms obtain hc s1 where h: "readHostConfigOrThrow s = (Inr hc, s1)"
    and r: "andthen (look sy_projects) (\<lambda>rawProjects.
    andthen (check (normalizeKnownProjects rawProjects t)) (\<lambda>known.
    andthen (look sy_registry) (\<lambda>rawRegistry.
    andthen (check (normalizeRegistry rawRegistry hc t)) (\<lambda>rg.
    andthen (look (\<lambda>s. map snd (sy_pins s))) (\<lambda>pins.
    andthen (look (\<lambda>s. map snd (sy_leases s))) (\<lambda>leases.
    andthen (fold_eff (snapshot_lease env lo t) leases
        \<lparr>la_active = [], la_registry = rg, la_sampled = None\<rparr>) (\<lambda>acc.
    andthen (current_registry env lo t hc (la_active acc) pins (la_registry acc)) (\<lambda>rg'.
      ret (state_of hc known (la_active acc) pins rg'))))))))) s1 = (Inr st, s')"
    unfolding readBrokerStateSnapshot_def by (rule andthen_InrE)
  from r have "bs_host st = hc" by (elim andthen_InrE) (auto simp: run_simps state_of_def)
  moreover from h obtain v where "validateHostConfig (Some v) = Inr hc"
    by (auto simp: readHostConfigOrThrow_def run_andthen run_simps split: option.splits)
  ultimately show ?thesis using validateHostConfig_wf [of "Some v" hc] by (simp add: wf_host_config_def)
qed

lemma idle_snapshot_hosts: "idle_snapshot env opts t s = (Inr st, s') \<Longrightarrow> distinct (map ha_alias (hc_aliases (bs_host st)))"
  unfolding idle_snapshot_def by (drule safe_load_InrD, erule andthen_checkE) (rule snapshot_hosts)

text \<open>The simulators a plan names.\<close>

definition plan_keys :: "host_alias list \<Rightarrow> (string \<times> string) multiset" where
  "plan_keys hs = mset (map (\<lambda>h. (ha_alias h, ha_simulatorId h)) hs)"

lemma fingerprint_keys:
  assumes "idle_fingerprint loc hs = idle_fingerprint loc hs'"
  shows "plan_keys hs = plan_keys hs'"
proof -
  let ?f = "\<lambda>hs. js_sort (\<lambda>l r. loc (fst l) (fst r)) (map (\<lambda>h. (ha_alias h, ha_simulatorId h)) hs)"
  have "inj (\<lambda>(a, u). JObj [(''alias'', JStr a), (''simulatorId'', JStr u)])" by (auto simp: inj_def)
  with assms have "?f hs = ?f hs'" by (auto simp: idle_fingerprint_def dest: map_injective)
  then have "mset (?f hs) = mset (?f hs')" by simp
  then show ?thesis by (simp add: plan_keys_def)
qed

lemma preview_ok:
  assumes "preview_cleanup loc digest env opts s = (Inr (Preview n p), s')"
  shows "\<exists>st hs. idleBaseCandidates st = Inr hs \<and> n = length hs \<and> p = digest (idle_fingerprint loc hs)"
  using assms unfolding preview_cleanup_def idleCleanupPlan_def
  by (elim andthen_InrE andthen_checkE) (auto simp: run_simps seq_def split: sum.splits prod.splits elim!: andthen_checkE)

lemma applied_ok:
  assumes "apply_cleanup loc digest env opts actor s = (Inr (Applied p res), s')"
  shows "iq_confirmPlanId opts = Some p \<and> (\<exists>st hs rg rg'. idleBaseCandidates st = Inr hs \<and> p = digest (idle_fingerprint loc hs)
    \<and> cr_shutdownCount res + cr_failureCount res = int (length hs)
    \<and> idle_effect (ha_alias ` set hs) (0 < cr_failureCount res) rg rg')"
proof -
  from assms obtain t s1 where "andthen (idle_snapshot env opts t) (\<lambda>st.
     andthen (check (idleCleanupPlan loc digest st)) (\<lambda>(hs, planId).
       if iq_confirmPlanId opts \<noteq> Some planId then throw stale_plan
       else apply_confirmed env opts actor t st hs planId)) s1 = (Inr (Applied p res), s')"
    unfolding apply_cleanup_def by (rule andthen_InrE)
  then obtain st s2 where st: "idle_snapshot env opts t s1 = (Inr st, s2)"
    and r: "andthen (check (idleCleanupPlan loc digest st)) (\<lambda>(hs, planId).
       if iq_confirmPlanId opts \<noteq> Some planId then throw stale_plan
       else apply_confirmed env opts actor t st hs planId) s2 = (Inr (Applied p res), s')" by (rule andthen_InrE)
  from r obtain hs q where plan: "idleCleanupPlan loc digest st = Inr (hs, q)" and conf: "iq_confirmPlanId opts = Some q"
    and r: "apply_confirmed env opts actor t st hs q s2 = (Inr (Applied p res), s')"
    by (rule andthen_checkE) (auto simp: run_simps split: prod.splits if_splits)
  from r obtain rg rg' s3 s4 ev where run: "performIdleShutdowns env (bs_host st) rg hs
      (opts\<lparr>iq_actorId := Some actor, iq_actorType := Some ''human''\<rparr>) t ev ''confirmed-cleanup'' s3 = (Inr (res, rg'), s4)"
    and q: "p = q"
    unfolding apply_confirmed_def by (auto simp: run_simps elim!: andthen_InrE split: prod.splits)
  from plan have hs: "idleBaseCandidates st = Inr hs" "q = digest (idle_fingerprint loc hs)"
    by (auto simp: idleCleanupPlan_def seq_def split: sum.splits)
  have "distinct (map ha_alias hs)"
    using idle_snapshot_hosts [OF st] hs(1) by (auto simp: idleBaseCandidates_def distinct_map_filter split: if_splits)
  from performIdleShutdowns_ok [OF run this] conf hs q show ?thesis by blast
qed

section \<open>Properties\<close>


text \<open>A booted simulator, a policy, and clocks that can be read.\<close>

definition booted_inventory :: inventory where
  "booted_inventory = plain_inventory\<lparr>iv_devices := [(''runtime.iOS-18-2'', [\<lparr>dv_deviceTypeIdentifier = ''type.iPhone-16'',
      dv_isAvailable = True, dv_name = ''Build A'', dv_productFamily = None, dv_state = Some ''Booted'', dv_udid = ''SIM-A''\<rparr>])]\<rparr>"

definition plain_idle :: idle_options where
  "plain_idle = \<lparr>iq_now = None, iq_termWaitMs = None, iq_skipLeaseIds = [], iq_inventory = Some booted_inventory, iq_actorType = Some ''human'',
     iq_actorId = Some ''me'', iq_graceSeconds = None, iq_source = None, iq_apply = False, iq_confirmPlanId = None,
     iq_persistNoChanges = True\<rparr>"

definition idle_sys :: "unit sys" where
  "idle_sys = (plain_sys [] [])\<lparr>sy_idle := Stored (idle_policy_json 60)\<rparr>"



definition plain_confirm :: idle_options where
  "plain_confirm = plain_idle\<lparr>iq_apply := True, iq_confirmPlanId := Some ''plan''\<rparr>"


end
