(* ===== verification/Lifecycle.thy ===== *)
theory Lifecycle
  imports Idle
begin

text \<open>
  Actions on one simulator (\<open>loadLeaseReferenceForAlias\<close> to \<open>repairHostAlias\<close>, \<open>deleteAliasSimulator\<close> to
  \<open>ensureAliasSimulator\<close> and \<open>lifecycleConflictError\<close> to \<open>repairSimulatorBroker\<close> in
  \<open>broker-core/index.mjs\<close>): boot, shutdown, erase and repair, for the holder of the lease only; a human may
  revoke a lease for a repair.  The injected failure stages of tests are outcomes of the disk.
\<close>

section \<open>Simulators of an alias\<close>

definition deleteAliasSimulator :: "'w env \<Rightarrow> string \<Rightarrow> ('w sys, unit) eff" where
  "deleteAliasSimulator env u =
    andthen (lift (sc_shutdown (en_simctl env) u)) (\<lambda>_. lift (sc_delete (en_simctl env) u))"

definition rollbackCreatedAliasSimulator :: "'w env \<Rightarrow> string \<Rightarrow> ('w sys, unit) eff" where
  "rollbackCreatedAliasSimulator env u = attempt (deleteAliasSimulator env u)"

definition readSimulatorDeviceIndex :: "'w env \<Rightarrow> ('w sys, (string \<times> device_info) list) eff" where
  "readSimulatorDeviceIndex env = andthen (lift (sc_inventory (en_simctl env))) (\<lambda>iv. ret (createDeviceIndex iv))"

record provisioned =
  pv_created :: bool
  pv_iosVersion :: string
  pv_replaced :: "string option"
  pv_simulatorId :: string

definition device_fits :: "runtime \<Rightarrow> device_type \<Rightarrow> device_info \<Rightarrow> bool" where
  "device_fits r t d \<longleftrightarrow> di_isAvailable d \<and> di_runtimeIdentifier d = rn_identifier r
     \<and> Some (di_deviceTypeIdentifier d) = dt_identifier t"

text \<open>The runtime that is selected has a version, and the device type an identifier.\<close>

definition ensureAliasSimulator ::
  "'w env \<Rightarrow> string \<Rightarrow> string \<Rightarrow> string \<Rightarrow> string option \<Rightarrow> bool \<Rightarrow> ('w sys, provisioned) eff" where
  "ensureAliasSimulator env deviceFamily iosVersion simulatorName currentSimulatorId deferCurrentDeviceDeletion =
    andthen (lift (sc_listRuntimes (en_simctl env))) (\<lambda>rs.
    andthen (check (selectRuntimeForAlias (no_inventory\<lparr>iv_runtimes := rs\<rparr>) (Some iosVersion))) (\<lambda>r.
    andthen (check (selectPreferredDeviceType (en_locale env) r deviceFamily)) (\<lambda>t.
    andthen (readSimulatorDeviceIndex env) (\<lambda>ix.
    let current = Option.bind (given currentSimulatorId) (map_get ix); version = nullish (rn_version r) [] in
    case current of
      Some d \<Rightarrow>
        if device_fits r t d then
          andthen (unless (di_name d = simulatorName) (lift (sc_rename (en_simctl env) (di_udid d) simulatorName))) (\<lambda>_.
            ret \<lparr>pv_created = False, pv_iosVersion = version, pv_replaced = None, pv_simulatorId = di_udid d\<rparr>)
        else (case List.find (\<lambda>d. di_name d = simulatorName \<and> device_fits r t d) (map_values ix) of
            Some d' \<Rightarrow> ret \<lparr>pv_created = False, pv_iosVersion = version,
               pv_replaced = (if di_udid d \<noteq> di_udid d' then Some (di_udid d) else None), pv_simulatorId = di_udid d'\<rparr>
          | None \<Rightarrow>
              andthen (unless deferCurrentDeviceDeletion (deleteAliasSimulator env (di_udid d))) (\<lambda>_.
              andthen (lift (sc_create (en_simctl env) simulatorName (nullish (dt_identifier t) []) (rn_identifier r))) (\<lambda>u.
                ret \<lparr>pv_created = True, pv_iosVersion = version, pv_replaced = Some (di_udid d), pv_simulatorId = u\<rparr>)))
    | None \<Rightarrow> (case List.find (\<lambda>d. di_name d = simulatorName \<and> device_fits r t d) (map_values ix) of
            Some d' \<Rightarrow> ret \<lparr>pv_created = False, pv_iosVersion = version, pv_replaced = None, pv_simulatorId = di_udid d'\<rparr>
          | None \<Rightarrow>
              andthen (lift (sc_create (en_simctl env) simulatorName (nullish (dt_identifier t) []) (rn_identifier r))) (\<lambda>u.
                ret \<lparr>pv_created = True, pv_iosVersion = version, pv_replaced = None, pv_simulatorId = u\<rparr>))))))"

record retirement =
  rt_failed :: "(string \<times> berr) list"
  rt_retired :: "string list"

definition retire_one :: "'w env \<Rightarrow> string list \<Rightarrow> string list \<Rightarrow> string \<Rightarrow> retirement \<Rightarrow> ('w sys, retirement) eff" where
  "retire_one env nextIds currentIds u acc =
    (if u \<in> set nextIds \<or> u \<notin> set currentIds then ret acc
     else catching (andthen (deleteAliasSimulator env u) (\<lambda>_. ret (acc\<lparr>rt_retired := rt_retired acc @ [u]\<rparr>)))
       (\<lambda>e. ret (acc\<lparr>rt_failed := rt_failed acc @ [(u, e)]\<rparr>)))"

definition retirePendingHostSimulators :: "'w env \<Rightarrow> string list \<Rightarrow> host_config \<Rightarrow> ('w sys, retirement) eff" where
  "retirePendingHostSimulators env pending hc =
    (if pending = [] then ret \<lparr>rt_failed = [], rt_retired = []\<rparr>
     else andthen (readSimulatorDeviceIndex env) (\<lambda>ix.
       fold_eff (retire_one env (map ha_simulatorId (hc_aliases hc)) (map fst ix)) pending \<lparr>rt_failed = [], rt_retired = []\<rparr>))"

text \<open>The durable write reports whether the file was in place when it failed.\<close>

datatype durable = Durable | Not_durable string bool

definition writeJsonAtomicDurable :: "'w env \<Rightarrow> host_config \<Rightarrow> ('w sys, durable) eff" where
  "writeJsonAtomicDurable env hc =
    andthen (ask (en_io env R_host)) (\<lambda>o'. case o' of
        Io_ok \<Rightarrow> andthen (update (\<lambda>s. s\<lparr>sy_host := Some (host_config_json hc)\<rparr>)) (\<lambda>_. ret Durable)
      | Io_failed msg \<Rightarrow> ret (Not_durable msg False)
      | Io_late msg \<Rightarrow> andthen (update (\<lambda>s. s\<lparr>sy_host := Some (host_config_json hc)\<rparr>)) (\<lambda>_. ret (Not_durable msg True)))"

definition simulatorDisplayName :: "string \<Rightarrow> string \<Rightarrow> string" where
  "simulatorDisplayName hostId a = ''Simulator Broker '' @ hostId @ '' '' @ a"

definition with_simulator :: "string \<Rightarrow> provisioned \<Rightarrow> host_config \<Rightarrow> host_config" where
  "with_simulator a p hc = hc\<lparr>hc_aliases := map (\<lambda>h. if ha_alias h = a
     then h\<lparr>ha_simulatorId := pv_simulatorId p, ha_iosVersion := pv_iosVersion p\<rparr> else h) (hc_aliases hc)\<rparr>"

definition repairHostAlias :: "'w env \<Rightarrow> host_config \<Rightarrow> host_alias \<Rightarrow> ('w sys, host_config) eff" where
  "repairHostAlias env hc h =
    andthen (ensureAliasSimulator env (ha_deviceFamily h) (ha_iosVersion h) (simulatorDisplayName (hc_hostId hc) (ha_alias h))
        (Some (ha_simulatorId h)) True) (\<lambda>p.
    let pending = filter (\<lambda>u. u \<noteq> []) (uniq (hc_pendingRetirements hc
           @ (case pv_replaced p of None \<Rightarrow> [] | Some u \<Rightarrow> [u])));
        committed = hostConfigWithPendingRetirements (with_simulator (ha_alias h) p hc) pending in
    andthen (writeJsonAtomicDurable env committed) (\<lambda>w. case w of
        Not_durable msg there \<Rightarrow>
          andthen (if \<not> there \<and> pv_created p then rollbackCreatedAliasSimulator env (pv_simulatorId p) else ret ()) (\<lambda>_.
            throw (HostError msg))
      | Durable \<Rightarrow>
          andthen (retirePendingHostSimulators env pending committed) (\<lambda>r.
          let next = hostConfigWithPendingRetirements committed (map fst (rt_failed r)) in
          andthen (writeJsonAtomicDurable env next) (\<lambda>w. case w of
              Not_durable msg there \<Rightarrow> throw (HostError msg)
            | Durable \<Rightarrow> ret next))))"

section \<open>Who asks\<close>

datatype action = Boot | Shut | Erase | Repair

fun action_text :: "action \<Rightarrow> string" where
  "action_text Boot = ''boot''"
| "action_text Shut = ''shutdown''"
| "action_text Erase = ''erase''"
| "action_text Repair = ''repair''"

record lifecycle_options =
  yq_now :: "string option"
  yq_termWaitMs :: "js option"
  yq_skipLeaseIds :: "string list"
  yq_inventory :: "inventory option"
  yq_alias :: "string option"
  yq_leaseId :: "string option"
  yq_leaseFile :: "string option"
  yq_actorType :: "string option"
  yq_actorId :: "string option"
  yq_jobId :: "string option"
  yq_forceOverride :: bool
  yq_overrideReason :: "js option"
  yq_expectedAlias :: "string option"
  yq_expectedLeaseId :: "string option"

definition loadLeaseReferenceForAlias :: "'w env \<Rightarrow> lifecycle_options \<Rightarrow> string \<Rightarrow> ('w sys, lease option) eff" where
  "loadLeaseReferenceForAlias env opts a =
    (if given (yq_leaseId opts) = None \<and> given (yq_leaseFile opts) = None then ret None
     else andthen (loadLeaseByIdOrFile env (yq_leaseId opts) (yq_leaseFile opts)) (\<lambda>l.
       if ls_alias l \<noteq> a
       then throw (broker_err (''Lease '' @ ls_leaseId l @ '' does not belong to alias '' @ a @ ''.'') ''lease-alias-mismatch'')
       else ret (Some l)))"

definition makeLifecycleActorId :: "'w env \<Rightarrow> string \<Rightarrow> string" where
  "makeLifecycleActorId env actorType =
    (if actorType = ''human'' then ''human:local-cli'' else actorType @ '':'' @ int_text (po_brokerPid (en_ops env)))"

record requester =
  rr_activeLease :: "lease option"
  rr_activePin :: "pin option"
  rr_actorId :: string
  rr_actorType :: string
  rr_holderMatches :: bool
  rr_jobId :: "string option"

definition inactive_reference :: "string \<Rightarrow> string \<Rightarrow> berr" where
  "inactive_reference i a =
    broker_err (''Lease '' @ i @ '' is not the active lease for alias '' @ a @ ''.'') ''inactive-lease-reference''"

definition resolveLifecycleRequester ::
  "'w env \<Rightarrow> broker_state \<Rightarrow> lifecycle_options \<Rightarrow> string \<Rightarrow> ('w sys, requester) eff" where
  "resolveLifecycleRequester env st opts a =
    andthen (loadLeaseReferenceForAlias env opts a) (\<lambda>ref.
      let active = lease_on st a; actorType = nullish (or_else (yq_actorType opts) (map_option ls_actorType ref)) ''human'';
          requester = \<lparr>rr_activeLease = active, rr_activePin = pin_on st a,
            rr_actorId = nullish (or_else (yq_actorId opts) (map_option ls_actorId ref)) (makeLifecycleActorId env actorType),
            rr_actorType = actorType, rr_holderMatches = (active \<noteq> None \<and> map_option ls_leaseId ref = map_option ls_leaseId active),
            rr_jobId = or_else (yq_jobId opts) (Option.bind ref ls_jobId)\<rparr> in
      case ref of
        None \<Rightarrow> ret requester
      | Some l \<Rightarrow>
          if map_option ls_leaseId active \<noteq> Some (ls_leaseId l) then throw (inactive_reference (ls_leaseId l) a) else ret requester)"

definition assertLifecycleHealth :: "action \<Rightarrow> string \<Rightarrow> registry_entry \<Rightarrow> berr + unit" where
  "assertLifecycleHealth action a e =
    (if (action = Boot \<or> action = Shut) \<and> unhealthy e
     then Inl (broker_err (''Alias '' @ a @ '' is unhealthy and cannot be '' @ action_text action @ ''ed.'') ''unhealthy-alias'')
     else if (action = Erase \<or> action = Repair) \<and> re_health e = Repairing
     then Inl (broker_err (''Alias '' @ a @ '' is already repairing.'') ''alias-busy'')
     else Inr ())"

definition lifecycleConflictError :: "action \<Rightarrow> string \<Rightarrow> berr" where
  "lifecycleConflictError action a =
    broker_err (''Alias '' @ a @ '' is leased by another actor and cannot accept '' @ action_text action @ ''.'') ''lease-conflict''"

definition validateForceOverride :: "action \<Rightarrow> lifecycle_options \<Rightarrow> requester \<Rightarrow> string \<Rightarrow> lease \<Rightarrow> berr + string" where
  "validateForceOverride action opts requester a l =
    (if action \<noteq> Repair then Inl (lifecycleConflictError action a)
     else if rr_actorType requester \<noteq> ''human''
     then Inl (broker_err (''Only a human operator may force-override alias '' @ a @ ''.'') ''human-override-required'')
     else if \<not> yq_forceOverride opts
     then Inl (broker_err (''Alias '' @ a @ '' requires an explicit human override before '' @ action_text action @ ''.'')
            ''override-required'')
     else seq (requireOptionalString (yq_overrideReason opts) ''overrideReason'') (\<lambda>r. case r of
         None \<Rightarrow> Inl (broker_err ''overrideReason is required when forceOverride is true.'' ''missing-override-reason'')
       | Some reason \<Rightarrow>
           if yq_expectedAlias opts \<noteq> Some a
           then Inl (broker_err (''expectedAlias must match '' @ a @ ''.'') ''override-alias-mismatch'')
           else if yq_expectedLeaseId opts \<noteq> Some (ls_leaseId l)
           then Inl (broker_err (''expectedLeaseId must match the active lease '' @ ls_leaseId l @ ''.'') ''override-lease-mismatch'')
           else Inr reason))"

definition revokeLeaseForOverride ::
  "'w env \<Rightarrow> host_config \<Rightarrow> registry \<Rightarrow> lease \<Rightarrow> string \<Rightarrow> string \<Rightarrow> string \<Rightarrow> ('w sys, registry) eff" where
  "revokeLeaseForOverride env hc rg l actorType reason timestamp =
    andthen (assert_artifact_allowed env l) (\<lambda>_.
      if rg_aliases rg (ls_alias l) = None then throw type_error
      else andthen (writeRegistry env hc (released_registry rg l timestamp)) (\<lambda>_.
        andthen (removeLeaseRecordFiles env l) (\<lambda>_.
        andthen (appendEventRecord env ((lease_event ''lease.revoked'' l [reason] timestamp)\<lparr>ev_actorType := Some actorType\<rparr>)) (\<lambda>_.
          ret (released_registry rg l timestamp)))))"

section \<open>Actions\<close>

record lifecycle_result =
  lr_snapshot :: alias_snapshot
  lr_revoked :: "lease option"
  lr_unchanged :: bool

definition lifecycle_event :: "string \<Rightarrow> requester \<Rightarrow> string \<Rightarrow> string list \<Rightarrow> string \<Rightarrow> event" where
  "lifecycle_event type requester a detail timestamp =
    event_of type (Some a) (Some (rr_actorType requester))
      (if rr_holderMatches requester then map_option ls_leaseId (rr_activeLease requester) else None)
      (or_else (map_option ls_projectId (rr_activeLease requester)) (map_option pn_projectId (rr_activePin requester)))
      (or_else (map_option ls_purposeId (rr_activeLease requester)) (Option.bind (rr_activePin requester) pn_purposeId))
      detail timestamp"

definition powered_entry :: "action \<Rightarrow> string \<Rightarrow> registry_entry \<Rightarrow> registry_entry" where
  "powered_entry action timestamp e =
    (let e' = e\<lparr>re_powerState := (if action = Boot then Booted else Shutdown), re_health := Healthy, re_driftReason := None,
                re_driftCauseCode := None, re_updatedAt := timestamp\<rparr>
     in if action = Boot then e'\<lparr>re_lastBootedAt := Some timestamp\<rparr> else e'\<lparr>re_lastShutdownAt := Some timestamp\<rparr>)"

definition wiped_entry :: "string \<Rightarrow> registry_entry \<Rightarrow> registry_entry" where
  "wiped_entry timestamp e =
    (let e' = (resetLeasesSinceErase (e\<lparr>re_powerState := Shutdown, re_lastErasedAt := Some timestamp,
                re_lastShutdownAt := Some timestamp\<rparr>))\<lparr>re_updatedAt := timestamp\<rparr>
     in if re_health e = State_drift then e'\<lparr>re_health := Healthy, re_driftReason := None, re_driftCauseCode := None\<rparr> else e')"

definition repairing_entry :: "string \<Rightarrow> registry_entry \<Rightarrow> registry_entry" where
  "repairing_entry timestamp e = e\<lparr>re_health := Repairing, re_updatedAt := timestamp\<rparr>"

definition unrepaired_entry :: "berr \<Rightarrow> string \<Rightarrow> registry_entry \<Rightarrow> registry_entry" where
  "unrepaired_entry err timestamp e = e\<lparr>re_health := Repair_needed, re_driftReason := Some (cause_or_message err),
     re_driftCauseCode := knownDriftCauseCode (payload_reason err), re_updatedAt := timestamp\<rparr>"

definition repaired_entry :: "string \<Rightarrow> registry_entry \<Rightarrow> registry_entry" where
  "repaired_entry timestamp e = e\<lparr>re_health := Healthy, re_driftReason := None, re_driftCauseCode := None,
     re_lastRepairedAt := Some timestamp, re_lastShutdownAt := Some timestamp, re_powerState := Shutdown, re_updatedAt := timestamp\<rparr>"

text \<open>A change of the entry of an alias, written with its event.\<close>

definition set_entry :: "string \<Rightarrow> (registry_entry \<Rightarrow> registry_entry) \<Rightarrow> string \<Rightarrow> registry \<Rightarrow> registry" where
  "set_entry a f timestamp rg = (update_entry a f rg)\<lparr>rg_updatedAt := timestamp\<rparr>"

definition commit_entry ::
  "'w env \<Rightarrow> host_config \<Rightarrow> registry \<Rightarrow> string \<Rightarrow> (registry_entry \<Rightarrow> registry_entry) \<Rightarrow> string \<Rightarrow> event
     \<Rightarrow> ('w sys, registry) eff" where
  "commit_entry env hc rg a f timestamp ev =
    andthen (writeRegistry env hc (set_entry a f timestamp rg)) (\<lambda>_.
    andthen (appendEventRecord env ev) (\<lambda>_. ret (set_entry a f timestamp rg)))"

definition action_event :: "action \<Rightarrow> string \<Rightarrow> requester \<Rightarrow> string \<Rightarrow> string \<Rightarrow> event" where
  "action_event action type requester a timestamp = lifecycle_event type requester a [action_text action] timestamp"

definition powered :: "action \<Rightarrow> registry \<Rightarrow> string \<Rightarrow> bool" where
  "powered action rg a = (case rg_aliases rg a of None \<Rightarrow> False
     | Some e \<Rightarrow> re_powerState e = (if action = Boot then Booted else Shutdown) \<and> re_health e \<noteq> State_drift)"

definition power_action ::
  "'w env \<Rightarrow> action \<Rightarrow> host_config \<Rightarrow> registry \<Rightarrow> host_alias \<Rightarrow> requester \<Rightarrow> string \<Rightarrow> ('w sys, registry \<times> host_alias \<times> bool) eff" where
  "power_action env action hc rg h requester timestamp =
    (if powered action rg (ha_alias h) then ret (rg, h, True)
     else andthen (invokeLifecycleAdapter (action_text action) (ha_alias h)
         (lift ((if action = Boot then sc_boot else sc_shutdown) (en_simctl env) (ha_simulatorId h)))) (\<lambda>_.
       andthen (commit_entry env hc rg (ha_alias h) (powered_entry action timestamp) timestamp
           (action_event action (if action = Boot then ''simulator.booted'' else ''simulator.shutdown'') requester (ha_alias h) timestamp))
         (\<lambda>rg. ret (rg, h, False))))"

definition erase_action ::
  "'w env \<Rightarrow> host_config \<Rightarrow> registry \<Rightarrow> host_alias \<Rightarrow> requester \<Rightarrow> string \<Rightarrow> ('w sys, registry \<times> host_alias \<times> bool) eff" where
  "erase_action env hc rg h requester timestamp =
    andthen (invokeLifecycleAdapter ''erase'' (ha_alias h) (andthen (lift (sc_shutdown (en_simctl env) (ha_simulatorId h))) (\<lambda>_.
       lift (sc_erase (en_simctl env) (ha_simulatorId h))))) (\<lambda>_.
    andthen (commit_entry env hc rg (ha_alias h) (wiped_entry timestamp) timestamp
        (action_event Erase ''simulator.erased'' requester (ha_alias h) timestamp)) (\<lambda>rg. ret (rg, h, False)))"

definition failed_repair ::
  "'w env \<Rightarrow> host_config \<Rightarrow> registry \<Rightarrow> string \<Rightarrow> requester \<Rightarrow> string \<Rightarrow> berr \<Rightarrow> ('w sys, 'a) eff" where
  "failed_repair env hc rg a requester timestamp err =
    andthen (commit_entry env hc rg a (unrepaired_entry err timestamp) timestamp
        (action_event Repair ''simulator.repair.failed'' requester a timestamp)) (\<lambda>_. throw err)"

definition repair_action ::
  "'w env \<Rightarrow> host_config \<Rightarrow> registry \<Rightarrow> host_alias \<Rightarrow> requester \<Rightarrow> string \<Rightarrow> ('w sys, registry \<times> host_alias \<times> bool) eff" where
  "repair_action env hc rg h requester timestamp =
    andthen (commit_entry env hc rg (ha_alias h) (repairing_entry timestamp) timestamp
        (action_event Repair ''simulator.repair.started'' requester (ha_alias h) timestamp)) (\<lambda>rg.
    andthen (catching (invokeLifecycleAdapter ''repair'' (ha_alias h) (repairHostAlias env hc h))
        (failed_repair env hc rg (ha_alias h) requester timestamp)) (\<lambda>hc'.
    andthen (commit_entry env hc' rg (ha_alias h) (repaired_entry timestamp) timestamp
        (action_event Repair ''simulator.repaired'' requester (ha_alias h) timestamp)) (\<lambda>rg.
      ret (rg, nullish (List.find (\<lambda>h'. ha_alias h' = ha_alias h) (hc_aliases hc')) h, False))))"

definition perform_action ::
  "'w env \<Rightarrow> action \<Rightarrow> host_config \<Rightarrow> registry \<Rightarrow> host_alias \<Rightarrow> requester \<Rightarrow> string \<Rightarrow> ('w sys, registry \<times> host_alias \<times> bool) eff" where
  "perform_action env action hc rg h requester timestamp =
    (case action of Erase \<Rightarrow> erase_action env hc rg h requester timestamp
     | Repair \<Rightarrow> repair_action env hc rg h requester timestamp
     | _ \<Rightarrow> power_action env action hc rg h requester timestamp)"

definition unknown_alias :: "string option \<Rightarrow> berr" where
  "unknown_alias a = broker_err (''Unknown alias '' @ nullish a ''undefined'' @ ''.'') ''unknown-alias''"

definition lifecycleResult ::
  "registry \<Rightarrow> host_alias \<Rightarrow> requester \<Rightarrow> lease option \<Rightarrow> bool \<Rightarrow> berr + lifecycle_result" where
  "lifecycleResult rg h requester revoked unchanged =
    (case rg_aliases rg (ha_alias h) of None \<Rightarrow> Inl type_error
     | Some e \<Rightarrow> Inr \<lparr>lr_snapshot = aliasSnapshot h e (if revoked = None then rr_activeLease requester else None) (rr_activePin requester),
         lr_revoked = revoked, lr_unchanged = unchanged\<rparr>)"

text \<open>A lease of somebody else is an obstacle, unless it is revoked.\<close>

definition clear_obstacle ::
  "'w env \<Rightarrow> action \<Rightarrow> lifecycle_options \<Rightarrow> broker_state \<Rightarrow> string \<Rightarrow> requester \<Rightarrow> string \<Rightarrow> ('w sys, registry \<times> lease option) eff" where
  "clear_obstacle env action opts st a requester timestamp =
    (case rr_activeLease requester of
       None \<Rightarrow> ret (bs_registry st, None)
     | Some l \<Rightarrow>
         if rr_holderMatches requester then ret (bs_registry st, None)
         else if action = Boot \<or> action = Shut then throw (lifecycleConflictError action a)
         else andthen (check (validateForceOverride action opts requester a l)) (\<lambda>reason.
           andthen (revokeLeaseForOverride env (bs_host st) (bs_registry st) l (rr_actorType requester) reason timestamp) (\<lambda>rg.
             ret (rg, Some l))))"

definition act_on_alias ::
  "'w env \<Rightarrow> action \<Rightarrow> lifecycle_options \<Rightarrow> broker_state \<Rightarrow> string \<Rightarrow> ('w sys, lifecycle_result) eff" where
  "act_on_alias env action opts st timestamp =
    andthen (check (case yq_alias opts of None \<Rightarrow> Inl (unknown_alias None) | Some a \<Rightarrow> findHostAliasOrThrow st a)) (\<lambda>h.
    andthen (resolveLifecycleRequester env st opts (ha_alias h)) (\<lambda>requester.
    andthen (check (case rg_aliases (bs_registry st) (ha_alias h) of None \<Rightarrow> Inl type_error
        | Some e \<Rightarrow> assertLifecycleHealth action (ha_alias h) e)) (\<lambda>_.
    andthen (clear_obstacle env action opts st (ha_alias h) requester timestamp) (\<lambda>(rg, revoked).
    andthen (perform_action env action (bs_host st) rg h requester timestamp) (\<lambda>(rg, h, unchanged).
      check (lifecycleResult rg h requester revoked unchanged))))))"

definition runLifecycleActionBroker :: "'w env \<Rightarrow> action \<Rightarrow> lifecycle_options \<Rightarrow> ('w sys, lifecycle_result) eff" where
  "runLifecycleActionBroker env action opts =
    andthen (nowIso env (yq_now opts)) (\<lambda>timestamp.
    andthen (check (stateLoadOptions (yq_termWaitMs opts) (yq_skipLeaseIds opts) (yq_inventory opts) (yq_now opts))) (\<lambda>lo.
    andthen (loadBrokerState env lo timestamp) (\<lambda>st. act_on_alias env action opts st timestamp)))"

definition bootSimulatorBroker :: "'w env \<Rightarrow> lifecycle_options \<Rightarrow> ('w sys, lifecycle_result) eff" where
  "bootSimulatorBroker env opts =
    andthen (nowIso env (yq_now opts)) (\<lambda>_. with_lock env Lease_lock (runLifecycleActionBroker env Boot opts))"

definition shutdownSimulatorBroker :: "'w env \<Rightarrow> lifecycle_options \<Rightarrow> ('w sys, lifecycle_result) eff" where
  "shutdownSimulatorBroker env opts =
    andthen (nowIso env (yq_now opts)) (\<lambda>_. with_lock env Lease_lock (runLifecycleActionBroker env Shut opts))"

definition eraseSimulatorBroker :: "'w env \<Rightarrow> lifecycle_options \<Rightarrow> ('w sys, lifecycle_result) eff" where
  "eraseSimulatorBroker env opts =
    andthen (nowIso env (yq_now opts)) (\<lambda>_. with_lock env Lease_lock (runLifecycleActionBroker env Erase opts))"

definition repairSimulatorBroker :: "'w env \<Rightarrow> lifecycle_options \<Rightarrow> ('w sys, lifecycle_result) eff" where
  "repairSimulatorBroker env opts =
    andthen (nowIso env (yq_now opts)) (\<lambda>_.
      with_lock env Capacity_lock (with_lock env Lease_lock (runLifecycleActionBroker env Repair opts)))"

section \<open>What an action does\<close>

lemma commit_entry_ok:
  assumes "commit_entry env hc rg a f t ev s = (Inr rg', s')"
  shows "rg' = set_entry a f t rg \<and> sy_registry s' = Some (registry_text hc rg')"
proof -
  from assms obtain u s1 where w: "writeRegistry env hc (set_entry a f t rg) s = (Inr u, s1)"
    and r: "andthen (appendEventRecord env ev) (\<lambda>_. ret (set_entry a f t rg)) s1 = (Inr rg', s')"
    unfolding commit_entry_def by (rule andthen_InrE)
  have "keeps (\<lambda>x. sy_registry x = sy_registry s1) (andthen (appendEventRecord env ev) (\<lambda>_. ret (set_entry a f t rg)))"
    by (intro keeps_struct keeps_appendEvent) (simp_all add: of_files_def)
  from this refl r have "sy_registry s' = sy_registry s1" by (rule keepsD)
  with writeRegistry_ok [OF w] r show ?thesis by (auto simp: run_simps elim!: andthen_InrE)
qed

definition power_after :: "action \<Rightarrow> power" where
  "power_after action = (if action = Boot then Booted else Shutdown)"

definition acted :: "action \<Rightarrow> string \<Rightarrow> registry \<Rightarrow> bool" where
  "acted action a rg \<longleftrightarrow> (\<exists>e. rg_aliases rg a = Some e \<and> re_powerState e = power_after action)"

lemma set_entry_alias: "rg_aliases (set_entry a f t rg) a = map_option f (rg_aliases rg a)"
  by (simp add: set_entry_def update_entry_aliases)

lemma entry_power:
  "re_powerState (powered_entry action t e) = power_after action" "re_powerState (wiped_entry t e) = Shutdown"
  "re_powerState (repaired_entry t e) = Shutdown"
  by (simp_all add: powered_entry_def wiped_entry_def repaired_entry_def power_after_def resetLeasesSinceErase_def Let_def)

definition act_result :: "action \<Rightarrow> registry \<Rightarrow> string \<Rightarrow> 'w sys \<Rightarrow> registry \<Rightarrow> bool \<Rightarrow> 'w sys \<Rightarrow> bool" where
  "act_result action rg a s rg' unchanged s' \<longleftrightarrow> acted action a rg'
     \<and> (if unchanged then s' = s \<and> rg' = rg \<and> (action = Boot \<or> action = Shut)
        else \<exists>hc'. sy_registry s' = Some (registry_text hc' rg'))"

lemma act_result_commit:
  assumes "commit_entry env hc rg1 a f t ev s1 = (Inr rg', s')" "rg_aliases rg1 a \<noteq> None" "\<And>e. re_powerState (f e) = power_after action"
  shows "act_result action rg a s rg' False s'"
  using commit_entry_ok [OF assms(1)] assms(2,3) by (auto simp: act_result_def acted_def set_entry_alias)

lemma power_action_ok:
  assumes "power_action env action hc rg h q t s = (Inr (rg', h', unchanged), s')" "rg_aliases rg (ha_alias h) \<noteq> None"
    and "action = Boot \<or> action = Shut"
  shows "act_result action rg (ha_alias h) s rg' unchanged s'"
proof (cases "powered action rg (ha_alias h)")
  case True
  with assms show ?thesis
    by (auto simp: power_action_def run_simps act_result_def acted_def power_after_def powered_def split: option.splits)
next
  case False
  let ?ev = "action_event action (if action = Boot then ''simulator.booted'' else ''simulator.shutdown'') q (ha_alias h) t"
  from False assms(1) obtain u s1 where "andthen (commit_entry env hc rg (ha_alias h) (powered_entry action t) t ?ev)
      (\<lambda>rg. ret (rg, h, False)) s1 = (Inr (rg', h', unchanged), s')"
    unfolding power_action_def by (simp only: if_False) (erule andthen_InrE, blast)
  then have "commit_entry env hc rg (ha_alias h) (powered_entry action t) t ?ev s1 = (Inr rg', s')" "\<not> unchanged"
    by (auto simp: run_simps elim!: andthen_InrE)
  with act_result_commit [OF this(1) assms(2)] show ?thesis by (simp add: entry_power)
qed

lemma erase_action_ok:
  assumes "erase_action env hc rg h q t s = (Inr (rg', h', unchanged), s')" "rg_aliases rg (ha_alias h) \<noteq> None"
  shows "act_result Erase rg (ha_alias h) s rg' unchanged s'"
proof -
  let ?ev = "action_event Erase ''simulator.erased'' q (ha_alias h) t"
  from assms(1) obtain u s1 where "andthen (commit_entry env hc rg (ha_alias h) (wiped_entry t) t ?ev)
      (\<lambda>rg. ret (rg, h, False)) s1 = (Inr (rg', h', unchanged), s')"
    unfolding erase_action_def by (rule andthen_InrE)
  then have "commit_entry env hc rg (ha_alias h) (wiped_entry t) t ?ev s1 = (Inr rg', s')" "\<not> unchanged"
    by (auto simp: run_simps elim!: andthen_InrE)
  with act_result_commit [OF this(1) assms(2), where action = Erase] show ?thesis by (simp add: entry_power power_after_def)
qed

lemma repair_action_ok:
  assumes "repair_action env hc rg h q t s = (Inr (rg', h', unchanged), s')" "rg_aliases rg (ha_alias h) \<noteq> None"
  shows "act_result Repair rg (ha_alias h) s rg' unchanged s'"
proof -
  let ?ev = "action_event Repair ''simulator.repaired'' q (ha_alias h) t"
  from assms(1) obtain rg1 s1 where
    c1: "commit_entry env hc rg (ha_alias h) (repairing_entry t) t (action_event Repair ''simulator.repair.started'' q (ha_alias h) t) s
      = (Inr rg1, s1)"
    and r: "andthen (catching (invokeLifecycleAdapter ''repair'' (ha_alias h) (repairHostAlias env hc h))
        (failed_repair env hc rg1 (ha_alias h) q t)) (\<lambda>hc'.
      andthen (commit_entry env hc' rg1 (ha_alias h) (repaired_entry t) t ?ev) (\<lambda>rg.
        ret (rg, nullish (List.find (\<lambda>h'. ha_alias h' = ha_alias h) (hc_aliases hc')) h, False))) s1
      = (Inr (rg', h', unchanged), s')"
    unfolding repair_action_def by (rule andthen_InrE)
  from r obtain hc' s2 where "andthen (commit_entry env hc' rg1 (ha_alias h) (repaired_entry t) t ?ev) (\<lambda>rg.
        ret (rg, nullish (List.find (\<lambda>h'. ha_alias h' = ha_alias h) (hc_aliases hc')) h, False)) s2
      = (Inr (rg', h', unchanged), s')" by (rule andthen_InrE)
  then have c2: "commit_entry env hc' rg1 (ha_alias h) (repaired_entry t) t ?ev s2 = (Inr rg', s')" "\<not> unchanged"
    by (auto simp: run_simps elim!: andthen_InrE)
  have "rg_aliases rg1 (ha_alias h) \<noteq> None" using commit_entry_ok [OF c1] assms(2) by (auto simp: set_entry_alias)
  from act_result_commit [OF c2(1) this, where action = Repair] c2(2) show ?thesis by (simp add: entry_power power_after_def)
qed

lemma perform_action_ok:
  assumes "perform_action env action hc rg h q t s = (Inr (rg', h', unchanged), s')" "rg_aliases rg (ha_alias h) \<noteq> None"
  shows "act_result action rg (ha_alias h) s rg' unchanged s'"
  using assms power_action_ok erase_action_ok repair_action_ok unfolding perform_action_def by (cases action) fastforce+

lemma clear_obstacle_ok:
  assumes "clear_obstacle env action opts st a q t s = (Inr (rg, revoked), s')"
  shows "(revoked = None \<and> s' = s \<and> rg = bs_registry st \<and> (rr_activeLease q = None \<or> rr_holderMatches q))
    \<or> (\<exists>l reason. revoked = Some l \<and> rr_activeLease q = Some l \<and> validateForceOverride action opts q a l = Inr reason
         \<and> sy_leases s' = dir_del (lease_name l) (sy_leases s) \<and> rg = released_registry (bs_registry st) l t)"
proof (cases "rr_activeLease q")
  case None
  with assms show ?thesis by (simp add: clear_obstacle_def run_simps)
next
  case (Some l)
  show ?thesis
  proof (cases "rr_holderMatches q")
    case True
    with assms Some show ?thesis by (simp add: clear_obstacle_def run_simps)
  next
    case False
    with assms Some have "andthen (check (validateForceOverride action opts q a l)) (\<lambda>reason.
           andthen (revokeLeaseForOverride env (bs_host st) (bs_registry st) l (rr_actorType q) reason t) (\<lambda>rg.
             ret (rg, Some l))) s = (Inr (rg, revoked), s')"
      by (auto simp: clear_obstacle_def run_simps split: if_splits)
    then obtain reason where v: "validateForceOverride action opts q a l = Inr reason"
      and r: "andthen (revokeLeaseForOverride env (bs_host st) (bs_registry st) l (rr_actorType q) reason t) (\<lambda>rg.
             ret (rg, Some l)) s = (Inr (rg, revoked), s')" by (rule andthen_checkE)
    from r have rv: "revokeLeaseForOverride env (bs_host st) (bs_registry st) l (rr_actorType q) reason t s = (Inr rg, s')"
      "revoked = Some l" by (auto simp: run_simps elim!: andthen_InrE)
    let ?ev = "(lease_event ''lease.revoked'' l [reason] t)\<lparr>ev_actorType := Some (rr_actorType q)\<rparr>"
    let ?rel = "released_registry (bs_registry st) l t"
    from rv(1) obtain u0 s0 where "assert_artifact_allowed env l s = (Inr u0, s0)"
      and r: "(if rg_aliases (bs_registry st) (ls_alias l) = None then throw type_error
        else andthen (writeRegistry env (bs_host st) ?rel) (\<lambda>_. andthen (removeLeaseRecordFiles env l) (\<lambda>_.
          andthen (appendEventRecord env ?ev) (\<lambda>_. ret ?rel)))) s0 = (Inr rg, s')"
      unfolding revokeLeaseForOverride_def by (rule andthen_InrE)
    then have "s0 = s" by (blast dest: artifact_allowed_state)
    with r have "andthen (writeRegistry env (bs_host st) ?rel) (\<lambda>_. andthen (removeLeaseRecordFiles env l) (\<lambda>_.
          andthen (appendEventRecord env ?ev) (\<lambda>_. ret ?rel))) s = (Inr rg, s')"
      by (simp add: run_simps split: if_splits)
    then obtain u s1 where w: "writeRegistry env (bs_host st) ?rel s = (Inr u, s1)"
      and r: "andthen (removeLeaseRecordFiles env l) (\<lambda>_. andthen (appendEventRecord env ?ev) (\<lambda>_. ret ?rel)) s1 = (Inr rg, s')"
      by (rule andthen_InrE)
    from r obtain v2 s2 where rm: "removeLeaseRecordFiles env l s1 = (Inr v2, s2)"
      and last: "andthen (appendEventRecord env ?ev) (\<lambda>_. ret ?rel) s2 = (Inr rg, s')" by (rule andthen_InrE)
    have "keeps (\<lambda>x. sy_leases x = sy_leases s2) (andthen (appendEventRecord env ?ev) (\<lambda>_. ret (released_registry (bs_registry st) l t)))"
      by (intro keeps_struct keeps_leases)
    from this refl last have "sy_leases s' = sy_leases s2" by (rule keepsD)
    then have "sy_leases s' = dir_del (lease_name l) (sy_leases s)"
      using removeLeaseRecordFiles_ok [OF rm] writeRegistry_ok [OF w] by simp
    moreover have "rg = released_registry (bs_registry st) l t" using last by (auto simp: run_simps elim!: andthen_InrE)
    ultimately show ?thesis using Some v rv(2) by blast
  qed
qed

section \<open>What an action leaves alone\<close>

definition action_side :: "('w sys \<Rightarrow> bool) \<Rightarrow> bool" where
  "action_side I \<longleftrightarrow> log_side I \<and> (\<forall>s x. I s \<longrightarrow> I (s\<lparr>sy_host := x\<rparr>))"

lemma action_side_files [simp]: "action_side (\<lambda>s. P (sy_leases s) (sy_pins s) (sy_artifacts s))"
  by (simp add: action_side_def log_side_def of_files_def)

lemma action_side_claims [simp]: "action_side (claims_kept C)"
  by (simp add: action_side_def)

lemma keeps_durable:
  "(w = Durable \<Longrightarrow> keeps I m) \<Longrightarrow> (\<And>msg b. keeps I (k msg b)) \<Longrightarrow> keeps I (case w of Durable \<Rightarrow> m | Not_durable msg b \<Rightarrow> k msg b)"
  by (cases w) auto

lemma keeps_simulators:
  assumes "of_files I"
  shows "keeps I (deleteAliasSimulator env u)" "keeps I (rollbackCreatedAliasSimulator env u)" "keeps I (readSimulatorDeviceIndex env)"
    "keeps I (ensureAliasSimulator env fam v n cur d)" "keeps I (retirePendingHostSimulators env ps hc)"
proof -
  show d: "keeps I (deleteAliasSimulator env u)" for u
    unfolding deleteAliasSimulator_def by (intro keeps_struct keeps_lift assms)
  show "keeps I (rollbackCreatedAliasSimulator env u)"
    unfolding rollbackCreatedAliasSimulator_def by (intro keeps_attempt d)
  show i: "keeps I (readSimulatorDeviceIndex env)"
    unfolding readSimulatorDeviceIndex_def by (intro keeps_struct keeps_lift assms)
  show "keeps I (ensureAliasSimulator env fam v n cur d)"
    unfolding ensureAliasSimulator_def Let_def by (intro keeps_struct keeps_lift d i assms)
  show "keeps I (retirePendingHostSimulators env ps hc)"
    unfolding retirePendingHostSimulators_def retire_one_def by (intro keeps_struct keeps_fold d i)
qed

lemma keeps_writeDurable:
  assumes "action_side I"
  shows "keeps I (writeJsonAtomicDurable env hc)"
  unfolding writeJsonAtomicDurable_def using assms
  by (intro keeps_andthen keeps_ask keeps_io_outcome keeps_update keeps_basic) (simp_all add: action_side_def log_side_def)

lemma keeps_repairHostAlias:
  assumes "action_side I"
  shows "keeps I (repairHostAlias env hc h)"
proof -
  have f: "of_files I" using assms by (simp add: action_side_def log_side_def)
  show ?thesis
    unfolding repairHostAlias_def Let_def
    by (intro keeps_andthen keeps_simulators keeps_writeDurable keeps_durable keeps_If keeps_basic f assms)
qed

lemma keeps_commit_entry: "log_side I \<Longrightarrow> keeps I (commit_entry env hc rg a f t ev)"
  unfolding commit_entry_def by (intro keeps_struct keeps_log)

lemma keeps_perform_action:
  assumes "action_side I"
  shows "keeps I (perform_action env action hc rg h q t)"
proof -
  have f: "of_files I" and log: "log_side I" using assms by (simp_all add: action_side_def log_side_def)
  have "keeps I (power_action env action hc rg h q t)" "keeps I (erase_action env hc rg h q t)" "keeps I (repair_action env hc rg h q t)"
    unfolding power_action_def erase_action_def repair_action_def failed_repair_def
    by (intro keeps_struct keeps_adapter keeps_lift keeps_commit_entry keeps_repairHostAlias f log assms)+
  then show ?thesis by (cases action) (simp_all add: perform_action_def)
qed

lemma keeps_requester: "keeps I (resolveLifecycleRequester env st opts a)"
  unfolding resolveLifecycleRequester_def loadLeaseReferenceForAlias_def Let_def by (intro keeps_struct keeps_loadLease)

section \<open>Holders\<close>

text \<open>The caller names the lease by its id or by its artifact.\<close>

definition names_lease :: "lifecycle_options \<Rightarrow> lease \<Rightarrow> bool" where
  "names_lease opts l \<longleftrightarrow> given (yq_leaseId opts) = Some (ls_leaseId l)
     \<or> given (yq_leaseId opts) = None \<and> given (yq_leaseFile opts) \<noteq> None"

definition may_override :: "lifecycle_options \<Rightarrow> action \<Rightarrow> string \<Rightarrow> lease \<Rightarrow> bool" where
  "may_override opts action a l \<longleftrightarrow> action = Repair \<and> (yq_actorType opts = None \<or> yq_actorType opts = Some ''human'')
     \<and> yq_forceOverride opts \<and> yq_expectedAlias opts = Some a \<and> yq_expectedLeaseId opts = Some (ls_leaseId l)"

lemma given_Some: "given v = Some x \<longleftrightarrow> v = Some x \<and> x \<noteq> []"
  by (auto simp: given_def split: if_splits option.splits)

lemma loadLease_named:
  assumes "loadLeaseByIdOrFile env (yq_leaseId opts) (yq_leaseFile opts) s = (Inr l, s')" "lease_files.slots_ok (sy_leases s)"
  shows "names_lease opts l \<and> s' = s"
proof (cases "given (yq_leaseId opts)")
  case None
  from loadLease_file [OF assms(1)] have "s' = s" by simp
  moreover have "given (yq_leaseFile opts) \<noteq> None"
    using assms(1) None by (auto simp: loadLeaseByIdOrFile_def run_andthen run_simps split: option.splits)
  ultimately show ?thesis using None by (simp add: names_lease_def)
next
  case (Some i)
  then have "yq_leaseId opts = Some i" "given (Some i) = Some i" by (auto simp: given_Some)
  with assms(1) have "dir_get (sy_leases s) (i @ ''.json'') = Some l" "s' = s"
    by (auto simp: loadLeaseByIdOrFile_def run_andthen run_simps split: option.splits)
  moreover from this assms(2) have "i @ ''.json'' = lease_name l" by (simp add: lease_files.slots_ok_def)
  ultimately show ?thesis using Some by (simp add: names_lease_def lease_name_def)
qed

lemma requester_ok:
  assumes "resolveLifecycleRequester env st opts a s = (Inr q, s')" "lease_files.slots_ok (sy_leases s)"
  shows "s' = s \<and> rr_activeLease q = lease_on st a
    \<and> (\<forall>l. lease_on st a = Some l \<longrightarrow> (if rr_holderMatches q then names_lease opts l
         else rr_actorType q = nullish (yq_actorType opts) ''human''))"
proof -
  from assms(1) obtain ref s1 where ref: "loadLeaseReferenceForAlias env opts a s = (Inr ref, s1)"
    and rest: "(let active = lease_on st a; actorType = nullish (or_else (yq_actorType opts) (map_option ls_actorType ref)) ''human'';
          requester = \<lparr>rr_activeLease = active, rr_activePin = pin_on st a,
            rr_actorId = nullish (or_else (yq_actorId opts) (map_option ls_actorId ref)) (makeLifecycleActorId env actorType),
            rr_actorType = actorType, rr_holderMatches = (active \<noteq> None \<and> map_option ls_leaseId ref = map_option ls_leaseId active),
            rr_jobId = or_else (yq_jobId opts) (Option.bind ref ls_jobId)\<rparr> in
      case ref of
        None \<Rightarrow> ret requester
      | Some l \<Rightarrow>
          if map_option ls_leaseId active \<noteq> Some (ls_leaseId l) then throw (inactive_reference (ls_leaseId l) a) else ret requester) s1
      = (Inr q, s')"
    unfolding resolveLifecycleRequester_def by (rule andthen_InrE)
  show ?thesis
  proof (cases ref)
    case None
    with ref have "s1 = s"
      by (auto simp: loadLeaseReferenceForAlias_def run_simps split: if_splits elim!: andthen_InrE)
    with rest None show ?thesis by (auto simp: Let_def run_simps or_else_def split: option.splits)
  next
    case (Some l)
    with ref have "loadLeaseByIdOrFile env (yq_leaseId opts) (yq_leaseFile opts) s = (Inr l, s1)"
      by (auto simp: loadLeaseReferenceForAlias_def run_simps split: if_splits elim!: andthen_InrE)
    from loadLease_named [OF this assms(2)] have n: "names_lease opts l" "s1 = s" by simp_all
    from rest Some have act: "map_option ls_leaseId (lease_on st a) = Some (ls_leaseId l)"
      by (auto simp: Let_def run_simps split: if_splits)
    with rest Some have q: "s' = s1" "rr_activeLease q = lease_on st a" "rr_holderMatches q"
      by (auto simp: Let_def run_simps)
    have "names_lease opts l'" if "lease_on st a = Some l'" for l'
      using that act n(1) by (simp add: names_lease_def)
    with q n(2) show ?thesis by simp
  qed
qed

lemma override_ok:
  "validateForceOverride action opts q a l = Inr reason \<Longrightarrow> rr_actorType q = nullish (yq_actorType opts) ''human''
    \<Longrightarrow> may_override opts action a l"
  by (auto simp: validateForceOverride_def may_override_def seq_def nullish_def split: if_splits sum.splits option.splits)

lemma findHostAlias_Inr: "findHostAliasOrThrow st a = Inr h \<Longrightarrow> h \<in> set (hc_aliases (bs_host st)) \<and> ha_alias h = a"
  by (auto simp: findHostAliasOrThrow_def split: option.splits dest!: find_SomeD)

lemma act_on_alias_ok:
  assumes "act_on_alias env action opts st t s = (Inr r, s')" "loaded st s" "lease_files.slots_ok (sy_leases s)"
  shows "\<exists>h hc' rg'. h \<in> set (hc_aliases (bs_host st)) \<and> yq_alias opts = Some (ha_alias h)
    \<and> (\<forall>l. lease_on st (ha_alias h) = Some l \<longrightarrow> names_lease opts l
         \<or> may_override opts action (ha_alias h) l \<and> dir_get (sy_leases s') (lease_name l) = None)
    \<and> sy_registry s' = Some (registry_text hc' rg') \<and> acted action (ha_alias h) rg'"
proof -
  from assms(1) obtain h where h: "(case yq_alias opts of None \<Rightarrow> Inl (unknown_alias None) | Some a \<Rightarrow> findHostAliasOrThrow st a) = Inr h"
    and r: "andthen (resolveLifecycleRequester env st opts (ha_alias h)) (\<lambda>requester.
    andthen (check (case rg_aliases (bs_registry st) (ha_alias h) of None \<Rightarrow> Inl type_error
        | Some e \<Rightarrow> assertLifecycleHealth action (ha_alias h) e)) (\<lambda>_.
    andthen (clear_obstacle env action opts st (ha_alias h) requester t) (\<lambda>(rg, revoked).
    andthen (perform_action env action (bs_host st) rg h requester t) (\<lambda>(rg, h, unchanged).
      check (lifecycleResult rg h requester revoked unchanged))))) s = (Inr r, s')"
    unfolding act_on_alias_def by (rule andthen_checkE)
  let ?a = "ha_alias h"
  from h have al: "h \<in> set (hc_aliases (bs_host st))" "yq_alias opts = Some ?a"
    by (auto split: option.splits dest: findHostAlias_Inr)
  from r obtain q s1 where q: "resolveLifecycleRequester env st opts ?a s = (Inr q, s1)"
    and r: "andthen (check (case rg_aliases (bs_registry st) ?a of None \<Rightarrow> Inl type_error
        | Some e \<Rightarrow> assertLifecycleHealth action ?a e)) (\<lambda>_.
    andthen (clear_obstacle env action opts st ?a q t) (\<lambda>(rg, revoked).
    andthen (perform_action env action (bs_host st) rg h q t) (\<lambda>(rg, h, unchanged).
      check (lifecycleResult rg h q revoked unchanged)))) s1 = (Inr r, s')" by (rule andthen_InrE)
  note req = requester_ok [OF q assms(3)]
  from r obtain u where e: "(case rg_aliases (bs_registry st) ?a of None \<Rightarrow> Inl type_error
        | Some e \<Rightarrow> assertLifecycleHealth action ?a e) = Inr u"
    and r: "andthen (clear_obstacle env action opts st ?a q t) (\<lambda>(rg, revoked).
    andthen (perform_action env action (bs_host st) rg h q t) (\<lambda>(rg, h, unchanged).
      check (lifecycleResult rg h q revoked unchanged))) s1 = (Inr r, s')" by (rule andthen_checkE)
  from r obtain rg revoked s2 where c: "clear_obstacle env action opts st ?a q t s1 = (Inr (rg, revoked), s2)"
    and r: "andthen (perform_action env action (bs_host st) rg h q t) (\<lambda>(rg, h, unchanged).
      check (lifecycleResult rg h q revoked unchanged)) s2 = (Inr r, s')"
    by (rule andthen_InrE) (auto split: prod.splits)
  from r obtain rg' h' un where p: "perform_action env action (bs_host st) rg h q t s2 = (Inr (rg', h', un), s')"
    by (rule andthen_InrE) (auto simp: run_simps split: prod.splits)
  note cl = clear_obstacle_ok [OF c]
  have entry: "rg_aliases rg ?a \<noteq> None"
    using cl e by (auto simp: released_registry_def update_entry_aliases split: option.splits if_splits)
  note res = perform_action_ok [OF p entry, unfolded act_result_def]
  have "keeps (\<lambda>x. sy_leases x = sy_leases s2) (perform_action env action (bs_host st) rg h q t)"
    by (rule keeps_perform_action) (rule action_side_files [where P = "\<lambda>x _ _. x = sy_leases s2"])
  from this refl p have leases: "sy_leases s' = sy_leases s2" by (rule keepsD)
  have holder: "names_lease opts l \<or> may_override opts action ?a l \<and> dir_get (sy_leases s') (lease_name l) = None"
    if l: "lease_on st ?a = Some l" for l
  proof (cases "rr_holderMatches q")
    case True
    with req l show ?thesis by simp
  next
    case False
    with cl req l obtain reason where "validateForceOverride action opts q ?a l = Inr reason"
      "sy_leases s2 = dir_del (lease_name l) (sy_leases s1)" by auto
    with override_ok [of action opts q ?a l reason] req l False leases show ?thesis by (simp add: dir_get_del)
  qed
  have "\<exists>hc'. sy_registry s' = Some (registry_text hc' rg')"
  proof (cases un)
    case True
    with res have same: "s' = s2" "rg' = rg" "action = Boot \<or> action = Shut" by simp_all
    have none: "revoked = None" using cl same(3) by (auto simp: validateForceOverride_def split: if_splits)
    with cl req have "s2 = s" "rg = bs_registry st" by auto
    with same assms(2) show ?thesis by (auto simp: loaded_def)
  next
    case False
    with res show ?thesis by simp
  qed
  with al holder res show ?thesis by blast
qed

section \<open>Properties\<close>


definition plain_action :: lifecycle_options where
  "plain_action = \<lparr>yq_now = None, yq_termWaitMs = None, yq_skipLeaseIds = [], yq_inventory = None, yq_alias = Some ''build-a'',
     yq_leaseId = Some ''lease-1'', yq_leaseFile = None, yq_actorType = None, yq_actorId = None, yq_jobId = None,
     yq_forceOverride = False, yq_overrideReason = None, yq_expectedAlias = None, yq_expectedLeaseId = None\<rparr>"


end
