(* ===== verification/Capacity.thy ===== *)
theory Capacity
  imports Provisioning Lifecycle
begin

text \<open>
  What capacity the purposes of a project find on the host and which simulators would have to be added
  (\<open>publicHostCapacitySummary\<close> to \<open>buildCapacityPlan\<close> in \<open>broker-core/index.mjs\<close>).  A purpose has capacity
  if a structurally matching alias is free; one without any matching alias can get a new one.  The
  tables of the capabilities are read for the five names they list; a capability that is a member
  name of every JavaScript object is outside the model.
\<close>

section \<open>What a purpose needs\<close>

definition capacity_reset_policies :: "(string \<times> string) list" where
  "capacity_reset_policies =
    [(''automation-resettable'', ''erase-on-acquire''), (''build-clean'', ''erase-on-acquire''), (''build-fast'', ''none''),
     (''interactive-resettable'', ''erase-on-acquire''), (''manual-persistent'', ''none'')]"

definition capacity_default_families :: "(string \<times> string) list" where
  "capacity_default_families =
    [(''automation-resettable'', ''iPhone''), (''build-clean'', ''iPhone''), (''build-fast'', ''iPhone''),
     (''interactive-resettable'', ''iPhone''), (''manual-persistent'', ''iPhone'')]"

definition capacity_alias_prefixes :: "(string \<times> string) list" where
  "capacity_alias_prefixes =
    [(''automation-resettable'', ''automation''), (''build-clean'', ''clean-build''), (''build-fast'', ''build''),
     (''interactive-resettable'', ''ui''), (''manual-persistent'', ''manual'')]"

text \<open>A blocker, by its code, or the requirement.\<close>

definition capacityProvisioningPolicy :: "purpose \<Rightarrow> string + requirement" where
  "capacityProvisioningPolicy p =
    (case (map_of capacity_reset_policies (pu_capability p), map_of capacity_default_families (pu_capability p)) of
       (Some resetPolicy, Some defaultDeviceFamily) \<Rightarrow>
         Inr \<lparr>qm_capability = pu_capability p,
           qm_deviceFamily = nullish (Option.bind (pu_requires p) rq_deviceFamily) defaultDeviceFamily,
           qm_iosVersion = Option.bind (pu_requires p) rq_iosVersion, qm_resetPolicy = resetPolicy\<rparr>
     | _ \<Rightarrow> Inl ''unsupported-capability'')"

definition policy_requirement :: "purpose \<Rightarrow> requirement option" where
  "policy_requirement p = (case capacityProvisioningPolicy p of Inl code \<Rightarrow> None | Inr q \<Rightarrow> Some q)"

definition publicRecommendedActionForProvisioningBlocker :: "string option \<Rightarrow> string" where
  "publicRecommendedActionForProvisioningBlocker code =
    (if code = Some ''runtime-not-found'' then ''install_runtime''
     else if code = Some ''device-type-not-found'' then ''run_broker_doctor'' else ''inspect_unknown'')"

definition structuralCapacityMatches :: "host_alias \<Rightarrow> purpose \<Rightarrow> requirement option \<Rightarrow> bool" where
  "structuralCapacityMatches h p requirement \<longleftrightarrow> pu_capability p \<in> set (ha_capabilities h) \<and> satisfiesRequires h (pu_requires p)
     \<and> (case requirement of None \<Rightarrow> True | Some q \<Rightarrow> ha_resetPolicy h = qm_resetPolicy q)"

section \<open>Evaluation of a purpose\<close>

datatype cap_status = Available | Unavailable | Repair_wanted | Setup_missing | Unknown_capacity

record evaluation =
  ce_actionKind :: "string option"
  ce_blockingReasons :: "string list"
  ce_matched :: "(nat \<times> nat) option"
  ce_structural :: "candidate list"
  ce_provisioning :: provisioning
  ce_purpose :: purpose
  ce_recommendedAction :: string
  ce_requirement :: "requirement option"
  ce_status :: cap_status

text \<open>The set of reason codes, in the order of \<open>Array.from(reasonCodes).sort()\<close>.\<close>

definition capacity_reason :: "objection \<Rightarrow> string option" where
  "capacity_reason r = (case r of Lease_conflict l \<Rightarrow> Some ''matching-capacity-busy''
     | Pinned_for_other_project p \<Rightarrow> Some ''pin-conflict'' | Unhealthy_alias d h \<Rightarrow> Some ''repair-needed'' | _ \<Rightarrow> None)"

definition capacity_reasons :: "candidate list \<Rightarrow> string list" where
  "capacity_reasons cs = sort_strings (uniq (List.map_filter capacity_reason (concat (map ca_reasons cs))))"

definition structural_candidates :: "broker_state \<Rightarrow> purpose \<Rightarrow> project_config \<Rightarrow> berr + candidate list" where
  "structural_candidates st p cfg =
    seq (buildCandidateAnalysis st p cfg None) (\<lambda>analysis.
      Inr (filter (\<lambda>c. structuralCapacityMatches (ca_hostAlias c) p (policy_requirement p)) analysis))"

text \<open>The cases after the choice of the simulator, in the order of the code.\<close>

definition evaluate_candidates :: "purpose \<Rightarrow> candidate list \<Rightarrow> provisioning \<Rightarrow> evaluation" where
  "evaluate_candidates p structural pv =
    (let available = filter (\<lambda>c. ca_reasons c = []) structural; q = policy_requirement p; codes = capacity_reasons structural;
         base = \<lparr>ce_actionKind = None, ce_blockingReasons = [], ce_matched = None, ce_structural = structural,
                 ce_provisioning = pv, ce_purpose = p, ce_recommendedAction = ''none'', ce_requirement = q, ce_status = Available\<rparr> in
     if available \<noteq> [] then base\<lparr>ce_matched := Some (length available, length structural)\<rparr>
     else if q = None \<and> structural = [] then
       base\<lparr>ce_blockingReasons := [''unsupported-capability''], ce_recommendedAction := ''inspect_unknown'', ce_status := Unknown_capacity\<rparr>
     else if structural = [] then
       base\<lparr>ce_actionKind := (if po_blocker pv = None then Some ''create_capacity'' else None),
            ce_blockingReasons := [nullish (po_blocker pv) ''no-matching-capacity''],
            ce_recommendedAction := (if po_blocker pv = None then ''create_capacity''
              else publicRecommendedActionForProvisioningBlocker (po_blocker pv)),
            ce_status := Unavailable\<rparr>
     else if codes = [''repair-needed''] then
       base\<lparr>ce_blockingReasons := [''repair-needed''],
            ce_recommendedAction := (if po_blocker pv = None then ''repair_matching_simulators''
              else publicRecommendedActionForProvisioningBlocker (po_blocker pv)),
            ce_status := Repair_wanted\<rparr>
     else
       base\<lparr>ce_blockingReasons := (if codes \<noteq> [] then codes else [''no-eligible-capacity'']),
            ce_recommendedAction := (if ''pin-conflict'' \<in> set codes then ''inspect_pin_conflict''
              else if ''matching-capacity-busy'' \<in> set codes then ''retry_when_available'' else ''inspect_unknown''),
            ce_status := Unavailable\<rparr>)"

definition evaluatePurposeCapacity ::
  "(string \<Rightarrow> string \<Rightarrow> int) \<Rightarrow> (string \<Rightarrow> string \<Rightarrow> int) \<Rightarrow> inventory option \<Rightarrow> project_config \<Rightarrow> broker_state \<Rightarrow> purpose
     \<Rightarrow> berr + evaluation" where
  "evaluatePurposeCapacity loc num iv cfg st p =
    seq (structural_candidates st p cfg) (\<lambda>structural.
    seq (case capacityProvisioningPolicy p of
           Inl code \<Rightarrow> Inr \<lparr>po_blocker = Some code, po_deviceType = None, po_runtime = None\<rparr>
         | Inr q \<Rightarrow> capacityProvisioningForRequirement loc num iv (Some q)) (\<lambda>pv.
      Inr (evaluate_candidates p structural pv)))"

definition blocked_report :: "purpose \<Rightarrow> string \<Rightarrow> string \<Rightarrow> cap_status \<Rightarrow> evaluation" where
  "blocked_report p reasonCode recommended status =
    \<lparr>ce_actionKind = None, ce_blockingReasons = [reasonCode], ce_matched = None, ce_structural = [],
     ce_provisioning = \<lparr>po_blocker = Some reasonCode, po_deviceType = None, po_runtime = None\<rparr>, ce_purpose = p,
     ce_recommendedAction = recommended, ce_requirement = policy_requirement p, ce_status = status\<rparr>"

definition setupMissingPurposeReport :: "purpose \<Rightarrow> string \<Rightarrow> evaluation" where
  "setupMissingPurposeReport p reasonCode = blocked_report p reasonCode
     (if reasonCode = ''missing-host-config'' then ''configure_host'' else ''configure_repo'') Setup_missing"

definition unknownPurposeCapacityReport :: "purpose \<Rightarrow> string \<Rightarrow> evaluation" where
  "unknownPurposeCapacityReport p reasonCode = blocked_report p reasonCode ''run_broker_doctor'' Unknown_capacity"

section \<open>Reports\<close>

record capacity_counts =
  cc_available :: nat
  cc_repairNeeded :: nat
  cc_setupMissing :: nat
  cc_unavailable :: nat
  cc_unknown :: nat

definition with_status :: "cap_status \<Rightarrow> evaluation list \<Rightarrow> nat" where
  "with_status s es = length (filter (\<lambda>e. ce_status e = s) es)"

definition capacitySummary :: "evaluation list \<Rightarrow> capacity_counts" where
  "capacitySummary es = \<lparr>cc_available = with_status Available es, cc_repairNeeded = with_status Repair_wanted es,
     cc_setupMissing = with_status Setup_missing es, cc_unavailable = with_status Unavailable es,
     cc_unknown = with_status Unknown_capacity es\<rparr>"

definition checkStatusFromSummary :: "capacity_counts \<Rightarrow> string" where
  "checkStatusFromSummary c = (if cc_unavailable c = 0 \<and> cc_repairNeeded c = 0 \<and> cc_setupMissing c = 0 \<and> cc_unknown c = 0
     then ''ready'' else ''needs_attention'')"

record capacity_options =
  kq_now :: "string option"
  kq_termWaitMs :: "js option"
  kq_skipLeaseIds :: "string list"
  kq_projectFilePath :: "string option"
  kq_purposeId :: "string option"
  kq_apply :: bool
  kq_confirmPlanId :: "string option"
  kq_actorType :: "string option"
  kq_actorId :: "js option"

text \<open>The result; the public report consists of the evaluations, the counts and the status.\<close>

record capacity_evaluation =
  cv_evaluations :: "evaluation list"
  cv_hostConfigured :: bool
  cv_inventory :: "inventory option"
  cv_inventoryFresh :: bool
  cv_project :: "project_config option"
  cv_counts :: capacity_counts
  cv_status :: string
  cv_state :: "broker_state option"
  cv_timestamp :: string

text \<open>\<open>selectCapacityPurposes\<close>: an empty purpose id selects all purposes.\<close>

definition selectCapacityPurposes ::
  "(string \<Rightarrow> string \<Rightarrow> int) \<Rightarrow> project_config \<Rightarrow> string option \<Rightarrow> berr + purpose list" where
  "selectCapacityPurposes loc cfg purposeId =
    (if given purposeId \<noteq> None then seq (getPurpose cfg purposeId) (\<lambda>p. Inr [p])
     else Inr (js_sort (\<lambda>l r. loc (pu_id l) (pu_id r)) (pc_purposes cfg)))"

definition loadCapacityProject :: "'w env \<Rightarrow> capacity_options \<Rightarrow> ('w sys, project_config option) eff" where
  "loadCapacityProject env opts =
    (case given (or_else (kq_projectFilePath opts) (bp_projectFilePath (en_paths env))) of
       None \<Rightarrow> ret None
     | Some f \<Rightarrow> andthen (look (\<lambda>s. fs_exists (en_fs env (sy_world s)) f)) (\<lambda>there.
         if \<not> there then ret None
         else andthen (lift (en_projectJson env f)) (\<lambda>v.
              andthen (check (validateProjectConfig (Some v))) (\<lambda>cfg. ret (Some cfg)))))"

definition readSimctlInventory :: "'w env \<Rightarrow> ('w sys, inventory) eff" where
  "readSimctlInventory env = lift (sc_inventory (en_simctl env))"

definition evaluated ::
  "evaluation list \<Rightarrow> bool \<Rightarrow> inventory option \<Rightarrow> project_config \<Rightarrow> broker_state option \<Rightarrow> string \<Rightarrow> capacity_evaluation" where
  "evaluated es hostConfigured iv cfg st timestamp =
    \<lparr>cv_evaluations = es, cv_hostConfigured = hostConfigured, cv_inventory = iv, cv_inventoryFresh = (iv \<noteq> None),
     cv_project = Some cfg, cv_counts = capacitySummary es, cv_status = checkStatusFromSummary (capacitySummary es),
     cv_state = st, cv_timestamp = timestamp\<rparr>"

definition missingHostCapacityEvaluation ::
  "project_config \<Rightarrow> purpose list \<Rightarrow> string \<Rightarrow> inventory option \<Rightarrow> capacity_evaluation" where
  "missingHostCapacityEvaluation cfg ps timestamp iv =
    evaluated (map (\<lambda>p. setupMissingPurposeReport p ''missing-host-config'') ps) False iv cfg None timestamp"

definition missing_project :: "bool \<Rightarrow> string \<Rightarrow> capacity_evaluation" where
  "missing_project hostConfigured timestamp =
    \<lparr>cv_evaluations = [], cv_hostConfigured = hostConfigured, cv_inventory = None, cv_inventoryFresh = False, cv_project = None,
     cv_counts = (capacitySummary [])\<lparr>cc_setupMissing := 1\<rparr>, cv_status = ''needs_attention'', cv_state = None,
     cv_timestamp = timestamp\<rparr>"

text \<open>\<open>catch (error) { if (missing-host-config) return v; throw error; }\<close>\<close>

definition or_missing_host :: "('w sys, 'a) eff \<Rightarrow> ('w sys, 'a + 'b) eff \<Rightarrow> ('w sys, 'a + 'b) eff" where
  "or_missing_host v m = catching m (\<lambda>e.
     if is_broker_error e \<and> payload_reason e = Some ''missing-host-config'' then andthen v (\<lambda>x. ret (Inl x)) else throw e)"

definition evaluate_loaded ::
  "'w env \<Rightarrow> capacity_options \<Rightarrow> project_config \<Rightarrow> purpose list \<Rightarrow> string \<Rightarrow> inventory \<Rightarrow> ('w sys, capacity_evaluation) eff" where
  "evaluate_loaded env opts cfg ps timestamp iv =
    andthen (or_missing_host (ret (missingHostCapacityEvaluation cfg ps timestamp (Some iv)))
       (andthen (check (stateLoadOptions (kq_termWaitMs opts) (kq_skipLeaseIds opts) (Some iv) (kq_now opts))) (\<lambda>lo.
        andthen ((if kq_apply opts then loadBrokerState else readBrokerStateSnapshot) env lo timestamp) (\<lambda>st. ret (Inr st)))))
      (\<lambda>r. case r of
          Inl ev \<Rightarrow> ret ev
        | Inr st \<Rightarrow>
            andthen (check (map_seq (evaluatePurposeCapacity (en_locale env) (en_localeNumeric env) (Some iv) cfg st) ps)) (\<lambda>es.
              ret (evaluated es True (Some iv) cfg (Some st) timestamp)))"

text \<open>The host is read before the inventory; an inventory that cannot be read leaves the capacity unknown.\<close>

definition evaluate_project ::
  "'w env \<Rightarrow> capacity_options \<Rightarrow> project_config \<Rightarrow> purpose list \<Rightarrow> string \<Rightarrow> ('w sys, capacity_evaluation) eff" where
  "evaluate_project env opts cfg ps timestamp =
    andthen (or_missing_host (ret (missingHostCapacityEvaluation cfg ps timestamp None))
        (andthen readHostConfigOrThrow (\<lambda>_. ret (Inr ()))))
      (\<lambda>r. case r of
          Inl ev \<Rightarrow> ret ev
        | Inr _ \<Rightarrow> andthen (catching (andthen (readSimctlInventory env) (\<lambda>iv. ret (Some iv))) (\<lambda>_. ret None)) (\<lambda>inv'. case inv' of
            None \<Rightarrow> andthen (look (\<lambda>s. sy_host s \<noteq> None)) (\<lambda>hostConfigured.
              ret (evaluated (map (\<lambda>p. unknownPurposeCapacityReport p ''inventory-unavailable'') ps) hostConfigured None cfg None timestamp))
          | Some iv \<Rightarrow> evaluate_loaded env opts cfg ps timestamp iv))"

definition buildCapacityEvaluation :: "'w env \<Rightarrow> capacity_options \<Rightarrow> ('w sys, capacity_evaluation) eff" where
  "buildCapacityEvaluation env opts =
    andthen (nowIso env (kq_now opts)) (\<lambda>timestamp.
    andthen (loadCapacityProject env opts) (\<lambda>project. case project of
        None \<Rightarrow> andthen (look (\<lambda>s. sy_host s \<noteq> None)) (\<lambda>hostConfigured. ret (missing_project hostConfigured timestamp))
      | Some cfg \<Rightarrow> andthen (check (selectCapacityPurposes (en_locale env) cfg (kq_purposeId opts))) (\<lambda>ps.
          evaluate_project env opts cfg ps timestamp)))"

definition checkCapacityBroker :: "'w env \<Rightarrow> capacity_options \<Rightarrow> ('w sys, capacity_evaluation) eff" where
  "checkCapacityBroker env opts = buildCapacityEvaluation env opts"

section \<open>What the statuses mean\<close>

text \<open>The aliases that could serve the purpose if they were free.\<close>

definition fitting :: "broker_state \<Rightarrow> purpose \<Rightarrow> host_alias set" where
  "fitting st p = {h \<in> set (hc_aliases (bs_host st)). structuralCapacityMatches h p (policy_requirement p)}"

lemma structural_candidates_ok:
  assumes "wf_state st"
  shows "\<exists>cs. structural_candidates st p cfg = Inr cs \<and> ca_hostAlias ` set cs = fitting st p
    \<and> (\<forall>c\<in>set cs. ca_reasons c = [] \<longleftrightarrow> allocatable st p cfg None (ca_hostAlias c))"
proof -
  from analysis_spec [OF assms, of p cfg None] obtain an where
    an: "buildCandidateAnalysis st p cfg None = Inr an" "map ca_hostAlias an = hc_aliases (bs_host st)"
    and each: "\<And>c. c \<in> set an \<Longrightarrow> ca_reasons c = [] \<longleftrightarrow> allocatable st p cfg None (ca_hostAlias c)"
    by blast
  from an(2) have "ca_hostAlias ` set an = set (hc_aliases (bs_host st))" by (metis image_set)
  then have "ca_hostAlias ` set (filter (\<lambda>c. structuralCapacityMatches (ca_hostAlias c) p (policy_requirement p)) an) = fitting st p"
    unfolding fitting_def by auto
  with an(1) each show ?thesis by (auto simp: structural_candidates_def)
qed

lemma evaluate_candidates_simps:
  "ce_status (evaluate_candidates p cs pv) = Available \<longleftrightarrow> (\<exists>c\<in>set cs. ca_reasons c = [])"
  "ce_actionKind (evaluate_candidates p cs pv) \<noteq> None \<longleftrightarrow> cs = [] \<and> policy_requirement p \<noteq> None \<and> po_blocker pv = None"
  "ce_requirement (evaluate_candidates p cs pv) = policy_requirement p"
  "ce_purpose (evaluate_candidates p cs pv) = p"
  "ce_provisioning (evaluate_candidates p cs pv) = pv"
  "ce_status (evaluate_candidates p cs pv) = Unknown_capacity \<longleftrightarrow> cs = [] \<and> policy_requirement p = None"
  "ce_status (evaluate_candidates p cs pv) \<noteq> Setup_missing"
  by (auto simp: evaluate_candidates_def Let_def filter_empty_conv)

lemma evaluatePurposeCapacity_ok:
  assumes "wf_state st" "evaluatePurposeCapacity loc num iv cfg st p = Inr e"
  shows "\<exists>cs pv. e = evaluate_candidates p cs pv \<and> ca_hostAlias ` set cs = fitting st p
    \<and> (\<forall>c\<in>set cs. ca_reasons c = [] \<longleftrightarrow> allocatable st p cfg None (ca_hostAlias c))
    \<and> (policy_requirement p \<noteq> None \<longrightarrow> capacityProvisioningForRequirement loc num iv (policy_requirement p) = Inr pv)"
  using structural_candidates_ok [OF assms(1), of p cfg] assms(2)
  by (auto simp: evaluatePurposeCapacity_def seq_Inr_iff policy_requirement_def split: sum.splits)

section \<open>Properties\<close>

text \<open>C15: the capacity of a purpose is reported as available exactly if some alias that fits it, with the reset
  policy of its capability, can be allocated to it, and then a request for the purpose in the same state
  finds an alias.  A new simulator is proposed exactly if no alias fits the purpose at all, its capability
  is a known one, and a runtime and a device type for it are installed.\<close>

theorem capacity_status_meaning:
  assumes "wf_state st" "evaluatePurposeCapacity loc num iv cfg st p = Inr e"
  shows "(ce_status e = Available \<longleftrightarrow> (\<exists>h\<in>fitting st p. allocatable st p cfg None h))
    \<and> (ce_status e = Available \<longrightarrow> (\<exists>c. select_candidate dp st p cfg None = Inr c))
    \<and> (ce_actionKind e \<noteq> None \<longleftrightarrow> fitting st p = {} \<and> (\<exists>q pv. capacityProvisioningPolicy p = Inr q
         \<and> capacityProvisioningForRequirement loc num iv (Some q) = Inr pv \<and> po_blocker pv = None))"
proof -
  from evaluatePurposeCapacity_ok [OF assms] obtain cs pv where e: "e = evaluate_candidates p cs pv"
    and cs: "ca_hostAlias ` set cs = fitting st p"
    and each: "\<And>c. c \<in> set cs \<Longrightarrow> ca_reasons c = [] \<longleftrightarrow> allocatable st p cfg None (ca_hostAlias c)"
    and pv: "policy_requirement p \<noteq> None \<longrightarrow> capacityProvisioningForRequirement loc num iv (policy_requirement p) = Inr pv" by blast
  have avail: "ce_status e = Available \<longleftrightarrow> (\<exists>h\<in>fitting st p. allocatable st p cfg None h)"
    unfolding e evaluate_candidates_simps cs [symmetric] using each by auto
  moreover have "\<exists>c. select_candidate dp st p cfg None = Inr c" if "ce_status e = Available"
    using selection_result [OF assms(1), where dp = dp and purpose = p and cfg = cfg and explicit = None] that avail by (auto simp: fitting_def split: sum.splits)
  moreover have "cs = [] \<longleftrightarrow> fitting st p = {}" using cs by auto
  ultimately show ?thesis
    using pv unfolding e evaluate_candidates_simps by (auto simp: policy_requirement_def split: sum.splits)
qed

theorem capacity_status_meaning_witness:
  "\<exists>p e. evaluatePurposeCapacity (cmp_key id) (cmp_key id) None sample_project_config sample_state p = Inr e
    \<and> (ce_status e = Available \<longleftrightarrow> (\<exists>h\<in>fitting sample_state p. allocatable sample_state p sample_project_config None h))"
proof -
  let ?p = "hd (pc_purposes sample_project_config)"
  have "case evaluatePurposeCapacity (cmp_key id) (cmp_key id) None sample_project_config sample_state ?p of Inr e \<Rightarrow> True | Inl e \<Rightarrow> False"
    by code_simp
  then obtain e where e: "evaluatePurposeCapacity (cmp_key id) (cmp_key id) None sample_project_config sample_state ?p = Inr e"
    by (cases "evaluatePurposeCapacity (cmp_key id) (cmp_key id) None sample_project_config sample_state ?p") auto
  from capacity_status_meaning [OF sample_state_wf e, where dp = "\<lambda>_. None"] e show ?thesis by blast
qed

end
