(* ===== verification/Capacity_Plan.thy ===== *)
theory Capacity_Plan
  imports Capacity
begin

text \<open>
  The plan of a capacity reconciliation (\<open>requirementTupleKey\<close> to \<open>buildCapacityPlan\<close> in
  \<open>broker-core/index.mjs\<close>): one new simulator for every requirement that some purpose lacks, on an alias
  name that is not in use, or the list of the blockers; and the fingerprint whose digest is the id of the
  plan.
\<close>

section \<open>Keys\<close>

text \<open>\<open>JSON.stringify\<close> of a string.\<close>

definition hex_char :: "nat \<Rightarrow> char" where
  "hex_char n = char_of (if n < 10 then 48 + n else 87 + n)"

definition json_char :: "char \<Rightarrow> string" where
  "json_char c =
    (let n = of_char c :: nat in
     if n = 0x22 \<or> n = 0x5C then [CHR 0x5C, c]
     else if n = 0x08 then [CHR 0x5C, CHR ''b''] else if n = 0x09 then [CHR 0x5C, CHR ''t'']
     else if n = 0x0A then [CHR 0x5C, CHR ''n''] else if n = 0x0C then [CHR 0x5C, CHR ''f'']
     else if n = 0x0D then [CHR 0x5C, CHR ''r'']
     else if n < 0x20 then [CHR 0x5C, CHR ''u'', CHR ''0'', CHR ''0'', hex_char (n div 16), hex_char (n mod 16)]
     else [c])"

definition json_string :: "string \<Rightarrow> string" where
  "json_string s = CHR 0x22 # concat (map json_char s) @ [CHR 0x22]"

definition json_opt_string :: "string option \<Rightarrow> string" where
  "json_opt_string v = (case v of None \<Rightarrow> ''null'' | Some s \<Rightarrow> json_string s)"

definition json_member :: "string \<Rightarrow> string \<Rightarrow> string" where
  "json_member k v = json_string k @ '':'' @ v"

definition requirementTupleKey :: "requirement \<Rightarrow> string" where
  "requirementTupleKey q = ''{'' @ json_member ''capability'' (json_string (qm_capability q))
     @ '','' @ json_member ''deviceFamily'' (json_string (qm_deviceFamily q))
     @ '','' @ json_member ''iosVersion'' (json_opt_string (qm_iosVersion q))
     @ '','' @ json_member ''resetPolicy'' (json_string (qm_resetPolicy q)) @ ''}''"

section \<open>Names\<close>

definition capacityAliasPrefix :: "requirement \<Rightarrow> string" where
  "capacityAliasPrefix q =
    (let base = nullish (map_of capacity_alias_prefixes (qm_capability q)) ''capacity'' in
     if qm_deviceFamily q = ''iPad'' \<and> base = ''ui'' then ''ipad''
     else if qm_deviceFamily q = ''iPad'' \<and> \<not> str_includes base ''ipad'' then base @ ''-ipad''
     else base)"

definition numbered :: "string \<Rightarrow> nat \<Rightarrow> string" where
  "numbered prefix i = prefix @ ''-'' @ nat_text i"

lemma numbered_inj: "numbered p i = numbered p j \<Longrightarrow> i = j"
  by (auto simp: numbered_def dest: nat_text_inj)

text \<open>The loop of \<open>nextCapacityAlias\<close>; it ends since only finitely many names are in use.\<close>

lemma taken_finite: "finite {j. i \<le> j \<and> numbered p j \<in> set used}"
  by (rule finite_subset [OF _ finite_vimageI [of "set used" "numbered p"]]) (auto simp: inj_def dest: numbered_inj)

function free_number :: "string list \<Rightarrow> string \<Rightarrow> nat \<Rightarrow> nat" where
  "free_number used prefix i = (if numbered prefix i \<in> set used then free_number used prefix (Suc i) else i)"
  by pat_completeness auto
termination
proof (relation "measure (\<lambda>(used, p, i). card {j. i \<le> j \<and> numbered p j \<in> set used})")
  fix used p i
  assume "numbered p i \<in> set used"
  then have "i \<in> {j. i \<le> j \<and> numbered p j \<in> set used}" "i \<notin> {j. Suc i \<le> j \<and> numbered p j \<in> set used}" by simp_all
  then have "{j. Suc i \<le> j \<and> numbered p j \<in> set used} \<subset> {j. i \<le> j \<and> numbered p j \<in> set used}" by (auto simp: Suc_le_eq)
  from psubset_card_mono [OF taken_finite this]
  show "((used, p, Suc i), used, p, i) \<in> measure (\<lambda>(used, p, i). card {j. i \<le> j \<and> numbered p j \<in> set used})" by simp
qed simp

declare free_number.simps [simp del]

definition nextCapacityAlias :: "string list \<Rightarrow> requirement \<Rightarrow> string" where
  "nextCapacityAlias used q = numbered (capacityAliasPrefix q) (free_number used (capacityAliasPrefix q) 1)"

definition capacityDisplayName :: "requirement \<Rightarrow> string" where
  "capacityDisplayName q = nullish (map_of
     [(''automation-resettable'', ''Automation''), (''build-clean'', ''Clean Build''), (''build-fast'', ''Build''),
      (''interactive-resettable'', ''UI''), (''manual-persistent'', ''Manual'')] (qm_capability q)) ''Capacity''
     @ '' '' @ qm_deviceFamily q"

section \<open>The plan\<close>

record plan_blocker =
  pb_reasons :: "string list"
  pb_purposeId :: "string option"
  pb_recommended :: string

definition planBlockerForEvaluation :: "evaluation \<Rightarrow> plan_blocker option" where
  "planBlockerForEvaluation e =
    (let blocked = \<lparr>pb_reasons = ce_blockingReasons e, pb_purposeId = Some (pu_id (ce_purpose e)),
                    pb_recommended = ce_recommendedAction e\<rparr> in
     if ce_status e = Setup_missing \<or> ce_status e = Unknown_capacity then Some blocked
     else if ce_actionKind e = None \<and> ce_status e \<noteq> Available then Some blocked
     else if ce_actionKind e \<noteq> None \<and> po_blocker (ce_provisioning e) \<noteq> None then
       Some (blocked\<lparr>pb_reasons := [nullish (po_blocker (ce_provisioning e)) []],
         pb_recommended := publicRecommendedActionForProvisioningBlocker (po_blocker (ce_provisioning e))\<rparr>)
     else None)"

text \<open>The evaluations that lead to one action, by the key of their requirement.\<close>

record action_group =
  ag_kind :: string
  ag_evaluations :: "evaluation list"
  ag_requirement :: requirement

definition add_to_group :: "evaluation \<Rightarrow> string \<Rightarrow> requirement \<Rightarrow> (string \<times> action_group) list \<Rightarrow> (string \<times> action_group) list" where
  "add_to_group e kind q groups =
    (let key = requirementTupleKey q in
     if map_of groups key = None then groups @ [(key, \<lparr>ag_kind = kind, ag_evaluations = [e], ag_requirement = q\<rparr>)]
     else map (\<lambda>(k, g). if k = key then (k, g\<lparr>ag_evaluations := ag_evaluations g @ [e]\<rparr>) else (k, g)) groups)"

definition group_evaluation :: "evaluation \<Rightarrow> (string \<times> action_group) list \<Rightarrow> (string \<times> action_group) list" where
  "group_evaluation e groups =
    (if planBlockerForEvaluation e \<noteq> None then groups
     else case (ce_actionKind e, ce_requirement e) of
         (Some kind, Some q) \<Rightarrow> add_to_group e kind q groups
       | _ \<Rightarrow> groups)"

record plan_action =
  an_public :: public_action
  an_alias :: string
  an_deviceTypeIdentifier :: string
  an_displayName :: string
  an_iosVersion :: string
  an_runtimeIdentifier :: string
  an_simulatorName :: string

text \<open>The simulator is the one that was found for the first purpose of the group.\<close>

definition plan_action :: "string \<Rightarrow> nat \<Rightarrow> string \<Rightarrow> action_group \<Rightarrow> berr + plan_action" where
  "plan_action hostId index a g =
    (case ag_evaluations g of
       [] \<Rightarrow> Inl type_error
     | e # _ \<Rightarrow>
       (case (po_deviceType (ce_provisioning e), po_runtime (ce_provisioning e)) of
          (Some t, Some r) \<Rightarrow> Inr
            \<lparr>an_public = \<lparr>pa_actionId = ''capacity-'' @ nat_text (index + 1), pa_kind = ag_kind g,
               pa_purposeIds = sort_strings (uniq (map (\<lambda>e. pu_id (ce_purpose e)) (ag_evaluations g))),
               pa_requirement = ag_requirement g\<rparr>,
             an_alias = a, an_deviceTypeIdentifier = nullish (dt_identifier t) [],
             an_displayName = capacityDisplayName (ag_requirement g), an_iosVersion = nullish (rn_version r) [],
             an_runtimeIdentifier = rn_identifier r, an_simulatorName = simulatorDisplayName hostId a\<rparr>
        | _ \<Rightarrow> Inl type_error))"

fun plan_actions :: "string \<Rightarrow> nat \<Rightarrow> string list \<Rightarrow> action_group list \<Rightarrow> berr + plan_action list" where
  "plan_actions hostId index used [] = Inr []"
| "plan_actions hostId index used (g # gs) =
    (let a = nextCapacityAlias used (ag_requirement g) in
     seq (plan_action hostId index a g) (\<lambda>x.
     seq (plan_actions hostId (Suc index) (a # used) gs) (\<lambda>xs. Inr (x # xs))))"

section \<open>The fingerprint\<close>

definition opt_json :: "('a \<Rightarrow> js) \<Rightarrow> 'a option \<Rightarrow> js" where
  "opt_json f v = (case v of None \<Rightarrow> JNull | Some x \<Rightarrow> f x)"

definition fingerprint_alias :: "broker_state \<Rightarrow> host_alias \<Rightarrow> js" where
  "fingerprint_alias st h = JObj
    [(''activeLease'', opt_json (\<lambda>l. JObj [(''projectId'', JStr (ls_projectId l)), (''purposeId'', JStr (ls_purposeId l))])
        (lease_on st (ha_alias h))),
     (''alias'', JStr (ha_alias h)), (''capabilities'', str_arr (sort_strings (ha_capabilities h))),
     (''deviceFamily'', JStr (ha_deviceFamily h)),
     (''health'', opt_json (\<lambda>e. JStr (health_text (re_health e))) (rg_aliases (bs_registry st) (ha_alias h))),
     (''iosVersion'', JStr (ha_iosVersion h)),
     (''pin'', opt_json (\<lambda>p. JObj [(''projectId'', JStr (pn_projectId p)), (''purposeId'', opt_str (pn_purposeId p))])
        (pin_on st (ha_alias h))),
     (''resetPolicy'', JStr (ha_resetPolicy h)), (''simulatorId'', JStr (ha_simulatorId h))]"

text \<open>Sorting device types by an identifier that is missing throws.\<close>

definition sorted_types :: "(string \<Rightarrow> string \<Rightarrow> int) \<Rightarrow> device_type list \<Rightarrow> berr + device_type list" where
  "sorted_types loc ts =
    (if 1 < length ts \<and> list_ex (\<lambda>t. dt_identifier t = None) ts then Inl type_error
     else Inr (js_sort (\<lambda>l r. loc (nullish (dt_identifier l) []) (nullish (dt_identifier r) [])) ts))"

definition fingerprint_inventory :: "(string \<Rightarrow> string \<Rightarrow> int) \<Rightarrow> inventory \<Rightarrow> berr + js" where
  "fingerprint_inventory loc iv = seq (sorted_types loc (iv_deviceTypes iv)) (\<lambda>ts. Inr (JObj
    [(''deviceTypes'', JArr (map (\<lambda>t. JObj [(''identifier'', opt_str (dt_identifier t)), (''name'', opt_str (dt_name t)),
        (''productFamily'', opt_str (dt_productFamily t))]) ts)),
     (''runtimes'', JArr (map (\<lambda>r. JObj [(''identifier'', JStr (rn_identifier r)), (''isAvailable'', JBool (rn_isAvailable r)),
        (''version'', opt_str (rn_version r))]) (js_sort (\<lambda>l r. loc (rn_identifier l) (rn_identifier r)) (iv_runtimes iv))))]))"

definition buildCapacityHostFingerprint :: "(string \<Rightarrow> string \<Rightarrow> int) \<Rightarrow> capacity_evaluation \<Rightarrow> berr + js" where
  "buildCapacityHostFingerprint loc ev =
    (case cv_state ev of
       None \<Rightarrow> Inr (JObj [(''configured'', JBool (cv_hostConfigured ev)), (''inventoryFresh'', JBool (cv_inventoryFresh ev))])
     | Some st \<Rightarrow> seq (fingerprint_inventory loc (nullish (cv_inventory ev) no_inventory)) (\<lambda>iv. Inr (JObj
         [(''aliases'', JArr (map (fingerprint_alias st)
             (js_sort (\<lambda>l r. loc (ha_alias l) (ha_alias r)) (hc_aliases (bs_host st))))),
          (''configured'', JBool True), (''inventory'', iv), (''inventoryFresh'', JBool (cv_inventoryFresh ev))])))"

definition requirement_json :: "requirement \<Rightarrow> js" where
  "requirement_json q = JObj [(''capability'', JStr (qm_capability q)), (''deviceFamily'', JStr (qm_deviceFamily q)),
     (''iosVersion'', opt_str (qm_iosVersion q)), (''resetPolicy'', JStr (qm_resetPolicy q))]"

definition public_action_json :: "public_action \<Rightarrow> js" where
  "public_action_json a = JObj [(''actionId'', JStr (pa_actionId a)), (''kind'', JStr (pa_kind a)),
     (''purposeIds'', str_arr (pa_purposeIds a)), (''requirement'', requirement_json (pa_requirement a))]"

definition plan_blocker_json :: "plan_blocker \<Rightarrow> js" where
  "plan_blocker_json b = JObj
    [(''blockingReasons'', JArr (map (\<lambda>c. JObj [(''code'', JStr c)]) (pb_reasons b))), (''purposeId'', opt_str (pb_purposeId b)),
     (''recommendedAction'', JStr (pb_recommended b))]"

definition project_fingerprint :: "(string \<Rightarrow> string \<Rightarrow> int) \<Rightarrow> capacity_evaluation \<Rightarrow> project_config \<Rightarrow> js" where
  "project_fingerprint loc ev cfg = JObj
    [(''projectId'', JStr (pc_projectId cfg)),
     (''purposes'', JArr (map (\<lambda>p. JObj [(''capability'', JStr (pu_capability p)), (''id'', JStr (pu_id p)),
        (''requires'', requires_json (pu_requires p))])
        (js_sort (\<lambda>l r. loc (pu_id l) (pu_id r)) (map ce_purpose (cv_evaluations ev)))))]"

record capacity_plan =
  cl_actions :: "plan_action list"
  cl_blocked :: "plan_blocker list"
  cl_evaluation :: capacity_evaluation
  cl_planId :: string
  cl_status :: string

definition plan_blocked :: "(string \<Rightarrow> string \<Rightarrow> int) \<Rightarrow> capacity_evaluation \<Rightarrow> plan_blocker list" where
  "plan_blocked loc ev =
    js_sort (\<lambda>l r. loc (nullish (pb_purposeId l) ''null'' @ '':'' @ pb_recommended l) (nullish (pb_purposeId r) ''null'' @ '':'' @ pb_recommended r))
      ((if cv_project ev = None then [\<lparr>pb_reasons = [''missing-project-file''], pb_purposeId = None, pb_recommended = ''configure_repo''\<rparr>] else [])
       @ List.map_filter planBlockerForEvaluation (cv_evaluations ev))"

definition plan_groups :: "(string \<Rightarrow> string \<Rightarrow> int) \<Rightarrow> capacity_evaluation \<Rightarrow> action_group list" where
  "plan_groups loc ev =
    js_sort (\<lambda>l r. loc (requirementTupleKey (ag_requirement l)) (requirementTupleKey (ag_requirement r)))
      (map snd (fold group_evaluation (cv_evaluations ev) []))"

definition used_aliases :: "capacity_evaluation \<Rightarrow> string list" where
  "used_aliases ev = (case cv_state ev of None \<Rightarrow> [] | Some st \<Rightarrow> map ha_alias (hc_aliases (bs_host st)))"

definition plan_of_evaluation ::
  "(string \<Rightarrow> string \<Rightarrow> int) \<Rightarrow> (js \<Rightarrow> string) \<Rightarrow> capacity_evaluation \<Rightarrow> berr + capacity_plan" where
  "plan_of_evaluation loc digest ev =
    (let blocked = plan_blocked loc ev; groups = plan_groups loc ev in
     seq (case (groups, cv_state ev) of
            ([], _) \<Rightarrow> Inr []
          | (_, None) \<Rightarrow> Inl type_error
          | (_, Some st) \<Rightarrow> plan_actions (hc_hostId (bs_host st)) 0 (used_aliases ev) groups) (\<lambda>actions.
     seq (buildCapacityHostFingerprint loc ev) (\<lambda>host.
       let status = (if blocked \<noteq> [] then ''blocked'' else if actions \<noteq> [] then ''changes_required'' else ''no_changes'') in
       Inr \<lparr>cl_actions = actions, cl_blocked = blocked, cl_evaluation = ev,
            cl_planId = digest (JObj
              [(''actions'', JArr (map (public_action_json \<circ> an_public) actions)), (''blockedReasons'', JArr (map plan_blocker_json blocked)),
               (''command'', JStr ''capacity.reconcile''), (''host'', host), (''project'', opt_json (project_fingerprint loc ev) (cv_project ev)),
               (''schemaVersion'', JInt 1), (''status'', JStr status)]),
            cl_status = status\<rparr>)))"

definition buildCapacityPlan :: "'w env \<Rightarrow> capacity_options \<Rightarrow> ('w sys, capacity_plan) eff" where
  "buildCapacityPlan env opts =
    andthen (buildCapacityEvaluation env opts) (\<lambda>ev. check (plan_of_evaluation (en_locale env) (en_digest env) ev))"

section \<open>Keys are faithful\<close>

text \<open>Reading one character of a quoted string.\<close>

definition hex_digit :: "char \<Rightarrow> nat" where
  "hex_digit c = (let n = of_char c in if n < 58 then n - 48 else n - 87)"

definition read_json_char :: "string \<Rightarrow> char \<times> string" where
  "read_json_char s =
    (if hd s \<noteq> CHR 0x5C then (hd s, tl s)
     else let e = s ! 1; r = drop 2 s in
       if e = CHR ''b'' then (char_of (0x08 :: nat), r) else if e = CHR ''t'' then (char_of (0x09 :: nat), r)
       else if e = CHR ''n'' then (char_of (0x0A :: nat), r) else if e = CHR ''f'' then (char_of (0x0C :: nat), r)
       else if e = CHR ''r'' then (char_of (0x0D :: nat), r)
       else if e = CHR ''u'' then (char_of (16 * hex_digit (s ! 4) + hex_digit (s ! 5)), drop 6 s)
       else (e, r))"

lemma hex_digit_char: "n < 16 \<Longrightarrow> hex_digit (hex_char n) = n"
  by (auto simp: hex_digit_def hex_char_def Let_def of_char_of take_bit_eq_mod)

lemma char_codes:
  "of_char c = (0x22 :: nat) \<longleftrightarrow> c = CHR 0x22" "of_char c = (0x5C :: nat) \<longleftrightarrow> c = CHR 0x5C"
  "of_char c = (0x08 :: nat) \<longleftrightarrow> c = CHR 0x08" "of_char c = (0x09 :: nat) \<longleftrightarrow> c = CHR 0x09"
  "of_char c = (0x0A :: nat) \<longleftrightarrow> c = CHR 0x0A" "of_char c = (0x0C :: nat) \<longleftrightarrow> c = CHR 0x0C"
  "of_char c = (0x0D :: nat) \<longleftrightarrow> c = CHR 0x0D"
  using of_char_eq_iff [of c "CHR 0x22", where 'a = nat] of_char_eq_iff [of c "CHR 0x5C", where 'a = nat]
    of_char_eq_iff [of c "CHR 0x08", where 'a = nat] of_char_eq_iff [of c "CHR 0x09", where 'a = nat]
    of_char_eq_iff [of c "CHR 0x0A", where 'a = nat] of_char_eq_iff [of c "CHR 0x0C", where 'a = nat]
    of_char_eq_iff [of c "CHR 0x0D", where 'a = nat] by simp_all

lemma char_literals:
  "char_of (0x08 :: nat) = CHR 0x08" "char_of (0x09 :: nat) = CHR 0x09" "char_of (0x0A :: nat) = CHR 0x0A"
  "char_of (0x0C :: nat) = CHR 0x0C" "char_of (0x0D :: nat) = CHR 0x0D"
  using char_codes [of "char_of (0x08 :: nat)"] char_codes [of "char_of (0x09 :: nat)"] char_codes [of "char_of (0x0A :: nat)"]
    char_codes [of "char_of (0x0C :: nat)"] char_codes [of "char_of (0x0D :: nat)"]
  by (simp_all add: of_char_of take_bit_eq_mod)

lemma read_json_char: "read_json_char (json_char c @ x) = (c, x)"
proof -
  let ?n = "of_char c :: nat"
  have c: "char_of ?n = c" by simp
  consider "?n = 0x22" | "?n = 0x5C" | "?n = 0x08" | "?n = 0x09" | "?n = 0x0A" | "?n = 0x0C" | "?n = 0x0D"
    | "?n < 0x20" "?n \<notin> {0x08, 0x09, 0x0A, 0x0C, 0x0D}" | "0x20 \<le> ?n" "?n \<noteq> 0x22" "?n \<noteq> 0x5C" by fastforce
  then show ?thesis
  proof cases
    case 8
    have "hex_digit (hex_char (?n div 16)) = ?n div 16" "hex_digit (hex_char (?n mod 16)) = ?n mod 16"
      using 8(1) by (auto intro!: hex_digit_char)
    moreover have "16 * (?n div 16) + ?n mod 16 = ?n" by simp
    ultimately show ?thesis using 8 c by (simp add: json_char_def read_json_char_def Let_def)
  next
    case 9
    then have "c \<noteq> CHR 0x5C" by auto
    with 9 show ?thesis by (simp add: json_char_def read_json_char_def Let_def)
  qed (simp_all add: char_codes json_char_def read_json_char_def Let_def char_literals)
qed

lemma json_char_prefix: "json_char c @ x = json_char d @ y \<Longrightarrow> c = d \<and> x = y"
  by (metis Pair_inject read_json_char)

text \<open>No character is written as a text that starts with a quote.\<close>

lemma json_char_no_quote: "json_char c @ x \<noteq> CHR 0x22 # y"
  by (auto simp: json_char_def Let_def)

lemma json_chars_inj:
  "concat (map json_char a) @ CHR 0x22 # x = concat (map json_char b) @ CHR 0x22 # y \<Longrightarrow> a = b \<and> x = y"
proof (induction a arbitrary: b)
  case Nil
  then show ?case using json_char_no_quote by (cases b) (auto simp: append_assoc dest: sym)
next
  case (Cons c a)
  show ?case
  proof (cases b)
    case Nil
    with Cons.prems json_char_no_quote show ?thesis by (auto simp: append_assoc)
  next
    case (Cons d b')
    with Cons.prems have "json_char c @ concat (map json_char a) @ CHR 0x22 # x
        = json_char d @ concat (map json_char b') @ CHR 0x22 # y" by simp
    from json_char_prefix [OF this] Cons.IH Cons show ?thesis by blast
  qed
qed

lemma json_string_inj: "json_string a @ x = json_string b @ y \<Longrightarrow> a = b \<and> x = y"
  using json_chars_inj [of a x b y] by (simp add: json_string_def)

lemma json_opt_string_inj: "json_opt_string a @ x = json_opt_string b @ y \<Longrightarrow> a = b \<and> x = y"
  by (auto simp: json_opt_string_def json_string_def dest: json_chars_inj split: option.splits)

lemma requirementTupleKey_inj:
  assumes "requirementTupleKey q = requirementTupleKey q'"
  shows "q = q'"
proof -
  from assms have "json_string (qm_capability q) @ '','' @ json_member ''deviceFamily'' (json_string (qm_deviceFamily q))
     @ '','' @ json_member ''iosVersion'' (json_opt_string (qm_iosVersion q))
     @ '','' @ json_member ''resetPolicy'' (json_string (qm_resetPolicy q)) @ ''}'' =
     json_string (qm_capability q') @ '','' @ json_member ''deviceFamily'' (json_string (qm_deviceFamily q'))
     @ '','' @ json_member ''iosVersion'' (json_opt_string (qm_iosVersion q'))
     @ '','' @ json_member ''resetPolicy'' (json_string (qm_resetPolicy q')) @ ''}''"
    unfolding requirementTupleKey_def json_member_def by (simp only: append_assoc same_append_eq)
  from json_string_inj [OF this] have c: "qm_capability q = qm_capability q'"
    and r: "json_string (qm_deviceFamily q) @ '','' @ json_member ''iosVersion'' (json_opt_string (qm_iosVersion q))
     @ '','' @ json_member ''resetPolicy'' (json_string (qm_resetPolicy q)) @ ''}'' =
     json_string (qm_deviceFamily q') @ '','' @ json_member ''iosVersion'' (json_opt_string (qm_iosVersion q'))
     @ '','' @ json_member ''resetPolicy'' (json_string (qm_resetPolicy q')) @ ''}''"
    unfolding json_member_def by (simp_all only: append_assoc same_append_eq)
  from json_string_inj [OF r] have f: "qm_deviceFamily q = qm_deviceFamily q'"
    and r: "json_opt_string (qm_iosVersion q) @ '','' @ json_member ''resetPolicy'' (json_string (qm_resetPolicy q)) @ ''}'' =
     json_opt_string (qm_iosVersion q') @ '','' @ json_member ''resetPolicy'' (json_string (qm_resetPolicy q')) @ ''}''"
    unfolding json_member_def by (simp_all only: append_assoc same_append_eq)
  from json_opt_string_inj [OF r] have v: "qm_iosVersion q = qm_iosVersion q'"
    and r: "json_string (qm_resetPolicy q) @ ''}'' = json_string (qm_resetPolicy q') @ ''}''"
    unfolding json_member_def by (simp_all only: append_assoc same_append_eq)
  from json_string_inj [OF r] c f v show ?thesis by simp
qed

section \<open>Free names\<close>

lemma free_number_least:
  "numbered p (free_number used p i) \<notin> set used \<and> i \<le> free_number used p i
    \<and> (\<forall>j. i \<le> j \<and> j < free_number used p i \<longrightarrow> numbered p j \<in> set used)"
proof (induction used p i rule: free_number.induct)
  case (1 used p i)
  show ?case
  proof (cases "numbered p i \<in> set used")
    case True
    have e: "free_number used p i = free_number used p (Suc i)" using True by (subst free_number.simps) simp
    from 1 [OF True] show ?thesis unfolding e by (metis Suc_le_eq True le_eq_less_or_eq)
  next
    case False
    have e: "free_number used p i = i" using False by (subst free_number.simps) simp
    show ?thesis unfolding e using False by auto
  qed
qed

lemma nextCapacityAlias_fresh: "nextCapacityAlias used q \<notin> set used"
  using free_number_least by (simp add: nextCapacityAlias_def)

section \<open>Groups\<close>

definition lacking :: "evaluation \<Rightarrow> requirement option" where
  "lacking e = (if planBlockerForEvaluation e = None \<and> ce_actionKind e \<noteq> None then ce_requirement e else None)"

definition grouped :: "evaluation list \<Rightarrow> (string \<times> action_group) list \<Rightarrow> bool" where
  "grouped es groups \<longleftrightarrow> distinct (map fst groups)
     \<and> ag_requirement ` snd ` set groups = {q. \<exists>e\<in>set es. lacking e = Some q}
     \<and> (\<forall>(k, g)\<in>set groups. k = requirementTupleKey (ag_requirement g) \<and> ag_evaluations g \<noteq> []
          \<and> ag_evaluations g = filter (\<lambda>e. lacking e = Some (ag_requirement g)) es)"

lemma grouped_step:
  assumes "grouped es groups"
  shows "grouped (es @ [e]) (group_evaluation e groups)"
proof (cases "lacking e")
  case None
  then have "group_evaluation e groups = groups"
    by (auto simp: lacking_def group_evaluation_def split: if_splits option.splits)
  with assms None show ?thesis by (auto simp: grouped_def)
next
  case (Some q)
  then obtain kind where k: "group_evaluation e groups = add_to_group e kind q groups"
    by (auto simp: lacking_def group_evaluation_def split: if_splits)
  let ?key = "requirementTupleKey q"
  have old: "k = requirementTupleKey (ag_requirement g)" "ag_evaluations g \<noteq> []"
    "ag_evaluations g = filter (\<lambda>e. lacking e = Some (ag_requirement g)) es" if "(k, g) \<in> set groups" for k g
    using assms that by (auto simp: grouped_def)
  have ks: "k = ?key \<longleftrightarrow> ag_requirement g = q" if "(k, g) \<in> set groups" for k g
    using old(1) [OF that] requirementTupleKey_inj by blast
  show ?thesis
  proof (cases "map_of groups ?key")
    case None
    then have new: "?key \<notin> fst ` set groups" by (simp add: map_of_eq_None_iff)
    have "filter (\<lambda>e. lacking e = Some q) es = []"
    proof (rule ccontr)
      assume "filter (\<lambda>e. lacking e = Some q) es \<noteq> []"
      then have "\<exists>e\<in>set es. lacking e = Some q" by (auto simp: filter_empty_conv)
      then have "q \<in> ag_requirement ` snd ` set groups" using assms by (auto simp: grouped_def)
      then obtain k' g where "(k', g) \<in> set groups" "ag_requirement g = q" by auto
      with ks new show False by force
    qed
    with assms None new Some old ks show ?thesis
      by (auto simp: k add_to_group_def Let_def grouped_def image_iff)
  next
    case (Some g0)
    let ?f = "\<lambda>(k, g). if k = ?key then (k, g\<lparr>ag_evaluations := ag_evaluations g @ [e]\<rparr>) else (k, g)"
    have r: "group_evaluation e groups = map ?f groups" by (simp add: k add_to_group_def Let_def Some)
    have keys: "map fst (map ?f groups) = map fst groups" by (auto simp: case_prod_beta)
    have reqs: "ag_requirement ` snd ` set (map ?f groups) = ag_requirement ` snd ` set groups" by (force simp: image_iff)
    have "(?key, g0) \<in> set groups" using Some by (rule map_of_SomeD)
    then have "q \<in> ag_requirement ` snd ` set groups" using ks by force
    with assms \<open>lacking e = Some q\<close> have reqs2: "ag_requirement ` snd ` set groups = {q. \<exists>e'\<in>set (es @ [e]). lacking e' = Some q}"
      by (auto simp: grouped_def)
    have each: "k = requirementTupleKey (ag_requirement g) \<and> ag_evaluations g \<noteq> []
          \<and> ag_evaluations g = filter (\<lambda>e. lacking e = Some (ag_requirement g)) (es @ [e])" if "(k, g) \<in> set (map ?f groups)" for k g
    proof -
      from that obtain k1 g1 where g1: "(k1, g1) \<in> set groups" "(k, g) = ?f (k1, g1)" by auto
      show ?thesis
      proof (cases "k1 = ?key")
        case True
        then have "ag_requirement g1 = q" using ks [OF g1(1)] by simp
        with True g1(2) old [OF g1(1)] \<open>lacking e = Some q\<close> show ?thesis by simp
      next
        case False
        then have "ag_requirement g1 \<noteq> q" using ks [OF g1(1)] by simp
        with False g1(2) old [OF g1(1)] \<open>lacking e = Some q\<close> show ?thesis by simp
      qed
    qed
    have "distinct (map fst (map ?f groups))" unfolding keys using assms by (simp add: grouped_def)
    with each show ?thesis unfolding r grouped_def reqs reqs2 by blast
  qed
qed

lemma grouped_fold: "grouped es groups \<Longrightarrow> grouped (es @ xs) (fold group_evaluation xs groups)"
proof (induction xs arbitrary: es groups)
  case Nil
  then show ?case by simp
next
  case (Cons x xs)
  from Cons.IH [OF grouped_step [OF Cons.prems, of x]] show ?case by simp
qed

lemma plan_actions_ok:
  assumes "plan_actions hostId i used gs = Inr as"
  shows "list_all2 (\<lambda>g a. pa_requirement (an_public a) = ag_requirement g \<and> pa_kind (an_public a) = ag_kind g
        \<and> pa_purposeIds (an_public a) = sort_strings (uniq (map (\<lambda>e. pu_id (ce_purpose e)) (ag_evaluations g)))
        \<and> an_simulatorName a = simulatorDisplayName hostId (an_alias a)) gs as
    \<and> distinct (map an_alias as) \<and> set (map an_alias as) \<inter> set used = {}"
  using assms
proof (induction gs arbitrary: i used as)
  case Nil
  then show ?case by simp
next
  case (Cons g gs)
  let ?a = "nextCapacityAlias used (ag_requirement g)"
  from Cons.prems obtain x xs where x: "plan_action hostId i ?a g = Inr x" and xs: "plan_actions hostId (Suc i) (?a # used) gs = Inr xs"
    and as: "as = x # xs" by (auto simp: Let_def seq_Inr_iff)
  from x have "an_alias x = ?a" "pa_requirement (an_public x) = ag_requirement g" "pa_kind (an_public x) = ag_kind g"
    "pa_purposeIds (an_public x) = sort_strings (uniq (map (\<lambda>e. pu_id (ce_purpose e)) (ag_evaluations g)))"
    "an_simulatorName x = simulatorDisplayName hostId (an_alias x)"
    by (auto simp: plan_action_def split: list.splits option.splits)
  with Cons.IH [OF xs] nextCapacityAlias_fresh [of used "ag_requirement g"] as show ?case by auto
qed

section \<open>Where evaluations come from\<close>

text \<open>What every evaluation of a report satisfies: a proposal comes with its requirement and its simulator, and
  only an available purpose is neither proposed nor blocked.\<close>

definition sound_evaluation :: "evaluation \<Rightarrow> bool" where
  "sound_evaluation e \<longleftrightarrow> (ce_actionKind e \<noteq> None \<longrightarrow> ce_requirement e \<noteq> None \<and> po_blocker (ce_provisioning e) = None
       \<and> po_deviceType (ce_provisioning e) \<noteq> None \<and> po_runtime (ce_provisioning e) \<noteq> None
       \<and> ce_status e \<notin> {Available, Setup_missing, Unknown_capacity})"

lemma blocked_report_sound: "sound_evaluation (blocked_report p c r s)"
  by (simp add: sound_evaluation_def blocked_report_def)

lemma provisioning_complete:
  "capacityProvisioningForRequirement loc num iv q = Inr pv \<Longrightarrow> po_blocker pv = None
    \<Longrightarrow> po_deviceType pv \<noteq> None \<and> po_runtime pv \<noteq> None"
  by (auto simp: capacityProvisioningForRequirement_def seq_def split: option.splits sum.splits)

lemma evaluatePurposeCapacity_sound:
  assumes "evaluatePurposeCapacity loc num iv cfg st p = Inr e"
  shows "sound_evaluation e"
proof -
  from assms obtain cs pv where e: "e = evaluate_candidates p cs pv"
    and pv: "(case capacityProvisioningPolicy p of
           Inl code \<Rightarrow> Inr \<lparr>po_blocker = Some code, po_deviceType = None, po_runtime = None\<rparr>
         | Inr q \<Rightarrow> capacityProvisioningForRequirement loc num iv (Some q)) = Inr pv"
    by (auto simp: evaluatePurposeCapacity_def seq_Inr_iff)
  from pv have complete: "po_blocker pv = None \<Longrightarrow> po_deviceType pv \<noteq> None \<and> po_runtime pv \<noteq> None"
    by (auto split: sum.splits dest: provisioning_complete)
  have unavailable: "ce_status e = Unavailable" if "ce_actionKind e \<noteq> None"
    using that by (auto simp: e evaluate_candidates_def Let_def filter_empty_conv split: if_splits)
  then show ?thesis
    using complete evaluate_candidates_simps(2) [of p cs pv]
    by (auto simp: sound_evaluation_def e evaluate_candidates_simps)
qed

lemma or_missing_host_Inl:
  assumes "or_missing_host (ret v) m s = (Inr (Inl y), s')" "\<And>s z s''. m s = (Inr z, s'') \<Longrightarrow> \<not> isl z"
  shows "y = v"
proof (cases "m s")
  case (Pair r s1)
  then show ?thesis
    using assms(1) assms(2) [of s "Inl y" s'] by (cases r) (auto simp: or_missing_host_def run_catching run_simps split: if_splits)
qed

lemma evaluated_sound:
  assumes "buildCapacityEvaluation env opts s = (Inr ev, s')" "e \<in> set (cv_evaluations ev)"
  shows "sound_evaluation e"
proof -
  have loaded: "sound_evaluation e" if r: "evaluate_loaded env opts cfg ps t iv s1 = (Inr ev, s2)" for cfg ps t iv s1 s2
  proof -
    from r obtain x s0 s3 where x0: "or_missing_host (ret (missingHostCapacityEvaluation cfg ps t (Some iv)))
       (andthen (check (stateLoadOptions (kq_termWaitMs opts) (kq_skipLeaseIds opts) (Some iv) (kq_now opts))) (\<lambda>lo.
        andthen ((if kq_apply opts then loadBrokerState else readBrokerStateSnapshot) env lo t) (\<lambda>st. ret (Inr st)))) s0 = (Inr x, s3)"
      and "(case x of Inl ev \<Rightarrow> ret ev
        | Inr st \<Rightarrow>
            andthen (check (map_seq (evaluatePurposeCapacity (en_locale env) (en_localeNumeric env) (Some iv) cfg st) ps)) (\<lambda>es.
              ret (evaluated es True (Some iv) cfg (Some st) t))) s3 = (Inr ev, s2)"
      unfolding evaluate_loaded_def by (rule andthen_InrE)
    moreover have "ev' = missingHostCapacityEvaluation cfg ps t (Some iv)" if "x = Inl ev'" for ev'
      by (rule or_missing_host_Inl [OF x0 [unfolded that]]) (auto simp: run_simps elim!: andthen_checkE andthen_InrE)
    ultimately show ?thesis using assms(2)
      by (cases x) (auto simp: run_simps missingHostCapacityEvaluation_def evaluated_def setupMissingPurposeReport_def blocked_report_sound
          elim!: andthen_checkE dest!: map_seq_elem evaluatePurposeCapacity_sound)
  qed
  have project: "sound_evaluation e" if r: "evaluate_project env opts cfg ps t s1 = (Inr ev, s2)" for cfg ps t s1 s2
  proof -
    from r obtain x s0 s3 where x0: "or_missing_host (ret (missingHostCapacityEvaluation cfg ps t None))
        (andthen readHostConfigOrThrow (\<lambda>_. ret (Inr ()))) s0 = (Inr x, s3)"
      and r: "(case x of Inl ev \<Rightarrow> ret ev
        | Inr _ \<Rightarrow> andthen (catching (andthen (readSimctlInventory env) (\<lambda>iv. ret (Some iv))) (\<lambda>_. ret None)) (\<lambda>inv'. case inv' of
            None \<Rightarrow> andthen (look (\<lambda>s. sy_host s \<noteq> None)) (\<lambda>hostConfigured.
              ret (evaluated (map (\<lambda>p. unknownPurposeCapacityReport p ''inventory-unavailable'') ps) hostConfigured None cfg None t))
          | Some iv \<Rightarrow> evaluate_loaded env opts cfg ps t iv)) s3 = (Inr ev, s2)"
      unfolding evaluate_project_def by (rule andthen_InrE)
    have x: "ev' = missingHostCapacityEvaluation cfg ps t None" if "x = Inl ev'" for ev'
      by (rule or_missing_host_Inl [OF x0 [unfolded that]]) (auto simp: run_simps elim!: andthen_InrE)
    show ?thesis
    proof (cases x)
      case (Inl ev')
      with r x assms(2) show ?thesis
        by (auto simp: run_simps missingHostCapacityEvaluation_def evaluated_def setupMissingPurposeReport_def blocked_report_sound)
    next
      case (Inr u)
      note r' = r [unfolded Inr sum.case]
      from r' obtain inv' s4 where "(case inv' of
            None \<Rightarrow> andthen (look (\<lambda>s. sy_host s \<noteq> None)) (\<lambda>hostConfigured.
              ret (evaluated (map (\<lambda>p. unknownPurposeCapacityReport p ''inventory-unavailable'') ps) hostConfigured None cfg None t))
          | Some iv \<Rightarrow> evaluate_loaded env opts cfg ps t iv) s4 = (Inr ev, s2)" by (rule andthen_InrE)
      then show ?thesis using assms(2) loaded
        by (cases inv') (auto simp: run_simps evaluated_def unknownPurposeCapacityReport_def blocked_report_sound)
    qed
  qed
  from assms(1) obtain t s1 pr s2 where "(case pr of
        None \<Rightarrow> andthen (look (\<lambda>s. sy_host s \<noteq> None)) (\<lambda>hostConfigured. ret (missing_project hostConfigured t))
      | Some cfg \<Rightarrow> andthen (check (selectCapacityPurposes (en_locale env) cfg (kq_purposeId opts))) (\<lambda>ps.
          evaluate_project env opts cfg ps t)) s2 = (Inr ev, s')"
    unfolding buildCapacityEvaluation_def by (elim andthen_InrE)
  then show ?thesis using assms(2) project
    by (cases pr) (auto simp: run_simps missing_project_def elim!: andthen_checkE)
qed

section \<open>Actions of a plan\<close>

lemma plan_of_evaluation_ok:
  assumes "plan_of_evaluation loc digest ev = Inr plan"
  shows "cl_evaluation plan = ev \<and> cl_blocked plan = plan_blocked loc ev
    \<and> cl_status plan = (if plan_blocked loc ev \<noteq> [] then ''blocked''
        else if cl_actions plan \<noteq> [] then ''changes_required'' else ''no_changes'')
    \<and> (\<exists>hostId. plan_actions hostId 0 (used_aliases ev) (plan_groups loc ev) = Inr (cl_actions plan))"
proof -
  from assms obtain acts where "(case (plan_groups loc ev, cv_state ev) of ([], _) \<Rightarrow> Inr [] | (_, None) \<Rightarrow> Inl type_error
      | (_, Some st) \<Rightarrow> plan_actions (hc_hostId (bs_host st)) 0 (used_aliases ev) (plan_groups loc ev)) = Inr acts"
    and plan: "cl_evaluation plan = ev" "cl_blocked plan = plan_blocked loc ev" "cl_actions plan = acts"
      "cl_status plan = (if plan_blocked loc ev \<noteq> [] then ''blocked'' else if acts \<noteq> [] then ''changes_required'' else ''no_changes'')"
    unfolding plan_of_evaluation_def Let_def by (auto simp only: seq_Inr_iff sum.inject capacity_plan.simps)
  then have "\<exists>hostId. plan_actions hostId 0 (used_aliases ev) (plan_groups loc ev) = Inr acts"
    by (auto split: list.splits option.splits)
  with plan show ?thesis by simp
qed

lemma plan_groups_ok:
  "distinct (map ag_requirement (plan_groups loc ev))
   \<and> set (map ag_requirement (plan_groups loc ev)) = {q. \<exists>e\<in>set (cv_evaluations ev). lacking e = Some q}
   \<and> (\<forall>g\<in>set (plan_groups loc ev). ag_evaluations g
        = filter (\<lambda>e. lacking e = Some (ag_requirement g)) (cv_evaluations ev))"
proof -
  let ?gs = "fold group_evaluation (cv_evaluations ev) []"
  have "grouped [] []" by (simp add: grouped_def)
  from grouped_fold [OF this, of "cv_evaluations ev"] have g: "grouped (cv_evaluations ev) ?gs" by simp
  then have "map fst ?gs = map (requirementTupleKey \<circ> ag_requirement) (map snd ?gs)" by (auto simp: grouped_def)
  moreover have "distinct (map fst ?gs)" using g by (simp add: grouped_def)
  ultimately have "distinct (map ag_requirement (map snd ?gs))" by (metis distinct_map map_map)
  moreover have "mset (map ag_requirement (plan_groups loc ev)) = mset (map ag_requirement (map snd ?gs))"
    unfolding plan_groups_def mset_map mset_js_sort ..
  ultimately have "distinct (map ag_requirement (plan_groups loc ev))" using mset_eq_imp_distinct_iff by blast
  with g show ?thesis by (fastforce simp: plan_groups_def grouped_def)
qed

section \<open>Properties\<close>

text \<open>C14: a plan has exactly one new simulator for every requirement that some purpose lacks, for exactly the
  purposes that lack it; the aliases it names are distinct and none of them is in use on the host.  It
  changes nothing exactly if a project is known and every one of its purposes has capacity.\<close>

theorem capacity_plan_adds_what_is_missing:
  assumes "buildCapacityPlan env opts s = (Inr plan, s')"
  shows "let ev = cl_evaluation plan; es = cv_evaluations ev; acts = cl_actions plan; req = (\<lambda>a. pa_requirement (an_public a)) in
    distinct (map an_alias acts) \<and> set (map an_alias acts) \<inter> set (used_aliases ev) = {}
    \<and> distinct (map req acts) \<and> set (map req acts) = {q. \<exists>e\<in>set es. lacking e = Some q}
    \<and> (\<forall>a\<in>set acts. set (pa_purposeIds (an_public a)) = {pu_id (ce_purpose e) | e. e \<in> set es \<and> lacking e = Some (req a)})
    \<and> (cl_status plan = ''no_changes'' \<longleftrightarrow> cv_project ev \<noteq> None \<and> (\<forall>e\<in>set es. ce_status e = Available))"
proof -
  from assms obtain ev s1 where ev: "buildCapacityEvaluation env opts s = (Inr ev, s1)"
    and p: "plan_of_evaluation (en_locale env) (en_digest env) ev = Inr plan"
    unfolding buildCapacityPlan_def by (elim andthen_InrE) (auto simp: run_simps)
  note pl = plan_of_evaluation_ok [OF p]
  then obtain hostId where acts: "plan_actions hostId 0 (used_aliases ev) (plan_groups (en_locale env) ev) = Inr (cl_actions plan)" by blast
  note ok = plan_actions_ok [OF acts] and gr = plan_groups_ok [of "en_locale env" ev]
  let ?req = "\<lambda>a. pa_requirement (an_public a)" and ?gs = "plan_groups (en_locale env) ev"
  have reqs: "map ?req (cl_actions plan) = map ag_requirement ?gs"
    using conjunct1 [OF ok] by (induction rule: list_all2_induct) auto
  have ids: "set (pa_purposeIds (an_public a)) = {pu_id (ce_purpose e) | e. e \<in> set (cv_evaluations ev) \<and> lacking e = Some (?req a)}"
    if a: "a \<in> set (cl_actions plan)" for a
  proof -
    from a ok obtain g where "g \<in> set ?gs" "?req a = ag_requirement g"
      "pa_purposeIds (an_public a) = sort_strings (uniq (map (\<lambda>e. pu_id (ce_purpose e)) (ag_evaluations g)))"
      by (fastforce simp: list_all2_conv_all_nth in_set_conv_nth)
    with gr show ?thesis by auto
  qed
  have status: "cl_status plan = ''no_changes'' \<longleftrightarrow> cv_project ev \<noteq> None \<and> (\<forall>e\<in>set (cv_evaluations ev). ce_status e = Available)"
  proof -
    have none: "cl_actions plan = [] \<longleftrightarrow> (\<forall>e\<in>set (cv_evaluations ev). lacking e = None)"
    proof -
      have "cl_actions plan = [] \<longleftrightarrow> set (map ag_requirement ?gs) = {}" unfolding reqs [symmetric] by simp
      also have "\<dots> \<longleftrightarrow> (\<forall>e\<in>set (cv_evaluations ev). lacking e = None)"
        using gr by (simp del: set_map) (metis (mono_tags) option.exhaust option.distinct(1))
      finally show ?thesis .
    qed
    have blocked: "plan_blocked (en_locale env) ev = [] \<longleftrightarrow> cv_project ev \<noteq> None
        \<and> (\<forall>e\<in>set (cv_evaluations ev). planBlockerForEvaluation e = None)"
      by (auto simp: plan_blocked_def List.map_filter_def filter_empty_conv)
    have each: "planBlockerForEvaluation e = None \<and> lacking e = None \<longleftrightarrow> ce_status e = Available" if "e \<in> set (cv_evaluations ev)" for e
      using evaluated_sound [OF ev that]
      by (auto simp: sound_evaluation_def lacking_def planBlockerForEvaluation_def Let_def split: if_splits)
    have "cl_status plan = ''no_changes'' \<longleftrightarrow> plan_blocked (en_locale env) ev = [] \<and> cl_actions plan = []" using pl by auto
    also have "\<dots> \<longleftrightarrow> cv_project ev \<noteq> None
        \<and> (\<forall>e\<in>set (cv_evaluations ev). planBlockerForEvaluation e = None \<and> lacking e = None)"
      unfolding none blocked by blast
    finally show ?thesis using each by simp
  qed
  show ?thesis unfolding Let_def using pl ok reqs gr ids status by auto
qed

definition plain_capacity :: capacity_options where
  "plain_capacity = \<lparr>kq_now = None, kq_termWaitMs = None, kq_skipLeaseIds = [], kq_projectFilePath = Some ''/p.json'',
     kq_purposeId = None, kq_apply = False, kq_confirmPlanId = None, kq_actorType = None, kq_actorId = None\<rparr>"

theorem capacity_plan_adds_what_is_missing_witness:
  "\<exists>plan s'. buildCapacityPlan plain_env plain_capacity (plain_sys [] []) = (Inr plan, s')
    \<and> distinct (map an_alias (cl_actions plan))"
proof -
  have "case fst (buildCapacityPlan plain_env plain_capacity (plain_sys [] [])) of Inr plan \<Rightarrow> True | Inl e \<Rightarrow> False" by code_simp
  then obtain plan s' where run: "buildCapacityPlan plain_env plain_capacity (plain_sys [] []) = (Inr plan, s')"
    by (cases "buildCapacityPlan plain_env plain_capacity (plain_sys [] [])") (auto split: sum.splits)
  from capacity_plan_adds_what_is_missing [OF run] run show ?thesis by (auto simp: Let_def)
qed

end
