(* ===== verification/Simctl.thy ===== *)
theory Simctl
  imports Broker_Store
begin

text \<open>
  The adapters of \<open>broker-core/simctl.mjs\<close>: the one that runs \<open>xcrun simctl\<close>, over the outcome of
  \<open>execFileSync\<close>, the clock and \<open>sleep\<close> of the host, and the one for tests, that keeps its simulators
  in a file.  What the broker relies on is the locale \<open>simulators\<close>.  The three \<open>list\<close> calls of the
  first adapter only parse the JSON that simctl prints.
\<close>

section \<open>Commands\<close>

record exec_error =
  xe_code :: "string option"
  xe_killed :: bool
  xe_signal :: "string option"
  xe_status :: "int option"
  xe_stderr :: string
  xe_stdout :: string

text \<open>The text a command prints, with what \<open>JSON.parse\<close> makes of it (\<open>None\<close> when it throws).\<close>

datatype exec_outcome = Exec_output string "js option" | Exec_error exec_error

record command_result =
  cm_exitCode :: int
  cm_stderr :: string
  cm_stdout :: string
  cm_timedOut :: bool
  cm_timeoutMs :: int

datatype command_output = Output string "js option" | Failure command_result

record 'w sim_host =
  sh_exec :: "string list \<Rightarrow> int \<Rightarrow> 'w \<Rightarrow> exec_outcome \<times> 'w"
  sh_now :: "'w \<Rightarrow> int \<times> 'w"
  sh_sleep :: "int \<Rightarrow> 'w \<Rightarrow> 'w"
  sh_exists :: "string \<Rightarrow> 'w \<Rightarrow> bool"
  sh_du :: "string \<Rightarrow> 'w \<Rightarrow> exec_outcome \<times> 'w"

definition simctl_command_timeout_ms :: int where
  "simctl_command_timeout_ms = 120000"

definition commandTimedOut :: "exec_error \<Rightarrow> bool" where
  "commandTimedOut e \<longleftrightarrow> xe_code e = Some ''ETIMEDOUT'' \<or> xe_killed e \<or> xe_signal e = Some ''SIGTERM''"

definition wrapCommandError :: "exec_error \<Rightarrow> int \<Rightarrow> command_result" where
  "wrapCommandError e timeoutMs =
    \<lparr>cm_exitCode = (if commandTimedOut e then 124 else nullish (xe_status e) 1), cm_stderr = xe_stderr e,
     cm_stdout = xe_stdout e, cm_timedOut = commandTimedOut e, cm_timeoutMs = timeoutMs\<rparr>"

text \<open>The exception that a failed command becomes: the one of \<open>wrapCommandError\<close> and of \<open>throwSimctlResult\<close>.\<close>

definition throwSimctlResult :: "string list \<Rightarrow> command_result \<Rightarrow> berr" where
  "throwSimctlResult args r = HostError (if cm_timedOut r
     then ''simctl '' @ join_with '' '' args @ '' timed out after '' @ int_text (cm_timeoutMs r) @ ''ms''
     else ''simctl '' @ join_with '' '' args @ '' failed'')"

text \<open>\<open>/current state:\s*word/i.test(s)\<close> and \<open>/already\s+shutdown/i.test(s)\<close>; the words do not begin with a space.\<close>

fun some_suffix :: "(string \<Rightarrow> bool) \<Rightarrow> string \<Rightarrow> bool" where
  "some_suffix P [] = P []"
| "some_suffix P (c # s) = (P (c # s) \<or> some_suffix P s)"

definition reports_state :: "string \<Rightarrow> string \<Rightarrow> bool" where
  "reports_state s word = some_suffix (\<lambda>t. starts_with t ''current state:''
     \<and> starts_with (dropWhile js_space (drop 14 t)) word) (to_lower s)"

definition reports_already :: "string \<Rightarrow> string \<Rightarrow> bool" where
  "reports_already s word = some_suffix (\<lambda>t. starts_with t ''already'' \<and> takeWhile js_space (drop 7 t) \<noteq> []
     \<and> starts_with (dropWhile js_space (drop 7 t)) word) (to_lower s)"

definition result_text :: "command_result \<Rightarrow> string" where
  "result_text r = cm_stderr r @ [CHR 0x0A] @ cm_stdout r"

definition isAlreadyShutdownResult :: "command_result \<Rightarrow> bool" where
  "isAlreadyShutdownResult r \<longleftrightarrow> reports_state (result_text r) ''shutdown'' \<or> reports_already (result_text r) ''shutdown''"

definition isShuttingDownResult :: "command_result \<Rightarrow> bool" where
  "isShuttingDownResult r \<longleftrightarrow> reports_state (result_text r) ''shutting down''"

definition isBootAlreadyUnderwayResult :: "command_result \<Rightarrow> bool" where
  "isBootAlreadyUnderwayResult r \<longleftrightarrow> reports_state (result_text r) ''booted'' \<or> reports_state (result_text r) ''booting''"

definition isAlreadyDeletedResult :: "command_result \<Rightarrow> bool" where
  "isAlreadyDeletedResult r \<longleftrightarrow> str_includes (to_lower (result_text r)) ''invalid device''
     \<or> str_includes (to_lower (result_text r)) ''unable to find a device''"

fun commandResultFailed :: "command_output \<Rightarrow> bool" where
  "commandResultFailed (Output t v) = False"
| "commandResultFailed (Failure r) = (cm_exitCode r \<noteq> 0)"

text \<open>\<open>runCommand\<close> with \<open>allowFailure\<close>, and without.\<close>

definition runCommand :: "'w sim_host \<Rightarrow> string list \<Rightarrow> int \<Rightarrow> ('w, command_output) eff" where
  "runCommand host args timeoutMs = (\<lambda>w. case sh_exec host args timeoutMs w of
      (Exec_output t v, w') \<Rightarrow> (Inr (Output t v), w')
    | (Exec_error e, w') \<Rightarrow> (Inr (Failure (wrapCommandError e timeoutMs)), w'))"

definition run_or_throw :: "'w sim_host \<Rightarrow> string list \<Rightarrow> ('w, string \<times> js option) eff" where
  "run_or_throw host args = andthen (runCommand host args simctl_command_timeout_ms) (\<lambda>r. case r of
      Output t v \<Rightarrow> ret (t, v)
    | Failure f \<Rightarrow> throw (throwSimctlResult args f))"

section \<open>Reading the device list\<close>

fun js_member :: "js \<Rightarrow> string \<Rightarrow> js option" where
  "js_member (JObj kvs) k = obj_get kvs k"
| "js_member _ k = None"

text \<open>\<open>Object.values(devicesJson?.devices ?? {})\<close>\<close>

definition device_groups :: "js \<Rightarrow> js list" where
  "device_groups v = (case js_member v ''devices'' of Some (JObj kvs) \<Rightarrow> map snd kvs | Some (JArr xs) \<Rightarrow> xs | _ \<Rightarrow> [])"

fun first_device :: "string \<Rightarrow> js list \<Rightarrow> js option" where
  "first_device simulatorId [] = None"
| "first_device simulatorId (JArr ds # gs) =
     (case List.find (\<lambda>d. js_member d ''udid'' = Some (JStr simulatorId)) ds of
        Some d \<Rightarrow> Some d
      | None \<Rightarrow> first_device simulatorId gs)"
| "first_device simulatorId (g # gs) = first_device simulatorId gs"

definition deviceStateFromInventory :: "js \<Rightarrow> string \<Rightarrow> js option" where
  "deviceStateFromInventory v simulatorId =
    map_option (\<lambda>d. if js_nullish (js_member d ''state'') then JStr ''Shutdown'' else the (js_member d ''state''))
      (first_device simulatorId (device_groups v))"

definition findDeviceDataPath :: "js \<Rightarrow> string \<Rightarrow> string option" where
  "findDeviceDataPath v simulatorId =
    (case Option.bind (first_device simulatorId (device_groups v)) (\<lambda>d. js_member d ''dataPath'') of
       Some (JStr p) \<Rightarrow> Some p
     | _ \<Rightarrow> None)"

text \<open>\<open>Number.parseInt(s, 10)\<close>: the digits at the start, after a sign.\<close>

definition parse_int :: "string \<Rightarrow> int option" where
  "parse_int s = (let (sg, t) = split_sign s; ds = takeWhile is_digit t in
     if ds = [] then None else Some (sg * int (digits_val ds)))"

definition measureDirectoryBytes :: "'w sim_host \<Rightarrow> string option \<Rightarrow> ('w, int option) eff" where
  "measureDirectoryBytes host dirPath = (case dirPath of
      None \<Rightarrow> ret None
    | Some p \<Rightarrow> if js_trim p = [] then ret None
        else (\<lambda>w. if \<not> sh_exists host p w then (Inr None, w)
          else (case sh_du host p w of
              (Exec_output t v, w') \<Rightarrow> (Inr (case parse_int (js_trim t) of
                 Some kib \<Rightarrow> if 0 \<le> kib then Some (kib * 1024) else None | None \<Rightarrow> None), w')
            | (Exec_error e, w') \<Rightarrow> (Inr None, w'))))"

section \<open>Waiting for a shutdown\<close>

definition read_clock :: "'w sim_host \<Rightarrow> ('w, int) eff" where
  "read_clock host = (\<lambda>w. case sh_now host w of (t, w') \<Rightarrow> (Inr t, w'))"

definition remainingMs :: "'w sim_host \<Rightarrow> int \<Rightarrow> ('w, int) eff" where
  "remainingMs host deadline = andthen (read_clock host) (\<lambda>t. ret (deadline - t))"

definition wait_timeout :: "string \<Rightarrow> berr" where
  "wait_timeout simulatorId = HostError (''simctl shutdown '' @ simulatorId @ '' timed out after ''
     @ int_text simctl_command_timeout_ms @ ''ms'')"

text \<open>The end of a round: \<open>Some retried\<close> goes on with the loop, \<open>None\<close> returns.\<close>

definition wait_pause :: "'w sim_host \<Rightarrow> string \<Rightarrow> int \<Rightarrow> bool \<Rightarrow> ('w, bool option) eff" where
  "wait_pause host simulatorId deadline retried =
    andthen (remainingMs host deadline) (\<lambda>ms.
      if ms \<le> 0 then throw (wait_timeout simulatorId)
      else andthen (update (sh_sleep host (min 250 ms))) (\<lambda>_. ret (Some retried)))"

definition retry_shutdown :: "'w sim_host \<Rightarrow> string \<Rightarrow> int \<Rightarrow> ('w, bool option) eff" where
  "retry_shutdown host simulatorId deadline =
    andthen (remainingMs host deadline) (\<lambda>ms.
      if ms \<le> 0 then throw (wait_timeout simulatorId)
      else andthen (runCommand host [''shutdown'', simulatorId] ms) (\<lambda>retry. case retry of
          Output t v \<Rightarrow> ret None
        | Failure r \<Rightarrow>
            if cm_timedOut r then throw (wait_timeout simulatorId)
            else if cm_exitCode r = 0 \<or> isAlreadyShutdownResult r then ret None
            else if \<not> isShuttingDownResult r then throw (throwSimctlResult [''shutdown'', simulatorId] r)
            else wait_pause host simulatorId deadline True))"

definition wait_round :: "'w sim_host \<Rightarrow> string \<Rightarrow> int \<Rightarrow> bool \<Rightarrow> ('w, bool option) eff" where
  "wait_round host simulatorId deadline retried =
    andthen (remainingMs host deadline) (\<lambda>ms0.
      if ms0 \<le> 0 then throw (wait_timeout simulatorId)
      else andthen (remainingMs host deadline) (\<lambda>ms.
        if ms \<le> 0 then throw (wait_timeout simulatorId)
        else andthen (runCommand host [''list'', ''--json'', ''devices''] ms) (\<lambda>listed. case listed of
            Failure r \<Rightarrow> throw (if cm_timedOut r then wait_timeout simulatorId
              else throwSimctlResult [''list'', ''--json'', ''devices''] r)
          | Output t None \<Rightarrow> throw (HostError ''SyntaxError'')
          | Output t (Some v) \<Rightarrow>
              (let state = deviceStateFromInventory v simulatorId in
               if state = Some (JStr ''Shutdown'') then ret None
               else if state = Some (JStr ''Shutting Down'') then wait_pause host simulatorId deadline retried
               else if retried then throw (wait_timeout simulatorId)
               else retry_shutdown host simulatorId deadline))))"

text \<open>The loop with fuel; \<open>None\<close> is a loop that is still running.\<close>

fun wait_loop :: "nat \<Rightarrow> 'w sim_host \<Rightarrow> string \<Rightarrow> int \<Rightarrow> bool \<Rightarrow> 'w \<Rightarrow> ((berr + unit) \<times> 'w) option" where
  "wait_loop 0 host simulatorId deadline retried w = None"
| "wait_loop (Suc n) host simulatorId deadline retried w =
    (case wait_round host simulatorId deadline retried w of
       (Inl e, w') \<Rightarrow> Some (Inl e, w')
     | (Inr None, w') \<Rightarrow> Some (Inr (), w')
     | (Inr (Some retried'), w') \<Rightarrow> wait_loop n host simulatorId deadline retried' w')"

definition waitForShutdown :: "nat \<Rightarrow> 'w sim_host \<Rightarrow> string \<Rightarrow> 'w \<Rightarrow> ((berr + unit) \<times> 'w) option" where
  "waitForShutdown fuel host simulatorId w =
    (case sh_now host w of (t, w') \<Rightarrow> wait_loop fuel host simulatorId (t + simctl_command_timeout_ms) False w')"

section \<open>The adapter for \<open>xcrun simctl\<close>\<close>

definition systemBootDevice :: "'w sim_host \<Rightarrow> string \<Rightarrow> ('w, unit) eff" where
  "systemBootDevice host simulatorId =
    andthen (runCommand host [''boot'', simulatorId] simctl_command_timeout_ms) (\<lambda>r.
    andthen (case r of
        Failure f \<Rightarrow> if commandResultFailed r \<and> \<not> isBootAlreadyUnderwayResult f
          then throw (throwSimctlResult [''boot'', simulatorId] f) else ret ()
      | Output t v \<Rightarrow> ret ()) (\<lambda>_.
    andthen (run_or_throw host [''bootstatus'', simulatorId, ''-b'']) (\<lambda>_. ret ())))"

definition systemWaitForBooted :: "'w sim_host \<Rightarrow> string \<Rightarrow> ('w, unit) eff" where
  "systemWaitForBooted host simulatorId = andthen (run_or_throw host [''bootstatus'', simulatorId, ''-b'']) (\<lambda>_. ret ())"

definition systemCreateDevice :: "'w sim_host \<Rightarrow> string \<Rightarrow> string \<Rightarrow> string \<Rightarrow> ('w, string) eff" where
  "systemCreateDevice host name deviceTypeId runtimeId =
    andthen (run_or_throw host [''create'', name, deviceTypeId, runtimeId]) (\<lambda>(t, _). ret (js_trim t))"

definition systemDeleteDevice :: "'w sim_host \<Rightarrow> string \<Rightarrow> ('w, unit) eff" where
  "systemDeleteDevice host simulatorId =
    andthen (runCommand host [''delete'', simulatorId] simctl_command_timeout_ms) (\<lambda>r. case r of
        Failure f \<Rightarrow> if commandResultFailed r \<and> \<not> isAlreadyDeletedResult f
          then throw (throwSimctlResult [''delete'', simulatorId] f) else ret ()
      | Output t v \<Rightarrow> ret ())"

definition systemEraseDevice :: "'w sim_host \<Rightarrow> string \<Rightarrow> ('w, unit) eff" where
  "systemEraseDevice host simulatorId = andthen (run_or_throw host [''erase'', simulatorId]) (\<lambda>_. ret ())"

definition systemRenameDevice :: "'w sim_host \<Rightarrow> string \<Rightarrow> string \<Rightarrow> ('w, unit) eff" where
  "systemRenameDevice host simulatorId name = andthen (run_or_throw host [''rename'', simulatorId, name]) (\<lambda>_. ret ())"

definition systemMeasureDeviceDiskBytes :: "'w sim_host \<Rightarrow> string \<Rightarrow> js option \<Rightarrow> ('w, int option) eff" where
  "systemMeasureDeviceDiskBytes host simulatorId devicesJson =
    andthen (case devicesJson of
        Some v \<Rightarrow> ret v
      | None \<Rightarrow> andthen (run_or_throw host [''list'', ''--json'', ''devices'']) (\<lambda>(t, v). case v of
          None \<Rightarrow> throw (HostError ''SyntaxError'') | Some v \<Rightarrow> ret v)) (\<lambda>v.
      measureDirectoryBytes host (findDeviceDataPath v simulatorId))"

definition systemShutdownDevice :: "nat \<Rightarrow> 'w sim_host \<Rightarrow> string \<Rightarrow> 'w \<Rightarrow> ((berr + unit) \<times> 'w) option" where
  "systemShutdownDevice fuel host simulatorId w =
    (case runCommand host [''shutdown'', simulatorId] simctl_command_timeout_ms w of
       (Inl e, w') \<Rightarrow> Some (Inl e, w')
     | (Inr r, w') \<Rightarrow>
         (case r of
            Output t v \<Rightarrow> Some (Inr (), w')
          | Failure f \<Rightarrow>
              if \<not> commandResultFailed r \<or> isAlreadyShutdownResult f then Some (Inr (), w')
              else if isShuttingDownResult f then waitForShutdown fuel host simulatorId w'
              else Some (Inl (throwSimctlResult [''shutdown'', simulatorId] f), w')))"

section \<open>The wait ends\<close>

text \<open>The clock never runs backwards, and a sleep lasts.\<close>

definition clock_law :: "'w sim_host \<Rightarrow> ('w \<Rightarrow> int) \<Rightarrow> bool" where
  "clock_law host clk \<longleftrightarrow>
    (\<forall>w. clk w \<le> fst (sh_now host w) \<and> fst (sh_now host w) \<le> clk (snd (sh_now host w)))
    \<and> (\<forall>args t w. clk w \<le> clk (snd (sh_exec host args t w)))
    \<and> (\<forall>ms w. 0 < ms \<longrightarrow> clk w + ms \<le> clk (sh_sleep host ms w))"

lemma remaining_law:
  assumes "clock_law host clk" "remainingMs host deadline w = (Inr ms, w1)"
  shows "clk w \<le> clk w1 \<and> deadline - clk w1 \<le> ms \<and> ms \<le> deadline - clk w"
  using assms by (auto simp: remainingMs_def read_clock_def clock_law_def run_andthen run_simps split: prod.splits)
    (metis fst_conv order_trans snd_conv, metis fst_conv snd_conv, metis fst_conv)

lemma command_law:
  assumes "clock_law host clk" "runCommand host args t w = (r, w1)"
  shows "clk w \<le> clk w1"
  using assms by (auto simp: runCommand_def clock_law_def split: prod.splits exec_outcome.splits) (metis snd_conv)+

text \<open>A round that goes on has used up a pause, or the time is over.\<close>

lemma pause_law:
  assumes "clock_law host clk" "wait_pause host i deadline retried w = (Inr (Some q), w1)"
  shows "deadline \<le> clk w1 \<or> clk w + 250 \<le> clk w1"
proof -
  from assms(2) obtain ms w2 where ms: "remainingMs host deadline w = (Inr ms, w2)" "0 < ms" "w1 = sh_sleep host (min 250 ms) w2"
    unfolding wait_pause_def by (elim andthen_InrE) (auto simp: run_simps split: if_splits)
  note r = remaining_law [OF assms(1) ms(1)]
  from assms(1) ms(2,3) have "clk w2 + min 250 ms \<le> clk w1" by (simp add: clock_law_def)
  with r show ?thesis by linarith
qed

lemma retry_law:
  assumes "clock_law host clk" "retry_shutdown host i deadline w = (Inr (Some q), w1)"
  shows "deadline \<le> clk w1 \<or> clk w + 250 \<le> clk w1"
proof -
  from assms(2) obtain ms w2 retry w3 where r: "remainingMs host deadline w = (Inr ms, w2)"
    "runCommand host [''shutdown'', i] ms w2 = (Inr retry, w3)" "wait_pause host i deadline True w3 = (Inr (Some q), w1)"
    unfolding retry_shutdown_def
    by (elim andthen_InrE) (auto simp: run_simps split: if_splits elim!: andthen_InrE split: command_output.splits)
  with remaining_law [OF assms(1) r(1)] command_law [OF assms(1) r(2)] pause_law [OF assms(1) r(3)] show ?thesis by linarith
qed

lemma round_law:
  assumes "clock_law host clk" "wait_round host i deadline retried w = (Inr (Some q), w1)"
  shows "clk w < deadline \<and> (deadline \<le> clk w1 \<or> clk w + 250 \<le> clk w1)"
proof -
  from assms(2) obtain ms0 wa ms wb o' wc where r: "remainingMs host deadline w = (Inr ms0, wa)" "0 < ms0"
    "remainingMs host deadline wa = (Inr ms, wb)" "runCommand host [''list'', ''--json'', ''devices''] ms wb = (Inr o', wc)"
    and rest: "wait_pause host i deadline retried wc = (Inr (Some q), w1) \<or> retry_shutdown host i deadline wc = (Inr (Some q), w1)"
    unfolding wait_round_def
    by (elim andthen_InrE) (auto simp: run_simps Let_def split: if_splits command_output.splits option.splits elim!: andthen_InrE)
  from rest have "deadline \<le> clk w1 \<or> clk wc + 250 \<le> clk w1"
    using pause_law [OF assms(1)] retry_law [OF assms(1)] by blast
  moreover have "clk w \<le> clk wc"
    using remaining_law [OF assms(1) r(1)] remaining_law [OF assms(1) r(3)] command_law [OF assms(1) r(4)] by linarith
  ultimately show ?thesis using r(2) remaining_law [OF assms(1) r(1)] by linarith
qed

lemma wait_loop_returns:
  assumes "clock_law host clk" "deadline - clk w \<le> 250 * int n"
  shows "wait_loop (Suc n) host i deadline retried w \<noteq> None"
  using assms(2)
proof (induction n arbitrary: retried w)
  case 0
  obtain r w1 where r: "wait_round host i deadline retried w = (r, w1)" by fastforce
  have "r \<noteq> Inr (Some q)" for q using round_law [OF assms(1), of i deadline retried w] r 0 by fastforce
  with r show ?case by (auto split: sum.splits option.splits)
next
  case (Suc n)
  obtain r w1 where r: "wait_round host i deadline retried w = (r, w1)" by fastforce
  have "wait_loop (Suc n) host i deadline q w1 \<noteq> None" if "r = Inr (Some q)" for q
  proof (rule Suc.IH)
    from round_law [OF assms(1)] that r have "deadline \<le> clk w1 \<or> clk w + 250 \<le> clk w1" by blast
    with Suc.prems show "deadline - clk w1 \<le> 250 * int n" by auto
  qed
  with r show ?case by (simp del: wait_loop.simps(2) add: wait_loop.simps(2) [of "Suc n"] split: sum.splits option.splits)
qed

text \<open>C13: a shutdown comes to an end, whatever simctl answers: the loop that waits for a simulator that is
  shutting down makes at most 481 rounds, one for every 250 milliseconds of its two minutes.\<close>

theorem shutdown_returns:
  assumes "clock_law host clk"
  shows "\<exists>r w'. systemShutdownDevice 481 host simulatorId w = Some (r, w')"
proof -
  have "waitForShutdown 481 host simulatorId w1 \<noteq> None" for w1
  proof -
    obtain t w2 where now: "sh_now host w1 = (t, w2)" by fastforce
    with assms have "t \<le> clk w2" by (metis clock_law_def fst_conv snd_conv)
    then have "wait_loop (Suc 480) host simulatorId (t + simctl_command_timeout_ms) False w2 \<noteq> None"
      by (intro wait_loop_returns [OF assms]) (simp add: simctl_command_timeout_ms_def)
    with now show ?thesis by (simp add: waitForShutdown_def)
  qed
  then have "systemShutdownDevice 481 host simulatorId w \<noteq> None"
    by (auto simp: systemShutdownDevice_def split: sum.splits prod.splits command_output.splits)
  then show ?thesis by (metis option.exhaust prod.exhaust)
qed

text \<open>A simulator that never leaves the state \<open>Shutting Down\<close>: the wait gives up.\<close>

definition stuck_host :: "int sim_host" where
  "stuck_host = \<lparr>sh_exec = (\<lambda>args t w. (if hd args = ''list''
        then Exec_output [] (Some (JObj [(''devices'', JObj [(''r'', JArr [JObj [(''udid'', JStr ''S''), (''state'', JStr ''Shutting Down'')]])])]))
        else Exec_error \<lparr>xe_code = None, xe_killed = False, xe_signal = None, xe_status = Some 149,
               xe_stderr = ''Unable to shutdown device in current state: Shutting Down'', xe_stdout = []\<rparr>, w + 1)),
     sh_now = (\<lambda>w. (w, w)), sh_sleep = (\<lambda>ms w. w + ms), sh_exists = (\<lambda>_ _. False), sh_du = (\<lambda>_ w. (Exec_output [] None, w))\<rparr>"

theorem shutdown_returns_witness:
  "\<exists>r w'. systemShutdownDevice 481 stuck_host ''S'' 0 = Some (r, w') \<and> clock_law stuck_host id"
  using shutdown_returns [of stuck_host id] by (auto simp: clock_law_def stuck_host_def)

section \<open>The adapter for tests\<close>

record fixture_device =
  fd_dataPath :: "string option"
  fd_deviceTypeIdentifier :: string
  fd_diskBytes :: "int option"
  fd_isAvailable :: bool
  fd_lastBootedAt :: "string option"
  fd_name :: string
  fd_runtimeIdentifier :: "string option"
  fd_state :: "string option"
  fd_udid :: string

record fixture =
  fx_devices :: "fixture_device list"
  fx_devicetypes :: "device_type list"
  fx_runtimes :: "runtime list"

text \<open>The file, the ids that are drawn, and which writes of the file fail.\<close>

record fixture_world =
  fw_state :: "fixture option"
  fw_uuids :: "nat \<Rightarrow> string"
  fw_drawn :: nat
  fw_fails :: "nat \<Rightarrow> bool"
  fw_writes :: nat
  fw_now :: string

definition group_device :: "fixture_device \<Rightarrow> device" where
  "group_device d = \<lparr>dv_deviceTypeIdentifier = fd_deviceTypeIdentifier d, dv_isAvailable = fd_isAvailable d,
     dv_name = fd_name d, dv_productFamily = None, dv_state = Some (nullish (fd_state d) ''Shutdown''), dv_udid = fd_udid d\<rparr>"

definition push_group :: "string \<Rightarrow> 'a \<Rightarrow> (string \<times> 'a list) list \<Rightarrow> (string \<times> 'a list) list" where
  "push_group k x gs = (if k \<in> fst ` set gs then map (\<lambda>(j, xs). (j, if j = k then xs @ [x] else xs)) gs else gs @ [(k, [x])])"

definition device_runtime :: "fixture_device \<Rightarrow> string" where
  "device_runtime d = nullish (fd_runtimeIdentifier d) ''unknown-runtime''"

definition groupDevicesByRuntime :: "fixture_device list \<Rightarrow> (string \<times> device list) list" where
  "groupDevicesByRuntime ds = fold (\<lambda>d. push_group (device_runtime d) (group_device d)) ds []"

definition readFixtureState :: "(fixture_world, fixture) eff" where
  "readFixtureState = andthen (look fw_state) (\<lambda>f. case f of
      None \<Rightarrow> throw (HostError ''simctl fixture state not found'') | Some st \<Rightarrow> ret st)"

definition writeFixtureState :: "fixture \<Rightarrow> (fixture_world, unit) eff" where
  "writeFixtureState st = (\<lambda>w. if fw_fails w (fw_writes w) then (Inl (HostError ''EIO''), w\<lparr>fw_writes := fw_writes w + 1\<rparr>)
     else (Inr (), w\<lparr>fw_writes := fw_writes w + 1, fw_state := Some st\<rparr>))"

definition mutateState :: "(fixture \<Rightarrow> (fixture_world, 'a \<times> fixture) eff) \<Rightarrow> (fixture_world, 'a) eff" where
  "mutateState mutator = andthen readFixtureState (\<lambda>st. andthen (mutator st) (\<lambda>(x, st'). andthen (writeFixtureState st') (\<lambda>_. ret x)))"

definition findDeviceOrThrow :: "fixture \<Rightarrow> string \<Rightarrow> berr + fixture_device" where
  "findDeviceOrThrow st simulatorId = (case List.find (\<lambda>d. fd_udid d = simulatorId) (fx_devices st) of
      None \<Rightarrow> Inl (HostError (''Unknown simulator '' @ simulatorId)) | Some d \<Rightarrow> Inr d)"

text \<open>A change of the device object that \<open>find\<close> returned: the first one with the id.\<close>

fun update_first :: "('a \<Rightarrow> bool) \<Rightarrow> ('a \<Rightarrow> 'a) \<Rightarrow> 'a list \<Rightarrow> 'a list" where
  "update_first P f [] = []"
| "update_first P f (x # xs) = (if P x then f x # xs else x # update_first P f xs)"

definition change_device :: "string \<Rightarrow> (fixture_device \<Rightarrow> fixture_device) \<Rightarrow> (fixture_world, unit) eff" where
  "change_device simulatorId f = mutateState (\<lambda>st. andthen (check (findDeviceOrThrow st simulatorId)) (\<lambda>_.
     ret ((), st\<lparr>fx_devices := update_first (\<lambda>d. fd_udid d = simulatorId) f (fx_devices st)\<rparr>)))"

definition fixtureBootDevice :: "string \<Rightarrow> (fixture_world, unit) eff" where
  "fixtureBootDevice simulatorId = andthen (look fw_now) (\<lambda>t.
     change_device simulatorId (\<lambda>d. d\<lparr>fd_lastBootedAt := Some t, fd_state := Some ''Booted''\<rparr>))"

definition fixtureWaitForBooted :: "string \<Rightarrow> (fixture_world, unit) eff" where
  "fixtureWaitForBooted simulatorId = andthen readFixtureState (\<lambda>st. andthen (check (findDeviceOrThrow st simulatorId)) (\<lambda>_. ret ()))"

definition randomUUID :: "(fixture_world, string) eff" where
  "randomUUID = (\<lambda>w. (Inr (fw_uuids w (fw_drawn w)), w\<lparr>fw_drawn := fw_drawn w + 1\<rparr>))"

definition fixtureCreateDevice :: "string \<Rightarrow> string \<Rightarrow> string \<Rightarrow> (fixture_world, string) eff" where
  "fixtureCreateDevice name deviceTypeId runtimeId = mutateState (\<lambda>st.
    case List.find (\<lambda>r. rn_identifier r = runtimeId) (fx_runtimes st) of
      None \<Rightarrow> throw (HostError (''Unknown runtime '' @ runtimeId))
    | Some r \<Rightarrow>
        (case or_else (List.find (\<lambda>t. dt_identifier t = Some deviceTypeId) (fx_devicetypes st))
              (List.find (\<lambda>t. dt_identifier t = Some deviceTypeId) (rn_supported r)) of
           None \<Rightarrow> throw (HostError (''Unknown device type '' @ deviceTypeId))
         | Some _ \<Rightarrow> andthen randomUUID (\<lambda>u. let udid = map upper_char u in
             ret (udid, st\<lparr>fx_devices := fx_devices st @ [\<lparr>fd_dataPath = None, fd_deviceTypeIdentifier = deviceTypeId,
               fd_diskBytes = None, fd_isAvailable = True, fd_lastBootedAt = None, fd_name = name,
               fd_runtimeIdentifier = Some runtimeId, fd_state = Some ''Shutdown'', fd_udid = udid\<rparr>]\<rparr>))))"

definition fixtureDeleteDevice :: "string \<Rightarrow> (fixture_world, unit) eff" where
  "fixtureDeleteDevice simulatorId = mutateState (\<lambda>st.
     ret ((), st\<lparr>fx_devices := filter (\<lambda>d. fd_udid d \<noteq> simulatorId) (fx_devices st)\<rparr>))"

definition fixtureEraseDevice :: "string \<Rightarrow> (fixture_world, unit) eff" where
  "fixtureEraseDevice simulatorId =
     change_device simulatorId (\<lambda>d. d\<lparr>fd_diskBytes := Some 0, fd_lastBootedAt := None, fd_state := Some ''Shutdown''\<rparr>)"

definition fixtureMeasureDeviceDiskBytes :: "string \<Rightarrow> inventory \<Rightarrow> (fixture_world, int) eff" where
  "fixtureMeasureDeviceDiskBytes simulatorId devices = andthen readFixtureState (\<lambda>st.
     andthen (check (findDeviceOrThrow st simulatorId)) (\<lambda>d. ret (nullish (fd_diskBytes d) 0)))"

definition fixtureRenameDevice :: "string \<Rightarrow> string \<Rightarrow> (fixture_world, unit) eff" where
  "fixtureRenameDevice simulatorId name = change_device simulatorId (\<lambda>d. d\<lparr>fd_name := name\<rparr>)"

definition fixtureShutdownDevice :: "string \<Rightarrow> (fixture_world, unit) eff" where
  "fixtureShutdownDevice simulatorId = change_device simulatorId (\<lambda>d. d\<lparr>fd_state := Some ''Shutdown''\<rparr>)"

text \<open>\<open>listDevices\<close>, \<open>listDeviceTypes\<close> and \<open>listRuntimes\<close>.\<close>

definition fixture_inventory :: "fixture \<Rightarrow> inventory" where
  "fixture_inventory st = \<lparr>iv_devices = groupDevicesByRuntime (fx_devices st), iv_deviceTypes = fx_devicetypes st,
     iv_runtimes = fx_runtimes st\<rparr>"

definition fixtureListDevices :: "(fixture_world, inventory) eff" where
  "fixtureListDevices = andthen readFixtureState (\<lambda>st. ret (fixture_inventory st))"

definition fixtureListRuntimes :: "(fixture_world, runtime list) eff" where
  "fixtureListRuntimes = andthen readFixtureState (\<lambda>st. ret (fx_runtimes st))"

definition createFixtureSimctlAdapter :: "fixture_world simctl" where
  "createFixtureSimctlAdapter = \<lparr>sc_inventory = fixtureListDevices, sc_listDevices = fixtureListDevices,
     sc_measure = fixtureMeasureDeviceDiskBytes, sc_boot = fixtureBootDevice, sc_waitForBooted = fixtureWaitForBooted,
     sc_shutdown = fixtureShutdownDevice, sc_erase = fixtureEraseDevice, sc_delete = fixtureDeleteDevice,
     sc_listRuntimes = fixtureListRuntimes, sc_rename = fixtureRenameDevice, sc_create = fixtureCreateDevice\<rparr>"

section \<open>What the broker relies on\<close>

text \<open>The simulators of an inventory: the name, the device type and the runtime under each id.\<close>

definition indexed_devices :: "inventory \<Rightarrow> string \<rightharpoonup> string \<times> string \<times> string" where
  "indexed_devices iv i = map_option (\<lambda>d. (di_name d, di_deviceTypeIdentifier d, di_runtimeIdentifier d)) (map_get (createDeviceIndex iv) i)"

text \<open>A creation that fails may have left the simulator behind, and a deletion that succeeds may not have
  happened: the broker trusts only the ids that a creation returns and the listings.\<close>

locale simulators =
  fixes sc :: "'w simctl"
    and ok :: "'w \<Rightarrow> bool"
    and devs :: "'w \<Rightarrow> string \<rightharpoonup> string \<times> string \<times> string"
  assumes created: "ok w \<Longrightarrow> sc_create sc n t r w = (Inr i, w') \<Longrightarrow>
        ok w' \<and> i \<noteq> [] \<and> devs w i = None \<and> devs w' = (devs w)(i \<mapsto> (n, t, r))"
    and create_failed: "ok w \<Longrightarrow> sc_create sc n t r w = (Inl e, w') \<Longrightarrow>
        ok w' \<and> (devs w' = devs w \<or> (\<exists>i. i \<noteq> [] \<and> devs w i = None \<and> devs w' = (devs w)(i \<mapsto> (n, t, r))))"
    and deleted: "ok w \<Longrightarrow> sc_delete sc i w = (z, w') \<Longrightarrow> ok w' \<and> (devs w' = devs w \<or> devs w' = (devs w)(i := None))"
    and listed: "ok w \<Longrightarrow> sc_inventory sc w = (y, w') \<Longrightarrow> ok w' \<and> devs w' = devs w \<and> (\<forall>iv. y = Inr iv \<longrightarrow> indexed_devices iv = devs w)"
    and list_error: "sc_inventory sc w = (Inl e, w') \<Longrightarrow> \<not> is_broker_error e"

text \<open>The laws for the adapter of the tests, as long as the ids it draws are new.\<close>

definition fixture_devs :: "fixture_world \<Rightarrow> string \<rightharpoonup> string \<times> string \<times> string" where
  "fixture_devs w = (case fw_state w of None \<Rightarrow> Map.empty | Some st \<Rightarrow> indexed_devices (fixture_inventory st))"

definition fixture_ok :: "fixture_world \<Rightarrow> bool" where
  "fixture_ok w \<longleftrightarrow> inj (\<lambda>n. map upper_char (fw_uuids w n)) \<and> (\<forall>n. fw_uuids w n \<noteq> [])
    \<and> (\<forall>st. fw_state w = Some st \<longrightarrow> distinct (map fd_udid (fx_devices st))
        \<and> (\<forall>n\<ge>fw_drawn w. map upper_char (fw_uuids w n) \<notin> fd_udid ` set (fx_devices st)))"

definition device_identity :: "fixture_device \<Rightarrow> string \<times> string \<times> string" where
  "device_identity d = (fd_name d, fd_deviceTypeIdentifier d, device_runtime d)"

definition flat :: "(string \<times> 'a list) list \<Rightarrow> (string \<times> 'a) list" where
  "flat gs = concat (map (\<lambda>(k, xs). map (Pair k) xs) gs)"

lemma flat_push:
  "distinct (map fst gs) \<Longrightarrow> mset (flat (push_group k x gs)) = add_mset (k, x) (mset (flat gs)) \<and> distinct (map fst (push_group k x gs))"
proof (cases "k \<in> fst ` set gs")
  case True
  have keys: "map fst (map (\<lambda>(j, xs). (j, if j = k then xs @ [x] else xs)) gs) = map fst gs" by (induction gs) auto
  have absent: "map (\<lambda>(j, xs). (j, if j = k then xs @ [x] else xs)) hs = hs" if "k \<notin> fst ` set hs" for hs :: "(string \<times> 'a list) list"
    using that by (induction hs) auto
  assume d: "distinct (map fst gs)"
  have ms: "mset (flat (map (\<lambda>(j, xs). (j, if j = k then xs @ [x] else xs)) gs)) = add_mset (k, x) (mset (flat gs))"
    using d True
  proof (induction gs)
    case (Cons g gs)
    then show ?case by (cases "fst g = k") (auto simp: flat_def absent split: prod.splits)
  qed simp
  show ?thesis unfolding push_group_def if_P [OF True] keys using ms d by blast
next
  case False
  assume "distinct (map fst gs)"
  with False show ?thesis by (simp add: push_group_def flat_def)
qed

lemma flat_groups: "mset (flat (groupDevicesByRuntime ds)) = mset (map (\<lambda>d. (device_runtime d, group_device d)) ds)"
proof -
  have "mset (flat (fold (\<lambda>d. push_group (device_runtime d) (group_device d)) ds gs))
      = mset (map (\<lambda>d. (device_runtime d, group_device d)) ds) + mset (flat gs)" if "distinct (map fst gs)" for gs
    using that by (induction ds arbitrary: gs) (simp_all add: flat_push)
  from this [of "[]"] show ?thesis by (simp add: groupDevicesByRuntime_def flat_def)
qed

lemma index_flat:
  "map (\<lambda>(i, d). (i, di_name d, di_deviceTypeIdentifier d, di_runtimeIdentifier d)) (createDeviceIndex iv)
    = map (\<lambda>(r, d). (dv_udid d, dv_name d, dv_deviceTypeIdentifier d, r)) (flat (iv_devices iv))"
  unfolding createDeviceIndex_def flat_def map_concat
  by (intro arg_cong [where f = concat]) (simp add: comp_def case_prod_unfold)

lemma map_of_values: "map_option f (map_of xs k) = map_of (map (\<lambda>(i, d). (i, f d)) xs) k"
  by (induction xs) auto

lemma map_of_snoc: "k \<notin> fst ` set xs \<Longrightarrow> map_of (xs @ [(k, v)]) = (map_of xs)(k \<mapsto> v)"
  by (induction xs) auto

lemma indexed_map_of:
  "indexed_devices iv = map_of (rev (map (\<lambda>(r, d). (dv_udid d, dv_name d, dv_deviceTypeIdentifier d, r)) (flat (iv_devices iv))))"
  unfolding index_flat [symmetric] by (simp add: fun_eq_iff indexed_devices_def map_get_def map_of_values rev_map)

lemma indexed_fixture:
  assumes "distinct (map fd_udid (fx_devices st))"
  shows "indexed_devices (fixture_inventory st) = map_of (map (\<lambda>d. (fd_udid d, device_identity d)) (fx_devices st))"
proof -
  let ?f = "\<lambda>(r, d). (dv_udid d, dv_name d, dv_deviceTypeIdentifier d, r)" and ?ds = "fx_devices st"
  have m: "mset (map ?f (flat (groupDevicesByRuntime ?ds))) = mset (map (\<lambda>d. (fd_udid d, device_identity d)) ?ds)"
    unfolding mset_map flat_groups by (simp add: image_mset.compositionality comp_def group_device_def device_identity_def)
  then have s: "set (map ?f (flat (groupDevicesByRuntime ?ds))) = set (map (\<lambda>d. (fd_udid d, device_identity d)) ?ds)"
    by (rule mset_eq_setD)
  have "mset (map fst (map ?f (flat (groupDevicesByRuntime ?ds)))) = mset (map fst (map (\<lambda>d. (fd_udid d, device_identity d)) ?ds))"
    by (simp only: mset_map [of fst] m)
  note dist = mset_eq_imp_distinct_iff [OF this]
  have d2: "distinct (map fst (map (\<lambda>d. (fd_udid d, device_identity d)) ?ds))" using assms by (simp add: comp_def)
  with dist have "distinct (map fst (rev (map ?f (flat (groupDevicesByRuntime ?ds)))))" by (simp only: rev_map [symmetric] distinct_rev)
  then have "map_of (rev (map ?f (flat (groupDevicesByRuntime ?ds)))) = map_of (map (\<lambda>d. (fd_udid d, device_identity d)) ?ds)"
    by (rule iffD2 [OF map_of_inject_set [OF _ d2]]) (simp only: set_rev s)
  then show ?thesis unfolding indexed_map_of fixture_inventory_def inventory.simps .
qed

lemma fixture_devs_map:
  "fixture_ok w \<Longrightarrow> fw_state w = Some st \<Longrightarrow> fixture_devs w = map_of (map (\<lambda>d. (fd_udid d, device_identity d)) (fx_devices st))"
  by (simp add: fixture_devs_def fixture_ok_def indexed_fixture)

lemma map_upper_Nil [simp]: "map upper_char u = [] \<longleftrightarrow> u = []" "[] = map upper_char u \<longleftrightarrow> u = []"
  by auto

text \<open>Only a write that succeeds changes the file.\<close>

lemma mutate_cases:
  assumes "mutateState f w = (r, w')"
  obtains (unread) "w' = w" "\<exists>e. r = Inl e"
  | (failed) st e where "fw_state w = Some st" "f st w = (Inl e, w')" "r = Inl e"
  | (lost) st x st' w1 e where "fw_state w = Some st" "f st w = (Inr (x, st'), w1)" "w' = w1\<lparr>fw_writes := fw_writes w1 + 1\<rparr>" "r = Inl e"
  | (written) st x st' w1 where "fw_state w = Some st" "f st w = (Inr (x, st'), w1)"
      "w' = w1\<lparr>fw_writes := fw_writes w1 + 1, fw_state := Some st'\<rparr>" "r = Inr x"
  using assms unfolding mutateState_def readFixtureState_def writeFixtureState_def
  by (auto simp: run_andthen run_simps split: option.splits prod.splits sum.splits if_splits)

lemma fixture_create_ok:
  assumes "fixture_ok w" "fixtureCreateDevice n t r w = (y, w')"
  shows "fixture_ok w' \<and> (case y of
      Inr i \<Rightarrow> i \<noteq> [] \<and> fixture_devs w i = None \<and> fixture_devs w' = (fixture_devs w)(i \<mapsto> (n, t, r))
    | Inl e \<Rightarrow> fixture_devs w' = fixture_devs w)"
  using assms(2) unfolding fixtureCreateDevice_def
proof (cases rule: mutate_cases)
  case unread
  with assms(1) show ?thesis by auto
next
  case (failed st e)
  then have "w' = w" by (auto simp: randomUUID_def run_andthen run_simps Let_def split: option.splits)
  with assms(1) failed show ?thesis by simp
next
  case (lost st x st' w1 e)
  then have "w1 = w\<lparr>fw_drawn := fw_drawn w + 1\<rparr>"
    by (auto simp: randomUUID_def run_andthen run_simps Let_def split: option.splits)
  with assms(1) lost show ?thesis by (auto simp: fixture_ok_def fixture_devs_def)
next
  case (written st x st' w1)
  let ?u = "map upper_char (fw_uuids w (fw_drawn w))"
  let ?d = "\<lparr>fd_dataPath = None, fd_deviceTypeIdentifier = t, fd_diskBytes = None, fd_isAvailable = True, fd_lastBootedAt = None,
      fd_name = n, fd_runtimeIdentifier = Some r, fd_state = Some ''Shutdown'', fd_udid = ?u\<rparr>"
  from written have d: "w1 = w\<lparr>fw_drawn := fw_drawn w + 1\<rparr>" "x = ?u" "st' = st\<lparr>fx_devices := fx_devices st @ [?d]\<rparr>"
    by (auto simp: randomUUID_def run_andthen run_simps Let_def split: option.splits)
  from assms(1) written(1) have new: "?u \<notin> fd_udid ` set (fx_devices st)" "fw_uuids w (fw_drawn w) \<noteq> []"
    by (auto simp: fixture_ok_def)
  have "map upper_char (fw_uuids w k) \<noteq> ?u" if "Suc (fw_drawn w) \<le> k" for k
    using assms(1) that by (auto simp: fixture_ok_def inj_def) (metis Suc_n_not_le_n)
  with assms(1) written d new have ok: "fixture_ok w'" by (auto simp: fixture_ok_def)
  have old: "fixture_devs w = map_of (map (\<lambda>d. (fd_udid d, device_identity d)) (fx_devices st))"
    by (rule fixture_devs_map [OF assms(1) written(1)])
  have "fixture_devs w' = map_of (map (\<lambda>d. (fd_udid d, device_identity d)) (fx_devices st @ [?d]))"
    using fixture_devs_map [OF ok, of st'] written(3) d by simp
  also have "\<dots> = (fixture_devs w)(?u \<mapsto> (n, t, r))"
    using new(1) map_of_snoc [of ?u "map (\<lambda>d. (fd_udid d, device_identity d)) (fx_devices st)" "(n, t, r)"]
    by (simp add: old image_image device_identity_def device_runtime_def)
  finally show ?thesis using ok new d written old by (auto simp: map_of_eq_None_iff image_iff)
qed

lemma map_of_filter_key: "map_of (map (\<lambda>d. (f d, g d)) (filter (\<lambda>d. f d \<noteq> i) ds)) = (map_of (map (\<lambda>d. (f d, g d)) ds))(i := None)"
  by (induction ds) (auto simp: fun_eq_iff)

lemma fixture_delete_ok:
  assumes "fixture_ok w" "fixtureDeleteDevice i w = (z, w')"
  shows "fixture_ok w' \<and> fixture_devs w' = (case z of Inr u \<Rightarrow> (fixture_devs w)(i := None) | Inl e \<Rightarrow> fixture_devs w)"
  using assms(2) unfolding fixtureDeleteDevice_def
proof (cases rule: mutate_cases)
  case (written st x st' w1)
  then have d: "w1 = w" "st' = st\<lparr>fx_devices := filter (\<lambda>d. fd_udid d \<noteq> i) (fx_devices st)\<rparr>" by (auto simp: run_simps)
  with assms(1) written have ok: "fixture_ok w'" by (auto simp: fixture_ok_def distinct_map_filter)
  with fixture_devs_map [OF ok] fixture_devs_map [OF assms(1)] written d show ?thesis by (simp add: map_of_filter_key)
qed (use assms(1) in \<open>auto simp: run_simps fixture_ok_def fixture_devs_def\<close>)

interpretation fixture_simulators: simulators createFixtureSimctlAdapter fixture_ok fixture_devs
proof unfold_locales
  fix w n t r i w'
  assume "fixture_ok w" "sc_create createFixtureSimctlAdapter n t r w = (Inr i, w')"
  then show "fixture_ok w' \<and> i \<noteq> [] \<and> fixture_devs w i = None \<and> fixture_devs w' = (fixture_devs w)(i \<mapsto> (n, t, r))"
    using fixture_create_ok [of w n t r "Inr i" w'] by (simp add: createFixtureSimctlAdapter_def)
next
  fix w n t r e w'
  assume "fixture_ok w" "sc_create createFixtureSimctlAdapter n t r w = (Inl e, w')"
  then show "fixture_ok w' \<and> (fixture_devs w' = fixture_devs w
      \<or> (\<exists>i. i \<noteq> [] \<and> fixture_devs w i = None \<and> fixture_devs w' = (fixture_devs w)(i \<mapsto> (n, t, r))))"
    using fixture_create_ok [of w n t r "Inl e" w'] by (simp add: createFixtureSimctlAdapter_def)
next
  fix w i z w'
  assume "fixture_ok w" "sc_delete createFixtureSimctlAdapter i w = (z, w')"
  then show "fixture_ok w' \<and> (fixture_devs w' = fixture_devs w \<or> fixture_devs w' = (fixture_devs w)(i := None))"
    using fixture_delete_ok [of w i z w'] by (auto simp: createFixtureSimctlAdapter_def split: sum.splits)
next
  fix w y w'
  assume "fixture_ok w" "sc_inventory createFixtureSimctlAdapter w = (y, w')"
  then show "fixture_ok w' \<and> fixture_devs w' = fixture_devs w \<and> (\<forall>iv. y = Inr iv \<longrightarrow> indexed_devices iv = fixture_devs w)"
    by (auto simp: createFixtureSimctlAdapter_def fixtureListDevices_def readFixtureState_def run_andthen run_simps fixture_devs_def
        split: option.splits)
next
  fix w e w'
  assume "sc_inventory createFixtureSimctlAdapter w = (Inl e, w')"
  then show "\<not> is_broker_error e"
    by (auto simp: createFixtureSimctlAdapter_def fixtureListDevices_def readFixtureState_def run_andthen run_simps split: option.splits)
qed

end
