(* ===== verification/Capacity_Apply.thy ===== *)
theory Capacity_Apply
  imports Capacity_Plan Simctl
begin

text \<open>
  Applying a capacity plan (\<open>getCapacityTransactionPath\<close> to \<open>reconcileCapacityBroker\<close> in
  \<open>broker-core/index.mjs\<close>): every change is logged in a transaction file before it is made, so that
  a failure is rolled back at once or by the next apply.  The injected failures of the tests
  (\<open>capacityCommitFailureStage\<close>, \<open>capacityAuditFailureStage\<close>) are outcomes of the file operations here.
\<close>

section \<open>The transaction log\<close>

definition tx_name :: "transaction \<Rightarrow> string" where
  "tx_name t = tx_transactionId t @ ''.json''"

definition put_transaction :: "transaction \<Rightarrow> 'w sys \<Rightarrow> 'w sys" where
  "put_transaction t s = s\<lparr>sy_transactions := dir_put (tx_name t) t (sy_transactions s)\<rparr>"

definition writeCapacityTransaction :: "'w env \<Rightarrow> transaction \<Rightarrow> ('w sys, unit) eff" where
  "writeCapacityTransaction env t = writeJsonAtomicRestricted env (R_transaction (tx_name t)) (put_transaction t)"

definition appendCapacityEvent :: "'w env \<Rightarrow> string \<Rightarrow> transaction \<Rightarrow> string list \<Rightarrow> string \<Rightarrow> ('w sys, unit) eff" where
  "appendCapacityEvent env type t detail timestamp =
    appendEventRecord env (event_of type None (tx_actorType t) None (tx_projectId t) None detail timestamp)"

definition createPlannedCapacityAddition :: "plan_action \<Rightarrow> addition" where
  "createPlannedCapacityAddition a =
    \<lparr>ad_actionId = pa_actionId (an_public a), ad_alias = an_alias a,
     ad_capabilities = [qm_capability (pa_requirement (an_public a))],
     ad_deviceFamily = qm_deviceFamily (pa_requirement (an_public a)),
     ad_deviceTypeIdentifier = an_deviceTypeIdentifier a, ad_displayName = an_displayName a, ad_iosVersion = an_iosVersion a,
     ad_resetPolicy = qm_resetPolicy (pa_requirement (an_public a)), ad_runtimeIdentifier = an_runtimeIdentifier a,
     ad_simulatorId = None, ad_simulatorIdRecoveredAt = None, ad_simulatorName = an_simulatorName a, ad_preCreateDeviceIds = []\<rparr>"

definition createCurrentDeviceIndex :: "'w env \<Rightarrow> ('w sys, (string \<times> device_info) list) eff" where
  "createCurrentDeviceIndex env = andthen (lift (sc_inventory (en_simctl env))) (\<lambda>iv. ret (createDeviceIndex iv))"

definition matchingPlannedCapacityDevices :: "(string \<times> device_info) list \<Rightarrow> addition \<Rightarrow> device_info list" where
  "matchingPlannedCapacityDevices idx ad = filter (\<lambda>d. di_name d = ad_simulatorName ad
     \<and> di_deviceTypeIdentifier d = ad_deviceTypeIdentifier ad \<and> di_runtimeIdentifier d = ad_runtimeIdentifier ad) (map_values idx)"

definition capturePreCreateDeviceIds :: "'w env \<Rightarrow> addition \<Rightarrow> ('w sys, string list) eff" where
  "capturePreCreateDeviceIds env ad = andthen (createCurrentDeviceIndex env) (\<lambda>idx.
     ret (sort_strings (map di_udid (matchingPlannedCapacityDevices idx ad))))"

section \<open>Finding the simulators of a transaction\<close>

text \<open>The device list is read once, when the first addition needs it.\<close>

definition needs_resolution :: "addition \<Rightarrow> bool" where
  "needs_resolution ad \<longleftrightarrow> given (ad_simulatorId ad) = None \<and> ad_simulatorName ad \<noteq> []
     \<and> ad_deviceTypeIdentifier ad \<noteq> [] \<and> ad_runtimeIdentifier ad \<noteq> []"

definition new_matches :: "(string \<times> device_info) list \<Rightarrow> addition \<Rightarrow> device_info list" where
  "new_matches idx ad = filter (\<lambda>d. di_udid d \<notin> set (ad_preCreateDeviceIds ad)) (matchingPlannedCapacityDevices idx ad)"

record resolution =
  rs_additions :: "addition list"
  rs_ambiguous :: "addition list"
  rs_changed :: bool

definition resolve_addition :: "(string \<times> device_info) list \<Rightarrow> string \<Rightarrow> addition \<Rightarrow> addition" where
  "resolve_addition idx timestamp ad =
    (if needs_resolution ad then
       (case new_matches idx ad of
          [d] \<Rightarrow> ad\<lparr>ad_simulatorId := Some (di_udid d), ad_simulatorIdRecoveredAt := Some timestamp\<rparr>
        | _ \<Rightarrow> ad)
     else ad)"

definition resolvePlannedCapacityAdditions :: "'w env \<Rightarrow> transaction \<Rightarrow> string \<Rightarrow> ('w sys, resolution) eff" where
  "resolvePlannedCapacityAdditions env t timestamp =
    (if list_ex needs_resolution (tx_additions t)
     then andthen (createCurrentDeviceIndex env) (\<lambda>idx. ret
        \<lparr>rs_additions = map (resolve_addition idx timestamp) (tx_additions t),
         rs_ambiguous = filter (\<lambda>ad. needs_resolution ad \<and> 1 < length (new_matches idx ad)) (tx_additions t),
         rs_changed = list_ex (\<lambda>ad. needs_resolution ad \<and> length (new_matches idx ad) = 1) (tx_additions t)\<rparr>)
     else ret \<lparr>rs_additions = tx_additions t, rs_ambiguous = [], rs_changed = False\<rparr>)"

section \<open>Rollback\<close>

text \<open>The variables that survive a throw: the transaction, and whether the configuration is committed.\<close>

record tx_vars =
  tv_transaction :: transaction
  tv_committed :: bool

type_synonym 'w tx_sys = "'w sys \<times> tx_vars"

definition the_tx :: "'w tx_sys \<Rightarrow> transaction" where
  "the_tx x = tv_transaction (snd x)"

definition set_tx :: "(transaction \<Rightarrow> transaction) \<Rightarrow> ('w tx_sys, unit) eff" where
  "set_tx f = assign (\<lambda>v. v\<lparr>tv_transaction := f (tv_transaction v)\<rparr>)"

definition save_tx :: "'w env \<Rightarrow> ('w tx_sys, unit) eff" where
  "save_tx env = andthen (look the_tx) (\<lambda>t. outer (writeCapacityTransaction env t))"

definition log_tx :: "'w env \<Rightarrow> string \<Rightarrow> string list \<Rightarrow> string \<Rightarrow> ('w tx_sys, unit) eff" where
  "log_tx env type detail timestamp = andthen (look the_tx) (\<lambda>t. outer (appendCapacityEvent env type t detail timestamp))"

definition deleteCapacityDevice :: "'w env \<Rightarrow> string \<Rightarrow> ('w sys, unit) eff" where
  "deleteCapacityDevice env simulatorId =
    andthen (lift (sc_delete (en_simctl env) simulatorId)) (\<lambda>_.
    andthen (createCurrentDeviceIndex env) (\<lambda>idx.
      if map_get idx simulatorId \<noteq> None then throw (HostError (''simctl delete left simulator '' @ simulatorId @ '' present'')) else ret ()))"

definition ambiguity :: "addition \<Rightarrow> string \<times> string" where
  "ambiguity ad = (ad_actionId ad, ''Ambiguous planned simulator identity for '' @ ad_simulatorName ad @ ''.'')"

definition created_additions :: "transaction \<Rightarrow> addition list" where
  "created_additions t = filter (\<lambda>ad. given (ad_simulatorId ad) \<noteq> None) (tx_additions t)"

definition delete_or_note :: "'w env \<Rightarrow> addition \<Rightarrow> (string \<times> string) list \<Rightarrow> ('w sys, (string \<times> string) list) eff" where
  "delete_or_note env ad failed =
    catching (andthen (deleteCapacityDevice env (nullish (ad_simulatorId ad) [])) (\<lambda>_. ret failed))
      (\<lambda>e. ret (failed @ [(ad_actionId ad, err_message e)]))"

definition rollback_incomplete :: berr where
  "rollback_incomplete = broker_err ''Capacity reconcile rollback is incomplete; local operator recovery is required.''
     ''capacity-rollback-incomplete''"

definition rolled_back :: "string \<Rightarrow> berr" where
  "rolled_back cause = cause_err ''Capacity reconcile failed; transaction-created simulators were rolled back.''
     ''capacity-reconcile-rolled-back'' cause"

definition rollbackCapacityTransaction :: "'w env \<Rightarrow> string \<Rightarrow> berr \<Rightarrow> ('w tx_sys, 'a) eff" where
  "rollbackCapacityTransaction env timestamp publicError =
    andthen (look the_tx) (\<lambda>t.
    andthen (outer (resolvePlannedCapacityAdditions env t timestamp)) (\<lambda>rs.
    andthen (unless (\<not> rs_changed rs) (set_tx (\<lambda>t. t\<lparr>tx_additions := rs_additions rs\<rparr>))) (\<lambda>_.
    andthen (look the_tx) (\<lambda>t.
    andthen (outer (fold_eff (delete_or_note env) (created_additions t) (map ambiguity (rs_ambiguous rs)))) (\<lambda>failed.
      if failed \<noteq> [] then
        andthen (set_tx (\<lambda>t. t\<lparr>tx_rollbackFailures := failed, tx_rollbackState := Some ''rollback_incomplete'',
          tx_status := Tx_rollback_incomplete, tx_updatedAt := timestamp\<rparr>)) (\<lambda>_.
        andthen (save_tx env) (\<lambda>_.
        andthen (log_tx env ''capacity.reconcile.rollback_incomplete'' [''rollback-incomplete''] timestamp) (\<lambda>_.
          throw rollback_incomplete)))
      else
        andthen (set_tx (\<lambda>t. t\<lparr>tx_rollbackState := Some ''rolled_back'', tx_status := Tx_rolled_back, tx_updatedAt := timestamp\<rparr>)) (\<lambda>_.
        andthen (save_tx env) (\<lambda>_.
        andthen (log_tx env ''capacity.reconcile.rolled_back'' [nullish (payload_reason publicError) ''capacity-reconcile-failed''] timestamp) (\<lambda>_.
          throw (rolled_back (err_message publicError))))))))))"

section \<open>Recovery\<close>

fun terminal_status :: "tx_status \<Rightarrow> bool" where
  "terminal_status Tx_finalized = True"
| "terminal_status Tx_rejected = True"
| "terminal_status Tx_rolled_back = True"
| "terminal_status _ = False"

definition in_host :: "host_config option \<Rightarrow> addition \<Rightarrow> bool" where
  "in_host hc ad \<longleftrightarrow> given (ad_simulatorId ad) \<noteq> None
     \<and> (case hc of None \<Rightarrow> False | Some c \<Rightarrow> list_ex (\<lambda>h. ha_alias h = ad_alias ad \<and> Some (ha_simulatorId h) = ad_simulatorId ad) (hc_aliases c))"

definition finish_recovery :: "'w env \<Rightarrow> tx_status \<Rightarrow> string \<Rightarrow> string \<Rightarrow> string list \<Rightarrow> string \<Rightarrow> ('w tx_sys, unit) eff" where
  "finish_recovery env status recoveryState type detail timestamp =
    andthen (set_tx (\<lambda>t. t\<lparr>tx_status := status, tx_recoveryState := Some recoveryState, tx_updatedAt := timestamp\<rparr>)) (\<lambda>_.
    andthen (save_tx env) (\<lambda>_. log_tx env type detail timestamp))"

definition delete_additions :: "'w env \<Rightarrow> addition list \<Rightarrow> ('w sys, unit) eff" where
  "delete_additions env ads = fold_eff (\<lambda>ad _. deleteCapacityDevice env (nullish (ad_simulatorId ad) [])) ads ()"

text \<open>One round of the loop; the result is the new status of a transaction that was not terminal.\<close>

definition settle_transaction :: "'w env \<Rightarrow> host_config option \<Rightarrow> string \<Rightarrow> ('w tx_sys, tx_status option) eff" where
  "settle_transaction env hc timestamp =
    andthen (look the_tx) (\<lambda>t.
      let additions = tx_additions t; there = filter (in_host hc) additions in
      if additions \<noteq> [] \<and> length there = length additions then
        andthen (finish_recovery env Tx_finalized ''committed'' ''capacity.reconcile.applied'' [''recovered''] timestamp) (\<lambda>_.
          ret (Some Tx_finalized))
      else if there \<noteq> [] then
        andthen (finish_recovery env Tx_failed ''ambiguous'' ''capacity.reconcile.failed'' [''recovered'', ''capacity-recovery-ambiguous''] timestamp) (\<lambda>_.
          throw (broker_err ''Capacity reconcile recovery found an ambiguous committed state.'' ''capacity-recovery-ambiguous''))
      else
        andthen (catching (outer (delete_additions env (created_additions t))) (\<lambda>e.
          andthen (finish_recovery env Tx_rollback_incomplete ''rollback_incomplete'' ''capacity.reconcile.rollback_incomplete''
            [''rollback-incomplete''] timestamp) (\<lambda>_.
          throw (cause_err ''Capacity reconcile recovery could not remove transaction-created simulators.''
            ''capacity-rollback-incomplete'' (err_message e))))) (\<lambda>_.
        andthen (finish_recovery env Tx_rolled_back ''rolled_back'' ''capacity.reconcile.rolled_back'' [''recovered''] timestamp) (\<lambda>_.
          ret (Some Tx_rolled_back))))"

definition recover_transaction ::
  "'w env \<Rightarrow> host_config option \<Rightarrow> string \<Rightarrow> ('w tx_sys, tx_status option) eff" where
  "recover_transaction env hc timestamp =
    andthen (look the_tx) (\<lambda>t.
    if terminal_status (tx_status t) then ret None
    else andthen (outer (resolvePlannedCapacityAdditions env t timestamp)) (\<lambda>rs.
    andthen (unless (\<not> rs_changed rs)
      (andthen (set_tx (\<lambda>t. t\<lparr>tx_additions := rs_additions rs, tx_updatedAt := timestamp\<rparr>)) (\<lambda>_. save_tx env))) (\<lambda>_.
    if rs_ambiguous rs \<noteq> [] then
      andthen (set_tx (\<lambda>t. t\<lparr>tx_rollbackFailures := map ambiguity (rs_ambiguous rs)\<rparr>)) (\<lambda>_.
      andthen (finish_recovery env Tx_rollback_incomplete ''rollback_incomplete'' ''capacity.reconcile.rollback_incomplete''
          [''rollback-incomplete''] timestamp) (\<lambda>_.
        throw (broker_err ''Capacity reconcile recovery could not identify transaction-created simulators.'' ''capacity-rollback-incomplete'')))
    else settle_transaction env hc timestamp)))"

definition recover_one ::
  "'w env \<Rightarrow> host_config option \<Rightarrow> string \<Rightarrow> transaction \<Rightarrow> (string \<times> tx_status) list \<Rightarrow> ('w sys, (string \<times> tx_status) list) eff" where
  "recover_one env hc timestamp t recovered =
    andthen (with_var \<lparr>tv_transaction = t, tv_committed = False\<rparr> (recover_transaction env hc timestamp)) (\<lambda>r.
      ret (case r of None \<Rightarrow> recovered | Some status \<Rightarrow> recovered @ [(tx_transactionId t, status)]))"

definition readOptionalHostConfig :: "('w sys, host_config option) eff" where
  "readOptionalHostConfig = andthen (look sy_host) (\<lambda>f. case f of
      None \<Rightarrow> ret None
    | Some v \<Rightarrow> andthen (check (validateHostConfig (Some v))) (\<lambda>hc. ret (Some hc)))"

definition recoverCapacityTransactions :: "'w env \<Rightarrow> capacity_options \<Rightarrow> ('w sys, (string \<times> tx_status) list) eff" where
  "recoverCapacityTransactions env opts =
    andthen (nowIso env (kq_now opts)) (\<lambda>timestamp.
    andthen (look (\<lambda>s. map snd (sy_transactions s))) (\<lambda>ts.
      if ts = [] then ret []
      else andthen readOptionalHostConfig (\<lambda>hc. fold_eff (recover_one env hc timestamp) ts [])))"

section \<open>Applying a plan\<close>

record actor =
  at_actorId :: "string option"
  at_actorType :: "string option"

definition createCapacityTransaction :: "'w env \<Rightarrow> capacity_plan \<Rightarrow> actor \<Rightarrow> string \<Rightarrow> ('w sys, transaction) eff" where
  "createCapacityTransaction env plan who timestamp =
    andthen (ask (en_uuid env)) (\<lambda>i. ret
      \<lparr>tx_transactionId = i, tx_actions = map an_public (cl_actions plan), tx_actorId = at_actorId who, tx_actorType = at_actorType who,
       tx_additions = [], tx_beforeDigest = cl_planId plan, tx_afterDigest = None, tx_createdAt = timestamp,
       tx_planId = cl_planId plan, tx_projectId = map_option pc_projectId (cv_project (cl_evaluation plan)), tx_rejection = None,
       tx_recoveryState = None, tx_rollbackFailures = [], tx_rollbackState = None, tx_status = Tx_intent, tx_updatedAt = timestamp\<rparr>)"

fun map_last :: "('a \<Rightarrow> 'a) \<Rightarrow> 'a list \<Rightarrow> 'a list" where
  "map_last f [] = []"
| "map_last f [x] = [f x]"
| "map_last f (x # y # zs) = x # map_last f (y # zs)"

definition set_last :: "(addition \<Rightarrow> addition) \<Rightarrow> transaction \<Rightarrow> transaction" where
  "set_last f t = t\<lparr>tx_additions := map_last f (tx_additions t)\<rparr>"

definition create_addition :: "'w env \<Rightarrow> string \<Rightarrow> plan_action \<Rightarrow> ('w tx_sys, unit) eff" where
  "create_addition env timestamp a =
    (let ad = createPlannedCapacityAddition a in
     andthen (set_tx (\<lambda>t. t\<lparr>tx_additions := tx_additions t @ [ad], tx_status := Tx_creating, tx_updatedAt := timestamp\<rparr>)) (\<lambda>_.
     andthen (outer (capturePreCreateDeviceIds env ad)) (\<lambda>ids.
     andthen (set_tx (set_last (\<lambda>ad. ad\<lparr>ad_preCreateDeviceIds := ids\<rparr>))) (\<lambda>_.
     andthen (save_tx env) (\<lambda>_.
     andthen (outer (lift (sc_create (en_simctl env) (an_simulatorName a) (an_deviceTypeIdentifier a) (an_runtimeIdentifier a)))) (\<lambda>i.
     andthen (set_tx (\<lambda>t. (set_last (\<lambda>ad. ad\<lparr>ad_simulatorId := Some i\<rparr>) t)\<lparr>tx_updatedAt := timestamp\<rparr>)) (\<lambda>_.
       save_tx env)))))))"

fun create_additions :: "'w env \<Rightarrow> string \<Rightarrow> plan_action list \<Rightarrow> ('w tx_sys, unit) eff" where
  "create_additions env timestamp [] = ret ()"
| "create_additions env timestamp (a # as) = andthen (create_addition env timestamp a) (\<lambda>_. create_additions env timestamp as)"

definition alias_of_addition :: "addition \<Rightarrow> host_alias" where
  "alias_of_addition ad = \<lparr>ha_alias = ad_alias ad, ha_capabilities = ad_capabilities ad, ha_deviceFamily = ad_deviceFamily ad,
     ha_displayName = ad_displayName ad, ha_iosVersion = ad_iosVersion ad, ha_resetPolicy = ad_resetPolicy ad,
     ha_simulatorId = nullish (ad_simulatorId ad) []\<rparr>"

definition commit_config :: "'w env \<Rightarrow> host_config \<Rightarrow> ('w tx_sys, unit) eff" where
  "commit_config env hc =
    andthen (outer (writeJsonAtomicDurable env hc)) (\<lambda>w. case w of
        Durable \<Rightarrow> assign (\<lambda>v. v\<lparr>tv_committed := True\<rparr>)
      | Not_durable msg there \<Rightarrow> andthen (assign (\<lambda>v. v\<lparr>tv_committed := there\<rparr>)) (\<lambda>_. throw (HostError msg)))"

definition with_additions :: "host_config \<Rightarrow> transaction \<Rightarrow> host_config" where
  "with_additions hc t = hc\<lparr>hc_aliases := hc_aliases hc @ map alias_of_addition (tx_additions t)\<rparr>"

text \<open>What is left to do after the configuration is in place.\<close>

definition finalize_apply :: "'w env \<Rightarrow> capacity_options \<Rightarrow> host_config \<Rightarrow> string \<Rightarrow> ('w tx_sys, nat) eff" where
  "finalize_apply env opts hc timestamp =
    andthen (set_tx (\<lambda>t. t\<lparr>tx_afterDigest := Some (en_digest env (host_config_json hc)), tx_status := Tx_config_committed,
      tx_updatedAt := timestamp\<rparr>)) (\<lambda>_.
    andthen (save_tx env) (\<lambda>_.
    andthen (outer (check (stateLoadOptions (kq_termWaitMs opts) (kq_skipLeaseIds opts) None (kq_now opts)))) (\<lambda>lo.
    andthen (outer (loadBrokerState env lo timestamp)) (\<lambda>_.
    andthen (set_tx (\<lambda>t. t\<lparr>tx_status := Tx_finalized, tx_updatedAt := timestamp\<rparr>)) (\<lambda>_.
    andthen (save_tx env) (\<lambda>_.
    andthen (log_tx env ''capacity.reconcile.applied'' [] timestamp) (\<lambda>_.
    andthen (look the_tx) (\<lambda>t. ret (length (tx_additions t))))))))))"

definition apply_steps :: "'w env \<Rightarrow> capacity_options \<Rightarrow> capacity_plan \<Rightarrow> string \<Rightarrow> ('w tx_sys, nat) eff" where
  "apply_steps env opts plan timestamp =
    andthen (create_additions env timestamp (cl_actions plan)) (\<lambda>_.
    andthen (outer readHostConfigOrThrow) (\<lambda>hc.
    andthen (look the_tx) (\<lambda>t.
    andthen (commit_config env (with_additions hc t)) (\<lambda>_.
      finalize_apply env opts (with_additions hc t) timestamp))))"

definition committed_error :: berr where
  "committed_error = broker_err ''Capacity reconcile committed host config but audit finalization requires recovery.''
     ''capacity-committed-recovery-required''"

definition apply_failed :: "'w env \<Rightarrow> string \<Rightarrow> berr \<Rightarrow> ('w tx_sys, 'a) eff" where
  "apply_failed env timestamp e =
    andthen (look (\<lambda>x. tv_committed (snd x))) (\<lambda>committed.
      if committed then
        andthen (set_tx (\<lambda>t. t\<lparr>tx_status := Tx_recovery_required, tx_updatedAt := timestamp\<rparr>)) (\<lambda>_.
        andthen (save_tx env) (\<lambda>_.
        andthen (log_tx env ''capacity.reconcile.failed'' [''committed'', ''committed-recovery-required''] timestamp) (\<lambda>_.
          throw committed_error)))
      else rollbackCapacityTransaction env timestamp e)"

definition applyCapacityPlan :: "'w env \<Rightarrow> capacity_plan \<Rightarrow> capacity_options \<Rightarrow> actor \<Rightarrow> string \<Rightarrow> ('w sys, nat) eff" where
  "applyCapacityPlan env plan opts who timestamp =
    andthen (createCapacityTransaction env plan who timestamp) (\<lambda>t.
    andthen (writeCapacityTransaction env t) (\<lambda>_.
      with_var \<lparr>tv_transaction = t, tv_committed = False\<rparr>
        (catching (apply_steps env opts plan timestamp) (apply_failed env timestamp))))"

section \<open>Reconciling\<close>

definition applyNoChangesPlan :: "'w env \<Rightarrow> capacity_plan \<Rightarrow> actor \<Rightarrow> string \<Rightarrow> ('w sys, unit) eff" where
  "applyNoChangesPlan env plan who timestamp =
    andthen (createCapacityTransaction env plan who timestamp) (\<lambda>t.
    let t = t\<lparr>tx_status := Tx_finalized, tx_updatedAt := timestamp\<rparr> in
    andthen (writeCapacityTransaction env t) (\<lambda>_.
      appendCapacityEvent env ''capacity.reconcile.no_changes'' t [] timestamp))"

definition applyBlockedExitReason :: "capacity_plan \<Rightarrow> string" where
  "applyBlockedExitReason plan =
    (let codes = concat (map pb_reasons (cl_blocked plan)) in
     if ''repair-needed'' \<in> set codes then ''capacity-repair-required''
     else if ''unsupported-capability'' \<in> set codes then ''capacity-unsupported-capability''
     else if ''missing-host-config'' \<in> set codes then ''missing-host-config''
     else if ''missing-project-file'' \<in> set codes then ''missing-project-file''
     else ''capacity-apply-blocked'')"

definition recordCapacityRejection :: "'w env \<Rightarrow> capacity_plan \<Rightarrow> actor \<Rightarrow> string \<Rightarrow> berr \<Rightarrow> ('w sys, unit) eff" where
  "recordCapacityRejection env plan who timestamp e =
    andthen (createCapacityTransaction env plan who timestamp) (\<lambda>t.
    let why = nullish (payload_reason e) ''capacity-apply-blocked'';
        t = t\<lparr>tx_rejection := Some why, tx_status := Tx_rejected, tx_updatedAt := timestamp\<rparr> in
    andthen (writeCapacityTransaction env t) (\<lambda>_.
      appendCapacityEvent env ''capacity.reconcile.failed'' t [why] timestamp))"

definition normalizeCapacityActorId :: "js option \<Rightarrow> string option" where
  "normalizeCapacityActorId v = (case v of Some (JStr s) \<Rightarrow> if js_trim s \<noteq> [] then Some (js_trim s) else None | _ \<Rightarrow> None)"

definition validateCapacityApplyShape :: "string option \<Rightarrow> actor \<Rightarrow> berr + unit" where
  "validateCapacityApplyShape confirmPlanId who =
    (if given confirmPlanId = None
     then Inl (broker_err ''Capacity reconcile apply requires --confirm <plan-id>.'' ''capacity-confirmation-required'')
     else if at_actorType who \<noteq> Some ''human'' \<and> at_actorType who \<noteq> Some ''agent''
     then Inl (broker_err ''Capacity reconcile apply requires --actor-type human or agent.'' ''capacity-actor-forbidden'')
     else if given (at_actorId who) = None
     then Inl (broker_err ''Capacity reconcile apply requires --actor-id.'' ''capacity-actor-required'')
     else Inr ())"

definition validateCapacityApplyConfirmation :: "string option \<Rightarrow> string \<Rightarrow> berr + unit" where
  "validateCapacityApplyConfirmation confirmPlanId currentPlanId =
    (if confirmPlanId \<noteq> Some currentPlanId
     then Inl (broker_err ''Capacity reconcile confirmation is stale; rerun preview and confirm the current plan.'' ''capacity-plan-stale'')
     else Inr ())"

definition validateCapacityPlanIsApplicable :: "capacity_plan \<Rightarrow> berr + unit" where
  "validateCapacityPlanIsApplicable plan =
    (if cl_status plan = ''blocked''
     then Inl (broker_err ''Capacity reconcile apply is blocked by the current plan.'' (applyBlockedExitReason plan))
     else Inr ())"

definition confirm_plan :: "'w env \<Rightarrow> capacity_options \<Rightarrow> actor \<Rightarrow> string \<Rightarrow> capacity_plan \<Rightarrow> ('w sys, unit) eff" where
  "confirm_plan env opts who timestamp plan =
    catching (check (seq (validateCapacityApplyConfirmation (kq_confirmPlanId opts) (cl_planId plan))
        (\<lambda>_. validateCapacityPlanIsApplicable plan)))
      (\<lambda>e. if is_broker_error e then andthen (recordCapacityRejection env plan who timestamp e) (\<lambda>_. throw e) else throw e)"

text \<open>A preview returns the plan, an apply how many simulators were created.\<close>

datatype capacity_outcome = Previewed capacity_plan | Unchanged | Applied nat

definition apply_confirmed :: "'w env \<Rightarrow> capacity_options \<Rightarrow> actor \<Rightarrow> string \<Rightarrow> ('w sys, capacity_outcome) eff" where
  "apply_confirmed env opts who timestamp =
    andthen (recoverCapacityTransactions env opts) (\<lambda>_.
    andthen (buildCapacityPlan env (opts\<lparr>kq_apply := True\<rparr>)) (\<lambda>plan.
    andthen (confirm_plan env opts who timestamp plan) (\<lambda>_.
      if cl_status plan = ''no_changes''
      then andthen (applyNoChangesPlan env plan who timestamp) (\<lambda>_. ret Unchanged)
      else andthen (applyCapacityPlan env plan opts who timestamp) (\<lambda>n. ret (Applied n)))))"

text \<open>A request with the wrong shape is recorded if the lock is free and the plan can be made.\<close>

definition reject_shape :: "'w env \<Rightarrow> capacity_options \<Rightarrow> actor \<Rightarrow> string \<Rightarrow> berr \<Rightarrow> ('w sys, unit) eff" where
  "reject_shape env opts who timestamp e =
    andthen (attempt (with_lock env Capacity_lock (attempt
      (andthen (buildCapacityPlan env (opts\<lparr>kq_apply := False\<rparr>)) (\<lambda>plan. recordCapacityRejection env plan who timestamp e)))))
      (\<lambda>_. throw e)"

definition confirm_and_apply :: "'w env \<Rightarrow> capacity_options \<Rightarrow> actor \<Rightarrow> string \<Rightarrow> ('w sys, capacity_outcome) eff" where
  "confirm_and_apply env opts who timestamp =
    with_lock env Capacity_lock
      (andthen (buildCapacityPlan env (opts\<lparr>kq_apply := False\<rparr>)) (\<lambda>plan.
       andthen (confirm_plan env opts who timestamp plan) (\<lambda>_.
         with_lock env Lease_lock (apply_confirmed env opts who timestamp))))"

definition reconcileCapacityBroker :: "'w env \<Rightarrow> capacity_options \<Rightarrow> ('w sys, capacity_outcome) eff" where
  "reconcileCapacityBroker env opts =
    (if \<not> kq_apply opts then andthen (buildCapacityPlan env opts) (\<lambda>plan. ret (Previewed plan))
     else
       let who = \<lparr>at_actorId = normalizeCapacityActorId (kq_actorId opts), at_actorType = kq_actorType opts\<rparr> in
       andthen (nowIso env (kq_now opts)) (\<lambda>timestamp.
       andthen (catching (check (validateCapacityApplyShape (kq_confirmPlanId opts) who)) (reject_shape env opts who timestamp)) (\<lambda>_.
         confirm_and_apply env opts who timestamp)))"

section \<open>What the steps throw\<close>

lemma host_error_reason: "\<not> is_broker_error e \<Longrightarrow> payload_reason e = None"
  by (cases e) auto

lemma andthen_InlE:
  assumes "andthen m k w = (Inl e, w2)"
  obtains "m w = (Inl e, w2)" | x w1 where "m w = (Inr x, w1)" "k x w1 = (Inl e, w2)"
  using assms by (auto simp: andthen_def split: prod.splits sum.splits)

lemma restricted_error: "writeJsonAtomicRestricted env f g s = (Inl e, s') \<Longrightarrow> payload_reason e = None"
  by (auto simp: writeJsonAtomicRestricted_def ask_def run_andthen run_simps split: prod.splits io_outcome.splits)

lemma dir_get_put_same: "dir_get (dir_put k x d) k = Some x"
proof -
  have "dir_get (ins_by c (k, x) ys) k = Some x" if "k \<notin> fst ` set ys" for c ys
    using that by (induction ys) (auto simp: dir_get_def)
  moreover have "k \<notin> fst ` set (dir_del k d)" by (auto simp: dir_del_def)
  ultimately show ?thesis by (simp add: dir_put_def)
qed

lemma save_tx_cases:
  assumes "save_tx env (s, v) = (r, x)"
  shows "snd x = v \<and> (case r of Inl e \<Rightarrow> payload_reason e = None
    | Inr u \<Rightarrow> \<exists>w. fst x = put_transaction (tv_transaction v) (s\<lparr>sy_world := w\<rparr>))"
  using assms unfolding save_tx_def writeCapacityTransaction_def
  by (auto simp: run_andthen run_simps run_outer the_tx_def dest: restricted_error restricted_ok split: prod.splits sum.splits)

lemma log_tx_cases:
  assumes "log_tx env type detail ts (s, v) = (r, x)"
  shows "r = Inr () \<and> snd x = v \<and> (\<exists>e. appendEventRecord env e s = (Inr (), fst x))"
  using assms unfolding log_tx_def appendCapacityEvent_def
  using appendEventRecord_Inr [of env "event_of type None (tx_actorType (tv_transaction v)) None (tx_projectId (tv_transaction v)) None detail ts" s]
  by (auto simp: run_andthen run_simps run_outer the_tx_def split: prod.splits)

lemma log_tx_transactions:
  assumes "log_tx env type detail ts (s, v) = (r, x)"
  shows "sy_transactions (fst x) = sy_transactions s \<and> snd x = v"
proof -
  from log_tx_cases [OF assms] obtain e where e: "appendEventRecord env e s = (Inr (), fst x)" "snd x = v" by blast
  have "lease_side (\<lambda>y. sy_transactions y = sy_transactions s)" by (simp add: lease_side_def of_files_def)
  from keepsD [OF keeps_side(7) [OF this] refl e(1)] e(2) show ?thesis by simp
qed

lemma delete_list_total: "\<exists>failed' s'. fold_eff (delete_or_note env) ads failed s = (Inr failed', s')"
proof (induction ads arbitrary: failed s)
  case (Cons ad ads)
  have "\<exists>x s1. delete_or_note env ad failed s = (Inr x, s1)"
    by (auto simp: delete_or_note_def run_andthen run_catching run_simps split: prod.splits sum.splits)
  with Cons show ?case by (fastforce simp: run_andthen)
qed (simp add: run_simps)

text \<open>Properties of the files that the steps keep, together with the commit flag.\<close>

definition with_flag :: "('w sys \<Rightarrow> bool) \<Rightarrow> bool \<Rightarrow> 'w tx_sys \<Rightarrow> bool" where
  "with_flag I c x \<longleftrightarrow> I (fst x) \<and> tv_committed (snd x) = c"

text \<open>Properties that survive a change of the transaction files, the audit log and the world.\<close>

definition tx_side :: "('w sys \<Rightarrow> bool) \<Rightarrow> bool" where
  "tx_side I \<longleftrightarrow> of_files I \<and> (\<forall>s x. I s \<longrightarrow> I (s\<lparr>sy_transactions := x\<rparr>)) \<and> (\<forall>s x. I s \<longrightarrow> I (s\<lparr>sy_events := x\<rparr>))
     \<and> (\<forall>s x. I s \<longrightarrow> I (s\<lparr>sy_auditFailures := x\<rparr>))"

lemma tx_sideD:
  assumes "tx_side I"
  shows "of_files I" "I s \<Longrightarrow> I (s\<lparr>sy_transactions := t\<rparr>)" "I s \<Longrightarrow> I (s\<lparr>sy_events := e\<rparr>)" "I s \<Longrightarrow> I (s\<lparr>sy_auditFailures := e\<rparr>)"
  using assms by (simp_all add: tx_side_def)

lemma tx_side_files [simp]: "tx_side (\<lambda>s. P (sy_host s) (sy_registry s) (sy_leases s) (sy_pins s) (sy_idle s))"
  by (simp add: tx_side_def of_files_def)

lemma keeps_flag_outer: "keeps I m \<Longrightarrow> keeps (with_flag I c) (outer m)"
  by (rule keeps_outer) (auto simp: with_flag_def keeps_def)

lemma keeps_flag_set: "keeps (with_flag I c) (set_tx f)"
  unfolding set_tx_def by (rule keeps_assign) (simp add: with_flag_def)

lemma keeps_tx_files:
  assumes "tx_side I"
  shows "keeps I (writeCapacityTransaction env t)" "keeps I (appendCapacityEvent env type t detail ts)"
    "keeps I (createCurrentDeviceIndex env)" "keeps I (lift m)" "keeps I readHostConfigOrThrow"
proof -
  note d = tx_sideD [OF assms]
  show "keeps I (writeCapacityTransaction env t)"
    unfolding writeCapacityTransaction_def by (intro keeps_rules d) (simp add: put_transaction_def d)
  show "keeps I (appendCapacityEvent env type t detail ts)" unfolding appendCapacityEvent_def by (intro keeps_rules d)
  show "keeps I (createCurrentDeviceIndex env)" unfolding createCurrentDeviceIndex_def by (intro keeps_struct keeps_rules d)
  show "keeps I (lift m)" "keeps I readHostConfigOrThrow" by (intro keeps_rules d)+
qed

lemma keeps_resolve: "tx_side I \<Longrightarrow> keeps I (resolvePlannedCapacityAdditions env t ts)"
  unfolding resolvePlannedCapacityAdditions_def by (intro keeps_struct keeps_tx_files)

lemma keeps_delete: "tx_side I \<Longrightarrow> keeps I (deleteCapacityDevice env i)"
  unfolding deleteCapacityDevice_def by (intro keeps_struct keeps_tx_files)

lemma keeps_delete_list: "tx_side I \<Longrightarrow> keeps I (fold_eff (delete_or_note env) ads failed)"
  unfolding delete_or_note_def by (intro keeps_fold keeps_struct keeps_delete)

lemma keeps_flag_save:
  assumes "tx_side I"
  shows "keeps (with_flag I c) (save_tx env)" "keeps (with_flag I c) (log_tx env type detail ts)"
  unfolding save_tx_def log_tx_def by (intro keeps_struct keeps_flag_outer keeps_tx_files assms)+

lemma keeps_capacity_rollback: "tx_side I \<Longrightarrow> keeps (with_flag I c) (rollbackCapacityTransaction env ts e)"
  unfolding rollbackCapacityTransaction_def
  by (intro keeps_struct keeps_flag_outer keeps_resolve keeps_delete_list keeps_flag_set keeps_flag_save)

lemma keeps_create_addition: "tx_side I \<Longrightarrow> keeps (with_flag I c) (create_addition env ts a)"
  unfolding create_addition_def Let_def capturePreCreateDeviceIds_def
  by (intro keeps_struct keeps_flag_outer keeps_tx_files keeps_flag_set keeps_flag_save)

lemma keeps_create_additions: "tx_side I \<Longrightarrow> keeps (with_flag I c) (create_additions env ts as)"
  by (induction "as") (auto intro!: keeps_struct keeps_create_addition)

lemma triple_also_keeps: "triple P m Q E \<Longrightarrow> keeps I m \<Longrightarrow> triple (\<lambda>w. P w \<and> I w) m (\<lambda>x w. Q x w \<and> I w) (\<lambda>e w. E e w \<and> I w)"
  by (fastforce simp: triple_def keeps_def split: prod.splits sum.splits)

lemma keeps_triple: "keeps I m \<Longrightarrow> triple I m (\<lambda>_. I) (\<lambda>_. I)"
  by (fastforce simp: triple_def keeps_def split: prod.splits sum.splits)

end
