(* ===== verification/Capacity_Rollback.thy ===== *)
theory Capacity_Rollback
  imports Capacity_Apply
begin

text \<open>
  The rollback of a capacity plan (\<open>rollbackCapacityTransaction\<close>) removes exactly the simulators that the
  plan created.  \<open>broker_simulators\<close> is what is asked of the environment: the laws of the adapter, and
  that files and ids do not touch simulators.
\<close>

section \<open>Simulators that the transaction creates\<close>

text \<open>The identity of a planned simulator, the ids a transaction knows.\<close>

definition identity :: "addition \<Rightarrow> string \<times> string \<times> string" where
  "identity ad = (ad_simulatorName ad, ad_deviceTypeIdentifier ad, ad_runtimeIdentifier ad)"

definition tx_ids :: "transaction \<Rightarrow> string set" where
  "tx_ids t = {i. i \<noteq> [] \<and> (\<exists>ad\<in>set (tx_additions t). ad_simulatorId ad = Some i)}"

definition without :: "string set \<Rightarrow> (string \<rightharpoonup> 'a) \<Rightarrow> string \<rightharpoonup> 'a" where
  "without A m = m |` (- A)"

lemma without_simps: "without {} m = m" "without A (without B m) = without (A \<union> B) m" "m(i := None) = without {i} m"
  by (auto simp: without_def restrict_map_def fun_eq_iff)

lemma index_udid: "(k, d) \<in> set (createDeviceIndex iv) \<Longrightarrow> di_udid d = k"
  by (auto simp: createDeviceIndex_def)

lemma map_values_index:
  "distinct (map di_udid (map_values (createDeviceIndex iv)))
    \<and> set (map_values (createDeviceIndex iv)) = {d. map_get (createDeviceIndex iv) (di_udid d) = Some d}"
proof -
  let ?ps = "createDeviceIndex iv"
  have k: "di_udid d = k" if "map_get ?ps k = Some d" for k d using map_get_SomeD [OF that] by (rule index_udid)
  have "map di_udid (List.map_filter (map_get ?ps) ks) = filter (\<lambda>k. map_get ?ps k \<noteq> None) ks" for ks
    by (induction ks) (auto simp: List.map_filter_simps k split: option.splits)
  then have "distinct (map di_udid (map_values ?ps))" by (simp add: map_values_def)
  moreover have "set (map_values ?ps) = {d. map_get ?ps (di_udid d) = Some d}"
    using k by (auto dest: map_values_in map_values_complete)
  ultimately show ?thesis by blast
qed

lemma new_matches_ids:
  "distinct (map di_udid (new_matches (createDeviceIndex iv) ad))
    \<and> di_udid ` set (new_matches (createDeviceIndex iv) ad) = {i. indexed_devices iv i = Some (identity ad) \<and> i \<notin> set (ad_preCreateDeviceIds ad)}"
proof -
  have "distinct (map di_udid (new_matches (createDeviceIndex iv) ad))"
    unfolding new_matches_def matchingPlannedCapacityDevices_def by (simp add: map_values_index distinct_map_filter)
  moreover have "di_udid ` set (new_matches (createDeviceIndex iv) ad) = {i. indexed_devices iv i = Some (identity ad) \<and> i \<notin> set (ad_preCreateDeviceIds ad)}"
    unfolding new_matches_def matchingPlannedCapacityDevices_def indexed_devices_def identity_def
    by (auto simp: map_values_index image_iff dest: map_get_SomeD index_udid)
  ultimately show ?thesis by blast
qed

text \<open>The operations of the broker on its files do not touch the simulators.\<close>

locale broker_simulators = simulators "en_simctl env" ok devs
  for env :: "'w env" and ok :: "'w \<Rightarrow> bool" and devs :: "'w \<Rightarrow> string \<rightharpoonup> string \<times> string \<times> string" +
  assumes io_devs: "ok w \<Longrightarrow> en_io env f w = (o', w') \<Longrightarrow> ok w' \<and> devs w' = devs w"
    and uuid_devs: "ok w \<Longrightarrow> en_uuid env w = (i, w') \<Longrightarrow> ok w' \<and> devs w' = devs w"
begin

definition devs_are :: "(string \<rightharpoonup> string \<times> string \<times> string) \<Rightarrow> 'w sys \<Rightarrow> bool" where
  "devs_are D s \<longleftrightarrow> ok (sy_world s) \<and> devs (sy_world s) = D"

lemma keeps_devs_io: "keeps (devs_are D) (ask (en_io env f))" "keeps (devs_are D) (ask (en_uuid env))"
  by (auto simp: keeps_def ask_def devs_are_def dest: io_devs uuid_devs split: prod.splits)

lemma keeps_devs_write: "(\<And>s. sy_world (put s) = sy_world s) \<Longrightarrow> keeps (devs_are D) (writeJsonAtomicRestricted env f put)"
  unfolding writeJsonAtomicRestricted_def
  by (intro keeps_andthen keeps_devs_io keeps_io_outcome keeps_update keeps_basic) (simp_all add: devs_are_def)

lemma keeps_devs_event: "keeps (devs_are D) (appendEventRecord env e)"
  unfolding appendEventRecord_def recordAuditAppendFailure_def Let_def
  by (intro keeps_andthen keeps_devs_io keeps_catching keeps_attempt keeps_devs_write) simp_all

lemma keeps_devs_transaction: "keeps (devs_are D) (writeCapacityTransaction env t)"
  unfolding writeCapacityTransaction_def by (intro keeps_devs_write) (simp add: put_transaction_def)

lemma keeps_devs_log: "keeps (devs_are D) (appendCapacityEvent env type t detail ts)"
  unfolding appendCapacityEvent_def by (rule keeps_devs_event)

lemma index_ok:
  assumes "devs_are D s" "createCurrentDeviceIndex env s = (r, s')"
  shows "devs_are D s'" "r = Inr idx \<Longrightarrow> \<exists>iv. idx = createDeviceIndex iv \<and> indexed_devices iv = D"
    "r = Inl e \<Longrightarrow> \<not> is_broker_error e"
  using assms unfolding createCurrentDeviceIndex_def devs_are_def
  by (auto simp: lift_def run_andthen run_simps dest: listed list_error split: prod.splits sum.splits)

lemma delete_device_ok:
  assumes "devs_are D s" "deleteCapacityDevice env i s = (r, s')"
  shows "\<exists>D'. devs_are D' s' \<and> (D' = D \<or> D' = D(i := None)) \<and> (r = Inr u \<longrightarrow> D' = D(i := None))"
proof -
  obtain z w1 where del: "sc_delete (en_simctl env) i (sy_world s) = (z, w1)" by fastforce
  let ?s1 = "s\<lparr>sy_world := w1\<rparr>"
  from assms(1) deleted [OF _ del] obtain D1 where D1: "devs_are D1 ?s1" "D1 = D \<or> D1 = D(i := None)"
    by (auto simp: devs_are_def)
  obtain y s2 where idx: "createCurrentDeviceIndex env ?s1 = (y, s2)" by fastforce
  note ix = index_ok [OF D1(1) idx]
  show ?thesis
  proof (cases z)
    case (Inl e)
    with assms(2) del D1 show ?thesis by (auto simp: deleteCapacityDevice_def run_andthen lift_def)
  next
    case (Inr v)
    with assms(2) del idx have s': "s' = s2" "r = Inr u \<longrightarrow> (\<exists>x. y = Inr x \<and> map_get x i = None)"
      by (auto simp: deleteCapacityDevice_def run_andthen run_simps lift_def split: sum.splits if_splits)
    have "D1 i = None" if "y = Inr x" "map_get x i = None" for x
      using ix(2) [OF that(1)] that(2) by (auto simp: indexed_devices_def)
    with s' ix(1) D1(2) show ?thesis by fastforce
  qed
qed

lemma delete_list_ok:
  assumes "devs_are D s" "fold_eff (delete_or_note env) ads failed s = (Inr failed', s')"
  shows "\<exists>D'. devs_are D' s' \<and> (failed' = [] \<longrightarrow> failed = [] \<and> D' = without ((\<lambda>ad. nullish (ad_simulatorId ad) []) ` set ads) D)"
  using assms
proof (induction ads arbitrary: D s failed)
  case Nil
  then show ?case by (auto simp: run_simps without_simps)
next
  case (Cons ad ads)
  let ?i = "nullish (ad_simulatorId ad) []"
  obtain r s1 where del: "deleteCapacityDevice env ?i s = (r, s1)" by fastforce
  from delete_device_ok [OF Cons.prems(1) this] obtain D1 where D1: "devs_are D1 s1" "r = Inr () \<longrightarrow> D1 = D(?i := None)" by blast
  have "delete_or_note env ad failed s = (Inr (case r of Inr _ \<Rightarrow> failed | Inl e \<Rightarrow> failed @ [(ad_actionId ad, err_message e)]), s1)"
    using del by (cases r) (simp_all add: delete_or_note_def run_andthen run_catching run_simps)
  with Cons.prems(2) have "fold_eff (delete_or_note env) ads (case r of Inr _ \<Rightarrow> failed | Inl e \<Rightarrow> failed @ [(ad_actionId ad, err_message e)]) s1 = (Inr failed', s')"
    by (simp add: run_andthen)
  from Cons.IH [OF D1(1) this] D1(2) show ?case
    by (cases r) (auto simp: without_simps insert_commute)
qed

lemma resolve_ok:
  assumes "devs_are D s" "resolvePlannedCapacityAdditions env t ts s = (r, s')"
  shows "devs_are D s'" "r = Inl e \<Longrightarrow> \<not> is_broker_error e"
    "r = Inr rs \<Longrightarrow> \<exists>idx. rs_additions rs = map (resolve_addition idx ts) (tx_additions t) \<and> (rs_changed rs \<or> rs_additions rs = tx_additions t)
      \<and> (\<forall>ad\<in>set (tx_additions t). needs_resolution ad \<longrightarrow>
          distinct (map di_udid (new_matches idx ad)) \<and> di_udid ` set (new_matches idx ad) = {i. D i = Some (identity ad) \<and> i \<notin> set (ad_preCreateDeviceIds ad)})
      \<and> (rs_ambiguous rs = [] \<longrightarrow> (\<forall>ad\<in>set (tx_additions t). needs_resolution ad \<longrightarrow> length (new_matches idx ad) \<le> 1))"
proof -
  let ?adds = "tx_additions t"
  obtain q s1 where idx: "createCurrentDeviceIndex env s = (q, s1)" by fastforce
  note ix = index_ok [OF assms(1) idx]
  show "devs_are D s'" "r = Inl e \<Longrightarrow> \<not> is_broker_error e"
    using assms idx ix by (auto simp: resolvePlannedCapacityAdditions_def run_andthen run_simps split: if_splits sum.splits)
  assume r: "r = Inr rs"
  show "\<exists>idx. rs_additions rs = map (resolve_addition idx ts) ?adds \<and> (rs_changed rs \<or> rs_additions rs = ?adds)
      \<and> (\<forall>ad\<in>set ?adds. needs_resolution ad \<longrightarrow>
          distinct (map di_udid (new_matches idx ad)) \<and> di_udid ` set (new_matches idx ad) = {i. D i = Some (identity ad) \<and> i \<notin> set (ad_preCreateDeviceIds ad)})
      \<and> (rs_ambiguous rs = [] \<longrightarrow> (\<forall>ad\<in>set ?adds. needs_resolution ad \<longrightarrow> length (new_matches idx ad) \<le> 1))"
  proof (cases "list_ex needs_resolution ?adds")
    case False
    with assms(2) r have rs: "rs = \<lparr>rs_additions = ?adds, rs_ambiguous = [], rs_changed = False\<rparr>"
      by (simp add: resolvePlannedCapacityAdditions_def run_simps)
    from False have no: "\<not> needs_resolution ad" if "ad \<in> set ?adds" for ad using that by (auto simp: list_ex_iff)
    then have "map (resolve_addition [] ts) ?adds = ?adds" by (auto intro: map_idI simp: resolve_addition_def)
    with no rs show ?thesis by (intro exI [of _ "[]"]) auto
  next
    case True
    with assms(2) r idx obtain idx0 where q: "q = Inr idx0" and rs: "rs =
        \<lparr>rs_additions = map (resolve_addition idx0 ts) ?adds,
         rs_ambiguous = filter (\<lambda>ad. needs_resolution ad \<and> 1 < length (new_matches idx0 ad)) ?adds,
         rs_changed = list_ex (\<lambda>ad. needs_resolution ad \<and> length (new_matches idx0 ad) = 1) ?adds\<rparr>"
      by (auto simp: resolvePlannedCapacityAdditions_def run_andthen run_simps split: sum.splits)
    from ix(2) [OF q] obtain iv where iv: "idx0 = createDeviceIndex iv" "indexed_devices iv = D" by blast
    have "map (resolve_addition idx0 ts) ?adds = ?adds" if "\<not> rs_changed rs"
      using that unfolding rs by (intro map_idI) (auto simp: resolve_addition_def list_ex_iff split: list.splits)
    then show ?thesis using new_matches_ids [of iv] iv by (intro exI [of _ idx0]) (auto simp: rs filter_empty_conv not_less)
  qed
qed

text \<open>What is known of the simulators while a transaction creates them: each one that was not there before
  has its id in the transaction, or is the one that the last addition asked for.\<close>

definition planned :: "(string \<rightharpoonup> string \<times> string \<times> string) \<Rightarrow> transaction \<Rightarrow> bool" where
  "planned D t \<longleftrightarrow> (\<forall>i\<in>tx_ids t. D i = None)
    \<and> (\<forall>ad\<in>set (tx_additions t). ad_simulatorName ad \<noteq> [] \<and> ad_deviceTypeIdentifier ad \<noteq> [] \<and> ad_runtimeIdentifier ad \<noteq> [] \<and> Some (identity ad) \<notin> range D)"

definition awaited :: "(string \<rightharpoonup> string \<times> string \<times> string) \<Rightarrow> transaction \<Rightarrow> string \<Rightarrow> bool" where
  "awaited D t i \<longleftrightarrow> (\<exists>ad\<in>set (tx_additions t). needs_resolution ad \<and> D i = Some (identity ad) \<and> i \<notin> set (ad_preCreateDeviceIds ad))"

definition settled :: "(string \<rightharpoonup> string \<times> string \<times> string) \<Rightarrow> 'w tx_sys \<Rightarrow> bool" where
  "settled D x \<longleftrightarrow> (\<exists>D'. devs_are D' (fst x) \<and> planned D (the_tx x) \<and> (\<forall>i. D' i \<noteq> D i \<longrightarrow> D i = None \<and> i \<in> tx_ids (the_tx x)))"

definition covered :: "(string \<rightharpoonup> string \<times> string \<times> string) \<Rightarrow> 'w tx_sys \<Rightarrow> bool" where
  "covered D x \<longleftrightarrow> (\<exists>D'. devs_are D' (fst x) \<and> planned D (the_tx x)
     \<and> (\<forall>i. D' i \<noteq> D i \<longrightarrow> D i = None \<and> i \<noteq> [] \<and> (i \<in> tx_ids (the_tx x) \<or> awaited D' (the_tx x) i)))"

lemma settled_covered: "settled D x \<Longrightarrow> covered D x"
  unfolding settled_def covered_def tx_ids_def by blast

text \<open>Deleting what a covered transaction finds leaves the simulators that were there before.\<close>

lemma found_ids:
  assumes "planned D t" "\<And>i. D' i \<noteq> D i \<Longrightarrow> D i = None \<and> i \<noteq> [] \<and> (i \<in> tx_ids t \<or> awaited D' t i)"
    and "\<And>ad. ad \<in> set (tx_additions t) \<Longrightarrow> needs_resolution ad \<Longrightarrow> distinct (map di_udid (new_matches idx ad))
          \<and> di_udid ` set (new_matches idx ad) = {i. D' i = Some (identity ad) \<and> i \<notin> set (ad_preCreateDeviceIds ad)}"
    and "\<And>ad. ad \<in> set (tx_additions t) \<Longrightarrow> needs_resolution ad \<Longrightarrow> length (new_matches idx ad) \<le> 1"
  shows "without (tx_ids (t\<lparr>tx_additions := map (resolve_addition idx ts) (tx_additions t)\<rparr>)) D' = D"
proof
  fix i
  let ?t = "t\<lparr>tx_additions := map (resolve_addition idx ts) (tx_additions t)\<rparr>"
  have new: "D j = None" if "ad \<in> set (tx_additions t)" "ad_simulatorId (resolve_addition idx ts ad) = Some j" "j \<noteq> []" for ad j
  proof (cases "needs_resolution ad \<and> ad_simulatorId ad \<noteq> Some j")
    case True
    with that obtain d where "new_matches idx ad = [d]" "di_udid d = j"
      by (auto simp: resolve_addition_def split: list.splits)
    with assms(3) [OF that(1)] True have "D' j = Some (identity ad)" by auto
    with assms(1) that(1) have "D' j \<noteq> D j" unfolding planned_def by (metis rangeI)
    then show ?thesis using assms(2) by blast
  next
    case False
    with that have "j \<in> tx_ids t" by (auto simp: resolve_addition_def tx_ids_def split: if_splits)
    with assms(1) show ?thesis by (auto simp: planned_def)
  qed
  have old: "tx_ids t \<subseteq> tx_ids ?t"
    by (force simp: tx_ids_def resolve_addition_def needs_resolution_def given_def split: option.splits)
  show "without (tx_ids ?t) D' i = D i"
  proof (cases "i \<in> tx_ids ?t")
    case True
    with new show ?thesis by (auto simp: tx_ids_def without_def)
  next
    case False
    have "D' i = D i"
    proof (rule ccontr)
      assume "D' i \<noteq> D i"
      with assms(2) False old obtain ad where ad: "ad \<in> set (tx_additions t)" "needs_resolution ad" "D' i = Some (identity ad)"
        "i \<notin> set (ad_preCreateDeviceIds ad)" "i \<noteq> []" by (auto simp: awaited_def)
      with assms(3) [OF ad(1,2)] have "i \<in> di_udid ` set (new_matches idx ad)" by simp
      with assms(4) [OF ad(1,2)] obtain d where "new_matches idx ad = [d]" "di_udid d = i"
        by (cases "new_matches idx ad") auto
      with ad have "ad_simulatorId (resolve_addition idx ts ad) = Some i" by (simp add: resolve_addition_def)
      with ad False show False by (auto simp: tx_ids_def)
    qed
    with False show ?thesis by (simp add: without_def)
  qed
qed

lemma log_tx_devs: "log_tx env type detail ts (s, v) = (r, x) \<Longrightarrow> devs_are D s \<Longrightarrow> devs_are D (fst x)"
  using log_tx_cases keepsD [OF keeps_devs_event] by metis

lemma save_tx_devs: "save_tx env (s, v) = (r, x) \<Longrightarrow> devs_are D s \<Longrightarrow> devs_are D (fst x)"
  using keepsD [OF keeps_devs_transaction, of D s "tv_transaction v"]
  by (auto simp: save_tx_def run_andthen run_simps run_outer the_tx_def split: prod.splits)

lemma created_ids: "{} \<union> (\<lambda>ad. nullish (ad_simulatorId ad) []) ` set (created_additions t) = tx_ids t"
  by (force simp: created_additions_def tx_ids_def given_def split: option.splits if_splits)

lemma rollback_devs:
  assumes "covered D (s, v)" "rollbackCapacityTransaction env ts e0 (s, v) = (Inl e :: berr + 'b, x)"
    and "payload_reason e = Some ''capacity-reconcile-rolled-back''"
  shows "devs_are D (fst x) \<and> (\<exists>t. dir_get (sy_transactions (fst x)) (tx_name t) = Some t \<and> tx_status t = Tx_rolled_back)"
proof -
  from assms(1) obtain D' where D': "devs_are D' s" "planned D (tv_transaction v)"
    "\<And>i. D' i \<noteq> D i \<Longrightarrow> D i = None \<and> i \<noteq> [] \<and> (i \<in> tx_ids (tv_transaction v) \<or> awaited D' (tv_transaction v) i)"
    by (auto simp: covered_def the_tx_def)
  let ?t = "tv_transaction v"
  obtain r s1 where res: "resolvePlannedCapacityAdditions env ?t ts s = (r, s1)" by fastforce
  note ro = resolve_ok [OF D'(1) res]
  show ?thesis
  proof (cases r)
    case (Inl e1)
    with assms(2,3) res ro(2) [of e1] show ?thesis
      by (auto simp: rollbackCapacityTransaction_def run_andthen run_simps run_outer the_tx_def host_error_reason)
  next
    case (Inr rs)
    from ro(3) [OF this] obtain idx where idx: "rs_additions rs = map (resolve_addition idx ts) (tx_additions ?t)"
      "rs_changed rs \<or> rs_additions rs = tx_additions ?t"
      "\<And>ad. ad \<in> set (tx_additions ?t) \<Longrightarrow> needs_resolution ad \<Longrightarrow> distinct (map di_udid (new_matches idx ad))
          \<and> di_udid ` set (new_matches idx ad) = {i. D' i = Some (identity ad) \<and> i \<notin> set (ad_preCreateDeviceIds ad)}"
      "rs_ambiguous rs = [] \<Longrightarrow> (\<forall>ad\<in>set (tx_additions ?t). needs_resolution ad \<longrightarrow> length (new_matches idx ad) \<le> 1)" by blast
    let ?t1 = "?t\<lparr>tx_additions := map (resolve_addition idx ts) (tx_additions ?t)\<rparr>" and ?v1 = "v\<lparr>tv_transaction := ?t\<lparr>tx_additions := map (resolve_addition idx ts) (tx_additions ?t)\<rparr>\<rparr>"
    have upd: "unless (\<not> rs_changed rs) (set_tx (\<lambda>t. t\<lparr>tx_additions := rs_additions rs\<rparr>)) (s1, v) = (Inr (), s1, ?v1)"
      using idx(1,2) by (auto simp: unless_def set_tx_def run_assign run_simps)
    obtain failed s2 where del: "fold_eff (delete_or_note env) (created_additions ?t1) (map ambiguity (rs_ambiguous rs)) s1 = (Inr failed, s2)"
      using delete_list_total by blast
    from delete_list_ok [OF ro(1) del] obtain D2 where D2: "devs_are D2 s2"
      "failed = [] \<longrightarrow> rs_ambiguous rs = [] \<and> D2 = without (tx_ids ?t1) D'"
      unfolding created_ids [of ?t1, simplified, symmetric] by auto
    show ?thesis
    proof (cases "failed = []")
      case False
      with assms(2,3) res Inr upd del show ?thesis
        by (auto simp: rollbackCapacityTransaction_def run_andthen run_simps run_outer the_tx_def set_tx_def run_assign rollback_incomplete_def
            dest!: save_tx_cases log_tx_cases split: prod.splits sum.splits)
    next
      case True
      with D2(2) idx have "D2 = D" using found_ids [OF D'(2,3) idx(3), of ts] by simp
      with D2(1) have s2: "devs_are D s2" by simp
      let ?v2 = "?v1\<lparr>tv_transaction := ?t1\<lparr>tx_rollbackState := Some ''rolled_back'', tx_status := Tx_rolled_back, tx_updatedAt := ts\<rparr>\<rparr>"
      let ?why = "[nullish (payload_reason e0) ''capacity-reconcile-failed'']"
      have "andthen (save_tx env) (\<lambda>_. andthen (log_tx env ''capacity.reconcile.rolled_back'' ?why ts) (\<lambda>_. throw (rolled_back (err_message e0))))
          (s2, ?v2) = (Inl e :: berr + 'b, x)"
        using assms(2) res Inr upd del True
        by (simp add: rollbackCapacityTransaction_def run_andthen run_simps run_outer the_tx_def set_tx_def run_assign)
      then obtain u x1 where saved: "save_tx env (s2, ?v2) = (Inr u, x1)"
        and rest: "andthen (log_tx env ''capacity.reconcile.rolled_back'' ?why ts) (\<lambda>_. throw (rolled_back (err_message e0))) x1 = (Inl e :: berr + 'b, x)"
        by (rule andthen_InlE) (use assms(3) in \<open>auto dest!: save_tx_cases\<close>)
      obtain s3 v3 where x1: "x1 = (s3, v3)" by fastforce
      from saved save_tx_devs [OF saved s2] save_tx_cases [OF saved] have s3: "devs_are D s3"
        "dir_get (sy_transactions s3) (tx_name (tv_transaction ?v2)) = Some (tv_transaction ?v2)"
        by (auto simp: x1 put_transaction_def dir_get_put_same)
      from rest x1 obtain r4 where log: "log_tx env ''capacity.reconcile.rolled_back'' ?why ts (s3, v3) = (r4, x)"
        by (auto simp: run_andthen run_simps split: prod.splits sum.splits)
      from log_tx_transactions [OF log] have "sy_transactions (fst x) = sy_transactions s3" by blast
      with s3 log_tx_devs [OF log s3(1)] show ?thesis by (intro conjI exI [of _ "tv_transaction ?v2"]) auto
    qed
  qed
qed

text \<open>The last addition, while its simulator is created.\<close>

definition ready :: "(string \<rightharpoonup> string \<times> string \<times> string) \<Rightarrow> addition \<Rightarrow> 'w tx_sys \<Rightarrow> bool" where
  "ready D ad x \<longleftrightarrow> settled D x \<and> (\<exists>as. tx_additions (the_tx x) = as @ [ad]) \<and> ad_simulatorId ad = None
     \<and> set (ad_preCreateDeviceIds ad) \<subseteq> dom (devs (sy_world (fst x)))"

definition made :: "(string \<rightharpoonup> string \<times> string \<times> string) \<Rightarrow> addition \<Rightarrow> string \<Rightarrow> 'w tx_sys \<Rightarrow> bool" where
  "made D ad i x \<longleftrightarrow> (\<exists>D' as. devs_are (D'(i \<mapsto> identity ad)) (fst x) \<and> planned D (the_tx x) \<and> i \<noteq> [] \<and> D' i = None
     \<and> (\<forall>j. D' j \<noteq> D j \<longrightarrow> D j = None \<and> j \<in> tx_ids (the_tx x)) \<and> tx_additions (the_tx x) = as @ [ad] \<and> ad_simulatorId ad = None)"

lemma map_last_snoc [simp]: "map_last f (xs @ [x]) = xs @ [f x]"
  by (induction f xs rule: map_last.induct) auto

lemma the_tx_Pair [simp]: "the_tx (s, v) = tv_transaction v"
  by (simp add: the_tx_def)

lemma tx_ids_snoc: "tx_additions t = as @ [ad] \<Longrightarrow> tx_ids (t'\<lparr>tx_additions := as @ [ad']\<rparr>) =
    tx_ids (t\<lparr>tx_additions := as\<rparr>) \<union> {i. i \<noteq> [] \<and> ad_simulatorId ad' = Some i}"
  by (auto simp: tx_ids_def)

lemma set_tx_triple: "(\<And>s v. P (s, v) \<Longrightarrow> Q () (s, v\<lparr>tv_transaction := f (tv_transaction v)\<rparr>)) \<Longrightarrow> triple P (set_tx f) Q E"
  by (auto simp: triple_def set_tx_def run_assign)

lemma save_tx_triple:
  assumes "\<And>s v s' D. P (s, v) \<Longrightarrow> devs_are D s \<Longrightarrow> devs_are D s' \<Longrightarrow> P (s', v)" "\<And>s v. P (s, v) \<Longrightarrow> \<exists>D. devs_are D s"
  shows "triple P (save_tx env) (\<lambda>_. P) (\<lambda>_. P)"
proof -
  have "P (s', v')" if P: "P (s, v)" and run: "save_tx env (s, v) = (r, s', v')" for s v r s' v'
  proof -
    from assms(2) [OF P] obtain D where D: "devs_are D s" ..
    from save_tx_devs [OF run D] have "devs_are D s'" by simp
    with assms(1) [OF P D] save_tx_cases [OF run] show ?thesis by simp
  qed
  then show ?thesis by (auto simp: triple_def split: sum.splits prod.splits)
qed

lemma devs_are_cong: "settled D (s, v) \<Longrightarrow> devs_are D' s \<Longrightarrow> devs_are D' s' \<Longrightarrow> settled D (s', v)"
  "ready D ad (s, v) \<Longrightarrow> devs_are D' s \<Longrightarrow> devs_are D' s' \<Longrightarrow> ready D ad (s', v)"
  by (auto simp: settled_def ready_def devs_are_def)

lemma settled_devs: "settled D x \<Longrightarrow> \<exists>D'. devs_are D' (fst x)" "ready D ad x \<Longrightarrow> \<exists>D'. devs_are D' (fst x)"
  by (auto simp: settled_def ready_def)

definition fresh_action :: "(string \<rightharpoonup> string \<times> string \<times> string) \<Rightarrow> plan_action \<Rightarrow> bool" where
  "fresh_action D a \<longleftrightarrow> an_simulatorName a \<noteq> [] \<and> an_deviceTypeIdentifier a \<noteq> [] \<and> an_runtimeIdentifier a \<noteq> []
     \<and> Some (an_simulatorName a, an_deviceTypeIdentifier a, an_runtimeIdentifier a) \<notin> range D"

lemma push_triple:
  assumes "fresh_action D a"
  shows "triple (settled D) (set_tx (\<lambda>t. t\<lparr>tx_additions := tx_additions t @ [createPlannedCapacityAddition a], tx_status := Tx_creating,
      tx_updatedAt := ts\<rparr>)) (\<lambda>_. ready D (createPlannedCapacityAddition a)) E"
  using assms by (intro set_tx_triple)
    (auto simp: settled_def ready_def planned_def tx_ids_def fresh_action_def createPlannedCapacityAddition_def identity_def)

lemma capture_triple:
  "triple (ready D ad) (outer (capturePreCreateDeviceIds env ad)) (\<lambda>ids. ready D (ad\<lparr>ad_preCreateDeviceIds := ids\<rparr>) \<circ> (\<lambda>(s, v).
      (s, v\<lparr>tv_transaction := set_last (\<lambda>ad. ad\<lparr>ad_preCreateDeviceIds := ids\<rparr>) (tv_transaction v)\<rparr>))) (\<lambda>_. covered D)"
proof -
  have "ready D (ad\<lparr>ad_preCreateDeviceIds := ids\<rparr>) (s', v\<lparr>tv_transaction := set_last (\<lambda>ad. ad\<lparr>ad_preCreateDeviceIds := ids\<rparr>) (tv_transaction v)\<rparr>)"
    if r: "ready D ad (s, v)" and cap: "capturePreCreateDeviceIds env ad s = (Inr ids, s')" for s v ids s'
  proof -
    from settled_devs(2) [OF r] obtain D' where D': "devs_are D' s" by auto
    from cap obtain idx where idx: "createCurrentDeviceIndex env s = (Inr idx, s')" "ids = sort_strings (map di_udid (matchingPlannedCapacityDevices idx ad))"
      unfolding capturePreCreateDeviceIds_def by (elim andthen_InrE) (auto simp: run_simps)
    from index_ok(1,2) [OF D' idx(1)] obtain iv where iv: "devs_are D' s'" "idx = createDeviceIndex iv" "indexed_devices iv = D'" by blast
    have "set ids \<subseteq> dom D'" unfolding idx(2) iv(2) iv(3) [symmetric] indexed_devices_def matchingPlannedCapacityDevices_def
      by (auto simp: map_values_index)
    moreover have r': "ready D ad (s', v)" by (rule devs_are_cong(2) [OF r D' iv(1)])
    then obtain as where as: "tx_additions (tv_transaction v) = as @ [ad]" "ad_simulatorId ad = None" "settled D (s', v)"
      by (auto simp: ready_def)
    let ?t = "set_last (\<lambda>ad. ad\<lparr>ad_preCreateDeviceIds := ids\<rparr>) (tv_transaction v)"
    have t: "tx_additions ?t = as @ [ad\<lparr>ad_preCreateDeviceIds := ids\<rparr>]" using as(1) by (simp add: set_last_def)
    then have "tx_ids ?t = tx_ids (tv_transaction v)" using as(1,2) by (auto simp: tx_ids_def)
    moreover from this as(1,3) have "planned D ?t" by (auto simp: settled_def planned_def t identity_def)
    ultimately have "settled D (s', v\<lparr>tv_transaction := ?t\<rparr>)" using as(3) by (auto simp: settled_def)
    with t as(2) iv(1) \<open>set ids \<subseteq> dom D'\<close> show ?thesis by (auto simp: ready_def devs_are_def)
  qed
  moreover have "covered D (s', v)" if r: "ready D ad (s, v)" and cap: "capturePreCreateDeviceIds env ad s = (Inl e, s')" for s v e s'
  proof -
    from settled_devs(2) [OF r] obtain D' where D': "devs_are D' s" by auto
    from cap obtain q where "createCurrentDeviceIndex env s = (q, s')"
      unfolding capturePreCreateDeviceIds_def by (auto simp: run_andthen run_simps split: prod.splits sum.splits)
    from index_ok(1) [OF D' this] devs_are_cong(2) [OF r D'] have "settled D (s', v)" by (simp add: ready_def)
    then show ?thesis by (rule settled_covered)
  qed
  ultimately show ?thesis by (auto simp: triple_def run_outer split: sum.splits prod.splits)
qed

lemma create_triple:
  assumes "needs_resolution ad"
  shows "triple (ready D ad) (outer (lift (sc_create (en_simctl env) (ad_simulatorName ad) (ad_deviceTypeIdentifier ad) (ad_runtimeIdentifier ad))))
    (made D ad) (\<lambda>_. covered D)"
proof -
  let ?m = "sc_create (en_simctl env) (ad_simulatorName ad) (ad_deviceTypeIdentifier ad) (ad_runtimeIdentifier ad)"
  have "made D ad i (s\<lparr>sy_world := w\<rparr>, v)" if "ready D ad (s, v)" "?m (sy_world s) = (Inr i, w)" for s v i w
    using that created [OF _ that(2)] by (auto simp: ready_def settled_def made_def devs_are_def identity_def)
  moreover have "covered D (s\<lparr>sy_world := w\<rparr>, v)" if r: "ready D ad (s, v)" and c: "?m (sy_world s) = (Inl e, w)" for s v e w
  proof -
    from r obtain as where as: "tx_additions (tv_transaction v) = as @ [ad]" "ok (sy_world s)" by (auto simp: ready_def settled_def devs_are_def)
    from create_failed [OF as(2) c] consider "devs w = devs (sy_world s)"
      | i where "i \<noteq> []" "devs (sy_world s) i = None" "devs w = (devs (sy_world s))(i \<mapsto> identity ad)" by (auto simp: identity_def)
    then show ?thesis
    proof cases
      case 1
      with create_failed [OF as(2) c] r have "settled D (s\<lparr>sy_world := w\<rparr>, v)" by (auto simp: ready_def settled_def devs_are_def)
      then show ?thesis by (rule settled_covered)
    next
      case 2
      from r 2(2) have "i \<notin> set (ad_preCreateDeviceIds ad)" by (auto simp: ready_def)
      with 2 assms as have "awaited (devs w) (tv_transaction v) i" by (auto simp: awaited_def)
      moreover from r have old: "planned D (tv_transaction v)"
        "\<And>j. devs (sy_world s) j \<noteq> D j \<Longrightarrow> D j = None \<and> j \<in> tx_ids (tv_transaction v)"
        by (auto simp: ready_def settled_def devs_are_def)
      moreover have "D i = None" using old(2) [of i] 2(2) by fastforce
      moreover have "ok w" using create_failed [OF as(2) c] by blast
      ultimately show ?thesis using 2(1) unfolding covered_def
        by (intro exI [of _ "devs w"]) (auto simp: devs_are_def 2(3) tx_ids_def)
    qed
  qed
  ultimately show ?thesis by (auto simp: triple_def run_outer lift_def split: sum.splits prod.splits)
qed

lemma id_triple:
  "triple (made D ad i) (set_tx (\<lambda>t. (set_last (\<lambda>ad. ad\<lparr>ad_simulatorId := Some i\<rparr>) t)\<lparr>tx_updatedAt := ts\<rparr>)) (\<lambda>_. settled D) E"
proof (rule set_tx_triple)
  fix s :: "'w sys" and v
  assume "made D ad i (s, v)"
  then obtain D' as where m: "devs_are (D'(i \<mapsto> identity ad)) s" "planned D (tv_transaction v)" "i \<noteq> []" "D' i = None"
    "\<And>j. D' j \<noteq> D j \<Longrightarrow> D j = None \<and> j \<in> tx_ids (tv_transaction v)" "tx_additions (tv_transaction v) = as @ [ad]" "ad_simulatorId ad = None"
    by (auto simp: made_def)
  let ?t = "(set_last (\<lambda>ad. ad\<lparr>ad_simulatorId := Some i\<rparr>) (tv_transaction v))\<lparr>tx_updatedAt := ts\<rparr>"
  have ids: "tx_ids ?t = insert i (tx_ids (tv_transaction v))" using m(3,6,7) by (auto simp: tx_ids_def set_last_def)
  have "D i = None" using m(4) m(5) [of i] by fastforce
  then have "planned D ?t" using m(2,6) by (auto simp: planned_def ids) (auto simp: set_last_def identity_def)
  with m(1,5) ids \<open>D i = None\<close> show "settled D (s, v\<lparr>tv_transaction := ?t\<rparr>)"
    unfolding settled_def by (intro exI [of _ "D'(i \<mapsto> identity ad)"]) auto
qed

lemma save_settled: "triple (settled D) (save_tx env) (\<lambda>_. settled D) (\<lambda>_. covered D)"
  by (rule triple_weaken [OF save_tx_triple [where P = "settled D"]]) (use settled_devs(1) in \<open>fastforce intro: devs_are_cong settled_covered\<close>)+

lemma save_ready: "triple (ready D ad) (save_tx env) (\<lambda>_. ready D ad) (\<lambda>_. covered D)"
  by (rule triple_weaken [OF save_tx_triple [where P = "ready D ad"]])
    (use settled_devs(2) in \<open>fastforce intro: devs_are_cong settled_covered simp: ready_def [of D ad, THEN iffD1]\<close>)+

lemma create_addition_triple:
  assumes "fresh_action D a"
  shows "triple (settled D) (create_addition env ts a) (\<lambda>_. settled D) (\<lambda>_. covered D)"
  unfolding create_addition_def Let_def
proof (rule triple_andthen [OF push_triple [OF assms]], rule triple_andthen [OF capture_triple])
  fix ids
  let ?ad = "createPlannedCapacityAddition a\<lparr>ad_preCreateDeviceIds := ids\<rparr>"
  have create: "triple (ready D ?ad) (outer (lift (sc_create (en_simctl env) (an_simulatorName a) (an_deviceTypeIdentifier a) (an_runtimeIdentifier a))))
      (made D ?ad) (\<lambda>_. covered D)"
    using create_triple [of ?ad D] assms by (simp add: createPlannedCapacityAddition_def needs_resolution_def given_def fresh_action_def)
  show "triple (ready D ?ad \<circ> (\<lambda>(s, v). (s, v\<lparr>tv_transaction := set_last (\<lambda>ad. ad\<lparr>ad_preCreateDeviceIds := ids\<rparr>) (tv_transaction v)\<rparr>)))
      (andthen (set_tx (set_last (\<lambda>ad. ad\<lparr>ad_preCreateDeviceIds := ids\<rparr>))) (\<lambda>_. andthen (save_tx env) (\<lambda>_.
       andthen (outer (lift (sc_create (en_simctl env) (an_simulatorName a) (an_deviceTypeIdentifier a) (an_runtimeIdentifier a)))) (\<lambda>i.
       andthen (set_tx (\<lambda>t. (set_last (\<lambda>ad. ad\<lparr>ad_simulatorId := Some i\<rparr>) t)\<lparr>tx_updatedAt := ts\<rparr>)) (\<lambda>_. save_tx env)))))
      (\<lambda>_. settled D) (\<lambda>_. covered D)"
    by (rule triple_andthen [where R = "\<lambda>_. ready D ?ad"], rule set_tx_triple, simp)
      (intro triple_andthen [OF save_ready] triple_andthen [OF create] triple_andthen [OF id_triple] save_settled)
qed

lemma create_additions_triple:
  "list_all (fresh_action D) as \<Longrightarrow> triple (settled D) (create_additions env ts as) (\<lambda>_. settled D) (\<lambda>_. covered D)"
proof (induction "as")
  case Nil
  then show ?case by (simp add: triple_ret)
next
  case (Cons a as)
  then show ?case unfolding create_additions.simps
    by (intro triple_andthen [OF create_addition_triple]) simp_all
qed

text \<open>Until the commit the configuration is as it was and the transaction covers the simulators.\<close>

definition uncommitted :: "(string \<rightharpoonup> string \<times> string \<times> string) \<Rightarrow> js option \<Rightarrow> 'w tx_sys \<Rightarrow> bool" where
  "uncommitted D h x \<longleftrightarrow> covered D x \<and> with_flag (\<lambda>s. sy_host s = h) False x"

lemma commit_triple:
  "triple (\<lambda>x. settled D x \<and> with_flag (\<lambda>s. sy_host s = h) False x) (commit_config env hc)
     (\<lambda>_. with_flag (\<lambda>_. True) True) (\<lambda>_ x. with_flag (\<lambda>_. True) True x \<or> uncommitted D h x)"
proof -
  have "settled D (s\<lparr>sy_world := w\<rparr>, v\<lparr>tv_committed := b\<rparr>)" if "settled D (s, v)" "en_io env f (sy_world s) = (o', w)" for s v f o' w b
    using that by (auto simp: settled_def devs_are_def dest: io_devs)
  then show ?thesis
    unfolding triple_def commit_config_def writeJsonAtomicDurable_def uncommitted_def
    by (auto simp: run_andthen run_simps run_outer run_assign ask_def with_flag_def intro: settled_covered
        split: prod.splits io_outcome.splits durable.splits)
qed

lemma apply_steps_triple:
  assumes "list_all (fresh_action D) (cl_actions plan)"
  shows "triple (\<lambda>x. settled D x \<and> with_flag (\<lambda>s. sy_host s = h) False x) (apply_steps env opts plan ts)
     (\<lambda>_ _. True) (\<lambda>_ x. with_flag (\<lambda>_. True) True x \<or> uncommitted D h x)"
  unfolding apply_steps_def
proof (rule triple_andthen)
  let ?P = "\<lambda>x. settled D x \<and> with_flag (\<lambda>s. sy_host s = h) False x"
  show "triple ?P (create_additions env ts (cl_actions plan)) (\<lambda>_. ?P) (\<lambda>_ x. with_flag (\<lambda>_. True) True x \<or> uncommitted D h x)"
    by (rule triple_weaken [OF triple_also_keeps [OF create_additions_triple [OF assms] keeps_create_additions]])
      (auto simp: uncommitted_def tx_side_def of_files_def)
  have read: "triple ?P (outer readHostConfigOrThrow) (\<lambda>_. ?P) (\<lambda>_ x. with_flag (\<lambda>_. True) True x \<or> uncommitted D h x)"
    unfolding triple_def uncommitted_def
    by (auto simp: run_outer readHostConfigOrThrow_def run_simps intro: settled_covered split: prod.splits sum.splits option.splits)
  have "keeps (with_flag (\<lambda>_. True) True) (finalize_apply env opts hc ts)" for hc
    unfolding finalize_apply_def
    by (intro keeps_struct keeps_flag_outer keeps_flag_set keeps_flag_save; simp add: keeps_def tx_side_def of_files_def)
  then have final: "triple (with_flag (\<lambda>_. True) True) (finalize_apply env opts hc ts) (\<lambda>_ _. True)
      (\<lambda>_ x. with_flag (\<lambda>_. True) True x \<or> uncommitted D h x)" for hc
    by (rule triple_weaken [OF keeps_triple]) simp_all
  show "triple ?P (andthen (outer readHostConfigOrThrow) (\<lambda>hc. andthen (look the_tx) (\<lambda>t.
      andthen (commit_config env (with_additions hc t)) (\<lambda>_. finalize_apply env opts (with_additions hc t) ts))))
      (\<lambda>_ _. True) (\<lambda>_ x. with_flag (\<lambda>_. True) True x \<or> uncommitted D h x)" for u :: unit
    by (rule triple_andthen [OF read], rule triple_andthen [where R = "\<lambda>_. ?P"], rule triple_look, assumption)
      (rule triple_andthen [OF commit_triple final])
qed

lemma apply_rolled_back:
  assumes "devs_are D s" "list_all (fresh_action D) (cl_actions plan)" "applyCapacityPlan env plan opts who ts s = (Inl e, s')"
    and "payload_reason e = Some ''capacity-reconcile-rolled-back''"
  shows "devs_are D s' \<and> sy_host s' = sy_host s
    \<and> (\<exists>t. dir_get (sy_transactions s') (tx_name t) = Some t \<and> tx_status t = Tx_rolled_back)"
proof -
  from assms(3,4) obtain t s1 u s2 where t: "createCapacityTransaction env plan who ts s = (Inr t, s1)"
    and wr: "writeCapacityTransaction env t s1 = (Inr u, s2)"
    and run: "with_var \<lparr>tv_transaction = t, tv_committed = False\<rparr> (catching (apply_steps env opts plan ts) (apply_failed env ts)) s2 = (Inl e, s')"
    unfolding applyCapacityPlan_def
    by (elim andthen_InlE) (auto simp: createCapacityTransaction_def writeCapacityTransaction_def run_andthen run_simps ask_def
        dest: restricted_error split: prod.splits)
  let ?v = "\<lparr>tv_transaction = t, tv_committed = False\<rparr>"
  obtain i w where uuid: "en_uuid env (sy_world s) = (i, w)" by fastforce
  have s1: "devs_are D s1" "sy_host s1 = sy_host s" "tx_additions t = []"
    using t assms(1) uuid_devs [OF _ uuid] uuid by (auto simp: createCapacityTransaction_def run_andthen run_simps ask_def devs_are_def)
  have s2: "devs_are D s2" "sy_host s2 = sy_host s"
    using keepsD [OF keeps_devs_transaction s1(1) wr] keepsD [OF keeps_tx_files(1) [of "\<lambda>x. sy_host x = sy_host s"] s1(2) wr]
    by (simp_all add: tx_side_def of_files_def)
  have "settled D (s2, ?v)" using s2(1) s1(3) by (auto simp: settled_def planned_def tx_ids_def)
  then have start: "settled D (s2, ?v) \<and> with_flag (\<lambda>s'. sy_host s' = sy_host s) False (s2, ?v)" using s2(2) by (simp add: with_flag_def)
  obtain r x1 where steps: "apply_steps env opts plan ts (s2, ?v) = (r, x1)" by (metis surj_pair)
  from run steps obtain e0 x2 where e0: "r = Inl e0" and failed: "apply_failed env ts e0 x1 = (Inl e :: berr + nat, x2)" "s' = fst x2"
    by (auto simp: with_var_def run_catching split: prod.splits sum.splits)
  obtain s3 v3 where x1: "x1 = (s3, v3)" by fastforce
  from tripleD(2) [OF apply_steps_triple [OF assms(2)] start] steps e0
  have "with_flag (\<lambda>_. True) True x1 \<or> uncommitted D (sy_host s) x1" by blast
  then show ?thesis
  proof
    assume "with_flag (\<lambda>_. True) True x1"
    with failed(1) assms(4) x1 show ?thesis
      by (auto simp: apply_failed_def with_flag_def run_andthen run_simps set_tx_def run_assign committed_error_def
          dest!: save_tx_cases log_tx_cases split: prod.splits sum.splits)
  next
    assume c: "uncommitted D (sy_host s) x1"
    with failed(1) x1 have rb: "rollbackCapacityTransaction env ts e0 (s3, v3) = (Inl e :: berr + nat, x2)" and cov: "covered D (s3, v3)"
      by (auto simp: apply_failed_def uncommitted_def with_flag_def run_andthen run_simps)
    from rollback_devs [OF cov rb assms(4)] have "devs_are D (fst x2)
      \<and> (\<exists>t. dir_get (sy_transactions (fst x2)) (tx_name t) = Some t \<and> tx_status t = Tx_rolled_back)" .
    moreover have "with_flag (\<lambda>s'. sy_host s' = sy_host s) False x2"
      using c x1 keepsD [OF keeps_capacity_rollback [of "\<lambda>s'. sy_host s' = sy_host s"] _ rb]
      by (auto simp: uncommitted_def tx_side_def of_files_def)
    ultimately show ?thesis using failed(2) by (auto simp: with_flag_def)
  qed
qed

end

section \<open>A broker over the adapter of the tests\<close>

definition quiet_ops :: "'w process_ops" where
  "quiet_ops = \<lparr>po_sample = ret [], po_killPid = (\<lambda>_ _. ret \<lparr>kl_ok = True, kl_errorCode = None\<rparr>),
     po_killGroup = (\<lambda>_ _. ret \<lparr>kl_ok = True, kl_errorCode = None\<rparr>), po_brokerPid = 7, po_clock = (\<lambda>_. 0),
     po_evidence = (\<lambda>_. ret ()), po_diagnostics = (\<lambda>_. ret [])\<rparr>"

definition env_over :: "'w simctl \<Rightarrow> ('w \<Rightarrow> string \<times> 'w) \<Rightarrow> 'w env" where
  "env_over sc uuid = \<lparr>en_now = Pair ''t'', en_date = (\<lambda>_. None), en_uuid = uuid, en_io = (\<lambda>_. Pair Io_ok), en_lock = (\<lambda>_. ret ()),
     en_unlock = (\<lambda>_. ret ()), en_exists = (\<lambda>_. Pair True), en_sampling = False, en_ops = quiet_ops, en_parentPid = 6,
     en_simctl = sc, en_projectJson = (\<lambda>_. ret (project_config_json sample_project_config)),
     en_paths = plain_paths, en_fs = (\<lambda>_. plain_fs), en_locale = cmp_key id, en_localeNumeric = cmp_key id, en_digest = (\<lambda>_. ''plan'')\<rparr>"

definition draw_uuid :: "fixture_world \<Rightarrow> string \<times> fixture_world" where
  "draw_uuid w = (fw_uuids w (fw_drawn w), w\<lparr>fw_drawn := fw_drawn w + 1\<rparr>)"

definition fixture_env :: "fixture_world env" where
  "fixture_env = env_over createFixtureSimctlAdapter draw_uuid"

interpretation fixture_broker: broker_simulators fixture_env fixture_ok fixture_devs
proof -
  have "simulators (en_simctl fixture_env) fixture_ok fixture_devs"
    using fixture_simulators.simulators_axioms by (simp add: fixture_env_def env_over_def)
  moreover have "broker_simulators_axioms fixture_env fixture_ok fixture_devs"
    by unfold_locales (auto simp: fixture_env_def env_over_def draw_uuid_def fixture_ok_def fixture_devs_def)
  ultimately show "broker_simulators fixture_env fixture_ok fixture_devs" by (rule broker_simulators.intro)
qed

text \<open>The identities of the planned simulators are complete, and no simulator has one of them yet.\<close>

definition fresh_plan :: "(string \<rightharpoonup> string \<times> string \<times> string) \<Rightarrow> capacity_plan \<Rightarrow> bool" where
  "fresh_plan D plan \<longleftrightarrow> (\<forall>a\<in>set (cl_actions plan). an_simulatorName a \<noteq> [] \<and> an_deviceTypeIdentifier a \<noteq> [] \<and> an_runtimeIdentifier a \<noteq> []
     \<and> (\<forall>i. D i \<noteq> Some (an_simulatorName a, an_deviceTypeIdentifier a, an_runtimeIdentifier a)))"

text \<open>C10: a plan that is reported as rolled back has left no trace: the simulators are exactly those that were
  there before, also when a creation failed after simctl had made the simulator or a deletion reported
  success without happening, the host configuration is unchanged and the log says so.  It relies on no
  simulator having the name, type and runtime of a planned one beforehand.\<close>

theorem rolled_back_leaves_no_simulator:
  assumes "broker_simulators env ok devs" "ok (sy_world s)" "fresh_plan (devs (sy_world s)) plan"
    and "applyCapacityPlan env plan opts who t s = (Inl e, s')" "payload_reason e = Some ''capacity-reconcile-rolled-back''"
  shows "devs (sy_world s') = devs (sy_world s) \<and> sy_host s' = sy_host s
    \<and> (\<exists>x. dir_get (sy_transactions s') (tx_name x) = Some x \<and> tx_status x = Tx_rolled_back)"
proof -
  note laws = broker_simulators.devs_are_def [OF assms(1)] broker_simulators.fresh_action_def [OF assms(1)]
  have "list_all (broker_simulators.fresh_action (devs (sy_world s))) (cl_actions plan)"
    using assms(3) by (force simp: laws list_all_iff fresh_plan_def)
  with broker_simulators.apply_rolled_back [OF assms(1) _ _ assms(4,5), of "devs (sy_world s)"] assms(2) show ?thesis
    by (auto simp: laws)
qed

text \<open>Two simulators are planned, the second one for a runtime that is not installed.\<close>

definition small_fixture :: fixture where
  "small_fixture = \<lparr>fx_devices = [\<lparr>fd_dataPath = None, fd_deviceTypeIdentifier = ''phone'', fd_diskBytes = None, fd_isAvailable = True,
       fd_lastBootedAt = None, fd_name = ''old'', fd_runtimeIdentifier = Some ''r.iOS-1'', fd_state = None, fd_udid = ''OLD''\<rparr>],
     fx_devicetypes = [\<lparr>dt_identifier = Some ''phone'', dt_name = Some ''P'', dt_productFamily = Some ''iPhone''\<rparr>],
     fx_runtimes = [\<lparr>rn_identifier = ''r.iOS-1'', rn_isAvailable = True, rn_supported = [], rn_version = Some ''1'', rn_buildVersion = None\<rparr>]\<rparr>"

definition small_world :: fixture_world where
  "small_world = \<lparr>fw_state = Some small_fixture, fw_uuids = nat_text, fw_drawn = 0, fw_fails = (\<lambda>_. False), fw_writes = 0, fw_now = ''t''\<rparr>"

definition new_simulator :: "string \<Rightarrow> string \<Rightarrow> plan_action" where
  "new_simulator name rt = \<lparr>an_public = \<lparr>pa_actionId = ''capacity-1'', pa_kind = ''create_capacity'', pa_purposeIds = [],
       pa_requirement = \<lparr>qm_capability = ''build-fast'', qm_deviceFamily = ''iPhone'', qm_iosVersion = None, qm_resetPolicy = ''manual''\<rparr>\<rparr>,
     an_alias = name, an_deviceTypeIdentifier = ''phone'', an_displayName = ''B'', an_iosVersion = ''1'',
     an_runtimeIdentifier = rt, an_simulatorName = name\<rparr>"

definition plan_with :: "plan_action list \<Rightarrow> capacity_plan" where
  "plan_with acts = \<lparr>cl_actions = acts, cl_blocked = [], cl_evaluation = missing_project True ''t'', cl_planId = ''plan'',
     cl_status = ''changes_required''\<rparr>"

definition sys_over :: "'w \<Rightarrow> 'w sys" where
  "sys_over w = \<lparr>sy_host = Some (host_config_json sample_host_config), sy_registry = None, sy_projects = None,
     sy_idle = Missing, sy_leases = [], sy_pins = [], sy_transactions = [], sy_artifacts = (\<lambda>_. None), sy_events = [],
     sy_auditFailures = [], sy_world = w\<rparr>"

definition some_actor :: actor where
  "some_actor = \<lparr>at_actorId = Some ''me'', at_actorType = Some ''human''\<rparr>"

lemma digits_upper: "is_digit c \<Longrightarrow> upper_char c = c"
proof -
  assume "is_digit c"
  moreover have "\<not> CHR ''a'' \<le> CHR ''9''" by code_simp
  ultimately have "\<not> CHR ''a'' \<le> c" by (auto simp: is_digit_def dest: order_trans)
  then show ?thesis by (simp add: upper_char_def)
qed

lemma small_world_ok: "fixture_ok small_world"
proof -
  have up: "map upper_char (nat_text n) = nat_text n" for n
    using nat_text_digits [of n] by (auto simp: all_digits_def list_all_iff digits_upper intro: map_idI)
  have "nat_text n \<noteq> ''OLD''" for n using nat_text_digits [of n] by (auto simp: all_digits_def list_all_iff is_digit_def)
  moreover have "nat_text n \<noteq> []" for n using nat_text_digits [of n] by (auto simp: all_digits_def)
  ultimately show ?thesis by (auto simp: fixture_ok_def small_world_def small_fixture_def up inj_def dest: nat_text_inj)
qed

theorem rolled_back_leaves_no_simulator_witness:
  "\<exists>e s'. applyCapacityPlan fixture_env (plan_with [new_simulator ''a'' ''r.iOS-1'', new_simulator ''b'' ''r.iOS-2'']) plain_capacity
       some_actor ''t'' (sys_over small_world) = (Inl e, s') \<and> fixture_devs (sy_world s') = fixture_devs small_world"
proof -
  let ?run = "applyCapacityPlan fixture_env (plan_with [new_simulator ''a'' ''r.iOS-1'', new_simulator ''b'' ''r.iOS-2'']) plain_capacity
       some_actor ''t'' (sys_over small_world)"
  have "case fst ?run of Inl e \<Rightarrow> payload_reason e = Some ''capacity-reconcile-rolled-back'' | Inr n \<Rightarrow> False" by code_simp
  then obtain e s' where run: "?run = (Inl e, s')" "payload_reason e = Some ''capacity-reconcile-rolled-back''"
    by (cases ?run) (auto split: sum.splits)
  have "fixture_devs small_world = map_of [(''OLD'', ''old'', ''phone'', ''r.iOS-1'')]"
    using fixture_devs_map [OF small_world_ok] by (simp add: small_world_def small_fixture_def device_identity_def device_runtime_def)
  then have "fresh_plan (fixture_devs small_world) (plan_with [new_simulator ''a'' ''r.iOS-1'', new_simulator ''b'' ''r.iOS-2''])"
    by (auto simp: fresh_plan_def plan_with_def new_simulator_def split: if_splits)
  with rolled_back_leaves_no_simulator [OF fixture_broker.broker_simulators_axioms _ _ run] small_world_ok run show ?thesis
    by (auto simp: sys_over_def)
qed

text \<open>Without that assumption it fails: when the list of the simulators cannot be read before a creation,
  the addition has no \<open>preCreateDeviceIds\<close>, and the rollback takes a simulator of the same name that was
  there before for its own and deletes it.\<close>

definition flaky_adapter :: "(fixture_world \<times> bool) simctl" where
  "flaky_adapter = \<lparr>sc_inventory = (\<lambda>(w, fails). if fails then (Inl (HostError ''simctl list failed''), (w, False)) else outer fixtureListDevices (w, fails)),
     sc_listDevices = outer fixtureListDevices, sc_measure = (\<lambda>i d. outer (fixtureMeasureDeviceDiskBytes i d)),
     sc_boot = (\<lambda>i. outer (fixtureBootDevice i)), sc_waitForBooted = (\<lambda>i. outer (fixtureWaitForBooted i)),
     sc_shutdown = (\<lambda>i. outer (fixtureShutdownDevice i)), sc_erase = (\<lambda>i. outer (fixtureEraseDevice i)),
     sc_delete = (\<lambda>i. outer (fixtureDeleteDevice i)), sc_listRuntimes = outer fixtureListRuntimes,
     sc_rename = (\<lambda>i n. outer (fixtureRenameDevice i n)), sc_create = (\<lambda>n t r. outer (fixtureCreateDevice n t r))\<rparr>"

lemma foreign_simulator_is_deleted:
  "case applyCapacityPlan (env_over flaky_adapter (Pair ''u'')) (plan_with [new_simulator ''old'' ''r.iOS-1'']) plain_capacity
       some_actor ''t'' (sys_over (small_world, True)) of
     (Inl e, s') \<Rightarrow> payload_reason e = Some ''capacity-reconcile-rolled-back''
       \<and> map_option fx_devices (fw_state (fst (sy_world s'))) = Some []
   | (Inr n, s') \<Rightarrow> False"
  by code_simp

end
