(* ===== verification/Capacity_Recovery.thy ===== *)
theory Capacity_Recovery
  imports Capacity_Rollback
begin

text \<open>
  What recovery makes of the transactions it finds, and what a reconciliation changes.
\<close>

section \<open>Recovery settles every transaction\<close>

interpretation tx_files: keyed_files dir_get dir_put dir_del dir_ok tx_name tx_transactionId
  by unfold_locales (simp_all add: dir_get_put dir_get_del dir_ok_put dir_ok_del)

text \<open>What a transaction becomes: nothing if it was terminal, otherwise committed if the configuration has all its
  simulators, rolled back if it has none of them.\<close>

definition recovered_from :: "host_config option \<Rightarrow> transaction \<Rightarrow> transaction \<Rightarrow> bool" where
  "recovered_from hc t t' \<longleftrightarrow> tx_transactionId t' = tx_transactionId t \<and> length (tx_additions t') = length (tx_additions t)
     \<and> (if terminal_status (tx_status t) then t' = t
        else tx_status t' = Tx_finalized \<and> tx_additions t' \<noteq> [] \<and> (\<forall>ad\<in>set (tx_additions t'). in_host hc ad)
          \<or> tx_status t' = Tx_rolled_back \<and> (\<forall>ad\<in>set (tx_additions t'). \<not> in_host hc ad))"

lemma tx_slots_put:
  assumes "tx_files.slots_ok d" "tx_transactionId x = tx_transactionId y"
  shows "tx_files.slots_ok (dir_put (tx_name y) x d) \<and> dir_get (dir_put (tx_name y) x d) k = (if k = tx_name x then Some x else dir_get d k)"
proof -
  have n: "tx_name y = tx_name x" using assms(2) by (simp add: tx_name_def)
  have slots: "tx_files.slots_ok (dir_put (tx_name x) x d)"
  proof (rule tx_files.slots_put [OF assms(1)])
    fix k z
    assume "dir_get d k = Some z" "tx_transactionId z = tx_transactionId x"
    moreover from this(1) assms(1) have "k = tx_name z" unfolding tx_files.slots_ok_def by blast
    ultimately show "k = tx_name x" by (simp add: tx_name_def)
  qed
  have "dir_ok d" using assms(1) unfolding tx_files.slots_ok_def by blast
  with slots show ?thesis unfolding n by (simp add: dir_get_put)
qed

lemma finish_recovery_ok:
  assumes "finish_recovery env status recoveryState type detail ts (s, v) = (Inr u, x)"
  shows "let t = (tv_transaction v)\<lparr>tx_status := status, tx_recoveryState := Some recoveryState, tx_updatedAt := ts\<rparr> in
    tv_transaction (snd x) = t \<and> sy_transactions (fst x) = dir_put (tx_name t) t (sy_transactions s)"
proof -
  let ?t = "(tv_transaction v)\<lparr>tx_status := status, tx_recoveryState := Some recoveryState, tx_updatedAt := ts\<rparr>"
  from assms obtain u1 s1 v1 where s1: "save_tx env (s, v\<lparr>tv_transaction := ?t\<rparr>) = (Inr u1, (s1, v1))" "log_tx env type detail ts (s1, v1) = (Inr u, x)"
    unfolding finish_recovery_def set_tx_def by (elim andthen_InrE) (auto simp: run_assign)
  from save_tx_cases [OF s1(1)] obtain w where v1: "v1 = v\<lparr>tv_transaction := ?t\<rparr>" and w: "s1 = put_transaction ?t (s\<lparr>sy_world := w\<rparr>)" by auto
  have a: "sy_transactions s1 = dir_put (tx_name ?t) ?t (sy_transactions s)" unfolding w by (simp add: put_transaction_def)
  from log_tx_transactions [OF s1(2)] show ?thesis unfolding Let_def v1 a by simp
qed

text \<open>One transaction.\<close>

lemma resolve_lengths:
  "resolvePlannedCapacityAdditions env t ts s = (Inr rs, s') \<Longrightarrow> length (rs_additions rs) = length (tx_additions t)
    \<and> (rs_changed rs \<or> rs_additions rs = tx_additions t) \<and> sy_transactions s' = sy_transactions s"
proof -
  assume r: "resolvePlannedCapacityAdditions env t ts s = (Inr rs, s')"
  have same: "list_ex (\<lambda>ad. needs_resolution ad \<and> length (new_matches idx ad) = 1) (tx_additions t)
      \<or> map (resolve_addition idx ts) (tx_additions t) = tx_additions t" for idx
  proof (rule disjCI)
    assume "map (resolve_addition idx ts) (tx_additions t) \<noteq> tx_additions t"
    then obtain ad where "ad \<in> set (tx_additions t)" "resolve_addition idx ts ad \<noteq> ad" by (meson map_idI)
    then show "list_ex (\<lambda>ad. needs_resolution ad \<and> length (new_matches idx ad) = 1) (tx_additions t)"
      by (auto simp: list_ex_iff resolve_addition_def split: if_splits list.splits intro!: bexI [of _ ad])
  qed
  have list: "sy_transactions s2 = sy_transactions s" if "createCurrentDeviceIndex env s = (y, s2)" for y s2
    using that by (auto simp: createCurrentDeviceIndex_def lift_def run_andthen run_simps split: prod.splits sum.splits)
  show ?thesis
  proof (cases "list_ex needs_resolution (tx_additions t)")
    case True
    with r obtain idx where idx: "createCurrentDeviceIndex env s = (Inr idx, s')"
      "rs_additions rs = map (resolve_addition idx ts) (tx_additions t)"
      "rs_changed rs = list_ex (\<lambda>ad. needs_resolution ad \<and> length (new_matches idx ad) = 1) (tx_additions t)"
      by (auto simp: resolvePlannedCapacityAdditions_def run_andthen run_simps split: prod.splits sum.splits)
    with same [of idx] list [OF idx(1)] show ?thesis by auto
  next
    case False
    with r show ?thesis by (auto simp: resolvePlannedCapacityAdditions_def run_simps)
  qed
qed

lemma delete_additions_files: "delete_additions env ads s = (z, s') \<Longrightarrow> \<exists>w. s' = s\<lparr>sy_world := w\<rparr>"
proof (induction ads arbitrary: s)
  case Nil
  then show ?case by (auto simp: delete_additions_def run_simps intro: exI [of _ "sy_world s"])
next
  case (Cons ad ads)
  have one: "\<exists>w. s' = s\<lparr>sy_world := w\<rparr>" if "deleteCapacityDevice env i s = (z, s')" for i z s s'
    using that by (auto simp: deleteCapacityDevice_def createCurrentDeviceIndex_def lift_def run_andthen run_simps split: prod.splits sum.splits if_splits)
  obtain y s1 where "deleteCapacityDevice env (nullish (ad_simulatorId ad) []) s = (y, s1)" by fastforce
  with Cons one [OF this] show ?case by (fastforce simp: delete_additions_def run_andthen split: sum.splits)
qed

lemma settle_cases:
  assumes "settle_transaction env hc ts (s, v) = (Inr r, x)"
  obtains (committed) u where "tx_additions (tv_transaction v) \<noteq> []" "\<forall>ad\<in>set (tx_additions (tv_transaction v)). in_host hc ad"
      "finish_recovery env Tx_finalized ''committed'' ''capacity.reconcile.applied'' [''recovered''] ts (s, v) = (Inr u, x)" "r = Some Tx_finalized"
  | (removed) u w where "\<forall>ad\<in>set (tx_additions (tv_transaction v)). \<not> in_host hc ad"
      "delete_additions env (created_additions (tv_transaction v)) s = (Inr (), s\<lparr>sy_world := w\<rparr>)"
      "finish_recovery env Tx_rolled_back ''rolled_back'' ''capacity.reconcile.rolled_back'' [''recovered''] ts (s\<lparr>sy_world := w\<rparr>, v) = (Inr u, x)"
      "r = Some Tx_rolled_back"
proof -
  let ?adds = "tx_additions (tv_transaction v)"
  consider "?adds \<noteq> []" "\<forall>ad\<in>set ?adds. in_host hc ad" | "filter (in_host hc) ?adds \<noteq> []" "filter (in_host hc) ?adds \<noteq> ?adds"
    | "filter (in_host hc) ?adds = []" by (cases "filter (in_host hc) ?adds = ?adds") (auto simp: filter_id_conv)
  then show thesis
  proof cases
    case 1
    then have "filter (in_host hc) ?adds = ?adds" by (simp add: filter_id_conv)
    with assms 1(1) have "andthen (finish_recovery env Tx_finalized ''committed'' ''capacity.reconcile.applied'' [''recovered''] ts)
        (\<lambda>_. ret (Some Tx_finalized)) (s, v) = (Inr r, x)" by (simp add: settle_transaction_def Let_def the_tx_def)
    then show ?thesis by (rule andthen_InrE) (rule committed [OF 1]; simp add: run_simps)
  next
    case 2
    then have "length (filter (in_host hc) ?adds) \<noteq> length ?adds" by (metis filter_True length_filter_less nat_neq_iff)
    with assms 2(1) have "andthen (finish_recovery env Tx_failed ''ambiguous'' ''capacity.reconcile.failed'' [''recovered'', ''capacity-recovery-ambiguous''] ts) (\<lambda>_.
          throw (broker_err ''Capacity reconcile recovery found an ambiguous committed state.'' ''capacity-recovery-ambiguous'')) (s, v) = (Inr r, x)"
      by (simp add: settle_transaction_def Let_def the_tx_def)
    then show ?thesis by (rule andthen_InrE) (simp add: run_simps)
  next
    case 3
    obtain z s3 where del: "delete_additions env (created_additions (tv_transaction v)) s = (z, s3)" by fastforce
    from delete_additions_files [OF this] obtain w where w: "s3 = s\<lparr>sy_world := w\<rparr>" ..
    from assms 3 have "andthen (catching (outer (delete_additions env (created_additions (tv_transaction v)))) (\<lambda>e.
          andthen (finish_recovery env Tx_rollback_incomplete ''rollback_incomplete'' ''capacity.reconcile.rollback_incomplete''
            [''rollback-incomplete''] ts) (\<lambda>_.
          throw (cause_err ''Capacity reconcile recovery could not remove transaction-created simulators.''
            ''capacity-rollback-incomplete'' (err_message e))))) (\<lambda>_.
        andthen (finish_recovery env Tx_rolled_back ''rolled_back'' ''capacity.reconcile.rolled_back'' [''recovered''] ts) (\<lambda>_.
          ret (Some Tx_rolled_back))) (s, v) = (Inr r, x)"
      by (simp add: settle_transaction_def Let_def the_tx_def)
    then obtain z0 y where c: "catching (outer (delete_additions env (created_additions (tv_transaction v)))) (\<lambda>e.
          andthen (finish_recovery env Tx_rollback_incomplete ''rollback_incomplete'' ''capacity.reconcile.rollback_incomplete''
            [''rollback-incomplete''] ts) (\<lambda>_.
          throw (cause_err ''Capacity reconcile recovery could not remove transaction-created simulators.''
            ''capacity-rollback-incomplete'' (err_message e)))) (s, v) = (Inr z0, y)"
      and f: "andthen (finish_recovery env Tx_rolled_back ''rolled_back'' ''capacity.reconcile.rolled_back'' [''recovered''] ts) (\<lambda>_.
          ret (Some Tx_rolled_back)) y = (Inr r, x)" by (rule andthen_InrE)
    from c del w have y: "z = Inr ()" "y = (s\<lparr>sy_world := w\<rparr>, v)"
      by (auto simp: run_catching run_outer run_andthen run_simps split: sum.splits prod.splits)
    from f show ?thesis unfolding y
      by (rule andthen_InrE) (rule removed [of w]; use 3 del w y in \<open>simp add: run_simps filter_empty_conv\<close>)
  qed
qed

lemma recover_transaction_ok:
  assumes "recover_transaction env hc ts (s, \<lparr>tv_transaction = t, tv_committed = False\<rparr>) = (Inr r, x)"
    and "tx_files.slots_ok (sy_transactions s)" "dir_get (sy_transactions s) (tx_name t) = Some t"
  shows "tx_files.slots_ok (sy_transactions (fst x)) \<and> (\<exists>t'. recovered_from hc t t'
      \<and> (\<forall>k. dir_get (sy_transactions (fst x)) k = (if k = tx_name t then Some t' else dir_get (sy_transactions s) k))
      \<and> r = (if terminal_status (tx_status t) then None else Some (tx_status t')))"
proof (cases "terminal_status (tx_status t)")
  case True
  with assms show ?thesis
    by (auto simp: recover_transaction_def run_andthen run_simps recovered_from_def the_tx_def intro!: exI [of _ t])
next
  case False
  let ?n = "tx_name t"
  let ?start = "(s, \<lparr>tv_transaction = t, tv_committed = False\<rparr>)"
  from assms(1) False obtain rs s1 where res: "resolvePlannedCapacityAdditions env t ts s = (Inr rs, s1)"
    and rest: "andthen (unless (\<not> rs_changed rs)
      (andthen (set_tx (\<lambda>t. t\<lparr>tx_additions := rs_additions rs, tx_updatedAt := ts\<rparr>)) (\<lambda>_. save_tx env)))
      (\<lambda>_. if rs_ambiguous rs \<noteq> [] then
          andthen (set_tx (\<lambda>t. t\<lparr>tx_rollbackFailures := map ambiguity (rs_ambiguous rs)\<rparr>)) (\<lambda>_.
          andthen (finish_recovery env Tx_rollback_incomplete ''rollback_incomplete'' ''capacity.reconcile.rollback_incomplete''
              [''rollback-incomplete''] ts) (\<lambda>_.
            throw (broker_err ''Capacity reconcile recovery could not identify transaction-created simulators.'' ''capacity-rollback-incomplete'')))
        else settle_transaction env hc ts)
      (s1, \<lparr>tv_transaction = t, tv_committed = False\<rparr>) = (Inr r, x)"
    unfolding recover_transaction_def
    by (simp add: run_andthen run_simps run_outer the_tx_def split: prod.splits sum.splits)
  then obtain u s2 v2 where upd: "unless (\<not> rs_changed rs)
      (andthen (set_tx (\<lambda>t. t\<lparr>tx_additions := rs_additions rs, tx_updatedAt := ts\<rparr>)) (\<lambda>_. save_tx env))
      (s1, \<lparr>tv_transaction = t, tv_committed = False\<rparr>) = (Inr u, (s2, v2))"
    and settle: "settle_transaction env hc ts (s2, v2) = (Inr r, x)"
    by (elim andthen_InrE) (auto simp: run_andthen run_simps split: if_splits prod.splits sum.splits)
  let ?t2 = "tv_transaction v2"
  note rl = resolve_lengths [OF res]
  have t2: "tx_transactionId ?t2 = tx_transactionId t \<and> length (tx_additions ?t2) = length (tx_additions t)
      \<and> tx_files.slots_ok (sy_transactions s2) \<and> (\<forall>k. dir_get (sy_transactions s2) k = (if k = ?n then Some ?t2 else dir_get (sy_transactions s) k))"
  proof (cases "rs_changed rs")
    case True
    let ?t1 = "t\<lparr>tx_additions := rs_additions rs, tx_updatedAt := ts\<rparr>"
    from True upd have "save_tx env (s1, \<lparr>tv_transaction = ?t1, tv_committed = False\<rparr>) = (Inr u, (s2, v2))"
      by (simp add: unless_def set_tx_def run_andthen run_assign)
    from save_tx_cases [OF this] rl have "v2 = \<lparr>tv_transaction = ?t1, tv_committed = False\<rparr>"
      "sy_transactions s2 = dir_put ?n ?t1 (sy_transactions s)" by (auto simp: put_transaction_def tx_name_def)
    with rl tx_slots_put [OF assms(2), of ?t1 t] show ?thesis by (simp add: tx_name_def)
  next
    case False
    with upd rl assms(2,3) show ?thesis by (auto simp: unless_def run_simps)
  qed
  have fin: "tx_files.slots_ok (sy_transactions (fst y)) \<and> (\<forall>k. dir_get (sy_transactions (fst y)) k =
      (if k = ?n then Some (?t2\<lparr>tx_status := status, tx_recoveryState := Some q, tx_updatedAt := ts\<rparr>) else dir_get (sy_transactions s) k))"
    if "finish_recovery env status q type detail ts (s3, v2) = (Inr w, y)" "sy_transactions s3 = sy_transactions s2" for s3 status q type detail w y
  proof -
    let ?t3 = "?t2\<lparr>tx_status := status, tx_recoveryState := Some q, tx_updatedAt := ts\<rparr>"
    have "tx_name ?t3 = ?n" using t2 by (simp add: tx_name_def)
    with finish_recovery_ok [OF that(1)] that(2) tx_slots_put [of "sy_transactions s2" ?t3 t] t2 show ?thesis
      by (auto simp: Let_def)
  qed
  from settle show ?thesis
  proof (cases rule: settle_cases)
    case (committed u)
    with fin [OF committed(3)] t2 False show ?thesis
      by (intro conjI exI [of _ "?t2\<lparr>tx_status := Tx_finalized, tx_recoveryState := Some ''committed'', tx_updatedAt := ts\<rparr>"])
        (auto simp: recovered_from_def)
  next
    case (removed u w)
    with fin [OF removed(3)] t2 False show ?thesis
      by (intro conjI exI [of _ "?t2\<lparr>tx_status := Tx_rolled_back, tx_recoveryState := Some ''rolled_back'', tx_updatedAt := ts\<rparr>"])
        (auto simp: recovered_from_def)
  qed
qed

section \<open>The whole recovery\<close>

lemma keeps_settle: "tx_side I \<Longrightarrow> keeps (with_flag I c) (settle_transaction env hc ts)"
  unfolding settle_transaction_def finish_recovery_def delete_additions_def Let_def
  by (intro keeps_struct keeps_flag_outer keeps_fold keeps_delete keeps_flag_set keeps_flag_save)

lemma keeps_recover_transaction: "tx_side I \<Longrightarrow> keeps (with_flag I c) (recover_transaction env hc ts)"
  unfolding recover_transaction_def finish_recovery_def
  by (intro keeps_struct keeps_flag_outer keeps_resolve keeps_flag_set keeps_flag_save keeps_settle)

lemma keeps_recover_one:
  assumes "tx_side I"
  shows "keeps I (recover_one env hc ts t rec)"
proof -
  have "I s'" if I: "I s" and run: "recover_transaction env hc ts (s, \<lparr>tv_transaction = t, tv_committed = False\<rparr>) = (z, (s', v'))" for s s' z v'
    using keepsD [OF keeps_recover_transaction [OF assms, of False] _ run] I by (simp add: with_flag_def)
  then show ?thesis
    unfolding recover_one_def by (intro keeps_struct) (fastforce simp: keeps_def with_var_def split: prod.splits)
qed

lemma recover_one_ok:
  assumes "recover_one env hc ts t rec s = (Inr rec', s')" "tx_files.slots_ok (sy_transactions s)"
    and "dir_get (sy_transactions s) (tx_name t) = Some t"
  shows "tx_files.slots_ok (sy_transactions s') \<and> (\<exists>t'. recovered_from hc t t'
      \<and> (\<forall>k. dir_get (sy_transactions s') k = (if k = tx_name t then Some t' else dir_get (sy_transactions s) k)))"
proof -
  from assms(1) obtain r x where "recover_transaction env hc ts (s, \<lparr>tv_transaction = t, tv_committed = False\<rparr>) = (Inr r, x)" "s' = fst x"
    unfolding recover_one_def with_var_def
    by (auto simp: run_andthen run_simps split: prod.splits sum.splits)
  with recover_transaction_ok [OF this(1) assms(2,3)] show ?thesis by blast
qed

text \<open>What holds while the transactions \<open>R\<close> are still to be looked at.\<close>

definition recovering :: "host_config option \<Rightarrow> (string \<times> transaction) list \<Rightarrow> transaction list \<Rightarrow> 'w sys \<Rightarrow> bool" where
  "recovering hc d0 R s \<longleftrightarrow> tx_files.slots_ok (sy_transactions s) \<and> distinct (map tx_name R)
     \<and> (\<forall>t\<in>set R. dir_get d0 (tx_name t) = Some t \<and> dir_get (sy_transactions s) (tx_name t) = Some t)
     \<and> (\<forall>k. case dir_get d0 k of None \<Rightarrow> dir_get (sy_transactions s) k = None
         | Some t \<Rightarrow> t \<in> set R \<or> (\<exists>t'. dir_get (sy_transactions s) k = Some t' \<and> recovered_from hc t t'))"

lemma recovering_step:
  assumes "recovering hc d0 (t # R) s" "tx_files.slots_ok d0" "recover_one env hc ts t rec s = (Inr rec', s')"
  shows "recovering hc d0 R s'"
proof -
  from assms(1) have t: "dir_get d0 (tx_name t) = Some t" "dir_get (sy_transactions s) (tx_name t) = Some t" "tx_name t \<notin> tx_name ` set R"
    "tx_files.slots_ok (sy_transactions s)" by (simp_all add: recovering_def)
  from recover_one_ok [OF assms(3) t(4,2)] obtain t' where t': "tx_files.slots_ok (sy_transactions s')" "recovered_from hc t t'"
    "\<And>k. dir_get (sy_transactions s') k = (if k = tx_name t then Some t' else dir_get (sy_transactions s) k)" by blast
  have other: "k = tx_name x" if "dir_get d0 k = Some x" for k x using assms(2) that unfolding tx_files.slots_ok_def by blast
  show ?thesis unfolding recovering_def
  proof (intro conjI allI)
    show "tx_files.slots_ok (sy_transactions s')" "distinct (map tx_name R)" using t'(1) assms(1) by (simp_all add: recovering_def)
    show "\<forall>x\<in>set R. dir_get d0 (tx_name x) = Some x \<and> dir_get (sy_transactions s') (tx_name x) = Some x"
      using assms(1) t(3) by (auto simp: recovering_def t'(3) image_iff)
    fix k
    from assms(1) have "\<forall>k. case dir_get d0 k of None \<Rightarrow> dir_get (sy_transactions s) k = None
        | Some x \<Rightarrow> x \<in> set (t # R) \<or> (\<exists>y. dir_get (sy_transactions s) k = Some y \<and> recovered_from hc x y)"
      unfolding recovering_def by blast
    from this [THEN spec, of k] have k: "case dir_get d0 k of None \<Rightarrow> dir_get (sy_transactions s) k = None
        | Some x \<Rightarrow> x = t \<or> x \<in> set R \<or> (\<exists>y. dir_get (sy_transactions s) k = Some y \<and> recovered_from hc x y)"
      by (simp split: option.splits)
    show "case dir_get d0 k of None \<Rightarrow> dir_get (sy_transactions s') k = None
        | Some x \<Rightarrow> x \<in> set R \<or> (\<exists>y. dir_get (sy_transactions s') k = Some y \<and> recovered_from hc x y)"
    proof (cases "k = tx_name t")
      case True
      with t(1) t'(2) show ?thesis by (simp add: t'(3))
    next
      case False
      then have "dir_get (sy_transactions s') k = dir_get (sy_transactions s) k" by (simp add: t'(3))
      moreover have "x \<noteq> t" if "dir_get d0 k = Some x" for x using other [OF that] False by blast
      ultimately show ?thesis using k by (simp split: option.splits)
    qed
  qed
qed

lemma recover_terminal:
  "terminal_status (tx_status t) \<Longrightarrow> recover_one env hc ts t rec s = (Inr rec, s)"
  by (simp add: recover_one_def with_var_def recover_transaction_def run_andthen run_simps the_tx_def)

lemma recover_all_terminal:
  "\<forall>t\<in>set R. terminal_status (tx_status t) \<Longrightarrow> fold_eff (recover_one env hc ts) R rec s = (Inr rec, s)"
  by (induction R) (auto simp: run_simps run_andthen recover_terminal)


text \<open>A broker that stopped after it had created the simulator \<open>OLD\<close>.\<close>

definition unfinished :: transaction where
  "unfinished = \<lparr>tx_transactionId = ''x'', tx_actions = [], tx_actorId = None, tx_actorType = None,
     tx_additions = [(createPlannedCapacityAddition (new_simulator ''old'' ''r.iOS-1''))\<lparr>ad_simulatorId := Some ''OLD''\<rparr>],
     tx_beforeDigest = [], tx_afterDigest = None, tx_createdAt = ''t'', tx_planId = [], tx_projectId = None, tx_rejection = None,
     tx_recoveryState = None, tx_rollbackFailures = [], tx_rollbackState = None, tx_status = Tx_creating, tx_updatedAt = ''t''\<rparr>"

definition interrupted_sys :: "fixture_world sys" where
  "interrupted_sys = (sys_over small_world)\<lparr>sy_transactions := [(''x.json'', unfinished)]\<rparr>"


section \<open>What a reconciliation changes\<close>

lemma host_side: "tx_side (\<lambda>s. sy_host s = h)" "lease_side (\<lambda>s. sy_host s = h)" "of_files (\<lambda>s. sy_host s = h)"
  by (simp_all add: tx_side_def lease_side_def of_files_def)

lemma keeps_host_evaluation: "keeps (\<lambda>s. sy_host s = h) (buildCapacityEvaluation env opts)"
proof -
  let ?I = "\<lambda>s. sy_host s = h"
  have "keeps ?I (snapshot_lease env lo t l acc)" for lo t l acc
    unfolding snapshot_lease_def Let_def by (intro keeps_struct keeps_ownerIsLive host_side)
  then have "keeps ?I (readBrokerStateSnapshot env lo t)" for lo t
    unfolding readBrokerStateSnapshot_def by (intro keeps_struct keeps_readHostConfig keeps_fold keeps_current_registry host_side)
  then have load: "keeps ?I ((if kq_apply opts then loadBrokerState else readBrokerStateSnapshot) env lo t)" for lo t
    by (auto intro: keeps_load_side host_side)
  show ?thesis
    unfolding buildCapacityEvaluation_def loadCapacityProject_def evaluate_project_def evaluate_loaded_def or_missing_host_def readSimctlInventory_def
    by (intro keeps_struct keeps_nowIso keeps_lift keeps_readHostConfig load host_side)
qed

lemma keeps_host_plan: "keeps (\<lambda>s. sy_host s = h) (buildCapacityPlan env opts)"
  unfolding buildCapacityPlan_def by (intro keeps_struct keeps_host_evaluation)

lemma keeps_host_recover: "keeps (\<lambda>s. sy_host s = h) (recoverCapacityTransactions env opts)"
  unfolding recoverCapacityTransactions_def readOptionalHostConfig_def
  by (intro keeps_struct keeps_nowIso keeps_fold keeps_recover_one host_side)

lemma keeps_host_records:
  "keeps (\<lambda>s. sy_host s = h) (recordCapacityRejection env plan who ts e)" "keeps (\<lambda>s. sy_host s = h) (applyNoChangesPlan env plan who ts)"
  "keeps (\<lambda>s. sy_host s = h) (confirm_plan env opts who ts plan)"
proof -
  show r: "keeps (\<lambda>s. sy_host s = h) (recordCapacityRejection env plan who ts e)" for e
    unfolding recordCapacityRejection_def createCapacityTransaction_def Let_def
    by (intro keeps_struct keeps_ask keeps_tx_files host_side)
  show "keeps (\<lambda>s. sy_host s = h) (applyNoChangesPlan env plan who ts)"
    unfolding applyNoChangesPlan_def createCapacityTransaction_def Let_def
    by (intro keeps_struct keeps_ask keeps_tx_files host_side)
  show "keeps (\<lambda>s. sy_host s = h) (confirm_plan env opts who ts plan)"
    unfolding confirm_plan_def by (intro keeps_struct r)
qed

text \<open>A part that keeps a property is not where it is lost.\<close>

lemma lost_after:
  assumes "keeps I m" "I s" "andthen m k s = (r, s')" "\<not> I s'"
  obtains x s1 where "m s = (Inr x, s1)" "I s1" "k x s1 = (r, s')"
  using assms by (auto simp: run_andthen keeps_def split: prod.splits sum.splits)

lemma lost_in_lock:
  assumes "with_lock env k m s = (r, s')" "sy_host s' \<noteq> sy_host s"
  shows "\<exists>s1 r2 s2. sy_host s1 = sy_host s \<and> m s1 = (r2, s2) \<and> sy_host s2 \<noteq> sy_host s \<and> sy_host s' = sy_host s2"
proof -
  let ?I = "\<lambda>x. sy_host x = sy_host s"
  from assms(2) have ne: "\<not> ?I s'" by simp
  from lost_after [OF keeps_lift [OF host_side(3)] _ assms(1) [unfolded with_lock_def] ne] obtain u s1 where s1: "?I s1"
    "finally_do m (lift (en_unlock env k)) s1 = (r, s')" by blast
  obtain r2 s2 where m: "m s1 = (r2, s2)" by fastforce
  with s1(2) have "sy_host s' = sy_host s2" by (auto simp: finally_do_def lift_def split: prod.splits sum.splits)
  with s1(1) m assms(2) show ?thesis by auto
qed

text \<open>The entry of the host configuration that a planned simulator gets.\<close>

definition planned_alias :: "plan_action \<Rightarrow> string \<Rightarrow> host_alias" where
  "planned_alias a i = alias_of_addition ((createPlannedCapacityAddition a)\<lparr>ad_simulatorId := Some i\<rparr>)"

lemma create_addition_alias:
  assumes "create_addition env ts a (s, v) = (Inr u, (s', v'))"
  shows "\<exists>i. map alias_of_addition (tx_additions (tv_transaction v')) = map alias_of_addition (tx_additions (tv_transaction v)) @ [planned_alias a i]"
proof -
  from assms obtain ids s1 s2 u1 v2 i s3 u2 where
    "save_tx env (s1, v\<lparr>tv_transaction := set_last (\<lambda>ad. ad\<lparr>ad_preCreateDeviceIds := ids\<rparr>) ((tv_transaction v)\<lparr>tx_additions := tx_additions (tv_transaction v)
        @ [createPlannedCapacityAddition a], tx_status := Tx_creating, tx_updatedAt := ts\<rparr>)\<rparr>) = (Inr u1, (s2, v2))"
    "save_tx env (s3, v2\<lparr>tv_transaction := (set_last (\<lambda>ad. ad\<lparr>ad_simulatorId := Some i\<rparr>) (tv_transaction v2))\<lparr>tx_updatedAt := ts\<rparr>\<rparr>) = (Inr u2, (s', v'))"
    unfolding create_addition_def Let_def set_tx_def
    by (auto simp: run_andthen run_assign run_outer split: prod.splits sum.splits)
  from this [THEN save_tx_cases] show ?thesis
    by (intro exI [of _ i]) (auto simp: set_last_def planned_alias_def alias_of_addition_def)
qed

lemma create_additions_aliases:
  assumes "create_additions env ts as (s, v) = (Inr u, x)"
  shows "\<exists>ids. length ids = length as \<and> map alias_of_addition (tx_additions (tv_transaction (snd x)))
    = map alias_of_addition (tx_additions (tv_transaction v)) @ map2 planned_alias as ids"
  using assms
proof (induction "as" arbitrary: s v)
  case Nil
  then show ?case by (auto simp: run_simps)
next
  case (Cons a as)
  then obtain u1 s1 v1 where one: "create_addition env ts a (s, v) = (Inr u1, (s1, v1))" "create_additions env ts as (s1, v1) = (Inr u, x)"
    by (auto elim: andthen_InrE)
  from create_addition_alias [OF one(1)] Cons.IH [OF one(2)] obtain i ids where "length ids = length as"
    "map alias_of_addition (tx_additions (tv_transaction (snd x))) = map alias_of_addition (tx_additions (tv_transaction v)) @ planned_alias a i # map2 planned_alias as ids"
    by auto
  then show ?case by (intro exI [of _ "i # ids"]) simp
qed

text \<open>The configuration with the planned simulators.\<close>

definition extended_host :: "capacity_plan \<Rightarrow> js option \<Rightarrow> js option \<Rightarrow> bool" where
  "extended_host plan h h' \<longleftrightarrow> (\<exists>v hc ids. h = Some v \<and> validateHostConfig (Some v) = Inr hc \<and> length ids = length (cl_actions plan)
     \<and> h' = Some (host_config_json (hc\<lparr>hc_aliases := hc_aliases hc @ map2 planned_alias (cl_actions plan) ids\<rparr>)))"

lemma commit_config_host:
  "commit_config env hc x = (r, x') \<Longrightarrow> sy_host (fst x') = sy_host (fst x) \<or> sy_host (fst x') = Some (host_config_json hc)"
  by (cases x) (auto simp: commit_config_def writeJsonAtomicDurable_def run_andthen run_outer run_assign run_simps ask_def
      split: prod.splits io_outcome.splits durable.splits sum.splits)

lemma keeps_flag: "keeps (with_flag (\<lambda>s. sy_host s = h) c) m \<Longrightarrow> keeps (with_flag (\<lambda>s. sy_host s = h) (\<not> c)) m \<Longrightarrow> keeps (\<lambda>x. sy_host (fst x) = h) m"
  by (auto simp: keeps_def with_flag_def)

lemma keeps_apply_failed: "keeps (\<lambda>x. sy_host (fst x) = h) (apply_failed env ts e)"
  by (rule keeps_flag [where c = True]; unfold apply_failed_def;
      intro keeps_struct keeps_flag_set keeps_flag_save keeps_capacity_rollback host_side)

lemma keeps_finalize: "keeps (\<lambda>x. sy_host (fst x) = h) (finalize_apply env opts hc ts)"
  by (rule keeps_flag [where c = True]; unfold finalize_apply_def;
      intro keeps_struct keeps_flag_outer keeps_flag_set keeps_flag_save keeps_load_side host_side)

lemma apply_steps_host:
  assumes "apply_steps env opts plan ts (s, v) = (r, x)" "sy_host (fst x) \<noteq> sy_host s" "tx_additions (tv_transaction v) = []"
  shows "extended_host plan (sy_host s) (sy_host (fst x))"
proof -
  let ?I = "\<lambda>x. sy_host (fst x) = sy_host s"
  have create: "keeps ?I (create_additions env ts (cl_actions plan))"
    by (rule keeps_flag [where c = True]; intro keeps_create_additions host_side)
  have read: "keeps ?I (outer readHostConfigOrThrow)" by (rule keeps_outer) (simp add: keeps_readHostConfig)
  from assms(2) have ne: "\<not> ?I x" by simp
  from lost_after [OF create _ assms(1) [unfolded apply_steps_def] ne] obtain u x1 where x1:
    "create_additions env ts (cl_actions plan) (s, v) = (Inr u, x1)" "?I x1"
    and r1: "andthen (outer readHostConfigOrThrow) (\<lambda>hc. andthen (look the_tx) (\<lambda>t.
      andthen (commit_config env (with_additions hc t)) (\<lambda>_. finalize_apply env opts (with_additions hc t) ts))) x1 = (r, x)" by auto
  from lost_after [OF read x1(2) r1 ne] obtain hc x2 where hc: "outer readHostConfigOrThrow x1 = (Inr hc, x2)"
    and r2: "andthen (look the_tx) (\<lambda>t.
      andthen (commit_config env (with_additions hc t)) (\<lambda>_. finalize_apply env opts (with_additions hc t) ts)) x2 = (r, x)" by blast
  from hc have read_hc: "x2 = x1" "\<exists>j. sy_host s = Some j \<and> validateHostConfig (Some j) = Inr hc"
    using x1(2) by (cases x1; auto simp: run_outer readHostConfigOrThrow_def run_andthen run_simps split: option.splits sum.splits)+
  let ?hc = "with_additions hc (the_tx x1)"
  obtain z x3 where commit: "commit_config env ?hc x1 = (z, x3)" by (metis surj_pair)
  have "sy_host (fst x) = sy_host (fst x3)"
  proof (cases z)
    case (Inl e)
    with r2 commit read_hc(1) show ?thesis by (simp add: run_andthen)
  next
    case (Inr u)
    with r2 commit read_hc(1) have "finalize_apply env opts ?hc ts x3 = (r, x)" by (simp add: run_andthen)
    from keepsD [OF keeps_finalize refl this] show ?thesis .
  qed
  with commit_config_host [OF commit] x1(2) ne have "sy_host (fst x) = Some (host_config_json ?hc)" by auto
  moreover from create_additions_aliases [OF x1(1)] assms(3) obtain ids where "length ids = length (cl_actions plan)"
    "map alias_of_addition (tx_additions (the_tx x1)) = map2 planned_alias (cl_actions plan) ids" by (auto simp: the_tx_def)
  ultimately show ?thesis using read_hc(2) unfolding extended_host_def with_additions_def by auto
qed

lemma apply_plan_host:
  assumes "applyCapacityPlan env plan opts who ts s = (r, s')" "sy_host s' \<noteq> sy_host s"
  shows "extended_host plan (sy_host s) (sy_host s')"
proof -
  let ?I = "\<lambda>x. sy_host x = sy_host s"
  have create: "keeps ?I (createCapacityTransaction env plan who ts)"
    unfolding createCapacityTransaction_def by (intro keeps_struct keeps_ask host_side)
  from assms(2) have ne: "\<not> ?I s'" by simp
  from lost_after [OF create _ assms(1) [unfolded applyCapacityPlan_def] ne] obtain t s1 where t: "createCapacityTransaction env plan who ts s = (Inr t, s1)" "?I s1"
    and r1: "andthen (writeCapacityTransaction env t) (\<lambda>_. with_var \<lparr>tv_transaction = t, tv_committed = False\<rparr>
        (catching (apply_steps env opts plan ts) (apply_failed env ts))) s1 = (r, s')" by auto
  from lost_after [OF keeps_tx_files(1) [OF host_side(1)] t(2) r1 ne] obtain s2 where s2: "?I s2"
    and run: "with_var \<lparr>tv_transaction = t, tv_committed = False\<rparr> (catching (apply_steps env opts plan ts) (apply_failed env ts)) s2 = (r, s')" by blast
  from t(1) have adds: "tx_additions t = []" by (auto simp: createCapacityTransaction_def run_andthen run_simps ask_def split: prod.splits)
  obtain z x where steps: "apply_steps env opts plan ts (s2, \<lparr>tv_transaction = t, tv_committed = False\<rparr>) = (z, x)" by (metis surj_pair)
  have same: "sy_host s' = sy_host (fst x)"
  proof (cases z)
    case (Inl e)
    with run steps obtain x' where "apply_failed env ts e x = (r, x')" "s' = fst x'"
      by (auto simp: with_var_def run_catching split: prod.splits)
    with keepsD [OF keeps_apply_failed refl this(1)] show ?thesis by simp
  next
    case (Inr n)
    with run steps show ?thesis by (auto simp: with_var_def run_catching split: prod.splits)
  qed
  with ne s2 apply_steps_host [OF steps] adds show ?thesis by simp
qed

lemma confirm_plan_ok:
  assumes "confirm_plan env opts who ts plan s = (Inr u, s')"
  shows "kq_confirmPlanId opts = Some (cl_planId plan) \<and> cl_status plan \<noteq> ''blocked'' \<and> s' = s"
  using assms unfolding confirm_plan_def validateCapacityApplyConfirmation_def validateCapacityPlanIsApplicable_def
  by (auto simp: run_catching run_andthen run_simps split: if_splits prod.splits sum.splits)

text \<open>What happened when a part that applies a plan has changed the configuration.\<close>

definition confirmed_change :: "'w env \<Rightarrow> capacity_options \<Rightarrow> js option \<Rightarrow> js option \<Rightarrow> bool" where
  "confirmed_change env opts h h' \<longleftrightarrow>
    (\<exists>plan s1 s2. buildCapacityPlan env (opts\<lparr>kq_apply := True\<rparr>) s1 = (Inr plan, s2) \<and> sy_host s2 = h
        \<and> kq_confirmPlanId opts = Some (cl_planId plan) \<and> cl_status plan \<noteq> ''blocked'' \<and> extended_host plan h h')"

lemma apply_confirmed_host:
  assumes "apply_confirmed env opts who ts s = (r, s')" "sy_host s' \<noteq> sy_host s"
  shows "confirmed_change env opts (sy_host s) (sy_host s')"
proof -
  let ?I = "\<lambda>x. sy_host x = sy_host s"
  let ?act = "\<lambda>p. if cl_status p = ''no_changes'' then andthen (applyNoChangesPlan env p who ts) (\<lambda>_. ret Unchanged)
      else andthen (applyCapacityPlan env p opts who ts) (\<lambda>n. ret (Applied n))"
  from assms(2) have ne: "\<not> ?I s'" by simp
  from lost_after [OF keeps_host_recover _ assms(1) [unfolded apply_confirmed_def] ne] obtain s1 where s1: "?I s1"
    and r1: "andthen (buildCapacityPlan env (opts\<lparr>kq_apply := True\<rparr>)) (\<lambda>p. andthen (confirm_plan env opts who ts p) (\<lambda>_. ?act p)) s1 = (r, s')"
    by blast
  from lost_after [OF keeps_host_plan s1 r1 ne] obtain p s2 where p: "buildCapacityPlan env (opts\<lparr>kq_apply := True\<rparr>) s1 = (Inr p, s2)" "?I s2"
    and r2: "andthen (confirm_plan env opts who ts p) (\<lambda>_. ?act p) s2 = (r, s')" by blast
  from lost_after [OF keeps_host_records(3) p(2) r2 ne] obtain u s3 where conf: "confirm_plan env opts who ts p s2 = (Inr u, s3)" "?I s3"
    and r3: "?act p s3 = (r, s')" by blast
  have "cl_status p \<noteq> ''no_changes''"
  proof
    assume "cl_status p = ''no_changes''"
    with r3 have "andthen (applyNoChangesPlan env p who ts) (\<lambda>_. ret Unchanged) s3 = (r, s')" by simp
    from lost_after [OF keeps_host_records(2) conf(2) this ne] show False using ne by (auto simp: run_simps)
  qed
  with r3 obtain q where "applyCapacityPlan env p opts who ts s3 = (q, s')"
    by (auto simp: run_andthen run_simps split: prod.splits sum.splits)
  from apply_plan_host [OF this] conf(2) assms(2) have "extended_host p (sy_host s) (sy_host s')" by simp
  with p confirm_plan_ok [OF conf(1)] show ?thesis unfolding confirmed_change_def by blast
qed

lemma confirm_and_apply_host:
  assumes "confirm_and_apply env opts who ts s = (r, s')" "sy_host s' \<noteq> sy_host s"
  shows "confirmed_change env opts (sy_host s) (sy_host s')"
proof -
  let ?I = "\<lambda>x. sy_host x = sy_host s" and ?inner = "with_lock env Lease_lock (apply_confirmed env opts who ts)"
  from assms(2) have ne: "\<not> ?I s'" by simp
  from lost_in_lock [OF assms(1) [unfolded confirm_and_apply_def] assms(2)] obtain s1 z s2 where s1: "?I s1" "\<not> ?I s2" "sy_host s' = sy_host s2"
    and r1: "andthen (buildCapacityPlan env (opts\<lparr>kq_apply := False\<rparr>)) (\<lambda>plan. andthen (confirm_plan env opts who ts plan) (\<lambda>_. ?inner)) s1 = (z, s2)"
    by blast
  from lost_after [OF keeps_host_plan s1(1) r1 s1(2)] obtain p s3 where s3: "?I s3" "andthen (confirm_plan env opts who ts p) (\<lambda>_. ?inner) s3 = (z, s2)" by blast
  from lost_after [OF keeps_host_records(3) s3 s1(2)] obtain s4 where s4: "?I s4" "?inner s4 = (z, s2)" by blast
  from lost_in_lock [OF s4(2)] s1(2) s4(1) obtain s5 y s6 where s5: "?I s5" "\<not> ?I s6" "sy_host s2 = sy_host s6"
    and r5: "apply_confirmed env opts who ts s5 = (y, s6)" by auto
  from apply_confirmed_host [OF r5] s5 s1(3) show ?thesis by simp
qed

text \<open>C11: the host configuration is changed only by an apply that was confirmed: with the id of the plan that
  was made again, under both locks and after the recovery, right before it was applied, from the same
  configuration, and not while that plan was blocked.  It then has the aliases it had, followed by one
  for every action of that plan in their order, whatever else the call reports.\<close>

theorem host_changes_only_as_confirmed:
  assumes "reconcileCapacityBroker env opts s = (r, s')" "sy_host s' \<noteq> sy_host s"
  shows "kq_apply opts \<and> given (normalizeCapacityActorId (kq_actorId opts)) \<noteq> None \<and> kq_actorType opts \<in> {Some ''human'', Some ''agent''}
    \<and> (\<exists>plan s1 s2. buildCapacityPlan env (opts\<lparr>kq_apply := True\<rparr>) s1 = (Inr plan, s2) \<and> sy_host s2 = sy_host s
        \<and> kq_confirmPlanId opts = Some (cl_planId plan) \<and> cl_status plan \<noteq> ''blocked''
        \<and> extended_host plan (sy_host s) (sy_host s'))"
proof -
  let ?I = "\<lambda>x. sy_host x = sy_host s" and ?who = "\<lparr>at_actorId = normalizeCapacityActorId (kq_actorId opts), at_actorType = kq_actorType opts\<rparr>"
  from assms(2) have ne: "\<not> ?I s'" by simp
  have ap: "kq_apply opts"
  proof (rule ccontr)
    assume "\<not> kq_apply opts"
    with assms(1) have "andthen (buildCapacityPlan env opts) (\<lambda>plan. ret (Previewed plan)) s = (r, s')"
      by (simp add: reconcileCapacityBroker_def)
    from lost_after [OF keeps_host_plan _ this ne] show False using ne by (auto simp: run_simps)
  qed
  have shape: "keeps ?I (catching (check (validateCapacityApplyShape (kq_confirmPlanId opts) ?who)) (reject_shape env opts ?who ts))" for ts
    unfolding reject_shape_def by (intro keeps_struct keeps_attempt keeps_with_lock host_side keeps_host_plan keeps_host_records)
  from assms(1) ap have "andthen (nowIso env (kq_now opts)) (\<lambda>ts.
       andthen (catching (check (validateCapacityApplyShape (kq_confirmPlanId opts) ?who)) (reject_shape env opts ?who ts)) (\<lambda>_.
         confirm_and_apply env opts ?who ts)) s = (r, s')" by (simp add: reconcileCapacityBroker_def Let_def)
  from lost_after [OF keeps_nowIso [OF host_side(3)] refl this ne] obtain ts s1 where s1: "?I s1"
    "andthen (catching (check (validateCapacityApplyShape (kq_confirmPlanId opts) ?who)) (reject_shape env opts ?who ts)) (\<lambda>_.
         confirm_and_apply env opts ?who ts) s1 = (r, s')" by blast
  from lost_after [OF shape s1 ne] obtain u s2 where valid: "catching (check (validateCapacityApplyShape (kq_confirmPlanId opts) ?who)) (reject_shape env opts ?who ts) s1 = (Inr u, s2)"
    and s2: "?I s2" "confirm_and_apply env opts ?who ts s2 = (r, s')" by blast
  from valid have "validateCapacityApplyShape (kq_confirmPlanId opts) ?who = Inr ()"
    by (auto simp: run_catching run_andthen run_simps reject_shape_def split: sum.splits prod.splits)
  then have "given (normalizeCapacityActorId (kq_actorId opts)) \<noteq> None" "kq_actorType opts \<in> {Some ''human'', Some ''agent''}"
    by (auto simp: validateCapacityApplyShape_def split: if_splits)
  with ap confirm_and_apply_host [OF s2(2)] s2(1) assms(2) show ?thesis by (simp add: confirmed_change_def)
qed

text \<open>A host without simulators gets one for the purpose of the sample project.\<close>

definition apply_env :: "fixture_world env" where
  "apply_env = fixture_env\<lparr>en_fs := (\<lambda>_. plain_fs\<lparr>fs_exists := (\<lambda>_. True)\<rparr>)\<rparr>"

definition empty_sys :: "fixture_world sys" where
  "empty_sys = (sys_over small_world)\<lparr>sy_host := Some (host_config_json (sample_host_config\<lparr>hc_aliases := []\<rparr>))\<rparr>"

definition apply_options :: capacity_options where
  "apply_options = plain_capacity\<lparr>kq_apply := True, kq_confirmPlanId := Some ''plan'', kq_actorType := Some ''human'',
     kq_actorId := Some (JStr ''me'')\<rparr>"

theorem host_changes_only_as_confirmed_witness:
  "\<exists>r s' plan. reconcileCapacityBroker apply_env apply_options empty_sys = (r, s') \<and> extended_host plan (sy_host empty_sys) (sy_host s')"
proof -
  let ?run = "reconcileCapacityBroker apply_env apply_options empty_sys"
  obtain r s' where run: "?run = (r, s')" by fastforce
  have "sy_host (snd ?run) \<noteq> sy_host empty_sys" by code_simp
  with run have "sy_host s' \<noteq> sy_host empty_sys" by simp
  from host_changes_only_as_confirmed [OF run this] run show ?thesis by blast
qed

end
