(* ===== verification/Locks.thy ===== *)
theory Locks
  imports Broker_Store
begin

text \<open>
  The locks of the broker (\<open>withResetLock\<close> to \<open>withLeaseMutationLock\<close> in \<open>broker-core/index.mjs\<close>) as
  they run in several broker processes at once.  A lock is a directory that \<open>mkdirSync\<close> makes; the
  file \<open>owner.json\<close> in it names the process that made it, and a waiting process that finds the owner
  dead takes the directory away under a marker file \<open>reclaiming.json\<close>.  One step of a process is one
  call of the file system; between two steps any other process may run, crash, or time may pass.
  \<open>rmSync\<close> on the directory is one step.
\<close>

section \<open>The process of an owner\<close>

record lock_owner =
  lo_pid :: int
  lo_startedAt :: string

definition lock_owner_pid_identity_tolerance_ms :: int where
  "lock_owner_pid_identity_tolerance_ms = 15000"

text \<open>The function has the body of \<open>parseElapsedMilliseconds\<close> of \<open>containment.mjs\<close>.\<close>

definition parseProcessElapsedMilliseconds :: "string option \<Rightarrow> int option" where
  "parseProcessElapsedMilliseconds = parseElapsedMilliseconds"

definition contains_text :: "string \<Rightarrow> string \<Rightarrow> bool" where
  "contains_text s t = list_ex (\<lambda>n. take (length t) (drop n s) = t) [0..<Suc (length s)]"

definition processRecordLooksDefunct :: "raw_proc \<Rightarrow> bool" where
  "processRecordLooksDefunct r \<longleftrightarrow>
     contains_text (nullish (rw_stat r) []) ''Z'' \<or> contains_text (nullish (rw_command r) []) ''<defunct>''"

definition processRecordAliveAtTimestamp :: "date_parse \<Rightarrow> raw_proc \<Rightarrow> string \<Rightarrow> int \<Rightarrow> bool option" where
  "processRecordAliveAtTimestamp date r startedAtValue observedAt =
    (case (date startedAtValue, parseProcessElapsedMilliseconds (rw_elapsed r)) of
       (Some startedAt, Some elapsed) \<Rightarrow>
         if observedAt < startedAt then None
         else Some (observedAt - startedAt \<le> elapsed + lock_owner_pid_identity_tolerance_ms)
     | _ \<Rightarrow> None)"

text \<open>The sampler is absent (\<open>None\<close>), throws or returns no array (\<open>Some None\<close>), or returns a table.\<close>

definition lockOwnerProcessIsLive ::
  "date_parse \<Rightarrow> lock_owner \<Rightarrow> int \<Rightarrow> (int \<Rightarrow> bool) \<Rightarrow> raw_proc list option option \<Rightarrow> bool" where
  "lockOwnerProcessIsLive date ow observedAt processExists sampled =
    (if \<not> 0 < lo_pid ow \<or> \<not> processExists (lo_pid ow) then False
     else case sampled of
       None \<Rightarrow> True
     | Some None \<Rightarrow> True
     | Some (Some records) \<Rightarrow>
        (case find (\<lambda>r. rw_pid r = Some (lo_pid ow)) records of
           None \<Rightarrow> False
         | Some r \<Rightarrow> \<not> processRecordLooksDefunct r
             \<and> processRecordAliveAtTimestamp date r (lo_startedAt ow) observedAt \<noteq> Some False))"

section \<open>The lock directory\<close>

text \<open>A marker file; its body is the token, or \<open>None\<close> while the file is still empty.\<close>

record marker =
  mk_ino :: nat
  mk_mtime :: int
  mk_body :: "nat option"

text \<open>The last two fields are not on disk: who made the directory, and when.\<close>

record lock_dir =
  ld_ino :: nat
  ld_mtime :: int
  ld_owner :: "(lock_owner \<times> int) option"
  ld_marker :: "marker option"
  ld_claimed :: "(nat \<times> marker) list"
  ld_maker :: int
  ld_made :: int

record snapshot =
  sn_owner :: "lock_owner option"
  sn_stale :: bool
  sn_time :: "int option"
  sn_ident :: "nat option"
  sn_abandoned :: bool

definition sn_released :: "snapshot \<Rightarrow> bool" where
  "sn_released sn \<longleftrightarrow> sn_time sn = None \<or> sn_ident sn = None"

text \<open>\<open>stillAbandonedWithoutOwner\<close> of \<open>reclaimStaleLock\<close>\<close>

definition still_abandoned :: "int \<Rightarrow> int \<Rightarrow> snapshot \<Rightarrow> snapshot \<Rightarrow> bool" where
  "still_abandoned reclaim now latest previous \<longleftrightarrow>
     sn_owner latest = None \<and> sn_owner previous = None
     \<and> sn_ident latest \<noteq> None \<and> sn_ident latest = sn_ident previous
     \<and> (case sn_time previous of None \<Rightarrow> False | Some t \<Rightarrow> reclaim < now - t)"

definition sameLockReclaimMarkerOwner :: "nat option \<Rightarrow> nat option \<Rightarrow> bool" where
  "sameLockReclaimMarkerOwner left right \<longleftrightarrow> left \<noteq> None \<and> left = right"

definition samePathIdentity :: "nat option \<Rightarrow> nat option \<Rightarrow> bool" where
  "samePathIdentity left right \<longleftrightarrow> left \<noteq> None \<and> right \<noteq> None \<and> left = right"

section \<open>Where a process stands\<close>

text \<open>The steps of \<open>readLockSnapshot\<close>, with what has been read before.\<close>

datatype looking =
    See_owner
  | See_process "lock_owner option"
  | See_file "lock_owner option" bool
  | See_time "lock_owner option" bool bool
  | See_identity "lock_owner option" bool "int option"
  | See_clock "lock_owner option" bool "int option" "nat option"

text \<open>A snapshot is taken before the marker, and again under it, with the first one and the token.\<close>

datatype turn = Waiting | Reclaiming snapshot nat

text \<open>What a process has seen of a marker that was there first.\<close>

record seen_marker =
  sm_previous :: snapshot
  sm_token :: nat
  sm_time :: "int option"
  sm_ident :: "nat option"
  sm_owner :: "nat option"
  sm_exists :: bool

datatype lock_error = Timed_out | Held | Cancelled | No_entry | Bad_json

datatype pc =
    Out
  | Top
  | Chmod_dir
  | Ensure_dir
  | Write_temp
  | Rename_temp nat int
  | Chmod_owner
  | Work
  | Unlock
  | Remove_lock
  | Look turn looking
  | Judge snapshot
  | Open_marker snapshot
  | Fill_marker snapshot nat nat
  | Chmod_marker snapshot nat
  | Old_file seen_marker
  | Old_time seen_marker
  | Old_identity seen_marker
  | Old_owner seen_marker
  | Old_judge seen_marker
  | Claim_marker seen_marker
  | Claimed_identity seen_marker
  | Claimed_owner seen_marker "nat option"
  | Link_back seen_marker
  | Unlink_link seen_marker
  | Reopen_marker seen_marker
  | Refill_marker seen_marker nat
  | Rechmod_marker seen_marker
  | Unlink_claimed seen_marker bool
  | Decide snapshot nat snapshot
  | Remove_stale nat
  | Drop_read nat bool
  | Drop_marker nat bool
  | Give_up
  | Sleeping int
  | Failed lock_error

record lproc =
  lp_pc :: pc
  lp_started :: int
  lp_since :: int

record lworld =
  lw_now :: int
  lw_dir :: "lock_dir option"
  lw_proc :: "int \<Rightarrow> lproc"
  lw_alive :: "int \<Rightarrow> bool"
  lw_cancelled :: "int \<Rightarrow> bool"
  lw_fresh :: nat

text \<open>The options of a call: whether the owner found on disk is a live process is asked of the
  operating system, of which only the set of live processes is known here.\<close>

record lock_opts =
  lk_kind :: lock
  lk_wait :: bool
  lk_timeoutMs :: int
  lk_reclaimMs :: int
  lk_pollMs :: int
  lk_now :: string
  lk_live :: "lock_owner \<Rightarrow> int \<Rightarrow> (int \<Rightarrow> bool) \<Rightarrow> bool"

definition goto :: "int \<Rightarrow> pc \<Rightarrow> lworld \<Rightarrow> lworld" where
  "goto p c w = w\<lparr>lw_proc := (lw_proc w)(p := (lw_proc w p)\<lparr>lp_pc := c\<rparr>)\<rparr>"

definition on_dir :: "(lock_dir \<Rightarrow> lock_dir) \<Rightarrow> lworld \<Rightarrow> lworld" where
  "on_dir f w = w\<lparr>lw_dir := map_option f (lw_dir w)\<rparr>"

text \<open>A change of the entries of the directory sets its time.\<close>

definition entry_change :: "(lock_dir \<Rightarrow> lock_dir) \<Rightarrow> lworld \<Rightarrow> lworld" where
  "entry_change f w = on_dir (\<lambda>d. (f d)\<lparr>ld_mtime := lw_now w\<rparr>) w"

definition make_dir :: "int \<Rightarrow> lworld \<Rightarrow> lworld" where
  "make_dir p w = w\<lparr>lw_dir := Some \<lparr>ld_ino = lw_fresh w, ld_mtime = lw_now w, ld_owner = None,
       ld_marker = None, ld_claimed = [], ld_maker = p, ld_made = lw_now w\<rparr>,
     lw_fresh := Suc (lw_fresh w)\<rparr>"

text \<open>\<open>openSync(markerPath, "wx")\<close> on a directory that is there and has no marker\<close>

definition make_marker :: "lworld \<Rightarrow> lworld" where
  "make_marker w = (entry_change (\<lambda>d. d\<lparr>ld_marker := Some \<lparr>mk_ino = lw_fresh w, mk_mtime = lw_now w,
     mk_body = None\<rparr>\<rparr>) w)\<lparr>lw_fresh := Suc (lw_fresh w)\<rparr>"

text \<open>\<open>writeFileSync(fd, ...)\<close> writes the file that was opened, wherever it is now.\<close>

definition fill :: "int \<Rightarrow> nat \<Rightarrow> nat \<Rightarrow> marker \<Rightarrow> marker" where
  "fill now ino tok m = (if mk_ino m = ino then m\<lparr>mk_body := Some tok, mk_mtime := now\<rparr> else m)"

definition fill_marker :: "nat \<Rightarrow> nat \<Rightarrow> lworld \<Rightarrow> lworld" where
  "fill_marker ino tok w = on_dir (\<lambda>d. d\<lparr>ld_marker := map_option (fill (lw_now w) ino tok) (ld_marker d),
     ld_claimed := map (\<lambda>(k, m). (k, fill (lw_now w) ino tok m)) (ld_claimed d)\<rparr>) w"

text \<open>\<open>readLockOwnerTimestampMs\<close> after \<open>existsSync\<close>: the time of the file, or of the directory.\<close>

definition time_of :: "bool \<Rightarrow> (lock_dir \<Rightarrow> int option) \<Rightarrow> lock_dir option \<Rightarrow> int option" where
  "time_of there file d = (case d of None \<Rightarrow> None | Some d' \<Rightarrow> if there then file d' else Some (ld_mtime d'))"

definition owner_of :: "lworld \<Rightarrow> lock_owner option" where
  "owner_of w = Option.bind (lw_dir w) (\<lambda>d. map_option fst (ld_owner d))"

definition marker_of :: "lworld \<Rightarrow> marker option" where
  "marker_of w = Option.bind (lw_dir w) ld_marker"

definition claimed_of :: "nat \<Rightarrow> lworld \<Rightarrow> marker option" where
  "claimed_of tok w = Option.bind (lw_dir w) (\<lambda>d. map_of (ld_claimed d) tok)"

definition without_claimed :: "nat \<Rightarrow> lock_dir \<Rightarrow> lock_dir" where
  "without_claimed tok d = d\<lparr>ld_claimed := filter (\<lambda>e. fst e \<noteq> tok) (ld_claimed d)\<rparr>"

section \<open>One step of a process\<close>

definition see_process :: "lock_opts \<Rightarrow> lock_owner option \<Rightarrow> lworld \<Rightarrow> bool" where
  "see_process lo ow w = (case ow of None \<Rightarrow> False | Some ow' \<Rightarrow> 0 < lo_pid ow' \<and> \<not> lk_live lo ow' (lw_now w) (lw_alive w))"

text \<open>\<open>readLockSnapshot\<close>\<close>

fun look_at :: "lock_opts \<Rightarrow> int \<Rightarrow> turn \<Rightarrow> looking \<Rightarrow> lworld \<Rightarrow> lworld" where
  "look_at lo p t See_owner w = goto p (Look t (See_process (owner_of w))) w"
| "look_at lo p t (See_process ow) w = goto p (Look t (See_file ow (see_process lo ow w))) w"
| "look_at lo p t (See_file ow stale) w = goto p (Look t (See_time ow stale (owner_of w \<noteq> None))) w"
| "look_at lo p t (See_time ow stale there) w =
     goto p (Look t (See_identity ow stale (time_of there (\<lambda>d. map_option snd (ld_owner d)) (lw_dir w)))) w"
| "look_at lo p t (See_identity ow stale tm) w = goto p (Look t (See_clock ow stale tm (map_option ld_ino (lw_dir w)))) w"
| "look_at lo p t (See_clock ow stale tm ident) w =
    (let sn = \<lparr>sn_owner = ow, sn_stale = stale, sn_time = tm, sn_ident = ident,
       sn_abandoned = (case tm of None \<Rightarrow> False | Some n \<Rightarrow> ow = None \<and> lk_reclaimMs lo < lw_now w - n)\<rparr>
     in goto p (case t of Waiting \<Rightarrow> Judge sn | Reclaiming previous tok \<Rightarrow> Decide previous tok sn) w)"

text \<open>What follows a failed \<open>reclaimStaleLock\<close> or a lock that is held.\<close>

definition give_up :: "lock_opts \<Rightarrow> int \<Rightarrow> lworld \<Rightarrow> lworld" where
  "give_up lo p w = goto p
    (if lk_kind lo = Lease_lock \<and> \<not> lk_wait lo then Failed Held
     else if lk_timeoutMs lo < lw_now w - lp_started (lw_proc w p) then Failed Timed_out
     else if lk_kind lo \<noteq> Reset_lock \<and> lw_cancelled w p then Failed Cancelled
     else Sleeping (lw_now w + lk_pollMs lo)) w"

text \<open>The loop of \<open>withResetLock\<close>, \<open>withCapacityLock\<close> and \<open>withLeaseMutationLock\<close>, and the release.\<close>

fun lock_at :: "lock_opts \<Rightarrow> int \<Rightarrow> pc \<Rightarrow> lworld \<Rightarrow> lworld" where
  "lock_at lo p Top w0 =
    (let w = w0\<lparr>lw_proc := (lw_proc w0)(p := (lw_proc w0 p)\<lparr>lp_since := lw_now w0\<rparr>)\<rparr> in
     if lk_kind lo \<noteq> Reset_lock \<and> lw_cancelled w p then goto p (Failed Cancelled) w
     else if lw_dir w = None then goto p Chmod_dir (make_dir p w)
     else if lk_kind lo = Capacity_lock \<and> \<not> lk_wait lo then goto p (Failed Held) w
     else goto p (Look Waiting See_owner) w)"
| "lock_at lo p Chmod_dir w = goto p (if lw_dir w = None then Failed No_entry else Ensure_dir) w"
| "lock_at lo p Ensure_dir w = goto p Write_temp (if lw_dir w = None then make_dir p w else w)"
| "lock_at lo p Write_temp w =
    (case lw_dir w of
       None \<Rightarrow> goto p (Failed No_entry) w
     | Some d \<Rightarrow> goto p (Rename_temp (ld_ino d) (lw_now w)) (entry_change id w))"
| "lock_at lo p (Rename_temp ino t) w =
    (if map_option ld_ino (lw_dir w) = Some ino
     then goto p Chmod_owner (entry_change (\<lambda>d. d\<lparr>ld_owner := Some (\<lparr>lo_pid = p, lo_startedAt = lk_now lo\<rparr>, t)\<rparr>) w)
     else goto p (Failed No_entry) w)"
| "lock_at lo p Chmod_owner w = goto p (if owner_of w = None then Failed No_entry else Work) w"
| "lock_at lo p Work w = goto p Unlock w"
| "lock_at lo p Unlock w =
    goto p (case owner_of w of None \<Rightarrow> Remove_lock | Some ow \<Rightarrow> if lo_pid ow = p then Remove_lock else Out) w"
| "lock_at lo p Remove_lock w = goto p Out (w\<lparr>lw_dir := None\<rparr>)"
| "lock_at lo p (Judge sn) w =
    (if sn_released sn then goto p Top w
     else if sn_stale sn \<or> sn_abandoned sn then goto p (Open_marker sn) w
     else goto p Give_up w)"
| "lock_at lo p Give_up w = give_up lo p w"
| "lock_at lo p (Sleeping t) w = goto p Top w"
| "lock_at lo p _ w = w"

text \<open>The three functions run this loop, each with its own lock directory.\<close>

definition withResetLock :: "lock_opts \<Rightarrow> int \<Rightarrow> pc \<Rightarrow> lworld \<Rightarrow> lworld" where
  "withResetLock lo = lock_at (lo\<lparr>lk_kind := Reset_lock\<rparr>)"

definition withCapacityLock :: "lock_opts \<Rightarrow> int \<Rightarrow> pc \<Rightarrow> lworld \<Rightarrow> lworld" where
  "withCapacityLock lo = lock_at (lo\<lparr>lk_kind := Capacity_lock\<rparr>)"

definition withLeaseMutationLock :: "lock_opts \<Rightarrow> int \<Rightarrow> pc \<Rightarrow> lworld \<Rightarrow> lworld" where
  "withLeaseMutationLock lo = lock_at (lo\<lparr>lk_kind := Lease_lock\<rparr>)"

definition with_lock_at :: "lock_opts \<Rightarrow> int \<Rightarrow> pc \<Rightarrow> lworld \<Rightarrow> lworld" where
  "with_lock_at lo = (case lk_kind lo of Reset_lock \<Rightarrow> withResetLock lo | Capacity_lock \<Rightarrow> withCapacityLock lo
     | Lease_lock \<Rightarrow> withLeaseMutationLock lo)"

lemma with_lock_at_eq [simp]: "with_lock_at lo = lock_at lo"
  by (cases "lk_kind lo"; cases lo)
    (simp_all add: with_lock_at_def withResetLock_def withCapacityLock_def withLeaseMutationLock_def)

text \<open>\<open>acquireLockReclaimMarker\<close>; every \<open>return null\<close> is \<open>Give_up\<close>.\<close>

fun marker_at :: "lock_opts \<Rightarrow> int \<Rightarrow> pc \<Rightarrow> lworld \<Rightarrow> lworld" where
  "marker_at lo p (Open_marker sn) w =
    (case lw_dir w of
       None \<Rightarrow> goto p Give_up w
     | Some d \<Rightarrow>
        (let tok = lw_fresh w; w' = w\<lparr>lw_fresh := Suc tok\<rparr> in
         if ld_marker d = None then goto p (Fill_marker sn tok (lw_fresh w')) (make_marker w')
         else goto p (Old_file \<lparr>sm_previous = sn, sm_token = tok, sm_time = None, sm_ident = None, sm_owner = None,
                sm_exists = False\<rparr>) w'))"
| "marker_at lo p (Fill_marker sn tok ino) w = goto p (Chmod_marker sn tok) (fill_marker ino tok w)"
| "marker_at lo p (Chmod_marker sn tok) w =
    goto p (if marker_of w = None then Give_up else Look (Reclaiming sn tok) See_owner) w"
| "marker_at lo p (Old_file sm) w = goto p (Old_time (sm\<lparr>sm_exists := (marker_of w \<noteq> None)\<rparr>)) w"
| "marker_at lo p (Old_time sm) w =
    goto p (Old_identity (sm\<lparr>sm_time := time_of (sm_exists sm) (\<lambda>d. map_option mk_mtime (ld_marker d)) (lw_dir w)\<rparr>)) w"
| "marker_at lo p (Old_identity sm) w = goto p (Old_owner (sm\<lparr>sm_ident := map_option mk_ino (marker_of w)\<rparr>)) w"
| "marker_at lo p (Old_owner sm) w =
    (case marker_of w of
       None \<Rightarrow> goto p (Old_judge (sm\<lparr>sm_owner := None\<rparr>)) w
     | Some m \<Rightarrow> goto p (if mk_body m = None then Failed Bad_json else Old_judge (sm\<lparr>sm_owner := mk_body m\<rparr>)) w)"
| "marker_at lo p (Old_judge sm) w =
    goto p (if sm_ident sm \<noteq> None \<and> (case sm_time sm of None \<Rightarrow> False | Some t \<Rightarrow> lk_reclaimMs lo < lw_now w - t)
            then Claim_marker sm else Give_up) w"
| "marker_at lo p (Claim_marker sm) w =
    (case marker_of w of
       None \<Rightarrow> goto p Give_up w
     | Some m \<Rightarrow> goto p (Claimed_identity sm)
         (entry_change (\<lambda>d. d\<lparr>ld_marker := None, ld_claimed := (sm_token sm, m) # ld_claimed d\<rparr>) w))"
| "marker_at lo p (Claimed_identity sm) w = goto p (Claimed_owner sm (map_option mk_ino (claimed_of (sm_token sm) w))) w"
| "marker_at lo p (Claimed_owner sm ident) w =
    (case claimed_of (sm_token sm) w of
       None \<Rightarrow> goto p (Link_back sm) w
     | Some m \<Rightarrow> goto p
        (if mk_body m = None then Failed Bad_json
         else if samePathIdentity (sm_ident sm) ident \<and> sameLockReclaimMarkerOwner (sm_owner sm) (mk_body m)
         then Reopen_marker sm else Link_back sm) w)"
| "marker_at lo p (Link_back sm) w =
    (case (marker_of w, claimed_of (sm_token sm) w) of
       (None, Some m) \<Rightarrow> goto p (Unlink_link sm) (entry_change (\<lambda>d. d\<lparr>ld_marker := Some m\<rparr>) w)
     | _ \<Rightarrow> goto p (Unlink_link sm) w)"
| "marker_at lo p (Unlink_link sm) w = goto p Give_up
    (if claimed_of (sm_token sm) w = None then w else entry_change (without_claimed (sm_token sm)) w)"
| "marker_at lo p (Reopen_marker sm) w =
    (case lw_dir w of
       None \<Rightarrow> goto p (Unlink_claimed sm False) w
     | Some d \<Rightarrow> if ld_marker d = None then goto p (Refill_marker sm (lw_fresh w)) (make_marker w)
         else goto p (Unlink_claimed sm False) w)"
| "marker_at lo p (Refill_marker sm ino) w = goto p (Rechmod_marker sm) (fill_marker ino (sm_token sm) w)"
| "marker_at lo p (Rechmod_marker sm) w = goto p (Unlink_claimed sm (marker_of w \<noteq> None)) w"
| "marker_at lo p (Unlink_claimed sm won) w =
    goto p (if won then Look (Reclaiming (sm_previous sm) (sm_token sm)) See_owner else Give_up)
     (if claimed_of (sm_token sm) w = None then w else entry_change (without_claimed (sm_token sm)) w)"
| "marker_at lo p _ w = w"

text \<open>The body of \<open>reclaimStaleLock\<close> and its \<open>finally\<close>; a result \<open>True\<close> goes on with the loop.\<close>

fun reclaim_at :: "lock_opts \<Rightarrow> int \<Rightarrow> pc \<Rightarrow> lworld \<Rightarrow> lworld" where
  "reclaim_at lo p (Decide previous tok latest) w = goto p
    (if sn_released latest then Drop_read tok True
     else if sn_stale latest \<or> sn_abandoned latest
       \<or> still_abandoned (lk_reclaimMs lo) (lw_now w) latest previous then Remove_stale tok
     else Drop_read tok False) w"
| "reclaim_at lo p (Remove_stale tok) w = goto p Top (w\<lparr>lw_dir := None\<rparr>)"
| "reclaim_at lo p (Drop_read tok result) w =
    (case marker_of w of
       None \<Rightarrow> goto p (if result then Top else Give_up) w
     | Some m \<Rightarrow> goto p
        (if mk_body m = None then Failed Bad_json
         else if mk_body m = Some tok then Drop_marker tok result
         else if result then Top else Give_up) w)"
| "reclaim_at lo p (Drop_marker tok result) w = goto p (if result then Top else Give_up)
    (if marker_of w = None then w else entry_change (\<lambda>d. d\<lparr>ld_marker := None\<rparr>) w)"
| "reclaim_at lo p _ w = w"

definition in_loop :: "pc \<Rightarrow> bool" where
  "in_loop c = (case c of Top \<Rightarrow> True | Chmod_dir \<Rightarrow> True | Ensure_dir \<Rightarrow> True | Write_temp \<Rightarrow> True
     | Rename_temp _ _ \<Rightarrow> True | Chmod_owner \<Rightarrow> True | Work \<Rightarrow> True | Unlock \<Rightarrow> True | Remove_lock \<Rightarrow> True
     | Judge _ \<Rightarrow> True | Give_up \<Rightarrow> True | Sleeping _ \<Rightarrow> True | _ \<Rightarrow> False)"

definition in_reclaim :: "pc \<Rightarrow> bool" where
  "in_reclaim c = (case c of Decide _ _ _ \<Rightarrow> True | Remove_stale _ \<Rightarrow> True | Drop_read _ _ \<Rightarrow> True
     | Drop_marker _ _ \<Rightarrow> True | _ \<Rightarrow> False)"

definition act :: "(int \<Rightarrow> lock_opts) \<Rightarrow> int \<Rightarrow> lworld \<Rightarrow> lworld" where
  "act opts p w = (case lp_pc (lw_proc w p) of
     Look t l \<Rightarrow> look_at (opts p) p t l w
   | c \<Rightarrow> if in_loop c then with_lock_at (opts p) p c w
          else if in_reclaim c then reclaim_at (opts p) p c w
          else marker_at (opts p) p c w)"

section \<open>Runs\<close>

datatype move = Start int | Act int | Crash int | Cancel int | Tick int

definition outside :: "pc \<Rightarrow> bool" where
  "outside c = (case c of Out \<Rightarrow> True | Failed _ \<Rightarrow> True | _ \<Rightarrow> False)"

fun can_move :: "lworld \<Rightarrow> move \<Rightarrow> bool" where
  "can_move w (Start p) = (0 < p \<and> lw_alive w p \<and> outside (lp_pc (lw_proc w p)))"
| "can_move w (Act p) = (lw_alive w p \<and> \<not> outside (lp_pc (lw_proc w p))
     \<and> (case lp_pc (lw_proc w p) of Sleeping t \<Rightarrow> t \<le> lw_now w | _ \<Rightarrow> True))"
| "can_move w (Crash p) = lw_alive w p"
| "can_move w (Cancel p) = True"
| "can_move w (Tick n) = (0 < n)"

fun moved :: "(int \<Rightarrow> lock_opts) \<Rightarrow> lworld \<Rightarrow> move \<Rightarrow> lworld" where
  "moved opts w (Start p) = w\<lparr>lw_proc := (lw_proc w)(p := \<lparr>lp_pc = Top, lp_started = lw_now w, lp_since = lw_now w\<rparr>)\<rparr>"
| "moved opts w (Act p) = act opts p w"
| "moved opts w (Crash p) = w\<lparr>lw_alive := (lw_alive w)(p := False)\<rparr>"
| "moved opts w (Cancel p) = w\<lparr>lw_cancelled := (lw_cancelled w)(p := True)\<rparr>"
| "moved opts w (Tick n) = w\<lparr>lw_now := lw_now w + n\<rparr>"

fun run_moves :: "(int \<Rightarrow> lock_opts) \<Rightarrow> move list \<Rightarrow> lworld \<Rightarrow> lworld option" where
  "run_moves opts [] w = Some w"
| "run_moves opts (m # ms) w = (if can_move w m then run_moves opts ms (moved opts w m) else None)"

text \<open>The processes that are between \<open>mkdirSync\<close> and the return of \<open>removeLockIfOwned\<close>\<close>

definition holds :: "pc \<Rightarrow> bool" where
  "holds c = (case c of Chmod_owner \<Rightarrow> True | Work \<Rightarrow> True | Unlock \<Rightarrow> True | Remove_lock \<Rightarrow> True | _ \<Rightarrow> False)"

definition initial :: "(int \<Rightarrow> bool) \<Rightarrow> lworld" where
  "initial alive = \<lparr>lw_now = 0, lw_dir = None, lw_proc = (\<lambda>_. \<lparr>lp_pc = Out, lp_started = 0, lp_since = 0\<rparr>),
     lw_alive = alive, lw_cancelled = (\<lambda>_. False), lw_fresh = 0\<rparr>"

section \<open>Which owner counts as live\<close>

lemma live_without_sampler: "lockOwnerProcessIsLive date x t alive None \<longleftrightarrow> 0 < lo_pid x \<and> alive (lo_pid x)"
  by (simp add: lockOwnerProcessIsLive_def)

text \<open>With a sampler a live owner must be listed with an age that reaches back to the start of its
  operation, up to the tolerance.\<close>

lemma live_when_listed:
  assumes "0 < lo_pid x" "alive (lo_pid x)" "find (\<lambda>r. rw_pid r = Some (lo_pid x)) records = Some r"
    "\<not> processRecordLooksDefunct r" "date (lo_startedAt x) = Some s" "parseProcessElapsedMilliseconds (rw_elapsed r) = Some e"
    "t - s \<le> e + lock_owner_pid_identity_tolerance_ms"
  shows "lockOwnerProcessIsLive date x t alive (Some (Some records))"
  using assms by (simp add: lockOwnerProcessIsLive_def processRecordAliveAtTimestamp_def)

end
