(* ===== verification/Lock_Safety.thy ===== *)
theory Lock_Safety
  imports Locks
begin

text \<open>
  Mutual exclusion of the locks: in which runs at most one process is inside, and a run in which two
  are.  The invariant follows the fields of the lock directory and what every process remembers.
\<close>

section \<open>Runs that are calm and prompt\<close>

definition creating :: "pc \<Rightarrow> bool" where
  "creating c = (case c of Chmod_dir \<Rightarrow> True | Ensure_dir \<Rightarrow> True | Write_temp \<Rightarrow> True | Rename_temp _ _ \<Rightarrow> True
     | _ \<Rightarrow> False)"

text \<open>The token of the marker that a process inside \<open>reclaimStaleLock\<close> has written.\<close>

definition token_of :: "pc \<Rightarrow> nat option" where
  "token_of c = (case c of Fill_marker _ k _ \<Rightarrow> Some k | Chmod_marker _ k \<Rightarrow> Some k | Look (Reclaiming _ k) _ \<Rightarrow> Some k
     | Decide _ k _ \<Rightarrow> Some k | Remove_stale k \<Rightarrow> Some k | Drop_read k _ \<Rightarrow> Some k | Drop_marker k _ \<Rightarrow> Some k
     | _ \<Rightarrow> None)"

text \<open>One turn of the waiting loop: from \<open>mkdirSync\<close> to the lock, or to the pause.\<close>

definition turning :: "pc \<Rightarrow> bool" where
  "turning c = (case c of Out \<Rightarrow> False | Top \<Rightarrow> False | Chmod_owner \<Rightarrow> False | Work \<Rightarrow> False | Unlock \<Rightarrow> False
     | Remove_lock \<Rightarrow> False | Give_up \<Rightarrow> False | Sleeping _ \<Rightarrow> False | Failed _ \<Rightarrow> False | _ \<Rightarrow> True)"

text \<open>No turn takes longer than half of the time after which a lock counts as abandoned.\<close>

definition prompt :: "int \<Rightarrow> lworld \<Rightarrow> bool" where
  "prompt T w \<longleftrightarrow> (\<forall>p. lw_alive w p \<and> turning (lp_pc (lw_proc w p)) \<longrightarrow> 2 * (lw_now w - lp_since (lw_proc w p)) \<le> T)"

text \<open>A process ends at any time, but not while it makes the lock, and while no process is inside
  \<open>reclaimStaleLock\<close>.\<close>

fun calm :: "lworld \<Rightarrow> move \<Rightarrow> bool" where
  "calm w (Crash p) = (\<not> creating (lp_pc (lw_proc w p)) \<and> (\<forall>q. lw_alive w q \<longrightarrow> token_of (lp_pc (lw_proc w q)) = None))"
| "calm w _ = True"

inductive calm_run :: "(int \<Rightarrow> lock_opts) \<Rightarrow> int \<Rightarrow> lworld \<Rightarrow> bool" for opts T where
  calm_start: "calm_run opts T (initial alive)"
| calm_step: "calm_run opts T w \<Longrightarrow> can_move w m \<Longrightarrow> calm w m \<Longrightarrow> prompt T (moved opts w m) \<Longrightarrow> calm_run opts T (moved opts w m)"

section \<open>What a process remembers\<close>

definition saw_dead :: "(int \<Rightarrow> bool) \<Rightarrow> pc \<Rightarrow> bool" where
  "saw_dead alive c = (case c of
     Look (Reclaiming _ _) l \<Rightarrow> (case l of See_owner \<Rightarrow> False
       | See_process ow \<Rightarrow> (case ow of None \<Rightarrow> False | Some x \<Rightarrow> \<not> alive (lo_pid x))
       | See_file _ s \<Rightarrow> s | See_time _ s _ \<Rightarrow> s | See_identity _ s _ \<Rightarrow> s | See_clock _ s _ _ \<Rightarrow> s)
   | Decide _ _ sn \<Rightarrow> sn_stale sn
   | Remove_stale _ \<Rightarrow> True
   | _ \<Rightarrow> False)"

definition saw_none :: "pc \<Rightarrow> bool" where
  "saw_none c = (case c of Look _ (See_process None) \<Rightarrow> True | Look _ (See_file None _) \<Rightarrow> True
     | Look _ (See_time None _ _) \<Rightarrow> True | _ \<Rightarrow> False)"

definition saw_marker :: "pc \<Rightarrow> bool" where
  "saw_marker c = (case c of Old_file _ \<Rightarrow> True | Old_time _ \<Rightarrow> True | _ \<Rightarrow> False)"

definition time_list :: "lock_owner option \<Rightarrow> int option \<Rightarrow> int list" where
  "time_list ow tm = (case (ow, tm) of (None, Some t) \<Rightarrow> [t] | _ \<Rightarrow> [])"

definition turn_times :: "turn \<Rightarrow> int list" where
  "turn_times t = (case t of Waiting \<Rightarrow> [] | Reclaiming sn _ \<Rightarrow> time_list (sn_owner sn) (sn_time sn))"

definition look_times :: "looking \<Rightarrow> int list" where
  "look_times l = (case l of See_identity ow _ tm \<Rightarrow> time_list ow tm | See_clock ow _ tm _ \<Rightarrow> time_list ow tm | _ \<Rightarrow> [])"

definition times :: "pc \<Rightarrow> int list" where
  "times c = (case c of Look t l \<Rightarrow> turn_times t @ look_times l
     | Judge sn \<Rightarrow> time_list (sn_owner sn) (sn_time sn)
     | Open_marker sn \<Rightarrow> time_list (sn_owner sn) (sn_time sn)
     | Fill_marker sn _ _ \<Rightarrow> time_list (sn_owner sn) (sn_time sn)
     | Chmod_marker sn _ \<Rightarrow> time_list (sn_owner sn) (sn_time sn)
     | Decide sn _ sn' \<Rightarrow> time_list (sn_owner sn) (sn_time sn) @ time_list (sn_owner sn') (sn_time sn')
     | Old_identity sm \<Rightarrow> time_list None (sm_time sm)
     | Old_owner sm \<Rightarrow> time_list None (sm_time sm)
     | Old_judge sm \<Rightarrow> time_list None (sm_time sm)
     | _ \<Rightarrow> [])"

definition taking_over :: "pc \<Rightarrow> bool" where
  "taking_over c = (case c of Claim_marker _ \<Rightarrow> True | Claimed_identity _ \<Rightarrow> True | Claimed_owner _ _ \<Rightarrow> True
     | Link_back _ \<Rightarrow> True | Unlink_link _ \<Rightarrow> True | Reopen_marker _ \<Rightarrow> True | Refill_marker _ _ \<Rightarrow> True
     | Rechmod_marker _ \<Rightarrow> True | Unlink_claimed _ _ \<Rightarrow> True | Decide _ _ sn \<Rightarrow> sn_abandoned sn | _ \<Rightarrow> False)"

definition filling :: "pc \<Rightarrow> bool" where
  "filling c = (case c of Fill_marker _ _ _ \<Rightarrow> True | _ \<Rightarrow> False)"

definition dead_owner :: "lworld \<Rightarrow> bool" where
  "dead_owner w = (case owner_of w of None \<Rightarrow> False | Some x \<Rightarrow> \<not> lw_alive w (lo_pid x))"

section \<open>The invariant\<close>

definition proc_ok :: "int \<Rightarrow> lworld \<Rightarrow> int \<Rightarrow> pc \<Rightarrow> int \<Rightarrow> bool" where
  "proc_ok T w p c s \<longleftrightarrow>
     s \<le> lw_now w
   \<and> (holds c \<longrightarrow> (\<exists>x. owner_of w = Some x \<and> lo_pid x = p))
   \<and> (creating c \<longrightarrow> (\<exists>d. lw_dir w = Some d \<and> ld_owner d = None \<and> ld_maker d = p \<and> ld_made d = s
        \<and> (\<forall>i t. c = Rename_temp i t \<longrightarrow> i = ld_ino d \<and> s \<le> t)))
   \<and> (\<forall>k. token_of c = Some k \<longrightarrow> k < lw_fresh w \<and> (dead_owner w \<longrightarrow> (\<exists>m. marker_of w = Some m \<and> mk_ino m = Suc k)))
   \<and> (\<forall>sn k i. c = Fill_marker sn k i \<longrightarrow> i = Suc k)
   \<and> (saw_dead (lw_alive w) c \<longrightarrow> dead_owner w)
   \<and> (saw_none c \<longrightarrow> (\<forall>d. lw_dir w = Some d \<longrightarrow> 2 * s \<le> 2 * ld_made d + T))
   \<and> (saw_marker c \<longrightarrow> (\<forall>d. lw_dir w = Some d \<longrightarrow> 2 * s \<le> 2 * ld_mtime d + T))
   \<and> (\<forall>t\<in>set (times c). 2 * s \<le> 2 * t + T)
   \<and> \<not> taking_over c"

definition marker_ok :: "lworld \<Rightarrow> lock_dir \<Rightarrow> marker \<Rightarrow> bool" where
  "marker_ok w d m \<longleftrightarrow> (\<exists>h k. lw_alive w h \<and> token_of (lp_pc (lw_proc w h)) = Some k \<and> mk_ino m = Suc k
     \<and> lp_since (lw_proc w h) \<le> mk_mtime m \<and> lp_since (lw_proc w h) \<le> ld_mtime d
     \<and> (mk_body m = None \<longleftrightarrow> filling (lp_pc (lw_proc w h))) \<and> (\<forall>j. mk_body m = Some j \<longrightarrow> j = k))"

definition dir_ok :: "lworld \<Rightarrow> bool" where
  "dir_ok w \<longleftrightarrow> (\<forall>d. lw_dir w = Some d \<longrightarrow>
     ld_made d \<le> ld_mtime d
   \<and> (ld_owner d = None \<longrightarrow> lw_alive w (ld_maker d) \<and> creating (lp_pc (lw_proc w (ld_maker d))))
   \<and> (\<forall>x t. ld_owner d = Some (x, t) \<longrightarrow> ld_made d \<le> t \<and> (lw_alive w (lo_pid x) \<longrightarrow> holds (lp_pc (lw_proc w (lo_pid x)))))
   \<and> (\<forall>m. ld_marker d = Some m \<longrightarrow> marker_ok w d m))"

definition tokens_ok :: "lworld \<Rightarrow> bool" where
  "tokens_ok w \<longleftrightarrow> (\<forall>p q k. lw_alive w p \<and> lw_alive w q \<and> token_of (lp_pc (lw_proc w p)) = Some k
     \<and> token_of (lp_pc (lw_proc w q)) = Some k \<longrightarrow> p = q)"

definition lock_inv :: "int \<Rightarrow> lworld \<Rightarrow> bool" where
  "lock_inv T w \<longleftrightarrow> dir_ok w \<and> tokens_ok w
     \<and> (\<forall>p. lw_alive w p \<longrightarrow> proc_ok T w p (lp_pc (lw_proc w p)) (lp_since (lw_proc w p)))"

lemmas pc_defs = holds_def creating_def token_of_def saw_dead_def saw_none_def saw_marker_def times_def turn_times_def
  look_times_def taking_over_def filling_def

lemma goto_simps [simp]:
  "lw_now (goto p c w) = lw_now w" "lw_dir (goto p c w) = lw_dir w" "lw_alive (goto p c w) = lw_alive w"
  "lw_fresh (goto p c w) = lw_fresh w" "lw_cancelled (goto p c w) = lw_cancelled w"
  "lw_proc (goto p c w) q = (if q = p then (lw_proc w p)\<lparr>lp_pc := c\<rparr> else lw_proc w q)"
  "owner_of (goto p c w) = owner_of w" "marker_of (goto p c w) = marker_of w" "dead_owner (goto p c w) = dead_owner w"
  by (auto simp: goto_def owner_of_def marker_of_def dead_owner_def split: option.splits)

text \<open>A step that leaves the directory alone.\<close>

lemma dir_reads:
  assumes "lw_dir w' = lw_dir w"
  shows "owner_of w' = owner_of w" "marker_of w' = marker_of w"
    "lw_alive w' = lw_alive w \<Longrightarrow> dead_owner w' = dead_owner w"
  using assms by (simp_all add: owner_of_def marker_of_def dead_owner_def cong: option.case_cong)

lemma proc_ok_cong:
  assumes w': "lw_dir w' = lw_dir w" "lw_now w' = lw_now w" "lw_alive w' = lw_alive w" "lw_fresh w \<le> lw_fresh w'"
    and ok: "proc_ok T w p c s"
  shows "proc_ok T w' p c s"
proof -
  have "k < lw_fresh w'" if "k < lw_fresh w" for k using that w'(4) by simp
  then show ?thesis using ok unfolding proc_ok_def dir_reads(1,2) [OF w'(1)] dir_reads(3) [OF w'(1,3)] w'(1,2,3) by blast
qed

lemma marker_ok_cong:
  assumes m: "marker_ok w d m"
    and al: "\<And>h k. lw_alive w h \<Longrightarrow> token_of (lp_pc (lw_proc w h)) = Some k \<Longrightarrow> mk_ino m = Suc k \<Longrightarrow>
        lw_alive w' h \<and> token_of (lp_pc (lw_proc w' h)) = Some k"
    and si: "\<And>h k. lw_alive w h \<Longrightarrow> token_of (lp_pc (lw_proc w h)) = Some k \<Longrightarrow> mk_ino m = Suc k \<Longrightarrow>
        lp_since (lw_proc w' h) = lp_since (lw_proc w h) \<and> filling (lp_pc (lw_proc w' h)) = filling (lp_pc (lw_proc w h))"
    and d: "ld_mtime d \<le> ld_mtime d'"
  shows "marker_ok w' d' m"
proof -
  from m obtain h k where h: "lw_alive w h" "token_of (lp_pc (lw_proc w h)) = Some k" "mk_ino m = Suc k"
      "lp_since (lw_proc w h) \<le> mk_mtime m" "lp_since (lw_proc w h) \<le> ld_mtime d"
      "mk_body m = None \<longleftrightarrow> filling (lp_pc (lw_proc w h))" "\<forall>j. mk_body m = Some j \<longrightarrow> j = k"
    unfolding marker_ok_def by (elim exE conjE) (rule that)
  note a = al [OF h(1-3)] and s = si [OF h(1-3)]
  show ?thesis unfolding marker_ok_def
    by (rule exI [of _ h], rule exI [of _ k], unfold conjunct1 [OF s] conjunct2 [OF s])
      (intro conjI conjunct1 [OF a] conjunct2 [OF a] h(3,4,6,7) order_trans [OF h(5) d])
qed

lemma local_step:
  assumes inv: "lock_inv T w" and p: "lw_alive w p"
    and w': "lw_dir w' = lw_dir w" "lw_now w' = lw_now w" "lw_alive w' = lw_alive w" "lw_fresh w \<le> lw_fresh w'"
    and pr: "\<And>q. q \<noteq> p \<Longrightarrow> lw_proc w' q = lw_proc w q"
    and c: "lp_pc (lw_proc w p) = c" "lp_pc (lw_proc w' p) = c'"
    and ok: "proc_ok T w' p c' (lp_since (lw_proc w' p))"
    and keep: "creating c \<Longrightarrow> creating c'" "holds c \<Longrightarrow> holds c'" "token_of c' = token_of c \<or> token_of c' = None"
      "\<And>m. token_of c' \<noteq> None \<Longrightarrow> marker_of w = Some m \<Longrightarrow>
        filling c' = filling c \<and> lp_since (lw_proc w' p) = lp_since (lw_proc w p)"
      "\<And>k m. token_of c = Some k \<Longrightarrow> token_of c' = None \<Longrightarrow> marker_of w = Some m \<Longrightarrow> mk_ino m \<noteq> Suc k"
  shows "lock_inv T w'"
proof -
  note i = inv [unfolded lock_inv_def]
  have cr: "creating (lp_pc (lw_proc w' q))" if "creating (lp_pc (lw_proc w q))" for q
    using that pr(1) c keep(1) by (cases "q = p") auto
  have ho: "holds (lp_pc (lw_proc w' q))" if "holds (lp_pc (lw_proc w q))" for q
    using that pr(1) c keep(2) by (cases "q = p") auto
  have mk: "marker_ok w' d m" if d: "lw_dir w = Some d" "ld_marker d = Some m" "marker_ok w d m" for d m
  proof (rule marker_ok_cong [OF d(3)])
    fix h k assume h: "lw_alive w h" "token_of (lp_pc (lw_proc w h)) = Some k" "mk_ino m = Suc k"
    have m: "marker_of w = Some m" using d by (simp add: marker_of_def)
    then have t: "h = p \<Longrightarrow> token_of c' = Some k" using keep(3,5) h c by (metis not_None_eq)
    show "lw_alive w' h \<and> token_of (lp_pc (lw_proc w' h)) = Some k" using t h(1,2) pr(1) c w'(3) by (cases "h = p") auto
    show "lp_since (lw_proc w' h) = lp_since (lw_proc w h) \<and> filling (lp_pc (lw_proc w' h)) = filling (lp_pc (lw_proc w h))"
      using t pr c keep(4) m by (cases "h = p") auto
  qed simp
  have "dir_ok w'" using i cr ho mk unfolding dir_ok_def w'(1) w'(3) by blast
  moreover have "tokens_ok w'"
  proof -
    have "token_of (lp_pc (lw_proc w q)) = Some k" if "token_of (lp_pc (lw_proc w' q)) = Some k" for q k
      using that pr(1) c keep(3) by (cases "q = p") auto
    then show ?thesis using i unfolding tokens_ok_def w'(3) by blast
  qed
  moreover have "proc_ok T w' q (lp_pc (lw_proc w' q)) (lp_since (lw_proc w' q))" if "lw_alive w' q" for q
    using that i pr c ok proc_ok_cong [OF w'] w'(3) by (cases "q = p") auto
  ultimately show ?thesis unfolding lock_inv_def by blast
qed

lemma goto_step:
  assumes inv: "lock_inv T w" and p: "lw_alive w p" and c: "lp_pc (lw_proc w p) = c"
    and ok: "proc_ok T w p c' (lp_since (lw_proc w p))"
    and keep: "creating c \<Longrightarrow> creating c'" "holds c \<Longrightarrow> holds c'" "token_of c' = token_of c \<or> token_of c' = None"
      "token_of c' \<noteq> None \<Longrightarrow> filling c' = filling c"
      "\<And>k m. token_of c = Some k \<Longrightarrow> token_of c' = None \<Longrightarrow> marker_of w = Some m \<Longrightarrow> mk_ino m \<noteq> Suc k"
  shows "lock_inv T (goto p c' w)"
proof (rule local_step [OF inv p _ _ _ _ _ c _ _ keep(1-3)])
  show "proc_ok T (goto p c' w) p c' (lp_since (lw_proc (goto p c' w) p))"
    using proc_ok_cong [OF _ _ _ _ ok, of "goto p c' w"] by simp
qed (use keep(4,5) in simp_all)

text \<open>Facts of a good state, one by one.\<close>

lemma proc_okD:
  assumes "proc_ok T w p c s"
  shows "s \<le> lw_now w"
    and "holds c \<Longrightarrow> \<exists>x. owner_of w = Some x \<and> lo_pid x = p"
    and "creating c \<Longrightarrow> \<exists>d. lw_dir w = Some d \<and> ld_owner d = None \<and> ld_maker d = p \<and> ld_made d = s
        \<and> (\<forall>i t. c = Rename_temp i t \<longrightarrow> i = ld_ino d \<and> s \<le> t)"
    and "token_of c = Some k \<Longrightarrow> k < lw_fresh w"
    and "token_of c = Some k \<Longrightarrow> dead_owner w \<Longrightarrow> \<exists>m. marker_of w = Some m \<and> mk_ino m = Suc k"
    and "c = Fill_marker sn k i \<Longrightarrow> i = Suc k"
    and "saw_dead (lw_alive w) c \<Longrightarrow> dead_owner w"
    and "saw_none c \<Longrightarrow> lw_dir w = Some d \<Longrightarrow> 2 * s \<le> 2 * ld_made d + T"
    and "saw_marker c \<Longrightarrow> lw_dir w = Some d \<Longrightarrow> 2 * s \<le> 2 * ld_mtime d + T"
    and "t \<in> set (times c) \<Longrightarrow> 2 * s \<le> 2 * t + T"
    and "\<not> taking_over c"
  using assms unfolding proc_ok_def by simp_all

lemma dir_okD:
  assumes "lock_inv T w" "lw_dir w = Some d"
  shows "ld_made d \<le> ld_mtime d"
    and "ld_owner d = None \<Longrightarrow> lw_alive w (ld_maker d)" "ld_owner d = None \<Longrightarrow> creating (lp_pc (lw_proc w (ld_maker d)))"
    and "ld_owner d = Some (x, t) \<Longrightarrow> ld_made d \<le> t"
    and "ld_owner d = Some (x, t) \<Longrightarrow> lw_alive w (lo_pid x) \<Longrightarrow> holds (lp_pc (lw_proc w (lo_pid x)))"
    and "ld_marker d = Some m \<Longrightarrow> marker_ok w d m"
  using assms unfolding lock_inv_def dir_ok_def by simp_all

lemma inv_proc: "lock_inv T w \<Longrightarrow> lw_alive w p \<Longrightarrow> lp_pc (lw_proc w p) = c \<Longrightarrow> proc_ok T w p c (lp_since (lw_proc w p))"
  by (auto simp: lock_inv_def)

lemma inv_owner_none:
  assumes "lock_inv T w" "prompt T w" "lw_dir w = Some d" "ld_owner d = None"
  shows "2 * (lw_now w - ld_made d) \<le> T"
proof -
  let ?h = "ld_maker d"
  note h = dir_okD(2,3) [OF assms(1,3,4)]
  have "ld_made d = lp_since (lw_proc w ?h)" using proc_okD(3) [OF inv_proc [OF assms(1) h(1) refl] h(2)] assms(3) by simp
  moreover have "turning (lp_pc (lw_proc w ?h))" using h(2) by (auto simp: creating_def turning_def split: pc.splits)
  ultimately show ?thesis using assms(2) h(1) unfolding prompt_def by simp
qed

lemma inv_marker:
  assumes "lock_inv T w" "prompt T w" "lw_dir w = Some d" "ld_marker d = Some m"
  shows "2 * (lw_now w - mk_mtime m) \<le> T \<and> 2 * (lw_now w - ld_mtime d) \<le> T"
proof -
  have "marker_ok w d m" using dir_okD(6) [OF assms(1,3,4)] .
  then obtain h k where h: "lw_alive w h" "token_of (lp_pc (lw_proc w h)) = Some k"
      "lp_since (lw_proc w h) \<le> mk_mtime m" "lp_since (lw_proc w h) \<le> ld_mtime d"
    unfolding marker_ok_def by (elim exE conjE) (rule that)
  have "turning (lp_pc (lw_proc w h))" using h(2) by (auto simp: token_of_def turning_def split: pc.splits)
  then have "2 * (lw_now w - lp_since (lw_proc w h)) \<le> T" using assms(2) h(1) unfolding prompt_def by simp
  then show ?thesis using h(3,4) by simp
qed

text \<open>In the directory of a dead owner only the process that wrote the marker is inside \<open>reclaimStaleLock\<close>.\<close>

lemma dead_owner_alone:
  assumes inv: "lock_inv T w" and d: "dead_owner w"
    and p: "lw_alive w p" "token_of (lp_pc (lw_proc w p)) = Some k"
    and q: "lw_alive w q" "token_of (lp_pc (lw_proc w q)) = Some j"
  shows "q = p"
proof -
  have "\<exists>m. marker_of w = Some m \<and> mk_ino m = Suc k" "\<exists>m. marker_of w = Some m \<and> mk_ino m = Suc j"
    using proc_okD(5) [OF inv_proc [OF inv p(1) refl] p(2) d] proc_okD(5) [OF inv_proc [OF inv q(1) refl] q(2) d] by simp_all
  then have "k = j" by auto
  then show ?thesis using inv p q unfolding lock_inv_def tokens_ok_def by blast
qed

section \<open>Steps that only look\<close>

lemma look_ok:
  assumes inv: "lock_inv T w" and pro: "prompt T w" and p: "lw_alive w p" and c: "lp_pc (lw_proc w p) = Look t l"
    and T: "T \<le> lk_reclaimMs lo"
    and live: "\<And>x tm al. al (lo_pid x) \<Longrightarrow> 0 < lo_pid x \<Longrightarrow> lk_live lo x tm al"
  shows "lock_inv T (look_at lo p t l w)"
proof -
  note ok = inv_proc [OF inv p c]
  have now: "2 * (lw_now w - lp_since (lw_proc w p)) \<le> T" using pro p c by (simp add: prompt_def turning_def)
  show ?thesis
  proof (cases l)
    case See_owner
    have none: "2 * lp_since (lw_proc w p) \<le> 2 * ld_made d + T" if "lw_dir w = Some d" "ld_owner d = None" for d
      using inv_owner_none [OF inv pro that] proc_okD(1) [OF ok] by simp
    have "proc_ok T w p (Look t (See_process (owner_of w))) (lp_since (lw_proc w p))"
      using ok none unfolding proc_ok_def See_owner
      by (auto simp: pc_defs dead_owner_def owner_of_def split: turn.splits option.splits)
    then show ?thesis unfolding See_owner
      by (auto intro!: goto_step [OF inv p c] simp: See_owner pc_defs split: turn.splits)
  next
    case (See_process ow)
    have "proc_ok T w p (Look t (See_file ow (see_process lo ow w))) (lp_since (lw_proc w p))"
      using ok live unfolding proc_ok_def See_process
      by (auto simp: pc_defs see_process_def split: turn.splits option.splits)
    then show ?thesis unfolding See_process
      by (auto intro!: goto_step [OF inv p c] simp: See_process pc_defs split: turn.splits)
  next
    case (See_file ow st)
    have "proc_ok T w p (Look t (See_time ow st (owner_of w \<noteq> None))) (lp_since (lw_proc w p))"
      using ok unfolding proc_ok_def See_file
      by (auto simp: pc_defs split: turn.splits option.splits)
    then show ?thesis unfolding See_file
      by (auto intro!: goto_step [OF inv p c] simp: See_file pc_defs split: turn.splits)
  next
    case (See_time ow st th)
    let ?tm = "time_of th (\<lambda>d. map_option snd (ld_owner d)) (lw_dir w)"
    have "2 * lp_since (lw_proc w p) \<le> 2 * n + T" if ow: "ow = None" and tm: "?tm = Some n" for n
    proof -
      obtain d where d: "lw_dir w = Some d" "n = ld_mtime d \<or> (\<exists>x. ld_owner d = Some (x, n))"
        using tm by (auto simp: time_of_def split: option.splits if_splits)
      then have "ld_made d \<le> n" using dir_okD(1,4) [OF inv d(1)] by blast
      moreover have "2 * lp_since (lw_proc w p) \<le> 2 * ld_made d + T"
        using proc_okD(8) [OF ok _ d(1)] ow See_time by (simp add: saw_none_def)
      ultimately show ?thesis by simp
    qed
    then have "proc_ok T w p (Look t (See_identity ow st ?tm)) (lp_since (lw_proc w p))"
      using ok unfolding proc_ok_def See_time
      by (auto simp: pc_defs time_list_def split: turn.splits option.splits)
    then show ?thesis unfolding See_time
      by (auto intro!: goto_step [OF inv p c] simp: See_time pc_defs split: turn.splits)
  next
    case (See_identity ow st tm)
    have "proc_ok T w p (Look t (See_clock ow st tm (map_option ld_ino (lw_dir w)))) (lp_since (lw_proc w p))"
      using ok unfolding proc_ok_def See_identity
      by (auto simp: pc_defs split: turn.splits option.splits)
    then show ?thesis unfolding See_identity
      by (auto intro!: goto_step [OF inv p c] simp: See_identity pc_defs split: turn.splits)
  next
    case (See_clock ow st tm id)
    let ?sn = "\<lparr>sn_owner = ow, sn_stale = st, sn_time = tm, sn_ident = id,
       sn_abandoned = (case tm of None \<Rightarrow> False | Some n \<Rightarrow> ow = None \<and> lk_reclaimMs lo < lw_now w - n)\<rparr>"
    let ?c = "case t of Waiting \<Rightarrow> Judge ?sn | Reclaiming previous tok \<Rightarrow> Decide previous tok ?sn"
    have ab: "\<not> sn_abandoned ?sn"
    proof (cases "ow = None \<and> tm \<noteq> None")
      case True
      then obtain n where n: "tm = Some n" by blast
      then have "n \<in> set (times (Look t l))" using True by (simp add: See_clock times_def look_times_def time_list_def)
      then have "2 * lp_since (lw_proc w p) \<le> 2 * n + T" using proc_okD(10) [OF ok] by blast
      then show ?thesis using n now T by simp
    qed (auto split: option.splits)
    have "proc_ok T w p ?c (lp_since (lw_proc w p))"
      using ok ab unfolding proc_ok_def See_clock
      by (cases t) (simp_all add: pc_defs)
    then show ?thesis unfolding See_clock
      by (cases t) (auto intro!: goto_step [OF inv p c] simp: Let_def See_clock pc_defs)
  qed
qed

section \<open>Steps that change the directory\<close>

lemma dir_step:
  assumes inv: "lock_inv T w" and p: "lw_alive w p"
    and d: "lw_dir w = Some d" "lw_dir w' = Some d'" "ld_made d' = ld_made d" "ld_maker d' = ld_maker d"
      "ld_ino d' = ld_ino d" "ld_owner d' = ld_owner d" "ld_mtime d \<le> ld_mtime d'"
    and w': "lw_now w' = lw_now w" "lw_alive w' = lw_alive w" "lw_fresh w \<le> lw_fresh w'"
    and pr: "\<And>q. q \<noteq> p \<Longrightarrow> lw_proc w' q = lw_proc w q"
    and c: "lp_pc (lw_proc w p) = c" "lp_pc (lw_proc w' p) = c'" "lp_since (lw_proc w' p) = lp_since (lw_proc w p)"
    and ok: "proc_ok T w' p c' (lp_since (lw_proc w p))"
    and keep: "creating c \<Longrightarrow> creating c'" "holds c \<Longrightarrow> holds c'"
      "\<And>k. token_of c' = Some k \<Longrightarrow> token_of c = Some k \<or> lw_fresh w \<le> k"
    and mark: "\<And>m. ld_marker d' = Some m \<Longrightarrow> marker_ok w' d' m"
    and others: "\<And>q k. dead_owner w \<Longrightarrow> q \<noteq> p \<Longrightarrow> lw_alive w q \<Longrightarrow> token_of (lp_pc (lw_proc w q)) = Some k \<Longrightarrow>
        \<exists>m. ld_marker d' = Some m \<and> mk_ino m = Suc k"
  shows "lock_inv T w'"
proof -
  have ow: "owner_of w' = owner_of w" using d by (simp add: owner_of_def)
  then have dead: "dead_owner w' = dead_owner w" using w'(2) by (simp add: dead_owner_def cong: option.case_cong)
  have cr: "creating (lp_pc (lw_proc w' q))" if "creating (lp_pc (lw_proc w q))" for q
    using that pr c keep(1) by (cases "q = p") auto
  have ho: "holds (lp_pc (lw_proc w' q))" if "holds (lp_pc (lw_proc w q))" for q
    using that pr c keep(2) by (cases "q = p") auto
  have "dir_ok w'" unfolding dir_ok_def
  proof (intro allI impI)
    fix e assume "lw_dir w' = Some e"
    then have e: "e = d'" using d by simp
    show "ld_made e \<le> ld_mtime e
      \<and> (ld_owner e = None \<longrightarrow> lw_alive w' (ld_maker e) \<and> creating (lp_pc (lw_proc w' (ld_maker e))))
      \<and> (\<forall>x t. ld_owner e = Some (x, t) \<longrightarrow> ld_made e \<le> t \<and> (lw_alive w' (lo_pid x) \<longrightarrow> holds (lp_pc (lw_proc w' (lo_pid x)))))
      \<and> (\<forall>m. ld_marker e = Some m \<longrightarrow> marker_ok w' e m)"
      using dir_okD [OF inv d(1)] d w' mark cr ho unfolding e by auto
  qed
  moreover have "tokens_ok w'" unfolding tokens_ok_def
  proof (intro allI impI)
    fix q r k
    assume a: "lw_alive w' q \<and> lw_alive w' r \<and> token_of (lp_pc (lw_proc w' q)) = Some k \<and> token_of (lp_pc (lw_proc w' r)) = Some k"
    have old: "token_of (lp_pc (lw_proc w x)) = Some k \<or> x = p \<and> lw_fresh w \<le> k"
      if "token_of (lp_pc (lw_proc w' x)) = Some k" for x
      using that pr c keep(3) by (cases "x = p") auto
    have small: "k < lw_fresh w" if "lw_alive w x" "token_of (lp_pc (lw_proc w x)) = Some k" for x
      using proc_okD(4) [OF inv_proc [OF inv that(1) refl] that(2)] .
    show "q = r"
    proof (cases "lw_fresh w \<le> k")
      case True
      then show ?thesis using old small a w'(2) by (metis not_le)
    next
      case False
      then show ?thesis using old [of q] old [of r] a inv unfolding lock_inv_def tokens_ok_def w'(2) by blast
    qed
  qed
  moreover have "proc_ok T w' q (lp_pc (lw_proc w' q)) (lp_since (lw_proc w' q))" if q: "lw_alive w' q" for q
  proof (cases "q = p")
    case False
    let ?c = "lp_pc (lw_proc w q)" and ?s = "lp_since (lw_proc w q)"
    have q': "proc_ok T w q ?c ?s" using inv q w'(2) by (simp add: lock_inv_def)
    have "\<exists>m. marker_of w' = Some m \<and> mk_ino m = Suc k" if "token_of ?c = Some k" "dead_owner w" for k
      using others [OF that(2) False _ that(1)] q w'(2) d(2) by (simp add: marker_of_def)
    then have "proc_ok T w' q ?c ?s"
      using proc_okD [OF q'] d w' ow dead unfolding proc_ok_def
      by (intro conjI impI allI ballI) (force intro: less_le_trans order_trans)+
    then show ?thesis using pr [OF False] by simp
  qed (use c ok in simp)
  ultimately show ?thesis unfolding lock_inv_def by blast
qed

lemma effect_simps [simp]:
  "lw_now (on_dir f w) = lw_now w" "lw_alive (on_dir f w) = lw_alive w" "lw_fresh (on_dir f w) = lw_fresh w"
  "lw_proc (on_dir f w) = lw_proc w" "lw_dir (on_dir f w) = map_option f (lw_dir w)"
  "lw_now (entry_change f w) = lw_now w" "lw_alive (entry_change f w) = lw_alive w" "lw_fresh (entry_change f w) = lw_fresh w"
  "lw_proc (entry_change f w) = lw_proc w"
  "lw_dir (entry_change f w) = map_option (\<lambda>d. (f d)\<lparr>ld_mtime := lw_now w\<rparr>) (lw_dir w)"
  by (simp_all add: on_dir_def entry_change_def)

lemma removal_step:
  assumes inv: "lock_inv T w" and p: "lw_alive w p"
    and w': "lw_dir w' = None" "lw_now w' = lw_now w" "lw_alive w' = lw_alive w" "lw_fresh w' = lw_fresh w"
    and pr: "\<And>q. q \<noteq> p \<Longrightarrow> lw_proc w' q = lw_proc w q"
    and c: "lp_pc (lw_proc w' p) = c'" "c' = Out \<or> c' = Top" "lp_since (lw_proc w' p) \<le> lw_now w"
    and own: "owner_of w = Some x"
    and alone: "\<And>q. q \<noteq> p \<Longrightarrow> lw_alive w q \<Longrightarrow> q \<noteq> lo_pid x \<and> (token_of (lp_pc (lw_proc w q)) = None \<or> \<not> dead_owner w)"
  shows "lock_inv T w'"
proof -
  have none: "owner_of w' = None" "\<not> dead_owner w'" using w'(1) by (simp_all add: owner_of_def dead_owner_def)
  have tok: "token_of (lp_pc (lw_proc w' q)) = Some k \<Longrightarrow> q \<noteq> p \<and> token_of (lp_pc (lw_proc w q)) = Some k" for q k
    using pr c by (cases "q = p") (auto simp: token_of_def)
  have "tokens_ok w'" using inv tok unfolding lock_inv_def tokens_ok_def w'(3) by blast
  moreover have "proc_ok T w' q (lp_pc (lw_proc w' q)) (lp_since (lw_proc w' q))" if q: "lw_alive w' q" for q
  proof (cases "q = p")
    case True
    then show ?thesis using c w' none unfolding proc_ok_def by (auto simp: pc_defs)
  next
    case False
    let ?c = "lp_pc (lw_proc w q)" and ?s = "lp_since (lw_proc w q)"
    have q': "proc_ok T w q ?c ?s" using inv q w'(3) by (simp add: lock_inv_def)
    note a = alone [OF False, unfolded w'(3) [symmetric], OF q]
    have "\<not> holds ?c" using proc_okD(2) [OF q'] own a by auto
    moreover have "\<not> creating ?c" using proc_okD(3) [OF q'] own by (auto simp: owner_of_def)
    moreover have "\<not> saw_dead (lw_alive w) ?c"
    proof
      assume s: "saw_dead (lw_alive w) ?c"
      then have "token_of ?c \<noteq> None" by (auto simp: saw_dead_def token_of_def split: pc.splits turn.splits)
      then show False using a proc_okD(7) [OF q' s] by simp
    qed
    ultimately have "proc_ok T w' q ?c ?s"
      using proc_okD [OF q'] w' none unfolding proc_ok_def by auto
    then show ?thesis using pr [OF False] by simp
  qed
  ultimately show ?thesis using w'(1) unfolding lock_inv_def dir_ok_def by simp
qed

lemma creation_step:
  assumes T: "0 \<le> T" and inv: "lock_inv T w" and p: "lw_alive w p" and d: "lw_dir w = None"
    and c: "lp_pc (lw_proc w p) = Top"
    and w': "w' = goto p Chmod_dir (make_dir p (w\<lparr>lw_proc := (lw_proc w)(p := (lw_proc w p)\<lparr>lp_since := lw_now w\<rparr>)\<rparr>))"
  shows "lock_inv T w'"
proof -
  have none: "owner_of w = None" "\<not> dead_owner w" using d by (simp_all add: owner_of_def dead_owner_def)
  have none': "owner_of w' = None" "\<not> dead_owner w'" by (simp_all add: w' owner_of_def dead_owner_def make_dir_def goto_def)
  have f: "lw_now w' = lw_now w" "lw_alive w' = lw_alive w" "lw_fresh w' = Suc (lw_fresh w)"
      "\<And>q. q \<noteq> p \<Longrightarrow> lw_proc w' q = lw_proc w q" "lp_pc (lw_proc w' p) = Chmod_dir" "lp_since (lw_proc w' p) = lw_now w"
      "\<exists>d. lw_dir w' = Some d" "\<And>d. lw_dir w' = Some d \<Longrightarrow> ld_owner d = None \<and> ld_marker d = None \<and> ld_maker d = p
        \<and> ld_made d = lw_now w \<and> ld_mtime d = lw_now w"
    by (auto simp: w' make_dir_def)
  have cr: "creating (lp_pc (lw_proc w' p))" by (simp add: f(5) creating_def)
  have tok: "token_of (lp_pc (lw_proc w' q)) = Some k \<Longrightarrow> q \<noteq> p \<and> token_of (lp_pc (lw_proc w q)) = Some k" for q k
    using f(4,5) by (cases "q = p") (auto simp: token_of_def)
  have "tokens_ok w'" using inv tok unfolding lock_inv_def tokens_ok_def f(2) by blast
  moreover have "dir_ok w'" using f p cr unfolding dir_ok_def by auto
  moreover have "proc_ok T w' q (lp_pc (lw_proc w' q)) (lp_since (lw_proc w' q))" if q: "lw_alive w' q" for q
  proof (cases "q = p")
    case True
    then show ?thesis using f none' unfolding proc_ok_def by (auto simp: pc_defs)
  next
    case False
    let ?c = "lp_pc (lw_proc w q)" and ?s = "lp_since (lw_proc w q)"
    have q': "proc_ok T w q ?c ?s" using inv q f(2) by (simp add: lock_inv_def)
    have "2 * ?s \<le> 2 * lw_now w + T" using proc_okD(1) [OF q'] T by simp
    then have "proc_ok T w' q ?c ?s"
      using proc_okD [OF q'] f(1,2,3,8) none none' d unfolding proc_ok_def by (auto simp: less_Suc_eq)
    then show ?thesis using f(4) [OF False] by simp
  qed
  ultimately show ?thesis unfolding lock_inv_def by blast
qed

lemma owner_step:
  assumes inv: "lock_inv T w" and p: "lw_alive w p" and c: "lp_pc (lw_proc w p) = Rename_temp i t"
    and d: "lw_dir w = Some d"
    and w': "w' = goto p Chmod_owner (entry_change (\<lambda>d. d\<lparr>ld_owner := Some (\<lparr>lo_pid = p, lo_startedAt = n\<rparr>, t)\<rparr>) w)"
    and now: "ld_mtime d \<le> lw_now w"
  shows "lock_inv T w'"
proof -
  have "creating (Rename_temp i t)" by (simp add: creating_def)
  then have o: "ld_owner d = None" "ld_maker d = p" "ld_made d = lp_since (lw_proc w p)" "lp_since (lw_proc w p) \<le> t"
    using proc_okD(3) [OF inv_proc [OF inv p c]] d by auto
  have own: "owner_of w' = Some \<lparr>lo_pid = p, lo_startedAt = n\<rparr>" "\<not> dead_owner w" "owner_of w = None"
    using d o by (simp_all add: w' owner_of_def dead_owner_def goto_def)
  have f: "lw_now w' = lw_now w" "lw_alive w' = lw_alive w" "lw_fresh w' = lw_fresh w"
      "\<And>q. q \<noteq> p \<Longrightarrow> lw_proc w' q = lw_proc w q" "lp_pc (lw_proc w' p) = Chmod_owner"
      "lp_since (lw_proc w' p) = lp_since (lw_proc w p)"
      "lw_dir w' = Some (d\<lparr>ld_owner := Some (\<lparr>lo_pid = p, lo_startedAt = n\<rparr>, t), ld_mtime := lw_now w\<rparr>)"
      "marker_of w' = marker_of w"
    using d by (simp_all add: w' marker_of_def)
  have alive: "\<not> dead_owner w'" using own f(2) p by (simp add: dead_owner_def)
  have tok: "token_of (lp_pc (lw_proc w' q)) = Some k \<Longrightarrow> q \<noteq> p \<and> token_of (lp_pc (lw_proc w q)) = Some k" for q k
    using f(4,5) by (cases "q = p") (auto simp: token_of_def)
  have "tokens_ok w'" using inv tok unfolding lock_inv_def tokens_ok_def f(2) by blast
  moreover have "dir_ok w'"
  proof -
    have mk: "marker_ok w' (d\<lparr>ld_owner := Some (\<lparr>lo_pid = p, lo_startedAt = n\<rparr>, t), ld_mtime := lw_now w\<rparr>) m"
      if m: "ld_marker d = Some m" for m
    proof (rule marker_ok_cong [OF dir_okD(6) [OF inv d m]])
      fix h k assume h: "lw_alive w h" "token_of (lp_pc (lw_proc w h)) = Some k"
      then have "h \<noteq> p" using c by (auto simp: token_of_def)
      then show "lw_alive w' h \<and> token_of (lp_pc (lw_proc w' h)) = Some k"
        "lp_since (lw_proc w' h) = lp_since (lw_proc w h) \<and> filling (lp_pc (lw_proc w' h)) = filling (lp_pc (lw_proc w h))"
        using h f(2,4) by simp_all
    qed (simp add: now)
    have "ld_made d \<le> lw_now w" using dir_okD(1) [OF inv d] now by simp
    then show ?thesis using f o p mk unfolding dir_ok_def by (auto simp: holds_def)
  qed
  moreover have "proc_ok T w' q (lp_pc (lw_proc w' q)) (lp_since (lw_proc w' q))" if q: "lw_alive w' q" for q
  proof (cases "q = p")
    case True
    then show ?thesis using f own alive proc_okD(1) [OF inv_proc [OF inv p c]] unfolding proc_ok_def by (auto simp: pc_defs)
  next
    case False
    let ?c = "lp_pc (lw_proc w q)" and ?s = "lp_since (lw_proc w q)"
    have q': "proc_ok T w q ?c ?s" using inv q f(2) by (simp add: lock_inv_def)
    have "\<not> creating ?c" using proc_okD(3) [OF q'] d o(2) False by auto
    moreover have "\<not> holds ?c" using proc_okD(2) [OF q'] own(3) by auto
    moreover have "2 * ?s \<le> 2 * lw_now w + T" if "saw_marker ?c"
      using proc_okD(9) [OF q' that d] now by simp
    ultimately have "proc_ok T w' q ?c ?s"
      using proc_okD [OF q'] f(1,2,3,7,8) own alive d unfolding proc_ok_def by auto
    then show ?thesis using f(4) [OF False] by simp
  qed
  ultimately show ?thesis unfolding lock_inv_def by blast
qed

section \<open>Every step\<close>

text \<open>All times are in the past.\<close>

definition past :: "lworld \<Rightarrow> bool" where
  "past w \<longleftrightarrow> (\<forall>d. lw_dir w = Some d \<longrightarrow> ld_mtime d \<le> lw_now w)"

lemma lock_ok:
  assumes T: "0 \<le> T" and inv: "lock_inv T w" and past: "past w" and p: "lw_alive w p"
    and c: "lp_pc (lw_proc w p) = c" and l: "in_loop c"
  shows "lock_inv T (lock_at lo p c w)"
proof -
  note ok = inv_proc [OF inv p c]
  have loc: "proc_ok T w p c' (lp_since (lw_proc w p))"
    if "\<not> holds c'" "\<not> creating c'" "token_of c' = None" "\<not> saw_dead (lw_alive w) c'" "\<not> saw_none c'" "\<not> saw_marker c'"
      "set (times c') \<subseteq> set (times c)" "\<not> taking_over c'" "\<And>a b d. c' \<noteq> Fill_marker a b d" for c'
    using proc_okD(1,10) [OF ok] that unfolding proc_ok_def by auto
  show ?thesis
  proof (cases c)
    case Top
    define w1 where "w1 = w\<lparr>lw_proc := (lw_proc w)(p := (lw_proc w p)\<lparr>lp_since := lw_now w\<rparr>)\<rparr>"
    have stay: "lock_inv T (goto p c' w1)" if c': "c' = Failed e \<or> c' = Look Waiting See_owner" for c' e
      by (rule local_step [OF inv p _ _ _ _ _ c])
        (use c' Top in \<open>auto simp: w1_def proc_ok_def pc_defs goto_def\<close>)
    show ?thesis
      using creation_step [OF T inv p _ c [unfolded Top] refl] stay
      unfolding Top lock_at.simps Let_def w1_def [symmetric] by (simp add: w1_def)
  next
    case Chmod_dir
    then obtain d where d: "lw_dir w = Some d" using proc_okD(3) [OF ok] by (auto simp: creating_def)
    have "proc_ok T w p Ensure_dir (lp_since (lw_proc w p))" using ok unfolding Chmod_dir proc_ok_def by (auto simp: pc_defs)
    from goto_step [OF inv p c this] d show ?thesis by (simp add: Chmod_dir pc_defs)
  next
    case Ensure_dir
    then obtain d where d: "lw_dir w = Some d" using proc_okD(3) [OF ok] by (auto simp: creating_def)
    have "proc_ok T w p Write_temp (lp_since (lw_proc w p))" using ok unfolding Ensure_dir proc_ok_def by (auto simp: pc_defs)
    from goto_step [OF inv p c this] d show ?thesis by (simp add: Ensure_dir pc_defs)
  next
    case Write_temp
    then obtain d where d: "lw_dir w = Some d" using proc_okD(3) [OF ok] by (auto simp: creating_def)
    let ?w = "goto p (Rename_temp (ld_ino d) (lw_now w)) (entry_change id w)"
    have m: "ld_mtime d \<le> lw_now w" using past d by (simp add: past_def)
    have "lock_inv T ?w"
    proof (rule dir_step [OF inv p d _ _ _ _ _ _ _ _ _ _ c])
      show "proc_ok T ?w p (Rename_temp (ld_ino d) (lw_now w)) (lp_since (lw_proc w p))"
        using ok d unfolding Write_temp proc_ok_def by (auto simp: pc_defs)
      fix k assume k: "ld_marker (d\<lparr>ld_mtime := lw_now w\<rparr>) = Some k"
      show "marker_ok ?w (d\<lparr>ld_mtime := lw_now w\<rparr>) k"
        by (rule marker_ok_cong [OF dir_okD(6) [OF inv d]])
          (use k m c in \<open>auto simp: Write_temp token_of_def\<close>)
    next
      fix q k assume "dead_owner w" "lw_alive w q" "token_of (lp_pc (lw_proc w q)) = Some k"
      then show "\<exists>m. ld_marker (d\<lparr>ld_mtime := lw_now w\<rparr>) = Some m \<and> mk_ino m = Suc k"
        using proc_okD(5) [OF inv_proc [OF inv _ refl]] d by (auto simp: marker_of_def)
    qed (use d m in \<open>simp_all add: Write_temp pc_defs\<close>)
    then show ?thesis by (simp add: Write_temp d)
  next
    case (Rename_temp i t)
    then obtain d where d: "lw_dir w = Some d" "i = ld_ino d" using proc_okD(3) [OF ok] by (auto simp: creating_def)
    have "ld_mtime d \<le> lw_now w" using past d by (simp add: past_def)
    then show ?thesis using owner_step [OF inv p c [unfolded Rename_temp] d(1) refl] d unfolding Rename_temp by simp
  next
    case Chmod_owner
    have "proc_ok T w p Work (lp_since (lw_proc w p))" using ok unfolding Chmod_owner proc_ok_def by (auto simp: pc_defs)
    from goto_step [OF inv p c this] proc_okD(2) [OF ok] show ?thesis by (auto simp: Chmod_owner pc_defs)
  next
    case Work
    have "proc_ok T w p Unlock (lp_since (lw_proc w p))" using ok unfolding Work proc_ok_def by (auto simp: pc_defs)
    from goto_step [OF inv p c this] show ?thesis by (simp add: Work pc_defs)
  next
    case Unlock
    have "proc_ok T w p Remove_lock (lp_since (lw_proc w p))" using ok unfolding Unlock proc_ok_def by (auto simp: pc_defs)
    from goto_step [OF inv p c this] proc_okD(2) [OF ok] show ?thesis by (auto simp: Unlock pc_defs)
  next
    case Remove_lock
    then obtain x where x: "owner_of w = Some x" "lo_pid x = p" using proc_okD(2) [OF ok] by (auto simp: holds_def)
    have "\<not> dead_owner w" using x p by (simp add: dead_owner_def)
    then have "lock_inv T (goto p Out (w\<lparr>lw_dir := None\<rparr>))"
      by (intro removal_step [OF inv p _ _ _ _ _ _ _ _ x(1)]) (use x proc_okD(1) [OF ok] in \<open>auto simp: goto_def\<close>)
    then show ?thesis by (simp add: Remove_lock)
  next
    case (Judge sn)
    have "proc_ok T w p Top (lp_since (lw_proc w p))" "proc_ok T w p (Open_marker sn) (lp_since (lw_proc w p))"
      "proc_ok T w p Give_up (lp_since (lw_proc w p))" by (rule loc; simp add: Judge pc_defs)+
    from this [THEN goto_step [OF inv p c]] show ?thesis by (simp add: Judge pc_defs)
  next
    case Give_up
    have "lock_inv T (goto p c' w)" if "c' = Failed e \<or> c' = Sleeping t" for c' e t
      by (rule goto_step [OF inv p c]) (use that loc in \<open>auto simp: Give_up pc_defs\<close>)
    then show ?thesis by (simp add: Give_up give_up_def)
  next
    case (Sleeping t)
    have "proc_ok T w p Top (lp_since (lw_proc w p))" by (rule loc; simp add: Sleeping pc_defs)
    from goto_step [OF inv p c this] show ?thesis by (simp add: Sleeping pc_defs)
  qed (use l in \<open>simp_all add: in_loop_def\<close>)
qed

lemma drop_ok:
  assumes inv: "lock_inv T w" and past: "past w" and p: "lw_alive w p"
    and c: "lp_pc (lw_proc w p) = Drop_marker k b"
    and d: "lw_dir w = Some d" and c': "c' = Top \<or> c' = Give_up"
  shows "lock_inv T (goto p c' (entry_change (\<lambda>d. d\<lparr>ld_marker := None\<rparr>) w))"
proof -
  note ok = inv_proc [OF inv p c]
  have m: "ld_mtime d \<le> lw_now w" using past d by (simp add: past_def)
  show ?thesis
  proof (rule dir_step [OF inv p d _ _ _ _ _ _ _ _ _ _ c])
    show "proc_ok T (goto p c' (entry_change (\<lambda>d. d\<lparr>ld_marker := None\<rparr>) w)) p c' (lp_since (lw_proc w p))"
      using c' proc_okD(1) [OF ok] unfolding proc_ok_def by (auto simp: pc_defs)
    fix q j assume "dead_owner w" "q \<noteq> p" "lw_alive w q" "token_of (lp_pc (lw_proc w q)) = Some j"
    then show "\<exists>m. ld_marker (d\<lparr>ld_marker := None, ld_mtime := lw_now w\<rparr>) = Some m \<and> mk_ino m = Suc j"
      using dead_owner_alone [OF inv _ p] c by (auto simp: token_of_def)
  qed (use d m c' in \<open>auto simp: pc_defs\<close>)
qed

lemma reclaim_ok:
  assumes inv: "lock_inv T w" and pro: "prompt T w" and past: "past w" and p: "lw_alive w p"
    and c: "lp_pc (lw_proc w p) = c" and r: "in_reclaim c" and T: "T \<le> lk_reclaimMs lo"
  shows "lock_inv T (reclaim_at lo p c w)"
proof -
  note ok = inv_proc [OF inv p c]
  show ?thesis
  proof (cases c)
    case (Decide previous k latest)
    have now: "2 * (lw_now w - lp_since (lw_proc w p)) \<le> T" using pro p c Decide by (simp add: prompt_def turning_def)
    have "\<not> still_abandoned (lk_reclaimMs lo) (lw_now w) latest previous"
    proof
      assume "still_abandoned (lk_reclaimMs lo) (lw_now w) latest previous"
      then obtain t where t: "sn_owner previous = None" "sn_time previous = Some t" "lk_reclaimMs lo < lw_now w - t"
        by (auto simp: still_abandoned_def split: option.splits)
      then have "t \<in> set (times c)" by (simp add: Decide times_def time_list_def)
      from proc_okD(10) [OF ok this] now t(3) T show False by simp
    qed
    then have still: "still_abandoned (lk_reclaimMs lo) (lw_now w) latest previous = False" by simp
    have "\<not> sn_abandoned latest" using proc_okD(11) [OF ok] Decide by (simp add: taking_over_def)
    moreover have "lock_inv T (goto p (Drop_read k b) w)" for b
      by (rule goto_step [OF inv p c]) (use ok Decide in \<open>auto simp: proc_ok_def pc_defs\<close>)
    moreover have "lock_inv T (goto p (Remove_stale k) w)" if "sn_stale latest"
      by (rule goto_step [OF inv p c]) (use ok Decide that in \<open>auto simp: proc_ok_def pc_defs\<close>)
    ultimately show ?thesis by (simp add: Decide still)
  next
    case (Remove_stale k)
    have d: "dead_owner w" using proc_okD(7) [OF ok] by (simp add: Remove_stale saw_dead_def)
    then obtain x where x: "owner_of w = Some x" "\<not> lw_alive w (lo_pid x)" by (auto simp: dead_owner_def split: option.splits)
    have tok: "token_of (lp_pc (lw_proc w p)) = Some k" using c by (simp add: Remove_stale token_of_def)
    have "lock_inv T (goto p Top (w\<lparr>lw_dir := None\<rparr>))"
    proof (rule removal_step [OF inv p _ _ _ _ _ _ _ _ x(1)])
      fix q assume q: "q \<noteq> p" "lw_alive w q"
      show "q \<noteq> lo_pid x \<and> (token_of (lp_pc (lw_proc w q)) = None \<or> \<not> dead_owner w)"
        using q x(2) dead_owner_alone [OF inv d p tok q(2)] by (cases "token_of (lp_pc (lw_proc w q))") auto
    qed (use proc_okD(1) [OF ok] in \<open>auto simp: goto_def\<close>)
    then show ?thesis by (simp add: Remove_stale)
  next
    case (Drop_read k b)
    have lost: "mk_ino m \<noteq> Suc k" if m: "marker_of w = Some m" "mk_body m = None \<or> mk_body m \<noteq> Some k" for m
    proof
      assume i: "mk_ino m = Suc k"
      obtain d where d: "lw_dir w = Some d" "ld_marker d = Some m" using m(1) by (cases "lw_dir w") (auto simp: marker_of_def)
      obtain h j where h: "lw_alive w h" "token_of (lp_pc (lw_proc w h)) = Some j" "mk_ino m = Suc j"
          "mk_body m = None \<longleftrightarrow> filling (lp_pc (lw_proc w h))" "\<forall>j'. mk_body m = Some j' \<longrightarrow> j' = j"
        using dir_okD(6) [OF inv d] unfolding marker_ok_def by (elim exE conjE) (rule that)
      have "token_of (lp_pc (lw_proc w p)) = Some k" "j = k" using c h(3) i by (simp_all add: Drop_read token_of_def)
      then have "h = p" using inv h(1,2) p unfolding lock_inv_def tokens_ok_def by blast
      then have "\<not> filling (lp_pc (lw_proc w h))" using c by (simp add: Drop_read filling_def)
      then show False using h(4,5) m(2) \<open>j = k\<close> by auto
    qed
    have go: "lock_inv T (goto p c' w)"
      if c': "c' = Top \<or> c' = Give_up \<or> c' = Failed e" and l: "\<And>m. marker_of w = Some m \<Longrightarrow> mk_ino m \<noteq> Suc k" for c' e
      by (rule goto_step [OF inv p c]) (use ok Drop_read c' l in \<open>auto simp: proc_ok_def pc_defs\<close>)
    have drop: "lock_inv T (goto p (Drop_marker k b) w)"
      by (rule goto_step [OF inv p c]) (use ok Drop_read in \<open>auto simp: proc_ok_def pc_defs\<close>)
    show ?thesis
    proof (cases "marker_of w")
      case None
      then show ?thesis using go by (simp add: Drop_read)
    next
      case (Some m)
      then show ?thesis using go lost drop by (auto simp: Drop_read)
    qed
  next
    case (Drop_marker k b)
    show ?thesis
    proof (cases "lw_dir w")
      case None
      have "marker_of w = None" using None by (simp add: marker_of_def)
      have "lock_inv T (goto p c' w)" if "c' = Top \<or> c' = Give_up" for c'
        by (rule goto_step [OF inv p c]) (use ok Drop_marker that \<open>marker_of w = None\<close> in \<open>auto simp: proc_ok_def pc_defs\<close>)
      then show ?thesis using \<open>marker_of w = None\<close> by (simp add: Drop_marker)
    next
      case (Some d)
      have "lock_inv T (goto p c' w)" if "c' = Top \<or> c' = Give_up" "marker_of w = None" for c'
        by (rule goto_step [OF inv p c]) (use ok Drop_marker that in \<open>auto simp: proc_ok_def pc_defs\<close>)
      then show ?thesis using drop_ok [OF inv past p c [unfolded Drop_marker] Some] by (simp add: Drop_marker)
    qed
  qed (use r in \<open>simp_all add: in_reclaim_def\<close>)
qed

lemma open_ok:
  assumes inv: "lock_inv T w" and past: "past w" and p: "lw_alive w p"
    and c: "lp_pc (lw_proc w p) = Open_marker sn" and d: "lw_dir w = Some d" "ld_marker d = None"
    and w': "w' = goto p (Fill_marker sn (lw_fresh w) (Suc (lw_fresh w))) (make_marker (w\<lparr>lw_fresh := Suc (lw_fresh w)\<rparr>))"
  shows "lock_inv T w'"
proof -
  note ok = inv_proc [OF inv p c]
  have m: "ld_mtime d \<le> lw_now w" using past d by (simp add: past_def)
  let ?m = "\<lparr>mk_ino = Suc (lw_fresh w), mk_mtime = lw_now w, mk_body = None\<rparr>"
  let ?d = "d\<lparr>ld_marker := Some ?m, ld_mtime := lw_now w\<rparr>"
  have f: "lw_now w' = lw_now w" "lw_alive w' = lw_alive w" "lw_fresh w' = Suc (Suc (lw_fresh w))"
      "\<And>q. q \<noteq> p \<Longrightarrow> lw_proc w' q = lw_proc w q" "lp_since (lw_proc w' p) = lp_since (lw_proc w p)"
      "lp_pc (lw_proc w' p) = Fill_marker sn (lw_fresh w) (Suc (lw_fresh w))" "lw_dir w' = Some ?d" "marker_of w' = Some ?m"
    using d by (simp_all add: w' make_marker_def marker_of_def)
  show ?thesis
  proof (rule dir_step [OF inv p d(1) f(7) _ _ _ _ _ f(1,2) _ f(4) c f(6,5)])
    show "proc_ok T w' p (Fill_marker sn (lw_fresh w) (Suc (lw_fresh w))) (lp_since (lw_proc w p))"
      using proc_okD(1,10) [OF ok] f unfolding proc_ok_def by (auto simp: pc_defs)
    fix k assume "ld_marker ?d = Some k"
    then have "k = ?m" by simp
    then show "marker_ok w' ?d k"
      unfolding marker_ok_def using p f proc_okD(1) [OF ok]
      by (intro exI [of _ p] exI [of _ "lw_fresh w"]) (simp add: token_of_def filling_def)
  next
    fix q k assume q: "dead_owner w" "lw_alive w q" "token_of (lp_pc (lw_proc w q)) = Some k"
    have "marker_of w = None" using d by (simp add: marker_of_def)
    then show "\<exists>m. ld_marker ?d = Some m \<and> mk_ino m = Suc k"
      using proc_okD(5) [OF inv_proc [OF inv q(2) refl] q(3,1)] by simp
  qed (use d m f in \<open>simp_all add: pc_defs\<close>)
qed

lemma fill_ok:
  assumes inv: "lock_inv T w" and past: "past w" and p: "lw_alive w p"
    and c: "lp_pc (lw_proc w p) = Fill_marker sn k i"
    and w': "w' = goto p (Chmod_marker sn k) (fill_marker i k w)"
  shows "lock_inv T w'"
proof (cases "lw_dir w")
  case None
  have i: "i = Suc k" using proc_okD(6) [OF inv_proc [OF inv p c] refl] .
  show ?thesis
    by (rule local_step [OF inv p _ _ _ _ _ c])
      (use inv_proc [OF inv p c] None in \<open>auto simp: w' fill_marker_def proc_ok_def pc_defs owner_of_def marker_of_def dead_owner_def\<close>)
next
  case (Some d)
  note ok = inv_proc [OF inv p c]
  have i: "i = Suc k" using proc_okD(6) [OF ok refl] .
  let ?d = "d\<lparr>ld_marker := map_option (fill (lw_now w) i k) (ld_marker d),
      ld_claimed := map (\<lambda>(j, m). (j, fill (lw_now w) i k m)) (ld_claimed d)\<rparr>"
  have tok: "token_of (lp_pc (lw_proc w p)) = Some k" by (simp add: c token_of_def)
  have f: "lw_now w' = lw_now w" "lw_alive w' = lw_alive w" "lw_fresh w' = lw_fresh w"
      "\<And>q. q \<noteq> p \<Longrightarrow> lw_proc w' q = lw_proc w q" "lp_since (lw_proc w' p) = lp_since (lw_proc w p)"
      "lp_pc (lw_proc w' p) = Chmod_marker sn k" "lw_dir w' = Some ?d" "owner_of w' = owner_of w"
      "marker_of w' = map_option (fill (lw_now w) i k) (marker_of w)"
    using Some by (simp_all add: w' fill_marker_def marker_of_def owner_of_def)
  have dead: "dead_owner w' = dead_owner w" using f by (simp add: dead_owner_def cong: option.case_cong)
  have ino: "mk_ino (fill (lw_now w) i k m) = mk_ino m" for m by (simp add: fill_def)
  show ?thesis
  proof (rule dir_step [OF inv p Some f(7) _ _ _ _ _ f(1,2) _ f(4) c f(6,5)])
    show "proc_ok T w' p (Chmod_marker sn k) (lp_since (lw_proc w p))"
      using proc_okD(1,4,5,10) [OF ok] f dead tok ino unfolding proc_ok_def c by (auto simp: pc_defs)
    fix m' assume "ld_marker ?d = Some m'"
    then obtain m where m: "ld_marker d = Some m" "m' = fill (lw_now w) i k m" by auto
    have old: "marker_ok w d m" using dir_okD(6) [OF inv Some m(1)] .
    show "marker_ok w' ?d m'"
    proof (cases "mk_ino m = Suc k")
      case True
      obtain h j where h: "lw_alive w h" "token_of (lp_pc (lw_proc w h)) = Some j" "mk_ino m = Suc j"
          "lp_since (lw_proc w h) \<le> ld_mtime d"
        using old unfolding marker_ok_def by (elim exE conjE) (rule that)
      have "h = p" using inv h(1-3) p tok True unfolding lock_inv_def tokens_ok_def by auto
      then show ?thesis unfolding marker_ok_def using p f h(4) proc_okD(1) [OF ok] m(2) True i
        by (intro exI [of _ p] exI [of _ k]) (simp add: token_of_def filling_def fill_def)
    next
      case False
      then have "m' = m" using m(2) i by (simp add: fill_def)
      show ?thesis unfolding \<open>m' = m\<close>
      proof (rule marker_ok_cong [OF old])
        fix h j assume h: "lw_alive w h" "token_of (lp_pc (lw_proc w h)) = Some j" "mk_ino m = Suc j"
        have "h \<noteq> p" using h tok False by auto
        then show "lw_alive w' h \<and> token_of (lp_pc (lw_proc w' h)) = Some j"
          "lp_since (lw_proc w' h) = lp_since (lw_proc w h) \<and> filling (lp_pc (lw_proc w' h)) = filling (lp_pc (lw_proc w h))"
          using h f(2,4) by simp_all
      qed simp
    qed
  next
    fix q j assume q: "dead_owner w" "lw_alive w q" "token_of (lp_pc (lw_proc w q)) = Some j"
    then show "\<exists>m. ld_marker ?d = Some m \<and> mk_ino m = Suc j"
      using proc_okD(5) [OF inv_proc [OF inv q(2) refl] q(3,1)] Some ino by (auto simp: marker_of_def)
  qed (use Some f in \<open>auto simp: pc_defs\<close>)
qed

lemma marker_step_ok:
  assumes inv: "lock_inv T w" and pro: "prompt T w" and past: "past w" and p: "lw_alive w p"
    and c: "lp_pc (lw_proc w p) = c" and T: "T \<le> lk_reclaimMs lo"
  shows "lock_inv T (marker_at lo p c w)"
proof -
  note ok = inv_proc [OF inv p c]
  have loc: "lock_inv T (goto p c' w)"
    if "\<not> holds c'" "\<not> creating c'" "token_of c' = None" "\<not> saw_dead (lw_alive w) c'" "\<not> saw_none c'"
      "saw_marker c' \<longrightarrow> saw_marker c"
      "\<forall>t\<in>set (times c'). 2 * lp_since (lw_proc w p) \<le> 2 * t + T" "\<not> taking_over c'" "\<not> holds c" "\<not> creating c" "token_of c = None" for c'
    by (rule goto_step [OF inv p c])
      (use proc_okD(1,9) [OF ok] that in \<open>auto simp: proc_ok_def token_of_def\<close>)
  have now: "2 * (lw_now w - lp_since (lw_proc w p)) \<le> T" if "turning c" using pro p c that by (auto simp: prompt_def)
  have old: "\<forall>t\<in>set (times c). 2 * lp_since (lw_proc w p) \<le> 2 * t + T" using proc_okD(10) [OF ok] by blast
  show ?thesis
  proof (cases c)
    case (Open_marker sn)
    show ?thesis
    proof (cases "lw_dir w")
      case None
      then show ?thesis using loc [of Give_up] by (simp add: Open_marker pc_defs)
    next
      case (Some d)
      show ?thesis
      proof (cases "ld_marker d")
        case None
        show ?thesis using open_ok [OF inv past p c [unfolded Open_marker] Some None refl] Some None
          by (simp add: Open_marker Let_def)
      next
        case (Some m)
        note d = \<open>lw_dir w = Some d\<close>
        let ?c = "Old_file \<lparr>sm_previous = sn, sm_token = lw_fresh w, sm_time = None, sm_ident = None, sm_owner = None, sm_exists = False\<rparr>"
        have "2 * lp_since (lw_proc w p) \<le> 2 * ld_mtime d + T"
          using inv_marker [OF inv pro d Some] proc_okD(1) [OF ok] by simp
        then have "lock_inv T (goto p ?c (w\<lparr>lw_fresh := Suc (lw_fresh w)\<rparr>))"
          by (intro local_step [OF inv p _ _ _ _ _ c])
            (use proc_okD(1) [OF ok] d in \<open>auto simp: Open_marker proc_ok_def pc_defs time_list_def\<close>)
        then show ?thesis using d Some by (simp add: Open_marker Let_def)
      qed
    qed
  next
    case (Fill_marker sn k i)
    show ?thesis using fill_ok [OF inv past p c [unfolded Fill_marker] refl] by (simp add: Fill_marker)
  next
    case (Chmod_marker sn k)
    have "lock_inv T (goto p Give_up w)" if "marker_of w = None"
      by (rule goto_step [OF inv p c]) (use ok that in \<open>auto simp: Chmod_marker proc_ok_def pc_defs\<close>)
    moreover have "lock_inv T (goto p (Look (Reclaiming sn k) See_owner) w)"
      by (rule goto_step [OF inv p c]) (use ok in \<open>auto simp: Chmod_marker proc_ok_def pc_defs\<close>)
    ultimately show ?thesis by (simp add: Chmod_marker)
  next
    case (Old_file sm)
    then show ?thesis using loc [of "Old_time (sm\<lparr>sm_exists := (marker_of w \<noteq> None)\<rparr>)"] by (simp add: pc_defs)
  next
    case (Old_time sm)
    let ?t = "time_of (sm_exists sm) (\<lambda>d. map_option mk_mtime (ld_marker d)) (lw_dir w)"
    have "2 * lp_since (lw_proc w p) \<le> 2 * t + T" if t: "?t = Some t" for t
    proof -
      obtain d where d: "lw_dir w = Some d" "t = ld_mtime d \<or> (\<exists>m. ld_marker d = Some m \<and> t = mk_mtime m)"
        using t by (auto simp: time_of_def split: option.splits if_splits)
      from d(2) show ?thesis
      proof (elim disjE exE conjE)
        assume "t = ld_mtime d"
        then show ?thesis using proc_okD(9) [OF ok _ d(1)] by (simp add: Old_time saw_marker_def)
      next
        fix m assume "ld_marker d = Some m" "t = mk_mtime m"
        then show ?thesis using inv_marker [OF inv pro d(1)] proc_okD(1) [OF ok] by force
      qed
    qed
    then show ?thesis using loc [of "Old_identity (sm\<lparr>sm_time := ?t\<rparr>)"]
      by (auto simp: Old_time pc_defs time_list_def split: option.splits)
  next
    case (Old_identity sm)
    then show ?thesis using loc [of "Old_owner (sm\<lparr>sm_ident := map_option mk_ino (marker_of w)\<rparr>)"] old by (simp add: pc_defs)
  next
    case (Old_owner sm)
    have "lock_inv T (goto p (Old_judge (sm\<lparr>sm_owner := x\<rparr>)) w)" "lock_inv T (goto p (Failed Bad_json) w)" for x
      by (rule loc; use old in \<open>simp add: Old_owner pc_defs\<close>)+
    then show ?thesis by (simp add: Old_owner split: option.splits)
  next
    case (Old_judge sm)
    have "\<not> lk_reclaimMs lo < lw_now w - t" if "sm_time sm = Some t" for t
      using old now that T by (simp add: Old_judge pc_defs turning_def time_list_def)
    then have "\<not> (sm_ident sm \<noteq> None \<and> (case sm_time sm of None \<Rightarrow> False | Some t \<Rightarrow> lk_reclaimMs lo < lw_now w - t))"
      by (auto split: option.splits)
    then have j: "(sm_ident sm \<noteq> None \<and> (case sm_time sm of None \<Rightarrow> False | Some t \<Rightarrow> lk_reclaimMs lo < lw_now w - t)) = False" by simp
    show ?thesis using loc [of Give_up] unfolding Old_judge marker_at.simps j by (simp add: Old_judge pc_defs)
  qed (use proc_okD(11) [OF ok] inv in \<open>simp_all add: taking_over_def\<close>)
qed

lemma act_cases:
  fixes opts p w
  defines "c \<equiv> lp_pc (lw_proc w p)"
  obtains (look) t l where "c = Look t l" "act opts p w = look_at (opts p) p t l w"
    | (lock) "in_loop c" "act opts p w = lock_at (opts p) p c w"
    | (reclaim) "in_reclaim c" "act opts p w = reclaim_at (opts p) p c w"
    | (marker) "act opts p w = marker_at (opts p) p c w"
proof (cases "\<exists>t l. c = Look t l")
  case True
  then show ?thesis using look by (auto simp: act_def c_def)
next
  case False
  then have "act opts p w = (if in_loop c then lock_at (opts p) p c w else if in_reclaim c then reclaim_at (opts p) p c w
    else marker_at (opts p) p c w)" unfolding act_def c_def by (cases "lp_pc (lw_proc w p)") simp_all
  then show ?thesis using lock reclaim marker by (metis (full_types))
qed

lemma act_ok:
  assumes "0 \<le> T" "lock_inv T w" "prompt T w" "past w" "lw_alive w p" "T \<le> lk_reclaimMs (opts p)"
    and "\<And>x tm al. al (lo_pid x) \<Longrightarrow> 0 < lo_pid x \<Longrightarrow> lk_live (opts p) x tm al"
  shows "lock_inv T (act opts p w)"
proof (cases opts p w rule: act_cases)
  case (look t l)
  then show ?thesis using look_ok [OF assms(2,3,5) _ assms(6,7)] by simp
next
  case lock
  then show ?thesis using lock_ok [OF assms(1,2,4,5) refl] by simp
next
  case reclaim
  then show ?thesis using reclaim_ok [OF assms(2,3,4,5) refl _ assms(6)] by simp
next
  case marker
  then show ?thesis using marker_step_ok [OF assms(2,3,4,5) refl assms(6)] by simp
qed

lemma past_simps:
  "past (goto p c w) = past w" "past (make_dir p w)" "past (w\<lparr>lw_dir := None\<rparr>)" "past (entry_change f w)"
  "past (w\<lparr>lw_fresh := n\<rparr>) = past w" "past (w\<lparr>lw_proc := g\<rparr>) = past w" "past (make_marker w)"
  "past (fill_marker i k w) = past w"
  by (auto simp: past_def make_dir_def make_marker_def fill_marker_def)

lemma past_act: "past w \<Longrightarrow> past (act opts p w)"
proof -
  assume w: "past w"
  have l: "past (look_at lo p t l w)" for lo t l using w by (cases l) (simp_all add: past_simps Let_def)
  have k: "past (lock_at lo p c w)" for lo c
    using w by (cases c) (simp_all add: past_simps Let_def give_up_def split: option.splits)
  have m: "past (marker_at lo p c w)" for lo c
    using w by (cases c) (simp_all add: past_simps Let_def split: option.splits)
  have r: "past (reclaim_at lo p c w)" for lo c
    using w by (cases c) (simp_all add: past_simps split: option.splits)
  show "past (act opts p w)" by (cases opts p w rule: act_cases) (simp_all add: l k m r)
qed

lemma past_moved: "past w \<Longrightarrow> can_move w m \<Longrightarrow> past (moved opts w m)"
  by (cases m) (auto simp: past_act, auto simp: past_def)

lemma start_ok:
  assumes inv: "lock_inv T w" and can: "can_move w (Start p)"
  shows "lock_inv T (moved opts w (Start p))"
proof -
  let ?c = "lp_pc (lw_proc w p)"
  have p: "lw_alive w p" "outside ?c" using can by simp_all
  have c: "\<not> creating ?c" "\<not> holds ?c" "token_of ?c = None"
    using p(2) by (auto simp: outside_def creating_def holds_def token_of_def split: pc.splits)
  show ?thesis
  proof (rule local_step [OF inv p(1) _ _ _ _ _ refl])
    show "lp_pc (lw_proc (moved opts w (Start p)) p) = Top" by simp
    show "proc_ok T (moved opts w (Start p)) p Top (lp_since (lw_proc (moved opts w (Start p)) p))"
      by (simp add: proc_ok_def pc_defs)
    show "token_of Top = token_of ?c \<or> token_of Top = None" by (simp add: token_of_def)
  qed (use c in \<open>simp_all add: token_of_def\<close>)
qed

lemma tick_ok:
  assumes inv: "lock_inv T w" and can: "can_move w (Tick n)"
  shows "lock_inv T (moved opts w (Tick n))"
proof -
  let ?w = "moved opts w (Tick n)"
  have e: "owner_of ?w = owner_of w" "marker_of ?w = marker_of w" "dead_owner ?w = dead_owner w"
    by (simp_all add: owner_of_def marker_of_def dead_owner_def cong: option.case_cong)
  have "marker_ok ?w d m = marker_ok w d m" for d m by (simp add: marker_ok_def)
  then show ?thesis using inv can e unfolding lock_inv_def dir_ok_def tokens_ok_def proc_ok_def by auto
qed

lemma crash_ok:
  assumes inv: "lock_inv T w" and calm: "calm w (Crash p)" and can: "can_move w (Crash p)"
  shows "lock_inv T (moved opts w (Crash p))"
proof -
  let ?w = "moved opts w (Crash p)"
  have e: "owner_of ?w = owner_of w" "marker_of ?w = marker_of w" by (simp_all add: owner_of_def marker_of_def)
  have quiet: "token_of (lp_pc (lw_proc w q)) = None" if "lw_alive w q" for q using calm that by simp
  then have nomark: "lw_dir w = Some d \<Longrightarrow> ld_marker d = None" for d
    using dir_okD(6) [OF inv] unfolding marker_ok_def by (cases "ld_marker d") fastforce+
  have "dir_ok ?w"
    using inv calm nomark unfolding lock_inv_def dir_ok_def by auto
  moreover have "tokens_ok ?w" using quiet by (auto simp: tokens_ok_def)
  moreover have "proc_ok T ?w q (lp_pc (lw_proc ?w q)) (lp_since (lw_proc ?w q))" if q: "lw_alive ?w q" for q
  proof -
    have a: "lw_alive w q" using q by (simp split: if_splits)
    have "\<not> saw_dead al (lp_pc (lw_proc w q))" for al
      using quiet [OF a] by (auto simp: saw_dead_def token_of_def split: pc.splits turn.splits)
    then show ?thesis using inv_proc [OF inv a refl] quiet [OF a] e unfolding proc_ok_def by simp
  qed
  ultimately show ?thesis unfolding lock_inv_def by blast
qed

lemma initial_ok: "lock_inv T (initial alive)" "past (initial alive)"
  by (auto simp: lock_inv_def dir_ok_def tokens_ok_def proc_ok_def initial_def past_def pc_defs)

lemma calm_run_ok:
  assumes "calm_run opts T w" "0 \<le> T" "\<And>p. T \<le> lk_reclaimMs (opts p)"
    and "\<And>p x tm al. al (lo_pid x) \<Longrightarrow> 0 < lo_pid x \<Longrightarrow> lk_live (opts p) x tm al"
  shows "lock_inv T w \<and> past w \<and> prompt T w"
  using assms(1)
proof induction
  case (calm_start alive)
  have "prompt T (initial alive)" by (simp add: prompt_def initial_def turning_def)
  then show ?case using initial_ok by simp
next
  case (calm_step w m)
  then have w: "lock_inv T w" "past w" "prompt T w" by simp_all
  have "lock_inv T (moved opts w m)"
  proof (cases m)
    case (Act p)
    then show ?thesis using act_ok [OF assms(2) w(1,3,2), where p = p] assms(3,4) calm_step.hyps(2) by simp
  next
    case (Cancel p)
    then show ?thesis using w(1) proc_ok_cong [of "moved opts w m" w]
      by (auto simp: lock_inv_def dir_ok_def tokens_ok_def marker_ok_def)
  qed (use start_ok tick_ok crash_ok w(1) calm_step.hyps(2,3) in blast)+
  then show ?case using past_moved [OF w(2) calm_step.hyps(2)] calm_step.hyps(4) by simp
qed

text \<open>C7: In every run in which a turn of the loop takes at most half of the time after which a lock
  counts as abandoned, and in which processes end only while none is inside \<open>reclaimStaleLock\<close>, at most
  one live process is inside the lock.\<close>

theorem lock_is_exclusive:
  assumes "calm_run opts T w" "0 \<le> T" "\<And>p. T \<le> lk_reclaimMs (opts p)"
    and "\<And>p x tm al. al (lo_pid x) \<Longrightarrow> 0 < lo_pid x \<Longrightarrow> lk_live (opts p) x tm al"
    and "lw_alive w p" "holds (lp_pc (lw_proc w p))" "lw_alive w q" "holds (lp_pc (lw_proc w q))"
  shows "p = q"
proof -
  have inv: "lock_inv T w" using calm_run_ok [OF assms(1-4)] by simp
  show ?thesis
    using proc_okD(2) [OF inv_proc [OF inv assms(5) refl] assms(6)] proc_okD(2) [OF inv_proc [OF inv assms(7) refl] assms(8)]
    by auto
qed

end
