(* ===== verification/Lock_Runs.thy ===== *)
theory Lock_Runs
  imports Lock_Safety
begin

text \<open>
  Runs of the locks: runs that are calm and prompt by their schedule, the runs that are neither and
  let two processes in, and the recovery of a lock whose owner is gone.
\<close>

section \<open>Schedules\<close>

definition exact_opts :: "lock \<Rightarrow> lock_opts" where
  "exact_opts k = \<lparr>lk_kind = k, lk_wait = True, lk_timeoutMs = 60000, lk_reclaimMs = 60000, lk_pollMs = 150,
     lk_now = ''2026-01-01T00:00:00.000Z'', lk_live = (\<lambda>x t alive. lockOwnerProcessIsLive (\<lambda>_. None) x t alive None)\<rparr>"

definition acts :: "int \<Rightarrow> nat \<Rightarrow> move list" where
  "acts p n = replicate n (Act p)"

text \<open>A schedule of the processes \<open>ps\<close> without waiting, checked move by move.\<close>

fun calm_at :: "int list \<Rightarrow> lworld \<Rightarrow> move \<Rightarrow> bool" where
  "calm_at ps w (Crash p) = (\<not> creating (lp_pc (lw_proc w p))
     \<and> list_all (\<lambda>q. \<not> lw_alive w q \<or> token_of (lp_pc (lw_proc w q)) = None) ps)"
| "calm_at ps w (Tick n) = False"
| "calm_at ps w m = True"

fun calm_moves :: "(int \<Rightarrow> lock_opts) \<Rightarrow> int list \<Rightarrow> move list \<Rightarrow> lworld \<Rightarrow> bool" where
  "calm_moves opts ps [] w = True"
| "calm_moves opts ps (m # ms) w \<longleftrightarrow> can_move w m \<and> calm_at ps w m \<and> calm_moves opts ps ms (moved opts w m)"

definition at_once :: "int list \<Rightarrow> lworld \<Rightarrow> bool" where
  "at_once ps w \<longleftrightarrow> lw_now w = 0 \<and> (\<forall>p. lp_since (lw_proc w p) = 0) \<and> (\<forall>p. lw_alive w p \<longrightarrow> p \<in> set ps)"

lemma goto_proc: "lp_since (lw_proc (goto p c w) q) = lp_since (lw_proc w q)"
  by simp

lemma at_once_simps:
  "at_once ps (goto p c w) = at_once ps w" "at_once ps (entry_change f w) = at_once ps w"
  "at_once ps (make_dir p w) = at_once ps w" "at_once ps (make_marker w) = at_once ps w"
  "at_once ps (fill_marker i k w) = at_once ps w" "at_once ps (w\<lparr>lw_dir := d\<rparr>) = at_once ps w"
  "at_once ps (w\<lparr>lw_fresh := n\<rparr>) = at_once ps w"
  unfolding at_once_def
  by (auto simp: make_dir_def make_marker_def fill_marker_def)

lemma at_once_act: "at_once ps w \<Longrightarrow> at_once ps (act opts p w)"
proof -
  assume w: "at_once ps w"
  have t: "at_once ps (w\<lparr>lw_proc := (lw_proc w)(p := (lw_proc w p)\<lparr>lp_since := lw_now w\<rparr>)\<rparr>)"
    using w by (simp add: at_once_def)
  have l: "at_once ps (look_at lo p t l w)" for lo t l using w by (cases l) (simp_all add: at_once_simps Let_def)
  have k: "at_once ps (lock_at lo p c w)" for lo c
    using w t by (cases c) (simp_all add: at_once_simps Let_def give_up_def split: option.splits)
  have m: "at_once ps (marker_at lo p c w)" for lo c
    using w by (cases c) (simp_all add: at_once_simps Let_def split: option.splits)
  have r: "at_once ps (reclaim_at lo p c w)" for lo c
    using w by (cases c) (simp_all add: at_once_simps split: option.splits)
  show "at_once ps (act opts p w)" by (cases opts p w rule: act_cases) (simp_all add: l k m r)
qed

lemma at_once_moved: "at_once ps w \<Longrightarrow> calm_at ps w m \<Longrightarrow> at_once ps (moved opts w m)"
  by (cases m) (simp_all add: at_once_act, simp_all add: at_once_def)

lemma calm_moves_run:
  assumes "calm_moves opts ps ms w" "calm_run opts T w" "at_once ps w" "0 \<le> T"
  shows "\<exists>w'. run_moves opts ms w = Some w' \<and> calm_run opts T w'"
  using assms
proof (induction ms arbitrary: w)
  case (Cons m ms)
  have a: "at_once ps (moved opts w m)" using at_once_moved Cons.prems by simp
  have "prompt T (moved opts w m)" using a Cons.prems(4) by (simp add: prompt_def at_once_def)
  moreover have "calm w m" using Cons.prems(1,3) by (cases m) (auto simp: at_once_def list_all_iff)
  ultimately have "calm_run opts T (moved opts w m)" using Cons.prems(1,2) by (auto intro: calm_step)
  then show ?case using Cons.IH [of "moved opts w m"] Cons.prems a by simp
qed simp

text \<open>Process 1 dies inside the lock, process 2 takes the lock over.\<close>

definition takeover :: "move list" where
  "takeover = Start 1 # acts 1 6 @ Crash 1 # Start 2 # acts 2 25"

theorem lock_is_exclusive_witness:
  "case run_moves (\<lambda>_. exact_opts Lease_lock) takeover (initial (\<lambda>p. p \<in> {1, 2})) of
     None \<Rightarrow> False
   | Some w \<Rightarrow> {p. lw_alive w p \<and> holds (lp_pc (lw_proc w p))} = {2}"
proof -
  let ?o = "\<lambda>_. exact_opts Lease_lock" and ?w = "initial (\<lambda>p. p \<in> {1, 2})"
  have "calm_moves ?o [1, 2] takeover ?w" by code_simp
  moreover have "at_once [1, 2] ?w" by (simp add: at_once_def initial_def)
  ultimately obtain w where w: "run_moves ?o takeover ?w = Some w" "calm_run ?o 60000 w"
    using calm_moves_run [of ?o "[1, 2]" takeover ?w 60000] calm_start by auto
  have "case run_moves ?o takeover ?w of None \<Rightarrow> False | Some w \<Rightarrow> lw_alive w 2 \<and> holds (lp_pc (lw_proc w 2))"
    by code_simp
  then have two: "lw_alive w 2" "holds (lp_pc (lw_proc w 2))" using w(1) by simp_all
  have "p = 2" if "lw_alive w p" "holds (lp_pc (lw_proc w p))" for p
    by (rule lock_is_exclusive [OF w(2) _ _ _ that two]) (simp_all add: exact_opts_def live_without_sampler)
  then have "{p. lw_alive w p \<and> holds (lp_pc (lw_proc w p))} = {2}" using two by blast
  then show ?thesis using w(1) by simp
qed

section \<open>Runs with two processes inside\<close>

text \<open>No process dies inside the lock here, and no time passes.  Process 2 reads that process 1 owns the
  lock; process 1 releases it and ends; process 3 takes the lock and process 2, which now finds
  process 1 dead, writes its marker into the directory of process 3 and reads that process 3 is the
  owner; process 3 releases the lock and ends; process 4 takes the lock, and process 2 removes it.\<close>

definition two_exits :: "move list" where
  "two_exits = Start 1 # acts 1 6 @ Start 2 # acts 2 2 @ acts 1 3 @ Crash 1 # Start 3 # acts 3 6 @ acts 2 10
     @ acts 3 3 @ Crash 3 # Start 4 # acts 4 6 @ acts 2 7 @ Start 5 # acts 5 6"


text \<open>Two processes wait for a dead owner.  One opens the marker; before it has written its token the other
  reads the empty file, and its operation fails with a syntax error.\<close>

definition empty_marker :: "move list" where
  "empty_marker = Start 1 # acts 1 6 @ Crash 1 # Start 2 # acts 2 8 @ Start 3 # acts 3 8 @ acts 2 1 @ acts 3 5"

lemma empty_marker_fails_a_waiter:
  "case run_moves (\<lambda>_. exact_opts Lease_lock) empty_marker (initial (\<lambda>p. p \<in> {1..3})) of
     None \<Rightarrow> False
   | Some w \<Rightarrow> lp_pc (lw_proc w 3) = Failed Bad_json"
  by code_simp

section \<open>A lock whose owner is gone\<close>

text \<open>Six steps read a snapshot.\<close>

definition snapshot_of :: "lock_opts \<Rightarrow> lworld \<Rightarrow> snapshot" where
  "snapshot_of lo w = (let tm = time_of (owner_of w \<noteq> None) (\<lambda>d. map_option snd (ld_owner d)) (lw_dir w) in
     \<lparr>sn_owner = owner_of w, sn_stale = see_process lo (owner_of w) w, sn_time = tm, sn_ident = map_option ld_ino (lw_dir w),
      sn_abandoned = (case tm of None \<Rightarrow> False | Some n \<Rightarrow> owner_of w = None \<and> lk_reclaimMs lo < lw_now w - n)\<rparr>)"

lemma run_moves_append: "run_moves opts (ms @ ns) w = Option.bind (run_moves opts ms w) (run_moves opts ns)"
  by (induction ms arbitrary: w) auto

lemma acts_add: "acts p (m + n) = acts p m @ acts p n"
  by (simp add: acts_def replicate_add)

lemma run_acts_add:
  "run_moves opts (acts p m) w = Some w1 \<Longrightarrow> run_moves opts (acts p n) w1 = Some w2 \<Longrightarrow> run_moves opts (acts p (m + n)) w = Some w2"
  by (simp add: acts_add run_moves_append)

lemma acts_Suc: "acts p 0 = []" "acts p (Suc n) = Act p # acts p n"
  by (simp_all add: acts_def)

lemma goto_goto: "goto p c (goto p c' w) = goto p c w"
  by (simp add: goto_def)

lemma see_process_goto: "see_process lo x (goto p c w) = see_process lo x w"
  by (simp add: see_process_def cong: option.case_cong)

lemma snapshot_steps:
  assumes "lp_pc (lw_proc w p) = Look t See_owner" "lw_alive w p"
  shows "run_moves opts (acts p 6) w = Some (goto p (case t of Waiting \<Rightarrow> Judge (snapshot_of (opts p) w)
      | Reclaiming previous k \<Rightarrow> Decide previous k (snapshot_of (opts p) w)) w)"
  using assms
  by (cases t) (simp_all add: eval_nat_numeral acts_Suc act_def outside_def goto_goto see_process_goto snapshot_of_def Let_def
      cong: option.case_cong)

lemma taking_steps:
  assumes "lp_pc (lw_proc w p) = Top" "lw_alive w p" "lw_dir w = None" "\<not> lw_cancelled w p"
  shows "\<exists>w'. run_moves opts (acts p 6) w = Some w' \<and> lp_pc (lw_proc w' p) = Work
    \<and> owner_of w' = Some \<lparr>lo_pid = p, lo_startedAt = lk_now (opts p)\<rparr>"
  using assms
  by (simp add: eval_nat_numeral acts_Suc act_def outside_def in_loop_def Let_def make_dir_def owner_of_def)

lemma marker_steps:
  assumes "lp_pc (lw_proc w p) = Open_marker sn" "lw_alive w p" "lw_dir w = Some d" "ld_marker d = None"
  shows "\<exists>w' d'. run_moves opts (acts p 3) w = Some w' \<and> lp_pc (lw_proc w' p) = Look (Reclaiming sn (lw_fresh w)) See_owner
    \<and> lw_dir w' = Some d' \<and> ld_owner d' = ld_owner d \<and> ld_ino d' = ld_ino d
    \<and> lw_now w' = lw_now w \<and> lw_alive w' = lw_alive w \<and> lw_cancelled w' = lw_cancelled w"
  using assms
  by (simp add: eval_nat_numeral acts_Suc act_def outside_def in_loop_def in_reclaim_def Let_def make_marker_def
      fill_marker_def marker_of_def on_dir_def entry_change_def)

definition gone :: "lock_opts \<Rightarrow> lworld \<Rightarrow> lock_dir \<Rightarrow> bool" where
  "gone lo w d = (case ld_owner d of
     Some (x, _) \<Rightarrow> 0 < lo_pid x \<and> \<not> lk_live lo x (lw_now w) (lw_alive w)
   | None \<Rightarrow> lk_reclaimMs lo < lw_now w - ld_mtime d)"

lemma gone_snapshot:
  assumes "lw_dir w = Some d" "gone lo w d"
  shows "\<not> sn_released (snapshot_of lo w)" "sn_stale (snapshot_of lo w) \<or> sn_abandoned (snapshot_of lo w)"
    "ld_owner d = None \<Longrightarrow> sn_owner (snapshot_of lo w) = None \<and> sn_time (snapshot_of lo w) = Some (ld_mtime d)
       \<and> sn_ident (snapshot_of lo w) = Some (ld_ino d)"
    "ld_owner d = Some (x, t) \<Longrightarrow> sn_stale (snapshot_of lo w)"
  using assms by (auto simp: gone_def snapshot_of_def sn_released_def time_of_def owner_of_def see_process_def Let_def
      split: option.splits)

text \<open>Under the marker the owner still counts as gone, although the marker has set the time of the directory.\<close>

lemma still_gone:
  assumes w: "lw_dir w = Some d" "gone lo w d"
    and w': "lw_dir w' = Some d'" "ld_owner d' = ld_owner d" "ld_ino d' = ld_ino d" "lw_now w' = lw_now w" "lw_alive w' = lw_alive w"
  shows "\<not> sn_released (snapshot_of lo w')"
    "sn_stale (snapshot_of lo w') \<or> still_abandoned (lk_reclaimMs lo) (lw_now w') (snapshot_of lo w') (snapshot_of lo w)"
  using assms
  by (auto simp: gone_def snapshot_of_def sn_released_def still_abandoned_def time_of_def owner_of_def see_process_def Let_def
      split: option.splits)

lemma top_steps:
  assumes "lp_pc (lw_proc w p) = Top" "lw_alive w p" "lw_dir w = Some d" "\<not> lw_cancelled w p"
    and "lk_kind (opts p) = Capacity_lock \<Longrightarrow> lk_wait (opts p)"
  shows "\<exists>w'. run_moves opts (acts p 1) w = Some w' \<and> lp_pc (lw_proc w' p) = Look Waiting See_owner
    \<and> lw_dir w' = lw_dir w \<and> lw_now w' = lw_now w \<and> lw_alive w' = lw_alive w \<and> lw_cancelled w' = lw_cancelled w"
  using assms by (auto simp: acts_Suc act_def outside_def in_loop_def Let_def)

text \<open>C8: A process that finds the lock of a process that is gone - a dead owner, or no owner and a directory
  older than the time after which a lock counts as abandoned - has the lock after 25 steps of its own,
  when no other process runs meanwhile.\<close>

theorem lock_of_gone_owner_is_taken:
  assumes "can_move w (Start p)" "lw_dir w = Some d" "ld_marker d = None" "gone (opts p) w d" "\<not> lw_cancelled w p"
    and "lk_kind (opts p) = Capacity_lock \<Longrightarrow> lk_wait (opts p)"
  shows "\<exists>w'. run_moves opts (Start p # acts p 25) w = Some w' \<and> lp_pc (lw_proc w' p) = Work
    \<and> owner_of w' = Some \<lparr>lo_pid = p, lo_startedAt = lk_now (opts p)\<rparr>"
proof -
  define w0 where "w0 = moved opts w (Start p)"
  have w0: "lp_pc (lw_proc w0 p) = Top" "lw_alive w0 p" "lw_dir w0 = Some d" "\<not> lw_cancelled w0 p" "gone (opts p) w0 d"
    using assms by (auto simp: w0_def gone_def split: option.splits)
  obtain w1 where w1: "run_moves opts (acts p 1) w0 = Some w1" "lp_pc (lw_proc w1 p) = Look Waiting See_owner"
      "lw_dir w1 = Some d" "lw_alive w1 = lw_alive w0" "lw_cancelled w1 = lw_cancelled w0" "lw_now w1 = lw_now w0"
    using top_steps [where opts = opts, OF w0(1-4) assms(6)] w0(3) by auto
  have g1: "gone (opts p) w1 d" using w0(5) w1 by (auto simp: gone_def split: option.splits)
  let ?sn = "snapshot_of (opts p) w1"
  have r2: "run_moves opts (acts p 6) w1 = Some (goto p (Judge ?sn) w1)"
    using snapshot_steps [of w1 p Waiting opts] w1 w0 by simp
  have r3: "run_moves opts (acts p 1) (goto p (Judge ?sn) w1) = Some (goto p (Open_marker ?sn) w1)"
    using gone_snapshot(1,2) [OF w1(3) g1] w0(2) w1(4) by (auto simp: acts_Suc act_def outside_def in_loop_def goto_goto)
  let ?w3 = "goto p (Open_marker ?sn) w1"
  obtain w4 d' where w4: "run_moves opts (acts p 3) ?w3 = Some w4"
      "lp_pc (lw_proc w4 p) = Look (Reclaiming ?sn (lw_fresh w1)) See_owner"
      "lw_dir w4 = Some d'" "ld_owner d' = ld_owner d" "ld_ino d' = ld_ino d" "lw_now w4 = lw_now w1" "lw_alive w4 = lw_alive w1"
      "lw_cancelled w4 = lw_cancelled w1"
    using marker_steps [of ?w3 p ?sn d opts] w0(2) w1(3,4) assms(3) by auto
  have a4: "lw_alive w4 p" using w0(2) w1(4) w4(7) by simp
  let ?sn' = "snapshot_of (opts p) w4"
  have r5: "run_moves opts (acts p 6) w4 = Some (goto p (Decide ?sn (lw_fresh w1) ?sn') w4)"
    using snapshot_steps [OF w4(2) a4] by simp
  have r6: "run_moves opts (acts p 2) (goto p (Decide ?sn (lw_fresh w1) ?sn') w4) = Some ((goto p Top w4)\<lparr>lw_dir := None\<rparr>)"
    using still_gone [OF w1(3) g1 w4(3-7)] a4
    by (auto simp: acts_Suc eval_nat_numeral act_def outside_def in_loop_def in_reclaim_def goto_def)
  obtain w7 where w7: "run_moves opts (acts p 6) ((goto p Top w4)\<lparr>lw_dir := None\<rparr>) = Some w7" "lp_pc (lw_proc w7 p) = Work"
      "owner_of w7 = Some \<lparr>lo_pid = p, lo_startedAt = lk_now (opts p)\<rparr>"
    using taking_steps [of "(goto p Top w4)\<lparr>lw_dir := None\<rparr>" p opts] a4 w0(4) w1(5) w4(8) by auto
  have "run_moves opts (acts p 25) w0 = Some w7"
    using run_acts_add [OF run_acts_add [OF run_acts_add [OF run_acts_add [OF run_acts_add [OF run_acts_add
      [OF w1(1) r2] r3] w4(1)] r5] r6] w7(1)] by simp
  then show ?thesis using assms(1) w7(2,3) by (auto simp: w0_def)
qed

text \<open>Process 1 has died inside the lock.\<close>

theorem lock_of_gone_owner_is_taken_witness:
  "\<exists>w w'. run_moves (\<lambda>_. exact_opts Lease_lock) (Start 1 # acts 1 6 @ [Crash 1]) (initial (\<lambda>p. p \<in> {1, 2})) = Some w
     \<and> run_moves (\<lambda>_. exact_opts Lease_lock) (Start 2 # acts 2 25) w = Some w' \<and> lp_pc (lw_proc w' 2) = Work"
proof -
  let ?o = "\<lambda>_. exact_opts Lease_lock" and ?ms = "Start 1 # acts 1 6 @ [Crash 1]" and ?w = "initial (\<lambda>p. p \<in> {1, 2})"
  have "case run_moves ?o ?ms ?w of None \<Rightarrow> False | Some w \<Rightarrow> can_move w (Start 2) \<and> \<not> lw_cancelled w 2
      \<and> (case lw_dir w of None \<Rightarrow> False | Some d \<Rightarrow> ld_marker d = None \<and> gone (?o 2) w d)" by code_simp
  then obtain w d where w: "run_moves ?o ?ms ?w = Some w" "can_move w (Start 2)" "\<not> lw_cancelled w 2"
      "lw_dir w = Some d" "ld_marker d = None" "gone (?o 2) w d" by (auto split: option.splits)
  have "\<exists>w'. run_moves ?o (Start 2 # acts 2 25) w = Some w' \<and> lp_pc (lw_proc w' 2) = Work
      \<and> owner_of w' = Some \<lparr>lo_pid = 2, lo_startedAt = lk_now (?o 2)\<rparr>"
    by (rule lock_of_gone_owner_is_taken [OF w(2,4,5,6,3)]) (simp add: exact_opts_def)
  then show ?thesis using w(1) by blast
qed

end
