(* ===== verification/Ndjson.thy ===== *)
theory Ndjson
  imports Broker_Store
begin

text \<open>
  The event file, one JSON text per line (\<open>writeNdjsonRecords\<close> to \<open>appendNdjson\<close> and
  \<open>readEventsBroker\<close> in \<open>broker-core/index.mjs\<close>): an append first repairs the line that an interrupted
  append has left, a reader of the last events reads the file from its end, and a cursor leads from page
  to page.  \<open>JSON.parse\<close> and \<open>JSON.stringify\<close> of a record are parameters; a character is one byte.
\<close>

section \<open>Lines\<close>

abbreviation newline :: char where
  "newline \<equiv> CHR 0x0A"

definition parse_line :: "(string \<Rightarrow> 'e option) \<Rightarrow> string \<Rightarrow> 'e list" where
  "parse_line parse l = (if l = [] then [] else case parse l of None \<Rightarrow> [] | Some r \<Rightarrow> [r])"

definition parseNdjsonRecords :: "(string \<Rightarrow> 'e option) \<Rightarrow> string \<Rightarrow> 'e list" where
  "parseNdjsonRecords parse content = concat (map (parse_line parse) (split_on newline content))"

definition ndjson_text :: "('e \<Rightarrow> string) \<Rightarrow> 'e list \<Rightarrow> string" where
  "ndjson_text stringify records = concat (map (\<lambda>r. stringify r @ [newline]) records)"

text \<open>The records, and the file as the reader leaves it.\<close>

definition readNdjsonRecords ::
  "(string \<Rightarrow> 'e option) \<Rightarrow> ('e \<Rightarrow> string) \<Rightarrow> bool \<Rightarrow> string option \<Rightarrow> 'e list \<times> string option" where
  "readNdjsonRecords parse stringify repair file = (case file of
     None \<Rightarrow> ([], None)
   | Some content \<Rightarrow>
      (let records = parseNdjsonRecords parse content;
           needsRepair = (content \<noteq> [] \<and> last content \<noteq> newline
             \<or> list_ex (\<lambda>l. l \<noteq> [] \<and> parse l = None) (split_on newline content))
       in (records, Some (if repair \<and> needsRepair then ndjson_text stringify records else content))))"

section \<open>Reading from the end\<close>

definition ndjson_tail_repair_chunk_bytes :: nat where
  "ndjson_tail_repair_chunk_bytes = 64 * 1024"

definition ndjson_tail_record_max_bytes :: nat where
  "ndjson_tail_record_max_bytes = 1024 * 1024"

text \<open>The bytes from \<open>position\<close> on have been read; \<open>records\<close> are the records in them.\<close>

function tail_loop :: "(string \<Rightarrow> 'e option) \<Rightarrow> nat \<Rightarrow> string \<Rightarrow> nat \<Rightarrow> nat \<Rightarrow> 'e list \<Rightarrow> 'e list" where
  "tail_loop parse chunk content limit position records =
    (if position = 0 \<or> chunk = 0 then records
     else let position' = position - min chunk position; records' = parseNdjsonRecords parse (drop position' content) in
       if limit \<le> length records' then records'
       else tail_loop parse chunk content limit position' records')"
  by pat_completeness auto
termination
  by (relation "measure (\<lambda>(parse, chunk, content, limit, position, records). position)") auto

declare tail_loop.simps [simp del]

definition slice_last :: "nat \<Rightarrow> 'a list \<Rightarrow> 'a list" where
  "slice_last n xs = drop (length xs - n) xs"

definition readNdjsonTailRecords :: "(string \<Rightarrow> 'e option) \<Rightarrow> nat \<Rightarrow> string option \<Rightarrow> int \<Rightarrow> 'e list" where
  "readNdjsonTailRecords parse chunk file limit = (case file of
     None \<Rightarrow> []
   | Some content \<Rightarrow>
      if limit \<le> 0 \<or> content = [] then []
      else slice_last (nat limit) (tail_loop parse chunk content (nat limit) (length content) []))"

section \<open>Appending\<close>

text \<open>\<open>lastIndexOf\<close> of a newline in a piece of the file.\<close>

definition last_index :: "string \<Rightarrow> nat option" where
  "last_index s = (let after = length (takeWhile (\<lambda>c. c \<noteq> newline) (rev s)) in
     if after = length s then None else Some (length s - 1 - after))"

function findLastNewlineOffset :: "nat \<Rightarrow> string \<Rightarrow> nat \<Rightarrow> nat option" where
  "findLastNewlineOffset chunk content position =
    (if position = 0 \<or> chunk = 0 then None
     else let bytesToRead = min chunk position; position' = position - bytesToRead in
       case last_index (take bytesToRead (drop position' content)) of
         Some i \<Rightarrow> Some (position' + i)
       | None \<Rightarrow> findLastNewlineOffset chunk content position')"
  by pat_completeness auto
termination
  by (relation "measure (\<lambda>(chunk, content, position). position)") auto

declare findLastNewlineOffset.simps [simp del]

definition tail_start :: "nat \<Rightarrow> string \<Rightarrow> nat" where
  "tail_start chunk content = (case findLastNewlineOffset chunk content (length content) of None \<Rightarrow> 0 | Some i \<Rightarrow> i + 1)"

definition repairNdjsonTail :: "(string \<Rightarrow> 'e option) \<Rightarrow> nat \<Rightarrow> string option \<Rightarrow> string option" where
  "repairNdjsonTail parse chunk file = (case file of
     None \<Rightarrow> None
   | Some content \<Rightarrow>
      if content = [] \<or> last content = newline then Some content
      else let tailStart = tail_start chunk content in
        if ndjson_tail_record_max_bytes < length content - tailStart then Some (take tailStart content)
        else case parse (drop tailStart content) of
          Some _ \<Rightarrow> Some (content @ [newline])
        | None \<Rightarrow> Some (take tailStart content))"

text \<open>How the append ends: a failure may leave some bytes, and cutting them off may fail too.\<close>

datatype append_outcome = Append_done | Append_failed nat bool

definition appendNdjson ::
  "(string \<Rightarrow> 'e option) \<Rightarrow> ('e \<Rightarrow> string) \<Rightarrow> nat \<Rightarrow> append_outcome \<Rightarrow> 'e \<Rightarrow> string option \<Rightarrow> bool \<times> string option" where
  "appendNdjson parse stringify chunk outcome payload file =
    (let before = nullish (repairNdjsonTail parse chunk file) [];
         line = stringify payload @ [newline]
     in case outcome of
       Append_done \<Rightarrow> (True, Some (before @ line))
     | Append_failed n trimmed \<Rightarrow> (False, Some (if trimmed then before else before @ take n line)))"

section \<open>Lines of a file that is cut\<close>

lemma parse_line_Nil [simp]: "parse_line parse [] = []"
  by (simp add: parse_line_def)

lemma split_on_join:
  "split_on d (s @ t) = butlast (split_on d s) @ (last (split_on d s) @ hd (split_on d t)) # tl (split_on d t)"
proof (induction s)
  case Nil
  then show ?case by (cases "split_on d t") simp_all
next
  case (Cons c s)
  obtain v vs where v: "split_on d s = v # vs" by (cases "split_on d s") auto
  show ?case using Cons v by (auto split: list.splits)
qed

lemma records_of_append_line: "parseNdjsonRecords parse (s @ newline # t) = parseNdjsonRecords parse s @ parseNdjsonRecords parse t"
proof -
  have "split_on newline (s @ newline # t) = butlast (split_on newline s) @ last (split_on newline s) # split_on newline t"
    by (subst split_on_join) simp
  then have "split_on newline (s @ newline # t) = split_on newline s @ split_on newline t"
    by (metis append.assoc append_Cons append_Nil append_butlast_last_id split_on_not_Nil)
  then show ?thesis by (simp add: parseNdjsonRecords_def)
qed

lemma records_Nil [simp]: "parseNdjsonRecords parse [] = []"
  by (simp add: parseNdjsonRecords_def)

lemma records_of_line: "newline \<notin> set l \<Longrightarrow> parseNdjsonRecords parse l = parse_line parse l"
  by (simp add: parseNdjsonRecords_def split_on_no_sep)

text \<open>No end of a line but the whole line is a JSON text.\<close>

definition whole_lines :: "(string \<Rightarrow> 'e option) \<Rightarrow> string \<Rightarrow> bool" where
  "whole_lines parse content \<longleftrightarrow> (\<forall>l\<in>set (split_on newline content). \<forall>s t. l = s @ t \<longrightarrow> s \<noteq> [] \<longrightarrow> t \<noteq> [] \<longrightarrow> parse t = None)"

lemma whole_linesI:
  assumes "list_all (\<lambda>l. list_all (\<lambda>i. parse (drop i l) = None) [1..<length l]) (split_on newline content)"
  shows "whole_lines parse content"
  unfolding whole_lines_def
proof (intro ballI allI impI)
  fix l s t assume l: "l \<in> set (split_on newline content)" "l = s @ t" "s \<noteq> []" "t \<noteq> []"
  then have "1 \<le> length s" "length s < length l" by (cases s; simp)+
  then have "length s \<in> set [1..<length l]" by simp
  then have "parse (drop (length s) l) = None" using assms l(1) unfolding list_all_iff by blast
  then show "parse t = None" using l(2) by simp
qed

lemma records_of_end:
  assumes "whole_lines parse (s @ t)"
  shows "\<exists>pre. parseNdjsonRecords parse (s @ t) = pre @ parseNdjsonRecords parse t"
proof -
  let ?h = "hd (split_on newline t)" and ?p = "last (split_on newline s)"
  have all: "parseNdjsonRecords parse (s @ t) = concat (map (parse_line parse) (butlast (split_on newline s)))
      @ parse_line parse (?p @ ?h) @ concat (map (parse_line parse) (tl (split_on newline t)))"
    by (simp add: parseNdjsonRecords_def split_on_join [of newline s t])
  have end_t: "parseNdjsonRecords parse t = parse_line parse ?h @ concat (map (parse_line parse) (tl (split_on newline t)))"
    unfolding parseNdjsonRecords_def by (cases "split_on newline t") simp_all
  have "?p @ ?h \<in> set (split_on newline (s @ t))" by (simp add: split_on_join [of newline s t])
  then have "?p \<noteq> [] \<Longrightarrow> ?h \<noteq> [] \<Longrightarrow> parse ?h = None" using assms unfolding whole_lines_def by blast
  then have "parse_line parse ?h = [] \<or> parse_line parse ?h = parse_line parse (?p @ ?h)"
    by (cases "?p = []") (auto simp: parse_line_def)
  then show ?thesis unfolding all end_t by (metis append.assoc append_Nil)
qed

section \<open>The last records\<close>

lemma tail_loop_end:
  assumes chunk: "0 < chunk" and whole: "whole_lines parse content"
    and r: "records = parseNdjsonRecords parse (drop position content)"
  shows "(\<exists>pre. parseNdjsonRecords parse content = pre @ tail_loop parse chunk content limit position records)
    \<and> (limit \<le> length (tail_loop parse chunk content limit position records)
       \<or> tail_loop parse chunk content limit position records = parseNdjsonRecords parse content)"
  using r
proof (induction position arbitrary: records rule: less_induct)
  case (less position)
  show ?case
  proof (cases "position = 0")
    case True
    then show ?thesis using less.prems by (subst (1 2 3) tail_loop.simps) simp
  next
    case False
    let ?p = "position - min chunk position"
    let ?r = "parseNdjsonRecords parse (drop ?p content)"
    have "\<exists>pre. parseNdjsonRecords parse (take ?p content @ drop ?p content) = pre @ ?r"
      by (rule records_of_end) (use whole in simp)
    then have here: "\<exists>pre. parseNdjsonRecords parse content = pre @ ?r" by simp
    have step: "tail_loop parse chunk content limit position records
        = (if limit \<le> length ?r then ?r else tail_loop parse chunk content limit ?p ?r)"
      using False chunk by (subst tail_loop.simps) (simp add: Let_def)
    show ?thesis
    proof (cases "limit \<le> length ?r")
      case True
      then show ?thesis using here by (simp add: step)
    next
      case f: False
      have "?p < position" using False chunk by simp
      from less.IH [OF this refl] show ?thesis using f by (simp add: step)
    qed
  qed
qed

lemma slice_last_append: "n \<le> length ys \<Longrightarrow> slice_last n (xs @ ys) = slice_last n ys"
  by (simp add: slice_last_def)

text \<open>The reader that reads the file from its end returns the last \<open>limit\<close> of the records that the
  reader of the whole file returns, for every size of the pieces, if no line has a proper end that is a
  JSON text itself.\<close>

theorem tail_read_is_end_of_full_read:
  assumes "0 < chunk" "whole_lines parse content" "0 < limit"
  shows "readNdjsonTailRecords parse chunk (Some content) limit
    = slice_last (nat limit) (fst (readNdjsonRecords parse stringify repair (Some content)))"
proof -
  let ?r = "tail_loop parse chunk content (nat limit) (length content) []" and ?all = "parseNdjsonRecords parse content"
  have full: "fst (readNdjsonRecords parse stringify repair (Some content)) = ?all"
    by (simp add: readNdjsonRecords_def Let_def)
  have "(\<exists>pre. ?all = pre @ ?r) \<and> (nat limit \<le> length ?r \<or> ?r = ?all)"
    by (rule tail_loop_end [OF assms(1,2)]) simp
  then have "slice_last (nat limit) ?r = slice_last (nat limit) ?all" by (auto simp: slice_last_append)
  then show ?thesis using assms(3) full by (auto simp: readNdjsonTailRecords_def slice_last_def)
qed

section \<open>An append adds one record\<close>

lemma last_index_None:
  assumes "last_index s = None"
  shows "newline \<notin> set s"
proof -
  let ?P = "\<lambda>c. c \<noteq> newline"
  have "length (takeWhile ?P (rev s)) = length (rev s)" using assms by (simp add: last_index_def Let_def split: if_splits)
  then have "takeWhile ?P (rev s) = rev s" by (metis order_refl take_all takeWhile_eq_take)
  then have "\<forall>c\<in>set (rev s). c \<noteq> newline" unfolding takeWhile_eq_all_conv .
  then show ?thesis by auto
qed

lemma last_index_Some:
  assumes "last_index s = Some i"
  shows "\<exists>a b. s = a @ newline # b \<and> length a = i \<and> newline \<notin> set b"
proof -
  let ?P = "\<lambda>c. c \<noteq> newline"
  have ne: "length (takeWhile ?P (rev s)) \<noteq> length s" and i: "i = length s - 1 - length (takeWhile ?P (rev s))"
    using assms by (auto simp: last_index_def Let_def split: if_splits)
  have "dropWhile ?P (rev s) \<noteq> []"
    using ne by (metis append_Nil2 length_rev takeWhile_dropWhile_id)
  then obtain c r where d: "dropWhile ?P (rev s) = c # r" by (cases "dropWhile ?P (rev s)") auto
  then have c: "c = newline" using hd_dropWhile [of ?P "rev s"] by simp
  have "rev s = takeWhile ?P (rev s) @ newline # r" using d c takeWhile_dropWhile_id [of ?P "rev s"] by simp
  then have s: "s = rev r @ newline # rev (takeWhile ?P (rev s))" by (metis append.assoc append_Cons append_Nil rev.simps(2) rev_append rev_rev_ident)
  have "length s = length r + 1 + length (takeWhile ?P (rev s))" by (subst s) simp
  then have "length (rev r) = i" using i by simp
  moreover have "newline \<notin> set (rev (takeWhile ?P (rev s)))" by (auto dest: set_takeWhileD)
  ultimately show ?thesis using s by blast
qed

lemma findLastNewlineOffset_spec:
  assumes "0 < chunk" "position \<le> length content" "newline \<notin> set (drop position content)"
  shows "case findLastNewlineOffset chunk content position of
      None \<Rightarrow> newline \<notin> set content
    | Some i \<Rightarrow> \<exists>a b. content = a @ newline # b \<and> length a = i \<and> newline \<notin> set b"
  using assms(2,3)
proof (induction position rule: less_induct)
  case (less position)
  show ?case
  proof (cases "position = 0")
    case True
    then show ?thesis using less.prems by (subst findLastNewlineOffset.simps) simp
  next
    case False
    let ?n = "min chunk position"
    let ?p = "position - ?n"
    let ?piece = "take ?n (drop ?p content)"
    have "drop position content = drop ?n (drop ?p content)" by simp
    then have piece: "drop ?p content = ?piece @ drop position content" by (metis append_take_drop_id)
    have split: "content = take ?p content @ ?piece @ drop position content" by (metis piece append_take_drop_id)
    have step: "findLastNewlineOffset chunk content position = (case last_index ?piece of Some i \<Rightarrow> Some (?p + i)
        | None \<Rightarrow> findLastNewlineOffset chunk content ?p)"
      using False assms(1) by (subst findLastNewlineOffset.simps) (simp add: Let_def)
    show ?thesis
    proof (cases "last_index ?piece")
      case None
      have "newline \<notin> set ?piece" using last_index_None [OF None] .
      then have "newline \<notin> set (drop ?p content)"
        using less.prems(2) piece by (metis UnE set_append)
      moreover have "?p < position" "?p \<le> length content" using False assms(1) less.prems(1) by auto
      ultimately have "case findLastNewlineOffset chunk content ?p of None \<Rightarrow> newline \<notin> set content
          | Some i \<Rightarrow> \<exists>a b. content = a @ newline # b \<and> length a = i \<and> newline \<notin> set b"
        using less.IH by blast
      then show ?thesis by (simp add: step None)
    next
      case (Some i)
      from last_index_Some [OF Some] obtain a b where ab: "?piece = a @ newline # b" "length a = i" "newline \<notin> set b" by blast
      have "content = (take ?p content @ a) @ newline # (b @ drop position content)" using split ab(1) by simp
      moreover have "length (take ?p content @ a) = ?p + i" using ab(2) less.prems(1) by simp
      moreover have "newline \<notin> set (b @ drop position content)" using ab(3) less.prems(2) by simp
      ultimately show ?thesis unfolding step Some by (simp only: option.case) blast
    qed
  qed
qed

lemma tail_start_spec:
  assumes "0 < chunk"
  shows "newline \<notin> set (drop (tail_start chunk content) content)"
    "tail_start chunk content = 0 \<or> (\<exists>a. take (tail_start chunk content) content = a @ [newline])"
proof -
  have s: "case findLastNewlineOffset chunk content (length content) of None \<Rightarrow> newline \<notin> set content
      | Some i \<Rightarrow> \<exists>a b. content = a @ newline # b \<and> length a = i \<and> newline \<notin> set b"
    by (rule findLastNewlineOffset_spec [OF assms]) simp_all
  show "newline \<notin> set (drop (tail_start chunk content) content)"
    "tail_start chunk content = 0 \<or> (\<exists>a. take (tail_start chunk content) content = a @ [newline])"
    using s by (auto simp: tail_start_def split: option.splits)
qed

text \<open>The repair keeps the records, if the unfinished line is not longer than a record may be.\<close>

lemma repair_keeps_records:
  assumes chunk: "0 < chunk" and small: "length content - tail_start chunk content \<le> ndjson_tail_record_max_bytes"
  shows "\<exists>c. repairNdjsonTail parse chunk (Some content) = Some c \<and> (c = [] \<or> last c = newline)
    \<and> parseNdjsonRecords parse c = parseNdjsonRecords parse content"
proof (cases "content = [] \<or> last content = newline")
  case True
  then show ?thesis by (auto simp: repairNdjsonTail_def)
next
  case False
  let ?n = "tail_start chunk content"
  let ?t = "drop ?n content" and ?h = "take ?n content"
  note ts = tail_start_spec [OF chunk, of content]
  have whole: "parseNdjsonRecords parse content = parseNdjsonRecords parse ?h @ parse_line parse ?t"
  proof (cases "?n = 0")
    case True
    then show ?thesis using ts(1) by (simp add: records_of_line)
  next
    case False
    then obtain a where a: "?h = a @ [newline]" using ts(2) by auto
    have "content = a @ newline # ?t" using a by (metis append.assoc append_Cons append_Nil append_take_drop_id)
    then have "parseNdjsonRecords parse content = parseNdjsonRecords parse a @ parseNdjsonRecords parse ?t"
      by (metis records_of_append_line)
    moreover have "parseNdjsonRecords parse ?h = parseNdjsonRecords parse a" by (simp add: a records_of_append_line)
    ultimately show ?thesis using ts(1) by (simp add: records_of_line)
  qed
  show ?thesis
  proof (cases "parse ?t")
    case None
    have "parse_line parse ?t = []" using None by (simp add: parse_line_def)
    moreover have "?h = [] \<or> last ?h = newline" using ts(2) by auto
    ultimately show ?thesis using False None small whole by (simp add: repairNdjsonTail_def Let_def)
  next
    case (Some r)
    have "parseNdjsonRecords parse (content @ [newline]) = parseNdjsonRecords parse content" by (simp add: records_of_append_line)
    then show ?thesis using False Some small by (simp add: repairNdjsonTail_def Let_def)
  qed
qed

lemma records_after_newline:
  assumes "c = [] \<or> last c = newline"
  shows "parseNdjsonRecords parse (c @ t) = parseNdjsonRecords parse c @ parseNdjsonRecords parse t"
proof (cases "c = []")
  case False
  then have "c = butlast c @ [newline]" using assms append_butlast_last_id by metis
  then show ?thesis using records_of_append_line [of parse "butlast c"]
    by (metis append.assoc append_Cons append_Nil append_Nil2 records_Nil)
qed simp

text \<open>C30: An append that succeeds adds its record at the end of the records that a reader finds, whatever an
  interrupted append has left before; one that fails and cuts its bytes off changes no record.\<close>

theorem append_adds_one_record:
  assumes "0 < chunk" "newline \<notin> set (stringify payload)" "stringify payload \<noteq> []" "parse (stringify payload) = Some payload"
    and "length content - tail_start chunk content \<le> ndjson_tail_record_max_bytes"
  shows "(\<exists>c. appendNdjson parse stringify chunk Append_done payload (Some content) = (True, Some c)
      \<and> parseNdjsonRecords parse c = parseNdjsonRecords parse content @ [payload])
    \<and> (\<exists>c. appendNdjson parse stringify chunk (Append_failed n True) payload (Some content) = (False, Some c)
      \<and> parseNdjsonRecords parse c = parseNdjsonRecords parse content)"
proof -
  obtain c where c: "repairNdjsonTail parse chunk (Some content) = Some c" "c = [] \<or> last c = newline"
      "parseNdjsonRecords parse c = parseNdjsonRecords parse content"
    using repair_keeps_records [OF assms(1,5)] by blast
  have "parseNdjsonRecords parse (stringify payload @ [newline]) = [payload]"
    using assms(2-4) by (simp add: records_of_append_line records_of_line parse_line_def)
  then show ?thesis
    using c records_after_newline [OF c(2), of parse] by (simp add: appendNdjson_def nullish_def)
qed

text \<open>Digits in parentheses are records; the last append was interrupted.\<close>

definition sample_parse :: "string \<Rightarrow> string option" where
  "sample_parse l = (if length l = 3 \<and> hd l = CHR ''('' \<and> last l = CHR '')'' then Some [l ! 1] else None)"

definition sample_stringify :: "string \<Rightarrow> string" where
  "sample_stringify r = ''('' @ r @ '')''"

definition sample_content :: string where
  "sample_content = ''(1)'' @ [newline] @ ''(2)'' @ [newline] @ ''(3''"

lemma tail_read_is_end_of_full_read_witness:
  "readNdjsonTailRecords sample_parse 4 (Some sample_content) 1 = [''2'']"
proof -
  have "whole_lines sample_parse sample_content"
    by (rule whole_linesI) code_simp
  from tail_read_is_end_of_full_read [where chunk = 4 and limit = 1 and stringify = sample_stringify and repair = False, OF _ this]
  have "readNdjsonTailRecords sample_parse 4 (Some sample_content) 1
    = slice_last (nat 1) (fst (readNdjsonRecords sample_parse sample_stringify False (Some sample_content)))" by simp
  moreover have "slice_last (nat 1) (fst (readNdjsonRecords sample_parse sample_stringify False (Some sample_content))) = [''2'']"
    by code_simp
  ultimately show ?thesis by simp
qed

lemma append_adds_one_record_witness:
  "\<exists>c. appendNdjson sample_parse sample_stringify 4 Append_done ''4'' (Some sample_content) = (True, Some c)
     \<and> parseNdjsonRecords sample_parse c = [''1'', ''2'', ''4'']"
proof -
  have "length sample_content - tail_start 4 sample_content = 2" by code_simp
  then have "length sample_content - tail_start 4 sample_content \<le> ndjson_tail_record_max_bytes"
    by (simp add: ndjson_tail_record_max_bytes_def)
  moreover have "parseNdjsonRecords sample_parse sample_content = [''1'', ''2'']" by code_simp
  ultimately show ?thesis
    using append_adds_one_record [of 4 sample_stringify "''4''" sample_parse sample_content]
    by (auto simp: sample_stringify_def sample_parse_def)
qed

section \<open>Reading events\<close>

record event_query =
  eq_afterEventId :: "string option"
  eq_alias :: "string option"
  eq_projectId :: "string option"
  eq_purposeId :: "string option"
  eq_type :: "string option"
  eq_limit :: "int option"
  eq_limitMode :: "string option"

record event_page =
  ep_cursor :: "string option"
  ep_events :: "event list"
  ep_nextCursor :: "string option"
  ep_scannedCursor :: "string option"

definition canUseTailEventRead :: "event_query \<Rightarrow> bool" where
  "canUseTailEventRead q \<longleftrightarrow> eq_afterEventId q = None \<and> eq_alias q = None \<and> eq_projectId q = None \<and> eq_purposeId q = None
     \<and> eq_type q = None \<and> (case eq_limit q of None \<Rightarrow> False | Some n \<Rightarrow> 0 < n) \<and> eq_limitMode q \<noteq> Some ''head''"

text \<open>\<open>if (options.x) filter(event.x === options.x)\<close>\<close>

definition matches_option :: "string option \<Rightarrow> string option \<Rightarrow> bool" where
  "matches_option wanted actual \<longleftrightarrow> wanted = None \<or> wanted = Some [] \<or> actual = wanted"

definition event_matches :: "event_query \<Rightarrow> event \<Rightarrow> bool" where
  "event_matches q e \<longleftrightarrow> matches_option (eq_alias q) (ev_alias e) \<and> matches_option (eq_projectId q) (ev_projectId e)
     \<and> matches_option (eq_purposeId q) (ev_purposeId e) \<and> matches_option (eq_type q) (Some (ev_type e))"

definition last_id :: "event list \<Rightarrow> string option \<Rightarrow> string option" where
  "last_id es fallback = (if es = [] then fallback else Some (ev_id (last es)))"

fun events_after :: "string \<Rightarrow> event list \<Rightarrow> event list option" where
  "events_after c [] = None"
| "events_after c (e # es) = (if ev_id e = c then Some es else events_after c es)"

definition page_of :: "event_query \<Rightarrow> event list \<Rightarrow> event_page" where
  "page_of q scanned =
    (let filtered = filter (event_matches q) scanned;
         after = eq_afterEventId q;
         (shown, next) = (case eq_limit q of
           None \<Rightarrow> (filtered, last_id scanned after)
         | Some n \<Rightarrow>
            if n < 0 then (filtered, last_id scanned after)
            else if n = 0 then ([], last_id scanned after)
            else if eq_limitMode q = Some ''head'' then
              (let limited = take (nat n) filtered in
               (limited, if length limited < length filtered then last_id limited after else last_id scanned after))
            else (slice_last (nat n) filtered, last_id scanned after))
     in \<lparr>ep_cursor = last_id shown after, ep_events = shown, ep_nextCursor = next, ep_scannedCursor = last_id scanned after\<rparr>)"

definition cursor_error :: "string \<Rightarrow> berr" where
  "cursor_error c = broker_err (''Event cursor '' @ c @ '' was not found.'') ''event-cursor-not-found''"

definition read_page :: "event_query \<Rightarrow> event list \<Rightarrow> berr + event_page" where
  "read_page q events = (case eq_afterEventId q of
     None \<Rightarrow> Inr (page_of q events)
   | Some c \<Rightarrow> (case events_after c events of None \<Rightarrow> Inl (cursor_error c) | Some es \<Rightarrow> Inr (page_of q es)))"

definition loadEventRecords :: "(string \<Rightarrow> event option) \<Rightarrow> string option \<Rightarrow> event list" where
  "loadEventRecords parse file = fst (readNdjsonRecords parse (\<lambda>_. []) False file)"

definition loadTailEventRecords :: "(string \<Rightarrow> event option) \<Rightarrow> string option \<Rightarrow> int \<Rightarrow> event list" where
  "loadTailEventRecords parse file limit = readNdjsonTailRecords parse ndjson_tail_repair_chunk_bytes file limit"

definition readEventsBroker :: "(string \<Rightarrow> event option) \<Rightarrow> string option \<Rightarrow> event_query \<Rightarrow> berr + event_page" where
  "readEventsBroker parse file q = read_page q
    (if canUseTailEventRead q then loadTailEventRecords parse file (nullish (eq_limit q) 0) else loadEventRecords parse file)"

lemma slice_last_idem: "slice_last n (slice_last n xs) = slice_last n xs"
  by (simp add: slice_last_def)

lemma last_slice_last: "0 < n \<Longrightarrow> last_id (slice_last n xs) x = last_id xs x"
proof (cases "xs = []")
  case False
  assume "0 < n"
  then have "length xs - n < length xs" using False by simp
  then show ?thesis using False by (simp add: last_id_def slice_last_def)
qed (simp add: slice_last_def)

lemma page_of_tail:
  assumes "canUseTailEventRead q" "eq_limit q = Some n"
  shows "page_of q (slice_last (nat n) events) = page_of q events"
proof -
  have q: "0 < n" "eq_limitMode q \<noteq> Some ''head''" "eq_afterEventId q = None" and e: "event_matches q = (\<lambda>_. True)"
    using assms by (auto simp: canUseTailEventRead_def event_matches_def matches_option_def fun_eq_iff)
  show ?thesis using q assms(2) by (simp add: page_of_def e Let_def slice_last_idem last_slice_last)
qed

text \<open>C31: Reading only the end of the event file gives the page that reading the whole file gives, for every
  query, if no line of the file has a proper end that is a JSON text itself.\<close>

theorem tail_reading_is_transparent:
  assumes "\<And>content. file = Some content \<Longrightarrow> whole_lines parse content"
  shows "readEventsBroker parse file q = read_page q (loadEventRecords parse file)"
proof (cases "canUseTailEventRead q")
  case True
  then obtain n where n: "eq_limit q = Some n" "0 < n" by (auto simp: canUseTailEventRead_def split: option.splits)
  have "loadTailEventRecords parse file n = slice_last (nat n) (loadEventRecords parse file)"
  proof (cases "file")
    case None
    then show ?thesis by (simp add: loadTailEventRecords_def loadEventRecords_def readNdjsonTailRecords_def readNdjsonRecords_def slice_last_def)
  next
    case (Some content)
    have "loadTailEventRecords parse file n = slice_last (nat n) (fst (readNdjsonRecords parse (\<lambda>_. []) False (Some content)))"
      unfolding loadTailEventRecords_def Some
      using tail_loop_end [of ndjson_tail_repair_chunk_bytes parse content "[]" "length content" "nat n"] assms [OF Some] n(2)
      by (auto simp: ndjson_tail_repair_chunk_bytes_def readNdjsonTailRecords_def readNdjsonRecords_def Let_def slice_last_append)
        (simp_all add: slice_last_def)
    then show ?thesis by (simp add: loadEventRecords_def Some)
  qed
  moreover have "eq_afterEventId q = None" using True by (simp add: canUseTailEventRead_def)
  ultimately show ?thesis using True n page_of_tail [OF True n(1)] by (simp add: readEventsBroker_def read_page_def nullish_def)
next
  case False
  then show ?thesis by (simp add: readEventsBroker_def)
qed

lemma tail_reading_is_transparent_witness:
  "let p = (\<lambda>l. if l = ''e'' then Some (event_of ''t'' None None None None None [] ''now'') else None) in
   readEventsBroker p (Some (''e'' @ [newline])) \<lparr>eq_afterEventId = None, eq_alias = None, eq_projectId = None,
     eq_purposeId = None, eq_type = None, eq_limit = Some 5, eq_limitMode = None\<rparr>
   = read_page \<lparr>eq_afterEventId = None, eq_alias = None, eq_projectId = None,
     eq_purposeId = None, eq_type = None, eq_limit = Some 5, eq_limitMode = None\<rparr> [event_of ''t'' None None None None None [] ''now'']"
proof -
  let ?p = "\<lambda>l. if l = ''e'' then Some (event_of ''t'' None None None None None [] ''now'') else None"
  have "whole_lines ?p (''e'' @ [newline])" by (rule whole_linesI) simp
  then show ?thesis
    using tail_reading_is_transparent [of "Some (''e'' @ [newline])" ?p]
    by (simp add: Let_def loadEventRecords_def readNdjsonRecords_def parseNdjsonRecords_def parse_line_def)
qed

section \<open>Pages\<close>

text \<open>The events that a query still wants after a cursor.\<close>

definition wanted_after :: "event_query \<Rightarrow> event list \<Rightarrow> string option \<Rightarrow> event list" where
  "wanted_after q events c = filter (event_matches q) (case c of None \<Rightarrow> events | Some c' \<Rightarrow> nullish (events_after c' events) [])"

lemma events_after_split:
  "events_after c es = Some rest \<Longrightarrow> \<exists>pre e. es = pre @ e # rest \<and> ev_id e = c \<and> c \<notin> set (map ev_id pre)"
proof (induction es)
  case (Cons a es)
  show ?case
  proof (cases "ev_id a = c")
    case True
    then show ?thesis using Cons.prems by (intro exI [of _ "[]"] exI [of _ a]) simp
  next
    case False
    then obtain pre e where "es = pre @ e # rest" "ev_id e = c" "c \<notin> set (map ev_id pre)" using Cons by auto
    then show ?thesis using False by (intro exI [of _ "a # pre"] exI [of _ e]) simp
  qed
qed simp

lemma events_after_found:
  "c \<notin> set (map ev_id pre) \<Longrightarrow> ev_id e = c \<Longrightarrow> events_after c (pre @ e # rest) = Some rest"
  by (induction pre) auto

lemma filter_take_split:
  assumes "n < length (filter P xs)" "0 < n"
  shows "\<exists>ys x zs. xs = ys @ x # zs \<and> P x \<and> take n (filter P xs) = filter P ys @ [x]"
  using assms
proof (induction xs arbitrary: n)
  case (Cons a xs)
  show ?case
  proof (cases "P a")
    case True
    show ?thesis
    proof (cases "n = 1")
      case True
      then show ?thesis using \<open>P a\<close> by (intro exI [of _ "[]"] exI [of _ a] exI [of _ xs]) simp
    next
      case False
      then have "n - 1 < length (filter P xs)" "0 < n - 1" using Cons.prems \<open>P a\<close> by auto
      from Cons.IH [OF this] obtain ys x zs where "xs = ys @ x # zs" "P x" "take (n - 1) (filter P xs) = filter P ys @ [x]" by blast
      then show ?thesis using \<open>P a\<close> Cons.prems(2)
        by (intro exI [of _ "a # ys"] exI [of _ x] exI [of _ zs]) (cases n, auto)
    qed
  next
    case False
    from Cons.IH [of n] obtain ys x zs where "xs = ys @ x # zs" "P x" "take n (filter P xs) = filter P ys @ [x]"
      using Cons.prems False by auto
    then show ?thesis using False by (intro exI [of _ "a # ys"] exI [of _ x] exI [of _ zs]) simp
  qed
qed simp

text \<open>C32: A page read from the head holds the first events that are wanted after the cursor, at most as many
  as the limit, and the next cursor stands right behind them: what is wanted after it is what is left.\<close>

theorem pages_lose_nothing:
  assumes "read_page q events = Inr page" "eq_limit q = Some n" "0 < n" "eq_limitMode q = Some ''head''"
    and "distinct (map ev_id events)"
  shows "wanted_after q events (eq_afterEventId q) = ep_events page @ wanted_after q events (ep_nextCursor page)
    \<and> (ep_events page = [] \<longleftrightarrow> wanted_after q events (eq_afterEventId q) = []) \<and> int (length (ep_events page)) \<le> n"
proof -
  obtain pre scanned where ev: "events = pre @ scanned" "page = page_of q scanned"
    and want: "wanted_after q events (eq_afterEventId q) = filter (event_matches q) scanned"
    and behind: "case eq_afterEventId q of None \<Rightarrow> pre = [] | Some c \<Rightarrow> \<exists>p e. pre = p @ [e] \<and> ev_id e = c"
  proof (cases "eq_afterEventId q")
    case None
    then show ?thesis using that [of "[]" events] assms(1) by (simp add: read_page_def wanted_after_def)
  next
    case (Some c)
    then obtain es where es: "events_after c events = Some es" "page = page_of q es"
      using assms(1) by (auto simp: read_page_def split: option.splits)
    from events_after_split [OF es(1)] obtain p e where "events = p @ e # es" "ev_id e = c" by blast
    then show ?thesis using that [of "p @ [e]" es] es Some by (simp add: wanted_after_def nullish_def)
  qed
  let ?f = "filter (event_matches q) scanned"
  have shown: "ep_events page = take (nat n) ?f"
    and "next": "ep_nextCursor page = (if length (take (nat n) ?f) < length ?f then last_id (take (nat n) ?f) (eq_afterEventId q)
      else last_id scanned (eq_afterEventId q))"
    using assms(2-4) ev(2) by (simp_all add: page_of_def Let_def)
  have rest: "wanted_after q events (Some (ev_id e)) = filter (event_matches q) zs" if "scanned = ys @ e # zs" for ys e zs
  proof -
    have "events = (pre @ ys) @ e # zs" using ev(1) that by simp
    moreover from this have "ev_id e \<notin> set (map ev_id (pre @ ys))" using assms(5) by auto
    ultimately show ?thesis using events_after_found [of "ev_id e" "pre @ ys" e zs] by (simp add: wanted_after_def nullish_def)
  qed
  have split: "?f = take (nat n) ?f @ wanted_after q events (ep_nextCursor page)"
  proof (cases "nat n < length ?f")
    case True
    from filter_take_split [OF True] assms(3) obtain ys x zs
      where x: "scanned = ys @ x # zs" "event_matches q x" "take (nat n) ?f = filter (event_matches q) ys @ [x]" by auto
    have "length (take (nat n) ?f) < length ?f" using True by simp
    then have "ep_nextCursor page = last_id (take (nat n) ?f) (eq_afterEventId q)" unfolding "next" by (rule if_P)
    then have "ep_nextCursor page = Some (ev_id x)" unfolding x(3) by (simp add: last_id_def)
    then show ?thesis using rest [OF x(1)] x by simp
  next
    case False
    then have all: "take (nat n) ?f = ?f" by simp
    have "wanted_after q events (ep_nextCursor page) = []"
    proof (cases "scanned = []")
      case True
      then show ?thesis using False "next" want by (simp add: last_id_def)
    next
      case ne: False
      then have "ep_nextCursor page = Some (ev_id (last scanned))" using False "next" by (simp add: last_id_def)
      moreover have "scanned = butlast scanned @ last scanned # []" using ne by simp
      ultimately show ?thesis using rest [of "butlast scanned" "last scanned" "[]"] by simp
    qed
    then show ?thesis using all by simp
  qed
  show ?thesis using want split shown assms(3) by auto
qed

definition sample_events :: "event list" where
  "sample_events = map (\<lambda>i. (event_of ''t'' None None None None None [] ''now'')\<lparr>ev_id := i\<rparr>) [''a'', ''b'', ''c'']"

definition sample_query :: event_query where
  "sample_query = \<lparr>eq_afterEventId = None, eq_alias = None, eq_projectId = None, eq_purposeId = None,
     eq_type = Some ''t'', eq_limit = Some 2, eq_limitMode = Some ''head''\<rparr>"

lemma pages_lose_nothing_witness:
  "wanted_after sample_query sample_events None
    = ep_events (page_of sample_query sample_events) @ wanted_after sample_query sample_events (Some ''b'')"
proof -
  have r: "read_page sample_query sample_events = Inr (page_of sample_query sample_events)"
    by (simp add: read_page_def sample_query_def)
  have "eq_limit sample_query = Some 2" "eq_limitMode sample_query = Some ''head''" "eq_afterEventId sample_query = None"
    "distinct (map ev_id sample_events)" "ep_nextCursor (page_of sample_query sample_events) = Some ''b''"
    by code_simp+
  then show ?thesis using pages_lose_nothing [OF r, of 2] by simp
qed

end
