(* ===== verification/Deletion.thy ===== *)
theory Deletion
  imports Capacity
begin

text \<open>
  Repair and deletion of simulators (\<open>publicDriftReason\<close> to \<open>deletePurposeSimulatorsBroker\<close> in
  \<open>broker-core/index.mjs\<close>): the simulators of a purpose that need it are repaired one by one, those that
  cannot be repaired any more are deleted with their alias, unless a lease or a pin holds them.  The
  summary that the code adds to the payload of an error is not part of the error here.
\<close>

section \<open>Requests\<close>

definition delete_trigger_cause_codes :: "string list" where
  "delete_trigger_cause_codes = [''runtime-not-found'', ''device-type-not-found'']"

definition public_drift_reasons :: "string list" where
  "public_drift_reasons = [''boot-on-acquire-failed'', ''idle-shutdown-failed'', ''repair-interrupted'', ''reset-on-acquire-failed'',
     ''simulator-config-mismatch'', ''simulator-missing'', ''simulator-unavailable'', ''slot-reclaim-failed'']"

definition publicDriftReason :: "string option \<Rightarrow> string" where
  "publicDriftReason driftReason = (if in_codes driftReason public_drift_reasons then the driftReason else ''unhealthy-alias'')"

definition purpose_repair_actor_types :: "string list" where
  "purpose_repair_actor_types = [''agent'', ''ci'', ''human'']"

text \<open>The options of the four operations; the remaining ones are passed on to the repair of an alias.\<close>

record removal_options =
  vq_base :: lifecycle_options
  vq_alias :: "js option"
  vq_purposeId :: "js option"
  vq_projectFile :: "string option"
  vq_actorType :: "js option"
  vq_actorId :: "js option"
  vq_forceOverride :: bool

text \<open>\<open>typeof value === "string" && value.trim() !== ""\<close>\<close>

definition named_text :: "js option \<Rightarrow> string option" where
  "named_text v = (case v of Some (JStr s) \<Rightarrow> if js_trim s = [] then None else Some (js_trim s) | _ \<Rightarrow> None)"

record removal_request =
  vr_actorId :: string
  vr_actorType :: string
  vr_purposeId :: string

definition assertPurposeRepairRequest :: "removal_options \<Rightarrow> berr + removal_request" where
  "assertPurposeRepairRequest opts =
    (if vq_forceOverride opts then Inl (broker_err ''Purpose repair does not accept force override.'' ''invalid-flag'')
     else if named_text (vq_alias opts) \<noteq> None then Inl (broker_err ''Purpose repair does not accept an alias.'' ''invalid-flag'')
     else seq (requireString (vq_purposeId opts) ''purposeId'') (\<lambda>p.
       seq (requireString (vq_actorType opts) ''actorType'') (\<lambda>t.
       seq (requireString (vq_actorId opts) ''actorId'') (\<lambda>a.
         if t \<notin> set purpose_repair_actor_types
         then Inl (broker_err ''Purpose repair actorType must be agent, ci, or human.'' ''invalid-flag'')
         else Inr \<lparr>vr_actorId = a, vr_actorType = t, vr_purposeId = p\<rparr>))))"

definition assertNoDeleteOverride :: "removal_options \<Rightarrow> string \<Rightarrow> berr + unit" where
  "assertNoDeleteOverride opts label =
    (if vq_forceOverride opts then Inl (broker_err (label @ '' does not accept force override.'') ''invalid-flag'') else Inr ())"

text \<open>An actor type that is no string is not in the set; \<open>null\<close> counts as absent.\<close>

definition resolveDeleteActor :: "'w env \<Rightarrow> removal_options \<Rightarrow> bool \<Rightarrow> berr + string \<times> string" where
  "resolveDeleteActor env opts requireActor =
    seq (if requireActor then requireString (vq_actorType opts) ''actorType''
         else if js_nullish (vq_actorType opts) then Inr ''human''
         else case vq_actorType opts of Some (JStr t) \<Rightarrow> Inr t | _ \<Rightarrow> Inr []) (\<lambda>actorType.
    if actorType \<notin> set purpose_repair_actor_types
    then Inl (broker_err ''Simulator delete actorType must be agent, ci, or human.'' ''invalid-flag'')
    else seq (if requireActor then requireString (vq_actorId opts) ''actorId''
         else Inr (nullish (named_text (vq_actorId opts)) (makeLifecycleActorId env actorType))) (\<lambda>actorId.
      Inr (actorId, actorType)))"

definition assertPurposeDeleteRequest :: "'w env \<Rightarrow> removal_options \<Rightarrow> berr + removal_request" where
  "assertPurposeDeleteRequest env opts =
    seq (assertNoDeleteOverride opts ''Purpose delete'') (\<lambda>_.
    if named_text (vq_alias opts) \<noteq> None then Inl (broker_err ''Purpose delete does not accept an alias.'' ''invalid-flag'')
    else seq (resolveDeleteActor env opts True) (\<lambda>(a, t).
      seq (requireString (vq_purposeId opts) ''purposeId'') (\<lambda>p.
        Inr \<lparr>vr_actorId = a, vr_actorType = t, vr_purposeId = p\<rparr>)))"

text \<open>The counts of a purpose operation; \<open>pu_done\<close> is \<open>repaired\<close> or \<open>deleted\<close>.\<close>

record tally =
  ty_failed :: nat
  ty_held :: nat
  ty_acted :: nat
  ty_reasons :: "string list"

definition no_tally :: tally where
  "no_tally = \<lparr>ty_failed = 0, ty_held = 0, ty_acted = 0, ty_reasons = []\<rparr>"

definition add_reason :: "string \<Rightarrow> tally \<Rightarrow> tally" where
  "add_reason r t = t\<lparr>ty_reasons := uniq (ty_reasons t @ [r])\<rparr>"

record purpose_summary =
  pz_tally :: tally
  pz_purposeId :: string
  pz_reasons :: "string list"
  pz_status :: string

definition purposeRepairSummary :: "string \<Rightarrow> tally \<Rightarrow> purpose_summary" where
  "purposeRepairSummary purposeId t = \<lparr>pz_tally = t, pz_purposeId = purposeId, pz_reasons = sort_strings (ty_reasons t),
     pz_status = (if 0 < ty_failed t then ''failed'' else if 0 < ty_acted t then ''repaired''
       else if 0 < ty_held t then ''held'' else ''nothing_to_repair'')\<rparr>"

definition purposeDeleteSummary :: "string \<Rightarrow> tally \<Rightarrow> purpose_summary" where
  "purposeDeleteSummary purposeId t = \<lparr>pz_tally = t, pz_purposeId = purposeId, pz_reasons = sort_strings (ty_reasons t),
     pz_status = (if 0 < ty_failed t then ''failed'' else if 0 < ty_acted t then ''deleted''
       else if 0 < ty_held t then ''held'' else ''nothing_to_delete'')\<rparr>"

section \<open>Repair of a purpose\<close>

definition purposeRepairHolderReason :: "berr \<Rightarrow> bool" where
  "purposeRepairHolderReason e \<longleftrightarrow>
     in_codes (payload_reason e) [''human-override-required'', ''override-required'', ''lease-conflict'', ''pin-conflict'']"

definition is_held :: "objection \<Rightarrow> bool" where
  "is_held r \<longleftrightarrow> objection_code r = ''lease-conflict'' \<or> objection_code r = ''pinned-for-other-project''"

definition failed_tally :: "berr \<Rightarrow> tally \<Rightarrow> tally" where
  "failed_tally e t =
    (let t' = add_reason ''repair-failed'' (t\<lparr>ty_failed := ty_failed t + 1\<rparr>); cause = knownDriftCauseCode (payload_reason e) in
     if in_codes cause delete_trigger_cause_codes then add_reason (the cause) t' else t')"

definition repair_candidate ::
  "'w env \<Rightarrow> removal_options \<Rightarrow> removal_request \<Rightarrow> candidate \<Rightarrow> tally \<Rightarrow> ('w sys, tally) eff" where
  "repair_candidate env opts request c t =
    (if \<not> list_ex (\<lambda>r. objection_code r = ''unhealthy-alias'') (ca_reasons c) then ret t
     else let t = add_reason (publicDriftReason (re_driftReason (ca_entry c))) t in
       if list_ex is_held (ca_reasons c) then ret (t\<lparr>ty_held := ty_held t + 1\<rparr>)
       else catching
         (andthen (runLifecycleActionBroker env Repair ((vq_base opts)\<lparr>yq_actorId := Some (vr_actorId request),
             yq_actorType := Some (vr_actorType request), yq_alias := Some (ha_alias (ca_hostAlias c)), yq_forceOverride := False\<rparr>))
           (\<lambda>_. ret (t\<lparr>ty_acted := ty_acted t + 1\<rparr>)))
         (\<lambda>e. ret (if purposeRepairHolderReason e then t\<lparr>ty_held := ty_held t + 1\<rparr> else failed_tally e t)))"

text \<open>The structural candidates in the order of their names, after the state is loaded.\<close>

definition purpose_candidates ::
  "'w env \<Rightarrow> removal_options \<Rightarrow> string \<Rightarrow> string \<Rightarrow> ('w sys, broker_state \<times> candidate list) eff" where
  "purpose_candidates env opts purposeId timestamp =
    (let base = vq_base opts in
     andthen (check (stateLoadOptions (yq_termWaitMs base) (yq_skipLeaseIds base) (yq_inventory base) (yq_now base))) (\<lambda>lo.
     andthen (loadBrokerState env lo timestamp) (\<lambda>st.
     andthen (readProjectConfigOrThrow env (vq_projectFile opts)) (\<lambda>(cfg, _).
     andthen (check (getPurpose cfg (Some purposeId))) (\<lambda>p.
     andthen (check (structural_candidates st p cfg)) (\<lambda>cs.
       ret (st, js_sort (\<lambda>x y. en_locale env (ha_alias (ca_hostAlias x)) (ha_alias (ca_hostAlias y))) cs)))))))"

definition purpose_result :: "(string \<Rightarrow> tally \<Rightarrow> purpose_summary) \<Rightarrow> berr \<Rightarrow> berr \<Rightarrow> string \<Rightarrow> tally \<Rightarrow> berr + purpose_summary" where
  "purpose_result summary failed held purposeId t =
    (if 0 < ty_failed t then Inl failed
     else if ty_acted t = 0 \<and> 0 < ty_held t then Inl held
     else Inr (summary purposeId t))"

definition repairPurposeSimulatorsBroker :: "'w env \<Rightarrow> removal_options \<Rightarrow> ('w sys, purpose_summary) eff" where
  "repairPurposeSimulatorsBroker env opts =
    andthen (check (assertPurposeRepairRequest opts)) (\<lambda>request.
    andthen (nowIso env (yq_now (vq_base opts))) (\<lambda>_.
    with_lock env Capacity_lock (with_lock env Lease_lock (
      andthen (nowIso env (yq_now (vq_base opts))) (\<lambda>stateTimestamp.
      andthen (purpose_candidates env opts (vr_purposeId request) stateTimestamp) (\<lambda>(st, cs).
      andthen (fold_eff (repair_candidate env opts request) cs no_tally) (\<lambda>t.
        check (purpose_result purposeRepairSummary (broker_err ''Purpose repair failed.'' ''purpose-repair-failed'')
          (broker_err ''A human operator must repair the held simulator.'' ''human-override-required'')
          (vr_purposeId request) t))))))))"

section \<open>Deletion of an alias\<close>

text \<open>The state that was loaded is changed as the deletion goes on, also when it fails.\<close>

record delete_detail =
  dd_alias :: string
  dd_deviceAlreadyAbsent :: bool
  dd_performedAt :: string
  dd_unchanged :: bool

definition removal_event :: "string \<Rightarrow> host_alias \<Rightarrow> string \<Rightarrow> string list \<Rightarrow> string \<Rightarrow> event" where
  "removal_event type h actorType detail timestamp =
     event_of type (Some (ha_alias h)) (Some actorType) None None None detail timestamp"

definition set_state_registry :: "(registry \<Rightarrow> registry) \<Rightarrow> broker_state \<Rightarrow> broker_state" where
  "set_state_registry f st = st\<lparr>bs_registry := f (bs_registry st)\<rparr>"

definition persistDeleteFailure ::
  "'w env \<Rightarrow> host_alias \<Rightarrow> string \<Rightarrow> string \<Rightarrow> berr \<Rightarrow> ('w sys \<times> broker_state, unit) eff" where
  "persistDeleteFailure env h actorType timestamp failure =
    andthen (look (\<lambda>(s, st). rg_aliases (bs_registry st) (ha_alias h))) (\<lambda>e.
    if e = None then throw type_error
    else andthen (assign (set_state_registry (set_entry (ha_alias h) (unrepaired_entry failure timestamp) timestamp))) (\<lambda>_.
      andthen (look snd) (\<lambda>st.
      andthen (outer (writeRegistry env (bs_host st) (bs_registry st))) (\<lambda>_.
        outer (appendEventRecord env (removal_event ''simulator.delete.failed'' h actorType
          [''delete'', ha_simulatorId h] timestamp))))))"

definition drop_alias :: "string \<Rightarrow> host_config \<Rightarrow> host_config" where
  "drop_alias a hc = hc\<lparr>hc_aliases := filter (\<lambda>h. ha_alias h \<noteq> a) (hc_aliases hc)\<rparr>"

definition drop_records :: "string \<Rightarrow> broker_state \<Rightarrow> broker_state" where
  "drop_records a st = st\<lparr>bs_registry := (bs_registry st)\<lparr>rg_aliases := (rg_aliases (bs_registry st))(a := None)\<rparr>,
     bs_leasesByAlias := filter (\<lambda>e. fst e \<noteq> a) (bs_leasesByAlias st),
     bs_pinsByAlias := filter (\<lambda>e. fst e \<noteq> a) (bs_pinsByAlias st)\<rparr>"

definition removeDeletedAliasRecords ::
  "'w env \<Rightarrow> host_alias \<Rightarrow> string \<Rightarrow> string \<Rightarrow> bool \<Rightarrow> ('w sys \<times> broker_state, unit) eff" where
  "removeDeletedAliasRecords env h actorType timestamp deviceAlreadyAbsent =
    andthen (assign (\<lambda>st. st\<lparr>bs_host := drop_alias (ha_alias h) (bs_host st)\<rparr>)) (\<lambda>_.
    andthen (look snd) (\<lambda>st.
    andthen (outer (writeHostConfig env (hostConfigWithPendingRetirements (bs_host st) (hc_pendingRetirements (bs_host st))))) (\<lambda>_.
    andthen (assign (\<lambda>st. set_state_registry (\<lambda>rg. rg\<lparr>rg_updatedAt := timestamp\<rparr>) (drop_records (ha_alias h) st))) (\<lambda>_.
    andthen (look snd) (\<lambda>st.
    andthen (outer (writeRegistry env (bs_host st) (bs_registry st))) (\<lambda>_.
      outer (appendEventRecord env (removal_event ''simulator.deleted'' h actorType
        [''delete'', ha_simulatorId h] timestamp))))))))"

text \<open>What the alias is held by, in the order of the checks.\<close>

definition delete_obstacle :: "broker_state \<Rightarrow> string \<Rightarrow> berr option" where
  "delete_obstacle st a =
    (if (case rg_aliases (bs_registry st) a of None \<Rightarrow> False | Some e \<Rightarrow> re_health e = Repairing)
     then Some (broker_err (''Alias '' @ a @ '' is already repairing.'') ''alias-busy'')
     else if lease_on st a \<noteq> None
     then Some (broker_err (''Alias '' @ a @ '' is leased and cannot be deleted.'') ''lease-conflict'')
     else if pin_on st a \<noteq> None
     then Some (broker_err (''Alias '' @ a @ '' is pinned and cannot be deleted.'') ''pin-conflict'')
     else None)"

definition deleteAliasUnderHeldLocks ::
  "'w env \<Rightarrow> string \<Rightarrow> string \<Rightarrow> string \<Rightarrow> ('w sys \<times> broker_state, delete_detail) eff" where
  "deleteAliasUnderHeldLocks env actorType a timestamp =
    andthen (look snd) (\<lambda>st.
    case List.find (\<lambda>h. ha_alias h = a) (hc_aliases (bs_host st)) of
      None \<Rightarrow> ret \<lparr>dd_alias = a, dd_deviceAlreadyAbsent = False, dd_performedAt = timestamp, dd_unchanged = True\<rparr>
    | Some h \<Rightarrow> (case delete_obstacle st a of
        Some e \<Rightarrow> throw e
      | None \<Rightarrow>
          andthen (outer (readSimulatorDeviceIndex env)) (\<lambda>ix.
          let devicePresent = map_get ix (ha_simulatorId h) \<noteq> None in
          andthen (if devicePresent
              then catching (outer (invokeLifecycleAdapter ''delete'' a (deleteAliasSimulator env (ha_simulatorId h))))
                (\<lambda>failure. andthen (persistDeleteFailure env h actorType timestamp failure) (\<lambda>_. throw failure))
              else ret ()) (\<lambda>_.
          andthen (removeDeletedAliasRecords env h actorType timestamp (\<not> devicePresent)) (\<lambda>_.
            ret \<lparr>dd_alias = a, dd_deviceAlreadyAbsent = \<not> devicePresent, dd_performedAt = timestamp, dd_unchanged = False\<rparr>)))))"

definition deleteSimulatorBroker :: "'w env \<Rightarrow> removal_options \<Rightarrow> ('w sys, delete_detail) eff" where
  "deleteSimulatorBroker env opts =
    (let base = vq_base opts in
     andthen (check (assertNoDeleteOverride opts ''Simulator delete'')) (\<lambda>_.
     if named_text (vq_purposeId opts) \<noteq> None
     then throw (broker_err ''Simulator delete accepts either an alias or a purpose, not both.'' ''invalid-flag'')
     else andthen (check (resolveDeleteActor env opts False)) (\<lambda>(_, actorType).
       andthen (check (requireString (vq_alias opts) ''alias'')) (\<lambda>a.
       andthen (nowIso env (yq_now base)) (\<lambda>_.
       with_lock env Capacity_lock (with_lock env Lease_lock (
         andthen (nowIso env (yq_now base)) (\<lambda>timestamp.
         andthen (check (stateLoadOptions (yq_termWaitMs base) (yq_skipLeaseIds base) (yq_inventory base) (yq_now base))) (\<lambda>lo.
         andthen (loadBrokerState env lo timestamp) (\<lambda>st.
           with_var st (deleteAliasUnderHeldLocks env actorType a timestamp)))))))))))"

section \<open>Deletion of the simulators of a purpose\<close>

definition delete_cause :: "broker_state \<Rightarrow> string \<Rightarrow> string option" where
  "delete_cause st a = (case rg_aliases (bs_registry st) a of
     None \<Rightarrow> None
   | Some e \<Rightarrow>
      let cause = knownDriftCauseCode (re_driftCauseCode e) in
      if re_health e = Repair_needed \<and> in_codes cause delete_trigger_cause_codes then cause else None)"

definition try_delete ::
  "'w env \<Rightarrow> removal_request \<Rightarrow> string \<Rightarrow> string \<Rightarrow> string \<Rightarrow> tally \<Rightarrow> ('w sys \<times> broker_state, tally) eff" where
  "try_delete env request timestamp a cause t = catching
     (andthen (deleteAliasUnderHeldLocks env (vr_actorType request) a timestamp) (\<lambda>d.
       let t = add_reason cause (t\<lparr>ty_acted := ty_acted t + 1\<rparr>) in
       ret (if dd_deviceAlreadyAbsent d then add_reason ''simulator-missing'' t else t)))
     (\<lambda>_. ret (add_reason cause (add_reason ''delete-failed'' (t\<lparr>ty_failed := ty_failed t + 1\<rparr>))))"

definition delete_candidate ::
  "'w env \<Rightarrow> removal_request \<Rightarrow> string \<Rightarrow> candidate \<Rightarrow> tally \<Rightarrow> ('w sys \<times> broker_state, tally) eff" where
  "delete_candidate env request timestamp c t =
    (let a = ha_alias (ca_hostAlias c) in
     andthen (look snd) (\<lambda>st. case delete_cause st a of
       None \<Rightarrow> ret t
     | Some cause \<Rightarrow>
        if lease_on st a \<noteq> None \<or> pin_on st a \<noteq> None then ret (add_reason cause (t\<lparr>ty_held := ty_held t + 1\<rparr>))
        else try_delete env request timestamp a cause t))"

definition deletePurposeSimulatorsBroker :: "'w env \<Rightarrow> removal_options \<Rightarrow> ('w sys, purpose_summary) eff" where
  "deletePurposeSimulatorsBroker env opts =
    andthen (check (assertPurposeDeleteRequest env opts)) (\<lambda>request.
    andthen (nowIso env (yq_now (vq_base opts))) (\<lambda>_.
    with_lock env Capacity_lock (with_lock env Lease_lock (
      andthen (nowIso env (yq_now (vq_base opts))) (\<lambda>timestamp.
      andthen (purpose_candidates env opts (vr_purposeId request) timestamp) (\<lambda>(st, cs).
      andthen (with_var st (fold_eff (delete_candidate env request timestamp) cs no_tally)) (\<lambda>t.
        check (purpose_result purposeDeleteSummary (broker_err ''Purpose delete failed.'' ''purpose-delete-failed'')
          (broker_err ''A human operator must delete the held simulator.'' ''human-override-required'')
          (vr_purposeId request) t))))))))"

section \<open>What may be deleted\<close>

text \<open>A host configuration without some aliases.\<close>

definition host_without :: "string set \<Rightarrow> host_config \<Rightarrow> host_config" where
  "host_without R hc = hc\<lparr>hc_aliases := filter (\<lambda>h. ha_alias h \<notin> R) (hc_aliases hc)\<rparr>"

definition free_of_holders :: "broker_state \<Rightarrow> string \<Rightarrow> bool" where
  "free_of_holders st a \<longleftrightarrow> lease_on st a = None \<and> pin_on st a = None"

definition deletable :: "broker_state \<Rightarrow> purpose \<Rightarrow> string set" where
  "deletable st p = {a \<in> ha_alias ` fitting st p. delete_cause st a \<noteq> None \<and> free_of_holders st a}"

lemma host_without_empty [simp]: "host_without {} hc = hc"
  by (simp add: host_without_def)

lemma drop_alias_host_without [simp]: "drop_alias a (host_without R hc) = host_without (insert a R) hc" "drop_alias a hc = host_without {a} hc"
  by (simp_all add: drop_alias_def host_without_def conj_commute cong: filter_cong)

lemma host_without_aliases: "ha_alias ` set (hc_aliases (host_without R hc)) = ha_alias ` set (hc_aliases hc) - R"
  by (auto simp: host_without_def)

lemma pending_same [simp]: "hostConfigWithPendingRetirements hc (hc_pendingRetirements hc) = hc"
  by (simp add: hostConfigWithPendingRetirements_def)

lemma distinct_map_filter': "distinct (map f xs) \<Longrightarrow> distinct (map f (filter P xs))"
  by (simp add: distinct_map_filter)

lemma host_without_wf: "wf_host_config hc \<Longrightarrow> wf_host_config (host_without R hc)"
  by (auto simp: wf_host_config_def host_without_def list_all_iff distinct_map_filter)

lemma writeHostConfig_ok:
  "writeHostConfig env hc s = (Inr u, s') \<Longrightarrow> sy_host s' = Some (host_config_json hc) \<and> sy_leases s' = sy_leases s \<and> sy_pins s' = sy_pins s"
  unfolding writeHostConfig_def by (auto dest: restricted_ok)

text \<open>Two states agree on an alias.\<close>

definition same_about :: "broker_state \<Rightarrow> broker_state \<Rightarrow> string \<Rightarrow> bool" where
  "same_about st x a \<longleftrightarrow> rg_aliases (bs_registry x) a = rg_aliases (bs_registry st) a
     \<and> lease_on x a = lease_on st a \<and> pin_on x a = pin_on st a"

lemma same_about_refl [simp]: "same_about st st a"
  by (simp add: same_about_def)

lemma same_about_cause: "same_about st x a \<Longrightarrow> delete_cause x a = delete_cause st a \<and> free_of_holders x a = free_of_holders st a"
  by (simp add: same_about_def delete_cause_def free_of_holders_def)

lemma map_get_filter_other: "a \<noteq> b \<Longrightarrow> map_get (filter (\<lambda>e. fst e \<noteq> b) m) a = map_get m a"
  by (induction m) (auto simp: map_get_def map_add_def split: option.splits)

lemma same_about_drop: "a \<noteq> b \<Longrightarrow> same_about st (drop_records b x) a = same_about st x a"
  by (simp add: same_about_def drop_records_def lease_on_def pin_on_def map_get_filter_other)

text \<open>On every path, whatever fails: only aliases of \<open>D\<close> leave the configuration, in memory and on disk.\<close>

definition host_removed :: "broker_state \<Rightarrow> string set \<Rightarrow> js option \<Rightarrow> js option \<Rightarrow> bool" where
  "host_removed st D v h \<longleftrightarrow> h = v \<or> (\<exists>R\<subseteq>D. h = Some (host_config_json (host_without R (bs_host st))))"

definition state_removed :: "broker_state \<Rightarrow> string set \<Rightarrow> broker_state \<Rightarrow> bool" where
  "state_removed st D x \<longleftrightarrow> (\<exists>R\<subseteq>D. bs_host x = host_without R (bs_host st)) \<and> (\<forall>a. a \<notin> D \<longrightarrow> same_about st x a)"

definition only_removed :: "broker_state \<Rightarrow> string set \<Rightarrow> js option \<Rightarrow> 'w sys \<times> broker_state \<Rightarrow> bool" where
  "only_removed st D v = (\<lambda>(s, x). host_removed st D v (sy_host s) \<and> state_removed st D x)"

lemma host_of_files [simp]: "of_files (\<lambda>s. P (sy_host s))"
  by (simp add: of_files_def)

lemma keeps_host_io:
  "keeps (\<lambda>s. P (sy_host s)) (writeRegistry env hc rg)" "keeps (\<lambda>s. P (sy_host s)) (appendEventRecord env e)"
  "keeps (\<lambda>s. P (sy_host s)) (lift m)" "P (Some (host_config_json hc)) \<Longrightarrow> keeps (\<lambda>s. P (sy_host s)) (writeHostConfig env hc)"
  unfolding writeRegistry_def writeHostConfig_def by (intro keeps_rules host_of_files; simp)+

lemma only_removed_steps:
  assumes "\<And>P. keeps (\<lambda>s. P (sy_host s)) m"
  shows "keeps (only_removed st D v) (outer m)"
  unfolding only_removed_def
  by (rule keeps_outer) (use assms [of "\<lambda>h. host_removed st D v h \<and> state_removed st D x" for x] in simp)

lemma only_removed_host:
  assumes "\<exists>R\<subseteq>D. hc = host_without R (bs_host st)"
  shows "keeps (only_removed st D v) (outer (writeHostConfig env hc))"
  unfolding only_removed_def
proof (rule keeps_outer, simp)
  fix x
  have "host_removed st D v (Some (host_config_json hc))" using assms unfolding host_removed_def by blast
  then show "keeps (\<lambda>s. host_removed st D v (sy_host s) \<and> state_removed st D x) (writeHostConfig env hc)"
    unfolding writeHostConfig_def by (intro keeps_restricted) (simp_all add: of_files_def)
qed

lemma only_removed_assign:
  fixes f :: "broker_state \<Rightarrow> broker_state"
  assumes "\<And>x. \<exists>R\<subseteq>D. \<forall>S. bs_host x = host_without S (bs_host st) \<longrightarrow> bs_host (f x) = host_without (S \<union> R) (bs_host st)"
    "\<And>x a. a \<notin> D \<Longrightarrow> same_about st (f x) a = same_about st x a"
  shows "keeps (only_removed st D v) (assign f)"
proof -
  have step: "state_removed st D (f x)" if x: "state_removed st D x" for x
  proof -
  from x   obtain S where S: "S \<subseteq> D" "bs_host x = host_without S (bs_host st)" "\<forall>a. a \<notin> D \<longrightarrow> same_about st x a"
    unfolding state_removed_def by blast
  from assms(1) [of x] S obtain R where "R \<subseteq> D" "bs_host (f x) = host_without (S \<union> R) (bs_host st)" by blast
  with S assms(2) show ?thesis unfolding state_removed_def by (metis Un_least)
  qed
  then show ?thesis unfolding only_removed_def by (intro keeps_assign) auto
qed

lemma keeps_persist:
  assumes "ha_alias h \<in> D"
  shows "keeps (only_removed st D v) (persistDeleteFailure env h t ts e)"
proof -
  have "keeps (only_removed st D v) (assign (set_state_registry (set_entry (ha_alias h) (unrepaired_entry e ts) ts)))"
  proof (rule only_removed_assign)
    show "\<exists>R\<subseteq>D. \<forall>S. bs_host x = host_without S (bs_host st) \<longrightarrow>
        bs_host (set_state_registry (set_entry (ha_alias h) (unrepaired_entry e ts) ts) x) = host_without (S \<union> R) (bs_host st)" for x
      by (intro exI [of _ "{}"]) (simp add: set_state_registry_def)
    fix x a assume "a \<notin> D"
    with assms have "a \<noteq> ha_alias h" by blast
    then show "same_about st (set_state_registry (set_entry (ha_alias h) (unrepaired_entry e ts) ts) x) a = same_about st x a"
      by (simp add: same_about_def set_state_registry_def set_entry_def update_entry_def lease_on_def pin_on_def split: option.splits)
  qed
  then show ?thesis
    unfolding persistDeleteFailure_def by (intro keeps_struct only_removed_steps keeps_host_io)
qed

lemma keeps_remove:
  assumes "ha_alias h \<in> D"
  shows "keeps (only_removed st D v) (removeDeletedAliasRecords env h t ts b)"
proof -
  have a1: "keeps (only_removed st D v) (assign (\<lambda>x. x\<lparr>bs_host := drop_alias (ha_alias h) (bs_host x)\<rparr>))"
  proof (rule only_removed_assign)
    fix x show "\<exists>R\<subseteq>D. \<forall>S. bs_host x = host_without S (bs_host st) \<longrightarrow>
        bs_host (x\<lparr>bs_host := drop_alias (ha_alias h) (bs_host x)\<rparr>) = host_without (S \<union> R) (bs_host st)"
      by (rule exI [of _ "{ha_alias h}"]) (use assms in \<open>simp add: drop_alias_host_without(1) del: drop_alias_host_without(2)\<close>)
  qed (simp add: same_about_def lease_on_def pin_on_def)
  have a2: "keeps (only_removed st D v) (assign (\<lambda>x. set_state_registry (\<lambda>rg. rg\<lparr>rg_updatedAt := ts\<rparr>) (drop_records (ha_alias h) x)))"
  proof (rule only_removed_assign)
    fix x show "\<exists>R\<subseteq>D. \<forall>S. bs_host x = host_without S (bs_host st) \<longrightarrow>
        bs_host (set_state_registry (\<lambda>rg. rg\<lparr>rg_updatedAt := ts\<rparr>) (drop_records (ha_alias h) x)) = host_without (S \<union> R) (bs_host st)"
      by (intro exI [of _ "{}"]) (simp add: set_state_registry_def drop_records_def)
    fix a assume "a \<notin> D"
    with assms have "a \<noteq> ha_alias h" by blast
    then show "same_about st (set_state_registry (\<lambda>rg. rg\<lparr>rg_updatedAt := ts\<rparr>) (drop_records (ha_alias h) x)) a = same_about st x a"
      by (subst same_about_drop [symmetric]) (auto simp: same_about_def set_state_registry_def lease_on_def pin_on_def)
  qed
  have looked: "keeps (only_removed st D v) (andthen (look snd) k)"
    if "\<And>x. (\<exists>R\<subseteq>D. bs_host x = host_without R (bs_host st)) \<Longrightarrow> keeps (only_removed st D v) (k x)" for k :: "broker_state \<Rightarrow> ('a sys \<times> broker_state, unit) eff"
    by (rule keeps_andthen_post [where Q = "\<lambda>x. \<exists>R\<subseteq>D. bs_host x = host_without R (bs_host st)"])
      (use that in \<open>auto simp: only_removed_def state_removed_def run_simps intro: keeps_basic\<close>)
  show ?thesis
    unfolding removeDeletedAliasRecords_def
    by (intro keeps_andthen [OF a1] looked keeps_andthen [OF only_removed_host] keeps_andthen [OF a2] keeps_andthen
      only_removed_steps keeps_host_io) simp_all
qed

lemma keeps_delete_alias:
  assumes "a \<in> D"
  shows "keeps (only_removed st D v) (deleteAliasUnderHeldLocks env t a ts)"
proof -
  have dev: "keeps (\<lambda>s. P (sy_host s)) (readSimulatorDeviceIndex env)" "keeps (\<lambda>s. P (sy_host s)) (deleteAliasSimulator env u)" for P u
    unfolding readSimulatorDeviceIndex_def deleteAliasSimulator_def by (intro keeps_struct keeps_host_io)+
  show ?thesis
    unfolding deleteAliasUnderHeldLocks_def invokeLifecycleAdapter_def Let_def
  proof (rule keeps_andthen [OF keeps_basic(4)])
    fix x
    show "keeps (only_removed st D v) (case List.find (\<lambda>h. ha_alias h = a) (hc_aliases (bs_host x)) of
        None \<Rightarrow> ret \<lparr>dd_alias = a, dd_deviceAlreadyAbsent = False, dd_performedAt = ts, dd_unchanged = True\<rparr>
      | Some h \<Rightarrow> (case delete_obstacle x a of
          Some e \<Rightarrow> throw e
        | None \<Rightarrow>
            andthen (outer (readSimulatorDeviceIndex env)) (\<lambda>ix.
            andthen (if map_get ix (ha_simulatorId h) \<noteq> None
                then catching (outer (catching (deleteAliasSimulator env (ha_simulatorId h))
                    (\<lambda>e. throw (if is_broker_error e then e else action_failed ''delete'' a (err_message e)))))
                  (\<lambda>failure. andthen (persistDeleteFailure env h t ts failure) (\<lambda>_. throw failure))
                else ret ()) (\<lambda>_.
            andthen (removeDeletedAliasRecords env h t ts (\<not> map_get ix (ha_simulatorId h) \<noteq> None)) (\<lambda>_.
              ret \<lparr>dd_alias = a, dd_deviceAlreadyAbsent = \<not> map_get ix (ha_simulatorId h) \<noteq> None, dd_performedAt = ts,
                dd_unchanged = False\<rparr>)))))"
    proof (cases "List.find (\<lambda>h. ha_alias h = a) (hc_aliases (bs_host x))")
      case None
      then show ?thesis by (simp add: keeps_basic)
    next
      case (Some h)
      then have "ha_alias h \<in> D" using assms by (auto dest!: find_SomeD)
      then show ?thesis unfolding Some option.case
        by (intro keeps_struct only_removed_steps keeps_persist keeps_remove dev)
    qed
  qed
qed

section \<open>What a deletion has done\<close>

lemma outer_eq: "outer m (s, x) = (r, (s', x')) \<longleftrightarrow> m s = (r, s') \<and> x' = x"
  by (auto simp: outer_def split: prod.splits)

lemma andthen_assign: "andthen (assign f) k (s, v) = k () (s, f v)"
  by (simp add: run_andthen run_assign)

lemma keeps_deletion_log:
  "keeps (\<lambda>s. P (sy_host s) (sy_registry s) (sy_leases s) (sy_pins s)) (appendEventRecord env e)"
  by (rule keeps_appendEvent) (simp_all add: of_files_def)

definition removed_from :: "host_alias \<Rightarrow> string \<Rightarrow> broker_state \<Rightarrow> broker_state" where
  "removed_from h ts x = set_state_registry (\<lambda>rg. rg\<lparr>rg_updatedAt := ts\<rparr>)
     (drop_records (ha_alias h) (x\<lparr>bs_host := drop_alias (ha_alias h) (bs_host x)\<rparr>))"

lemma remove_ok:
  assumes "removeDeletedAliasRecords env h t ts b (s, x) = (Inr u, (s', x'))"
  shows "x' = removed_from h ts x \<and> sy_host s' = Some (host_config_json (bs_host x'))
    \<and> sy_registry s' = Some (registry_text (bs_host x') (bs_registry x')) \<and> sy_leases s' = sy_leases s \<and> sy_pins s' = sy_pins s"
proof -
  let ?x1 = "x\<lparr>bs_host := drop_alias (ha_alias h) (bs_host x)\<rparr>"
  have x1: "removed_from h ts x = set_state_registry (\<lambda>rg. rg\<lparr>rg_updatedAt := ts\<rparr>) (drop_records (ha_alias h) ?x1)"
    by (simp add: removed_from_def)
  have host: "bs_host (removed_from h ts x) = bs_host ?x1" by (simp add: removed_from_def set_state_registry_def drop_records_def)
  from assms obtain s1 s2 where w: "writeHostConfig env (bs_host ?x1) s = (Inr (), s1)"
    "writeRegistry env (bs_host (removed_from h ts x)) (bs_registry (removed_from h ts x)) s1 = (Inr (), s2)"
    "appendEventRecord env (removal_event ''simulator.deleted'' h t [''delete'', ha_simulatorId h] ts) s2 = (Inr u, s')" "x' = removed_from h ts x"
    unfolding removeDeletedAliasRecords_def x1
    by (auto simp: andthen_assign run_assign outer_eq elim!: andthen_InrE)
  from keepsD [OF keeps_deletion_log [where P = "\<lambda>a b c d. a = sy_host s2 \<and> b = sy_registry s2 \<and> c = sy_leases s2 \<and> d = sy_pins s2"] _ w(3)]
  have "sy_host s' = sy_host s2" "sy_registry s' = sy_registry s2" "sy_leases s' = sy_leases s2" "sy_pins s' = sy_pins s2" by auto
  with writeHostConfig_ok [OF w(1)] writeRegistry_ok [OF w(2)] w(4) host show ?thesis by simp
qed

lemma delete_alias_ok:
  assumes "deleteAliasUnderHeldLocks env t a ts (s, x) = (Inr d, (s', x'))"
  shows "dd_alias d = a \<and> (dd_unchanged d \<and> a \<notin> ha_alias ` set (hc_aliases (bs_host x)) \<and> s' = s \<and> x' = x
    \<or> \<not> dd_unchanged d \<and> delete_obstacle x a = None \<and> (\<exists>h\<in>set (hc_aliases (bs_host x)). ha_alias h = a \<and> x' = removed_from h ts x)
      \<and> sy_host s' = Some (host_config_json (bs_host x')) \<and> sy_registry s' = Some (registry_text (bs_host x') (bs_registry x'))
      \<and> sy_leases s' = sy_leases s \<and> sy_pins s' = sy_pins s)"
proof (cases "List.find (\<lambda>h. ha_alias h = a) (hc_aliases (bs_host x))")
  case None
  then have "a \<notin> ha_alias ` set (hc_aliases (bs_host x))" by (auto simp: find_None_iff)
  with None assms show ?thesis by (auto simp: deleteAliasUnderHeldLocks_def run_simps)
next
  case (Some h)
  then have h: "h \<in> set (hc_aliases (bs_host x))" "ha_alias h = a" by (auto dest!: find_SomeD)
  from assms Some have obstacle: "delete_obstacle x a = None" by (auto simp: deleteAliasUnderHeldLocks_def run_simps split: option.splits)
  with assms Some obtain ix s1 s2 x2 u where ix: "readSimulatorDeviceIndex env s = (Inr ix, s1)"
    and del: "(if map_get ix (ha_simulatorId h) \<noteq> None
              then catching (outer (invokeLifecycleAdapter ''delete'' a (deleteAliasSimulator env (ha_simulatorId h))))
                (\<lambda>failure. andthen (persistDeleteFailure env h t ts failure) (\<lambda>_. throw failure))
              else ret ()) (s1, x) = (Inr u, (s2, x2))"
    and rem: "removeDeletedAliasRecords env h t ts (map_get ix (ha_simulatorId h) = None) (s2, x2) = (Inr (), (s', x'))"
    and d: "d = \<lparr>dd_alias = a, dd_deviceAlreadyAbsent = (map_get ix (ha_simulatorId h) = None), dd_performedAt = ts, dd_unchanged = False\<rparr>"
    by (auto simp: deleteAliasUnderHeldLocks_def Let_def outer_eq run_simps elim!: andthen_InrE)
  have lp: "keeps (\<lambda>s. P (sy_leases s) (sy_pins s)) (readSimulatorDeviceIndex env)"
    "keeps (\<lambda>s. P (sy_leases s) (sy_pins s)) (invokeLifecycleAdapter a' b (deleteAliasSimulator env i))" for P a' b i
    unfolding readSimulatorDeviceIndex_def deleteAliasSimulator_def invokeLifecycleAdapter_def
    by (intro keeps_struct keeps_lift; simp add: of_files_def)+
  have frame1: "sy_leases s1 = sy_leases s \<and> sy_pins s1 = sy_pins s"
    by (rule keepsD [OF lp(1) [where P = "\<lambda>a b. a = sy_leases s \<and> b = sy_pins s"] _ ix]) simp
  have "x2 = x \<and> sy_leases s2 = sy_leases s \<and> sy_pins s2 = sy_pins s"
  proof (cases "map_get ix (ha_simulatorId h) = None")
    case True
    with del frame1 show ?thesis by (simp add: run_simps)
  next
    case False
    with del have "outer (invokeLifecycleAdapter ''delete'' a (deleteAliasSimulator env (ha_simulatorId h))) (s1, x) = (Inr u, (s2, x2))"
      by (auto simp: run_catching run_andthen run_simps split: prod.splits sum.splits)
    then have "x2 = x" and run: "invokeLifecycleAdapter ''delete'' a (deleteAliasSimulator env (ha_simulatorId h)) s1 = (Inr u, s2)"
      by (auto simp: outer_eq)
    moreover have "sy_leases s2 = sy_leases s1 \<and> sy_pins s2 = sy_pins s1"
      by (rule keepsD [OF lp(2) [where P = "\<lambda>a b. a = sy_leases s1 \<and> b = sy_pins s1"] _ run]) simp
    ultimately show ?thesis using frame1 by simp
  qed
  with remove_ok [OF rem] h obstacle d show ?thesis by auto
qed

lemma key_in_index: "x \<in> set xs \<Longrightarrow> f x \<in> fst ` set (map (\<lambda>x. (f x, x)) xs)"
  by force

section \<open>One alias\<close>


section \<open>The simulators of a purpose\<close>

lemma only_removed_mono:
  assumes "only_removed st D v (s, x)" "D \<subseteq> D'"
  shows "only_removed st D' v (s, x)"
proof -
  from assms(1) have "host_removed st D v (sy_host s)" "state_removed st D x" by (simp_all add: only_removed_def)
  with assms(2) have "host_removed st D' v (sy_host s)" "state_removed st D' x"
    unfolding host_removed_def state_removed_def by (meson order_trans, meson order_trans subsetD)
  then show ?thesis by (simp add: only_removed_def)
qed

lemma delete_candidate_returns: "\<exists>t'. fst (delete_candidate env request ts c t w) = Inr t'"
  by (cases w) (auto simp: delete_candidate_def try_delete_def Let_def run_catching run_simps split: prod.splits sum.splits option.splits)

lemma delete_candidates_return: "\<exists>t' w'. fold_eff (delete_candidate env request ts) cs t w = (Inr t', w')"
proof (induction cs arbitrary: t w)
  case (Cons c cs)
  obtain r w1 where r: "delete_candidate env request ts c t w = (r, w1)" by (cases "delete_candidate env request ts c t w") blast
  with delete_candidate_returns [of env request ts c t w] obtain t1 where "r = Inr t1" by auto
  with r Cons show ?case by (simp add: run_andthen)
qed (simp add: run_simps)

text \<open>The simulators of the purpose that wait for an operator although a lease or a pin holds them.\<close>

definition held_back :: "broker_state \<Rightarrow> purpose \<Rightarrow> string set" where
  "held_back st p = {a \<in> ha_alias ` fitting st p. delete_cause st a \<noteq> None \<and> \<not> free_of_holders st a}"

text \<open>The candidates that are left, and what was done with the other ones.\<close>

definition deleted_so_far ::
  "broker_state \<Rightarrow> purpose \<Rightarrow> js option \<Rightarrow> candidate list \<Rightarrow> tally \<Rightarrow> 'w sys \<times> broker_state \<Rightarrow> bool" where
  "deleted_so_far st p v rest t w \<longleftrightarrow>
    (let F = ha_alias ` fitting st p; left = map (ha_alias \<circ> ca_hostAlias) rest; seen = F - set left; R = deletable st p \<inter> seen in
     distinct left \<and> set left \<subseteq> F \<and> only_removed st R v w
     \<and> (ty_failed t = 0 \<longrightarrow> bs_host (snd w) = host_without R (bs_host st)
          \<and> sy_host (fst w) = (if R = {} then v else Some (host_config_json (host_without R (bs_host st))))
          \<and> ty_acted t = card R \<and> ty_held t = card (held_back st p \<inter> seen)))"

lemma deleted_so_far_keep:
  assumes "deleted_so_far st p v (c # rest) t w" "a = ha_alias (ca_hostAlias c)"
    and "a \<notin> deletable st p" "t' = (if a \<in> held_back st p then t\<lparr>ty_held := ty_held t + 1, ty_reasons := rs\<rparr> else t)"
  shows "deleted_so_far st p v rest t' w"
proof -
  let ?F = "ha_alias ` fitting st p" and ?l = "set (map (ha_alias \<circ> ca_hostAlias) rest)"
  from assms(1,2) have a: "a \<in> ?F" "a \<notin> ?l" "?l \<subseteq> ?F" "distinct (map (ha_alias \<circ> ca_hostAlias) rest)"
    by (simp_all add: deleted_so_far_def Let_def)
  then have seen: "?F - ?l = insert a (?F - set (map (ha_alias \<circ> ca_hostAlias) (c # rest)))" using assms(2) by auto
  have out: "a \<notin> ?F - set (map (ha_alias \<circ> ca_hostAlias) (c # rest))" using assms(2) by simp
  have R: "deletable st p \<inter> (?F - ?l) = deletable st p \<inter> (?F - set (map (ha_alias \<circ> ca_hostAlias) (c # rest)))"
    unfolding seen using assms(3) by auto
  have fin: "finite ?F" by (simp add: fitting_def)
  have H: "card (held_back st p \<inter> (?F - ?l)) = card (held_back st p \<inter> (?F - set (map (ha_alias \<circ> ca_hostAlias) (c # rest))))
      + (if a \<in> held_back st p then 1 else 0)"
    unfolding seen using out fin by (simp add: Int_insert_right)
  from assms(1) show ?thesis
    unfolding deleted_so_far_def Let_def R H using a assms(4) by auto
qed

lemma delete_candidate_step:
  assumes J: "deleted_so_far st p v (c # rest) t w" and run: "delete_candidate env request ts c t w = (Inr t', w')"
  shows "deleted_so_far st p v rest t' w'"
proof -
  let ?F = "ha_alias ` fitting st p" and ?l = "set (map (ha_alias \<circ> ca_hostAlias) rest)" and ?D = "deletable st p"
  define a where "a = ha_alias (ca_hostAlias c)"
  obtain s x s' x' where w: "w = (s, x)" "w' = (s', x')" by (cases w, cases w') blast
  let ?seen = "?F - set (map (ha_alias \<circ> ca_hostAlias) (c # rest))"
  from J have a: "a \<in> ?F" "a \<notin> ?l" "?l \<subseteq> ?F" "distinct (map (ha_alias \<circ> ca_hostAlias) rest)"
    by (simp_all add: deleted_so_far_def Let_def a_def)
  have seen: "?F - ?l = insert a ?seen" "a \<notin> ?seen" using a by (auto simp: a_def)
  from J have only: "only_removed st (?D \<inter> ?seen) v (s, x)" by (simp add: deleted_so_far_def Let_def w)
  then have same: "same_about st x a" using seen(2) by (simp add: only_removed_def state_removed_def)
  with only have run': "(case delete_cause st a of
       None \<Rightarrow> ret t
     | Some cause \<Rightarrow>
        if \<not> free_of_holders st a then ret (add_reason cause (t\<lparr>ty_held := ty_held t + 1\<rparr>))
        else try_delete env request ts a cause t) (s, x) = (Inr t', (s', x'))"
    using run same_about_cause [OF same]
    by (cases "delete_cause st a") (simp_all add: delete_candidate_def w a_def [symmetric] free_of_holders_def Let_def same_about_def)
  show ?thesis
  proof (cases "a \<in> ?D")
    case False
    then have "w' = w \<and> (\<exists>rs. t' = (if a \<in> held_back st p then t\<lparr>ty_held := ty_held t + 1, ty_reasons := rs\<rparr> else t))"
      using run' a(1) w by (auto simp: deletable_def held_back_def run_simps add_reason_def split: option.splits if_splits)
    with deleted_so_far_keep [OF J a_def False] show ?thesis by auto
  next
    case True
    then obtain cause where "delete_cause st a = Some cause" "free_of_holders st a" by (auto simp: deletable_def)
    with run' have tried: "try_delete env request ts a cause t (s, x) = (Inr t', (s', x'))" by simp
    let ?R = "?D \<inter> (?F - ?l)"
    have R: "?R = insert a (?D \<inter> ?seen)" using seen True by auto
    have wide: "only_removed st ?R v (s, x)" by (rule only_removed_mono [OF only]) (simp only: R subset_insertI)
    obtain r where del: "deleteAliasUnderHeldLocks env (vr_actorType request) a ts (s, x) = (r, (s', x'))"
      using tried by (cases "deleteAliasUnderHeldLocks env (vr_actorType request) a ts (s, x)")
        (auto simp: try_delete_def run_catching run_andthen run_simps Let_def split: sum.splits)
    have only': "only_removed st ?R v (s', x')"
      by (rule keepsD [OF keeps_delete_alias wide del]) (simp only: R insertI1)
    show ?thesis
    proof (cases r)
      case (Inl e)
      with tried del have "ty_failed t' \<noteq> 0"
        by (auto simp: try_delete_def run_catching run_andthen run_simps add_reason_def)
      with only' a w show ?thesis by (simp add: deleted_so_far_def Let_def)
    next
      case (Inr d)
      with tried del have t': "ty_failed t' = ty_failed t" "ty_acted t' = ty_acted t + 1" "ty_held t' = ty_held t"
        by (auto simp: try_delete_def run_catching run_andthen run_simps add_reason_def Let_def)
      from only obtain Q where Q: "Q \<subseteq> ?D \<inter> ?seen" "bs_host x = host_without Q (bs_host st)" unfolding only_removed_def state_removed_def by auto
      moreover have "a \<in> ha_alias ` set (hc_aliases (bs_host st))" using a(1) unfolding fitting_def by blast
      ultimately have "a \<in> ha_alias ` set (hc_aliases (bs_host x))" using seen(2) unfolding Q(2) host_without_aliases by blast
      with delete_alias_ok [OF del [unfolded Inr]] obtain h where h: "ha_alias h = a" "x' = removed_from h ts x"
        "sy_host s' = Some (host_config_json (bs_host x'))" by auto
      have "bs_host x' = host_without ?R (bs_host st) \<and> ty_acted t' = card ?R \<and> ty_held t' = card (held_back st p \<inter> (?F - ?l))"
        if "ty_failed t = 0"
      proof -
        from J that have old: "bs_host x = host_without (?D \<inter> ?seen) (bs_host st)" "ty_acted t = card (?D \<inter> ?seen)"
          "ty_held t = card (held_back st p \<inter> ?seen)" by (simp_all add: deleted_so_far_def Let_def w)
        have "bs_host x' = drop_alias a (bs_host x)" using h by (simp add: removed_from_def set_state_registry_def drop_records_def)
        then have "bs_host x' = host_without ?R (bs_host st)" unfolding old(1) drop_alias_host_without(1) R .
        moreover have "card ?R = card (?D \<inter> ?seen) + 1" unfolding R using seen(2) by (simp add: fitting_def)
        moreover have "held_back st p \<inter> (?F - ?l) = held_back st p \<inter> ?seen"
          unfolding seen(1) using True by (auto simp: held_back_def deletable_def)
        ultimately show ?thesis using old(2,3) t' by simp
      qed
      with only' a w h(3) t'(1) R show ?thesis by (auto simp: deleted_so_far_def Let_def)
    qed
  qed
qed

lemma deleted_so_far_start:
  assumes "ha_alias ` fitting st p = set (map (ha_alias \<circ> ca_hostAlias) cs)" "distinct (map (ha_alias \<circ> ca_hostAlias) cs)"
  shows "deleted_so_far st p (sy_host s) cs no_tally (s, st)"
  using assms by (simp add: deleted_so_far_def Let_def only_removed_def host_removed_def state_removed_def no_tally_def)

lemma delete_candidates_ok:
  assumes "fold_eff (delete_candidate env request ts) cs no_tally (s, st) = (Inr t, (s', x))"
    and "ha_alias ` fitting st p = set (map (ha_alias \<circ> ca_hostAlias) cs)" "distinct (map (ha_alias \<circ> ca_hostAlias) cs)"
  shows "deleted_so_far st p (sy_host s) [] t (s', x)"
  by (rule fold_eff_rest [where J = "deleted_so_far st p (sy_host s)", OF assms(1) deleted_so_far_start [OF assms(2,3)]])
    (rule delete_candidate_step)

lemma structural_candidates_aliases:
  assumes "wf_state st" "structural_candidates st p cfg = Inr cs"
  shows "ha_alias ` fitting st p = set (map (ha_alias \<circ> ca_hostAlias) cs)" "distinct (map (ha_alias \<circ> ca_hostAlias) cs)"
proof -
  from analysis_spec [OF assms(1), of p cfg None] assms(2) obtain an where an: "map ca_hostAlias an = hc_aliases (bs_host st)"
    "cs = filter (\<lambda>c. structuralCapacityMatches (ca_hostAlias c) p (policy_requirement p)) an"
    by (auto simp: structural_candidates_def)
  from an(1) assms(1) have "distinct (map (ha_alias \<circ> ca_hostAlias) an)" by (simp add: wf_state_def flip: map_map)
  then show "distinct (map (ha_alias \<circ> ca_hostAlias) cs)" unfolding an(2) by (rule distinct_map_filter')
  have "ca_hostAlias ` set an = set (hc_aliases (bs_host st))" using an(1) by (metis image_set)
  then have "ca_hostAlias ` set cs = fitting st p" unfolding an(2) fitting_def by auto
  then show "ha_alias ` fitting st p = set (map (ha_alias \<circ> ca_hostAlias) cs)" by (metis image_comp image_set)
qed

text \<open>A run inside a lock, whatever comes of it.\<close>

lemma with_lock_run:
  assumes "with_lock env k m s = (r, s')"
  shows "(\<exists>e w. r = Inl e \<and> s' = s\<lparr>sy_world := w\<rparr>)
    \<or> (\<exists>w w' r2 s2. m (s\<lparr>sy_world := w\<rparr>) = (r2, s2) \<and> s' = s2\<lparr>sy_world := w'\<rparr> \<and> (\<forall>x. r = Inr x \<longrightarrow> r2 = Inr x))"
proof -
  obtain q w where lock: "lift (en_lock env k) s = (q, s\<lparr>sy_world := w\<rparr>)"
    by (cases "en_lock env k (sy_world s)") (simp add: lift_def)
  obtain r2 s2 where m: "m (s\<lparr>sy_world := w\<rparr>) = (r2, s2)" by (cases "m (s\<lparr>sy_world := w\<rparr>)") blast
  show ?thesis
  proof (cases q)
    case (Inl e)
    with assms lock show ?thesis by (auto simp: with_lock_def run_andthen)
  next
    case (Inr u)
    obtain z w' where un: "lift (en_unlock env k) s2 = (z, s2\<lparr>sy_world := w'\<rparr>)"
      by (cases "en_unlock env k (sy_world s2)") (simp add: lift_def)
    from Inr assms lock have "finally_do m (lift (en_unlock env k)) (s\<lparr>sy_world := w\<rparr>) = (r, s')" by (simp add: with_lock_def run_andthen)
    then have "s' = s2\<lparr>sy_world := w'\<rparr> \<and> (\<forall>x. r = Inr x \<longrightarrow> r2 = Inr x)"
      unfolding finally_do_def using m un by (auto split: sum.splits)
    with m show ?thesis by blast
  qed
qed

lemma andthen_run:
  assumes "andthen m k s = (r, s')"
  shows "(\<exists>e. m s = (Inl e, s') \<and> r = Inl e) \<or> (\<exists>x s1. m s = (Inr x, s1) \<and> k x s1 = (r, s'))"
  using assms by (auto simp: run_andthen split: prod.splits sum.splits)

lemma nowIso_run:
  assumes "andthen (nowIso env now) k s = (r, s')"
  shows "\<exists>w. (\<exists>e. r = Inl e \<and> s' = s\<lparr>sy_world := w\<rparr>) \<or> (\<exists>t. k t (s\<lparr>sy_world := w\<rparr>) = (r, s'))"
proof (cases now)
  case None
  with assms show ?thesis
    by (cases "en_now env (sy_world s)") (auto simp: nowIso_def ask_def run_andthen)
next
  case (Some t)
  with assms have "k t (s\<lparr>sy_world := sy_world s\<rparr>) = (r, s')" by (simp add: nowIso_def)
  then show ?thesis by blast
qed

text \<open>Both locks around an operation: either it was not reached, or its outcome is that of the whole.\<close>

lemma both_locks_run:
  assumes "andthen (nowIso env a) (\<lambda>_. with_lock env k1 (with_lock env k2 (andthen (nowIso env b) m))) s = (r, s')"
  shows "(\<exists>e w. r = Inl e \<and> s' = s\<lparr>sy_world := w\<rparr>)
    \<or> (\<exists>t w w' r2 s2. m t (s\<lparr>sy_world := w\<rparr>) = (r2, s2) \<and> s' = s2\<lparr>sy_world := w'\<rparr> \<and> (\<forall>x. r = Inr x \<longrightarrow> r2 = Inr x))"
proof -
  have now: "(\<exists>e w. r = Inl e \<and> s' = s\<lparr>sy_world := w\<rparr>) \<or> (\<exists>t w. m t (s\<lparr>sy_world := w\<rparr>) = (r, s'))"
    if "andthen (nowIso env b) m (s\<lparr>sy_world := w0\<rparr>) = (r, s')" for r s' w0
    using nowIso_run [OF that] by auto
  from nowIso_run [OF assms] consider "\<exists>e w. r = Inl e \<and> s' = s\<lparr>sy_world := w\<rparr>"
    | w0 where "with_lock env k1 (with_lock env k2 (andthen (nowIso env b) m)) (s\<lparr>sy_world := w0\<rparr>) = (r, s')" by blast
  then show ?thesis
  proof cases
    case 2
    from with_lock_run [OF 2] consider "\<exists>e w. r = Inl e \<and> s' = s\<lparr>sy_world := w\<rparr>"
      | w1 w2 r2 s2 where "with_lock env k2 (andthen (nowIso env b) m) (s\<lparr>sy_world := w1\<rparr>) = (r2, s2)" "s' = s2\<lparr>sy_world := w2\<rparr>"
          "\<forall>x. r = Inr x \<longrightarrow> r2 = Inr x" by auto
    then show ?thesis
    proof cases
      case 2
      from with_lock_run [OF 2(1)] consider e w where "r2 = Inl e" "s2 = s\<lparr>sy_world := w\<rparr>"
        | w3 w4 r3 s3 where "andthen (nowIso env b) m (s\<lparr>sy_world := w3\<rparr>) = (r3, s3)" "s2 = s3\<lparr>sy_world := w4\<rparr>"
            "\<forall>x. r2 = Inr x \<longrightarrow> r3 = Inr x" by auto
      then show ?thesis
      proof cases
        case 1
        with 2 show ?thesis by (cases r) auto
      next
        case inner: 2
        from now [OF inner(1)] show ?thesis
        proof (elim disjE exE conjE)
          fix e w assume "r3 = Inl e" "s3 = s\<lparr>sy_world := w\<rparr>"
          with inner 2 show ?thesis by (cases r) auto
        next
          fix t w assume "m t (s\<lparr>sy_world := w\<rparr>) = (r3, s3)"
          moreover have "s' = s3\<lparr>sy_world := w2\<rparr>" using inner(2) 2(2) by simp
          ultimately show ?thesis using inner(3) 2(3) by blast
        qed
      qed
    qed simp
  qed simp
qed

lemma loaded_world: "loaded st (s\<lparr>sy_world := w\<rparr>) = loaded st s"
  by (simp add: loaded_def files_hold_def)

lemma purpose_candidates_ok:
  assumes "purpose_candidates env opts purposeId ts s = (Inr (st, cs), s')" "lease_files.slots_ok (sy_leases s)"
  shows "loaded st s' \<and> sy_host s' = sy_host s \<and> sy_pins s' = sy_pins s
    \<and> (\<exists>p. pu_id p = purposeId \<and> ha_alias ` fitting st p = set (map (ha_alias \<circ> ca_hostAlias) cs))
    \<and> distinct (map (ha_alias \<circ> ca_hostAlias) cs)"
proof -
  from assms(1) obtain lo s1 cfg f p cs0 where load: "loadBrokerState env lo ts s = (Inr st, s1)"
    and read: "readProjectConfigOrThrow env (vq_projectFile opts) s1 = (Inr (cfg, f), s')"
    and p: "getPurpose cfg (Some purposeId) = Inr p" "structural_candidates st p cfg = Inr cs0"
    and cs: "cs = js_sort (\<lambda>x y. en_locale env (ha_alias (ca_hostAlias x)) (ha_alias (ca_hostAlias y))) cs0"
    unfolding purpose_candidates_def Let_def by (auto simp: run_simps elim!: andthen_InrE andthen_checkE split: prod.splits)
  from loadBrokerState_ok [OF load assms(2)] have l: "loaded st s1" "sy_pins s1 = sy_pins s" "sy_host s1 = sy_host s" by simp_all
  have "keeps (\<lambda>x. loaded st x \<and> sy_pins x = sy_pins s \<and> sy_host x = sy_host s) (readProjectConfigOrThrow env (vq_projectFile opts))"
    by (rule keeps_readProjectConfig) (simp add: of_files_def loaded_world)
  from keepsD [OF this _ read] l have l': "loaded st s'" "sy_pins s' = sy_pins s" "sy_host s' = sy_host s" by simp_all
  have "wf_state st" using l(1) by (simp add: loaded_def)
  note c = structural_candidates_aliases [OF this p(2)]
  have "mset (map (ha_alias \<circ> ca_hostAlias) cs) = mset (map (ha_alias \<circ> ca_hostAlias) cs0)" by (simp add: cs)
  with c(2) have "distinct (map (ha_alias \<circ> ca_hostAlias) cs)" by (metis mset_eq_imp_distinct_iff)
  moreover have "pu_id p = purposeId" using p(1) by (auto simp: getPurpose_def split: option.splits dest!: find_SomeD)
  ultimately show ?thesis using c(1) l' by (auto simp: cs)
qed


section \<open>Runs\<close>

text \<open>The simulator \<open>build-a\<close> cannot be repaired, because its runtime is gone.\<close>

definition broken_sys :: "unit sys" where
  "broken_sys = (plain_sys [] [])\<lparr>sy_registry := Some (registry_text sample_host_config (update_entry ''build-a''
     (\<lambda>e. e\<lparr>re_health := Repair_needed, re_driftReason := Some ''simulator-missing'', re_driftCauseCode := Some ''runtime-not-found''\<rparr>)
     sample_registry))\<rparr>"

definition plain_removal :: removal_options where
  "plain_removal = \<lparr>vq_base = plain_action, vq_alias = None, vq_purposeId = None, vq_projectFile = Some ''/p.json'',
     vq_actorType = Some (JStr ''human''), vq_actorId = Some (JStr ''me''), vq_forceOverride = False\<rparr>"

lemma broken_slots: "lease_files.slots_ok (sy_leases broken_sys)"
  by (simp add: lease_files.slots_ok_def broken_sys_def plain_sys_def dir_get_def dir_ok_def)



end
