(* ===== verification/Starter.thy ===== *)
theory Starter
  imports Lifecycle Provisioning
begin

text \<open>
  What a new host and a new project start with (\<open>slugifyIdentifier\<close> to \<open>defaultHostId\<close>,
  \<open>buildStarterAliasTemplates\<close> and \<open>buildStarterProjectConfig\<close> in \<open>broker-core/index.mjs\<close>).  The name that
  \<open>os.hostname()\<close> returns is a parameter.
\<close>

section \<open>Names\<close>

definition slug_char :: "char \<Rightarrow> bool" where
  "slug_char c \<longleftrightarrow> (CHR ''a'' \<le> c \<and> c \<le> CHR ''z'') \<or> is_digit c"

text \<open>\<open>replace(/[^a-z0-9]+/g, "-")\<close>: \<open>inside\<close> while a run is being replaced.\<close>

fun dash_runs :: "bool \<Rightarrow> string \<Rightarrow> string" where
  "dash_runs inside [] = []"
| "dash_runs inside (c # cs) = (if slug_char c then c # dash_runs False cs
     else if inside then dash_runs True cs else CHR ''-'' # dash_runs True cs)"

definition strip_dashes :: "string \<Rightarrow> string" where
  "strip_dashes s = rev (dropWhile (\<lambda>c. c = CHR ''-'') (rev (dropWhile (\<lambda>c. c = CHR ''-'') s)))"

definition slugifyIdentifier :: "string option \<Rightarrow> string \<Rightarrow> string" where
  "slugifyIdentifier input fallback =
    (let normalized = strip_dashes (dash_runs False (map lower_char (js_trim (nullish input []))))
     in if normalized = [] then fallback else normalized)"

definition defaultHostId :: "string \<Rightarrow> string" where
  "defaultHostId hostname = slugifyIdentifier (Some hostname) ''simulator-broker-host''"

text \<open>\<open>replace(/[_-]+/g, " ").replace(/\s+/g, " ")\<close>\<close>

fun blank_runs :: "(char \<Rightarrow> bool) \<Rightarrow> bool \<Rightarrow> string \<Rightarrow> string" where
  "blank_runs P inside [] = []"
| "blank_runs P inside (c # cs) = (if \<not> P c then c # blank_runs P False cs
     else if inside then blank_runs P True cs else CHR '' '' # blank_runs P True cs)"

definition upper_first :: "string \<Rightarrow> string" where
  "upper_first s = (case s of [] \<Rightarrow> [] | c # cs \<Rightarrow> upper_char c # cs)"

definition humanizeName :: "string \<Rightarrow> string \<Rightarrow> string" where
  "humanizeName input fallback =
    (let normalized = js_trim (blank_runs js_space False (blank_runs (\<lambda>c. c = CHR ''_'' \<or> c = CHR ''-'') False (js_trim input)))
     in if normalized = [] then fallback
        else join_with '' '' (map upper_first (split_on (CHR '' '') normalized)))"

section \<open>The six aliases of a new host\<close>

definition default_starter_ios_version :: string where
  "default_starter_ios_version = ''18''"

record template =
  tm_alias :: string
  tm_capabilities :: "string list"
  tm_deviceFamily :: string
  tm_displayName :: string
  tm_iosVersion :: string
  tm_resetPolicy :: string
  tm_simulatorName :: string

text \<open>Alias, capabilities, family, display name and reset policy of the templates.\<close>

definition starter_rows :: "(string \<times> string list \<times> string \<times> string \<times> string) list" where
  "starter_rows =
    [(''manual-1'', [''manual-persistent''], ''iPhone'', ''Manual iPhone'', ''none''),
     (''ui-1'', [''interactive-resettable'', ''automation-resettable''], ''iPhone'', ''UI iPhone'', ''erase-on-acquire''),
     (''ui-2'', [''interactive-resettable'', ''automation-resettable''], ''iPhone'', ''UI iPhone 2'', ''erase-on-acquire''),
     (''build-1'', [''build-fast''], ''iPhone'', ''Build iPhone'', ''none''),
     (''build-2'', [''build-fast''], ''iPhone'', ''Build iPhone 2'', ''none''),
     (''ipad-1'', [''interactive-resettable''], ''iPad'', ''UI iPad'', ''erase-on-acquire'')]"

definition starter_template :: "string \<Rightarrow> string \<Rightarrow> string \<times> string list \<times> string \<times> string \<times> string \<Rightarrow> template" where
  "starter_template hostId iosVersion = (\<lambda>(a, caps, family, display, reset).
    \<lparr>tm_alias = a, tm_capabilities = caps, tm_deviceFamily = family, tm_displayName = display, tm_iosVersion = iosVersion,
     tm_resetPolicy = reset, tm_simulatorName = simulatorDisplayName hostId a\<rparr>)"

definition buildStarterAliasTemplates :: "string \<Rightarrow> string option \<Rightarrow> string option \<Rightarrow> berr + string \<times> template list" where
  "buildStarterAliasTemplates hostname hostId iosVersion =
    (let normalizedHostId = slugifyIdentifier (Some (nullish hostId (defaultHostId hostname))) (defaultHostId hostname) in
     seq (validateIosVersion (Some (JStr (nullish iosVersion default_starter_ios_version))) ''starter-host-config.iosVersion'')
       (\<lambda>v. Inr (normalizedHostId, map (starter_template normalizedHostId v) starter_rows)))"

section \<open>The purposes of a new project\<close>

definition starter_purpose :: "string \<Rightarrow> string \<Rightarrow> string \<Rightarrow> string \<Rightarrow> requires option \<Rightarrow> purpose" where
  "starter_purpose i display capability actor requires' =
    \<lparr>pu_capability = capability, pu_defaultActorType = Some actor, pu_displayName = display, pu_id = i, pu_requires = requires'\<rparr>"

definition starter_config :: "string \<Rightarrow> string \<Rightarrow> string option \<Rightarrow> project_config" where
  "starter_config projectId projectName v =
    (let ui = Some \<lparr>rq_deviceFamily = Some ''iPhone'', rq_iosVersion = v\<rparr> in
      \<lparr>pc_projectId = projectId, pc_projectName = projectName, pc_purposes =
        [starter_purpose ''manual-testing'' ''Manual Testing'' ''manual-persistent'' ''human'' None,
         starter_purpose ''agent-ui-session'' ''Agent UI Session'' ''interactive-resettable'' ''agent'' ui,
         starter_purpose ''agent-build-test'' ''Agent Build Test'' ''build-fast'' ''agent'' None,
         starter_purpose ''ci-ui-test'' ''CI UI Test'' ''automation-resettable'' ''ci'' ui,
         starter_purpose ''ci-build-test'' ''CI Build Test'' ''build-fast'' ''ci'' None]\<rparr>)"

definition buildStarterProjectConfig :: "string \<Rightarrow> string \<Rightarrow> js option \<Rightarrow> berr + project_config" where
  "buildStarterProjectConfig projectId projectName iosVersion =
    seq (if js_nullish iosVersion then Inr None
         else seq (validateIosVersion iosVersion ''starter-project-config.iosVersion'') (\<lambda>v. Inr (Some v))) (\<lambda>v.
      Inr (starter_config projectId projectName v))"

section \<open>Lemmas\<close>

lemma dash_runs_chars: "c \<in> set (dash_runs b s) \<Longrightarrow> slug_char c \<or> c = CHR ''-''"
  by (induction b s rule: dash_runs.induct) (auto split: if_splits)

lemma strip_dashes_set: "set (strip_dashes s) \<subseteq> set s"
  unfolding strip_dashes_def by (auto dest!: set_dropWhileD)

lemma slug_not_space: "slug_char c \<or> c = CHR ''-'' \<Longrightarrow> \<not> js_space c"
  by (cases c) (auto simp: slug_char_def js_space_def is_digit_def)

lemma no_space_trim: "(\<And>c. c \<in> set s \<Longrightarrow> \<not> js_space c) \<Longrightarrow> js_trim s = s"
proof -
  assume n: "\<And>c. c \<in> set s \<Longrightarrow> \<not> js_space c"
  have "dropWhile js_space t = t" if "set t \<subseteq> set s" for t
    using that n by (cases t) auto
  then show ?thesis by (simp add: js_trim_def js_trim_start_def js_trim_end_def)
qed

text \<open>A slug is never empty and has no white space around it.\<close>

lemma slug_wf: "wf_text fallback \<Longrightarrow> wf_text (slugifyIdentifier input fallback)"
proof -
  assume f: "wf_text fallback"
  let ?n = "strip_dashes (dash_runs False (map lower_char (js_trim (nullish input []))))"
  have "js_trim ?n = ?n" using strip_dashes_set dash_runs_chars slug_not_space by (intro no_space_trim) blast
  with f show ?thesis by (simp add: slugifyIdentifier_def wf_text_def Let_def)
qed

lemma default_host_wf: "wf_text (defaultHostId hostname)"
  unfolding defaultHostId_def by (rule slug_wf) code_simp

lemma templates_ok:
  assumes "buildStarterAliasTemplates hostname hostId iosVersion = Inr (h, ts)"
  shows "wf_text h \<and> (\<exists>v. ts = map (starter_template h v) starter_rows
    \<and> validateIosVersion (Some (JStr (nullish iosVersion default_starter_ios_version))) ''starter-host-config.iosVersion'' = Inr v)"
  using assms slug_wf [OF default_host_wf] by (auto simp: buildStarterAliasTemplates_def seq_Inr_iff Let_def)

text \<open>The project configuration that is written for a new project is one that the broker accepts.\<close>

theorem starter_project_is_valid:
  assumes "buildStarterProjectConfig projectId projectName iosVersion = Inr cfg" "wf_text projectId" "wf_text projectName"
  shows "validateProjectConfig (Some (project_config_json cfg)) = Inr cfg"
proof -
  have lits: "list_all wf_text [''manual-testing'', ''Manual Testing'', ''manual-persistent'', ''human'', ''agent-ui-session'', ''Agent UI Session'',
      ''interactive-resettable'', ''agent'', ''agent-build-test'', ''Agent Build Test'', ''build-fast'', ''ci-ui-test'', ''CI UI Test'',
      ''automation-resettable'', ''ci'', ''ci-build-test'', ''CI Build Test'']" by code_simp
  from assms(1) obtain v where v: "cfg = starter_config projectId projectName v"
    "case v of None \<Rightarrow> True | Some x \<Rightarrow> wf_text x \<and> isHostSchemaIosVersion x"
    unfolding buildStarterProjectConfig_def
    by (auto simp: seq_Inr_iff validateIosVersion_def dest: requireString_wf split: if_splits)
  then have "wf_project_config cfg" using lits assms(2,3)
    by (simp add: starter_config_def Let_def starter_purpose_def wf_project_config_def wf_purpose_def wf_requires_def allowed_device_families_def)
  then show ?thesis using validateProjectConfig_accepts by blast
qed

lemma starter_project_is_valid_witness:
  "case buildStarterProjectConfig ''app'' ''App'' (Some (JStr ''18.2'')) of
     Inr cfg \<Rightarrow> validateProjectConfig (Some (project_config_json cfg)) = Inr cfg | Inl e \<Rightarrow> False"
proof -
  let ?b = "buildStarterProjectConfig ''app'' ''App'' (Some (JStr ''18.2''))"
  have "case ?b of Inr cfg \<Rightarrow> True | Inl e \<Rightarrow> False" by code_simp
  then obtain cfg where b: "?b = Inr cfg" by (cases ?b) auto
  have "wf_text ''app''" "wf_text ''App''" by code_simp+
  from starter_project_is_valid [OF b this] b show ?thesis by simp
qed

end
