(* ===== verification/Setup_Plan.thy ===== *)
theory Setup_Plan
  imports Starter Idle
begin

text \<open>
  The plan of the guided setup (\<open>setupRuntimeSummary\<close> to \<open>previewSetupBroker\<close> in
  \<open>broker-core/index.mjs\<close>): six simulators for a host that is not configured, each one created or an
  existing one reused, or the report on a host that is configured.  What \<open>lstat\<close> and \<open>stat\<close> say of a state
  path is a parameter \<open>kind\<close>; records in the state directories are as \<open>Broker_Store\<close> has them.
\<close>

section \<open>Devices\<close>

record runtime_summary =
  rs_buildVersion :: "string option"
  rs_identifier :: string
  rs_explicit :: bool
  rs_version :: "string option"

definition setupRuntimeSummary :: "runtime \<Rightarrow> string option \<Rightarrow> runtime_summary" where
  "setupRuntimeSummary r requestedVersion = \<lparr>rs_buildVersion = setupRuntimeBuildVersion r, rs_identifier = rn_identifier r,
     rs_explicit = (given requestedVersion \<noteq> None), rs_version = rn_version r\<rparr>"

text \<open>A planned simulator; it is created if it has no id yet.\<close>

record setup_device =
  sd_alias :: string
  sd_capabilities :: "string list"
  sd_deviceFamily :: string
  sd_deviceTypeIdentifier :: "string option"
  sd_deviceTypeName :: "string option"
  sd_displayName :: string
  sd_resetPolicy :: string
  sd_reuse :: bool
  sd_runtimeIdentifier :: "string option"
  sd_runtimeVersion :: "string option"
  sd_simulatorId :: "string option"
  sd_simulatorName :: string

definition reusable_devices :: "(string \<Rightarrow> string \<Rightarrow> int) \<Rightarrow> inventory \<Rightarrow> runtime \<Rightarrow> device_type \<Rightarrow> string \<Rightarrow> device_info list" where
  "reusable_devices loc iv r t name = js_sort (\<lambda>x y. loc (di_udid x) (di_udid y))
    (filter (\<lambda>d. di_udid d \<noteq> [] \<and> di_isAvailable d \<and> di_name d = name \<and> di_runtimeIdentifier d = rn_identifier r
        \<and> Some (di_deviceTypeIdentifier d) = dt_identifier t)
      (map_values (createDeviceIndex iv)))"

definition setup_device_of ::
  "(string \<Rightarrow> string \<Rightarrow> int) \<Rightarrow> inventory \<Rightarrow> runtime \<Rightarrow> device_type \<Rightarrow> template \<Rightarrow> setup_device" where
  "setup_device_of loc iv r t tm =
    (let found = reusable_devices loc iv r t (tm_simulatorName tm) in
     \<lparr>sd_alias = tm_alias tm, sd_capabilities = tm_capabilities tm, sd_deviceFamily = tm_deviceFamily tm,
      sd_deviceTypeIdentifier = dt_identifier t, sd_deviceTypeName = dt_name t, sd_displayName = tm_displayName tm,
      sd_resetPolicy = tm_resetPolicy tm, sd_reuse = (found \<noteq> []), sd_runtimeIdentifier = Some (rn_identifier r),
      sd_runtimeVersion = rn_version r, sd_simulatorId = (case found of [] \<Rightarrow> None | d # _ \<Rightarrow> Some (di_udid d)),
      sd_simulatorName = tm_simulatorName tm\<rparr>)"

definition setupDevicePlan ::
  "(string \<Rightarrow> string \<Rightarrow> int) \<Rightarrow> string \<Rightarrow> inventory \<Rightarrow> string \<Rightarrow> runtime \<Rightarrow> berr + setup_device list" where
  "setupDevicePlan loc hostname iv hostId r =
    seq (buildStarterAliasTemplates hostname (Some hostId) (rn_version r)) (\<lambda>(_, templates).
    seq (seq (selectPreferredDeviceTypeForSetup loc r iv ''iPad'') (\<lambda>t. requireCompleteSetupDeviceType t ''iPad'' r)) (\<lambda>pad.
    seq (seq (selectPreferredDeviceTypeForSetup loc r iv ''iPhone'') (\<lambda>t. requireCompleteSetupDeviceType t ''iPhone'' r)) (\<lambda>phone.
      Inr (map (\<lambda>tm. setup_device_of loc iv r (if tm_deviceFamily tm = ''iPad'' then pad else phone) tm) templates))))"

definition requestedSetupHostId :: "string \<Rightarrow> js option \<Rightarrow> string option" where
  "requestedSetupHostId hostname hostId = (case hostId of
     Some (JStr s) \<Rightarrow> if js_trim s = [] then None else Some (slugifyIdentifier (Some s) (defaultHostId hostname))
   | _ \<Rightarrow> None)"

text \<open>\<open>slugifyIdentifier(options.hostId ?? defaultHostId(), defaultHostId())\<close>\<close>

definition setup_host_id :: "string \<Rightarrow> js option \<Rightarrow> string" where
  "setup_host_id hostname hostId = slugifyIdentifier
    (if js_nullish hostId then Some (defaultHostId hostname) else case hostId of Some (JStr s) \<Rightarrow> Some s | _ \<Rightarrow> None)
    (defaultHostId hostname)"

section \<open>Fingerprint\<close>

definition setupHostConfigDigest :: "(js \<Rightarrow> string) \<Rightarrow> host_config option \<Rightarrow> string option" where
  "setupHostConfigDigest digest hc = map_option (\<lambda>c. digest (host_config_json c)) hc"

definition setup_device_json :: "setup_device \<Rightarrow> js" where
  "setup_device_json d = JObj
    [(''action'', JStr (if sd_reuse d then ''reuse'' else ''create'')), (''alias'', JStr (sd_alias d)),
     (''capabilities'', JArr (map JStr (sd_capabilities d))), (''deviceFamily'', JStr (sd_deviceFamily d)),
     (''deviceTypeIdentifier'', opt_str (sd_deviceTypeIdentifier d)), (''displayName'', JStr (sd_displayName d)),
     (''resetPolicy'', JStr (sd_resetPolicy d)),
     (''reusableSimulatorId'', if sd_reuse d then opt_str (sd_simulatorId d) else JNull),
     (''runtimeIdentifier'', opt_str (sd_runtimeIdentifier d)), (''runtimeVersion'', opt_str (sd_runtimeVersion d)),
     (''simulatorName'', JStr (sd_simulatorName d))]"

definition setup_fingerprint_json ::
  "(js \<Rightarrow> string) \<Rightarrow> bool \<Rightarrow> setup_device list \<Rightarrow> host_config option \<Rightarrow> string option \<Rightarrow> runtime_summary option \<Rightarrow> js" where
  "setup_fingerprint_json digest configured devices hc hostId r = JObj
    [(''devices'', JArr (map setup_device_json devices)),
     (''host'', JObj [(''configured'', JBool configured), (''digest'', opt_str (setupHostConfigDigest digest hc)), (''hostId'', opt_str hostId)]),
     (''runtime'', case r of None \<Rightarrow> JNull | Some r \<Rightarrow> JObj [(''buildVersion'', opt_str (rs_buildVersion r)),
        (''identifier'', JStr (rs_identifier r)), (''version'', opt_str (rs_version r))]),
     (''schemaVersion'', JInt 1)]"

definition setupPlanFingerprint ::
  "(js \<Rightarrow> string) \<Rightarrow> bool \<Rightarrow> setup_device list \<Rightarrow> host_config option \<Rightarrow> string option \<Rightarrow> runtime_summary option \<Rightarrow> string" where
  "setupPlanFingerprint digest configured devices hc hostId r = digest (setup_fingerprint_json digest configured devices hc hostId r)"

section \<open>A host that setup committed\<close>

text \<open>Whether a configured host is the one a setup of the same runtime would have committed.  The version of its
  aliases has been accepted, so that the templates for it can be built.\<close>

definition template_committed :: "host_config \<Rightarrow> setup_device list \<Rightarrow> runtime \<Rightarrow> string option \<Rightarrow> string option \<Rightarrow> template \<Rightarrow> bool" where
  "template_committed hc devices r tablet phone tm =
    (case (map_get (map (\<lambda>h. (ha_alias h, h)) (hc_aliases hc)) (tm_alias tm),
           map_get (map (\<lambda>d. (sd_alias d, d)) devices) (tm_alias tm)) of
       (Some a, Some d) \<Rightarrow> ha_deviceFamily a = tm_deviceFamily tm \<and> ha_displayName a = tm_displayName tm
         \<and> ha_resetPolicy a = tm_resetPolicy tm \<and> ha_capabilities a = tm_capabilities tm
         \<and> sd_simulatorId d = Some (ha_simulatorId a) \<and> sd_simulatorName d = tm_simulatorName tm
         \<and> sd_runtimeIdentifier d = Some (rn_identifier r) \<and> sd_runtimeVersion d = rn_version r
         \<and> sd_deviceTypeIdentifier d = (if tm_deviceFamily tm = ''iPad'' then tablet else phone)
     | _ \<Rightarrow> False)"

definition setupHostMatchesCommittedStarterPlan ::
  "(string \<Rightarrow> string \<Rightarrow> int) \<Rightarrow> (string \<Rightarrow> string \<Rightarrow> int) \<Rightarrow> string \<Rightarrow> host_config \<Rightarrow> setup_device list \<Rightarrow> inventory \<Rightarrow> bool" where
  "setupHostMatchesCommittedStarterPlan loc num hostname hc devices iv =
    (if hc_pendingRetirements hc \<noteq> [] \<or> length (hc_aliases hc) \<noteq> 6 then False
     else let iosVersion = ha_iosVersion (hd (hc_aliases hc)) in
       if iosVersion = [] \<or> list_ex (\<lambda>h. ha_iosVersion h \<noteq> iosVersion) (hc_aliases hc) then False
       else case uniq (map sd_runtimeIdentifier devices) of
         [runtimeIdentifier] \<Rightarrow>
           (case seq (selectRuntimeForSetup loc num iv (Some iosVersion)) (\<lambda>r.
                   if Some (rn_identifier r) \<noteq> runtimeIdentifier \<or> rn_version r \<noteq> Some iosVersion then Inr None
                   else seq (selectPreferredDeviceTypeForSetup loc r iv ''iPad'') (\<lambda>pad.
                        seq (selectPreferredDeviceTypeForSetup loc r iv ''iPhone'') (\<lambda>phone.
                          Inr (Some (r, dt_identifier pad, dt_identifier phone))))) of
              Inr (Some (r, tablet, phone)) \<Rightarrow>
                (case buildStarterAliasTemplates hostname (Some (hc_hostId hc)) (Some iosVersion) of
                   Inl _ \<Rightarrow> False
                 | Inr (_, templates) \<Rightarrow> list_all (template_committed hc devices r tablet phone) templates)
            | _ \<Rightarrow> False)
       | _ \<Rightarrow> False)"

section \<open>State paths\<close>

datatype place = Host_place | Registry_place | Known_place | Idle_place | Events_place | Leases_place | Pins_place
  | Transactions_place | Evidence_place

text \<open>Nothing there, a regular file (writable or not), a directory, or anything else, as a broken link.\<close>

datatype occupancy = Vacant | Regular_file bool | Directory | Odd

type_synonym 'w kinds = "place \<Rightarrow> 'w sys \<Rightarrow> occupancy"

definition pathOccupied :: "'w kinds \<Rightarrow> place \<Rightarrow> 'w sys \<Rightarrow> bool" where
  "pathOccupied kind p s \<longleftrightarrow> kind p s \<noteq> Vacant"

definition setupOccupiedDirectoryInvalid :: "'w kinds \<Rightarrow> place \<Rightarrow> 'w sys \<Rightarrow> bool" where
  "setupOccupiedDirectoryInvalid kind p s \<longleftrightarrow> pathOccupied kind p s \<and> kind p s \<noteq> Directory"

definition setupOwnedStateDirectoriesInvalid :: "'w kinds \<Rightarrow> 'w sys \<Rightarrow> bool" where
  "setupOwnedStateDirectoriesInvalid kind s \<longleftrightarrow>
     setupOccupiedDirectoryInvalid kind Transactions_place s \<or> setupOccupiedDirectoryInvalid kind Evidence_place s"

definition setupOccupiedAuditLogInvalid :: "'w kinds \<Rightarrow> 'w sys \<Rightarrow> bool" where
  "setupOccupiedAuditLogInvalid kind s \<longleftrightarrow> pathOccupied kind Events_place s \<and> kind Events_place s \<noteq> Regular_file True"

definition is_regular :: "occupancy \<Rightarrow> bool" where
  "is_regular k \<longleftrightarrow> (case k of Regular_file _ \<Rightarrow> True | _ \<Rightarrow> False)"

definition readOccupiedJsonFile :: "'w kinds \<Rightarrow> place \<Rightarrow> ('w sys \<Rightarrow> js option) \<Rightarrow> string \<Rightarrow> ('w sys, js option) eff" where
  "readOccupiedJsonFile kind p content message =
    andthen (look (\<lambda>s. (kind p s, content s))) (\<lambda>(k, v).
      if k = Vacant then ret None
      else if \<not> is_regular k \<or> js_nullish v then throw (broker_err message ''invalid-config'')
      else ret v)"

definition readOccupiedKnownProjects :: "'w kinds \<Rightarrow> ('w sys, js option) eff" where
  "readOccupiedKnownProjects kind = readOccupiedJsonFile kind Known_place sy_projects
     ''The existing known-projects catalog could not be read as a regular file.''"

definition readOccupiedRegistry :: "'w kinds \<Rightarrow> ('w sys, js option) eff" where
  "readOccupiedRegistry kind = readOccupiedJsonFile kind Registry_place sy_registry
     ''The existing broker registry could not be read as a regular file.''"

definition readOccupiedIdlePolicy :: "'w kinds \<Rightarrow> ('w sys, int option) eff" where
  "readOccupiedIdlePolicy kind =
    andthen (look (kind Idle_place)) (\<lambda>k.
      if k = Vacant then ret None
      else if \<not> is_regular k then throw (broker_err ''The existing idle policy could not be read as a regular file.'' ''invalid-config'')
      else readIdlePolicy)"

definition setupStateContainsLeaseOrPinRecords :: "'w kinds \<Rightarrow> 'w sys \<Rightarrow> bool" where
  "setupStateContainsLeaseOrPinRecords kind s \<longleftrightarrow>
     setupOccupiedDirectoryInvalid kind Leases_place s \<or> sy_leases s \<noteq> []
   \<or> setupOccupiedDirectoryInvalid kind Pins_place s \<or> sy_pins s \<noteq> []"

definition setupStateContainsExistingBrokerArtifacts :: "'w kinds \<Rightarrow> 'w sys \<Rightarrow> bool" where
  "setupStateContainsExistingBrokerArtifacts kind s \<longleftrightarrow>
     pathOccupied kind Registry_place s \<or> setupOwnedStateDirectoriesInvalid kind s \<or> setupStateContainsLeaseOrPinRecords kind s"

section \<open>Previews\<close>

definition setupCliCommandWithSelectedPaths :: "string \<Rightarrow> broker_paths \<Rightarrow> string" where
  "setupCliCommandWithSelectedPaths command paths = join_with '' ''
    [command, ''--host-config'', shellQuoteArgument (bp_hostConfigPath paths), ''--state-root'', shellQuoteArgument (bp_stateRoot paths),
     ''--service-socket'', shellQuoteArgument (bp_serviceSocketPath paths)]"

record issue =
  is_alias :: "string option"
  is_blocked :: bool
  is_commands :: "string list"
  is_details :: "berr option"
  is_id :: string
  is_summary :: string

record setup_preview =
  sv_configured :: bool
  sv_creates :: bool
  sv_createCount :: nat
  sv_devices :: "setup_device list"
  sv_hostId :: "string option"
  sv_nextSteps :: "string list"
  sv_planId :: string
  sv_prerequisites :: "issue list"
  sv_required :: bool
  sv_reuseCount :: nat
  sv_runtime :: "runtime_summary option"
  sv_service :: string
  sv_status :: string

record setup_options =
  so_now :: "string option"
  so_hostId :: "js option"
  so_iosVersion :: "string option"
  so_confirmPlanId :: "string option"
  so_setupAttemptId :: "string option"
  so_termWaitMs :: "js option"
  so_skipLeaseIds :: "string list"
  so_inventory :: "inventory option"

definition doctor_command :: "'w env \<Rightarrow> string list" where
  "doctor_command env = [setupCliCommandWithSelectedPaths ''simbroker doctor'' (en_paths env)]"

definition blocked_by :: "'w env \<Rightarrow> string \<Rightarrow> string \<Rightarrow> berr option \<Rightarrow> issue" where
  "blocked_by env i summary e = \<lparr>is_alias = None, is_blocked = True, is_commands = doctor_command env, is_details = e, is_id = i,
     is_summary = summary\<rparr>"

text \<open>\<open>try { m } catch (error) { issues.push(...) }\<close>\<close>

definition issue_if :: "(berr \<Rightarrow> issue) \<Rightarrow> ('w, unit) eff \<Rightarrow> ('w, issue list) eff" where
  "issue_if f m = catching (andthen m (\<lambda>_. ret [])) (\<lambda>e. ret [f e])"

definition blocked_preview :: "string \<Rightarrow> bool \<Rightarrow> string option \<Rightarrow> issue \<Rightarrow> setup_preview" where
  "blocked_preview planId configured hostId i = \<lparr>sv_configured = configured, sv_creates = False, sv_createCount = 0, sv_devices = [],
     sv_hostId = hostId, sv_nextSteps = is_commands i, sv_planId = planId, sv_prerequisites = [i], sv_required = False, sv_reuseCount = 0,
     sv_runtime = None, sv_service = ''blocked'', sv_status = ''blocked''\<rparr>"

definition blockedUnconfiguredSetupPreview :: "'w env \<Rightarrow> string \<Rightarrow> setup_options \<Rightarrow> issue \<Rightarrow> setup_preview" where
  "blockedUnconfiguredSetupPreview env hostname opts i =
    (let hostId = (case requestedSetupHostId hostname (so_hostId opts) of
           Some h \<Rightarrow> h | None \<Rightarrow> setup_host_id hostname (so_hostId opts)) in
     blocked_preview (setupPlanFingerprint (en_digest env) False [] None (Some hostId) None) False (Some hostId) i)"

definition blockedSetupExistingStateWithoutHost :: "'w env \<Rightarrow> string \<Rightarrow> setup_options \<Rightarrow> setup_preview" where
  "blockedSetupExistingStateWithoutHost env hostname opts = blockedUnconfiguredSetupPreview env hostname opts
     (blocked_by env ''state-root'' ''The selected state root already contains broker state and setup will not create a new host over it.'' None)"

definition known_projects_issue :: "'w env \<Rightarrow> berr \<Rightarrow> issue" where
  "known_projects_issue env e = blocked_by env ''known-projects''
     ''The existing known-projects catalog is invalid and setup will not replace it automatically.'' (Some e)"

definition idle_policy_issue :: "'w env \<Rightarrow> berr \<Rightarrow> issue" where
  "idle_policy_issue env e = blocked_by env ''idle-policy''
     ''The existing idle policy is invalid and setup will not replace it automatically.'' (Some e)"

definition blockedSetupInvalidEventsWithoutHost :: "'w env \<Rightarrow> string \<Rightarrow> setup_options \<Rightarrow> setup_preview" where
  "blockedSetupInvalidEventsWithoutHost env hostname opts = blockedUnconfiguredSetupPreview env hostname opts
     (blocked_by env ''events'' ''The existing audit log is not a writable regular file and setup will not create a new host over it.'' None)"

section \<open>Records of a configured host\<close>

definition require_all :: "(string \<times> string) list \<Rightarrow> berr + unit" where
  "require_all fs = seq (map_seq (\<lambda>(name, v). requireString (Some (JStr v)) name) fs) (\<lambda>_. Inr ())"

definition optional_all :: "(string \<times> string option) list \<Rightarrow> berr + unit" where
  "optional_all fs = seq (map_seq (\<lambda>(name, v). requireOptionalString (Some (opt_str v)) name) fs) (\<lambda>_. Inr ())"

text \<open>\<open>expiresAt\<close> is not a field of the model, which never writes one.\<close>

definition assertValidLeaseRecord :: "lease \<Rightarrow> berr + unit" where
  "assertValidLeaseRecord l =
    seq (require_all [(''lease.leaseId'', ls_leaseId l), (''lease.alias'', ls_alias l), (''lease.simulatorId'', ls_simulatorId l),
      (''lease.actorType'', ls_actorType l), (''lease.actorId'', ls_actorId l), (''lease.projectId'', ls_projectId l),
      (''lease.projectName'', ls_projectName l), (''lease.purposeId'', ls_purposeId l), (''lease.displayName'', ls_displayName l),
      (''lease.leaseKind'', ls_leaseKind l), (''lease.repoRoot'', ls_repoRoot l), (''lease.startedAt'', ls_startedAt l)]) (\<lambda>_.
    seq (requirePositiveIntegerField (Some (JInt (ls_ownerPid l))) ''lease.ownerPid'') (\<lambda>_.
      optional_all [(''lease.artifactPath'', ls_artifactPath l), (''lease.jobId'', ls_jobId l), (''lease.jobKind'', ls_jobKind l),
        (''lease.pinId'', ls_pinId l), (''lease.resetPolicy'', Some (ls_resetPolicy l)), (''lease.sessionDir'', ls_sessionDir l)]))"

definition assertValidPinRecord :: "pin \<Rightarrow> berr + unit" where
  "assertValidPinRecord p =
    seq (require_all [(''pin.pinId'', pn_pinId p), (''pin.alias'', pn_alias p), (''pin.projectId'', pn_projectId p),
      (''pin.projectName'', pn_projectName p), (''pin.actorId'', pn_actorId p), (''pin.actorType'', pn_actorType p),
      (''pin.createdAt'', pn_createdAt p), (''pin.repoRoot'', pn_repoRoot p)]) (\<lambda>_.
      optional_all [(''pin.note'', pn_note p), (''pin.purposeId'', pn_purposeId p)])"

definition assertStoredRecordFileName :: "string \<Rightarrow> string \<Rightarrow> string \<Rightarrow> berr + unit" where
  "assertStoredRecordFileName fileName recordId kind =
    (if fileName \<noteq> recordId @ ''.json''
     then Inl (broker_err (kind @ '' file '' @ fileName @ '' does not match '' @ kind @ '' ID '' @ recordId @ ''.'') ''invalid-config'')
     else Inr ())"

fun check_lease_records :: "host_config \<Rightarrow> string list \<Rightarrow> (string \<times> lease) list \<Rightarrow> berr + unit" where
  "check_lease_records hc seen [] = Inr ()"
| "check_lease_records hc seen ((name, l) # es) =
    seq (assertValidLeaseRecord l) (\<lambda>_.
    seq (assertStoredRecordFileName name (ls_leaseId l) ''lease'') (\<lambda>_.
    case map_get (map (\<lambda>h. (ha_alias h, h)) (hc_aliases hc)) (ls_alias l) of
      None \<Rightarrow> Inl (broker_err (''Lease '' @ ls_leaseId l @ '' names unknown alias '' @ ls_alias l @ ''.'') ''invalid-config'')
    | Some h \<Rightarrow>
        if ls_simulatorId l \<noteq> ha_simulatorId h
        then Inl (broker_err (''Lease '' @ ls_leaseId l @ '' simulator '' @ ls_simulatorId l @ '' does not match alias '' @ ls_alias l @ ''.'')
          ''invalid-config'')
        else if ls_alias l \<in> set seen
        then Inl (broker_err (''Multiple lease records claim alias '' @ ls_alias l @ ''.'') ''invalid-config'')
        else check_lease_records hc (ls_alias l # seen) es))"

fun check_pin_records :: "host_config \<Rightarrow> string list \<Rightarrow> (string \<times> pin) list \<Rightarrow> berr + unit" where
  "check_pin_records hc seen [] = Inr ()"
| "check_pin_records hc seen ((name, p) # es) =
    seq (assertValidPinRecord p) (\<lambda>_.
    seq (assertStoredRecordFileName name (pn_pinId p) ''pin'') (\<lambda>_.
      if pn_alias p \<notin> ha_alias ` set (hc_aliases hc)
      then Inl (broker_err (''Pin '' @ pn_pinId p @ '' names unknown alias '' @ pn_alias p @ ''.'') ''invalid-config'')
      else if pn_alias p \<in> set seen
      then Inl (broker_err (''Multiple pin records claim alias '' @ pn_alias p @ ''.'') ''invalid-config'')
      else check_pin_records hc (pn_alias p # seen) es))"

definition check_records :: "'w kinds \<Rightarrow> host_config \<Rightarrow> ('w sys, unit) eff" where
  "check_records kind hc =
    andthen (look (\<lambda>s. setupOccupiedDirectoryInvalid kind Leases_place s \<or> setupOccupiedDirectoryInvalid kind Pins_place s)) (\<lambda>bad.
      if bad then throw (broker_err ''The existing lease or pin directory could not be used as a directory.'' ''invalid-config'')
      else andthen (look sy_leases) (\<lambda>ls. andthen (check (check_lease_records hc [] ls)) (\<lambda>_.
        andthen (look sy_pins) (\<lambda>ps. check (check_pin_records hc [] ps)))))"

definition check_owned_directories :: "'w kinds \<Rightarrow> ('w sys, unit) eff" where
  "check_owned_directories kind = andthen (look (setupOwnedStateDirectoriesInvalid kind)) (\<lambda>bad.
     if bad then throw (broker_err ''The existing capacity-transactions or evidence directory could not be used as a directory.'' ''invalid-config'')
     else ret ())"

definition check_known_projects :: "'w env \<Rightarrow> 'w kinds \<Rightarrow> setup_options \<Rightarrow> ('w sys, unit) eff" where
  "check_known_projects env kind opts = andthen (readOccupiedKnownProjects kind) (\<lambda>v.
     andthen (nowIso env (so_now opts)) (\<lambda>t. andthen (check (normalizeKnownProjects v t)) (\<lambda>_. ret ())))"

definition check_idle_policy :: "'w kinds \<Rightarrow> ('w sys, unit) eff" where
  "check_idle_policy kind = andthen (readOccupiedIdlePolicy kind) (\<lambda>_. ret ())"

section \<open>A configured host\<close>

text \<open>The registry that is there or would be created; \<open>None\<close> if reading it failed, with the issue.\<close>

definition setup_registry ::
  "'w env \<Rightarrow> 'w kinds \<Rightarrow> setup_options \<Rightarrow> host_config \<Rightarrow> ('w sys, registry option \<times> bool \<times> issue list) eff" where
  "setup_registry env kind opts hc = catching
    (andthen (readOccupiedRegistry kind) (\<lambda>v. case v of
        None \<Rightarrow> andthen (nowIso env (so_now opts)) (\<lambda>t.
          catching (andthen (check (normalizeRegistry None hc t)) (\<lambda>rg. ret (Some rg, True, [])))
            (\<lambda>e. ret (None, True, [blocked_by env ''registry''
              ''The existing broker registry is invalid and setup will not replace it automatically.'' (Some e)])))
      | Some raw \<Rightarrow>
          andthen (check (assertValidPersistedRegistry (Some raw) hc)) (\<lambda>_.
          andthen (nowIso env (so_now opts)) (\<lambda>t.
          andthen (check (normalizeRegistry (Some raw) hc t)) (\<lambda>rg. ret (Some rg, False, []))))))
    (\<lambda>e. ret (None, False, [blocked_by env ''registry''
      ''The existing broker registry is invalid and setup will not replace it automatically.'' (Some e)]))"

definition configured_device :: "inventory \<Rightarrow> host_alias \<Rightarrow> setup_device" where
  "configured_device iv h =
    (let device = map_get (createDeviceIndex iv) (ha_simulatorId h);
         deviceType = Option.bind device (\<lambda>d.
           map_get (map (\<lambda>t. (dt_identifier t, t)) (iv_deviceTypes iv)) (Some (di_deviceTypeIdentifier d)))
     in \<lparr>sd_alias = ha_alias h, sd_capabilities = ha_capabilities h, sd_deviceFamily = ha_deviceFamily h,
      sd_deviceTypeIdentifier = map_option di_deviceTypeIdentifier device,
      sd_deviceTypeName = Some (nullish (Option.bind deviceType dt_name) ''Unavailable''), sd_displayName = ha_displayName h,
      sd_resetPolicy = ha_resetPolicy h, sd_reuse = True, sd_runtimeIdentifier = map_option di_runtimeIdentifier device,
      sd_runtimeVersion = Some (ha_iosVersion h), sd_simulatorId = Some (ha_simulatorId h),
      sd_simulatorName = (case device of Some d \<Rightarrow> di_name d | None \<Rightarrow> ha_displayName h)\<rparr>)"

definition registry_health :: "registry option \<Rightarrow> string \<Rightarrow> health" where
  "registry_health rg a = (case Option.bind rg (\<lambda>r. rg_aliases r a) of Some e \<Rightarrow> re_health e | None \<Rightarrow> Healthy)"

definition alias_healthy :: "inventory \<Rightarrow> registry option \<Rightarrow> host_alias \<Rightarrow> bool" where
  "alias_healthy iv rg h \<longleftrightarrow> (case map_get (createDeviceIndex iv) (ha_simulatorId h) of
     None \<Rightarrow> False
   | Some d \<Rightarrow> di_isAvailable d \<and> iosVersionSatisfies (nullish (di_runtimeVersion d) []) (Some (ha_iosVersion h))
       \<and> di_deviceFamily d = Some (ha_deviceFamily h)
       \<and> registry_health rg (ha_alias h) \<noteq> Repair_needed \<and> registry_health rg (ha_alias h) \<noteq> Repairing)"

definition alias_issue :: "'w env \<Rightarrow> registry option \<Rightarrow> host_alias \<Rightarrow> issue" where
  "alias_issue env rg h = \<lparr>is_alias = Some (ha_alias h), is_blocked = True,
     is_commands = [setupCliCommandWithSelectedPaths (''simbroker simulators repair --alias '' @ shellQuoteArgument (ha_alias h)) (en_paths env)],
     is_details = None, is_id = ''alias-'' @ ha_alias h,
     is_summary = (if registry_health rg (ha_alias h) = Repair_needed \<or> registry_health rg (ha_alias h) = Repairing
       then ''Managed alias '' @ ha_alias h @ '' requires repair before setup can continue.''
       else ''Managed alias '' @ ha_alias h @ '' does not resolve to its configured available Simulator.'')\<rparr>"

definition host_id_issue :: "'w env \<Rightarrow> string \<Rightarrow> string \<Rightarrow> issue" where
  "host_id_issue env requested configured = \<lparr>is_alias = None, is_blocked = True,
     is_commands = [setupCliCommandWithSelectedPaths ''simbroker setup'' (en_paths env)], is_details = None, is_id = ''host-id'',
     is_summary = ''Requested host ID '' @ requested @ '' does not match the existing host '' @ configured @ ''.''\<rparr>"

definition registry_resume_issue :: issue where
  "registry_resume_issue = \<lparr>is_alias = None, is_blocked = False, is_commands = [], is_details = None, is_id = ''registry'',
     is_summary = ''The committed starter host registry will be initialized when setup resumes.''\<rparr>"

definition configured_preview :: "'w env \<Rightarrow> string \<Rightarrow> string option \<Rightarrow> host_config \<Rightarrow> setup_device list \<Rightarrow> issue list \<Rightarrow> bool \<Rightarrow> setup_preview" where
  "configured_preview env hostname requested hc devices issues resume =
    (let blocked = list_ex is_blocked issues in
     \<lparr>sv_configured = True, sv_creates = False, sv_createCount = 0, sv_devices = devices, sv_hostId = Some (hc_hostId hc),
      sv_nextSteps = (if blocked then concat (map is_commands issues)
        else if resume then [] else [''simbroker project init'', ''simbroker project validate'']),
      sv_planId = setupPlanFingerprint (en_digest env) True devices (Some hc) (Some (nullish requested (hc_hostId hc))) None,
      sv_prerequisites = issues, sv_required = False, sv_reuseCount = length devices, sv_runtime = None,
      sv_service = (if blocked then ''blocked'' else ''start''),
      sv_status = (if blocked then ''blocked'' else if resume then ''changes_required'' else ''ready'')\<rparr>)"

definition configured_issues ::
  "'w env \<Rightarrow> 'w kinds \<Rightarrow> string \<Rightarrow> setup_options \<Rightarrow> host_config \<Rightarrow> ('w sys, issue list) eff" where
  "configured_issues env kind hostname opts hc =
    (let requested = requestedSetupHostId hostname (so_hostId opts);
         i0 = (case requested of None \<Rightarrow> [] | Some h \<Rightarrow> if h \<noteq> hc_hostId hc then [host_id_issue env h (hc_hostId hc)] else []) in
     andthen (issue_if (known_projects_issue env) (check_known_projects env kind opts)) (\<lambda>i1.
     andthen (issue_if (idle_policy_issue env) (check_idle_policy kind)) (\<lambda>i2.
     andthen (issue_if (\<lambda>e. blocked_by env ''state-root''
        ''The existing capacity-transactions or evidence directory is invalid and setup will not replace it automatically.'' (Some e))
        (check_owned_directories kind)) (\<lambda>i3.
     andthen (issue_if (\<lambda>e. blocked_by env ''leases''
        ''Existing lease or pin records are invalid and setup will not replace them automatically.'' (Some e)) (check_records kind hc)) (\<lambda>i4.
       ret (i0 @ i1 @ i2 @ i3 @ i4))))))"

definition setupExistingHostState ::
  "'w env \<Rightarrow> 'w kinds \<Rightarrow> string \<Rightarrow> inventory \<Rightarrow> setup_options \<Rightarrow> ('w sys, setup_preview) eff" where
  "setupExistingHostState env kind hostname iv opts =
    (let requested = requestedSetupHostId hostname (so_hostId opts) in
     andthen (catching (andthen readHostConfigOrThrow (\<lambda>hc. ret (Inr hc)))
       (\<lambda>e. if is_broker_error e then ret (Inl e) else throw e)) (\<lambda>r. case r of
       Inl e \<Rightarrow> ret (blocked_preview (setupPlanFingerprint (en_digest env) True [] None requested None) True requested
          (blocked_by env ''host-config'' (err_message e) (Some e)))
     | Inr hc \<Rightarrow>
        andthen (configured_issues env kind hostname opts hc) (\<lambda>i4.
        andthen (setup_registry env kind opts hc) (\<lambda>(rg, missing, i5).
        let devices = map (configured_device iv) (hc_aliases hc);
            issues = i4 @ i5 @ map (alias_issue env rg) (filter (\<lambda>h. \<not> alias_healthy iv rg h) (hc_aliases hc)) in
        andthen (look (setupStateContainsLeaseOrPinRecords kind)) (\<lambda>records.
        let resume = missing \<and> issues = []
              \<and> setupHostMatchesCommittedStarterPlan (en_locale env) (en_localeNumeric env) hostname hc devices iv \<and> \<not> records in
        ret (configured_preview env hostname requested hc devices
          (issues @ (if \<not> missing then [] else if resume then [registry_resume_issue]
             else [blocked_by env ''registry'' ''The existing broker registry is missing and setup will not recreate it automatically.'' None]))
          resume))))))"

section \<open>The plan\<close>

definition plan_new_host ::
  "'w env \<Rightarrow> string \<Rightarrow> inventory \<Rightarrow> setup_options \<Rightarrow> berr + setup_preview" where
  "plan_new_host env hostname iv opts =
    seq (selectRuntimeForSetup (en_locale env) (en_localeNumeric env) iv (so_iosVersion opts)) (\<lambda>r.
    let hostId = setup_host_id hostname (so_hostId opts) in
    seq (setupDevicePlan (en_locale env) hostname iv hostId r) (\<lambda>devices.
    let summary = setupRuntimeSummary r (so_iosVersion opts); createCount = length (filter (\<lambda>d. \<not> sd_reuse d) devices) in
    Inr \<lparr>sv_configured = False, sv_creates = True, sv_createCount = createCount, sv_devices = devices, sv_hostId = Some hostId,
      sv_nextSteps = [], sv_planId = setupPlanFingerprint (en_digest env) False devices None (Some hostId) (Some summary),
      sv_prerequisites = [], sv_required = True, sv_reuseCount = length devices - createCount, sv_runtime = Some summary,
      sv_service = ''start'', sv_status = ''changes_required''\<rparr>))"

definition occupied_issue :: "'w kinds \<Rightarrow> place \<Rightarrow> (berr \<Rightarrow> issue) \<Rightarrow> ('w sys, unit) eff \<Rightarrow> ('w sys, issue list) eff" where
  "occupied_issue kind p f m = andthen (look (pathOccupied kind p)) (\<lambda>there. if there then issue_if f m else ret [])"

definition plan_without_host ::
  "'w env \<Rightarrow> 'w kinds \<Rightarrow> string \<Rightarrow> inventory \<Rightarrow> setup_options \<Rightarrow> ('w sys, setup_preview) eff" where
  "plan_without_host env kind hostname iv opts =
    andthen (look (setupStateContainsExistingBrokerArtifacts kind)) (\<lambda>artifacts.
    if artifacts then ret (blockedSetupExistingStateWithoutHost env hostname opts)
    else andthen (occupied_issue kind Known_place (known_projects_issue env) (check_known_projects env kind opts)) (\<lambda>i1. case i1 of
      i # _ \<Rightarrow> ret (blockedUnconfiguredSetupPreview env hostname opts i)
    | [] \<Rightarrow> andthen (occupied_issue kind Idle_place (idle_policy_issue env) (check_idle_policy kind)) (\<lambda>i2. case i2 of
        i # _ \<Rightarrow> ret (blockedUnconfiguredSetupPreview env hostname opts i)
      | [] \<Rightarrow> andthen (look (setupOccupiedAuditLogInvalid kind)) (\<lambda>bad.
          if bad then ret (blockedSetupInvalidEventsWithoutHost env hostname opts)
          else check (plan_new_host env hostname iv opts)))))"

definition buildSetupPlan :: "'w env \<Rightarrow> 'w kinds \<Rightarrow> string \<Rightarrow> setup_options \<Rightarrow> ('w sys, setup_preview) eff" where
  "buildSetupPlan env kind hostname opts =
    andthen (lift (sc_inventory (en_simctl env))) (\<lambda>iv.
    andthen (look (pathOccupied kind Host_place)) (\<lambda>configured.
      if configured then setupExistingHostState env kind hostname iv opts
      else plan_without_host env kind hostname iv opts))"

definition previewSetupBroker :: "'w env \<Rightarrow> 'w kinds \<Rightarrow> string \<Rightarrow> setup_options \<Rightarrow> ('w sys, setup_preview) eff" where
  "previewSetupBroker env kind hostname opts = buildSetupPlan env kind hostname opts"

section \<open>What a plan for a new host reuses\<close>

text \<open>An available simulator with the name, the runtime and the device type that were planned.\<close>

definition device_serves :: "inventory \<Rightarrow> setup_device \<Rightarrow> string \<Rightarrow> bool" where
  "device_serves iv d i \<longleftrightarrow> i \<noteq> [] \<and> (\<exists>x. map_get (createDeviceIndex iv) i = Some x \<and> di_isAvailable x \<and> di_name x = sd_simulatorName d
     \<and> Some (di_runtimeIdentifier x) = sd_runtimeIdentifier d \<and> Some (di_deviceTypeIdentifier x) = sd_deviceTypeIdentifier d)"

lemma index_id: "map_get (createDeviceIndex iv) i = Some x \<Longrightarrow> di_udid x = i"
  by (drule map_get_SomeD) (auto simp: createDeviceIndex_def)

lemma index_values: "x \<in> set (map_values (createDeviceIndex iv)) \<longleftrightarrow> map_get (createDeviceIndex iv) (di_udid x) = Some x"
proof
  assume "x \<in> set (map_values (createDeviceIndex iv))"
  then obtain k where "map_get (createDeviceIndex iv) k = Some x" by (blast dest: map_values_in)
  with index_id [OF this] show "map_get (createDeviceIndex iv) (di_udid x) = Some x" by simp
qed (rule map_values_complete)

lemma reusable_iff: "x \<in> set (reusable_devices loc iv r t name) \<longleftrightarrow> di_udid x \<noteq> [] \<and> map_get (createDeviceIndex iv) (di_udid x) = Some x
    \<and> di_isAvailable x \<and> di_name x = name \<and> di_runtimeIdentifier x = rn_identifier r \<and> Some (di_deviceTypeIdentifier x) = dt_identifier t"
  unfolding reusable_devices_def set_js_sort set_filter mem_Collect_eq index_values by blast

lemma setup_device_serves:
  assumes d_def: "d = setup_device_of loc iv r t tm"
  shows "sd_reuse d = (sd_simulatorId d \<noteq> None)" "sd_simulatorId d = Some i \<Longrightarrow> device_serves iv d i"
    "sd_reuse d = (\<exists>i. device_serves iv d i)"
proof -
  let ?f = "reusable_devices loc iv r t (tm_simulatorName tm)"
  show reuse: "sd_reuse d = (sd_simulatorId d \<noteq> None)" by (simp add: d_def setup_device_of_def Let_def split: list.splits)
  show serves: "device_serves iv d i" if "sd_simulatorId d = Some i" for i
  proof -
    from that obtain x xs where f: "?f = x # xs" "di_udid x = i" by (auto simp: d_def setup_device_of_def Let_def split: list.splits)
    then have "x \<in> set ?f" by simp
    with f(2) show ?thesis unfolding reusable_iff by (auto simp: device_serves_def d_def setup_device_of_def Let_def)
  qed
  have "?f \<noteq> []" if "device_serves iv d i" for i
  proof -
    from that obtain x where "i \<noteq> []" "map_get (createDeviceIndex iv) i = Some x" "di_isAvailable x" "di_name x = tm_simulatorName tm"
      "di_runtimeIdentifier x = rn_identifier r" "Some (di_deviceTypeIdentifier x) = dt_identifier t"
      by (auto simp: device_serves_def d_def setup_device_of_def Let_def)
    with index_id [of iv i x] have "x \<in> set ?f" unfolding reusable_iff by simp
    then show ?thesis by auto
  qed
  with reuse serves show "sd_reuse d = (\<exists>i. device_serves iv d i)" by (auto simp: d_def setup_device_of_def Let_def)
qed

lemma starter_names: "distinct (map (simulatorDisplayName h) (map fst starter_rows))"
  by (simp add: starter_rows_def simulatorDisplayName_def)

lemma distinct_map_filter_by:
  assumes "distinct (map f xs)" "\<And>x y i. x \<in> set xs \<Longrightarrow> y \<in> set xs \<Longrightarrow> g x = Some i \<Longrightarrow> g y = Some i \<Longrightarrow> f x = f y"
  shows "distinct (List.map_filter g xs)"
  using assms
proof (induction xs)
  case (Cons x xs)
  have IH: "distinct (List.map_filter g xs)" by (rule Cons.IH) (use Cons.prems in auto)
  have "i \<notin> set (List.map_filter g xs)" if "g x = Some i" for i
  proof
    assume "i \<in> set (List.map_filter g xs)"
    then obtain y where y: "y \<in> set xs" "g y = Some i" by (auto simp: List.map_filter_def)
    with Cons.prems(2) [of x y i] that have "f x = f y" by simp
    with y(1) Cons.prems(1) show False by simp
  qed
  with IH show ?case by (auto simp: List.map_filter_simps split: option.splits)
qed (simp add: List.map_filter_simps)

lemma setup_devices_ok:
  assumes "setupDevicePlan loc hostname iv hostId r = Inr ds"
  shows "map sd_alias ds = [''manual-1'', ''ui-1'', ''ui-2'', ''build-1'', ''build-2'', ''ipad-1'']
    \<and> (\<forall>d\<in>set ds. sd_reuse d = (\<exists>i. device_serves iv d i) \<and> (\<forall>i. sd_simulatorId d = Some i \<longrightarrow> device_serves iv d i)
         \<and> sd_reuse d = (sd_simulatorId d \<noteq> None))
    \<and> distinct (List.map_filter sd_simulatorId ds)"
proof -
  from assms obtain h ts pad phone where t: "buildStarterAliasTemplates hostname (Some hostId) (rn_version r) = Inr (h, ts)"
    and ds1: "ds = map (\<lambda>tm. setup_device_of loc iv r (if tm_deviceFamily tm = ''iPad'' then pad else phone) tm) ts"
    by (auto simp: setupDevicePlan_def seq_Inr_iff)
  from templates_ok [OF t] obtain v where "ts = map (starter_template h v) starter_rows" by blast
  with ds1 have ds0: "ds = map (\<lambda>tm. setup_device_of loc iv r (if tm_deviceFamily tm = ''iPad'' then pad else phone) tm) (map (starter_template h v) starter_rows)" by simp
  define dev where "dev = (\<lambda>tm. setup_device_of loc iv r (if tm_deviceFamily tm = ''iPad'' then pad else phone) tm)"
  have ds: "ds = map dev (map (starter_template h v) starter_rows)" using ds0 by (simp add: dev_def)
  have "sd_alias (dev tm) = tm_alias tm" "sd_simulatorName (dev tm) = tm_simulatorName tm" for tm
    by (simp_all add: dev_def setup_device_of_def Let_def)
  then have "map sd_alias ds = map fst starter_rows" and names: "map sd_simulatorName ds = map (simulatorDisplayName h) (map fst starter_rows)"
    unfolding ds by (auto simp: starter_template_def split: prod.splits)
  then have six: "map sd_alias ds = [''manual-1'', ''ui-1'', ''ui-2'', ''build-1'', ''build-2'', ''ipad-1'']" by (simp add: starter_rows_def)
  have each: "sd_reuse d = (\<exists>i. device_serves iv d i) \<and> (\<forall>i. sd_simulatorId d = Some i \<longrightarrow> device_serves iv d i)
      \<and> sd_reuse d = (sd_simulatorId d \<noteq> None)" if "d \<in> set ds" for d
  proof -
    from that obtain tm t where "d = setup_device_of loc iv r t tm" unfolding ds0 by force
    from setup_device_serves [OF this] show ?thesis by blast
  qed
  have same: "sd_simulatorName d = sd_simulatorName e" if "d \<in> set ds" "e \<in> set ds" "sd_simulatorId d = Some i" "sd_simulatorId e = Some i" for d e i
    using each [OF that(1)] each [OF that(2)] that(3,4) by (auto simp: device_serves_def)
  have "distinct (List.map_filter sd_simulatorId ds)"
    by (rule distinct_map_filter_by [where f = sd_simulatorName]) (use starter_names [of h] names in simp, rule same)
  with six each show ?thesis by blast
qed

section \<open>The preview\<close>

lemma keeps_stored:
  "keeps I a \<Longrightarrow> keeps I b \<Longrightarrow> keeps I c \<Longrightarrow> (\<And>v. keeps I (f v)) \<Longrightarrow> keeps I (case v of Missing \<Rightarrow> a | Not_json \<Rightarrow> b | Unreadable \<Rightarrow> c | Stored v \<Rightarrow> f v)"
  by (cases v) auto

lemmas plan_keeps = keeps_struct keeps_readHostConfig

lemma keeps_setup_plan: 
  assumes "keeps I (lift (sc_inventory (en_simctl env)))" "\<And>now. keeps I (nowIso env now)"
  shows "keeps I (buildSetupPlan env kind hostname opts)"
proof -
  have read: "keeps I (readOccupiedJsonFile kind p c msg)" for p c msg
    unfolding readOccupiedJsonFile_def by (intro plan_keeps assms)
  have known: "keeps I (check_known_projects env kind opts)"
    unfolding check_known_projects_def readOccupiedKnownProjects_def by (intro plan_keeps read assms)
  have idle: "keeps I (check_idle_policy kind)"
    unfolding check_idle_policy_def readOccupiedIdlePolicy_def readIdlePolicy_def by (intro plan_keeps keeps_stored assms)
  have issue: "keeps I (issue_if f m)" if "keeps I m" for f m
    unfolding issue_if_def using that by (intro plan_keeps assms)
  have existing: "keeps I (setupExistingHostState env kind hostname iv opts)" for iv
    unfolding setupExistingHostState_def configured_issues_def setup_registry_def check_owned_directories_def check_records_def
      readOccupiedRegistry_def Let_def by (intro plan_keeps read known idle issue assms)
  have vacant: "keeps I (plan_without_host env kind hostname iv opts)" for iv
    unfolding plan_without_host_def occupied_issue_def by (intro plan_keeps known idle issue assms)
  show ?thesis unfolding buildSetupPlan_def by (intro plan_keeps existing vacant assms)
qed

text \<open>A plan that is neither for a configured host nor blocked is one for a new host, which nothing occupies.\<close>

lemma new_host_plan:
  assumes "buildSetupPlan env kind hostname opts s = (Inr p, s')" "\<not> sv_configured p" "sv_status p \<noteq> ''blocked''"
  shows "\<exists>iv w. sc_inventory (en_simctl env) (sy_world s) = (Inr iv, w) \<and> plan_new_host env hostname iv opts = Inr p
    \<and> \<not> pathOccupied kind Host_place (s\<lparr>sy_world := w\<rparr>) \<and> \<not> setupStateContainsExistingBrokerArtifacts kind (s\<lparr>sy_world := w\<rparr>)"
proof -
  have blocked: "sv_status (blocked_preview i c h is) = ''blocked''" "sv_configured (blocked_preview i c h is) = c" for i c h "is"
    by (simp_all add: blocked_preview_def)
  from assms(1) obtain iv w where iv: "sc_inventory (en_simctl env) (sy_world s) = (Inr iv, w)"
    and run: "(if pathOccupied kind Host_place (s\<lparr>sy_world := w\<rparr>) then setupExistingHostState env kind hostname iv opts
      else plan_without_host env kind hostname iv opts) (s\<lparr>sy_world := w\<rparr>) = (Inr p, s')"
    unfolding buildSetupPlan_def by (auto simp: lift_def run_andthen run_simps split: prod.splits sum.splits)
  have free: "\<not> pathOccupied kind Host_place (s\<lparr>sy_world := w\<rparr>)"
  proof
    assume "pathOccupied kind Host_place (s\<lparr>sy_world := w\<rparr>)"
    with run have "setupExistingHostState env kind hostname iv opts (s\<lparr>sy_world := w\<rparr>) = (Inr p, s')" by simp
    then have "sv_configured p" unfolding setupExistingHostState_def
      by (auto simp: run_simps blocked configured_preview_def Let_def elim!: andthen_InrE split: sum.splits prod.splits)
    with assms(2) show False ..
  qed
  with run have "plan_without_host env kind hostname iv opts (s\<lparr>sy_world := w\<rparr>) = (Inr p, s')" by simp
  then have "plan_new_host env hostname iv opts = Inr p \<and> \<not> setupStateContainsExistingBrokerArtifacts kind (s\<lparr>sy_world := w\<rparr>)"
    using assms(3) unfolding plan_without_host_def
    by (auto simp: run_simps blocked blockedSetupExistingStateWithoutHost_def blockedUnconfiguredSetupPreview_def
        blockedSetupInvalidEventsWithoutHost_def Let_def elim!: andthen_InrE split: if_splits list.splits)
  with iv free show ?thesis by blast
qed

lemma plan_new_host_ok:
  assumes "plan_new_host env hostname iv opts = Inr p"
  shows "map sd_alias (sv_devices p) = [''manual-1'', ''ui-1'', ''ui-2'', ''build-1'', ''build-2'', ''ipad-1'']
    \<and> (\<forall>d\<in>set (sv_devices p). sd_reuse d = (\<exists>i. device_serves iv d i) \<and> (\<forall>i. sd_simulatorId d = Some i \<longrightarrow> device_serves iv d i)
         \<and> sd_reuse d = (sd_simulatorId d \<noteq> None))
    \<and> distinct (List.map_filter sd_simulatorId (sv_devices p))"
    "\<not> sv_configured p \<and> sv_creates p \<and> sv_createCount p = length (filter (\<lambda>d. \<not> sd_reuse d) (sv_devices p)) \<and> sv_reuseCount p = length (filter sd_reuse (sv_devices p))"
proof -
  from assms obtain r ds where ds: "setupDevicePlan (en_locale env) hostname iv (setup_host_id hostname (so_hostId opts)) r = Inr ds" "ds = sv_devices p"
    unfolding plan_new_host_def by (auto simp: seq_Inr_iff Let_def)
  show "map sd_alias (sv_devices p) = [''manual-1'', ''ui-1'', ''ui-2'', ''build-1'', ''build-2'', ''ipad-1'']
    \<and> (\<forall>d\<in>set (sv_devices p). sd_reuse d = (\<exists>i. device_serves iv d i) \<and> (\<forall>i. sd_simulatorId d = Some i \<longrightarrow> device_serves iv d i)
         \<and> sd_reuse d = (sd_simulatorId d \<noteq> None))
    \<and> distinct (List.map_filter sd_simulatorId (sv_devices p))"
    unfolding ds(2) [symmetric] by (rule setup_devices_ok [OF ds(1)])
  have "length ds - length (filter (\<lambda>d. \<not> sd_reuse d) ds) = length (filter sd_reuse ds)" for ds
    using sum_length_filter_compl [of sd_reuse ds] by simp
  with assms show "\<not> sv_configured p \<and> sv_creates p \<and> sv_createCount p = length (filter (\<lambda>d. \<not> sd_reuse d) (sv_devices p))
      \<and> sv_reuseCount p = length (filter sd_reuse (sv_devices p))"
    unfolding plan_new_host_def by (auto simp: seq_Inr_iff Let_def)
qed

text \<open>C20: a setup is only planned as a new host where no host configuration, registry, lease or pin is; the plan has the
  six aliases; a simulator is reused exactly if an available one has the planned name, runtime and device type,
  it is such a one, and none is reused twice; the counts are right; and the preview changes no file.\<close>

theorem setup_preview_is_sound:
  assumes "previewSetupBroker env kind hostname opts s = (Inr p, s')" "\<not> sv_configured p" "sv_status p \<noteq> ''blocked''"
  shows "\<exists>iv w. sc_inventory (en_simctl env) (sy_world s) = (Inr iv, w)
    \<and> \<not> pathOccupied kind Host_place (s\<lparr>sy_world := w\<rparr>) \<and> \<not> pathOccupied kind Registry_place (s\<lparr>sy_world := w\<rparr>) \<and> sy_leases s = [] \<and> sy_pins s = []
    \<and> map sd_alias (sv_devices p) = [''manual-1'', ''ui-1'', ''ui-2'', ''build-1'', ''build-2'', ''ipad-1'']
    \<and> (\<forall>d\<in>set (sv_devices p). sd_reuse d = (\<exists>i. device_serves iv d i) \<and> (\<forall>i. sd_simulatorId d = Some i \<longrightarrow> device_serves iv d i))
    \<and> distinct (List.map_filter sd_simulatorId (sv_devices p))
    \<and> sv_createCount p = length (filter (\<lambda>d. \<not> sd_reuse d) (sv_devices p)) \<and> sv_reuseCount p = length (filter sd_reuse (sv_devices p))
    \<and> (\<exists>w'. s' = s\<lparr>sy_world := w'\<rparr>)"
proof -
  note run = assms(1) [unfolded previewSetupBroker_def]
  from new_host_plan [OF run assms(2,3)] obtain iv w where iv: "sc_inventory (en_simctl env) (sy_world s) = (Inr iv, w)"
    "plan_new_host env hostname iv opts = Inr p" "\<not> pathOccupied kind Host_place (s\<lparr>sy_world := w\<rparr>)"
    "\<not> setupStateContainsExistingBrokerArtifacts kind (s\<lparr>sy_world := w\<rparr>)" by blast
  have "of_files (\<lambda>x. \<exists>w'. x = s\<lparr>sy_world := w'\<rparr>)" by (rule of_filesI) auto
  from keepsD [OF keeps_setup_plan [OF keeps_lift [OF this] keeps_nowIso [OF this]] _ run] have "\<exists>w'. s' = s\<lparr>sy_world := w'\<rparr>" by (metis sys.surjective sys.update_convs(11))
  with iv plan_new_host_ok [OF iv(2)] show ?thesis
    by (intro exI [of _ iv] exI [of _ w]) (simp add: setupStateContainsExistingBrokerArtifacts_def setupStateContainsLeaseOrPinRecords_def)
qed

text \<open>A host whose second simulator is there already, and a host that has been configured.\<close>

definition setup_ipad :: device_type where
  "setup_ipad = \<lparr>dt_identifier = Some ''type.iPad'', dt_name = Some ''iPad'', dt_productFamily = Some ''iPad''\<rparr>"

definition setup_runtime_both :: runtime where
  "setup_runtime_both = sample_runtime\<lparr>rn_supported := [sample_iphone, setup_ipad], rn_buildVersion := Some ''22C150''\<rparr>"

definition setup_inventory :: inventory where
  "setup_inventory = \<lparr>iv_devices = [(''runtime.iOS-18-2'', [\<lparr>dv_deviceTypeIdentifier = ''type.iPhone-16'', dv_isAvailable = True,
      dv_name = simulatorDisplayName ''mac'' ''ui-1'', dv_productFamily = None, dv_state = None, dv_udid = ''SIM-1''\<rparr>])],
     iv_deviceTypes = [sample_iphone, setup_ipad], iv_runtimes = [setup_runtime_both]\<rparr>"

definition setup_env :: "unit env" where
  "setup_env = plain_env\<lparr>en_simctl := plain_simctl\<lparr>sc_inventory := ret setup_inventory\<rparr>\<rparr>"

definition plain_setup :: setup_options where
  "plain_setup = \<lparr>so_now = None, so_hostId = None, so_iosVersion = None, so_confirmPlanId = None, so_setupAttemptId = None,
     so_termWaitMs = None, so_skipLeaseIds = [], so_inventory = None\<rparr>"

definition file_kinds :: "'w kinds" where
  "file_kinds p s = (case p of
     Host_place \<Rightarrow> if sy_host s = None then Vacant else Regular_file True
   | Registry_place \<Rightarrow> if sy_registry s = None then Vacant else Regular_file True
   | Known_place \<Rightarrow> if sy_projects s = None then Vacant else Regular_file True
   | Idle_place \<Rightarrow> if sy_idle s = Missing then Vacant else Regular_file True
   | Events_place \<Rightarrow> Regular_file True
   | _ \<Rightarrow> Directory)"

lemma setup_preview_is_sound_witness:
  "\<exists>p s'. previewSetupBroker setup_env file_kinds ''Mac'' plain_setup ((plain_sys [] [])\<lparr>sy_host := None\<rparr>) = (Inr p, s')
    \<and> map sd_reuse (sv_devices p) = [False, True, False, False, False, False] \<and> sv_reuseCount p = 1"
proof -
  let ?run = "previewSetupBroker setup_env file_kinds ''Mac'' plain_setup ((plain_sys [] [])\<lparr>sy_host := None\<rparr>)"
  have "case fst ?run of Inr p \<Rightarrow> \<not> sv_configured p \<and> sv_status p \<noteq> ''blocked'' \<and> map sd_reuse (sv_devices p) = [False, True, False, False, False, False] | Inl e \<Rightarrow> False" by code_simp
  then obtain p s' where run: "?run = (Inr p, s')" "\<not> sv_configured p" "sv_status p \<noteq> ''blocked''"
    and reuse: "map sd_reuse (sv_devices p) = [False, True, False, False, False, False]"
    by (cases ?run) (auto split: sum.splits)
  from setup_preview_is_sound [OF run] have "sv_reuseCount p = length (filter sd_reuse (sv_devices p))" by blast
  then have "sv_reuseCount p = length (filter id (map sd_reuse (sv_devices p)))" by (simp add: filter_map comp_def)
  with run reuse show ?thesis by simp
qed

end
