(* ===== verification/Setup_Apply.thy ===== *)
theory Setup_Apply
  imports Setup_Plan Capacity_Rollback Deletion
begin

text \<open>
  Applying the plan of a setup (\<open>rollbackCreatedSimulators\<close>, \<open>setupCancellationError\<close> to \<open>applySetupBroker\<close>
  in \<open>broker-core/index.mjs\<close>): the simulators are created under temporary names, renamed, and committed with the
  host configuration; a failure before the commit deletes what was created.  The signal that cancels a setup
  is a question \<open>cancel\<close> to the world.  What the code adds to the payload of the error is the rest of \<open>Failed\<close>.
\<close>

section \<open>Rollback\<close>

record rollback_failure =
  rf_error :: berr
  rf_operation :: string
  rf_simulatorId :: "string option"

definition setup_leftovers :: "string list \<Rightarrow> string list \<Rightarrow> (string \<times> device_info) list \<Rightarrow> string list" where
  "setup_leftovers baseline names ix =
    map di_udid (filter (\<lambda>d. di_udid d \<notin> set baseline \<and> di_name d \<in> set names) (map_values ix))"

definition find_leftovers ::
  "'w env \<Rightarrow> string list \<Rightarrow> string list \<Rightarrow> ('w sys, string list \<times> rollback_failure list) eff" where
  "find_leftovers env baseline names = catching
     (andthen (readSimulatorDeviceIndex env) (\<lambda>ix. ret (setup_leftovers baseline names ix, [])))
     (\<lambda>e. ret ([], [\<lparr>rf_error = e, rf_operation = ''inventory'', rf_simulatorId = None\<rparr>]))"

definition delete_created :: "'w env \<Rightarrow> string \<Rightarrow> rollback_failure list \<Rightarrow> ('w sys, rollback_failure list) eff" where
  "delete_created env i failures = catching
     (andthen (lift (sc_delete (en_simctl env) i)) (\<lambda>_. ret failures))
     (\<lambda>e. ret (failures @ [\<lparr>rf_error = e, rf_operation = ''delete'', rf_simulatorId = Some i\<rparr>]))"

definition rollbackCreatedSimulators ::
  "'w env \<Rightarrow> string list \<Rightarrow> string list \<Rightarrow> string list \<Rightarrow> ('w sys, rollback_failure list) eff" where
  "rollbackCreatedSimulators env created baseline names =
    andthen (find_leftovers env baseline names) (\<lambda>(found, failures).
      fold_eff (delete_created env) (rev (uniq (created @ found))) failures)"

section \<open>Creating the devices\<close>

record setup_progress =
  sg_created :: "string list"
  sg_ids :: "(string \<times> string) list"
  sg_names :: "string list"
  sg_committed :: bool

type_synonym 'w setup_sys = "'w sys \<times> setup_progress"

definition setupCancellationError :: berr where
  "setupCancellationError = broker_err ''Setup was interrupted.'' ''setup-interrupted''"

definition throwIfSetupCancelled :: "('w \<Rightarrow> bool \<times> 'w) \<Rightarrow> ('w sys, unit) eff" where
  "throwIfSetupCancelled cancel = andthen (ask cancel) (\<lambda>c. if c then throw setupCancellationError else ret ())"

definition temporary_name :: "string \<Rightarrow> setup_device \<Rightarrow> string" where
  "temporary_name attemptId d = sd_simulatorName d @ '' [setup '' @ attemptId @ '' '' @ sd_alias d @ '']''"

text \<open>The simulators that a failed creation left behind.\<close>

definition attributable ::
  "string list \<Rightarrow> string \<Rightarrow> setup_device \<Rightarrow> (string \<times> device_info) list \<Rightarrow> string list" where
  "attributable baseline name d ix = map di_udid (filter (\<lambda>x. di_udid x \<notin> set baseline \<and> di_name x = name
     \<and> Some (di_runtimeIdentifier x) = sd_runtimeIdentifier d \<and> Some (di_deviceTypeIdentifier x) = sd_deviceTypeIdentifier d) (map_values ix))"

definition create_setup_device ::
  "'w env \<Rightarrow> string list \<Rightarrow> string \<Rightarrow> setup_device \<Rightarrow> ('w setup_sys, unit) eff" where
  "create_setup_device env baseline name d =
    andthen (catching (outer (lift (sc_create (en_simctl env) name (nullish (sd_deviceTypeIdentifier d) []) (nullish (sd_runtimeIdentifier d) []))))
      (\<lambda>e. andthen (outer (readSimulatorDeviceIndex env)) (\<lambda>ix.
        andthen (assign (\<lambda>g. g\<lparr>sg_created := sg_created g @ attributable baseline name d ix\<rparr>)) (\<lambda>_. throw e)))) (\<lambda>i.
    andthen (assign (\<lambda>g. g\<lparr>sg_created := sg_created g @ [i]\<rparr>)) (\<lambda>_.
    andthen (outer (lift (sc_rename (en_simctl env) i (sd_simulatorName d)))) (\<lambda>_.
      assign (\<lambda>g. g\<lparr>sg_ids := sg_ids g @ [(sd_alias d, i)]\<rparr>))))"

definition setup_one_device ::
  "'w env \<Rightarrow> ('w \<Rightarrow> bool \<times> 'w) \<Rightarrow> string list \<Rightarrow> string \<Rightarrow> setup_device \<Rightarrow> unit \<Rightarrow> ('w setup_sys, unit) eff" where
  "setup_one_device env cancel baseline attemptId d = (\<lambda>_.
    andthen (outer (throwIfSetupCancelled cancel)) (\<lambda>_.
    if sd_reuse d then assign (\<lambda>g. g\<lparr>sg_ids := sg_ids g @ [(sd_alias d, nullish (sd_simulatorId d) [])]\<rparr>)
    else andthen (assign (\<lambda>g. g\<lparr>sg_names := uniq (sg_names g @ [temporary_name attemptId d])\<rparr>)) (\<lambda>_.
      create_setup_device env baseline (temporary_name attemptId d) d)))"

definition setupHostConfigFromPlan :: "setup_preview \<Rightarrow> (string \<times> string) list \<Rightarrow> host_config" where
  "setupHostConfigFromPlan p ids = \<lparr>hc_aliases = map (\<lambda>d. \<lparr>ha_alias = sd_alias d, ha_capabilities = sd_capabilities d,
       ha_deviceFamily = sd_deviceFamily d, ha_displayName = sd_displayName d, ha_iosVersion = nullish (sd_runtimeVersion d) [],
       ha_resetPolicy = sd_resetPolicy d, ha_simulatorId = nullish (map_get ids (sd_alias d)) []\<rparr>) (sv_devices p),
     hc_hostId = nullish (sv_hostId p) [], hc_pendingRetirements = [], hc_slotReclaim = None\<rparr>"

record setup_result =
  st_identity :: "string \<times> (string \<times> string) list"
  st_created :: nat
  st_reused :: nat
  st_hostCreated :: bool
  st_planId :: string

definition setupCommittedHostIdentity :: "host_config \<Rightarrow> string \<times> (string \<times> string) list" where
  "setupCommittedHostIdentity hc = (hc_hostId hc, map (\<lambda>h. (ha_alias h, ha_simulatorId h)) (hc_aliases hc))"

section \<open>The host\<close>

text \<open>The write keeps in mind whether the file was in place when it failed.\<close>

definition commit_setup_host :: "'w env \<Rightarrow> setup_preview \<Rightarrow> ('w setup_sys, unit) eff" where
  "commit_setup_host env p =
    andthen (look (\<lambda>(s, g). setupHostConfigFromPlan p (sg_ids g))) (\<lambda>hc.
    andthen (outer (writeJsonAtomicDurable env hc)) (\<lambda>w. case w of
        Durable \<Rightarrow> assign (\<lambda>g. g\<lparr>sg_committed := True\<rparr>)
      | Not_durable msg there \<Rightarrow> andthen (assign (\<lambda>g. g\<lparr>sg_committed := sg_committed g \<or> there\<rparr>)) (\<lambda>_. throw (HostError msg))))"

definition setup_load_options :: "setup_options \<Rightarrow> berr + load_options" where
  "setup_load_options opts = stateLoadOptions (so_termWaitMs opts) (so_skipLeaseIds opts) (so_inventory opts) (so_now opts)"

definition install_devices ::
  "'w env \<Rightarrow> ('w \<Rightarrow> bool \<times> 'w) \<Rightarrow> setup_options \<Rightarrow> setup_preview \<Rightarrow> string list \<Rightarrow> string \<Rightarrow> string \<Rightarrow> ('w setup_sys, setup_result) eff" where
  "install_devices env cancel opts p baseline attemptId timestamp =
    andthen (fold_eff (setup_one_device env cancel baseline attemptId) (sv_devices p) ()) (\<lambda>_.
    andthen (outer (throwIfSetupCancelled cancel)) (\<lambda>_.
    andthen (commit_setup_host env p) (\<lambda>_.
    andthen (outer (check (setup_load_options opts))) (\<lambda>lo.
    andthen (outer (loadBrokerState env lo timestamp)) (\<lambda>st.
    andthen (outer (appendEventRecord env (event_of ''host.initialized'' None None None None None
        [hc_hostId (bs_host st), nat_text (length (hc_aliases (bs_host st))), sv_planId p] timestamp))) (\<lambda>_.
    andthen (look snd) (\<lambda>g.
      ret \<lparr>st_identity = setupCommittedHostIdentity (bs_host st), st_created = length (sg_created g),
        st_reused = length (sv_devices p) - length (sg_created g), st_hostCreated = True, st_planId = sv_planId p\<rparr>)))))))"

text \<open>The end of a setup: the result, or the error with the failures of the rollback and whether the host was
  committed, which the code adds to the payload of the error.\<close>

datatype setup_end = Set_up setup_result | Failed berr "rollback_failure list" bool

definition rollback_setup :: "'w env \<Rightarrow> string list \<Rightarrow> berr \<Rightarrow> ('w setup_sys, setup_end) eff" where
  "rollback_setup env baseline e =
    andthen (look (\<lambda>(s, g). (sg_committed g \<or> sy_host s \<noteq> None, g))) (\<lambda>(committed, g).
      if committed then ret (Failed e [] True)
      else andthen (outer (rollbackCreatedSimulators env (sg_created g) baseline (sg_names g))) (\<lambda>failures.
        ret (Failed e failures False)))"

definition create_setup_host ::
  "'w env \<Rightarrow> ('w \<Rightarrow> bool \<times> 'w) \<Rightarrow> setup_options \<Rightarrow> setup_preview \<Rightarrow> string \<Rightarrow> ('w sys, setup_end) eff" where
  "create_setup_host env cancel opts p timestamp =
    andthen (readSimulatorDeviceIndex env) (\<lambda>ix.
    let baseline = map fst ix in
    andthen (case so_setupAttemptId opts of Some i \<Rightarrow> ret i | None \<Rightarrow> ask (en_uuid env)) (\<lambda>attemptId.
      with_var \<lparr>sg_created = [], sg_ids = [], sg_names = [], sg_committed = False\<rparr>
        (catching (andthen (install_devices env cancel opts p baseline attemptId timestamp) (\<lambda>r. ret (Set_up r)))
          (rollback_setup env baseline))))"

definition setup_confirmed :: "setup_options \<Rightarrow> setup_preview \<Rightarrow> berr + unit" where
  "setup_confirmed opts p = (case given (so_confirmPlanId opts) of
      None \<Rightarrow> Inl (broker_err ''Setup requires confirmation of the current plan.'' ''setup-confirmation-required'')
    | Some i \<Rightarrow>
        if i \<noteq> sv_planId p then Inl (broker_err ''The setup plan changed. Preview it again before applying.'' ''setup-plan-stale'')
        else if sv_status p = ''blocked'' then Inl (broker_err ''Setup is blocked by the current host configuration.'' ''setup-prerequisite-failed'')
        else Inr ())"

definition keep_setup_host :: "'w env \<Rightarrow> setup_options \<Rightarrow> setup_preview \<Rightarrow> string \<Rightarrow> ('w sys, setup_end) eff" where
  "keep_setup_host env opts p timestamp =
    andthen (check (setup_load_options opts)) (\<lambda>lo.
    andthen (loadBrokerState env lo timestamp) (\<lambda>st.
      ret (Set_up \<lparr>st_identity = setupCommittedHostIdentity (bs_host st), st_created = 0, st_reused = length (hc_aliases (bs_host st)),
        st_hostCreated = False, st_planId = sv_planId p\<rparr>)))"

definition applySetupBroker ::
  "'w env \<Rightarrow> 'w kinds \<Rightarrow> ('w \<Rightarrow> bool \<times> 'w) \<Rightarrow> string \<Rightarrow> setup_options \<Rightarrow> ('w sys, setup_end) eff" where
  "applySetupBroker env kind cancel hostname opts =
    andthen (nowIso env (so_now opts)) (\<lambda>_.
    with_lock env Capacity_lock (with_lock env Lease_lock (
      andthen (nowIso env (so_now opts)) (\<lambda>timestamp.
      andthen (buildSetupPlan env kind hostname opts) (\<lambda>p.
      andthen (check (setup_confirmed opts p)) (\<lambda>_.
        if sv_configured p then keep_setup_host env opts p timestamp
        else create_setup_host env cancel opts p timestamp))))))"

section \<open>The host configuration\<close>

lemmas host_keeps = keeps_struct keeps_outer keeps_lift keeps_ask keeps_nowIso keeps_readHostConfig host_of_files

text \<open>An alias of the configuration and the planned device it stands for.\<close>

definition installed :: "setup_device \<Rightarrow> host_alias \<Rightarrow> bool" where
  "installed d h \<longleftrightarrow> ha_alias h = sd_alias d \<and> ha_capabilities h = sd_capabilities d \<and> ha_deviceFamily h = sd_deviceFamily d
     \<and> ha_displayName h = sd_displayName d \<and> Some (ha_iosVersion h) = Some (nullish (sd_runtimeVersion d) [])
     \<and> ha_resetPolicy h = sd_resetPolicy d \<and> (sd_reuse d \<longrightarrow> sd_simulatorId d = Some (ha_simulatorId h))"

definition got_id :: "setup_device \<Rightarrow> string \<times> string \<Rightarrow> bool" where
  "got_id d e \<longleftrightarrow> fst e = sd_alias d \<and> (sd_reuse d \<longrightarrow> snd e = nullish (sd_simulatorId d) [])"

lemma got_id_get:
  assumes "list_all2 got_id ds ids" "distinct (map sd_alias ds)" "d \<in> set ds" "sd_reuse d"
  shows "map_get ids (sd_alias d) = Some (nullish (sd_simulatorId d) [])"
proof -
  have "map fst ids = map sd_alias ds" using assms(1) by (induction rule: list_all2_induct) (auto simp: got_id_def)
  with assms(2) have "distinct (map fst (rev ids))" by (simp add: rev_map [symmetric])
  moreover have "\<exists>e\<in>set ids. got_id d e" using assms(1,3) by (induction rule: list_all2_induct) auto
  with assms(4) have "(sd_alias d, nullish (sd_simulatorId d) []) \<in> set (rev ids)" by (auto simp: got_id_def prod_eq_iff)
  ultimately show ?thesis unfolding map_get_def by simp
qed

lemma setup_ids_step:
  assumes "setup_one_device env cancel baseline attemptId d u (s, g) = (Inr u', (s', g'))"
  shows "\<exists>i. sg_ids g' = sg_ids g @ [(sd_alias d, i)] \<and> got_id d (sd_alias d, i)"
proof (cases "sd_reuse d")
  case True
  with assms show ?thesis
    by (auto simp: setup_one_device_def got_id_def run_assign outer_eq elim!: andthen_InrE)
next
  case False
  with assms have "\<exists>i. sg_ids g' = sg_ids g @ [(sd_alias d, i)]"
    by (auto simp: setup_one_device_def create_setup_device_def run_assign outer_eq run_catching run_andthen run_simps run_outer
        elim!: andthen_InrE split: prod.splits sum.splits)
  with False show ?thesis by (auto simp: got_id_def)
qed

lemma setup_ids:
  assumes "fold_eff (setup_one_device env cancel baseline attemptId) ds () (s, g) = (Inr u, (s', g'))" "sg_ids g = []"
  shows "list_all2 got_id ds (sg_ids g')"
proof -
  let ?J = "\<lambda>rest (u :: unit) (x :: 'a setup_sys). \<exists>before. ds = before @ rest \<and> list_all2 got_id before (sg_ids (snd x))"
  have "?J [] u (s', g')"
  proof (rule fold_eff_rest [where J = ?J, OF assms(1)])
    fix d R u1 x u2 x'
    assume J: "?J (d # R) u1 x" and run: "setup_one_device env cancel baseline attemptId d u1 x = (Inr u2, x')"
    then obtain before where b: "ds = before @ d # R" "list_all2 got_id before (sg_ids (snd x))" by blast
    obtain s1 g1 s2 g2 where x: "x = (s1, g1)" "x' = (s2, g2)" by fastforce
    from setup_ids_step [OF run [unfolded x]] b(2) have "list_all2 got_id (before @ [d]) (sg_ids g2)"
      by (auto simp: x intro: list_all2_appendI)
    with b(1) x show "?J R u2 x'" by (intro exI [of _ "before @ [d]"]) simp
  qed (simp add: assms(2))
  then show ?thesis by simp
qed

text \<open>What the configuration holds when the commit of the host has been reached.\<close>

definition planned_host :: "setup_preview \<Rightarrow> js option \<Rightarrow> bool" where
  "planned_host p h \<longleftrightarrow> (\<exists>hc. h = Some (host_config_json hc) \<and> hc_hostId hc = nullish (sv_hostId p) []
     \<and> list_all2 installed (sv_devices p) (hc_aliases hc) \<and> hc_pendingRetirements hc = [] \<and> hc_slotReclaim hc = None)"

lemma planned_host_ok:
  assumes "list_all2 got_id (sv_devices p) ids" "distinct (map sd_alias (sv_devices p))"
    "\<And>d. d \<in> set (sv_devices p) \<Longrightarrow> sd_reuse d \<Longrightarrow> sd_simulatorId d \<noteq> None"
  shows "planned_host p (Some (host_config_json (setupHostConfigFromPlan p ids)))"
proof -
  have each: "sd_simulatorId d = Some (nullish (map_get ids (sd_alias d)) [])" if "d \<in> set (sv_devices p)" "sd_reuse d" for d
    using got_id_get [OF assms(1,2) that] assms(3) [OF that] by (auto simp: nullish_def)
  have "list_all2 installed (sv_devices p) (hc_aliases (setupHostConfigFromPlan p ids))"
    unfolding setupHostConfigFromPlan_def using each by (auto simp: list_all2_map2 list_all2_same installed_def)
  then show ?thesis
    unfolding planned_host_def by (intro exI [of _ "setupHostConfigFromPlan p ids"]) (simp add: setupHostConfigFromPlan_def)
qed

lemma keeps_host_devices: "keeps (\<lambda>x. P (sy_host (fst x))) (fold_eff (setup_one_device env cancel baseline attemptId) ds u)"
proof -
  have a: "keeps (\<lambda>x. P (sy_host (fst x))) (assign f)" for f :: "setup_progress \<Rightarrow> setup_progress"
    by (rule keeps_assign) simp
  show ?thesis
    unfolding setup_one_device_def create_setup_device_def throwIfSetupCancelled_def readSimulatorDeviceIndex_def
    by (intro keeps_fold keeps_struct a keeps_outer; (simp; intro host_keeps)?)
qed

lemma commit_host_outcome:
  assumes "commit_setup_host env p (s, g) = (r, (s', g'))"
  shows "(sy_host s' = sy_host s \<or> sy_host s' = Some (host_config_json (setupHostConfigFromPlan p (sg_ids g))))
    \<and> (r = Inr u \<longrightarrow> sy_host s' = Some (host_config_json (setupHostConfigFromPlan p (sg_ids g))) \<and> sg_committed g')"
  using assms
  by (auto simp: commit_setup_host_def writeJsonAtomicDurable_def ask_def run_andthen run_simps run_outer run_assign
      split: prod.splits sum.splits io_outcome.splits durable.splits)

end
