(* ===== verification/Setup_Host.thy ===== *)
theory Setup_Host
  imports Setup_Apply
begin

text \<open>
  What a setup does to the host configuration: nothing, or what the plan that was confirmed says.
\<close>

lemma keeps_host_outer: "keeps (\<lambda>s. P (sy_host s)) m \<Longrightarrow> keeps (\<lambda>x. P (sy_host (fst x))) (outer m)"
  by (rule keeps_outer) simp

lemma keeps_host_load: "keeps (\<lambda>s. P (sy_host s)) (loadBrokerState env opts t)"
  by (rule keeps_load_side) (rule lease_side_files [where P = "\<lambda>p h i. P h"])

lemma setup_created:
  assumes "fold_eff (setup_one_device env cancel baseline attemptId) ds () (s, g) = (Inr u, (s', g'))" "sg_created g = []"
  shows "length (sg_created g') = length (filter (\<lambda>d. \<not> sd_reuse d) ds)"
proof -
  let ?n = "\<lambda>ds :: setup_device list. length (filter (\<lambda>d. \<not> sd_reuse d) ds)"
  let ?J = "\<lambda>rest (u :: unit) (x :: 'a setup_sys). length (sg_created (snd x)) + ?n rest = ?n ds"
  have "?J [] u (s', g')"
  proof (rule fold_eff_rest [where J = ?J, OF assms(1)])
    fix d R u1 u2 and x x' :: "'a setup_sys"
    assume "?J (d # R) u1 x" "setup_one_device env cancel baseline attemptId d u1 x = (Inr u2, x')"
    then show "?J R u2 x'"
      by (cases x; cases x') (auto simp: setup_one_device_def create_setup_device_def run_assign outer_eq run_catching run_andthen run_simps run_outer
        elim!: andthen_InrE split: prod.splits sum.splits if_splits)
  qed (simp add: assms(2))
  then show ?thesis by simp
qed

lemma triple_host:
  assumes "\<And>P. keeps (\<lambda>s. P (sy_host s)) m" "\<And>x. J (sy_host (fst x)) (snd x) \<Longrightarrow> E x"
  shows "triple (\<lambda>x. J (sy_host (fst x)) (snd x)) (outer m) (\<lambda>_ x. J (sy_host (fst x)) (snd x)) (\<lambda>_. E)"
proof -
  have "J (sy_host (fst x')) (snd x')" if "J (sy_host (fst x)) (snd x)" "outer m x = (r, x')" for x r x'
    using that keepsD [OF assms(1) [of "\<lambda>h. J h (snd x)"]] by (cases x) (auto simp: run_outer split: prod.splits)
  with assms(2) show ?thesis by (auto simp: triple_def split: prod.splits sum.splits)
qed

text \<open>A host that the broker accepts, with what the result of the setup says of it.\<close>

definition accepted_host :: "setup_result \<Rightarrow> js option \<Rightarrow> bool" where
  "accepted_host res h \<longleftrightarrow> (\<exists>v hc. h = Some v \<and> validateHostConfig (Some v) = Inr hc \<and> st_identity res = setupCommittedHostIdentity hc)"

lemma install_host:
  assumes "distinct (map sd_alias (sv_devices p))" "\<And>d. d \<in> set (sv_devices p) \<Longrightarrow> sd_reuse d \<Longrightarrow> sd_simulatorId d \<noteq> None"
  shows "triple (\<lambda>x. sy_host (fst x) = h \<and> sg_ids (snd x) = [] \<and> sg_created (snd x) = []) (install_devices env cancel opts p baseline attemptId ts)
    (\<lambda>res x. planned_host p (sy_host (fst x)) \<and> accepted_host res (sy_host (fst x)) \<and> st_planId res = sv_planId p \<and> st_hostCreated res
       \<and> st_created res = length (filter (\<lambda>d. \<not> sd_reuse d) (sv_devices p)) \<and> st_reused res = length (filter sd_reuse (sv_devices p)))
    (\<lambda>_ x. sy_host (fst x) = h \<or> planned_host p (sy_host (fst x)))"
    (is "triple ?P _ ?Q ?E")
proof -
  let ?n = "length (filter (\<lambda>d. \<not> sd_reuse d) (sv_devices p))"
  let ?R1 = "\<lambda>(u :: unit) (x :: 'a setup_sys). sy_host (fst x) = h \<and> list_all2 got_id (sv_devices p) (sg_ids (snd x)) \<and> length (sg_created (snd x)) = ?n"
  let ?R2 = "\<lambda>x :: 'a setup_sys. planned_host p (sy_host (fst x)) \<and> length (sg_created (snd x)) = ?n"
  let ?R3 = "\<lambda>(st :: broker_state) x. ?R2 x \<and> (\<exists>v. sy_host (fst x) = Some v \<and> validateHostConfig (Some v) = Inr (bs_host st))"
  have fold: "triple ?P (fold_eff (setup_one_device env cancel baseline attemptId) (sv_devices p) ()) ?R1 ?E"
  proof (rule tripleI)
    fix x u x' assume P: "?P x" and run: "fold_eff (setup_one_device env cancel baseline attemptId) (sv_devices p) () x = (Inr u, x')"
    obtain s g s' g' where x: "x = (s, g)" "x' = (s', g')" by (cases x; cases x')
    from run [unfolded x] P setup_ids [of env cancel baseline attemptId "sv_devices p" s g u s' g'] setup_created [of env cancel baseline attemptId "sv_devices p" s g u s' g']
      keepsD [OF keeps_host_devices [of "\<lambda>y. y = h"], of x env cancel baseline attemptId "sv_devices p" "()"]
    show "?R1 u x'" using run by (auto simp: x)
  next
    fix x e x' assume P: "?P x" and run: "fold_eff (setup_one_device env cancel baseline attemptId) (sv_devices p) () x = (Inl e, x')"
    from keepsD [OF keeps_host_devices [of "\<lambda>y. y = h"] _ run] P show "?E e x'" by simp
  qed
  have cancelled: "keeps (\<lambda>s. P (sy_host s)) (throwIfSetupCancelled cancel)" for P :: "js option \<Rightarrow> bool"
    unfolding throwIfSetupCancelled_def by (intro host_keeps)
  have commit: "triple (?R1 u) (commit_setup_host env p) (\<lambda>_. ?R2) ?E" for u :: unit
  proof (rule tripleI)
    fix x v x' assume R: "?R1 u x" and run: "commit_setup_host env p x = (Inr v, x')"
    obtain s g s' g' where x: "x = (s, g)" "x' = (s', g')" by (cases x; cases x')
    have "sg_created g' = sg_created g" using run unfolding x
      by (auto simp: commit_setup_host_def run_andthen run_simps run_outer run_assign split: prod.splits sum.splits durable.splits)
    with R run planned_host_ok [OF _ assms, of "sg_ids g"] commit_host_outcome [of env p s g "Inr v" s' g' v] show "?R2 x'" by (simp add: x)
  next
    fix x e x' assume R: "?R1 u x" and run: "commit_setup_host env p x = (Inl e, x')"
    obtain s g s' g' where x: "x = (s, g)" "x' = (s', g')" by (cases x; cases x')
    from R run planned_host_ok [OF _ assms, of "sg_ids g"] commit_host_outcome [of env p s g "Inl e" s' g'] show "?E e x'" by (auto simp: x)
  qed
  have load: "triple ?R2 (outer (loadBrokerState env lo ts)) ?R3 ?E" for lo
  proof (rule tripleI)
    fix x st x' assume R: "?R2 x" and run: "outer (loadBrokerState env lo ts) x = (Inr st, x')"
    obtain s g s' where x: "x = (s, g)" "x' = (s', g)" "loadBrokerState env lo ts s = (Inr st, s')"
      using run by (cases x) (auto simp: run_outer split: prod.splits)
    from x(3) obtain v where "sy_host s = Some v" "validateHostConfig (Some v) = Inr (bs_host st)"
      by (rule loadBrokerState_steps) (auto simp: state_of_def)
    with keepsD [OF keeps_host_load [of "\<lambda>y. y = sy_host s"] _ x(3)] R show "?R3 st x'" by (auto simp: x)
  next
    fix x e x' assume R: "?R2 x" and run: "outer (loadBrokerState env lo ts) x = (Inl e, x')"
    from keepsD [OF keeps_host_outer [OF keeps_host_load [of "planned_host p"]] _ run] R show "?E e x'" by simp
  qed
  have total: "length (sv_devices p) - ?n = length (filter sd_reuse (sv_devices p))"
    using sum_length_filter_compl [of sd_reuse "sv_devices p"] by simp
  show ?thesis unfolding install_devices_def
    apply (rule triple_andthen [OF fold], rule triple_andthen [where R = "\<lambda>_. ?R1 ()"])
     apply (rule triple_host [where J = "\<lambda>y g. y = h \<and> list_all2 got_id (sv_devices p) (sg_ids g) \<and> length (sg_created g) = ?n"]; (rule cancelled | simp))
    apply (rule triple_andthen [OF commit], rule triple_andthen [where R = "\<lambda>_. ?R2"])
     apply (rule triple_host [where J = "\<lambda>y g. planned_host p y \<and> length (sg_created g) = ?n"]; (intro keeps_basic | simp))
    apply (rule triple_andthen [OF load])
    subgoal for _ _ _ _ st
      apply (rule triple_andthen [where R = "\<lambda>_. ?R3 st"])
       apply (rule triple_host [where J = "\<lambda>y g. (planned_host p y \<and> length (sg_created g) = ?n) \<and> (\<exists>v. y = Some v \<and> validateHostConfig (Some v) = Inr (bs_host st))"];
          (rule keeps_host_io | simp))
      apply (rule triple_andthen [where R = "\<lambda>g x. ?R3 st x \<and> g = snd x"], rule triple_look, simp)
      apply (rule triple_ret, auto simp: accepted_host_def total)
      done
    done
qed

text \<open>The preview that is computed again under the locks.\<close>

lemma apply_setup_run:
  assumes "applySetupBroker env kind cancel hostname opts s = (r, s')"
  shows "(\<exists>e w. r = Inl e \<and> s' = s\<lparr>sy_world := w\<rparr>)
    \<or> (\<exists>t w w1 w2 p r2 s2. buildSetupPlan env kind hostname opts (s\<lparr>sy_world := w\<rparr>) = (Inr p, s\<lparr>sy_world := w1\<rparr>)
        \<and> so_confirmPlanId opts = Some (sv_planId p) \<and> sv_status p \<noteq> ''blocked''
        \<and> (if sv_configured p then keep_setup_host env opts p t else create_setup_host env cancel opts p t) (s\<lparr>sy_world := w1\<rparr>) = (r2, s2)
        \<and> s' = s2\<lparr>sy_world := w2\<rparr> \<and> (\<forall>x. r = Inr x \<longrightarrow> r2 = Inr x))"
proof -
  from both_locks_run [OF assms [unfolded applySetupBroker_def]] consider "\<exists>e w. r = Inl e \<and> s' = s\<lparr>sy_world := w\<rparr>"
    | t w w2 r2 s2 where "andthen (buildSetupPlan env kind hostname opts) (\<lambda>p. andthen (check (setup_confirmed opts p)) (\<lambda>_.
          if sv_configured p then keep_setup_host env opts p t else create_setup_host env cancel opts p t)) (s\<lparr>sy_world := w\<rparr>) = (r2, s2)"
        "s' = s2\<lparr>sy_world := w2\<rparr>" "\<forall>x. r = Inr x \<longrightarrow> r2 = Inr x" by blast
  then show ?thesis
  proof cases
    case 2
    let ?J = "\<lambda>x. \<exists>w'. x = s\<lparr>sy_world := w'\<rparr>"
    have files: "of_files ?J" by (rule of_filesI) auto
    obtain q s1 where plan: "buildSetupPlan env kind hostname opts (s\<lparr>sy_world := w\<rparr>) = (q, s1)" by fastforce
    from keepsD [OF keeps_setup_plan [OF keeps_lift [OF files] keeps_nowIso [OF files]] _ plan] obtain w1 where s1: "s1 = s\<lparr>sy_world := w1\<rparr>" by blast
    have early: ?thesis if "r2 = Inl e" "s2 = s\<lparr>sy_world := w1\<rparr>" for e
      using that 2(2,3) by (cases r) auto
    show ?thesis
    proof (cases q)
      case (Inl e)
      with 2(1) plan s1 have "r2 = Inl e" "s2 = s\<lparr>sy_world := w1\<rparr>" by (auto simp: run_andthen)
      then show ?thesis by (rule early)
    next
      case (Inr p)
      show ?thesis
      proof (cases "setup_confirmed opts p")
        case (Inl e)
        with 2(1) plan s1 \<open>q = Inr p\<close> have "r2 = Inl e" "s2 = s\<lparr>sy_world := w1\<rparr>" by (auto simp: run_andthen run_simps)
        then show ?thesis by (rule early)
      next
        case (Inr u)
        then have "so_confirmPlanId opts = Some (sv_planId p)" "sv_status p \<noteq> ''blocked''"
          by (auto simp: setup_confirmed_def given_def split: option.splits if_splits)
        moreover from Inr 2(1) plan s1 \<open>q = Inr p\<close>
        have "(if sv_configured p then keep_setup_host env opts p t else create_setup_host env cancel opts p t) (s\<lparr>sy_world := w1\<rparr>) = (r2, s2)"
          by (simp add: run_andthen run_simps)
        ultimately show ?thesis using plan [unfolded \<open>q = Inr p\<close> s1] 2(2,3) by blast
      qed
    qed
  qed blast
qed

lemma keep_host_run:
  assumes "keep_setup_host env opts p t s = (r, s')"
  shows "sy_host s' = sy_host s \<and> (\<forall>x. r = Inr x \<longrightarrow> (\<exists>res. x = Set_up res \<and> accepted_host res (sy_host s') \<and> st_planId res = sv_planId p
      \<and> \<not> st_hostCreated res \<and> st_created res = 0 \<and> st_reused res = length (snd (st_identity res))))"
proof -
  have "keeps (\<lambda>x. sy_host x = sy_host s) (keep_setup_host env opts p t)"
    unfolding keep_setup_host_def by (intro keeps_andthen keeps_basic keeps_host_load)
  from keepsD [OF this _ assms] have same: "sy_host s' = sy_host s" by simp
  have "\<exists>res. x = Set_up res \<and> accepted_host res (sy_host s') \<and> st_planId res = sv_planId p \<and> \<not> st_hostCreated res \<and> st_created res = 0
      \<and> st_reused res = length (snd (st_identity res))" if "r = Inr x" for x
  proof -
    from assms that obtain lo st where load: "loadBrokerState env lo t s = (Inr st, s')"
      and x: "x = Set_up \<lparr>st_identity = setupCommittedHostIdentity (bs_host st), st_created = 0, st_reused = length (hc_aliases (bs_host st)),
        st_hostCreated = False, st_planId = sv_planId p\<rparr>"
      by (auto simp: keep_setup_host_def run_simps elim!: andthen_InrE)
    from load obtain v where "sy_host s = Some v" "validateHostConfig (Some v) = Inr (bs_host st)"
      by (rule loadBrokerState_steps) (auto simp: state_of_def)
    with x same show ?thesis by (auto simp: accepted_host_def setupCommittedHostIdentity_def)
  qed
  with same show ?thesis by blast
qed

lemma rollback_keeps_host: "keeps (\<lambda>x. P (sy_host (fst x))) (rollback_setup env baseline e)"
proof -
  have "keeps (\<lambda>s. P (sy_host s)) (rollbackCreatedSimulators env c b n)" for c b n
    unfolding rollbackCreatedSimulators_def find_leftovers_def delete_created_def readSimulatorDeviceIndex_def
    by (intro host_keeps keeps_fold)
  then show ?thesis unfolding rollback_setup_def by (intro keeps_struct keeps_host_outer)
qed

lemma create_host_run:
  assumes "create_setup_host env cancel opts p t s = (r, s')"
    and "distinct (map sd_alias (sv_devices p))" "\<And>d. d \<in> set (sv_devices p) \<Longrightarrow> sd_reuse d \<Longrightarrow> sd_simulatorId d \<noteq> None"
  shows "(sy_host s' = sy_host s \<or> planned_host p (sy_host s')) \<and> (\<forall>res. r = Inr (Set_up res) \<longrightarrow> planned_host p (sy_host s')
    \<and> accepted_host res (sy_host s') \<and> st_planId res = sv_planId p \<and> st_hostCreated res
    \<and> st_created res = length (filter (\<lambda>d. \<not> sd_reuse d) (sv_devices p)) \<and> st_reused res = length (filter sd_reuse (sv_devices p)))"
    (is "?host s' \<and> (\<forall>res. r = Inr (Set_up res) \<longrightarrow> ?Q res s')")
proof -
  let ?R = "\<lambda>r s'. ?host s' \<and> (\<forall>res. r = Inr (Set_up res) \<longrightarrow> ?Q res s')"
  let ?g = "\<lparr>sg_created = [], sg_ids = [], sg_names = [], sg_committed = False\<rparr>"
  have body: "?R r s'" if run: "with_var ?g (catching (andthen (install_devices env cancel opts p b a t) (\<lambda>r. ret (Set_up r))) (rollback_setup env b)) s1 = (r, s')"
    and same: "sy_host s1 = sy_host s" for b a s1
  proof -
    obtain q x where q: "install_devices env cancel opts p b a t (s1, ?g) = (q, x)" by (metis surj_pair)
    note T = tripleD [OF install_host [OF assms(2,3), of "sy_host s" env cancel opts b a t], of "(s1, ?g)", simplified, OF same]
    show ?thesis
    proof (cases q)
      case (Inr res)
      with T(1) q [unfolded Inr] run show ?thesis by (cases x) (auto simp: with_var_def run_catching run_andthen run_simps)
    next
      case (Inl e)
      with q run obtain x' where rb: "rollback_setup env b e x = (r, x')" "s' = fst x'"
        by (auto simp: with_var_def run_catching run_andthen split: prod.splits)
      from T(2) q [unfolded Inl] have "?host (fst x)" by (cases x) simp
      with keepsD [OF rollback_keeps_host [of "\<lambda>h. h = sy_host s \<or> planned_host p h"] _ rb(1)] rb(2) have "?host s'" by simp
      moreover have "r \<noteq> Inr (Set_up res)" for res
        using rb(1) by (cases x) (auto simp: rollback_setup_def run_andthen run_simps run_outer split: prod.splits sum.splits if_splits)
      ultimately show ?thesis by blast
    qed
  qed
  have index: "keeps (\<lambda>x. sy_host x = sy_host s) (readSimulatorDeviceIndex env)"
    unfolding readSimulatorDeviceIndex_def by (intro host_keeps)
  have attempt: "keeps (\<lambda>x. sy_host x = sy_host s) (case so_setupAttemptId opts of Some i \<Rightarrow> ret i | None \<Rightarrow> ask (en_uuid env))"
    by (intro host_keeps)
  from andthen_run [OF assms(1) [unfolded create_setup_host_def Let_def]] show ?thesis
  proof (elim disjE exE conjE)
    fix e assume e: "readSimulatorDeviceIndex env s = (Inl e, s')" "r = Inl e"
    from keepsD [OF index refl e(1)] e(2) show ?thesis by simp
  next
    fix ix s1 assume ix: "readSimulatorDeviceIndex env s = (Inr ix, s1)"
      and rest: "andthen (case so_setupAttemptId opts of Some i \<Rightarrow> ret i | None \<Rightarrow> ask (en_uuid env)) (\<lambda>a. with_var ?g
         (catching (andthen (install_devices env cancel opts p (map fst ix) a t) (\<lambda>r. ret (Set_up r))) (rollback_setup env (map fst ix)))) s1 = (r, s')"
    have s1: "sy_host s1 = sy_host s" using keepsD [OF index _ ix] by simp
    from andthen_run [OF rest] show ?thesis
    proof (elim disjE exE conjE)
      fix e assume e: "(case so_setupAttemptId opts of Some i \<Rightarrow> ret i | None \<Rightarrow> ask (en_uuid env)) s1 = (Inl e, s')" "r = Inl e"
      from keepsD [OF attempt s1 e(1)] e(2) show ?thesis by simp
    next
      fix a s2 assume a: "(case so_setupAttemptId opts of Some i \<Rightarrow> ret i | None \<Rightarrow> ask (en_uuid env)) s1 = (Inr a, s2)"
        and run: "with_var ?g (catching (andthen (install_devices env cancel opts p (map fst ix) a t) (\<lambda>r. ret (Set_up r)))
          (rollback_setup env (map fst ix))) s2 = (r, s')"
      from body [OF run] keepsD [OF attempt s1 a] show ?thesis by blast
    qed
  qed
qed

text \<open>What the plan of a new host has.\<close>

lemma new_plan_devices:
  assumes "buildSetupPlan env kind hostname opts s = (Inr p, s')" "\<not> sv_configured p" "sv_status p \<noteq> ''blocked''"
  shows "distinct (map sd_alias (sv_devices p))" "\<And>d. d \<in> set (sv_devices p) \<Longrightarrow> sd_reuse d \<Longrightarrow> sd_simulatorId d \<noteq> None"
    "length (sv_devices p) = 6"
proof -
  from new_host_plan [OF assms] obtain iv where "plan_new_host env hostname iv opts = Inr p" by blast
  note ok = plan_new_host_ok(1) [OF this]
  then show "distinct (map sd_alias (sv_devices p))" by simp
  from ok have "length (map sd_alias (sv_devices p)) = 6" by simp
  then show "length (sv_devices p) = 6" by simp
  show "sd_simulatorId d \<noteq> None" if "d \<in> set (sv_devices p)" "sd_reuse d" for d using ok that by blast
qed

text \<open>C17: a setup leaves the host configuration as it was, or it writes one exactly as planned: under the locks the plan
  was computed again and its id is the confirmed one, it was not blocked, nothing was at the place of the configuration, and the aliases
  are those of the plan, with the simulators it said it would reuse.\<close>

theorem setup_writes_only_the_confirmed_plan:
  assumes "applySetupBroker env kind cancel hostname opts s = (r, s')" "sy_host s' \<noteq> sy_host s"
  shows "\<exists>p w w1 w2. buildSetupPlan env kind hostname opts (s\<lparr>sy_world := w\<rparr>) = (Inr p, s\<lparr>sy_world := w1\<rparr>)
    \<and> so_confirmPlanId opts = Some (sv_planId p) \<and> sv_status p \<noteq> ''blocked'' \<and> \<not> pathOccupied kind Host_place (s\<lparr>sy_world := w2\<rparr>)
    \<and> length (sv_devices p) = 6 \<and> planned_host p (sy_host s')"
proof -
  from apply_setup_run [OF assms(1)] assms(2) obtain t w w1 w2 p r2 s2
    where p: "buildSetupPlan env kind hostname opts (s\<lparr>sy_world := w\<rparr>) = (Inr p, s\<lparr>sy_world := w1\<rparr>)"
      "so_confirmPlanId opts = Some (sv_planId p)" "sv_status p \<noteq> ''blocked''"
    and run: "(if sv_configured p then keep_setup_host env opts p t else create_setup_host env cancel opts p t) (s\<lparr>sy_world := w1\<rparr>) = (r2, s2)"
    and s': "s' = s2\<lparr>sy_world := w2\<rparr>" by auto
  have new: "\<not> sv_configured p" using keep_host_run [of env opts p t "s\<lparr>sy_world := w1\<rparr>" r2 s2] run assms(2) s' by auto
  note dev = new_plan_devices [OF p(1) new p(3)]
  from create_host_run [OF _ dev(1,2), of env cancel opts t "s\<lparr>sy_world := w1\<rparr>" r2 s2] run new assms(2) s' have "planned_host p (sy_host s')" by auto
  moreover from new_host_plan [OF p(1) new p(3)] obtain w3 where "\<not> pathOccupied kind Host_place (s\<lparr>sy_world := w3\<rparr>)" by auto
  ultimately show ?thesis using p dev(3) by blast
qed

text \<open>C19: a setup that succeeds ends with a host configuration on disk that the broker accepts, it reports the identity of that host and
  the plan that was confirmed, and its counts are those of the six planned simulators, or of the aliases of a host that was there.\<close>

theorem setup_ends_with_an_accepted_host:
  assumes "applySetupBroker env kind cancel hostname opts s = (Inr (Set_up res), s')"
  shows "accepted_host res (sy_host s') \<and> so_confirmPlanId opts = Some (st_planId res)
    \<and> (if st_hostCreated res then st_created res + st_reused res = 6
       else sy_host s' = sy_host s \<and> st_created res = 0 \<and> st_reused res = length (snd (st_identity res)))"
proof -
  from apply_setup_run [OF assms] obtain t w w1 w2 p s2
    where p: "buildSetupPlan env kind hostname opts (s\<lparr>sy_world := w\<rparr>) = (Inr p, s\<lparr>sy_world := w1\<rparr>)"
      "so_confirmPlanId opts = Some (sv_planId p)" "sv_status p \<noteq> ''blocked''"
    and run: "(if sv_configured p then keep_setup_host env opts p t else create_setup_host env cancel opts p t) (s\<lparr>sy_world := w1\<rparr>) = (Inr (Set_up res), s2)"
    and s': "s' = s2\<lparr>sy_world := w2\<rparr>" by auto
  show ?thesis
  proof (cases "sv_configured p")
    case True
    with keep_host_run [of env opts p t "s\<lparr>sy_world := w1\<rparr>" "Inr (Set_up res)" s2] run s' p(2) show ?thesis by auto
  next
    case False
    note dev = new_plan_devices [OF p(1) False p(3)]
    from create_host_run [OF _ dev(1,2), of env cancel opts t "s\<lparr>sy_world := w1\<rparr>" "Inr (Set_up res)" s2] run False s' p(2) dev(3)
      sum_length_filter_compl [of sd_reuse "sv_devices p"] show ?thesis by auto
  qed
qed

end
