(* ===== verification/Setup_Safety.thy ===== *)
theory Setup_Safety
  imports Setup_Host
begin

text \<open>
  A setup that fails before the host is committed leaves no simulator behind.  What it relies on of \<open>simctl\<close>
  and of the world around it is the locale \<open>setup_simulators\<close>, which holds for the adapter of the tests.
\<close>

section \<open>What the rollback relies on\<close>

lemma triple_locked_world:
  assumes "keeps P (lift (en_lock env k))" "triple P m Q (\<lambda>_ _. True)" "\<And>x. keeps (Q x) (lift (en_unlock env k))"
  shows "triple P (with_lock env k m) Q (\<lambda>_ _. True)"
proof (rule tripleI)
  fix s x s' assume P: "P s" and run: "with_lock env k m s = (Inr x, s')"
  then obtain u s1 where lock: "lift (en_lock env k) s = (Inr u, s1)" and work: "finally_do m (lift (en_unlock env k)) s1 = (Inr x, s')"
    unfolding with_lock_def by (auto elim: andthen_InrE)
  then obtain s2 u2 where m: "m s1 = (Inr x, s2)" "lift (en_unlock env k) s2 = (Inr u2, s')"
    by (auto simp: finally_do_def split: prod.splits sum.splits)
  from keepsD [OF assms(1) P lock] tripleD(1) [OF assms(2) _ m(1)] keepsD [OF assms(3) _ m(2)] show "Q x s'" by blast
qed simp

locale setup_simulators = broker_simulators env ok devs
  for env :: "'w env" and ok :: "'w \<Rightarrow> bool" and devs :: "'w \<Rightarrow> string \<rightharpoonup> string \<times> string \<times> string" +
  fixes cancel :: "'w \<Rightarrow> bool \<times> 'w"
  assumes world: "world_keeps (\<lambda>w. ok w \<and> devs w = D) env"
    and cancel_devs: "ok w \<Longrightarrow> cancel w = (b, w') \<Longrightarrow> ok w' \<and> devs w' = devs w"
    and renamed: "ok w \<Longrightarrow> sc_rename (en_simctl env) i n w = (z, w') \<Longrightarrow>
        ok w' \<and> (\<forall>j. j \<noteq> i \<longrightarrow> devs w' j = devs w j) \<and> (devs w' i = None \<longleftrightarrow> devs w i = None)"
    and delete_done: "ok w \<Longrightarrow> sc_delete (en_simctl env) i w = (Inr u, w') \<Longrightarrow> devs w' i = None"
begin

lemma keeps_devs_world:
  "keeps (devs_are D) (lift (sc_inventory (en_simctl env)))" "keeps (devs_are D) (nowIso env now)"
  "keeps (devs_are D) (lift (en_lock env k))" "keeps (devs_are D) (lift (en_unlock env k))" "keeps (devs_are D) (throwIfSetupCancelled cancel)"
proof -
  note w = world_keepsD [OF world [of D]]
  have d: "devs_are D = (\<lambda>s. ok (sy_world s) \<and> devs (sy_world s) = D)" by (simp add: fun_eq_iff devs_are_def)
  show "keeps (devs_are D) (lift (sc_inventory (en_simctl env)))" "keeps (devs_are D) (lift (en_lock env k))" "keeps (devs_are D) (lift (en_unlock env k))"
    unfolding d by (rule keeps_lift_world [OF w(7)] keeps_lift_world [OF w(4)] keeps_lift_world [OF w(5)])+
  show "keeps (devs_are D) (nowIso env now)" unfolding d nowIso_def by (intro keeps_option keeps_basic w(1))
  show "keeps (devs_are D) (throwIfSetupCancelled cancel)" unfolding d throwIfSetupCancelled_def
    by (intro keeps_struct) (auto simp: keeps_def ask_def dest: cancel_devs split: prod.splits)
qed

lemma keeps_devs_index: "keeps (devs_are D) (readSimulatorDeviceIndex env)"
  unfolding readSimulatorDeviceIndex_def by (intro keeps_andthen keeps_devs_world keeps_basic)

lemma index_lists:
  assumes "devs_are D s" "readSimulatorDeviceIndex env s = (Inr ix, s')"
  shows "set (map fst ix) = dom D" "i \<in> set (setup_leftovers baseline names ix) \<longleftrightarrow> i \<notin> set baseline \<and> (\<exists>m. D i = Some m \<and> fst m \<in> set names)"
proof -
  from assms obtain iv where iv: "ix = createDeviceIndex iv" "indexed_devices iv = D"
    unfolding readSimulatorDeviceIndex_def devs_are_def
    by (auto simp: lift_def run_andthen run_simps dest: listed split: prod.splits sum.splits)
  have "j \<in> set (map fst ix) \<longleftrightarrow> D j \<noteq> None" for j
    unfolding iv(2) [symmetric] iv(1) indexed_devices_def by (simp add: map_get_def map_of_eq_None_iff)
  then show "set (map fst ix) = dom D" by blast
  show "i \<in> set (setup_leftovers baseline names ix) \<longleftrightarrow> i \<notin> set baseline \<and> (\<exists>m. D i = Some m \<and> fst m \<in> set names)"
    unfolding iv(2) [symmetric] iv(1) setup_leftovers_def indexed_devices_def using map_values_index [of iv]
    by (auto simp: image_iff dest: map_get_SomeD index_udid)
qed

section \<open>While the simulators are created\<close>

text \<open>A simulator that was not there before is known to have been created, or has one of the temporary names.\<close>

definition accounted :: "(string \<rightharpoonup> string \<times> string \<times> string) \<Rightarrow> 'w setup_sys \<Rightarrow> bool" where
  "accounted D x \<longleftrightarrow> (\<exists>D'. devs_are D' (fst x) \<and> (\<forall>i\<in>set (sg_created (snd x)). D i = None)
     \<and> (\<forall>i. D' i \<noteq> D i \<longrightarrow> D i = None \<and> (i \<in> set (sg_created (snd x)) \<or> (\<exists>m. D' i = Some m \<and> fst m \<in> set (sg_names (snd x))))))"

lemma accounted_assign: "(\<And>g. sg_created (f g) = sg_created g \<and> set (sg_names g) \<subseteq> set (sg_names (f g))) \<Longrightarrow> keeps (accounted D) (assign f)"
  by (rule keeps_assign) (auto simp: accounted_def, blast)

lemma accounted_world:
  "devs_are D' s \<Longrightarrow> devs_are D' s' \<Longrightarrow> sg_created g' = sg_created g \<Longrightarrow> sg_names g' = sg_names g \<Longrightarrow> accounted D (s, g) \<Longrightarrow> accounted D (s', g')"
  by (auto simp: accounted_def devs_are_def)

lemma accounted_outer:
  assumes "\<And>D'. keeps (devs_are D') m"
  shows "keeps (accounted D) (outer m)"
proof (rule keeps_outer)
  fix v
  have "accounted D (snd (m s), v)" if acc: "accounted D (s, v)" for s
  proof -
    from acc obtain D' where d: "devs_are D' s" by (auto simp: accounted_def)
    from keepsD [OF assms d, of "fst (m s)" "snd (m s)"] have "devs_are D' (snd (m s))" by simp
    from accounted_world [OF d this refl refl acc] show ?thesis .
  qed
  then show "keeps (\<lambda>s. accounted D (s, v)) m" by (simp add: keeps_def)
qed

lemma create_accounted:
  assumes base: "set baseline = dom D"
    and acc: "accounted D (s, g)" "name \<in> set (sg_names g)" and run: "create_setup_device env baseline name d (s, g) = (r, x)"
  shows "accounted D x"
proof -
  from acc(1) obtain D1 where D1: "devs_are D1 s" "\<forall>i\<in>set (sg_created g). D i = None"
    "\<And>i. D1 i \<noteq> D i \<Longrightarrow> D i = None \<and> (i \<in> set (sg_created g) \<or> (\<exists>m. D1 i = Some m \<and> fst m \<in> set (sg_names g)))"
    by (auto simp: accounted_def)
  let ?t = "nullish (sd_deviceTypeIdentifier d) []" and ?r = "nullish (sd_runtimeIdentifier d) []"
  let ?m = "(name, ?t, ?r)"
  obtain c w1 where c: "sc_create (en_simctl env) name ?t ?r (sy_world s) = (c, w1)" by fastforce
  let ?s1 = "s\<lparr>sy_world := w1\<rparr>"
  have fresh: "D i = None" if "D1 i = None" for i using D1(3) [of i] that by fastforce
  show ?thesis
  proof (cases c)
    case (Inr i)
    let ?g1 = "g\<lparr>sg_created := sg_created g @ [i]\<rparr>"
    from created [OF _ c [unfolded Inr]] D1(1) have w1: "ok w1" "D1 i = None" "devs w1 = D1(i \<mapsto> ?m)" by (auto simp: devs_are_def)
    obtain z w2 where z: "sc_rename (en_simctl env) i (sd_simulatorName d) w1 = (z, w2)" by fastforce
    from renamed [OF w1(1) z] w1(3) have w2: "ok w2" "\<And>j. j \<noteq> i \<Longrightarrow> devs w2 j = D1 j" by auto
    have x: "fst x = s\<lparr>sy_world := w2\<rparr>" "sg_created (snd x) = sg_created g @ [i]" "sg_names (snd x) = sg_names g"
      using run c Inr z
      by (cases z; auto simp: create_setup_device_def run_catching run_andthen run_simps run_outer run_assign lift_def)+
    have "devs_are (devs w2) (fst x)" by (simp add: devs_are_def w2(1) x(1))
    moreover have "\<forall>j\<in>set (sg_created (snd x)). D j = None" using D1(2) fresh [OF w1(2)] x(2) by simp
    moreover have "D j = None \<and> (j \<in> set (sg_created (snd x)) \<or> (\<exists>m. devs w2 j = Some m \<and> fst m \<in> set (sg_names (snd x))))"
      if "devs w2 j \<noteq> D j" for j
      using that w2(2) [of j] D1(3) [of j] fresh [OF w1(2)] x(2,3) by (cases "j = i") auto
    ultimately show ?thesis unfolding accounted_def by blast
  next
    case (Inl e)
    from create_failed [OF _ c [unfolded Inl]] D1(1) have ok1: "ok w1"
      and D2: "devs w1 = D1 \<or> (\<exists>i. D1 i = None \<and> devs w1 = D1(i \<mapsto> ?m))" by (auto simp: devs_are_def)
    have acc2: "D j = None \<and> (j \<in> set (sg_created g) \<or> (\<exists>m. devs w1 j = Some m \<and> fst m \<in> set (sg_names g)))" if "devs w1 j \<noteq> D j" for j
      using D2
    proof (elim disjE exE conjE)
      assume "devs w1 = D1"
      with D1(3) that show ?thesis by simp
    next
      fix i assume i: "D1 i = None" "devs w1 = D1(i \<mapsto> ?m)"
      with D1(3) [of j] that fresh acc(2) show ?thesis by (cases "j = i") auto
    qed
    obtain q s2 where q: "readSimulatorDeviceIndex env ?s1 = (q, s2)" by fastforce
    have s2: "devs_are (devs w1) s2" using keepsD [OF keeps_devs_index _ q] ok1 by (simp add: devs_are_def)
    have x: "fst x = s2" "sg_names (snd x) = sg_names g" "sg_created (snd x) = sg_created g
        \<or> (\<exists>ix. sg_created (snd x) = sg_created g @ attributable baseline name d ix)"
      using run c Inl q
      by (cases q; auto simp: create_setup_device_def run_catching run_andthen run_simps run_outer run_assign lift_def)+
    have "D j = None" if "j \<in> set (attributable baseline name d ix)" for j ix
    proof -
      from that have "j \<notin> set baseline" by (auto simp: attributable_def)
      with base show ?thesis by (metis domIff)
    qed
    with x(3) D1(2) have "\<forall>j\<in>set (sg_created (snd x)). D j = None" "set (sg_created g) \<subseteq> set (sg_created (snd x))" by auto
    moreover from this(2) acc2 have "D j = None \<and> (j \<in> set (sg_created (snd x)) \<or> (\<exists>m. devs w1 j = Some m \<and> fst m \<in> set (sg_names (snd x))))"
      if "devs w1 j \<noteq> D j" for j unfolding x(2) using that by blast
    ultimately show ?thesis using s2 unfolding accounted_def x(1) by blast
  qed
qed

lemma devices_accounted:
  assumes "set baseline = dom D"
  shows "keeps (accounted D) (fold_eff (setup_one_device env cancel baseline attemptId) ds u)"
proof (rule keeps_fold)
  fix d v
  let ?name = "temporary_name attemptId d" and ?A = "\<lambda>x. accounted D x"
  have make1: "accounted D (snd (andthen (assign (\<lambda>g. g\<lparr>sg_names := uniq (sg_names g @ [?name])\<rparr>)) (\<lambda>_. create_setup_device env baseline ?name d) x))"
    if "accounted D x" for x
  proof -
    obtain s g where x: "x = (s, g)" by fastforce
    let ?g = "g\<lparr>sg_names := uniq (sg_names g @ [?name])\<rparr>"
    have "keeps (accounted D) (assign (\<lambda>g. g\<lparr>sg_names := uniq (sg_names g @ [?name])\<rparr>))" by (rule accounted_assign) auto
    with that have "accounted D (s, ?g)" by (auto simp: keeps_def run_assign x)
    moreover have "?name \<in> set (sg_names ?g)" by simp
    ultimately show ?thesis using create_accounted [OF assms, of s ?g ?name d]
      by (cases "create_setup_device env baseline ?name d (s, ?g)") (simp add: x andthen_assign)
  qed
  then have make: "keeps ?A (andthen (assign (\<lambda>g. g\<lparr>sg_names := uniq (sg_names g @ [?name])\<rparr>)) (\<lambda>_. create_setup_device env baseline ?name d))"
    by (simp add: keeps_def)
  show "keeps ?A (setup_one_device env cancel baseline attemptId d v)"
    unfolding setup_one_device_def
    by (intro keeps_andthen [OF accounted_outer [OF keeps_devs_world(5)]] keeps_If make accounted_assign) simp_all
qed

lemma install_accounted:
  assumes "set baseline = dom D"
  shows "triple (accounted D) (install_devices env cancel opts p baseline attemptId ts) (\<lambda>_ _. True) (\<lambda>_ x. accounted D x \<or> sg_committed (snd x))"
    (is "triple _ _ _ ?E")
proof -
  have commit: "triple (accounted D) (commit_setup_host env p) (\<lambda>_ x. sg_committed (snd x)) ?E"
  proof (rule tripleI)
    fix x u x' assume "commit_setup_host env p x = (Inr u, x')"
    then show "sg_committed (snd x')"
      by (cases x) (auto simp: commit_setup_host_def run_andthen run_simps run_outer run_assign split: prod.splits sum.splits durable.splits)
  next
    fix x e x' assume acc: "accounted D x" and run: "commit_setup_host env p x = (Inl e, x')"
    obtain s g where x: "x = (s, g)" by fastforce
    have io: "keeps (devs_are D') (writeJsonAtomicDurable env hc)" for D' hc
      unfolding writeJsonAtomicDurable_def
      by (intro keeps_andthen keeps_devs_io keeps_io_outcome keeps_basic keeps_update) (simp_all add: devs_are_def)
    from run x obtain s' q where "writeJsonAtomicDurable env (setupHostConfigFromPlan p (sg_ids g)) s = (q, s')" and x': "fst x' = s'"
      "sg_committed (snd x') \<or> sg_created (snd x') = sg_created g \<and> sg_names (snd x') = sg_names g"
      by (auto simp: commit_setup_host_def run_andthen run_simps run_outer run_assign split: prod.splits sum.splits durable.splits)
    moreover from acc obtain D' where "devs_are D' s" by (auto simp: accounted_def x)
    ultimately have "devs_are D' (fst x')" using keepsD [OF io] by blast
    with \<open>devs_are D' s\<close> accounted_world [of D' s "fst x'" "snd x'" g] x' acc show "?E e x'" by (auto simp: x)
  qed
  have early: "triple (accounted D) m (\<lambda>_. accounted D) ?E" if "keeps (accounted D) m" for m :: "('w setup_sys, 'b) eff"
    by (rule triple_weaken [OF keeps_triple [OF that]]) simp_all
  have late: "triple (\<lambda>x. sg_committed (snd x)) m (\<lambda>_ _. True) ?E" if "keeps (\<lambda>x. sg_committed (snd x)) m" for m :: "('w setup_sys, 'b) eff"
    by (rule triple_weaken [OF keeps_triple [OF that]]) simp_all
  show ?thesis unfolding install_devices_def
    by (rule triple_andthen [OF early [OF devices_accounted [OF assms]]],
        rule triple_andthen [OF early [OF accounted_outer [OF keeps_devs_world(5)]]], rule triple_andthen [OF commit], rule late)
      (intro keeps_andthen keeps_basic keeps_outer; simp add: keeps_def)
qed

section \<open>Deleting them\<close>

lemma delete_created_ok:
  assumes "devs_are D s" "delete_created env i failures s = (Inr failures', s')"
  shows "\<exists>D'. devs_are D' s' \<and> (failures' = [] \<longrightarrow> failures = [] \<and> D' = D(i := None))"
proof -
  obtain z w where del: "sc_delete (en_simctl env) i (sy_world s) = (z, w)" by fastforce
  from assms(1) deleted [OF _ del] have D1: "ok w" "devs w = D \<or> devs w = D(i := None)" by (auto simp: devs_are_def)
  from assms(2) del have s': "s' = s\<lparr>sy_world := w\<rparr>" "failures' = [] \<longrightarrow> failures = [] \<and> z = Inr ()"
    by (cases z; auto simp: delete_created_def run_catching run_andthen run_simps lift_def)+
  have "devs w = D(i := None)" if "z = Inr ()"
    using D1(2) delete_done [of "sy_world s" i "()" w] del that assms(1) by (auto simp: devs_are_def)
  with D1 s' show ?thesis by (intro exI [of _ "devs w"]) (auto simp: devs_are_def)
qed

lemma delete_all_ok:
  assumes "devs_are D s" "fold_eff (delete_created env) is failures s = (Inr failures', s')"
  shows "\<exists>D'. devs_are D' s' \<and> (failures' = [] \<longrightarrow> failures = [] \<and> D' = without (set is) D)"
  using assms
proof (induction "is" arbitrary: D s failures)
  case Nil
  then show ?case by (auto simp: run_simps without_simps)
next
  case (Cons i js)
  from Cons.prems(2) obtain f1 s1 where one: "delete_created env i failures s = (Inr f1, s1)"
    and rest: "fold_eff (delete_created env) js f1 s1 = (Inr failures', s')" by (auto elim: andthen_InrE)
  from delete_created_ok [OF Cons.prems(1) one] obtain D1 where D1: "devs_are D1 s1" "f1 = [] \<longrightarrow> failures = [] \<and> D1 = D(i := None)" by blast
  from Cons.IH [OF D1(1) rest] D1(2) show ?case by (auto simp: without_simps)
qed

text \<open>What was accounted for and is deleted leaves the simulators that were there before.\<close>

lemma rollback_ok:
  assumes base: "set baseline = dom D"
    and acc: "accounted D (s, g)" and run: "rollbackCreatedSimulators env (sg_created g) baseline (sg_names g) s = (Inr [], s')"
  shows "devs_are D s'"
proof -
  from acc obtain D1 where D1: "devs_are D1 s" "\<And>i. i \<in> set (sg_created g) \<Longrightarrow> D i = None"
    "\<And>i. D1 i \<noteq> D i \<Longrightarrow> D i = None \<and> (i \<in> set (sg_created g) \<or> (\<exists>m. D1 i = Some m \<and> fst m \<in> set (sg_names g)))"
    by (auto simp: accounted_def)
  from run obtain found failures s1 where found: "find_leftovers env baseline (sg_names g) s = (Inr (found, failures), s1)"
    and del: "fold_eff (delete_created env) (rev (uniq (sg_created g @ found))) failures s1 = (Inr [], s')"
    unfolding rollbackCreatedSimulators_def by (auto elim!: andthen_InrE)
  obtain q s2 where ix: "readSimulatorDeviceIndex env s = (q, s2)" by fastforce
  have s1: "s1 = s2" using found ix by (cases q) (auto simp: find_leftovers_def run_catching run_andthen run_simps)
  have "devs_are D1 s1" using keepsD [OF keeps_devs_index D1(1) ix] s1 by simp
  from delete_all_ok [OF this del] obtain D2 where D2: "devs_are D2 s'" "failures = []" "D2 = without (set (sg_created g) \<union> set found) D1"
    by auto
  from found ix D2(2) obtain ixs where "q = Inr ixs" "found = setup_leftovers baseline (sg_names g) ixs"
    by (cases q) (auto simp: find_leftovers_def run_catching run_andthen run_simps)
  with index_lists(2) [OF D1(1)] ix have f: "i \<in> set found \<longleftrightarrow> i \<notin> dom D \<and> (\<exists>m. D1 i = Some m \<and> fst m \<in> set (sg_names g))" for i
    by (simp add: base)
  have "D2 i = D i" for i
  proof (cases "i \<in> set (sg_created g) \<union> set found")
    case True
    with D1(2) f have "D i = None" by blast
    with True D2(3) show ?thesis by (simp add: without_def)
  next
    case False
    with D1(3) f have "D1 i = D i" by (metis UnCI domIff)
    with False D2(3) show ?thesis by (simp add: without_def)
  qed
  then have "D2 = D" by blast
  with D2(1) show ?thesis by simp
qed

section \<open>The whole setup\<close>

definition unharmed :: "(string \<rightharpoonup> string \<times> string \<times> string) \<Rightarrow> setup_end \<Rightarrow> 'w sys \<Rightarrow> bool" where
  "unharmed D x s \<longleftrightarrow> (case x of Failed e [] False \<Rightarrow> devs_are D s \<and> sy_host s = None | _ \<Rightarrow> True)"

lemma unharmed_Set_up [simp]: "unharmed D (Set_up res) s"
  by (simp add: unharmed_def)

lemma keeps_unharmed: "(\<And>D'. keeps (devs_are D') (lift m)) \<Longrightarrow> keeps (unharmed D x) (lift m)"
  by (auto simp: keeps_def unharmed_def lift_def split: setup_end.splits list.splits bool.splits prod.splits)

lemma rollback_setup_unharmed:
  assumes "set baseline = dom D"
  shows "triple (\<lambda>x. accounted D x \<or> sg_committed (snd x)) (rollback_setup env baseline e) (\<lambda>z x. unharmed D z (fst x)) (\<lambda>_ _. True)"
proof (rule tripleI)
  fix x z x' assume pre: "accounted D x \<or> sg_committed (snd x)" and run: "rollback_setup env baseline e x = (Inr z, x')"
  obtain s g where x: "x = (s, g)" by fastforce
  show "unharmed D z (fst x')"
  proof (cases "sg_committed g \<or> sy_host s \<noteq> None")
    case True
    with run x have "z = Failed e [] True" by (auto simp: rollback_setup_def run_andthen run_simps)
    then show ?thesis by (simp add: unharmed_def)
  next
    case False
    with run x obtain failures s' where rb: "rollbackCreatedSimulators env (sg_created g) baseline (sg_names g) s = (Inr failures, s')"
      and z: "z = Failed e failures False" "fst x' = s'"
      by (auto simp: rollback_setup_def run_andthen run_simps run_outer split: prod.splits sum.splits)
    have "sy_host s' = None"
      using keepsD [OF rollback_keeps_host [of "\<lambda>h. h = None"] _ run] False x z by simp
    moreover have "devs_are D s'" if "failures = []"
      using rollback_ok [OF assms] rb pre False that by (auto simp: x)
    ultimately show ?thesis using z by (auto simp: unharmed_def split: list.splits)
  qed
qed simp

lemma create_host_unharmed: "triple (devs_are D) (create_setup_host env cancel opts p ts) (unharmed D) (\<lambda>_ _. True)"
proof -
  let ?g = "\<lparr>sg_created = [], sg_ids = [], sg_names = [], sg_committed = False\<rparr>"
  let ?m = "\<lambda>b a. catching (andthen (install_devices env cancel opts p b a ts) (\<lambda>r. ret (Set_up r))) (rollback_setup env b)"
  have body: "triple (devs_are D) (with_var ?g (?m b a)) (unharmed D) (\<lambda>_ _. True)" if b: "set b = dom D" for b a
  proof (rule tripleI)
    fix s z s' assume d: "devs_are D s" and run: "with_var ?g (?m b a) s = (Inr z, s')"
    from d have acc: "accounted D (s, ?g)" by (auto simp: accounted_def)
    have "triple (accounted D) (?m b a) (\<lambda>z x. unharmed D z (fst x)) (\<lambda>_ _. True)"
      by (rule triple_catching [OF triple_andthen [OF install_accounted [OF b]] rollback_setup_unharmed [OF b]]) (rule triple_ret, simp)
    from tripleD(1) [OF this acc] run show "unharmed D z s'" by (auto simp: with_var_def split: prod.splits)
  qed simp
  have index: "triple (devs_are D) (readSimulatorDeviceIndex env) (\<lambda>ix s. devs_are D s \<and> set (map fst ix) = dom D) (\<lambda>_ _. True)"
    by (rule tripleI) (use keepsD [OF keeps_devs_index] index_lists(1) in blast)+
  have attempt: "keeps (devs_are D) (case so_setupAttemptId opts of Some i \<Rightarrow> ret i | None \<Rightarrow> ask (en_uuid env))"
    by (intro keeps_option keeps_basic keeps_devs_io)
  have rest: "triple (\<lambda>s. devs_are D s \<and> set (map fst ix) = dom D) (andthen (case so_setupAttemptId opts of Some i \<Rightarrow> ret i | None \<Rightarrow> ask (en_uuid env))
      (\<lambda>a. with_var ?g (?m (map fst ix) a))) (unharmed D) (\<lambda>_ _. True)" for ix :: "(string \<times> device_info) list"
  proof (cases "set (map fst ix) = dom D")
    case True
    have "triple (devs_are D) (andthen (case so_setupAttemptId opts of Some i \<Rightarrow> ret i | None \<Rightarrow> ask (en_uuid env))
        (\<lambda>a. with_var ?g (?m (map fst ix) a))) (unharmed D) (\<lambda>_ _. True)"
      by (rule triple_andthen [OF triple_weaken [OF keeps_triple [OF attempt]] body [OF True]]) simp_all
    then show ?thesis by (rule triple_weaken) simp_all
  qed (simp add: triple_def)
  show ?thesis unfolding create_setup_host_def Let_def by (rule triple_andthen [OF index rest])
qed

lemma apply_unharmed: "triple (devs_are D) (applySetupBroker env kind cancel hostname opts) (unharmed D) (\<lambda>_ _. True)"
proof -
  have early: "triple (devs_are D) m (\<lambda>_. devs_are D) (\<lambda>_ _. True)" if "keeps (devs_are D) m" for m :: "('w sys, 'b) eff"
    by (rule triple_weaken [OF keeps_triple [OF that]]) simp_all
  have lock: "triple (devs_are D) (with_lock env k m) (unharmed D) (\<lambda>_ _. True)" if "triple (devs_are D) m (unharmed D) (\<lambda>_ _. True)" for k m
    by (rule triple_locked_world [OF keeps_devs_world(3) that keeps_unharmed [OF keeps_devs_world(4)]])
  have plan: "keeps (devs_are D) (buildSetupPlan env kind hostname opts)" by (rule keeps_setup_plan) (rule keeps_devs_world)+
  have keep: "triple (devs_are D) (keep_setup_host env opts p ts) (unharmed D) (\<lambda>_ _. True)" for p ts
    by (rule tripleI) (auto dest!: keep_host_run)
  have work: "triple (devs_are D) (if sv_configured p then keep_setup_host env opts p ts else create_setup_host env cancel opts p ts)
      (unharmed D) (\<lambda>_ _. True)" for p ts
    by (intro triple_If keep create_host_unharmed)
  show ?thesis unfolding applySetupBroker_def
    by (rule triple_andthen [OF early [OF keeps_devs_world(2)]], rule lock, rule lock, rule triple_andthen [OF early [OF keeps_devs_world(2)]],
        rule triple_andthen [OF early [OF plan]], rule triple_andthen [OF early [OF keeps_basic(3)] work])
qed

end

section \<open>The adapter of the tests\<close>

text \<open>The user interrupts the setup once \<open>n\<close> ids have been drawn.\<close>

definition cancel_after :: "nat \<Rightarrow> fixture_world \<Rightarrow> bool \<times> fixture_world" where
  "cancel_after n w = (n \<le> fw_drawn w, w)"

lemma indexed_device_rename:
  assumes "distinct (map fd_udid ds)"
  shows "j \<noteq> i \<Longrightarrow> map_of (map (\<lambda>d. (fd_udid d, device_identity d)) (update_first (\<lambda>d. fd_udid d = i) (\<lambda>d. d\<lparr>fd_name := n\<rparr>) ds)) j
      = map_of (map (\<lambda>d. (fd_udid d, device_identity d)) ds) j"
    "map_of (map (\<lambda>d. (fd_udid d, device_identity d)) (update_first (\<lambda>d. fd_udid d = i) (\<lambda>d. d\<lparr>fd_name := n\<rparr>) ds)) i = None
      \<longleftrightarrow> map_of (map (\<lambda>d. (fd_udid d, device_identity d)) ds) i = None"
  by (induction ds) (auto simp: device_identity_def device_runtime_def)

lemma update_first_ids: "map fd_udid (update_first P (\<lambda>d. d\<lparr>fd_name := n\<rparr>) ds) = map fd_udid ds"
  by (induction ds) auto

lemma fixture_rename_ok:
  assumes "fixture_ok w" "fixtureRenameDevice i n w = (z, w')"
  shows "fixture_ok w' \<and> (\<forall>j. j \<noteq> i \<longrightarrow> fixture_devs w' j = fixture_devs w j) \<and> (fixture_devs w' i = None \<longleftrightarrow> fixture_devs w i = None)"
  using assms(2) unfolding fixtureRenameDevice_def change_device_def
proof (cases rule: mutate_cases)
  case (written st x st' w1)
  then have d: "w1 = w" "st' = st\<lparr>fx_devices := update_first (\<lambda>d. fd_udid d = i) (\<lambda>d. d\<lparr>fd_name := n\<rparr>) (fx_devices st)\<rparr>"
    by (auto simp: run_andthen run_simps split: sum.splits)
  have ids: "map fd_udid (fx_devices st') = map fd_udid (fx_devices st)" by (simp add: d(2) update_first_ids)
  then have "fd_udid ` set (fx_devices st') = fd_udid ` set (fx_devices st)" by (metis set_map)
  with assms(1) written d(1) ids have ok: "fixture_ok w'" by (auto simp: fixture_ok_def)
  have "distinct (map fd_udid (fx_devices st))" using assms(1) written(1) by (simp add: fixture_ok_def)
  note r = indexed_device_rename [OF this]
  have "fixture_devs w' = map_of (map (\<lambda>d. (fd_udid d, device_identity d)) (fx_devices st'))" by (rule fixture_devs_map [OF ok]) (simp add: written)
  moreover have "fixture_devs w = map_of (map (\<lambda>d. (fd_udid d, device_identity d)) (fx_devices st))" by (rule fixture_devs_map [OF assms(1) written(1)])
  ultimately show ?thesis using ok r by (simp add: d(2))
qed (use assms(1) in \<open>auto simp: run_andthen run_simps fixture_ok_def fixture_devs_def split: sum.splits\<close>)

interpretation fixture_setup: setup_simulators fixture_env fixture_ok fixture_devs "cancel_after n" for n
proof -
  have sc: "en_simctl fixture_env = createFixtureSimctlAdapter" by (simp add: fixture_env_def env_over_def)
  have "setup_simulators_axioms fixture_env fixture_ok fixture_devs (cancel_after n)"
  proof
    show "world_keeps (\<lambda>w. fixture_ok w \<and> fixture_devs w = D) fixture_env" for D
      unfolding world_keeps_def keeps_def sc
      by (auto simp: fixture_env_def env_over_def draw_uuid_def createFixtureSimctlAdapter_def fixtureListDevices_def readFixtureState_def
          fixtureMeasureDeviceDiskBytes_def run_andthen run_simps fixture_ok_def fixture_devs_def split: option.splits sum.splits)
  next
    fix w :: fixture_world and i m z w'
    assume "fixture_ok w" "sc_rename (en_simctl fixture_env) i m w = (z, w')"
    then show "fixture_ok w' \<and> (\<forall>j. j \<noteq> i \<longrightarrow> fixture_devs w' j = fixture_devs w j) \<and> (fixture_devs w' i = None \<longleftrightarrow> fixture_devs w i = None)"
      using fixture_rename_ok unfolding sc by (simp add: createFixtureSimctlAdapter_def)
  next
    fix w :: fixture_world and i u w'
    assume "fixture_ok w" "sc_delete (en_simctl fixture_env) i w = (Inr u, w')"
    then show "fixture_devs w' i = None" using fixture_delete_ok [of w i "Inr u" w'] unfolding sc by (simp add: createFixtureSimctlAdapter_def)
  qed (auto simp: cancel_after_def)
  with fixture_broker.broker_simulators_axioms show "setup_simulators fixture_env fixture_ok fixture_devs (cancel_after n)"
    by (rule setup_simulators.intro)
qed

text \<open>A Mac with one simulator, which the starter plan reuses, and the confirmation of its plan.\<close>

definition setup_fixture :: fixture where
  "setup_fixture = \<lparr>fx_devices = [\<lparr>fd_dataPath = None, fd_deviceTypeIdentifier = ''type.iPhone-16'', fd_diskBytes = None, fd_isAvailable = True,
       fd_lastBootedAt = None, fd_name = simulatorDisplayName ''mac'' ''ui-1'', fd_runtimeIdentifier = Some ''runtime.iOS-18-2'', fd_state = None,
       fd_udid = ''OLD''\<rparr>],
     fx_devicetypes = [sample_iphone, setup_ipad], fx_runtimes = [setup_runtime_both]\<rparr>"

definition setup_world :: fixture_world where
  "setup_world = small_world\<lparr>fw_state := Some setup_fixture\<rparr>"

definition fresh_mac :: "fixture_world sys" where
  "fresh_mac = (sys_over setup_world)\<lparr>sy_host := None\<rparr>"

definition confirmed_setup :: setup_options where
  "confirmed_setup = plain_setup\<lparr>so_confirmPlanId := Some ''plan''\<rparr>"

lemma setup_succeeds:
  "case applySetupBroker fixture_env file_kinds (cancel_after 9) ''Mac'' confirmed_setup fresh_mac of
     (Inr (Set_up res), s') \<Rightarrow> st_created res = 5 \<and> st_reused res = 1 \<and> (case sy_host s' of None \<Rightarrow> False | Some v \<Rightarrow> True) | _ \<Rightarrow> False"
  by code_simp

lemma setup_is_interrupted:
  "case applySetupBroker fixture_env file_kinds (cancel_after 3) ''Mac'' confirmed_setup fresh_mac of
     (Inr (Failed e [] False), s') \<Rightarrow> payload_reason e = Some ''setup-interrupted'' | _ \<Rightarrow> False"
  by code_simp

lemma setup_world_ok: "fixture_ok setup_world"
  using small_world_ok by (auto simp: fixture_ok_def setup_world_def setup_fixture_def small_world_def small_fixture_def)

section \<open>Properties\<close>

text \<open>C18: when a setup ends with an error, without the host committed and without a failure of the rollback, the
  simulators are exactly those that were there before, with their names, types and runtimes, also when a
  creation failed after it had made the simulator; and there is no host configuration.\<close>

theorem failed_setup_leaves_no_simulator:
  assumes "setup_simulators env ok devs cancel" "ok (sy_world s)"
    and "applySetupBroker env kind cancel hostname opts s = (Inr (Failed e [] False), s')"
  shows "devs (sy_world s') = devs (sy_world s) \<and> sy_host s' = None"
proof -
  have b: "broker_simulators env ok devs" using assms(1) by (rule setup_simulators.axioms(1))
  from assms(2) have "broker_simulators.devs_are ok devs (devs (sy_world s)) s" by (simp add: broker_simulators.devs_are_def [OF b])
  from tripleD(1) [OF setup_simulators.apply_unharmed [OF assms(1)] this assms(3)] show ?thesis
    by (simp add: setup_simulators.unharmed_def [OF assms(1)] broker_simulators.devs_are_def [OF b])
qed

theorem failed_setup_leaves_no_simulator_witness:
  "\<exists>e s'. applySetupBroker fixture_env file_kinds (cancel_after 3) ''Mac'' confirmed_setup fresh_mac = (Inr (Failed e [] False), s')
     \<and> payload_reason e = Some ''setup-interrupted'' \<and> fixture_devs (sy_world s') = fixture_devs setup_world"
proof -
  let ?run = "applySetupBroker fixture_env file_kinds (cancel_after 3) ''Mac'' confirmed_setup fresh_mac"
  obtain e s' where run: "?run = (Inr (Failed e [] False), s')" "payload_reason e = Some ''setup-interrupted''"
    using setup_is_interrupted by (cases ?run) (auto split: sum.splits setup_end.splits list.splits bool.splits)
  have "fixture_ok (sy_world fresh_mac)" using setup_world_ok by (simp add: fresh_mac_def sys_over_def)
  from failed_setup_leaves_no_simulator [OF fixture_setup.setup_simulators_axioms this run(1)] run show ?thesis
    by (auto simp: fresh_mac_def sys_over_def)
qed

lemma setup_writes_only_the_confirmed_plan_witness:
  "\<exists>r s' p. applySetupBroker fixture_env file_kinds (cancel_after 9) ''Mac'' confirmed_setup fresh_mac = (r, s')
     \<and> sv_planId p = ''plan'' \<and> length (sv_devices p) = 6 \<and> planned_host p (sy_host s')"
proof -
  let ?run = "applySetupBroker fixture_env file_kinds (cancel_after 9) ''Mac'' confirmed_setup fresh_mac"
  obtain r s' where run: "?run = (r, s')" by fastforce
  then have "sy_host s' \<noteq> sy_host fresh_mac"
    using setup_succeeds by (auto simp: fresh_mac_def split: sum.splits setup_end.splits option.splits)
  from setup_writes_only_the_confirmed_plan [OF run this] run show ?thesis by (auto simp: confirmed_setup_def)
qed

lemma setup_ends_with_an_accepted_host_witness:
  "\<exists>res s'. applySetupBroker fixture_env file_kinds (cancel_after 9) ''Mac'' confirmed_setup fresh_mac = (Inr (Set_up res), s')
     \<and> st_created res = 5 \<and> st_reused res = 1 \<and> accepted_host res (sy_host s')"
proof -
  let ?run = "applySetupBroker fixture_env file_kinds (cancel_after 9) ''Mac'' confirmed_setup fresh_mac"
  obtain res s' where run: "?run = (Inr (Set_up res), s')" "st_created res = 5" "st_reused res = 1"
    using setup_succeeds by (cases ?run) (auto split: sum.splits setup_end.splits option.splits)
  from setup_ends_with_an_accepted_host [OF run(1)] run show ?thesis by blast
qed

end
