(* ===== verification/Host_Bootstrap.thy ===== *)
theory Host_Bootstrap
  imports Setup_Safety
begin

text \<open>
  A host without the guided setup, its checks and its status (\<open>buildProvisionedStarterHostConfig\<close>,
  \<open>assertHostConfigCanBeReplaced\<close> to \<open>hostStatusBroker\<close> and \<open>validateProjectBroker\<close> to
  \<open>forgetKnownProjectBroker\<close> in \<open>broker-core/index.mjs\<close>).  What \<open>attachRollbackFailures\<close> adds to the
  payload of an error is the second part of \<open>Inl\<close> in \<open>provision_starter_host\<close>.
\<close>

section \<open>Provisioning\<close>

record bootstrap_progress =
  bg_created :: "string list"
  bg_aliases :: "host_alias list"

definition starter_alias :: "template \<Rightarrow> provisioned \<Rightarrow> host_alias" where
  "starter_alias tm p = \<lparr>ha_alias = tm_alias tm, ha_capabilities = tm_capabilities tm, ha_deviceFamily = tm_deviceFamily tm,
     ha_displayName = tm_displayName tm, ha_iosVersion = pv_iosVersion p, ha_resetPolicy = tm_resetPolicy tm,
     ha_simulatorId = pv_simulatorId p\<rparr>"

definition provision_template :: "'w env \<Rightarrow> template \<Rightarrow> unit \<Rightarrow> ('w sys \<times> bootstrap_progress, unit) eff" where
  "provision_template env tm = (\<lambda>_.
    andthen (outer (ensureAliasSimulator env (tm_deviceFamily tm) (tm_iosVersion tm) (tm_simulatorName tm) None False)) (\<lambda>p.
      assign (\<lambda>g. \<lparr>bg_created = (if pv_created p then bg_created g @ [pv_simulatorId p] else bg_created g),
        bg_aliases = bg_aliases g @ [starter_alias tm p]\<rparr>)))"

definition provision_all ::
  "'w env \<Rightarrow> string \<Rightarrow> template list \<Rightarrow> ('w sys \<times> bootstrap_progress, string list \<times> host_config) eff" where
  "provision_all env hostId templates =
    andthen (fold_eff (provision_template env) templates ()) (\<lambda>_. andthen (look snd) (\<lambda>g.
      ret (bg_created g, \<lparr>hc_aliases = bg_aliases g, hc_hostId = hostId, hc_pendingRetirements = [], hc_slotReclaim = None\<rparr>)))"

definition undo_provision ::
  "'w env \<Rightarrow> string list \<Rightarrow> template list \<Rightarrow> berr
     \<Rightarrow> ('w sys \<times> bootstrap_progress, (berr \<times> rollback_failure list) + string list \<times> host_config) eff" where
  "undo_provision env baseline templates e =
    andthen (look snd) (\<lambda>g.
    andthen (outer (rollbackCreatedSimulators env (bg_created g) baseline (map tm_simulatorName templates))) (\<lambda>failures.
      ret (Inl (e, failures))))"

definition provision_starter_host ::
  "'w env \<Rightarrow> string \<Rightarrow> string option \<Rightarrow> string option
     \<Rightarrow> ('w sys, (berr \<times> rollback_failure list) + string list \<times> host_config) eff" where
  "provision_starter_host env hostname hostId iosVersion =
    andthen (check (buildStarterAliasTemplates hostname hostId iosVersion)) (\<lambda>(h, templates).
    andthen (readSimulatorDeviceIndex env) (\<lambda>ix.
      with_var \<lparr>bg_created = [], bg_aliases = []\<rparr>
        (catching (andthen (provision_all env h templates) (\<lambda>x. ret (Inr x))) (undo_provision env (map fst ix) templates))))"

definition buildProvisionedStarterHostConfig ::
  "'w env \<Rightarrow> string \<Rightarrow> string option \<Rightarrow> string option \<Rightarrow> ('w sys, string list \<times> host_config) eff" where
  "buildProvisionedStarterHostConfig env hostname hostId iosVersion =
    andthen (provision_starter_host env hostname hostId iosVersion) (\<lambda>r. case r of Inl (e, failures) \<Rightarrow> throw e | Inr x \<Rightarrow> ret x)"

section \<open>Initialisation\<close>

record init_options =
  nq_now :: "string option"
  nq_bootstrapConfig :: bool
  nq_force :: bool
  nq_hostId :: "string option"
  nq_iosVersion :: "string option"
  nq_termWaitMs :: "js option"
  nq_skipLeaseIds :: "string list"
  nq_inventory :: "inventory option"

definition load_with :: "'w env \<Rightarrow> init_options \<Rightarrow> string \<Rightarrow> ('w sys, broker_state) eff" where
  "load_with env opts ts =
    andthen (check (stateLoadOptions (nq_termWaitMs opts) (nq_skipLeaseIds opts) (nq_inventory opts) (nq_now opts))) (\<lambda>lo.
      loadBrokerState env lo ts)"

definition assertHostConfigCanBeReplaced :: "'w env \<Rightarrow> init_options \<Rightarrow> string \<Rightarrow> ('w sys, unit) eff" where
  "assertHostConfigCanBeReplaced env opts ts =
    andthen (load_with env opts ts) (\<lambda>st.
      if bs_leases st = [] \<and> bs_pins st = [] then ret ()
      else throw (broker_err ''Cannot replace the host config while leases or pins are active.'' ''alias-busy''))"

text \<open>\<open>rollbackCreatedSimulators\<close> without the names to look for.\<close>

definition delete_provisioned :: "'w env \<Rightarrow> string list \<Rightarrow> ('w sys, rollback_failure list) eff" where
  "delete_provisioned env created = fold_eff (delete_created env) (rev (uniq created)) []"

definition previous_host :: "'w env \<Rightarrow> init_options \<Rightarrow> string \<Rightarrow> ('w sys, host_config option) eff" where
  "previous_host env opts ts = andthen (look sy_host) (\<lambda>h.
    if h = None then ret None
    else andthen readHostConfigOrThrow (\<lambda>hc. andthen (assertHostConfigCanBeReplaced env opts ts) (\<lambda>_. ret (Some hc))))"

definition replace_host :: "'w env \<Rightarrow> host_config option \<Rightarrow> string list \<Rightarrow> host_config \<Rightarrow> ('w sys, bool) eff" where
  "replace_host env previous created hc =
    (let pending = (case previous of None \<Rightarrow> [] | Some p \<Rightarrow> pendingRetirementIdsForHostReplacement p hc);
         nexthc = (case Option.bind previous hc_slotReclaim of None \<Rightarrow> hc | Some policy \<Rightarrow> hc\<lparr>hc_slotReclaim := Some policy\<rparr>) in
     andthen (catching (writeHostConfig env (hostConfigWithPendingRetirements nexthc pending))
       (\<lambda>e. andthen (delete_provisioned env created) (\<lambda>_. throw e))) (\<lambda>_.
     if previous = None then ret True
     else andthen (retirePendingHostSimulators env pending nexthc) (\<lambda>rt.
       andthen (writeHostConfig env (hostConfigWithPendingRetirements nexthc (map fst (rt_failed rt)))) (\<lambda>_.
         case rt_failed rt of [] \<Rightarrow> ret True | (_, e) # _ \<Rightarrow> throw e))))"

definition bootstrap_host :: "'w env \<Rightarrow> string \<Rightarrow> init_options \<Rightarrow> string \<Rightarrow> ('w sys, bool) eff" where
  "bootstrap_host env hostname opts ts =
    andthen (look sy_host) (\<lambda>h.
      if h \<noteq> None \<and> \<not> nq_force opts then ret False
      else andthen (previous_host env opts ts) (\<lambda>previous.
        andthen (buildProvisionedStarterHostConfig env hostname (nq_hostId opts) (nq_iosVersion opts)) (\<lambda>(created, hc).
          replace_host env previous created hc)))"

definition initialize_host :: "'w env \<Rightarrow> string \<Rightarrow> init_options \<Rightarrow> string \<Rightarrow> ('w sys, bool \<times> broker_state) eff" where
  "initialize_host env hostname opts ts =
    andthen (if nq_bootstrapConfig opts then bootstrap_host env hostname opts ts else ret False) (\<lambda>created.
    andthen (load_with env opts ts) (\<lambda>st.
    andthen (appendEventRecord env (event_of ''host.initialized'' None None None None None
        [nat_text (length (hc_aliases (bs_host st))), if created then ''true'' else ''false'', hc_hostId (bs_host st)] ts)) (\<lambda>_.
      ret (created, st))))"

record init_result =
  ir_hostId :: string
  ir_hostConfigCreated :: bool
  ir_initializedAt :: string

definition initBroker :: "'w env \<Rightarrow> string \<Rightarrow> init_options \<Rightarrow> ('w sys, init_result) eff" where
  "initBroker env hostname opts =
    andthen (nowIso env (nq_now opts)) (\<lambda>ts.
    andthen (let m = with_lock env Lease_lock (initialize_host env hostname opts ts)
             in if nq_bootstrapConfig opts then with_lock env Capacity_lock m else m) (\<lambda>(created, st).
      ret \<lparr>ir_hostId = hc_hostId (bs_host st), ir_hostConfigCreated = created, ir_initializedAt = ts\<rparr>))"

section \<open>Reports\<close>

datatype doctor_issue =
    Config_issue berr
  | Missing_registry
  | Alias_issue string "string option" "string option" health "string list"

definition alias_doctor_issue :: "'w env \<Rightarrow> registry_entry \<Rightarrow> string \<Rightarrow> doctor_issue" where
  "alias_doctor_issue env e a =
    (let causeCode = knownDriftCauseCode (re_driftCauseCode e) in
     Alias_issue a causeCode (re_driftReason e) (re_health e)
       ([setupCliCommandWithSelectedPaths ''simbroker host status'' (en_paths env),
         setupCliCommandWithSelectedPaths (''simbroker simulators repair --alias '' @ shellQuoteArgument a) (en_paths env)]
        @ (if in_codes causeCode delete_trigger_cause_codes
           then [setupCliCommandWithSelectedPaths (''simbroker simulators delete --alias '' @ shellQuoteArgument a) (en_paths env)] else [])))"

text \<open>Loading has given every alias an entry.\<close>

definition doctor_alias_issues :: "'w env \<Rightarrow> broker_state \<Rightarrow> doctor_issue list" where
  "doctor_alias_issues env st = List.map_filter (\<lambda>h. case rg_aliases (bs_registry st) (ha_alias h) of
      None \<Rightarrow> None
    | Some e \<Rightarrow> if re_health e \<noteq> Healthy \<and> re_health e \<noteq> State_drift then Some (alias_doctor_issue env e (ha_alias h)) else None)
    (hc_aliases (bs_host st))"

record doctor_report =
  dr_issues :: "doctor_issue list"
  dr_ok :: bool
  dr_slotReclaim :: "(slot_policy \<times> reclaim_result option \<times> string) option"
  dr_timestamp :: string

definition doctorBroker :: "'w env \<Rightarrow> init_options \<Rightarrow> ('w sys, doctor_report) eff" where
  "doctorBroker env opts =
    andthen (nowIso env (nq_now opts)) (\<lambda>lockTimestamp.
    andthen (catching (andthen readHostConfigOrThrow (\<lambda>hc. ret (Inr hc))) (\<lambda>e. if is_broker_error e then ret (Inl e) else throw e)) (\<lambda>host.
    andthen (look sy_registry) (\<lambda>rg.
    let issues = (case host of Inl e \<Rightarrow> [Config_issue e] | Inr _ \<Rightarrow> []) @ (if rg = None then [Missing_registry] else []) in
    case host of
      Inl e \<Rightarrow> ret \<lparr>dr_issues = issues, dr_ok = (issues = []), dr_slotReclaim = None, dr_timestamp = lockTimestamp\<rparr>
    | Inr _ \<Rightarrow>
        andthen (with_lock env Lease_lock (andthen (nowIso env (nq_now opts)) (\<lambda>ts. andthen (load_with env opts ts) (\<lambda>st. ret (ts, st))))) (\<lambda>(ts, st).
        let all = issues @ doctor_alias_issues env st in
        ret \<lparr>dr_issues = all, dr_ok = (all = []), dr_slotReclaim = Some (buildSlotReclaimSummary st), dr_timestamp = ts\<rparr>))))"

record host_status =
  hs_hostId :: string
  hs_slotReclaim :: "slot_policy \<times> reclaim_result option \<times> string"
  hs_leased :: nat
  hs_pinned :: nat
  hs_total :: nat
  hs_unhealthy :: nat
  hs_simulators :: "alias_snapshot list"

definition host_snapshots :: "broker_state \<Rightarrow> alias_snapshot list" where
  "host_snapshots st = List.map_filter (\<lambda>h. map_option (\<lambda>e.
      aliasSnapshot h e (lease_on st (ha_alias h)) (pin_on st (ha_alias h))) (rg_aliases (bs_registry st) (ha_alias h))) (hc_aliases (bs_host st))"

definition host_status_of :: "broker_state \<Rightarrow> host_status" where
  "host_status_of st = (let sims = host_snapshots st in
    \<lparr>hs_hostId = hc_hostId (bs_host st), hs_slotReclaim = buildSlotReclaimSummary st,
     hs_leased = length (filter (\<lambda>x. as_activeLeaseId x \<noteq> None) sims), hs_pinned = length (filter (\<lambda>x. as_pin x \<noteq> None) sims),
     hs_total = length sims, hs_unhealthy = length (filter (\<lambda>x. re_health (as_entry x) = Repair_needed \<or> re_health (as_entry x) = Repairing) sims),
     hs_simulators = sims\<rparr>)"

definition hostStatusBroker :: "'w env \<Rightarrow> init_options \<Rightarrow> ('w sys, host_status) eff" where
  "hostStatusBroker env opts =
    andthen (nowIso env (nq_now opts)) (\<lambda>_.
    with_lock env Lease_lock (andthen (nowIso env (nq_now opts)) (\<lambda>ts. andthen (load_with env opts ts) (\<lambda>st. ret (host_status_of st)))))"

definition listSimulatorsBroker :: "'w env \<Rightarrow> init_options \<Rightarrow> ('w sys, host_status) eff" where
  "listSimulatorsBroker env opts = hostStatusBroker env opts"

section \<open>Known projects\<close>

definition rememberKnownProjectFromDisk :: "'w env \<Rightarrow> project_config \<Rightarrow> string \<Rightarrow> string \<Rightarrow> ('w sys, known_projects) eff" where
  "rememberKnownProjectFromDisk env cfg f ts =
    andthen (look sy_projects) (\<lambda>v. andthen (check (normalizeKnownProjects v ts)) (\<lambda>known. rememberKnownProject env known cfg f ts))"

definition validateProjectBroker :: "'w env \<Rightarrow> init_options \<Rightarrow> string option \<Rightarrow> ('w sys, project_config \<times> string) eff" where
  "validateProjectBroker env opts projectFile =
    andthen (nowIso env (nq_now opts)) (\<lambda>ts.
    with_lock env Lease_lock (andthen (readProjectConfigOrThrow env projectFile) (\<lambda>(cfg, f).
      andthen (rememberKnownProjectFromDisk env cfg f ts) (\<lambda>_. ret (cfg, f)))))"

definition showProjectBroker :: "'w env \<Rightarrow> init_options \<Rightarrow> string option \<Rightarrow> ('w sys, project_config \<times> string) eff" where
  "showProjectBroker env opts projectFile = validateProjectBroker env opts projectFile"

text \<open>\<open>True\<close> if the project was forgotten, \<open>False\<close> if it was not known.\<close>

definition forget_project :: "'w env \<Rightarrow> init_options \<Rightarrow> string \<Rightarrow> string \<Rightarrow> ('w sys, bool) eff" where
  "forget_project env opts projectId ts =
    andthen (load_with env opts ts) (\<lambda>st.
      if list_ex (\<lambda>l. ls_projectId l = projectId) (bs_leases st) \<or> list_ex (\<lambda>p. pn_projectId p = projectId) (bs_pins st)
      then throw (broker_err (''Cannot forget project '' @ projectId @ '' while it has active leases or pins.'') ''project-in-use'')
      else if projectId \<notin> fst ` set (kn_projects (bs_projects st)) then ret False
      else andthen (writeKnownProjects env ((bs_projects st)\<lparr>kn_projects := filter (\<lambda>(i, _). i \<noteq> projectId) (kn_projects (bs_projects st)),
          kn_updatedAt := ts\<rparr>)) (\<lambda>_.
        andthen (appendEventRecord env (event_of ''project.forgotten'' None None None None None [projectId] ts)) (\<lambda>_. ret True)))"

definition forgetKnownProjectBroker :: "'w env \<Rightarrow> init_options \<Rightarrow> js option \<Rightarrow> ('w sys, bool) eff" where
  "forgetKnownProjectBroker env opts projectId =
    andthen (nowIso env (nq_now opts)) (\<lambda>ts.
    andthen (check (requireProjectId projectId)) (\<lambda>i.
      with_lock env Lease_lock (forget_project env opts i ts)))"

section \<open>Provisioned hosts\<close>

lemma triple_of_keeps: "triple I m (\<lambda>_. I) (\<lambda>_. I) \<Longrightarrow> keeps I m"
  unfolding keeps_def
proof (intro allI impI)
  fix w assume m: "triple I m (\<lambda>_. I) (\<lambda>_. I)" and "I w"
  obtain r w' where "m w = (r, w')" by fastforce
  with tripleD [OF m \<open>I w\<close>] show "I (snd (m w))" by (cases r) auto
qed

lemma keeps_triple_post:
  assumes "keeps I m" "\<And>s x s'. m s = (Inr x, s') \<Longrightarrow> R x"
  shows "triple I m (\<lambda>x s. I s \<and> R x) (\<lambda>_. I)"
proof (rule tripleI)
  fix s x s' assume "I s" "m s = (Inr x, s')"
  with keepsD [OF assms(1)] assms(2) show "I s' \<and> R x" by simp
next
  fix s e s' assume "I s" "m s = (Inl e, s')"
  with keepsD [OF assms(1)] show "I s'" by simp
qed

lemma provision_fold:
  assumes "fold_eff (provision_template env) ts u (s, g) = (Inr u', (s', g'))"
  shows "map ha_alias (bg_aliases g') = map ha_alias (bg_aliases g) @ map tm_alias ts"
  using assms
proof (induction ts arbitrary: u s g)
  case Nil
  then show ?case by (simp add: run_simps)
next
  case (Cons tm ts)
  from Cons.prems obtain u1 s1 g1 where one: "provision_template env tm u (s, g) = (Inr u1, (s1, g1))"
    and rest: "fold_eff (provision_template env) ts u1 (s1, g1) = (Inr u', (s', g'))"
    by (auto elim!: andthen_InrE)
  from one have "map ha_alias (bg_aliases g1) = map ha_alias (bg_aliases g) @ [tm_alias tm]"
    by (auto simp: provision_template_def run_assign outer_eq starter_alias_def elim!: andthen_InrE)
  with Cons.IH [OF rest] show ?case by simp
qed

definition starter_host :: "host_config \<Rightarrow> bool" where
  "starter_host hc \<longleftrightarrow> map ha_alias (hc_aliases hc) = [''manual-1'', ''ui-1'', ''ui-2'', ''build-1'', ''build-2'', ''ipad-1'']
     \<and> hc_pendingRetirements hc = [] \<and> hc_slotReclaim hc = None"

lemma provisioned_host:
  assumes "buildProvisionedStarterHostConfig env hostname hostId v s = (Inr (created, hc), s')"
  shows "starter_host hc"
proof -
  from assms have "provision_starter_host env hostname hostId v s = (Inr (Inr (created, hc)), s')"
    unfolding buildProvisionedStarterHostConfig_def by (elim andthen_InrE) (auto simp: run_simps split: sum.splits prod.splits)
  then obtain y s0 where y: "buildStarterAliasTemplates hostname hostId v = Inr y"
    and inner: "(case y of (h, templates) \<Rightarrow> andthen (readSimulatorDeviceIndex env) (\<lambda>ix.
      with_var \<lparr>bg_created = [], bg_aliases = []\<rparr>
        (catching (andthen (provision_all env h templates) (\<lambda>x. ret (Inr x))) (undo_provision env (map fst ix) templates)))) s0
      = (Inr (Inr (created, hc)), s')"
    unfolding provision_starter_host_def by (rule andthen_InrE) (simp add: run_simps)
  obtain h ts where t: "buildStarterAliasTemplates hostname hostId v = Inr (h, ts)" and "y = (h, ts)" using y by (cases y) simp
  from inner [unfolded this(2) prod.case] obtain ix :: "(string \<times> device_info) list" and s1
    where "with_var \<lparr>bg_created = [], bg_aliases = []\<rparr> (catching (andthen (provision_all env h ts) (\<lambda>x. ret (Inr x)))
        (undo_provision env (map fst ix) ts)) s1 = (Inr (Inr (created, hc)), s')" by (rule andthen_InrE) (rule that)
  then obtain x where run: "catching (andthen (provision_all env h ts) (\<lambda>x. ret (Inr x))) (undo_provision env (map fst ix) ts)
        (s1, \<lparr>bg_created = [], bg_aliases = []\<rparr>) = (Inr (Inr (created, hc)), x)"
    by (auto simp: with_var_def split: prod.splits)
  have "\<not> (\<exists>e x'. undo_provision env (map fst ix) ts e x' = (Inr (Inr (created, hc)), x))"
    by (auto simp: undo_provision_def run_simps elim!: andthen_InrE)
  with run have "provision_all env h ts (s1, \<lparr>bg_created = [], bg_aliases = []\<rparr>) = (Inr (created, hc), x)"
    by (auto simp: run_catching run_andthen run_simps split: prod.splits sum.splits)
  then obtain u s2 g2 where fold: "fold_eff (provision_template env) ts () (s1, \<lparr>bg_created = [], bg_aliases = []\<rparr>) = (Inr u, (s2, g2))"
    and hc: "hc = \<lparr>hc_aliases = bg_aliases g2, hc_hostId = h, hc_pendingRetirements = [], hc_slotReclaim = None\<rparr>"
    by (auto simp: provision_all_def run_simps elim!: andthen_InrE)
  from templates_ok [OF t] obtain w where "ts = map (starter_template h w) starter_rows" by blast
  then have "map tm_alias ts = map fst starter_rows" by (auto simp: starter_template_def split: prod.splits)
  with provision_fold [OF fold] show ?thesis by (simp add: hc starter_host_def starter_rows_def)
qed

lemma keeps_host_rollback:
  "keeps (\<lambda>s. P (sy_host s)) (rollbackCreatedSimulators env c b n)" "keeps (\<lambda>s. P (sy_host s)) (delete_provisioned env c)"
  unfolding rollbackCreatedSimulators_def find_leftovers_def delete_created_def readSimulatorDeviceIndex_def delete_provisioned_def
  by (intro host_keeps keeps_fold)+

lemma keeps_host_provision: "keeps (\<lambda>s. P (sy_host s)) (buildProvisionedStarterHostConfig env hostname hostId v)"
proof -
  have fold: "keeps (\<lambda>(s, g :: bootstrap_progress). P (sy_host s)) (fold_eff (provision_template env) ts u)" for ts u
    unfolding provision_template_def
    by (intro keeps_fold keeps_andthen keeps_outer keeps_assign; (simp; intro keeps_simulators host_of_files)?)
  have undone: "keeps (\<lambda>(s, g :: bootstrap_progress). P (sy_host s)) (outer (rollbackCreatedSimulators env c b n))" for c b n
    by (rule keeps_outer) (simp add: keeps_host_rollback)
  show ?thesis
    unfolding buildProvisionedStarterHostConfig_def provision_starter_host_def provision_all_def undo_provision_def
    by (intro keeps_struct keeps_simulators host_of_files keeps_with_var fold undone)
qed

section \<open>Replacing a host\<close>

lemma keeps_host_loading: "keeps (\<lambda>s. P (sy_host s)) (load_with env opts ts)"
  unfolding load_with_def
  by (intro keeps_struct keeps_load_side lease_side_files [where P = "\<lambda>p h i. P h"])

text \<open>No lease and no pin when the host \<open>h\<close> was loaded.\<close>

definition unused_host :: "'w env \<Rightarrow> js option \<Rightarrow> bool" where
  "unused_host env h \<longleftrightarrow> (\<exists>lo ts s st s'. sy_host s = h \<and> loadBrokerState env lo ts s = (Inr st, s') \<and> bs_leases st = [] \<and> bs_pins st = [])"

definition replaceable :: "'w env \<Rightarrow> js option \<Rightarrow> host_config option \<Rightarrow> bool" where
  "replaceable env h previous \<longleftrightarrow> (case h of None \<Rightarrow> previous = None
     | Some v \<Rightarrow> unused_host env h \<and> (\<exists>p. previous = Some p \<and> validateHostConfig (Some v) = Inr p))"

text \<open>The host that replaces \<open>previous\<close>: what is still to be deleted are simulators that were managed and no longer are.\<close>

definition replacement :: "host_config option \<Rightarrow> host_config \<Rightarrow> bool" where
  "replacement previous hc \<longleftrightarrow> map ha_alias (hc_aliases hc) = [''manual-1'', ''ui-1'', ''ui-2'', ''build-1'', ''build-2'', ''ipad-1'']
     \<and> hc_slotReclaim hc = Option.bind previous hc_slotReclaim
     \<and> set (hc_pendingRetirements hc) \<subseteq> (case previous of None \<Rightarrow> {} | Some p \<Rightarrow>
          set (hc_pendingRetirements p) \<union> ha_simulatorId ` set (hc_aliases p) - ha_simulatorId ` set (hc_aliases hc))"

lemma previous_triple: "triple (\<lambda>s. sy_host s = h) (previous_host env opts ts) (\<lambda>p s. sy_host s = h \<and> replaceable env h p) (\<lambda>_ s. sy_host s = h)"
proof (rule tripleI)
  fix s p s' assume h: "sy_host s = h" and run: "previous_host env opts ts s = (Inr p, s')"
  have "keeps (\<lambda>s. sy_host s = h) (previous_host env opts ts)"
    unfolding previous_host_def assertHostConfigCanBeReplaced_def by (intro keeps_struct keeps_readHostConfig keeps_host_loading)
  from keepsD [OF this h run] have "sy_host s' = h" .
  moreover have "replaceable env h p"
  proof (cases h)
    case None
    with run h show ?thesis by (simp add: previous_host_def run_andthen run_simps replaceable_def)
  next
    case (Some v)
    with run h obtain hc s1 u where hc: "readHostConfigOrThrow s = (Inr hc, s1)" "p = Some hc"
      and free: "assertHostConfigCanBeReplaced env opts ts s1 = (Inr u, s')"
      by (auto simp: previous_host_def run_simps elim!: andthen_InrE)
    from hc h Some have v: "s1 = s" "validateHostConfig (Some v) = Inr hc" by (auto simp: readHostConfigOrThrow_def run_andthen run_simps)
    from free obtain lo st where "loadBrokerState env lo ts s = (Inr st, s')" "bs_leases st = []" "bs_pins st = []"
      unfolding assertHostConfigCanBeReplaced_def load_with_def v(1)
      by (auto simp: run_simps elim!: andthen_InrE split: if_splits)
    with h have "unused_host env h" unfolding unused_host_def by blast
    with v(2) hc(2) Some show ?thesis by (simp add: replaceable_def)
  qed
  ultimately show "sy_host s' = h \<and> replaceable env h p" by simp
next
  fix s e s' assume "sy_host s = h" "previous_host env opts ts s = (Inl e, s')"
  moreover have "keeps (\<lambda>s. sy_host s = h) (previous_host env opts ts)"
    unfolding previous_host_def assertHostConfigCanBeReplaced_def by (intro keeps_struct keeps_readHostConfig keeps_host_loading)
  ultimately show "sy_host s' = h" by (blast dest: keepsD)
qed

lemma retire_fold:
  "fold_eff (retire_one env nexts current) ps acc s = (Inr rt, s') \<Longrightarrow> fst ` set (rt_failed rt) \<subseteq> fst ` set (rt_failed acc) \<union> set ps"
proof (induction ps arbitrary: acc s)
  case Nil
  then show ?case by (auto simp: run_simps)
next
  case (Cons u ps)
  then obtain acc1 s1 where one: "retire_one env nexts current u acc s = (Inr acc1, s1)"
    and rest: "fold_eff (retire_one env nexts current) ps acc1 s1 = (Inr rt, s')" by (auto elim: andthen_InrE)
  from one have "fst ` set (rt_failed acc1) \<subseteq> insert u (fst ` set (rt_failed acc))"
    by (auto simp: retire_one_def run_catching run_andthen run_simps split: if_splits prod.splits sum.splits)
  with Cons.IH [OF rest] show ?case by auto
qed

lemma retire_failed:
  "retirePendingHostSimulators env pending hc s = (Inr rt, s') \<Longrightarrow> fst ` set (rt_failed rt) \<subseteq> set pending"
  unfolding retirePendingHostSimulators_def
  by (auto simp: run_simps elim!: andthen_InrE split: if_splits dest!: retire_fold)

text \<open>Every write of \<open>replace_host\<close> is a replacement.\<close>

lemma keeps_replace_host:
  assumes "starter_host hc" "\<And>hc. replacement previous hc \<Longrightarrow> P (Some (host_config_json hc))"
  shows "keeps (\<lambda>s. P (sy_host s)) (replace_host env previous created hc)"
proof -
  let ?pending = "case previous of None \<Rightarrow> [] | Some p \<Rightarrow> pendingRetirementIdsForHostReplacement p hc"
  let ?next = "case Option.bind previous hc_slotReclaim of None \<Rightarrow> hc | Some policy \<Rightarrow> hc\<lparr>hc_slotReclaim := Some policy\<rparr>"
  have ok: "P (Some (host_config_json (hostConfigWithPendingRetirements ?next ps)))" if "set ps \<subseteq> set ?pending" for ps
  proof (rule assms(2))
    have "set ?pending \<subseteq> (case previous of None \<Rightarrow> {} | Some p \<Rightarrow>
          set (hc_pendingRetirements p) \<union> ha_simulatorId ` set (hc_aliases p) - ha_simulatorId ` set (hc_aliases hc))"
      by (auto simp: pendingRetirementIdsForHostReplacement_def Let_def split: option.splits)
    with that assms(1) show "replacement previous (hostConfigWithPendingRetirements ?next ps)"
      unfolding replacement_def hostConfigWithPendingRetirements_def starter_host_def by (auto split: option.splits)
  qed
  have rest: "keeps (\<lambda>s. P (sy_host s)) (andthen (retirePendingHostSimulators env ?pending ?next) (\<lambda>rt.
      andthen (writeHostConfig env (hostConfigWithPendingRetirements ?next (map fst (rt_failed rt)))) (\<lambda>_.
        case rt_failed rt of [] \<Rightarrow> ret True | (_, e) # _ \<Rightarrow> throw e)))"
  proof -
    have "triple (\<lambda>s. P (sy_host s)) (retirePendingHostSimulators env ?pending ?next) (\<lambda>rt s. P (sy_host s) \<and> fst ` set (rt_failed rt) \<subseteq> set ?pending)
        (\<lambda>_ s. P (sy_host s))"
      by (rule keeps_triple_post [OF keeps_simulators(5) [OF host_of_files]]) (rule retire_failed)
    moreover have "triple (\<lambda>s. P (sy_host s) \<and> fst ` set (rt_failed rt) \<subseteq> set ?pending)
        (andthen (writeHostConfig env (hostConfigWithPendingRetirements ?next (map fst (rt_failed rt)))) (\<lambda>_.
          case rt_failed rt of [] \<Rightarrow> ret True | (_, e) # _ \<Rightarrow> throw e)) (\<lambda>_ s. P (sy_host s)) (\<lambda>_ s. P (sy_host s))" for rt
    proof (cases "fst ` set (rt_failed rt) \<subseteq> set ?pending")
      case True
      then have "set (map fst (rt_failed rt)) \<subseteq> set ?pending" by simp
      from ok [OF this] show ?thesis
        by (intro triple_weaken [OF keeps_triple [of "\<lambda>s. P (sy_host s)"]] keeps_struct keeps_host_io(4)) simp_all
    qed (simp add: triple_def)
    ultimately have "triple (\<lambda>s. P (sy_host s)) (andthen (retirePendingHostSimulators env ?pending ?next) (\<lambda>rt.
      andthen (writeHostConfig env (hostConfigWithPendingRetirements ?next (map fst (rt_failed rt)))) (\<lambda>_.
        case rt_failed rt of [] \<Rightarrow> ret True | (_, e) # _ \<Rightarrow> throw e))) (\<lambda>_ s. P (sy_host s)) (\<lambda>_ s. P (sy_host s))"
      by (rule triple_andthen)
    then show ?thesis by (rule triple_of_keeps)
  qed
  show ?thesis unfolding replace_host_def Let_def
    by (intro keeps_andthen keeps_catching keeps_If rest keeps_host_rollback keeps_basic keeps_host_io(4) ok) simp
qed

definition host_after :: "'w env \<Rightarrow> init_options \<Rightarrow> js option \<Rightarrow> js option \<Rightarrow> bool" where
  "host_after env opts h y \<longleftrightarrow> y = h \<or> (h \<noteq> None \<longrightarrow> nq_force opts)
     \<and> (\<exists>previous hc. replaceable env h previous \<and> y = Some (host_config_json hc) \<and> replacement previous hc)"

lemma host_after_same [simp]: "host_after env opts h h"
  by (simp add: host_after_def)


section \<open>What becomes of the replaced simulators\<close>

text \<open>A deletion that returns has happened, and a shutdown deletes nothing.\<close>

locale retiring_simulators = broker_simulators env ok devs
  for env :: "'w env" and ok :: "'w \<Rightarrow> bool" and devs :: "'w \<Rightarrow> string \<rightharpoonup> string \<times> string \<times> string" +
  assumes removed: "ok w \<Longrightarrow> sc_delete (en_simctl env) i w = (Inr u, w') \<Longrightarrow> devs w' i = None"
    and shut_down: "ok w \<Longrightarrow> sc_shutdown (en_simctl env) i w = (z, w') \<Longrightarrow> ok w' \<and> devs w' = devs w"
begin

text \<open>Of the ids in \<open>ids\<close> those outside of \<open>left\<close> are gone.\<close>

definition accounted_for :: "string set \<Rightarrow> string set \<Rightarrow> 'w sys \<Rightarrow> bool" where
  "accounted_for ids left s \<longleftrightarrow> ok (sy_world s) \<and> (\<forall>i\<in>ids. i \<in> left \<or> devs (sy_world s) i = None)"

lemma accounted_for_mono: "accounted_for ids left s \<Longrightarrow> left \<subseteq> left' \<Longrightarrow> accounted_for ids left' s"
  by (auto simp: accounted_for_def)

lemma accounted_write: "keeps (accounted_for ids left) (writeHostConfig env hc)"
proof -
  have "accounted_for ids left (s\<lparr>sy_world := w\<rparr>)" if "accounted_for ids left s" "en_io env f (sy_world s) = (x, w)" for f s x w
    using that io_devs [of "sy_world s" f x w] by (simp add: accounted_for_def)
  then have "keeps (accounted_for ids left) (ask (en_io env f))" for f by (auto simp: keeps_def ask_def split: prod.splits)
  then show ?thesis unfolding writeHostConfig_def writeJsonAtomicRestricted_def
    by (intro keeps_andthen keeps_io_outcome keeps_update keeps_basic) (simp_all add: accounted_for_def)
qed

lemma delete_alias_run:
  assumes "ok (sy_world s)" "deleteAliasSimulator env u s = (r, s')"
  shows "ok (sy_world s') \<and> (\<forall>i. devs (sy_world s) i = None \<longrightarrow> devs (sy_world s') i = None) \<and> (r = Inr v \<longrightarrow> devs (sy_world s') u = None)"
proof -
  obtain z w1 where sd: "sc_shutdown (en_simctl env) u (sy_world s) = (z, w1)" by fastforce
  note s1 = shut_down [OF assms(1) sd]
  obtain y w2 where del: "sc_delete (en_simctl env) u w1 = (y, w2)" by fastforce
  from s1 deleted [OF _ del] have d: "ok w2 \<and> (devs w2 = devs w1 \<or> devs w2 = (devs w1)(u := None))" by blast
  have "y = Inr v \<longrightarrow> devs w2 u = None" using removed [of w1 u v w2] s1 del by blast
  with assms(2) sd del s1 d show ?thesis
    by (cases z; cases y) (auto simp: deleteAliasSimulator_def run_andthen lift_def)
qed

lemma retire_accounts:
  assumes "fold_eff (retire_one env nexts current) ps acc s = (Inr rt, s')"
    and "accounted_for ids (nexts' \<union> fst ` set (rt_failed acc) \<union> set ps) s" "set nexts \<subseteq> nexts'"
    and "\<forall>i. i \<notin> set current \<longrightarrow> devs (sy_world s) i = None"
  shows "accounted_for ids (nexts' \<union> fst ` set (rt_failed rt)) s'"
  using assms
proof (induction ps arbitrary: acc s)
  case Nil
  then show ?case by (simp add: run_simps)
next
  case (Cons u ps)
  from Cons.prems(1) obtain acc1 s1 where one: "retire_one env nexts current u acc s = (Inr acc1, s1)"
    and rest: "fold_eff (retire_one env nexts current) ps acc1 s1 = (Inr rt, s')" by (auto elim: andthen_InrE)
  have step: "accounted_for ids (nexts' \<union> fst ` set (rt_failed acc1) \<union> set ps) s1 \<and> (\<forall>i. i \<notin> set current \<longrightarrow> devs (sy_world s1) i = None)"
  proof (cases "u \<in> set nexts \<or> u \<notin> set current")
    case True
    with one have "acc1 = acc" "s1 = s" by (auto simp: retire_one_def run_simps)
    with True Cons.prems(2,3,4) show ?thesis by (auto simp: accounted_for_def)
  next
    case False
    obtain y s2 where del: "deleteAliasSimulator env u s = (y, s2)" by fastforce
    have ok: "ok (sy_world s)" using Cons.prems(2) by (simp add: accounted_for_def)
    note d = delete_alias_run [OF ok del, of "()"]
    from one False del have s1: "s1 = s2" "acc1 = (case y of Inr _ \<Rightarrow> acc\<lparr>rt_retired := rt_retired acc @ [u]\<rparr> | Inl e \<Rightarrow> acc\<lparr>rt_failed := rt_failed acc @ [(u, e)]\<rparr>)"
      by (cases y; auto simp: retire_one_def run_catching run_andthen run_simps)+
    show ?thesis using d Cons.prems(2,4) s1 by (cases y) (auto simp: accounted_for_def)
  qed
  from Cons.IH [OF rest] step Cons.prems(3) show ?case by blast
qed

lemma replaced_accounts:
  assumes "ok (sy_world s)" "replace_host env (Some p) created hc s = (Inr b, s')" "starter_host hc"
  shows "\<exists>hc'. sy_host s' = Some (host_config_json hc') \<and> accounted_for (set (hc_pendingRetirements p) \<union> ha_simulatorId ` set (hc_aliases p))
    (ha_simulatorId ` set (hc_aliases hc') \<union> set (hc_pendingRetirements hc')) s'"
proof -
  let ?ids = "set (hc_pendingRetirements p) \<union> ha_simulatorId ` set (hc_aliases p)" and ?new = "ha_simulatorId ` set (hc_aliases hc)"
  let ?pending = "pendingRetirementIdsForHostReplacement p hc"
  define n where "n = (case Option.bind (Some p) hc_slotReclaim of None \<Rightarrow> hc | Some policy \<Rightarrow> hc\<lparr>hc_slotReclaim := Some policy\<rparr>)"
  have aliases: "hc_aliases n = hc_aliases hc" by (simp add: n_def split: option.splits)
  have "andthen (catching (writeHostConfig env (hostConfigWithPendingRetirements n ?pending)) (\<lambda>e. andthen (delete_provisioned env created) (\<lambda>_. throw e)))
      (\<lambda>_. andthen (retirePendingHostSimulators env ?pending n) (\<lambda>rt.
       andthen (writeHostConfig env (hostConfigWithPendingRetirements n (map fst (rt_failed rt)))) (\<lambda>_.
         case rt_failed rt of [] \<Rightarrow> ret True | (_, e) # _ \<Rightarrow> throw e))) s = (Inr b, s')"
    using assms(2) by (simp add: replace_host_def n_def Let_def)
  then obtain s1 rt s2 v1 v2 where wr: "writeHostConfig env (hostConfigWithPendingRetirements n ?pending) s = (Inr v1, s1)"
    and rt: "retirePendingHostSimulators env ?pending n s1 = (Inr rt, s2)"
    and wr2: "writeHostConfig env (hostConfigWithPendingRetirements n (map fst (rt_failed rt))) s2 = (Inr v2, s')"
    by (auto simp: run_catching run_andthen run_simps split: prod.splits sum.splits list.splits)
  have "accounted_for ?ids (?new \<union> set ?pending) s"
    using assms(1) by (auto simp: accounted_for_def pendingRetirementIdsForHostReplacement_def Let_def)
  from keepsD [OF accounted_write this wr] have s1: "accounted_for ?ids (?new \<union> set ?pending) s1" .
  have "accounted_for ?ids (?new \<union> fst ` set (rt_failed rt)) s2"
  proof (cases "?pending = []")
    case True
    with rt s1 show ?thesis by (auto simp: retirePendingHostSimulators_def run_simps)
  next
    case False
    with rt obtain ix s3 where ix: "readSimulatorDeviceIndex env s1 = (Inr ix, s3)"
      and fold: "fold_eff (retire_one env (map ha_simulatorId (hc_aliases n)) (map fst ix)) ?pending \<lparr>rt_failed = [], rt_retired = []\<rparr> s3 = (Inr rt, s2)"
      by (auto simp: retirePendingHostSimulators_def elim!: andthen_InrE)
    have ok1: "ok (sy_world s1)" using s1 by (simp add: accounted_for_def)
    from ix obtain iv w where w: "sc_inventory (en_simctl env) (sy_world s1) = (Inr iv, w)" "ix = createDeviceIndex iv" "s3 = s1\<lparr>sy_world := w\<rparr>"
      by (auto simp: readSimulatorDeviceIndex_def lift_def run_andthen run_simps split: prod.splits sum.splits)
    with listed [OF ok1 w(1)] have d: "ok w" "devs w = devs (sy_world s1)" "indexed_devices iv = devs w" by auto
    have "devs w i = None" if "i \<notin> set (map fst ix)" for i
      using that unfolding d(3) [symmetric] w(2) by (simp add: indexed_devices_def map_get_def map_of_eq_None_iff)
    moreover have "accounted_for ?ids (?new \<union> fst ` set [] \<union> set ?pending) s3" using s1 d w(3) by (simp add: accounted_for_def)
    ultimately show ?thesis
      using retire_accounts [OF fold, of ?ids ?new] by (simp add: aliases w(3))
  qed
  from keepsD [OF accounted_write this wr2] writeHostConfig_ok [OF wr2] show ?thesis
    by (intro exI [of _ "hostConfigWithPendingRetirements n (map fst (rt_failed rt))"])
      (simp add: hostConfigWithPendingRetirements_def aliases)
qed

end

lemma update_first_identity:
  "map (\<lambda>d. (fd_udid d, device_identity d)) (update_first P (\<lambda>d. d\<lparr>fd_state := x\<rparr>) ds) = map (\<lambda>d. (fd_udid d, device_identity d)) ds"
  by (induction ds) (auto simp: device_identity_def device_runtime_def)

lemma fixture_shutdown_ok:
  assumes "fixture_ok w" "fixtureShutdownDevice i w = (z, w')"
  shows "fixture_ok w' \<and> fixture_devs w' = fixture_devs w"
  using assms(2) unfolding fixtureShutdownDevice_def change_device_def
proof (cases rule: mutate_cases)
  case (written st x st' w1)
  then have d: "w1 = w" "st' = st\<lparr>fx_devices := update_first (\<lambda>d. fd_udid d = i) (\<lambda>d. d\<lparr>fd_state := Some ''Shutdown''\<rparr>) (fx_devices st)\<rparr>"
    by (auto simp: run_andthen run_simps split: sum.splits)
  let ?key = "\<lambda>d. (fd_udid d, device_identity d)"
  have keys: "map ?key (fx_devices st') = map ?key (fx_devices st)" by (simp add: d(2) update_first_identity)
  have key: "map fd_udid ds = map fst (map ?key ds)" for ds by (simp add: comp_def)
  have ids: "map fd_udid (fx_devices st') = map fd_udid (fx_devices st)" by (simp only: key keys)
  then have "fd_udid ` set (fx_devices st') = fd_udid ` set (fx_devices st)" by (metis set_map)
  with assms(1) written d(1) ids have ok: "fixture_ok w'" by (auto simp: fixture_ok_def)
  from fixture_devs_map [OF ok, of st'] fixture_devs_map [OF assms(1) written(1)] keys ok written show ?thesis by simp
qed (use assms(1) in \<open>auto simp: run_andthen run_simps fixture_ok_def fixture_devs_def split: sum.splits\<close>)

interpretation fixture_retiring: retiring_simulators fixture_env fixture_ok fixture_devs
proof -
  have sc: "en_simctl fixture_env = createFixtureSimctlAdapter" by (simp add: fixture_env_def env_over_def)
  have "retiring_simulators_axioms fixture_env fixture_ok fixture_devs"
  proof
    fix w :: fixture_world and i u w'
    assume "fixture_ok w" "sc_delete (en_simctl fixture_env) i w = (Inr u, w')"
    then show "fixture_devs w' i = None" using fixture_delete_ok [of w i "Inr u" w'] unfolding sc by (simp add: createFixtureSimctlAdapter_def)
  next
    fix w :: fixture_world and i z w'
    assume "fixture_ok w" "sc_shutdown (en_simctl fixture_env) i w = (z, w')"
    then show "fixture_ok w' \<and> fixture_devs w' = fixture_devs w" using fixture_shutdown_ok unfolding sc by (simp add: createFixtureSimctlAdapter_def)
  qed
  with fixture_broker.broker_simulators_axioms show "retiring_simulators fixture_env fixture_ok fixture_devs"
    by (rule retiring_simulators.intro)
qed

text \<open>C22: when a host is replaced and the call returns, every simulator that the old configuration managed or listed for deletion
  is managed by the new one on disk, is listed there for the next attempt, or is gone.\<close>

theorem replaced_simulators_are_accounted_for:
  assumes "retiring_simulators env ok devs" "ok (sy_world s)" "starter_host hc"
    and "replace_host env (Some p) created hc s = (Inr b, s')"
    and "i \<in> set (hc_pendingRetirements p) \<union> ha_simulatorId ` set (hc_aliases p)"
  shows "\<exists>hc'. sy_host s' = Some (host_config_json hc')
    \<and> (i \<in> ha_simulatorId ` set (hc_aliases hc') \<or> i \<in> set (hc_pendingRetirements hc') \<or> devs (sy_world s') i = None)"
  using retiring_simulators.replaced_accounts [OF assms(1,2,4,3)] assms(5)
  by (auto simp: retiring_simulators.accounted_for_def [OF assms(1)])

text \<open>C23: a project is only forgotten when no lease and no pin on disk is of it, and then the catalog of known projects that is
  written does not have it; a project that is not known stays so.\<close>

theorem forgotten_project_is_unused:
  assumes "forgetKnownProjectBroker env opts projectId s = (Inr b, s')" "lease_files.slots_ok (sy_leases s)"
  shows "\<exists>i (st :: broker_state). projectId = Some (JStr i) \<and> (\<forall>l\<in>set (bs_leases st). ls_projectId l \<noteq> i) \<and> (\<forall>p\<in>set (bs_pins st). pn_projectId p \<noteq> i)
    \<and> files_hold (bs_leases st) s' \<and> bs_pins st = map snd (sy_pins s')
    \<and> (if b then \<exists>known. sy_projects s' = Some (known_projects_json known)
           \<and> kn_projects known = filter (\<lambda>(j, _). j \<noteq> i) (kn_projects (bs_projects st)) \<and> i \<in> fst ` set (kn_projects (bs_projects st))
       else i \<notin> fst ` set (kn_projects (bs_projects st)))"
proof -
  from andthen_run [OF assms(1) [unfolded forgetKnownProjectBroker_def]] obtain ts s1
    where now: "nowIso env (nq_now opts) s = (Inr ts, s1)"
    and r1: "andthen (check (requireProjectId projectId)) (\<lambda>i. with_lock env Lease_lock (forget_project env opts i ts)) s1 = (Inr b, s')" by auto
  from r1 obtain i where i: "requireProjectId projectId = Inr i" and lock: "with_lock env Lease_lock (forget_project env opts i ts) s1 = (Inr b, s')"
    by (auto simp: run_andthen run_simps split: sum.splits)
  have s1: "sy_leases s1 = sy_leases s" using now by (auto simp: nowIso_def ask_def run_simps split: option.splits prod.splits)
  from with_lock_run [OF lock] obtain w w' r2 s2 where run: "forget_project env opts i ts (s1\<lparr>sy_world := w\<rparr>) = (Inr b, s2)" and s': "s' = s2\<lparr>sy_world := w'\<rparr>"
    by auto
  from run obtain lo st s3 where load: "loadBrokerState env lo ts (s1\<lparr>sy_world := w\<rparr>) = (Inr st, s3)"
    and rest: "(if list_ex (\<lambda>l. ls_projectId l = i) (bs_leases st) \<or> list_ex (\<lambda>p. pn_projectId p = i) (bs_pins st)
      then throw (broker_err (''Cannot forget project '' @ i @ '' while it has active leases or pins.'') ''project-in-use'')
      else if i \<notin> fst ` set (kn_projects (bs_projects st)) then ret False
      else andthen (writeKnownProjects env ((bs_projects st)\<lparr>kn_projects := filter (\<lambda>(j, _). j \<noteq> i) (kn_projects (bs_projects st)),
          kn_updatedAt := ts\<rparr>)) (\<lambda>_.
        andthen (appendEventRecord env (event_of ''project.forgotten'' None None None None None [i] ts)) (\<lambda>_. ret True))) s3 = (Inr b, s2)"
    by (auto simp: forget_project_def load_with_def run_simps elim!: andthen_InrE)
  have loaded: "files_hold (bs_leases st) s3" "bs_pins st = map snd (sy_pins s3)"
    using loadBrokerState_ok [OF load] assms(2) s1 by (simp_all add: loaded_def)
  have free: "\<forall>l\<in>set (bs_leases st). ls_projectId l \<noteq> i" "\<forall>p\<in>set (bs_pins st). pn_projectId p \<noteq> i"
    using rest by (auto simp: run_simps list_ex_iff split: if_splits)
  then have open_: "\<not> (list_ex (\<lambda>l. ls_projectId l = i) (bs_leases st) \<or> list_ex (\<lambda>p. pn_projectId p = i) (bs_pins st))"
    by (auto simp: list_ex_iff)
  have pid: "projectId = Some (JStr i)" using i by (auto simp: requireProjectId_def split: option.splits js.splits if_splits)
  show ?thesis
  proof (cases "i \<in> fst ` set (kn_projects (bs_projects st))")
    case False
    with rest open_ have "b = False" "s2 = s3" by (auto simp: run_simps)
    with False free loaded pid s' show ?thesis by (intro exI [of _ i] exI [of _ st]) (simp add: files_hold_def)
  next
    case True
    let ?known = "(bs_projects st)\<lparr>kn_projects := filter (\<lambda>(j, _). j \<noteq> i) (kn_projects (bs_projects st)), kn_updatedAt := ts\<rparr>"
    from True rest open_ obtain u s4 v where wr: "writeKnownProjects env ?known s3 = (Inr u, s4)"
      and log: "appendEventRecord env (event_of ''project.forgotten'' None None None None None [i] ts) s4 = (Inr v, s2)" and b: "b = True"
      by (auto simp: run_simps elim!: andthen_InrE)
    from wr have s4: "s4 = s3\<lparr>sy_projects := Some (known_projects_json ?known), sy_world := sy_world s4\<rparr>"
      unfolding writeKnownProjects_def by (auto dest!: restricted_ok)
    let ?J = "\<lambda>x. sy_projects x = sy_projects s4 \<and> sy_leases x = sy_leases s4 \<and> sy_pins x = sy_pins s4"
    have "keeps ?J (appendEventRecord env (event_of ''project.forgotten'' None None None None None [i] ts))"
      by (rule keeps_appendEvent) (simp_all add: of_files_def)
    from keepsD [OF this _ log] have J: "?J s2" by simp
    have "sy_projects s4 = Some (known_projects_json ?known)" "sy_leases s4 = sy_leases s3" "sy_pins s4 = sy_pins s3"
      by (subst s4, simp)+
    with J True free loaded pid s' b show ?thesis by (intro exI [of _ i] exI [of _ st]) (auto simp: files_hold_def intro!: exI [of _ ?known])
  qed
qed

section \<open>Witnesses\<close>

definition forced_init :: init_options where
  "forced_init = \<lparr>nq_now = None, nq_bootstrapConfig = True, nq_force = True, nq_hostId = None, nq_iosVersion = Some ''18.2'',
     nq_termWaitMs = None, nq_skipLeaseIds = [], nq_inventory = None\<rparr>"


definition old_host :: host_config where
  "old_host = sample_host_config\<lparr>hc_aliases := map (\<lambda>h. h\<lparr>ha_simulatorId := ''OLD''\<rparr>) (hc_aliases sample_host_config)\<rparr>"

definition new_host :: host_config where
  "new_host = \<lparr>hc_aliases = map (\<lambda>tm. starter_alias tm \<lparr>pv_created = True, pv_iosVersion = ''18.2'', pv_replaced = None, pv_simulatorId = tm_alias tm\<rparr>)
       (map (starter_template ''mac'' ''18.2'') starter_rows),
     hc_hostId = ''mac'', hc_pendingRetirements = [], hc_slotReclaim = None\<rparr>"

lemma replaced_simulators_are_accounted_for_witness:
  "\<exists>b s' hc'. replace_host fixture_env (Some old_host) [] new_host (sys_over setup_world) = (Inr b, s') \<and> sy_host s' = Some (host_config_json hc')
    \<and> (''OLD'' \<in> ha_simulatorId ` set (hc_aliases hc') \<or> ''OLD'' \<in> set (hc_pendingRetirements hc') \<or> fixture_devs (sy_world s') ''OLD'' = None)"
proof -
  let ?run = "replace_host fixture_env (Some old_host) [] new_host (sys_over setup_world)"
  have "case fst ?run of Inr b \<Rightarrow> True | Inl e \<Rightarrow> False" by code_simp
  then obtain b s' where run: "?run = (Inr b, s')" by (cases ?run) (auto split: sum.splits)
  have "fixture_ok (sy_world (sys_over setup_world))" using setup_world_ok by (simp add: sys_over_def)
  moreover have "starter_host new_host" by (simp add: starter_host_def new_host_def starter_rows_def starter_template_def starter_alias_def)
  moreover have "''OLD'' \<in> set (hc_pendingRetirements old_host) \<union> ha_simulatorId ` set (hc_aliases old_host)" by code_simp
  ultimately show ?thesis using replaced_simulators_are_accounted_for [OF fixture_retiring.retiring_simulators_axioms _ _ run] run by blast
qed

definition knowing_sys :: "unit sys" where
  "knowing_sys = (plain_sys [] [])\<lparr>sy_projects := Some (known_projects_json \<lparr>kn_projects = [(pc_projectId sample_project_config,
     createKnownProjectRecord plain_fs sample_project_config ''/repo/project.json'' ''t'')], kn_updatedAt = ''t''\<rparr>)\<rparr>"

lemma forgotten_project_is_unused_witness:
  "\<exists>s' (st :: broker_state) known. forgetKnownProjectBroker plain_env forced_init (Some (JStr (pc_projectId sample_project_config))) knowing_sys = (Inr True, s')
     \<and> sy_projects s' = Some (known_projects_json known) \<and> pc_projectId sample_project_config \<notin> fst ` set (kn_projects known)"
proof -
  let ?run = "forgetKnownProjectBroker plain_env forced_init (Some (JStr (pc_projectId sample_project_config))) knowing_sys"
  have "case fst ?run of Inr b \<Rightarrow> b | Inl e \<Rightarrow> False" by code_simp
  then obtain s' where run: "?run = (Inr True, s')" by (cases ?run) (auto split: sum.splits)
  have "lease_files.slots_ok (sy_leases knowing_sys)"
    by (simp add: knowing_sys_def lease_files.slots_ok_def plain_sys_def dir_get_def dir_ok_def)
  from forgotten_project_is_unused [OF run this] run show ?thesis by auto
qed

end
