(* ===== verification/Spec2Isabelle.thy ===== *)
theory Spec2Isabelle
  imports Host_Config Slot_Reclaim Selection Containment Capacity_Recovery Lock_Runs Ndjson Deletion Host_Bootstrap
begin

text \<open>
  A verification library for the simulator broker: the control plane with which people, agents and CI jobs
  share the iOS simulators of one Mac.  It models the broker core, \<open>src/broker-core/*.mjs\<close>; line numbers
  below are those of \<open>src/broker-core/index.mjs\<close> unless another file is named.

  \<^bold>\<open>The program.\<close>  A host configuration lists aliases, each bound to one simulator.  Projects declare
  purposes.  A request for a purpose selects an alias, resets its simulator if the purpose wants that and
  writes a lease file; a release removes it.  Pins reserve aliases.  The registry caches the health and the
  power state of every alias.  Every operation runs under a directory lock, loads the whole state from its
  files (reclaiming leases whose owner is gone, and ending the processes such a lease left behind), acts
  through \<open>xcrun simctl\<close>, writes the files back and appends to an audit log.

  \<^bold>\<open>How it is modelled.\<close>  An operation is a state transformer that returns a value or throws
  (\<open>('w, 'a) eff\<close> in \<open>Effects\<close>); a throw keeps the changes made before it.  The state \<open>'w sys\<close> of
  \<open>Broker_Store\<close> is a record with one field per state file and the world \<open>'w\<close> outside; an \<open>'w env\<close>
  holds what the code calls but does not define: the clock, the digest, the file system calls that may fail
  (before or after their effect), the locks, the processes and signals, and the commands of simctl.  Every
  theorem holds for all of these, unless it names an assumption.  An error is a record with the reason code
  and the message the code gives it; the other members of its payload are mostly left out.

  \<^bold>\<open>Theories, in the order of the imports.\<close>
  \<^item> \<open>Prelude\<close>: strings, lists and sorting of JavaScript; \<open>Effects\<close>: state transformers, their
    Hoare triples (\<open>triple\<close>) and preserved properties (\<open>keeps\<close>); \<open>Json_Values\<close>: JSON values and
    the checks of fields (\<open>requireString\<close> and others, 673 to 800).
  \<^item> \<open>Error_Contract\<close>: \<open>error-contract.mjs\<close>, reason codes, exit codes and HTTP statuses.
  \<^item> \<open>Broker_Types\<close>, \<open>Versions\<close>, \<open>Host_Config\<close>: the records; version strings; the
    checks of the host, project and idle configuration, with the round trip through JSON.
  \<^item> \<open>Slot_Reclaim\<close>: \<open>slot-reclaim.mjs\<close>, when the data of a simulator is erased.
  \<^item> \<open>Devices\<close>, \<open>Registry\<close>, \<open>Selection\<close>: the index of the simulators; the registry, its
    checks and its synchronisation (2562 to 2800); the candidates of a request, their objections and order.
  \<^item> \<open>Process_Text\<close>, \<open>Processes\<close>, \<open>Containment\<close>: \<open>containment.mjs\<close>, the output of
    \<open>ps\<close>, the processes that belong to a lease, and the loop that ends them.
  \<^item> \<open>Paths\<close>, \<open>Broker_Store\<close>, \<open>Broker_Load\<close>: the state paths; the state files; loading.
  \<^item> \<open>Slot_Sweep\<close>, \<open>Lease_Ops\<close>, \<open>Lease_Proofs\<close>, \<open>Pins\<close>, \<open>Idle\<close>,
    \<open>Lifecycle\<close>: the sweep that erases slots; acquiring, binding and releasing leases (7500 to 8200);
    pins (5810 to 5990); the shutdown of idle simulators; boot, shutdown, erase and repair of one alias.
  \<^item> \<open>Provisioning\<close>, \<open>Capacity\<close>, \<open>Capacity_Plan\<close>, \<open>Capacity_Apply\<close>,
    \<open>Capacity_Rollback\<close>, \<open>Capacity_Recovery\<close>, \<open>Simctl\<close>: the simulators a project lacks,
    the plan that adds them, the transaction that applies it (6230 to 7500), and the adapters of
    \<open>simctl.mjs\<close>.
  \<^item> \<open>Deletion\<close>: deletion of simulators and the repair of a purpose (8514 to 8959).
  \<^item> \<open>Starter\<close>, \<open>Setup_Plan\<close>, \<open>Setup_Apply\<close>, \<open>Setup_Host\<close>,
    \<open>Setup_Safety\<close>: the guided setup of a host (1077 to 1196, 1427 to 1452, 1627 to 2560), its starter
    templates, its preview, its application, what it writes and what its rollback leaves;
    \<open>Host_Bootstrap\<close>: a host without that setup, its checks and status, known projects (1473 to 1511,
    5309 to 5483, 5575 to 5676).
  \<^item> \<open>Locks\<close>, \<open>Lock_Safety\<close>, \<open>Lock_Runs\<close>: the directory locks (4059 to 4463) as a step
    relation with one file system call per step, so that processes interleave.
  \<^item> \<open>Ndjson\<close>: the event file, its repair, the reader of its end and the event query (488 to 655,
    5678 to 5753).

  \<^bold>\<open>What is shown.\<close>  Inputs: accepted configurations and registries are well formed and survive a
  round trip through their files.  Decisions: which alias a request gets, which slots are erased, which
  simulators are idle, which capacity is missing, which processes belong to a lease.  Operations, on every
  path and whatever call fails: an acquired lease is alone on its alias, a failed acquisition leaves none, a
  release removes the lease or restores it; actions respect leases; the host configuration changes only by a
  confirmed plan or a permitted deletion; a plan that is rolled back leaves the simulators that were there; a setup writes only the plan that was
  confirmed, and one that fails before the commit leaves neither a host nor a simulator; a
  replaced host was unused, and its simulators are managed, listed for deletion or gone.
  Locks: mutual exclusion in runs in which no wait is too long and every exit is noticed, a run in which an
  ill-timed exit lets two processes in, and the takeover of the lock of a dead process.

  \<^bold>\<open>Interfaces.\<close>  The locale \<open>comparator\<close> (\<open>sign_comparator\<close> extends it) is the contract of
  \<open>Array.prototype.sort\<close>, interpreted for every comparison the code sorts by.  The locale
  \<open>keyed_files\<close> is a directory with one file per record, in which no two records hold the same slot; it is
  interpreted for leases, pins and transactions.  The locale \<open>simulators\<close>, with
  \<open>broker_simulators\<close> over it, states what the capacity code relies on in simctl, and \<open>setup_simulators\<close>
  and \<open>retiring_simulators\<close>
  add what setup and replacement rely on; they are interpreted for the fixture adapter that the repository ships.

  \<^bold>\<open>Bounds.\<close>  Loops that end by their data are recursive functions with a measure.  The wait for a
  shutdown runs at most 481 rounds because the code counts 120 seconds in steps of 250 ms (\<open>Simctl\<close>);
  a containment samples at most eight times; a lock whose owner is gone is taken in at most 25 steps of one
  process (\<open>Lock_Runs\<close>); the reader of the event file's end is proved for every chunk size.

  \<^bold>\<open>Not modelled.\<close>  The records per project and the snapshot of the app (3527 to 3731, 5754 to 5810),
  which compose data modelled here for display, and \<open>initProjectBroker\<close>, which writes the project file
  outside the state.  The command line client, the service \<open>brokerd\<close> and its client, the
  agent harness, the scripts and the Swift application are outside the core: flag parsing, sockets and
  process control around it.  Within the core: file modes, temporary names and \<open>fsync\<close>; \<open>rmSync\<close> of a
  lock directory and the temporary file of its owner record are one step; characters are bytes below 256
  (no UTF-16, no Unicode case folding); the formatting of evidence files.  In the operations other than those
  of \<open>Locks\<close> a lock is a pair of calls that may fail, because \<open>Lock_Safety\<close> shows when they exclude.
\<close>

end
